(* ===== verification/C_Prelude.thy ===== *)
theory C_Prelude
  imports Main "HOL-Library.Word"
begin

text \<open>
  Shared prelude.  Names for the fixed-width integers of the C and C++ sources, the bit-field macros of
  Dobby's \<^verbatim>\<open>common/macros/utilities_macro.h\<close>, little-endian byte images of words, the errors a
  component can end in, and the generic lemmas on words and lists that the component theories
  share.  \<open>c_fields\<close> collects the unfolding rules of the bit-field macros, \<open>c_wf\<close> the rules that
  say that an operation keeps a component's invariant.
\<close>

unbundle bit_operations_syntax

named_theorems c_fields "definitions of the C bit-field macros"
named_theorems c_wf "operations keep the well-formedness of their component"

type_synonym u8 = "8 word"
type_synonym u16 = "16 word"
type_synonym u32 = "32 word"
type_synonym u64 = "64 word"

text \<open>
  What ends a run of the program before its result: \<open>FATAL\<close> in its three spellings
  (\<^verbatim>\<open>UNREACHABLE()\<close>, \<^verbatim>\<open>UNIMPLEMENTED()\<close>, a failed \<^verbatim>\<open>CHECK\<close>), an access outside the
  array it is made in, a null pointer that is followed, and a write to a page without write permission.
\<close>

datatype cerror = Unreachable | Unimplemented | CheckFailed | OutOfBounds | NullPointer
  | AccessFault

type_synonym 'a res = "cerror + 'a"

text \<open>Sequencing of operations that may end the run.\<close>

definition res_bind :: "'a res \<Rightarrow> ('a \<Rightarrow> 'b res) \<Rightarrow> 'b res" where
  "res_bind r f = (case r of Inl e \<Rightarrow> Inl e | Inr x \<Rightarrow> f x)"

lemma res_bind_simps [simp]: "res_bind (Inl e) f = Inl e" "res_bind (Inr x) f = f x"
  by (simp_all add: res_bind_def)

lemma res_bind_Inr_iff: "res_bind r f = Inr y \<longleftrightarrow> (\<exists>x. r = Inr x \<and> f x = Inr y)"
  by (cases r) simp_all

section \<open>Bit-field macros\<close>

definition LFT :: "'a::len word \<Rightarrow> nat \<Rightarrow> nat \<Rightarrow> 'a word" where
  "LFT a b c = push_bit c (a AND mask b)"

definition RHT :: "'a::len word \<Rightarrow> nat \<Rightarrow> nat \<Rightarrow> 'a word" where
  "RHT a b c = drop_bit c a AND mask b"

definition submask :: "nat \<Rightarrow> 'a::len word" where
  "submask x = mask (x + 1)"

definition bits :: "'a::len word \<Rightarrow> nat \<Rightarrow> nat \<Rightarrow> 'a word" where
  "bits obj st fn = drop_bit st obj AND submask (fn - st)"

definition bit_of :: "'a::len word \<Rightarrow> nat \<Rightarrow> 'a word" where
  "bit_of obj st = drop_bit st obj AND 1"

definition sbits :: "'a::len word \<Rightarrow> nat \<Rightarrow> nat \<Rightarrow> 'a word" where
  "sbits obj st fn = bits obj st fn OR (bit_of obj fn * NOT (submask (fn - st)))"

definition set_bit_c :: "'a::len word \<Rightarrow> nat \<Rightarrow> 'a word \<Rightarrow> 'a word" where
  "set_bit_c obj st b = (NOT (push_bit st 1) AND obj) OR push_bit st b"

definition set_bits_c :: "'a::len word \<Rightarrow> nat \<Rightarrow> nat \<Rightarrow> 'a word \<Rightarrow> 'a word" where
  "set_bits_c obj st fn v = (NOT (push_bit st (submask (fn - st))) AND obj) OR push_bit st v"

definition ALIGN_FLOOR :: "'a::len word \<Rightarrow> 'a word \<Rightarrow> 'a word" where
  "ALIGN_FLOOR address rng = address AND NOT (rng - 1)"

definition ALIGN_CEIL :: "'a::len word \<Rightarrow> 'a word \<Rightarrow> 'a word" where
  "ALIGN_CEIL address rng = (address + rng - 1) AND NOT (rng - 1)"

declare LFT_def [c_fields] RHT_def [c_fields] submask_def [c_fields] bits_def [c_fields]
  bit_of_def [c_fields] sbits_def [c_fields] set_bit_c_def [c_fields] set_bits_c_def [c_fields]

text \<open>The macro with its mask as a number, for evaluation on numerals.\<close>

lemma LFT_eval: "LFT a b c = push_bit c (a AND (2 ^ b - 1))" for a :: "'a::len word"
  by (simp add: LFT_def mask_eq_exp_minus_1)

lemma bit_LFT_iff [bit_simps]:
  "bit (LFT a b c) n \<longleftrightarrow> n < LENGTH('a) \<and> c \<le> n \<and> n < b + c \<and> bit a (n - c)" for a :: "'a::len word"
  by (auto simp: LFT_def bit_simps)

lemma bit_bits_iff [bit_simps]:
  "bit (bits a st fn) n \<longleftrightarrow> n < LENGTH('a) \<and> n < fn - st + 1 \<and> bit a (st + n)" for a :: "'a::len word"
  by (auto simp: bits_def submask_def bit_simps)

text \<open>A field that fits is read back from where it was placed.\<close>

lemma bits_LFT_same:
  fixes a :: "'a::len word"
  assumes "0 < b" "b + c \<le> LENGTH('a)"
  shows "bits (LFT a b c) c (c + b - 1) = a AND mask b"
  using assms by (intro bit_word_eqI) (auto simp: bit_simps)

lemma bits_OR: "bits (a OR b) st fn = bits a st fn OR bits b st fn" for a b :: "'a::len word"
  by (intro bit_word_eqI) (auto simp: bit_simps)

lemma bits_LFT_other:
  fixes a :: "'a::len word"
  assumes "fn < c \<or> b + c \<le> st" "st \<le> fn"
  shows "bits (LFT a b c) st fn = 0"
  using assms by (intro bit_word_eqI) (auto simp: bit_simps)

text \<open>\<open>ALIGN_FLOOR\<close> by a power of two clears the low bits.\<close>

lemma ALIGN_FLOOR_mask: "ALIGN_FLOOR a (2 ^ k) = a AND NOT (mask k)" for a :: "'a::len word"
  by (simp add: ALIGN_FLOOR_def mask_eq_exp_minus_1)

lemma unat_ALIGN_FLOOR:
  fixes a :: "'a::len word"
  assumes "k < LENGTH('a)"
  shows "unat (ALIGN_FLOOR a (2 ^ k)) = unat a div 2 ^ k * 2 ^ k"
proof -
  have t: "unat a < 2 ^ LENGTH('a)" by (rule unsigned_less)
  have "ALIGN_FLOOR a (2 ^ k) = push_bit k (drop_bit k a)"
    unfolding ALIGN_FLOOR_mask by (rule bit_word_eqI) (auto simp: bit_simps)
  then have "unat (ALIGN_FLOOR a (2 ^ k)) = take_bit LENGTH('a) (push_bit k (drop_bit k (unat a)))"
    using t by (simp add: unsigned_push_bit_eq unsigned_drop_bit_eq take_bit_nat_eq_self)
  also have "\<dots> = take_bit LENGTH('a) (unat a div 2 ^ k * 2 ^ k)" by (simp add: push_bit_eq_mult drop_bit_eq_div)
  also have "\<dots> = unat a div 2 ^ k * 2 ^ k"
  proof (rule take_bit_nat_eq_self)
    show "unat a div 2 ^ k * 2 ^ k < 2 ^ LENGTH('a)"
      using t div_times_less_eq_dividend [of "unat a" "2 ^ k"] by (rule le_less_trans [rotated])
  qed
  finally show ?thesis .
qed

text \<open>
  A word is often known as a disjunction of fields: tests against a mask and extractions of a field
  distribute over it, and a field that the mask or the extraction does not meet drops out.
\<close>

definition fw :: "nat \<Rightarrow> nat \<Rightarrow> 'a::len word \<Rightarrow> 'a word" where
  "fw lo n w = drop_bit lo w AND mask n"

lemma fw_OR: "fw lo n (a OR b) = fw lo n a OR fw lo n b" for a b :: "'a::len word"
  unfolding fw_def by (rule bit_word_eqI) (auto simp: bit_simps)

lemma fw_LFT_same: "n + lo \<le> LENGTH('a) \<Longrightarrow> fw lo n (LFT x n lo) = x AND mask n" for x :: "'a::len word"
  unfolding fw_def by (rule bit_word_eqI) (auto simp: bit_simps)

lemma fw_LFT_other: "k + m \<le> lo \<or> lo + n \<le> k \<Longrightarrow> fw lo n (LFT x m k) = 0" for x :: "'a::len word"
  unfolding fw_def by (rule bit_word_eqI) (auto simp: bit_simps)

lemma fw_numeral: "fw lo n (numeral v) = (drop_bit lo (numeral v) AND (2 ^ n - 1) :: 'a::len word)"
  by (simp add: fw_def mask_eq_exp_minus_1)

lemma LFT_AND_0:
  fixes M :: "'a::len word"
  assumes "push_bit k (2 ^ m - 1) AND M = 0"
  shows "LFT x m k AND M = 0"
proof -
  have "LFT x m k AND M = push_bit k x AND (push_bit k (2 ^ m - 1) AND M)"
    by (simp add: LFT_eval push_bit_and and.assoc)
  with assms show ?thesis by simp
qed

lemma of_nat_AND_mask: "r < 2 ^ n \<Longrightarrow> of_nat r AND mask n = (of_nat r :: 'a::len word)"
  by (simp add: take_bit_of_nat take_bit_nat_eq_self flip: take_bit_eq_mask)

lemma unat_field: "r < 2 ^ n \<Longrightarrow> n \<le> LENGTH('a) \<Longrightarrow> unat (of_nat r AND mask n :: 'a::len word) = r"
  by (simp add: of_nat_AND_mask unsigned_of_nat take_bit_nat_eq_self order.strict_trans2 [OF _ power_increasing])

lemma unat_ucast_field:
  fixes d :: "'a::len word"
  assumes "n \<le> LENGTH('b)"
  shows "unat ((ucast (drop_bit k d) :: 'b::len word) AND mask n) = unat d div 2 ^ k mod 2 ^ n"
proof -
  have "unat ((ucast (drop_bit k d) :: 'b word) AND mask n) = take_bit n (take_bit LENGTH('b) (drop_bit k (unat d)))"
    by (simp only: take_bit_eq_mask [symmetric] unsigned_take_bit_eq unsigned_ucast_eq unat_drop_bit_eq)
  also have "\<dots> = take_bit n (drop_bit k (unat d))" using assms by (simp only: take_bit_take_bit min_absorb1)
  finally show ?thesis by (simp only: take_bit_eq_mod drop_bit_eq_div)
qed

lemma unat_field_div:
  fixes d :: "'a::len word"
  shows "unat (drop_bit k d AND mask n) = unat d div 2 ^ k mod 2 ^ n"
  by (simp only: take_bit_eq_mask [symmetric] unsigned_take_bit_eq unat_drop_bit_eq, simp only: take_bit_eq_mod drop_bit_eq_div)

lemmas fields = fw_OR fw_LFT_same fw_LFT_other fw_numeral
lemmas mask_fields = bit.conj_disj_distrib2 LFT_AND_0

section \<open>Words known on a mask\<close>

text \<open>
  \<open>mask_sub\<close> and \<open>mask_neq\<close> turn one fact \<^prop>\<open>a AND m = v\<close> into rewrite rules that decide every
  other mask test on \<open>a\<close>: decoders are evaluated with them on an instruction of which only the
  fixed bits are known.
\<close>

lemma mask_sub: "a AND m = v \<Longrightarrow> m' AND m = m' \<Longrightarrow> a AND m' = v AND m'" for a :: "'a::len word"
  by (metis and.assoc and.commute)

lemma mask_neq: "a AND m = v \<Longrightarrow> v AND m' \<noteq> v' AND m \<Longrightarrow> a AND m' \<noteq> v'" for a :: "'a::len word"
  by (metis and.assoc and.commute)

lemma drop_bit_top: "drop_bit n x \<noteq> 0 \<longleftrightarrow> (\<exists>k \<ge> n. bit x k)" for x :: "'a::len word"
proof
  assume "drop_bit n x \<noteq> 0"
  then obtain j where "bit (drop_bit n x) j" by (metis bit_eq_iff bit_0_eq bot_apply bot_bool_def)
  then show "\<exists>k \<ge> n. bit x k" by (auto simp: bit_simps intro: le_add1)
next
  assume "\<exists>k \<ge> n. bit x k"
  then obtain k where k: "n \<le> k" "bit x k" by blast
  then have "bit (drop_bit n x) (k - n)" by (simp add: bit_simps)
  then show "drop_bit n x \<noteq> 0" by auto
qed

lemma disjoint_or_add: "x AND y = 0 \<Longrightarrow> x OR y = x + y" for x y :: "'a::len word"
  by (simp add: disjunctive_add_eq_or)

lemma push_drop_field: "push_bit k (drop_bit k (x AND push_bit k m)) = x AND push_bit k m" for x :: "'a::len word"
  by (rule bit_word_eqI) (auto simp: bit_simps)

lemma drop_field_zero: "drop_bit k (x AND push_bit k m) = 0 \<longleftrightarrow> x AND push_bit k m = 0" for x :: "'a::len word"
  using push_drop_field [of k x m] by (metis drop_bit_of_0 push_bit_of_0)

section \<open>Little-endian images\<close>

definition le_bytes :: "nat \<Rightarrow> 'a::len word \<Rightarrow> u8 list" where
  "le_bytes n w = map (\<lambda>i. ucast (drop_bit (8 * i) w)) [0..<n]"

fun le_word :: "u8 list \<Rightarrow> 'a::len word" where
  "le_word [] = 0"
| "le_word (b # bs) = ucast b OR push_bit 8 (le_word bs)"

lemma length_le_bytes [simp]: "length (le_bytes n w) = n"
  by (simp add: le_bytes_def)

lemma nth_le_bytes [simp]: "i < n \<Longrightarrow> le_bytes n w ! i = ucast (drop_bit (8 * i) w)"
  by (simp add: le_bytes_def)

lemma bit_le_word_iff:
  "bit (le_word bs :: 'a::len word) n \<longleftrightarrow>
     n < LENGTH('a) \<and> n div 8 < length bs \<and> bit (bs ! (n div 8)) (n mod 8)"
proof (induction bs arbitrary: n)
  case Nil
  then show ?case by simp
next
  case (Cons b bs)
  show ?case
  proof (cases "n < 8")
    case True
    then show ?thesis by (auto simp: bit_simps)
  next
    case False
    then obtain m where m: "n = 8 + m" by (metis le_Suc_ex not_less)
    have b: "\<not> bit b n" using False by (auto dest: bit_imp_le_length)
    have d: "(8 + m) div 8 = Suc (m div 8)" by simp
    show ?thesis
      using Cons.IH [of m] b by (auto simp: bit_simps m d)
  qed
qed

lemma le_word_le_bytes:
  fixes w :: "'a::len word"
  assumes "LENGTH('a) \<le> 8 * n"
  shows "le_word (le_bytes n w) = w"
proof (rule bit_word_eqI)
  fix k assume k: "k < LENGTH('a)"
  with assms have "k div 8 < n" by auto
  with k show "bit (le_word (le_bytes n w) :: 'a word) k \<longleftrightarrow> bit w k"
    by (simp add: bit_le_word_iff bit_simps)
qed

lemma le_word_le_bytes_std [simp]:
  "le_word (le_bytes 2 (h :: u16)) = h"
  "le_word (le_bytes 4 (w :: u32)) = w"
  "le_word (le_bytes 8 (d :: u64)) = d"
  by (rule le_word_le_bytes; simp)+

section \<open>Overwriting a stretch of a list\<close>

definition poke :: "nat \<Rightarrow> 'a list \<Rightarrow> 'a list \<Rightarrow> 'a list" where
  "poke i bs xs = take i xs @ bs @ drop (i + length bs) xs"

definition peek :: "nat \<Rightarrow> nat \<Rightarrow> 'a list \<Rightarrow> 'a list" where
  "peek i n xs = take n (drop i xs)"

lemma length_poke [simp]: "i + length bs \<le> length xs \<Longrightarrow> length (poke i bs xs) = length xs"
  by (simp add: poke_def)

lemma peek_poke_same [simp]:
  "i + length bs \<le> length xs \<Longrightarrow> peek i (length bs) (poke i bs xs) = bs"
  by (simp add: poke_def peek_def)

lemma peek_poke_before: "j + n \<le> i \<Longrightarrow> i \<le> length xs \<Longrightarrow> peek j n (poke i bs xs) = peek j n xs"
  by (simp add: peek_def poke_def take_drop min_def)

lemma peek_poke_after:
  assumes "i + length bs \<le> j" "i + length bs \<le> length xs"
  shows "peek j n (poke i bs xs) = peek j n xs"
proof -
  obtain k where k: "j = i + length bs + k" using assms(1) le_Suc_ex by blast
  show ?thesis using assms(2) by (simp add: peek_def poke_def k add.commute)
qed

lemma peek_poke_other:
  assumes "i + length bs \<le> length xs" "j + n \<le> i \<or> i + length bs \<le> j"
  shows "peek j n (poke i bs xs) = peek j n xs"
  using assms peek_poke_before [of j n i xs bs] peek_poke_after [of i bs j xs n] by auto

lemma take_poke:
  assumes "i + length bs \<le> n" "n \<le> length xs"
  shows "take n (poke i bs xs) = poke i bs (take n xs)"
  using assms by (simp add: poke_def drop_take)

lemma take_poke_end: "i + length bs \<le> length xs \<Longrightarrow> take (i + length bs) (poke i bs xs) = take i xs @ bs"
  by (simp add: poke_def)

end
