(* ===== verification/Relocate.thy ===== *)
theory Relocate
  imports C_Prelude
begin

text \<open>
  The instruction relocator of the ARM32 inline hook library, \<^verbatim>\<open>inlineHook/relocate.c\<close>:
  classification of the PC-relative instructions (\<open>getTypeIn...\<close>), the rewriting of one Thumb-16,
  Thumb-32 or ARM instruction into a position-independent sequence, the two loops over the copied
  prologue with the boundary tables they fill, and the dispatch on the Thumb bit.

  A buffer the code writes sequentially is the list of what was written, so the \<open>offset\<close>
  the C functions return is its length.  \<open>ld32\<close> is the word load the code does through a
  \<^verbatim>\<open>uint32_t *\<close> into the running program.  The two tables are arrays of a fixed size in
  \<open>struct inlineHookItem\<close>; a write past their end is \<open>OutOfBounds\<close>.
\<close>

section \<open>Instruction classes\<close>

datatype INSTRUCTION_TYPE =
    B1_THUMB16 | B2_THUMB16 | BX_THUMB16 | ADD_THUMB16 | MOV_THUMB16 | ADR_THUMB16 | LDR_THUMB16
  | CB_THUMB16
  | BLX_THUMB32 | BL_THUMB32 | B1_THUMB32 | B2_THUMB32 | ADR1_THUMB32 | ADR2_THUMB32 | LDR_THUMB32
  | TBB_THUMB32 | TBH_THUMB32
  | BLX_ARM | BL_ARM | B_ARM | BX_ARM | ADD_ARM | ADR1_ARM | ADR2_ARM | MOV_ARM | LDR_ARM
  | UNDEFINE

definition ALIGN_PC :: "u32 \<Rightarrow> u32" where
  "ALIGN_PC pc = pc AND 0xFFFFFFFC"

definition getTypeInThumb16 :: "u16 \<Rightarrow> INSTRUCTION_TYPE" where
  "getTypeInThumb16 instruction =
     (if instruction AND 0xF000 = 0xD000 then B1_THUMB16
      else if instruction AND 0xF800 = 0xE000 then B2_THUMB16
      else if instruction AND 0xFFF8 = 0x4778 then BX_THUMB16
      else if instruction AND 0xFF78 = 0x4478 then ADD_THUMB16
      else if instruction AND 0xFF78 = 0x4678 then MOV_THUMB16
      else if instruction AND 0xF800 = 0xA000 then ADR_THUMB16
      else if instruction AND 0xF800 = 0x4800 then LDR_THUMB16
      else if instruction AND 0xF500 = 0xB100 then CB_THUMB16
      else UNDEFINE)"

definition getTypeInThumb32 :: "u32 \<Rightarrow> INSTRUCTION_TYPE" where
  "getTypeInThumb32 instruction =
     (if instruction AND 0xFFF0D000 = 0xF3B08000 then UNDEFINE
      else if instruction AND 0xF800D000 = 0xF000C000 then BLX_THUMB32
      else if instruction AND 0xF800D000 = 0xF000D000 then BL_THUMB32
      else if instruction AND 0xF800D000 = 0xF0008000 then B1_THUMB32
      else if instruction AND 0xF800D000 = 0xF0009000 then B2_THUMB32
      else if instruction AND 0xFBFF8000 = 0xF2AF0000 then ADR1_THUMB32
      else if instruction AND 0xFBFF8000 = 0xF20F0000 then ADR2_THUMB32
      else if instruction AND 0xFF7F0000 = 0xF85F0000 then LDR_THUMB32
      else if instruction AND 0xFFFF00F0 = 0xE8DF0000 then TBB_THUMB32
      else if instruction AND 0xFFFF00F0 = 0xE8DF0010 then TBH_THUMB32
      else UNDEFINE)"

definition getTypeInArm :: "u32 \<Rightarrow> INSTRUCTION_TYPE" where
  "getTypeInArm instruction =
     (if instruction AND 0xFE000000 = 0xFA000000 then BLX_ARM
      else if instruction AND 0xF000000 = 0xB000000 then BL_ARM
      else if instruction AND 0xF000000 = 0xA000000 then B_ARM
      else if instruction AND 0xFF000FF = 0x120001F then BX_ARM
      else if instruction AND 0xFEF0010 = 0x8F0000 then ADD_ARM
      else if instruction AND 0xFFF0000 = 0x28F0000 then ADR1_ARM
      else if instruction AND 0xFFF0000 = 0x24F0000 then ADR2_ARM
      else if instruction AND 0xE5F0000 = 0x41F0000 then LDR_ARM
      else if instruction AND 0xFE00FFF = 0x1A0000F then MOV_ARM
      else UNDEFINE)"

section \<open>Helpers of the rewriting code\<close>

text \<open>
  \<^verbatim>\<open>for (r = 7; ; --r) if (r != rdn) break;\<close> and its variants: the first register at or
  below the start that is not in use.  The clause for \<open>0\<close> is not reached from the starts the
  code uses (\<open>free_reg_positive\<close>).
\<close>

fun free_reg :: "nat \<Rightarrow> nat list \<Rightarrow> nat" where
  "free_reg 0 used = 0"
| "free_reg (Suc r) used = (if Suc r \<in> set used then free_reg r used else Suc r)"

definition low_half :: "u32 \<Rightarrow> u16" where
  "low_half value = ucast (value AND 0xFFFF)"

definition high_half :: "u32 \<Rightarrow> u16" where
  "high_half value = ucast (drop_bit 16 value)"

text \<open>\<^verbatim>\<open>imm32 = top_bit ? (x | (0xFFFFFFFF << n)) : x\<close>.\<close>

definition sign_fill :: "nat \<Rightarrow> u32 \<Rightarrow> u32 \<Rightarrow> u32" where
  "sign_fill n top_bit x = (if top_bit \<noteq> 0 then x OR push_bit n 0xFFFFFFFF else x)"

section \<open>One Thumb-16 instruction\<close>

definition relocateInstructionInThumb16 :: "(u32 \<Rightarrow> u32) \<Rightarrow> u32 \<Rightarrow> u16 \<Rightarrow> u16 list" where
  "relocateInstructionInThumb16 ld32 pc instruction =
     (let ins = ucast instruction :: u32;
          jump = (\<lambda>value. [0xF8DF, 0xF000, low_half (value OR 1), high_half (value OR 1)]);
          load = (\<lambda>r value. [0x4800 OR push_bit 8 r, 0xE001, low_half value, high_half value])
      in case getTypeInThumb16 instruction of
        B1_THUMB16 \<Rightarrow>
          (let x = push_bit 1 (ins AND 0xFF);
               imm32 = sign_fill 8 (drop_bit 8 x) x
           in [instruction AND 0xFF00, 0xE003] @ jump (pc + imm32))
      | B2_THUMB16 \<Rightarrow>
          (let x = push_bit 1 (ins AND 0x7FF);
               imm32 = sign_fill 11 (drop_bit 11 x) x
           in jump (pc + imm32))
      | BX_THUMB16 \<Rightarrow> jump pc
      | ADD_THUMB16 \<Rightarrow>
          (let rdn = drop_bit 4 (ins AND 0x80) OR (ins AND 0x7);
               r = free_reg 7 [unat rdn]
           in [0xB400 OR push_bit r 1, 0x4802 OR push_bit 8 (of_nat r),
               (instruction AND 0xFF87) OR push_bit 3 (of_nat r), 0xBC00 OR push_bit r 1,
               0xE002, 0xBF00, low_half pc, high_half pc])
      | MOV_THUMB16 \<Rightarrow> load (instruction AND 0x7) pc
      | ADR_THUMB16 \<Rightarrow>
          load (drop_bit 8 (instruction AND 0x700)) (push_bit 2 (ALIGN_PC pc + (ins AND 0xFF)))
      | LDR_THUMB16 \<Rightarrow>
          load (drop_bit 8 (instruction AND 0x700)) (ld32 (ALIGN_PC pc + push_bit 2 (ins AND 0xFF)))
      | CB_THUMB16 \<Rightarrow>
          (let imm32 = drop_bit 3 (ins AND 0x200) OR drop_bit 2 (ins AND 0xF8);
               value = pc + imm32 + 1
           in [instruction AND 0xFD07, 0xE003, 0xF8DF, 0xF000, low_half value, high_half value])
      | _ \<Rightarrow> [instruction, 0xBF00])"

section \<open>One Thumb-32 instruction\<close>

definition relocateInstructionInThumb32 :: "(u32 \<Rightarrow> u32) \<Rightarrow> u32 \<Rightarrow> u16 \<Rightarrow> u16 \<Rightarrow> u16 list" where
  "relocateInstructionInThumb32 ld32 pc high_instruction low_instruction =
     (let hi = ucast high_instruction :: u32;
          lo = ucast low_instruction :: u32;
          instruction = push_bit 16 hi OR lo;
          type = getTypeInThumb32 instruction;
          j1 = drop_bit 13 (lo AND 0x2000);
          j2 = drop_bit 11 (lo AND 0x800);
          s = drop_bit 10 (hi AND 0x400);
          i1 = (if j1 XOR s = 0 then 1 else 0);
          i2 = (if j2 XOR s = 0 then 1 else 0);
          x_long = push_bit 24 s OR push_bit 23 i1 OR push_bit 22 i2 OR push_bit 12 (hi AND 0x3FF)
                     OR push_bit 1 (lo AND 0x7FF);
          jump = (\<lambda>value. [0xF8DF, 0xF000, low_half value, high_half value]);
          load = (\<lambda>r value. [0xF8DF, push_bit 12 r OR 4, 0xBF00, 0xE001, low_half value, high_half value])
      in case type of
        BLX_THUMB32 \<Rightarrow>
          (let x = push_bit 24 s OR push_bit 23 i1 OR push_bit 22 i2 OR push_bit 12 (hi AND 0x3FF)
                     OR push_bit 1 (lo AND 0x7FE)
           in [0xF20F, 0x0E09] @ jump (ALIGN_PC pc + sign_fill 25 s x))
      | BL_THUMB32 \<Rightarrow> [0xF20F, 0x0E09] @ jump (ALIGN_PC pc + sign_fill 25 s x_long + 1)
      | B1_THUMB32 \<Rightarrow>
          (let x = push_bit 20 s OR push_bit 19 j2 OR push_bit 18 j1 OR push_bit 12 (hi AND 0x3F)
                     OR push_bit 1 (lo AND 0x7FF)
           in [0xD000 OR push_bit 2 (high_instruction AND 0x3C0), 0xE003]
                @ jump (ALIGN_PC pc + sign_fill 21 s x + 1))
      | B2_THUMB32 \<Rightarrow> jump (ALIGN_PC pc + sign_fill 25 s x_long + 1)
      | ADR1_THUMB32 \<Rightarrow>
          (let i = drop_bit 10 (hi AND 0x400); imm3 = drop_bit 12 (lo AND 0x7000);
               imm8 = instruction AND 0xFF;
               imm32 = push_bit 31 i OR push_bit 30 imm3 OR push_bit 27 imm8
           in load (drop_bit 8 (low_instruction AND 0xF00)) (ALIGN_PC pc + imm32))
      | ADR2_THUMB32 \<Rightarrow>
          (let i = drop_bit 10 (hi AND 0x400); imm3 = drop_bit 12 (lo AND 0x7000);
               imm8 = instruction AND 0xFF;
               imm32 = push_bit 31 i OR push_bit 30 imm3 OR push_bit 27 imm8
           in load (drop_bit 8 (low_instruction AND 0xF00)) (ALIGN_PC pc - imm32))
      | LDR_THUMB32 \<Rightarrow>
          (let is_add = drop_bit 7 (hi AND 0x80); imm32 = lo AND 0xFFF;
               addr = (if is_add \<noteq> 0 then ALIGN_PC pc + imm32 else ALIGN_PC pc - imm32)
           in load (drop_bit 12 low_instruction) (ld32 addr))
      | TBB_THUMB32 \<Rightarrow>
          (let rm = unat (lo AND 0xF); r = free_reg 7 [rm]; rx = free_reg 7 [rm, r];
               wr = of_nat r; wx = of_nat rx
           in [0xB400 OR push_bit rx 1, 0x4805 OR push_bit 8 wr,
               0x4600 OR push_bit 3 (of_nat rm) OR wx,
               0xEB00 OR wr, push_bit 8 wx OR wx, 0x7800 OR push_bit 3 wx OR wx,
               0xEB00 OR wr, 0x0040 OR push_bit 8 wr OR wx, 0x3001 OR push_bit 8 wr,
               0xBC00 OR push_bit rx 1, 0x4700 OR push_bit 3 wr, 0xBF00,
               low_half pc, high_half pc])
      | TBH_THUMB32 \<Rightarrow>
          (let rm = unat (lo AND 0xF); r = free_reg 7 [rm]; rx = free_reg 7 [rm, r];
               wr = of_nat r; wx = of_nat rx
           in [0xB400 OR push_bit rx 1, 0x4805 OR push_bit 8 wr,
               0x4600 OR push_bit 3 (of_nat rm) OR wx,
               0xEB00 OR wr, 0x0040 OR push_bit 8 wx OR wx, 0x8800 OR push_bit 3 wx OR wx,
               0xEB00 OR wr, 0x0040 OR push_bit 8 wr OR wx, 0x3001 OR push_bit 8 wr,
               0xBC00 OR push_bit rx 1, 0x4700 OR push_bit 3 wr, 0xBF00,
               low_half pc, high_half pc])
      | _ \<Rightarrow> [high_instruction, low_instruction])"

section \<open>One ARM instruction\<close>

definition relocateOneArm :: "(u32 \<Rightarrow> u32) \<Rightarrow> u32 \<Rightarrow> u32 \<Rightarrow> u32 list" where
  "relocateOneArm ld32 pc instruction =
     (let type = getTypeInArm instruction;
          imm32_of = (\<lambda>x. sign_fill 26 (drop_bit 25 x) x);
          r = drop_bit 12 (instruction AND 0xF000);
          load = (\<lambda>value. [0xE51F0000 OR push_bit 12 r, 0xE28FF000, value])
      in case type of
        BLX_ARM \<Rightarrow>
          (let x = push_bit 2 (instruction AND 0xFFFFFF) OR drop_bit 23 (instruction AND 0x1000000)
           in [0xE28FE004, 0xE51FF004, pc + imm32_of x + 1])
      | BL_ARM \<Rightarrow>
          (let x = push_bit 2 (instruction AND 0xFFFFFF)
           in [0xE28FE004, 0xE51FF004, pc + imm32_of x])
      | B_ARM \<Rightarrow>
          (let x = push_bit 2 (instruction AND 0xFFFFFF)
           in [0xE51FF004, pc + imm32_of x])
      | BX_ARM \<Rightarrow> [0xE51FF004, pc + imm32_of 0]
      | ADD_ARM \<Rightarrow>
          (let rd = unat (drop_bit 12 (instruction AND 0xF000)); rm = unat (instruction AND 0xF);
               r = of_nat (free_reg 12 [rd, rm])
           in [0xE52D0004 OR push_bit 12 r, 0xE59F0008 OR push_bit 12 r,
               (instruction AND 0xFFF0FFFF) OR push_bit 16 r, 0xE49D0004 OR push_bit 12 r,
               0xE28FF000, pc])
      | ADR1_ARM \<Rightarrow> load (pc + (instruction AND 0xFFF))
      | ADR2_ARM \<Rightarrow> load (pc - (instruction AND 0xFFF))
      | LDR_ARM \<Rightarrow>
          (let is_add = drop_bit 23 (instruction AND 0x800000); imm32 = instruction AND 0xFFF
           in load (ld32 (if is_add \<noteq> 0 then pc + imm32 else pc - imm32)))
      | MOV_ARM \<Rightarrow> load pc
      | _ \<Rightarrow> [instruction])"

section \<open>The boundary tables and the two loops\<close>

record boundaries =
  orig_boundaries :: "nat list"
  trampoline_boundaries :: "nat list"
  count :: nat

definition record_boundary :: "nat \<Rightarrow> nat \<Rightarrow> boundaries \<Rightarrow> boundaries res" where
  "record_boundary orig_off tramp_off bd =
     (if count bd < length (orig_boundaries bd) \<and> count bd < length (trampoline_boundaries bd)
      then Inr (bd\<lparr>orig_boundaries := (orig_boundaries bd)[count bd := orig_off],
                   trampoline_boundaries := (trampoline_boundaries bd)[count bd := tramp_off],
                   count := Suc (count bd)\<rparr>)
      else Inl OutOfBounds)"

definition is_wide :: "u16 \<Rightarrow> bool" where
  "is_wide h \<longleftrightarrow> 0x1D \<le> drop_bit 11 h \<and> drop_bit 11 h \<le> 0x1F"

function thumb_loop ::
  "(u32 \<Rightarrow> u32) \<Rightarrow> u16 list \<Rightarrow> nat \<Rightarrow> u32 \<Rightarrow> nat \<Rightarrow> u16 list \<Rightarrow> boundaries
     \<Rightarrow> (nat \<times> u16 list \<times> boundaries) res" where
  "thumb_loop ld32 orig n pc orig_pos out bd =
     (case record_boundary (orig_pos * 2) (length out * 2) bd of
        Inl e \<Rightarrow> Inl e
      | Inr bd' \<Rightarrow>
          if length orig \<le> orig_pos then Inl OutOfBounds
          else if is_wide (orig ! orig_pos) then
            if n < orig_pos + 2 then Inr (orig_pos, out, bd')
            else if length orig \<le> orig_pos + 1 then Inl OutOfBounds
            else
              (let out' = out @ relocateInstructionInThumb32 ld32 pc (orig ! orig_pos) (orig ! (orig_pos + 1))
               in if n \<le> orig_pos + 2 then Inr (orig_pos + 2, out', bd')
                  else thumb_loop ld32 orig n (pc + 4) (orig_pos + 2) out' bd')
          else
            (let out' = out @ relocateInstructionInThumb16 ld32 pc (orig ! orig_pos)
             in if n \<le> orig_pos + 1 then Inr (orig_pos + 1, out', bd')
                else thumb_loop ld32 orig n (pc + 2) (orig_pos + 1) out' bd'))"
  by pat_completeness auto
termination
  by (relation "measure (\<lambda>(ld32, orig, n, pc, orig_pos, out, bd). n - orig_pos)") auto

definition relocateInstructionInThumb ::
  "(u32 \<Rightarrow> u32) \<Rightarrow> u32 \<Rightarrow> u16 list \<Rightarrow> nat \<Rightarrow> boundaries \<Rightarrow> (u16 list \<times> boundaries) res" where
  "relocateInstructionInThumb ld32 target_addr orig len bd =
     (case thumb_loop ld32 orig (len div 2) (target_addr + 4) 0 [] bd of
        Inl e \<Rightarrow> Inl e
      | Inr (orig_pos, out, bd') \<Rightarrow>
          (let lr = target_addr + of_nat (orig_pos * 2) + 1
           in Inr (out @ [0xF8DF, 0xF000, low_half lr, high_half lr], bd')))"

fun arm_loop ::
  "(u32 \<Rightarrow> u32) \<Rightarrow> u32 list \<Rightarrow> nat \<Rightarrow> u32 \<Rightarrow> u32 list \<Rightarrow> boundaries
     \<Rightarrow> (u32 list \<times> boundaries) res" where
  "arm_loop ld32 [] orig_pos pc out bd = Inr (out, bd)"
| "arm_loop ld32 (instruction # rest) orig_pos pc out bd =
     (case record_boundary (orig_pos * 4) (length out * 4) bd of
        Inl e \<Rightarrow> Inl e
      | Inr bd' \<Rightarrow> arm_loop ld32 rest (Suc orig_pos) (pc + 4)
                     (out @ relocateOneArm ld32 pc instruction) bd')"

definition relocateInstructionInArm ::
  "(u32 \<Rightarrow> u32) \<Rightarrow> u32 \<Rightarrow> u32 list \<Rightarrow> nat \<Rightarrow> boundaries \<Rightarrow> (u32 list \<times> boundaries) res" where
  "relocateInstructionInArm ld32 target_addr orig len bd =
     (if length orig < len div 4 then Inl OutOfBounds
      else case arm_loop ld32 (take (len div 4) orig) 0 (target_addr + 8) [] bd of
        Inl e \<Rightarrow> Inl e
      | Inr (out, bd') \<Rightarrow> Inr (out @ [0xe51ff004, target_addr + of_nat len], bd'))"

text \<open>The casts of the copied bytes to \<^verbatim>\<open>uint16_t *\<close> and \<^verbatim>\<open>uint32_t *\<close>.\<close>

fun halfwords :: "u8 list \<Rightarrow> u16 list" where
  "halfwords (a # b # bs) = le_word [a, b] # halfwords bs"
| "halfwords _ = []"

fun words :: "u8 list \<Rightarrow> u32 list" where
  "words (a # b # c # d # bs) = le_word [a, b, c, d] # words bs"
| "words _ = []"

definition relocateInstruction ::
  "(u32 \<Rightarrow> u32) \<Rightarrow> u32 \<Rightarrow> u8 list \<Rightarrow> nat \<Rightarrow> boundaries \<Rightarrow> (u8 list \<times> boundaries) res" where
  "relocateInstruction ld32 target_addr orig_instructions len bd =
     (if target_addr AND 1 \<noteq> 0 then
        case relocateInstructionInThumb ld32 (target_addr - 1) (halfwords orig_instructions) len bd of
          Inl e \<Rightarrow> Inl e
        | Inr (hs, bd') \<Rightarrow> Inr (concat (map (le_bytes 2) hs), bd')
      else
        case relocateInstructionInArm ld32 target_addr (words orig_instructions) len bd of
          Inl e \<Rightarrow> Inl e
        | Inr (ws, bd') \<Rightarrow> Inr (concat (map (le_bytes 4) ws), bd'))"

end
