(* ===== verification/Relocate_Layout.thy ===== *)
theory Relocate_Layout
  imports Relocate
begin

text \<open>
  What \<^verbatim>\<open>relocateInstruction\<close> lays out.  \<open>arm_code\<close>, \<open>thumb_code\<close> and the \<open>..._rows\<close> functions are
  the specification of the two loops: the relocated prologue is the concatenation of its relocated
  instructions, and the boundary tables pair every original instruction with the start of its copy.
  The loops are proved equal to it whenever the tables have room, and to end in \<open>OutOfBounds\<close> when they
  have not; \<open>bd_inv\<close> is the invariant on the tables that the thread-PC translation of
  \<^verbatim>\<open>inlineHook.c\<close> relies on.
\<close>

declare thumb_loop.simps [simp del]

lemma free_reg_le: "free_reg r used \<le> r"
  by (induction r) (auto simp: le_SucI)

lemma free_reg_pos_notin:
  assumes "card (set used \<inter> {1..r}) < r"
  shows "0 < free_reg r used \<and> free_reg r used \<notin> set used"
  using assms
proof (induction r)
  case (Suc r)
  show ?case
  proof (cases "Suc r \<in> set used")
    case True
    then have "set used \<inter> {1..Suc r} = insert (Suc r) (set used \<inter> {1..r})" by auto
    then have "card (set used \<inter> {1..r}) < r" using Suc.prems by simp
    then show ?thesis using Suc.IH True by simp
  qed simp
qed simp

lemma free_reg_positive:
  assumes "length used < r"
  shows "0 < free_reg r used" "free_reg r used \<notin> set used"
proof -
  have "card (set used \<inter> {1..r}) \<le> card (set used)" by (intro card_mono) auto
  also have "\<dots> \<le> length used" by (rule card_length)
  finally have "card (set used \<inter> {1..r}) < r" using assms by simp
  from free_reg_pos_notin [OF this] show "0 < free_reg r used" "free_reg r used \<notin> set used" by auto
qed

lemma length_thumb16:
  "length (relocateInstructionInThumb16 ld32 pc h) \<in> {2, 4, 6, 8}"
  by (cases "getTypeInThumb16 h") (simp_all add: relocateInstructionInThumb16_def Let_def)

lemma length_thumb32:
  "length (relocateInstructionInThumb32 ld32 pc h1 h2) \<in> {2, 4, 6, 14}"
  by (cases "getTypeInThumb32 (push_bit 16 (ucast h1) OR ucast h2)")
     (simp_all add: relocateInstructionInThumb32_def Let_def)

lemma length_arm: "length (relocateOneArm ld32 pc w) \<in> {1, 2, 3, 6}"
  by (cases "getTypeInArm w") (simp_all add: relocateOneArm_def Let_def)

definition bd_inv :: "nat \<Rightarrow> nat \<Rightarrow> boundaries \<Rightarrow> bool" where
  "bd_inv pos tpos bd \<longleftrightarrow>
     count bd \<le> length (orig_boundaries bd) \<and> count bd \<le> length (trampoline_boundaries bd)
   \<and> sorted_wrt (<) (take (count bd) (orig_boundaries bd))
   \<and> (\<forall>x \<in> set (take (count bd) (orig_boundaries bd)). x < pos)
   \<and> sorted_wrt (<) (take (count bd) (trampoline_boundaries bd))
   \<and> (\<forall>x \<in> set (take (count bd) (trampoline_boundaries bd)). x < tpos \<and> 4 dvd x)"

lemma bd_inv_mono: "bd_inv p t bd \<Longrightarrow> p \<le> p' \<Longrightarrow> t \<le> t' \<Longrightarrow> bd_inv p' t' bd"
  by (fastforce simp: bd_inv_def)

lemma take_Suc_update: "c < length xs \<Longrightarrow> take (Suc c) (xs[c := v]) = take c xs @ [v]"
  by (simp add: take_Suc_conv_app_nth)

lemma record_boundary_inv:
  assumes "bd_inv p t bd" "record_boundary p t bd = Inr bd'" "4 dvd t" "p < p'" "t < t'"
  shows "bd_inv p' t' bd'"
  using assms
  by (auto simp: bd_inv_def record_boundary_def take_Suc_update sorted_wrt_append split: if_splits)
     (meson less_trans)+

lemma record_boundary_count:
  "record_boundary p t bd = Inr bd' \<Longrightarrow>
     count bd' = Suc (count bd) \<and> length (orig_boundaries bd') = length (orig_boundaries bd)
   \<and> length (trampoline_boundaries bd') = length (trampoline_boundaries bd)"
  by (auto simp: record_boundary_def split: if_splits)

lemma thumb_sizes:
  "0 < length (relocateInstructionInThumb16 ld32 pc h)" "even (length (relocateInstructionInThumb16 ld32 pc h))"
  "length (relocateInstructionInThumb16 ld32 pc h) \<le> 14"
  "0 < length (relocateInstructionInThumb32 ld32 pc h1 h2)" "even (length (relocateInstructionInThumb32 ld32 pc h1 h2))"
  "length (relocateInstructionInThumb32 ld32 pc h1 h2) \<le> 14"
  using length_thumb16 [of ld32 pc h] length_thumb32 [of ld32 pc h1 h2] by auto

lemma even_4_dvd: "even n \<Longrightarrow> 4 dvd n * 2" for n :: nat
  by auto

lemma thumb_loop_cases:
  assumes "thumb_loop ld32 orig n pc p out bd = Inr (pos, out', bd')" "p < n"
  obtains (cut) bd1 where "record_boundary (p * 2) (length out * 2) bd = Inr bd1"
      "n = Suc p" "pos = p" "out' = out" "bd' = bd1"
  | (last) bd1 ws where "record_boundary (p * 2) (length out * 2) bd = Inr bd1"
      "0 < length ws" "even (length ws)" "length ws \<le> 14" "pos = n" "n \<le> p + 2"
      "out' = out @ ws" "bd' = bd1"
  | (more) bd1 ws pc' p' where "record_boundary (p * 2) (length out * 2) bd = Inr bd1"
      "0 < length ws" "even (length ws)" "length ws \<le> 14" "p < p'" "p' \<le> p + 2" "p' < n"
      "thumb_loop ld32 orig n pc' p' (out @ ws) bd1 = Inr (pos, out', bd')"
proof -
  obtain bd1 where bd1: "record_boundary (p * 2) (length out * 2) bd = Inr bd1"
    using assms(1) by (subst (asm) thumb_loop.simps) (auto split: sum.splits)
  let ?w2 = "relocateInstructionInThumb32 ld32 pc (orig ! p) (orig ! (p + 1))"
  let ?w1 = "relocateInstructionInThumb16 ld32 pc (orig ! p)"
  note loop = assms(1) [unfolded thumb_loop.simps [of ld32 orig n pc p out bd] bd1, simplified]
  show ?thesis
  proof (cases "is_wide (orig ! p)")
    case True
    consider "n = Suc p" | "n = p + 2" | "p + 2 < n" using assms(2) by linarith
    then show ?thesis
      using loop True cut [OF bd1] last [OF bd1 thumb_sizes(4-6), of ld32 pc "orig ! p" "orig ! (p + 1)"]
        more [OF bd1 thumb_sizes(4-6), of "p + 2" "pc + 4" ld32 pc "orig ! p" "orig ! (p + 1)"]
      by cases (auto simp: Let_def split: if_splits)
  next
    case False
    consider "n = Suc p" | "p + 1 < n" using assms(2) by linarith
    then show ?thesis
      using loop False last [OF bd1 thumb_sizes(1-3), of ld32 pc "orig ! p"]
        more [OF bd1 thumb_sizes(1-3), of "p + 1" "pc + 2" ld32 pc "orig ! p"]
      by cases (auto simp: Let_def split: if_splits)
  qed
qed

lemma thumb_loop_post:
  assumes "thumb_loop ld32 orig n pc p out bd = Inr (pos, out', bd')"
    "p < n" "even (length out)" "bd_inv (p * 2) (length out * 2) bd"
  shows "p \<le> pos \<and> n \<le> pos + 1 \<and> pos \<le> n
   \<and> even (length out') \<and> length out' \<le> length out + 14 * (pos - p)
   \<and> bd_inv (2 * pos + 1) (2 * length out' + 1) bd'"
  using assms
proof (induction "n - p" arbitrary: p pc out bd rule: less_induct)
  case less
  have dv: "4 dvd length out * 2" using less.prems(3) by (rule even_4_dvd)
  show ?case using less.prems(1,2)
  proof (cases rule: thumb_loop_cases)
    case (cut bd1)
    then show ?thesis
      using record_boundary_inv [OF less.prems(4) cut(1) dv, of "2 * p + 1" "2 * length out + 1"] less.prems
      by simp
  next
    case (last bd1 ws)
    then show ?thesis
      using record_boundary_inv [OF less.prems(4) last(1) dv, of "2 * n + 1" "2 * length (out @ ws) + 1"]
        less.prems by simp
  next
    case (more bd1 ws pc' p')
    have "bd_inv (p' * 2) (length (out @ ws) * 2) bd1"
      using record_boundary_inv [OF less.prems(4) more(1) dv, of "p' * 2" "length (out @ ws) * 2"] more by simp
    moreover have "n - p' < n - p" "even (length (out @ ws))" using more less.prems by auto
    ultimately show ?thesis using less.hyps [OF _ more(8,7)] more(3-7) by auto
  qed
qed

lemma thumb_loop_returns:
  assumes "p < n" "n \<le> length orig" "count bd + (n - p) \<le> length (orig_boundaries bd)"
    "count bd + (n - p) \<le> length (trampoline_boundaries bd)"
  shows "\<exists>r. thumb_loop ld32 orig n pc p out bd = Inr r"
  using assms
proof (induction ld32 orig n pc p out bd rule: thumb_loop.induct)
  case (1 ld32 orig n pc p out bd)
  define bd1 where "bd1 = bd\<lparr>orig_boundaries := (orig_boundaries bd)[count bd := p * 2],
                   trampoline_boundaries := (trampoline_boundaries bd)[count bd := length out * 2],
                   count := Suc (count bd)\<rparr>"
  have room: "count bd < length (orig_boundaries bd)" "count bd < length (trampoline_boundaries bd)"
    using 1(3,5,6) by linarith+
  have bd1: "record_boundary (p * 2) (length out * 2) bd = Inr bd1"
    using room by (simp add: record_boundary_def bd1_def)
  note cnt = record_boundary_count [OF bd1]
  show ?case
    using 1(1) [OF bd1] 1(2) [OF bd1] 1(3-6) cnt
    by (subst thumb_loop.simps) (simp add: bd1 Let_def not_le not_less)
qed

definition table_rows :: "boundaries \<Rightarrow> (nat \<times> nat) list" where
  "table_rows bd = zip (take (count bd) (orig_boundaries bd)) (take (count bd) (trampoline_boundaries bd))"

lemma record_boundary_rows:
  "record_boundary p t bd = Inr bd' \<Longrightarrow> table_rows bd' = table_rows bd @ [(p, t)]"
  by (auto simp: record_boundary_def table_rows_def take_Suc_update split: if_splits)

lemma record_boundary_room:
  "count bd < length (orig_boundaries bd) \<Longrightarrow> count bd < length (trampoline_boundaries bd) \<Longrightarrow>
     \<exists>bd'. record_boundary p t bd = Inr bd'"
  by (simp add: record_boundary_def)

fun arm_code :: "(u32 \<Rightarrow> u32) \<Rightarrow> u32 \<Rightarrow> u32 list \<Rightarrow> u32 list" where
  "arm_code ld32 pc [] = []"
| "arm_code ld32 pc (w # ws) = relocateOneArm ld32 pc w @ arm_code ld32 (pc + 4) ws"

fun arm_rows :: "(u32 \<Rightarrow> u32) \<Rightarrow> u32 \<Rightarrow> nat \<Rightarrow> nat \<Rightarrow> u32 list \<Rightarrow> (nat \<times> nat) list" where
  "arm_rows ld32 pc p t [] = []"
| "arm_rows ld32 pc p t (w # ws) =
     (p * 4, t * 4) # arm_rows ld32 (pc + 4) (Suc p) (t + length (relocateOneArm ld32 pc w)) ws"

lemma arm_loop_spec:
  assumes "count bd + length ws \<le> length (orig_boundaries bd)"
    "count bd + length ws \<le> length (trampoline_boundaries bd)"
  shows "\<exists>bd'. arm_loop ld32 ws p pc out bd = Inr (out @ arm_code ld32 pc ws, bd')
           \<and> table_rows bd' = table_rows bd @ arm_rows ld32 pc p (length out) ws
           \<and> count bd' = count bd + length ws"
  using assms
proof (induction ws arbitrary: p pc out bd)
  case (Cons w ws)
  then have room: "count bd < length (orig_boundaries bd)" "count bd < length (trampoline_boundaries bd)" by auto
  obtain bd1 where bd1: "record_boundary (p * 4) (length out * 4) bd = Inr bd1"
    using record_boundary_room [OF room] by blast
  have "count bd1 + length ws \<le> length (orig_boundaries bd1)"
    "count bd1 + length ws \<le> length (trampoline_boundaries bd1)"
    using Cons.prems record_boundary_count [OF bd1] by auto
  from Cons.IH [OF this, of "Suc p" "pc + 4" "out @ relocateOneArm ld32 pc w"] show ?case
    using bd1 record_boundary_rows [OF bd1] record_boundary_count [OF bd1] by auto
qed simp

fun thumb_code :: "(u32 \<Rightarrow> u32) \<Rightarrow> u32 \<Rightarrow> u16 list \<Rightarrow> u16 list" where
  "thumb_code ld32 pc [] = []"
| "thumb_code ld32 pc (h # hs) =
     (if is_wide h then
        (case hs of [] \<Rightarrow> []
         | l # ls \<Rightarrow> relocateInstructionInThumb32 ld32 pc h l @ thumb_code ld32 (pc + 4) ls)
      else relocateInstructionInThumb16 ld32 pc h @ thumb_code ld32 (pc + 2) hs)"

fun thumb_rows :: "(u32 \<Rightarrow> u32) \<Rightarrow> u32 \<Rightarrow> nat \<Rightarrow> nat \<Rightarrow> u16 list \<Rightarrow> (nat \<times> nat) list" where
  "thumb_rows ld32 pc p t [] = []"
| "thumb_rows ld32 pc p t (h # hs) = (p * 2, t * 2) #
     (if is_wide h then
        (case hs of [] \<Rightarrow> []
         | l # ls \<Rightarrow> thumb_rows ld32 (pc + 4) (p + 2) (t + length (relocateInstructionInThumb32 ld32 pc h l)) ls)
      else thumb_rows ld32 (pc + 2) (p + 1) (t + length (relocateInstructionInThumb16 ld32 pc h)) hs)"

fun thumb_end :: "u16 list \<Rightarrow> nat" where
  "thumb_end [] = 0"
| "thumb_end (h # hs) = (if is_wide h then (case hs of [] \<Rightarrow> 0 | l # ls \<Rightarrow> 2 + thumb_end ls) else 1 + thumb_end hs)"

lemma drop_take_step:
  "p < n \<Longrightarrow> n \<le> length xs \<Longrightarrow> drop p (take n xs) = xs ! p # drop (p + 1) (take n xs)"
  by (metis Suc_eq_plus1 Cons_nth_drop_Suc length_take min.absorb2 nth_take)

lemma thumb_loop_spec:
  assumes "n \<le> length orig" "p < n"
    "count bd + length (thumb_rows ld32 pc p (length out) (drop p (take n orig))) \<le> length (orig_boundaries bd)"
    "count bd + length (thumb_rows ld32 pc p (length out) (drop p (take n orig))) \<le> length (trampoline_boundaries bd)"
  shows "\<exists>bd'. thumb_loop ld32 orig n pc p out bd =
             Inr (p + thumb_end (drop p (take n orig)), out @ thumb_code ld32 pc (drop p (take n orig)), bd')
           \<and> table_rows bd' = table_rows bd @ thumb_rows ld32 pc p (length out) (drop p (take n orig))"
  using assms
proof (induction "n - p" arbitrary: p pc out bd rule: less_induct)
  case less
  let ?h = "orig ! p"
  have hs: "drop p (take n orig) = ?h # drop (p + 1) (take n orig)"
    using less.prems by (intro drop_take_step) auto
  have room: "count bd < length (orig_boundaries bd)" "count bd < length (trampoline_boundaries bd)"
    using less.prems(3,4) by (auto simp: hs)
  obtain bd1 where bd1: "record_boundary (p * 2) (length out * 2) bd = Inr bd1"
    using record_boundary_room [OF room] by blast
  note cnt = record_boundary_count [OF bd1] record_boundary_rows [OF bd1]
  have inr: "\<not> length orig \<le> p" using less.prems by simp
  show ?case
  proof (cases "is_wide ?h")
    case True
    show ?thesis
    proof (cases "n < p + 2")
      case True
      then show ?thesis
        using \<open>is_wide ?h\<close> less.prems inr cnt by (subst thumb_loop.simps) (simp add: bd1 hs)
    next
      case False
      let ?w = "relocateInstructionInThumb32 ld32 pc ?h (orig ! (p + 1))"
      have hs2: "drop (p + 1) (take n orig) = orig ! (p + 1) # drop (p + 2) (take n orig)"
        using drop_take_step [of "p + 1" n orig] less.prems False by simp
      show ?thesis
        using less.hyps [of "p + 2" bd1 "pc + 4" "out @ ?w"] less.prems True False cnt inr
        unfolding hs hs2 by (subst thumb_loop.simps) (auto simp: bd1 Let_def)
    qed
  next
    case False
    let ?w = "relocateInstructionInThumb16 ld32 pc ?h"
    show ?thesis
      using less.hyps [of "p + 1" bd1 "pc + 2" "out @ ?w"] less.prems False cnt inr
      unfolding hs by (subst thumb_loop.simps) (auto simp: bd1 Let_def)
  qed
qed

lemma arm_rows_length [simp]: "length (arm_rows ld32 pc p t ws) = length ws"
  by (induction ws arbitrary: pc p t) auto


lemma thumb_loop_overflow:
  assumes "n \<le> length orig" "p < n"
    "length (orig_boundaries bd) < count bd + length (thumb_rows ld32 pc p (length out) (drop p (take n orig)))"
  shows "thumb_loop ld32 orig n pc p out bd = Inl OutOfBounds"
  using assms
proof (induction "n - p" arbitrary: p pc out bd rule: less_induct)
  case less
  let ?h = "orig ! p"
  have hs: "drop p (take n orig) = ?h # drop (p + 1) (take n orig)"
    using less.prems by (intro drop_take_step) auto
  have inr: "\<not> length orig \<le> p" using less.prems by simp
  show ?case
  proof (cases "record_boundary (p * 2) (length out * 2) bd")
    case (Inl e)
    then show ?thesis by (subst thumb_loop.simps) (auto simp: record_boundary_def split: if_splits)
  next
    case (Inr bd1)
    note cnt = record_boundary_count [OF Inr]
    have c: "count bd < length (orig_boundaries bd)"
      using Inr by (auto simp: record_boundary_def split: if_splits)
    consider (cut) "is_wide ?h" "n = p + 1" | (wide) "is_wide ?h" "p + 2 \<le> n" | (narrow) "\<not> is_wide ?h"
      using less.prems by linarith
    then show ?thesis
    proof cases
      case cut
      then show ?thesis using less.prems(3) c unfolding hs by simp
    next
      case wide
      have hs2: "drop (p + 1) (take n orig) = orig ! (p + 1) # drop (p + 2) (take n orig)"
        using drop_take_step [of "p + 1" n orig] less.prems wide by simp
      show ?thesis
        using less.hyps [of "p + 2" bd1 "pc + 4" "out @ relocateInstructionInThumb32 ld32 pc ?h (orig ! (p + 1))"]
          less.prems wide cnt inr c
        unfolding hs hs2 by (subst thumb_loop.simps) (auto simp: Inr Let_def)
    next
      case narrow
      show ?thesis
        using less.hyps [of "p + 1" bd1 "pc + 2" "out @ relocateInstructionInThumb16 ld32 pc ?h"]
          less.prems narrow cnt inr c
        unfolding hs by (subst thumb_loop.simps) (auto simp: Inr Let_def)
    qed
  qed
qed

lemma thumb_end_bounds: "thumb_end hs \<le> length hs" "length hs \<le> thumb_end hs + 1"
  by (induction hs rule: thumb_end.induct) (auto split: list.splits)

lemma thumb_rows_all_narrow:
  "\<forall>h \<in> set hs. \<not> is_wide h \<Longrightarrow> length (thumb_rows ld32 pc p t hs) = length hs"
  by (induction hs arbitrary: pc p t) auto

lemma thumb_rows_le: "length (thumb_rows ld32 pc p t hs) \<le> length hs"
  by (induction ld32 pc p t hs rule: thumb_rows.induct) (auto split: list.splits)

section \<open>The relocated prologue\<close>

text \<open>The tables of a fresh item, for the examples.\<close>

definition demo_bd :: boundaries where
  "demo_bd = \<lparr>orig_boundaries = replicate 4 0, trampoline_boundaries = replicate 20 0, count = 0\<rparr>"

text \<open>
  (C18) When the tables have a free row for every instruction of the prologue, the Thumb loop writes the concatenation of the relocated
  instructions followed by the jump back behind the last instruction it consumed, and appends one table row
  per instruction (original offset, offset of the copy).
\<close>

theorem thumb_relocation_spec:
  assumes "2 \<le> len" "len div 2 \<le> length orig"
    "count bd + length (thumb_rows ld32 (t + 4) 0 0 (take (len div 2) orig)) \<le> length (orig_boundaries bd)"
    "length (orig_boundaries bd) \<le> length (trampoline_boundaries bd)"
  shows "\<exists>bd'. relocateInstructionInThumb ld32 t orig len bd =
             Inr (thumb_code ld32 (t + 4) (take (len div 2) orig)
                    @ [0xF8DF, 0xF000, low_half (t + of_nat (2 * thumb_end (take (len div 2) orig)) + 1),
                       high_half (t + of_nat (2 * thumb_end (take (len div 2) orig)) + 1)], bd')
           \<and> table_rows bd' = table_rows bd @ thumb_rows ld32 (t + 4) 0 0 (take (len div 2) orig)"
  using thumb_loop_spec [of "len div 2" orig 0 bd ld32 "t + 4" "[]"] assms
  by (auto simp: relocateInstructionInThumb_def Let_def mult.commute)

theorem thumb_relocation_spec_witness: "\<exists>bd'. relocateInstructionInThumb (\<lambda>_. 0) 0x8000 [0xE7FE, 0x4608] 4 demo_bd =
     Inr ([0xF8DF, 0xF000, 0x8001, 0, 0x4608, 0xBF00, 0xF8DF, 0xF000, 0x8005, 0], bd')
   \<and> table_rows bd' = [(0, 0), (2, 8)]"
  using thumb_relocation_spec [of 4 "[0xE7FE, 0x4608]" demo_bd "\<lambda>_. 0" "0x8000"]
  by (simp add: demo_bd_def is_wide_def relocateInstructionInThumb16_def getTypeInThumb16_def Let_def sign_fill_def
      low_half_def high_half_def table_rows_def)

text \<open>
  (C23) A Thumb prologue of more instructions than the table has free rows makes the loop write past
  \<^verbatim>\<open>orig_boundaries\<close>; with its four rows that is every 12-byte prologue of five or six instructions.
\<close>

theorem thumb_relocation_overflow:
  assumes "2 \<le> len" "len div 2 \<le> length orig"
    "length (orig_boundaries bd) < count bd + length (thumb_rows ld32 (t + 4) 0 0 (take (len div 2) orig))"
  shows "relocateInstructionInThumb ld32 t orig len bd = Inl OutOfBounds"
  using thumb_loop_overflow [of "len div 2" orig 0 bd ld32 "t + 4" "[]"] assms
  by (auto simp: relocateInstructionInThumb_def)

theorem thumb_relocation_overflow_witness: "relocateInstructionInThumb (\<lambda>_. 0) 0x8000 [0x4608, 0x4608, 0x4608, 0x4608, 0x4608, 0x4608] 12 demo_bd = Inl OutOfBounds"
  by (rule thumb_relocation_overflow) (simp_all add: demo_bd_def thumb_rows_all_narrow is_wide_def)

text \<open>
  In the tables the Thumb relocation fills, original and copy offsets increase strictly, copies start
  on word boundaries inside the emitted code, and the code of a prologue of \<open>len\<close> bytes stays within 14
  halfwords per halfword plus the jump back.
\<close>

theorem thumb_relocation_layout:
  assumes "relocateInstructionInThumb ld32 t orig len bd = Inr (out, bd')" "2 \<le> len" "count bd = 0"
  shows "bd_inv (len + 1) (2 * length out) bd' \<and> 4 dvd 2 * length out \<and> length out \<le> 14 * (len div 2) + 4"
proof -
  obtain pos out1 where l: "thumb_loop ld32 orig (len div 2) (t + 4) 0 [] bd = Inr (pos, out1, bd')"
    and out: "length out = length out1 + 4"
    using assms(1) by (auto simp: relocateInstructionInThumb_def Let_def split: sum.splits)
  have "bd_inv (0 * 2) (length ([] :: u16 list) * 2) bd" using assms(3) by (simp add: bd_inv_def)
  with thumb_loop_post [OF l] assms(2) have p: "pos \<le> len div 2" "even (length out1)" "length out1 \<le> 14 * pos"
      "bd_inv (2 * pos + 1) (2 * length out1 + 1) bd'" by auto
  have "bd_inv (len + 1) (2 * length out) bd'" using p out by (intro bd_inv_mono [OF p(4)]) auto
  then show ?thesis using p out by auto
qed

theorem thumb_relocation_layout_witness:
  "\<exists>out bd'. relocateInstructionInThumb (\<lambda>_. 0) 0x8000 [0xE7FE, 0x4608] 4 demo_bd = Inr (out, bd')
     \<and> bd_inv 5 (2 * length out) bd' \<and> 4 dvd 2 * length out \<and> length out \<le> 32"
proof -
  have "case relocateInstructionInThumb (\<lambda>_. 0) 0x8000 [0xE7FE, 0x4608] 4 demo_bd of Inr _ \<Rightarrow> True | Inl _ \<Rightarrow> False"
    by code_simp
  then obtain out bd' where r: "relocateInstructionInThumb (\<lambda>_. 0) 0x8000 [0xE7FE, 0x4608] 4 demo_bd = Inr (out, bd')"
    by (auto split: sum.splits)
  show ?thesis using r thumb_relocation_layout [OF r] by (auto simp: demo_bd_def)
qed

lemma arm_loop_post:
  assumes "arm_loop ld32 ws p pc out bd = Inr (out', bd')" "bd_inv (p * 4) (length out * 4) bd"
  shows "bd_inv ((p + length ws) * 4) (length out' * 4) bd' \<and> length out' \<le> length out + 6 * length ws
    \<and> count bd' = count bd + length ws"
  using assms
proof (induction ws arbitrary: p pc out bd)
  case (Cons w ws)
  let ?out = "out @ relocateOneArm ld32 pc w"
  obtain bd1 where bd1: "record_boundary (p * 4) (length out * 4) bd = Inr bd1"
      "arm_loop ld32 ws (Suc p) (pc + 4) ?out bd1 = Inr (out', bd')"
    using Cons.prems(1) by (auto split: sum.splits)
  have l: "0 < length (relocateOneArm ld32 pc w)" "length (relocateOneArm ld32 pc w) \<le> 6" using length_arm [of ld32 pc w] by auto
  have "bd_inv (Suc p * 4) (length ?out * 4) bd1"
    by (rule record_boundary_inv [OF Cons.prems(2) bd1(1)]) (use l in simp_all)
  from Cons.IH [OF bd1(2) this] show ?case using l record_boundary_count [OF bd1(1)] by (simp add: add.commute add.left_commute)
qed simp

lemma thumb_loop_counts:
  assumes "thumb_loop ld32 orig n pc p out bd = Inr (pos, out', bd')" "p < n"
  shows "count bd < count bd'"
  using assms
proof (induction "n - p" arbitrary: p pc out bd rule: less_induct)
  case less
  from less.prems show ?case
  proof (cases rule: thumb_loop_cases)
    case (more bd1 ws pc' p')
    then show ?thesis using less.hyps [OF _ more(8,7)] record_boundary_count [OF more(1)] by fastforce
  qed (auto dest: record_boundary_count)
qed

text \<open>The tables after the relocation of a whole prologue, for a slot without rows.\<close>

lemma relocation_rows:
  assumes "relocateInstruction ld32 t orig len bd = Inr (code, bd')" "count bd = 0" "len = 8 \<or> len = 12" "t AND 1 \<noteq> 0 \<or> len = 8"
  shows "\<exists>p q. bd_inv p q bd' \<and> p \<le> 2 ^ 32 \<and> q \<le> 2 ^ 32 \<and> 0 < count bd'"
proof (cases "t AND 1 \<noteq> 0")
  case True
  obtain hs where hs: "relocateInstructionInThumb ld32 (t - 1) (halfwords orig) len bd = Inr (hs, bd')"
    using assms(1) True by (auto simp: relocateInstruction_def split: sum.splits)
  then obtain pos out1 where "thumb_loop ld32 (halfwords orig) (len div 2) (t - 1 + 4) 0 [] bd = Inr (pos, out1, bd')"
    by (auto simp: relocateInstructionInThumb_def Let_def split: sum.splits)
  with thumb_loop_counts [OF this] assms(3) have "0 < count bd'" by auto
  moreover have "bd_inv (len + 1) (2 * length hs) bd'" "2 * length hs \<le> 2 ^ 32" "len + 1 \<le> 2 ^ 32"
    using thumb_relocation_layout [OF hs _ assms(2)] assms(3) by auto
  ultimately show ?thesis by blast
next
  case False
  then obtain ws where ws: "relocateInstructionInArm ld32 t (words orig) 8 bd = Inr (ws, bd')"
    using assms(1,4) by (auto simp: relocateInstruction_def split: sum.splits)
  then obtain out1 where out: "arm_loop ld32 (take 2 (words orig)) 0 (t + 8) [] bd = Inr (out1, bd')" "2 \<le> length (words orig)"
    by (auto simp: relocateInstructionInArm_def Let_def split: sum.splits if_splits)
  have "bd_inv (0 * 4) (length ([] :: u32 list) * 4) bd" using assms(2) by (simp add: bd_inv_def)
  from arm_loop_post [OF out(1) this] out(2) have "bd_inv 8 (length out1 * 4) bd'" "length out1 * 4 \<le> 2 ^ 32" "0 < count bd'"
    by (auto simp: min_def split: if_splits)
  moreover have "(8 :: nat) \<le> 2 ^ 32" by simp
  ultimately show ?thesis by blast
qed

lemma arm_relocation_spec:
  assumes "len div 4 \<le> length orig"
    "count bd + len div 4 \<le> length (orig_boundaries bd)" "count bd + len div 4 \<le> length (trampoline_boundaries bd)"
  shows "\<exists>bd'. relocateInstructionInArm ld32 t orig len bd =
             Inr (arm_code ld32 (t + 8) (take (len div 4) orig) @ [0xe51ff004, t + of_nat len], bd')
           \<and> table_rows bd' = table_rows bd @ arm_rows ld32 (t + 8) 0 0 (take (len div 4) orig)
           \<and> count bd' = count bd + len div 4"
  using arm_loop_spec [of bd "take (len div 4) orig" ld32 0 "t + 8" "[]"] assms
  by (auto simp: relocateInstructionInArm_def)

end
