(* ===== verification/Arm_Isa.thy ===== *)
theory Arm_Isa
  imports C_Prelude
begin

text \<open>
  The abstract specification the relocators are measured against: what the ARM architecture says the
  instructions do that occur as PC-relative originals or inside the generated sequences.  It is
  written from the architecture's encodings and pseudocode, not from the relocators, and covers the
  ARM and Thumb encodings those sequences use; every other encoding is outside it (\<open>None\<close>).

  An instruction is executed with an explicit address \<open>nxt\<close> of the instruction that follows it.  In
  place that is the PC plus the instruction's size.  For a relocated instruction the PC-relative
  operands still come from the original address while fall-through and return continue after the
  generated sequence, so ``the sequence behaves like the original'' is an equation with the
  same function on its right-hand side and \<open>nxt\<close> behind the sequence.
\<close>

record arm_state =
  R :: "nat \<Rightarrow> u32"
  PC :: u32
  Thumb :: bool
  N :: bool
  Z :: bool
  Cf :: bool
  V :: bool
  mem :: "u32 \<Rightarrow> u8"

section \<open>Memory\<close>

definition load16 :: "(u32 \<Rightarrow> u8) \<Rightarrow> u32 \<Rightarrow> u16" where
  "load16 m a = le_word [m a, m (a + 1)]"

definition load32 :: "(u32 \<Rightarrow> u8) \<Rightarrow> u32 \<Rightarrow> u32" where
  "load32 m a = ucast (load16 m a) OR push_bit 16 (ucast (load16 m (a + 2)))"

definition store32 :: "u32 \<Rightarrow> u32 \<Rightarrow> (u32 \<Rightarrow> u8) \<Rightarrow> (u32 \<Rightarrow> u8)" where
  "store32 a v m = m(a := ucast v, a + 1 := ucast (drop_bit 8 v), a + 2 := ucast (drop_bit 16 v),
                     a + 3 := ucast (drop_bit 24 v))"

fun code32_at :: "(u32 \<Rightarrow> u8) \<Rightarrow> u32 \<Rightarrow> u32 list \<Rightarrow> bool" where
  "code32_at m a [] = True"
| "code32_at m a (w # ws) = (load32 m a = w \<and> code32_at m (a + 4) ws)"

fun code16_at :: "(u32 \<Rightarrow> u8) \<Rightarrow> u32 \<Rightarrow> u16 list \<Rightarrow> bool" where
  "code16_at m a [] = True"
| "code16_at m a (h # hs) = (load16 m a = h \<and> code16_at m (a + 2) hs)"

section \<open>Conditions and writes to the PC\<close>

definition cond_passed :: "u32 \<Rightarrow> arm_state \<Rightarrow> bool" where
  "cond_passed c s =
     (let k = drop_bit 1 c;
          base = (if k = 0 then Z s else if k = 1 then Cf s else if k = 2 then N s else if k = 3 then V s
                  else if k = 4 then Cf s \<and> \<not> Z s else if k = 5 then N s = V s
                  else if k = 6 then N s = V s \<and> \<not> Z s else True)
      in if c AND 1 = 1 \<and> c \<noteq> 0xF then \<not> base else base)"

lemma cond_passed_pc [simp]: "cond_passed c (s\<lparr>PC := x\<rparr>) = cond_passed c s"
proof -
  have sel: "Z (s\<lparr>PC := x\<rparr>) = Z s" "N (s\<lparr>PC := x\<rparr>) = N s" "Cf (s\<lparr>PC := x\<rparr>) = Cf s"
    "V (s\<lparr>PC := x\<rparr>) = V s" by simp_all
  show ?thesis unfolding cond_passed_def Let_def sel ..
qed

text \<open>\<open>BXWritePC\<close>: bit 0 selects the instruction set; an ARM target must be word aligned.\<close>

definition bx_write_pc :: "u32 \<Rightarrow> arm_state \<Rightarrow> arm_state option" where
  "bx_write_pc v s =
     (if v AND 1 = 1 then Some (s\<lparr>PC := v AND 0xFFFFFFFE, Thumb := True\<rparr>)
      else if v AND 2 = 0 then Some (s\<lparr>PC := v, Thumb := False\<rparr>)
      else None)"

definition write_reg :: "nat \<Rightarrow> u32 \<Rightarrow> u32 \<Rightarrow> arm_state \<Rightarrow> arm_state option" where
  "write_reg rd v nxt s =
     (if rd = 15 then bx_write_pc v s else Some (s\<lparr>R := (R s)(rd := v), PC := nxt\<rparr>))"

section \<open>ARM encodings\<close>

definition read_arm :: "nat \<Rightarrow> arm_state \<Rightarrow> u32" where
  "read_arm n s = (if n = 15 then PC s + 8 else R s n)"

definition fld :: "nat \<Rightarrow> u32 \<Rightarrow> nat" where
  "fld k ins = unat (drop_bit k ins AND 0xF)"

definition arm_expand_imm :: "u32 \<Rightarrow> u32" where
  "arm_expand_imm imm12 = word_rotr (2 * unat (drop_bit 8 imm12 AND 0xF)) (imm12 AND 0xFF)"

definition arm_exec :: "u32 \<Rightarrow> u32 \<Rightarrow> arm_state \<Rightarrow> arm_state option" where
  "arm_exec ins nxt s =
     (let c = drop_bit 28 ins;
          off24 = push_bit 2 (scast (ucast ins :: 24 word)) :: u32;
          imm12 = ins AND 0xFFF;
          rn = fld 16 ins; rd = fld 12 ins; rm = fld 0 ins
      in if c = 0xF then
           (if ins AND 0xFE000000 = 0xFA000000
            then Some (s\<lparr>R := (R s)(14 := nxt), Thumb := True,
                         PC := PC s + 8 + off24 + drop_bit 23 (ins AND 0x1000000)\<rparr>)
            else None)
         else if \<not> cond_passed c s then Some (s\<lparr>PC := nxt\<rparr>)
         else if ins AND 0xF000000 = 0xA000000 then Some (s\<lparr>PC := PC s + 8 + off24\<rparr>)
         else if ins AND 0xF000000 = 0xB000000 then
           Some (s\<lparr>R := (R s)(14 := nxt), PC := PC s + 8 + off24\<rparr>)
         else if ins AND 0xFFFFFF0 = 0x12FFF10 then bx_write_pc (read_arm rm s) s
         else if ins AND 0xFF00000 = 0x2800000 then
           write_reg rd (read_arm rn s + arm_expand_imm imm12) nxt s
         else if ins AND 0xFF00000 = 0x2400000 then
           write_reg rd (read_arm rn s - arm_expand_imm imm12) nxt s
         else if ins AND 0xFF00FF0 = 0x0800000 then
           write_reg rd (read_arm rn s + read_arm rm s) nxt s
         else if ins AND 0xFFF0FF0 = 0x1A00000 then write_reg rd (read_arm rm s) nxt s
         else if ins AND 0xF700000 = 0x5100000 then
           (let a = (if ins AND 0x800000 \<noteq> 0 then read_arm rn s + imm12 else read_arm rn s - imm12)
            in write_reg rd (load32 (mem s) a) nxt s)
         else if ins AND 0xFFF0FFF = 0x52D0004 \<and> rd < 13 then
           Some (s\<lparr>mem := store32 (R s 13 - 4) (R s rd) (mem s), R := (R s)(13 := R s 13 - 4), PC := nxt\<rparr>)
         else if ins AND 0xFFF0FFF = 0x49D0004 \<and> rd < 13 then
           Some (s\<lparr>R := (R s)(13 := R s 13 + 4, rd := load32 (mem s) (R s 13)), PC := nxt\<rparr>)
         else None)"

section \<open>Thumb encodings\<close>

definition read_thumb :: "nat \<Rightarrow> arm_state \<Rightarrow> u32" where
  "read_thumb n s = (if n = 15 then PC s + 4 else R s n)"

definition align4 :: "u32 \<Rightarrow> u32" where
  "align4 a = a AND NOT 3"

text \<open>
  A 16-bit encoding.  \<open>MOV\<close> and \<open>ADD\<close> to the PC branch without changing the instruction set; the
  relocator's originals exclude them, so they are outside the specification, and so are \<open>PUSH\<close> and
  \<open>POP\<close> with other than exactly one low register.
\<close>

definition low_reg_list :: "u32 \<Rightarrow> nat list" where
  "low_reg_list ins = filter (bit ins) [0..<8]"

definition thumb16_exec :: "u16 \<Rightarrow> u32 \<Rightarrow> arm_state \<Rightarrow> arm_state option" where
  "thumb16_exec h nxt s =
     (let ins = ucast h :: u32;
          imm8 = ins AND 0xFF;
          lowreg = unat (drop_bit 8 ins AND 7);
          rdn = unat (drop_bit 4 (ins AND 0x80) OR (ins AND 7));
          rm = unat (drop_bit 3 ins AND 0xF)
      in if ins AND 0xF000 = 0xD000 \<and> drop_bit 8 ins AND 0xF < 0xE then
           Some (s\<lparr>PC := if cond_passed (drop_bit 8 ins AND 0xF) s
                         then PC s + 4 + push_bit 1 (scast (ucast ins :: 8 word)) else nxt\<rparr>)
         else if ins AND 0xF800 = 0xE000 then
           Some (s\<lparr>PC := PC s + 4 + push_bit 1 (scast (ucast ins :: 11 word))\<rparr>)
         else if ins AND 0xFF87 = 0x4700 then bx_write_pc (read_thumb rm s) s
         else if ins AND 0xFF00 = 0x4400 \<and> rdn < 13 then
           Some (s\<lparr>R := (R s)(rdn := R s rdn + read_thumb rm s), PC := nxt\<rparr>)
         else if ins AND 0xFF00 = 0x4600 \<and> rdn \<noteq> 15 then
           Some (s\<lparr>R := (R s)(rdn := read_thumb rm s), PC := nxt\<rparr>)
         else if ins AND 0xF800 = 0xA000 then
           Some (s\<lparr>R := (R s)(lowreg := align4 (PC s + 4) + push_bit 2 imm8), PC := nxt\<rparr>)
         else if ins AND 0xF800 = 0x4800 then
           Some (s\<lparr>R := (R s)(lowreg := load32 (mem s) (align4 (PC s + 4) + push_bit 2 imm8)), PC := nxt\<rparr>)
         else if ins AND 0xF500 = 0xB100 then
           (let off = push_bit 6 (drop_bit 9 ins AND 1) OR push_bit 1 (drop_bit 3 ins AND 0x1F);
                zero = (R s (unat (ins AND 7)) = 0)
            in Some (s\<lparr>PC := if zero = (ins AND 0x800 = 0) then PC s + 4 + off else nxt\<rparr>))
         else if ins AND 0xFF00 = 0xB400 then
           (case low_reg_list ins of
              [r] \<Rightarrow> Some (s\<lparr>mem := store32 (R s 13 - 4) (R s r) (mem s), R := (R s)(13 := R s 13 - 4), PC := nxt\<rparr>)
            | _ \<Rightarrow> None)
         else if ins AND 0xFF00 = 0xBC00 then
           (case low_reg_list ins of
              [r] \<Rightarrow> Some (s\<lparr>R := (R s)(13 := R s 13 + 4, r := load32 (mem s) (R s 13)), PC := nxt\<rparr>)
            | _ \<Rightarrow> None)
         else if ins = 0xBF00 then Some (s\<lparr>PC := nxt\<rparr>)
         else None)"

definition branch_off25 :: "u32 \<Rightarrow> u32 \<Rightarrow> u32" where
  "branch_off25 hi lo =
     (let s = bit hi 10; i1 = (bit lo 13 = s); i2 = (bit lo 11 = s);
          w = (if s then push_bit 23 1 else 0) OR (if i1 then push_bit 22 1 else 0)
              OR (if i2 then push_bit 21 1 else 0)
              OR push_bit 11 (ucast (ucast hi :: 10 word)) OR ucast (ucast lo :: 11 word) :: 24 word
      in push_bit 1 (scast w))"

definition branch_off21 :: "u32 \<Rightarrow> u32 \<Rightarrow> u32" where
  "branch_off21 hi lo =
     (let w = (if bit hi 10 then push_bit 19 1 else 0) OR (if bit lo 11 then push_bit 18 1 else 0)
              OR (if bit lo 13 then push_bit 17 1 else 0)
              OR push_bit 11 (ucast (ucast hi :: 6 word)) OR ucast (ucast lo :: 11 word) :: 20 word
      in push_bit 1 (scast w))"

definition thumb32_exec :: "u16 \<Rightarrow> u16 \<Rightarrow> u32 \<Rightarrow> arm_state \<Rightarrow> arm_state option" where
  "thumb32_exec h1 h2 nxt s =
     (let hi = ucast h1 :: u32; lo = ucast h2 :: u32;
          base = align4 (PC s + 4);
          imm12 = lo AND 0xFFF;
          imm_adr = push_bit 11 (drop_bit 10 hi AND 1) OR push_bit 8 (drop_bit 12 lo AND 7) OR (lo AND 0xFF);
          rd = unat (drop_bit 8 lo AND 0xF); rt = unat (drop_bit 12 lo)
      in if hi AND 0xF800 = 0xF000 \<and> lo AND 0xD000 = 0x9000 then
           Some (s\<lparr>PC := PC s + 4 + branch_off25 hi lo\<rparr>)
         else if hi AND 0xF800 = 0xF000 \<and> lo AND 0xD000 = 0x8000 \<and> hi AND 0x380 \<noteq> 0x380 then
           Some (s\<lparr>PC := if cond_passed (drop_bit 6 hi AND 0xF) s then PC s + 4 + branch_off21 hi lo else nxt\<rparr>)
         else if hi AND 0xF800 = 0xF000 \<and> lo AND 0xD000 = 0xD000 then
           Some (s\<lparr>R := (R s)(14 := nxt OR 1), PC := PC s + 4 + branch_off25 hi lo\<rparr>)
         else if hi AND 0xF800 = 0xF000 \<and> lo AND 0xD001 = 0xC000 then
           Some (s\<lparr>R := (R s)(14 := nxt OR 1), Thumb := False, PC := base + branch_off25 hi lo\<rparr>)
         else if hi AND 0xFBFF = 0xF20F \<and> lo AND 0x8000 = 0 \<and> rd \<noteq> 15 then
           Some (s\<lparr>R := (R s)(rd := base + imm_adr), PC := nxt\<rparr>)
         else if hi AND 0xFBFF = 0xF2AF \<and> lo AND 0x8000 = 0 \<and> rd \<noteq> 15 then
           Some (s\<lparr>R := (R s)(rd := base - imm_adr), PC := nxt\<rparr>)
         else if hi AND 0xFF7F = 0xF85F then
           write_reg rt (load32 (mem s) (if hi AND 0x80 \<noteq> 0 then base + imm12 else base - imm12)) nxt s
         else None)"

section \<open>Fetch and run\<close>

definition wide :: "u16 \<Rightarrow> bool" where
  "wide h \<longleftrightarrow> 0xE800 \<le> h"

definition cpu_step :: "arm_state \<Rightarrow> arm_state option" where
  "cpu_step s =
     (if Thumb s then
        (let h = load16 (mem s) (PC s)
         in if wide h then thumb32_exec h (load16 (mem s) (PC s + 2)) (PC s + 4) s
            else thumb16_exec h (PC s + 2) s)
      else arm_exec (load32 (mem s) (PC s)) (PC s + 4) s)"

fun cpu_run :: "nat \<Rightarrow> arm_state \<Rightarrow> arm_state option" where
  "cpu_run 0 s = Some s"
| "cpu_run (Suc n) s = (case cpu_step s of None \<Rightarrow> None | Some t \<Rightarrow> cpu_run n t)"

lemma cpu_run_add:
  "cpu_run (m + n) s = (case cpu_run m s of None \<Rightarrow> None | Some t \<Rightarrow> cpu_run n t)"
  by (induction m arbitrary: s) (auto split: option.splits)

lemma load32_bytes: "load32 m a = le_word [m a, m (a + 1), m (a + 2), m (a + 3)]"
proof -
  have e: "a + 2 + 1 = a + 3" by simp
  show ?thesis
    unfolding load32_def load16_def e
    by (rule bit_word_eqI) (auto simp: bit_simps dest: bit_imp_le_length)
qed

lemma le_bytes_4: "le_bytes 4 v = [ucast v, ucast (drop_bit 8 v), ucast (drop_bit 16 v), ucast (drop_bit 24 v)]"
  by (simp add: le_bytes_def upt_rec)

lemma load32_store32_same: "load32 (store32 a v m) a = v"
proof -
  have "load32 (store32 a v m) a = le_word (le_bytes 4 v)"
    by (simp only: load32_bytes le_bytes_4) (simp add: store32_def)
  then show ?thesis by simp
qed

lemma le_word_2: "le_word [a, b] = ucast a OR push_bit 8 (ucast b)"
  by simp


section \<open>Example states\<close>

text \<open>A state whose memory holds code at address 0x9000, for evaluating the theorems on examples.\<close>

definition demo_state :: "(u32 \<Rightarrow> u8) \<Rightarrow> bool \<Rightarrow> arm_state" where
  "demo_state m th = \<lparr>R = \<lambda>r. if r = 13 then 0xF000 else 0, PC = 0, Thumb = th, N = False, Z = False,
                      Cf = False, V = False, mem = m\<rparr>"

definition demo_code32 :: "u32 list \<Rightarrow> u32 \<Rightarrow> u8" where
  "demo_code32 ws a = (if 0x9000 \<le> a \<and> unat (a - 0x9000) < 4 * length ws
     then concat (map (le_bytes 4) ws) ! unat (a - 0x9000) else 0)"

definition demo_code16 :: "u16 list \<Rightarrow> u32 \<Rightarrow> u8" where
  "demo_code16 hs a = (if 0x9000 \<le> a \<and> unat (a - 0x9000) < 2 * length hs
     then concat (map (le_bytes 2) hs) ! unat (a - 0x9000) else 0)"

end
