(* ===== verification/InlineHook.thy ===== *)
theory InlineHook
  imports Relocate_Layout Arm_Isa
begin

text \<open>
  The ARM32 inline hook library, \<^verbatim>\<open>inlineHook/inlineHook.c\<close> and \<^verbatim>\<open>include/inlineHook.h\<close>: the table of
  hook items, the translation of the PCs of stopped threads, freezing and releasing the other threads,
  and the five entry points.

  \<open>world\<close> is the state the library changes: the memory, the page protections, the PC and the
  stopped flag of every thread, the helper processes that hold threads stopped, the ranges passed to
  \<^verbatim>\<open>cacheflush\<close>, and the library's static \<open>info\<close>.  \<open>os\<close> holds the answers of the operating system
  to one call of an entry point: directory listings, the lines of the maps file, and the results of
  \<^verbatim>\<open>fork\<close>, \<^verbatim>\<open>ptrace\<close>, \<^verbatim>\<open>malloc\<close> and \<^verbatim>\<open>mmap\<close>.
\<close>

section \<open>Data\<close>

datatype ele7en_status =
    ELE7EN_ERROR_UNKNOWN | ELE7EN_OK | ELE7EN_ERROR_NOT_INITIALIZED | ELE7EN_ERROR_NOT_EXECUTABLE
  | ELE7EN_ERROR_NOT_REGISTERED | ELE7EN_ERROR_NOT_HOOKED | ELE7EN_ERROR_ALREADY_REGISTERED
  | ELE7EN_ERROR_ALREADY_HOOKED | ELE7EN_ERROR_SO_NOT_FOUND | ELE7EN_ERROR_FUNCTION_NOT_FOUND

text \<open>\<^verbatim>\<open>enum hook_status\<close>; the item keeps it in an \<^verbatim>\<open>int\<close>.\<close>

definition REGISTERED :: int where "REGISTERED = 0"
definition HOOKED :: int where "HOOKED = 1"

datatype action = ACTION_ENABLE | ACTION_DISABLE

record inlineHookItem =
  target_addr :: u32
  new_addr :: u32
  proto_addr :: u32
  orig_instructions :: "u8 list"
  bounds :: boundaries
  trampoline_instructions :: u32
  item_length :: nat
  status :: int

text \<open>\<^verbatim>\<open>struct inlineHookInfo\<close>, zero-initialised; \<open>item\<close> is the array of 1024 slots.\<close>

record inlineHookInfo =
  item :: "nat \<Rightarrow> inlineHookItem"
  size_info :: nat

definition zero_item :: inlineHookItem where
  "zero_item = \<lparr>target_addr = 0, new_addr = 0, proto_addr = 0, orig_instructions = [],
     bounds = \<lparr>orig_boundaries = replicate 4 0, trampoline_boundaries = replicate 20 0, count = 0\<rparr>,
     trampoline_instructions = 0, item_length = 0, status = 0\<rparr>"

definition info0 :: inlineHookInfo where
  "info0 = \<lparr>item = \<lambda>_. zero_item, size_info = 0\<rparr>"

record prot =
  p_read :: bool
  p_write :: bool
  p_exec :: bool

record world =
  w_mem :: "u32 \<Rightarrow> u8"
  w_prot :: "u32 \<Rightarrow> prot"
  w_pc :: "int \<Rightarrow> u32"
  w_stopped :: "int \<Rightarrow> bool"
  w_child :: "int \<Rightarrow> int list"
  w_flush :: "(u32 \<times> u32) list"
  w_info :: inlineHookInfo

record os =
  os_gettid :: int
  os_taskdir :: "int \<Rightarrow> string list option"
  os_fork :: int
  os_attach :: "int \<Rightarrow> bool"
  os_getregs :: "int \<Rightarrow> bool"
  os_maps :: "string list option"
  os_malloc :: bool
  os_mmap :: u32

section \<open>Address macros and memory access\<close>

definition PAGE_START :: "u32 \<Rightarrow> u32" where
  "PAGE_START addr = NOT 0xFFF AND addr"

definition SET_BIT0 :: "u32 \<Rightarrow> u32" where
  "SET_BIT0 addr = addr OR 1"

definition CLEAR_BIT0 :: "u32 \<Rightarrow> u32" where
  "CLEAR_BIT0 addr = addr AND 0xFFFFFFFE"

definition TEST_BIT0 :: "u32 \<Rightarrow> bool" where
  "TEST_BIT0 addr \<longleftrightarrow> addr AND 1 \<noteq> 0"

definition read_bytes :: "(u32 \<Rightarrow> u8) \<Rightarrow> u32 \<Rightarrow> nat \<Rightarrow> u8 list" where
  "read_bytes m a n = map (\<lambda>i. m (a + of_nat i)) [0..<n]"

fun write_bytes :: "u32 \<Rightarrow> u8 list \<Rightarrow> (u32 \<Rightarrow> u8) \<Rightarrow> (u32 \<Rightarrow> u8)" where
  "write_bytes a [] m = m"
| "write_bytes a (b # bs) m = write_bytes (a + 1) bs (m(a := b))"

definition writable :: "world \<Rightarrow> u32 \<Rightarrow> nat \<Rightarrow> bool" where
  "writable w a n \<longleftrightarrow> list_all (\<lambda>i. p_write (w_prot w (PAGE_START (a + of_nat i)))) [0..<n]"

definition store_bytes :: "u32 \<Rightarrow> u8 list \<Rightarrow> world \<Rightarrow> world res" where
  "store_bytes a bs w =
     (if writable w a (length bs) then Inr (w\<lparr>w_mem := write_bytes a bs (w_mem w)\<rparr>) else Inl AccessFault)"

text \<open>\<^verbatim>\<open>mprotect(page, PAGE_SIZE * 2, p)\<close>, \<^verbatim>\<open>mmap\<close> and \<^verbatim>\<open>munmap\<close> of one page.\<close>

definition mprotect2 :: "u32 \<Rightarrow> prot \<Rightarrow> world \<Rightarrow> world" where
  "mprotect2 page p w = w\<lparr>w_prot := (w_prot w)(page := p, page + 0x1000 := p)\<rparr>"

definition PROT_RWX :: prot where "PROT_RWX = \<lparr>p_read = True, p_write = True, p_exec = True\<rparr>"
definition PROT_RX :: prot where "PROT_RX = \<lparr>p_read = True, p_write = False, p_exec = True\<rparr>"
definition PROT_NONE :: prot where "PROT_NONE = \<lparr>p_read = False, p_write = False, p_exec = False\<rparr>"

definition mmap_page :: "u32 \<Rightarrow> world \<Rightarrow> world" where
  "mmap_page page w = w\<lparr>w_prot := (w_prot w)(page := PROT_RWX),
                        w_mem := (\<lambda>a. if PAGE_START a = page then 0 else w_mem w a)\<rparr>"

definition munmap_page :: "u32 \<Rightarrow> world \<Rightarrow> world" where
  "munmap_page page w = w\<lparr>w_prot := (w_prot w)(page := PROT_NONE)\<rparr>"

definition cacheflush :: "u32 \<Rightarrow> u32 \<Rightarrow> world \<Rightarrow> world" where
  "cacheflush a b w = w\<lparr>w_flush := w_flush w @ [(a, b)]\<rparr>"

section \<open>Text of the proc files\<close>

fun atoi_digits :: "int \<Rightarrow> string \<Rightarrow> int" where
  "atoi_digits acc [] = acc"
| "atoi_digits acc (c # cs) =
     (if 48 \<le> (of_char c :: int) \<and> (of_char c :: int) \<le> 57 then atoi_digits (10 * acc + (of_char c - 48)) cs else acc)"

definition is_space :: "char \<Rightarrow> bool" where
  "is_space c \<longleftrightarrow> (of_char c :: int) = 32 \<or> 9 \<le> (of_char c :: int) \<and> (of_char c :: int) \<le> 13"

definition atoi :: "string \<Rightarrow> int" where
  "atoi str =
     (case dropWhile is_space str of
        [] \<Rightarrow> 0
      | c # cs \<Rightarrow> if c = CHR ''-'' then - atoi_digits 0 cs
                  else if c = CHR ''+'' then atoi_digits 0 cs else atoi_digits 0 (c # cs))"

definition hex_digit :: "char \<Rightarrow> int option" where
  "hex_digit c =
     (let n = of_char c :: int
      in if 48 \<le> n \<and> n \<le> 57 then Some (n - 48) else if 97 \<le> n \<and> n \<le> 102 then Some (n - 87)
         else if 65 \<le> n \<and> n \<le> 70 then Some (n - 55) else None)"

fun hex_digits :: "int \<Rightarrow> string \<Rightarrow> int" where
  "hex_digits acc [] = acc"
| "hex_digits acc (c # cs) = (case hex_digit c of None \<Rightarrow> acc | Some d \<Rightarrow> hex_digits (16 * acc + d) cs)"

text \<open>
  \<^verbatim>\<open>strtoul(s, NULL, 16)\<close> on a 32-bit \<^verbatim>\<open>unsigned long\<close>: leading white space, a sign and a \<^verbatim>\<open>0x\<close> in
  front of a digit are skipped, values that do not fit saturate.
\<close>

definition skip_0x :: "string \<Rightarrow> string" where
  "skip_0x str =
     (case str of
        z # x # d # ds \<Rightarrow>
          if z = CHR ''0'' \<and> (x = CHR ''x'' \<or> x = CHR ''X'') \<and> hex_digit d \<noteq> None then d # ds else str
      | _ \<Rightarrow> str)"

definition strtoul16 :: "string \<Rightarrow> u32" where
  "strtoul16 str =
     (let body = dropWhile is_space str;
          neg = (case body of c # cs \<Rightarrow> c = CHR ''-'' | [] \<Rightarrow> False);
          digits = (case body of c # cs \<Rightarrow> if c = CHR ''-'' \<or> c = CHR ''+'' then cs else body | [] \<Rightarrow> []);
          n = hex_digits 0 (skip_0x digits)
      in if 2 ^ 32 \<le> n then 0xFFFFFFFF else if neg then - of_int n else of_int n)"

fun is_prefix :: "string \<Rightarrow> string \<Rightarrow> bool" where
  "is_prefix [] ys = True"
| "is_prefix (x # xs) [] = False"
| "is_prefix (x # xs) (y # ys) = (x = y \<and> is_prefix xs ys)"

fun strstr :: "string \<Rightarrow> string \<Rightarrow> bool" where
  "strstr [] needle = is_prefix needle []"
| "strstr (c # cs) needle = (is_prefix needle (c # cs) \<or> strstr cs needle)"

text \<open>\<^verbatim>\<open>strtok\<close>: the token and the text behind the delimiter that ends it.\<close>

definition strtok :: "char \<Rightarrow> string \<Rightarrow> string \<times> string" where
  "strtok d str =
     (let rest = dropWhile (\<lambda>c. c = d) str
      in (takeWhile (\<lambda>c. c \<noteq> d) rest, drop 1 (dropWhile (\<lambda>c. c \<noteq> d) rest)))"


definition getAllTids :: "os \<Rightarrow> int \<Rightarrow> int list res" where
  "getAllTids os exclude_tid =
     (case os_taskdir os exclude_tid of
        None \<Rightarrow> Inr []
      | Some names \<Rightarrow>
          (let tids = filter (\<lambda>tid. tid \<noteq> 0 \<and> tid \<noteq> exclude_tid) (map atoi names)
           in if length tids \<le> 1024 then Inr tids else Inl OutOfBounds))"

fun isExecutableLine :: "u32 \<Rightarrow> string list \<Rightarrow> bool" where
  "isExecutableLine addr [] = False"
| "isExecutableLine addr (line # rest) =
     (if strstr line ''r-xp'' \<or> strstr line ''rwxp'' then
        (let (tok, more) = strtok (CHR ''-'') line;
             start = strtoul16 tok;
             last = strtoul16 (fst (strtok (CHR '' '') more))
         in if start \<le> addr \<and> addr \<le> last then True else isExecutableLine addr rest)
      else isExecutableLine addr rest)"

definition isExecutableAddr :: "os \<Rightarrow> u32 \<Rightarrow> bool" where
  "isExecutableAddr os addr =
     (case os_maps os of None \<Rightarrow> False | Some lines \<Rightarrow> isExecutableLine addr lines)"

section \<open>Threads\<close>

text \<open>The first \<open>i < count\<close> with \<^verbatim>\<open>offset == table[i]\<close>; the tables hold \<^verbatim>\<open>int\<close>s.\<close>

definition find_boundary :: "nat list \<Rightarrow> nat \<Rightarrow> u32 \<Rightarrow> nat option" where
  "find_boundary table n offset = find (\<lambda>i. of_nat (table ! i) = offset) [0..<n]"

definition doProcessThreadPC :: "inlineHookItem \<Rightarrow> action \<Rightarrow> u32 \<Rightarrow> u32 option" where
  "doProcessThreadPC it act pc =
     (let bd = bounds it in
      case act of
        ACTION_ENABLE \<Rightarrow>
          (case find_boundary (orig_boundaries bd) (count bd) (pc - CLEAR_BIT0 (target_addr it)) of
             None \<Rightarrow> None
           | Some i \<Rightarrow> Some (trampoline_instructions it + of_nat (trampoline_boundaries bd ! i)))
      | ACTION_DISABLE \<Rightarrow>
          (case find_boundary (trampoline_boundaries bd) (count bd) (pc - trampoline_instructions it) of
             None \<Rightarrow> None
           | Some i \<Rightarrow> Some (CLEAR_BIT0 (target_addr it) + of_nat (orig_boundaries bd ! i))))"

fun processAllItems :: "inlineHookItem list \<Rightarrow> action \<Rightarrow> u32 \<Rightarrow> u32" where
  "processAllItems [] act pc = pc"
| "processAllItems (it # its) act pc =
     (case doProcessThreadPC it act pc of Some pc' \<Rightarrow> pc' | None \<Rightarrow> processAllItems its act pc)"

definition live :: "inlineHookInfo \<Rightarrow> inlineHookItem list" where
  "live info = map (item info) [0..<size_info info]"

definition processThreadPC :: "os \<Rightarrow> int \<Rightarrow> inlineHookItem option \<Rightarrow> action \<Rightarrow> world \<Rightarrow> world" where
  "processThreadPC os tid it act w =
     (if os_getregs os tid then
        (let pc = w_pc w tid;
             pc' = (case it of
                      None \<Rightarrow> processAllItems (live (w_info w)) act pc
                    | Some i \<Rightarrow> (case doProcessThreadPC i act pc of Some p \<Rightarrow> p | None \<Rightarrow> pc))
         in w\<lparr>w_pc := (w_pc w)(tid := pc')\<rparr>)
      else w)"

fun freeze_loop :: "os \<Rightarrow> int list \<Rightarrow> inlineHookItem option \<Rightarrow> action \<Rightarrow> world \<Rightarrow> world" where
  "freeze_loop os [] it act w = w"
| "freeze_loop os (tid # tids) it act w =
     (if os_attach os tid
      then freeze_loop os tids it act (processThreadPC os tid it act (w\<lparr>w_stopped := (w_stopped w)(tid := True)\<rparr>))
      else freeze_loop os tids it act w)"

text \<open>
  \<open>os_fork\<close> is what the calling process gets from \<^verbatim>\<open>fork\<close>: negative when it fails, else the helper
  that attaches to the threads, stops itself, and detaches from all of them when it is continued.
\<close>

definition freeze :: "os \<Rightarrow> inlineHookItem option \<Rightarrow> action \<Rightarrow> world \<Rightarrow> (int \<times> world) res" where
  "freeze os it act w =
     (case getAllTids os (os_gettid os) of
        Inl e \<Rightarrow> Inl e
      | Inr tids \<Rightarrow>
          if tids = [] then Inr (-1, w)
          else if os_fork os < 0 then Inr (os_fork os, w)
          else Inr (os_fork os,
                    (freeze_loop os tids it act w)\<lparr>w_child := (w_child w)(os_fork os := tids)\<rparr>))"

definition unFreeze :: "int \<Rightarrow> world \<Rightarrow> world" where
  "unFreeze pid w =
     (if pid < 0 then w
      else w\<lparr>w_stopped := (\<lambda>tid. w_stopped w tid \<and> tid \<notin> set (w_child w pid)),
             w_child := (w_child w)(pid := [])\<rparr>)"

section \<open>The table of items\<close>

definition findInlineHookItem :: "u32 \<Rightarrow> inlineHookInfo \<Rightarrow> nat option" where
  "findInlineHookItem target info = find (\<lambda>i. target_addr (item info i) = target) [0..<size_info info]"

definition addInlineHookItem :: "inlineHookInfo \<Rightarrow> (nat \<times> inlineHookInfo) option" where
  "addInlineHookItem info =
     (if 1024 \<le> size_info info then None
      else Some (size_info info, info\<lparr>size_info := Suc (size_info info)\<rparr>))"

definition deleteInlineHookItem :: "nat \<Rightarrow> inlineHookInfo \<Rightarrow> inlineHookInfo" where
  "deleteInlineHookItem pos info =
     info\<lparr>item := (item info)(pos := item info (size_info info - 1)), size_info := size_info info - 1\<rparr>"

definition set_item :: "nat \<Rightarrow> inlineHookItem \<Rightarrow> world \<Rightarrow> world" where
  "set_item i it w = w\<lparr>w_info := (w_info w)\<lparr>item := (item (w_info w))(i := it)\<rparr>\<rparr>"

section \<open>Registering\<close>

text \<open>
  \<^verbatim>\<open>registerInlineHook\<close>.  The slot keeps its old \<open>count\<close> and tables, which the relocation appends to.
  The status of an existing item decides the error.
\<close>

definition registerInlineHook ::
  "os \<Rightarrow> u32 \<Rightarrow> u32 \<Rightarrow> u32 \<Rightarrow> world \<Rightarrow> (ele7en_status \<times> world) res" where
  "registerInlineHook os target new proto w =
     (if \<not> isExecutableAddr os target \<or> \<not> isExecutableAddr os new then Inr (ELE7EN_ERROR_NOT_EXECUTABLE, w)
      else case findInlineHookItem target (w_info w) of
        Some i \<Rightarrow>
          Inr (if status (item (w_info w) i) = REGISTERED then ELE7EN_ERROR_ALREADY_REGISTERED
               else if status (item (w_info w) i) = HOOKED then ELE7EN_ERROR_ALREADY_HOOKED
               else ELE7EN_ERROR_UNKNOWN, w)
      | None \<Rightarrow>
          (case addInlineHookItem (w_info w) of
             None \<Rightarrow> Inl NullPointer
           | Some (i, info') \<Rightarrow>
               if \<not> os_malloc os then Inl NullPointer
               else
                 (let len = (if TEST_BIT0 target then 12 else 8);
                      orig = read_bytes (w_mem w) (CLEAR_BIT0 target) len;
                      page = os_mmap os;
                      w1 = mmap_page page (w\<lparr>w_info := info'\<rparr>)
                  in case relocateInstruction (load32 (w_mem w1)) target orig len (bounds (item info' i)) of
                       Inl e \<Rightarrow> Inl e
                     | Inr (code, bd) \<Rightarrow>
                         (case store_bytes page code w1 of
                            Inl e \<Rightarrow> Inl e
                          | Inr w2 \<Rightarrow>
                              Inr (ELE7EN_OK,
                                   set_item i \<lparr>target_addr = target, new_addr = new, proto_addr = proto,
                                      orig_instructions = orig, bounds = bd, trampoline_instructions = page,
                                      item_length = len, status = REGISTERED\<rparr> w2)))))"

section \<open>Hooking and unhooking\<close>

definition set_proto :: "inlineHookItem \<Rightarrow> world \<Rightarrow> world res" where
  "set_proto it w =
     (if proto_addr it = 0 then Inr w
      else store_bytes (proto_addr it)
             (le_bytes 4 (if TEST_BIT0 (target_addr it) then SET_BIT0 (trampoline_instructions it)
                          else trampoline_instructions it)) w)"

definition hook_patch :: "inlineHookItem \<Rightarrow> u8 list" where
  "hook_patch it =
     (if TEST_BIT0 (target_addr it) then
        concat (map (le_bytes 2)
          ((if CLEAR_BIT0 (target_addr it) mod 4 \<noteq> 0 then [0xBF00] else [])
             @ [0xF8DF, 0xF000, low_half (new_addr it), high_half (new_addr it)]))
      else concat (map (le_bytes 4) [0xe51ff004, new_addr it]))"

definition doInlineHook :: "nat \<Rightarrow> world \<Rightarrow> world res" where
  "doInlineHook i w =
     (let it = item (w_info w) i; code = CLEAR_BIT0 (target_addr it);
          w1 = mprotect2 (PAGE_START code) PROT_RWX w
      in case set_proto it w1 of
           Inl e \<Rightarrow> Inl e
         | Inr w2 \<Rightarrow>
             (case store_bytes code (hook_patch it) w2 of
                Inl e \<Rightarrow> Inl e
              | Inr w3 \<Rightarrow>
                  (let w4 = set_item i (it\<lparr>status := HOOKED\<rparr>) (mprotect2 (PAGE_START code) PROT_RX w3)
                   in Inr (cacheflush code (code + of_nat (item_length it)) w4))))"

definition doInlineUnHook :: "nat \<Rightarrow> world \<Rightarrow> world res" where
  "doInlineUnHook pos w =
     (let it = item (w_info w) pos; code = CLEAR_BIT0 (target_addr it)
      in case store_bytes code (orig_instructions it) (mprotect2 (PAGE_START code) PROT_RWX w) of
           Inl e \<Rightarrow> Inl e
         | Inr w1 \<Rightarrow>
             (let w2 = munmap_page (trampoline_instructions it) (mprotect2 (PAGE_START code) PROT_RX w1);
                  w3 = w2\<lparr>w_info := deleteInlineHookItem pos (w_info w2)\<rparr>;
                  moved = item (w_info w3) pos;
                  a = CLEAR_BIT0 (target_addr moved)
              in Inr (cacheflush a (a + of_nat (item_length moved)) w3)))"

definition inlineHook :: "os \<Rightarrow> u32 \<Rightarrow> world \<Rightarrow> (ele7en_status \<times> world) res" where
  "inlineHook os target w =
     (case findInlineHookItem target (w_info w) of
        None \<Rightarrow> Inr (ELE7EN_ERROR_NOT_REGISTERED, w)
      | Some i \<Rightarrow>
          (let it = item (w_info w) i in
           if status it = REGISTERED then
             (case freeze os (Some it) ACTION_ENABLE w of
                Inl e \<Rightarrow> Inl e
              | Inr (pid, w1) \<Rightarrow>
                  (case doInlineHook i w1 of
                     Inl e \<Rightarrow> Inl e
                   | Inr w2 \<Rightarrow> Inr (ELE7EN_OK, unFreeze pid w2)))
           else if status it = HOOKED then Inr (ELE7EN_ERROR_ALREADY_HOOKED, w)
           else Inr (ELE7EN_ERROR_UNKNOWN, w)))"

definition inlineUnHook :: "os \<Rightarrow> u32 \<Rightarrow> world \<Rightarrow> (ele7en_status \<times> world) res" where
  "inlineUnHook os target w =
     (case find (\<lambda>i. target_addr (item (w_info w) i) = target \<and> status (item (w_info w) i) = HOOKED)
             [0..<size_info (w_info w)] of
        None \<Rightarrow> Inr (ELE7EN_ERROR_NOT_HOOKED, w)
      | Some i \<Rightarrow>
          (case freeze os (Some (item (w_info w) i)) ACTION_DISABLE w of
             Inl e \<Rightarrow> Inl e
           | Inr (pid, w1) \<Rightarrow>
               (case doInlineUnHook i w1 of
                  Inl e \<Rightarrow> Inl e
                | Inr w2 \<Rightarrow> Inr (ELE7EN_OK, unFreeze pid w2))))"

section \<open>The operations on all items\<close>

fun hook_all_loop :: "nat list \<Rightarrow> world \<Rightarrow> world res" where
  "hook_all_loop [] w = Inr w"
| "hook_all_loop (i # is) w =
     (if status (item (w_info w) i) = REGISTERED
      then case doInlineHook i w of Inl e \<Rightarrow> Inl e | Inr w' \<Rightarrow> hook_all_loop is w'
      else hook_all_loop is w)"

definition inlineHookAll :: "os \<Rightarrow> world \<Rightarrow> world res" where
  "inlineHookAll os w =
     (case freeze os None ACTION_ENABLE w of
        Inl e \<Rightarrow> Inl e
      | Inr (pid, w1) \<Rightarrow>
          (case hook_all_loop [0..<size_info (w_info w1)] w1 of
             Inl e \<Rightarrow> Inl e
           | Inr w2 \<Rightarrow> Inr (unFreeze pid w2)))"

text \<open>
  The loop of \<^verbatim>\<open>inlineUnHookAll\<close>: deleting an item moves the last one into its slot, so \<open>i\<close> stays.
\<close>

lemma doInlineUnHook_size:
  assumes "doInlineUnHook i w = Inr w'"
  shows "size_info (w_info w') = size_info (w_info w) - 1"
  using assms
  by (auto simp: doInlineUnHook_def Let_def store_bytes_def mprotect2_def munmap_page_def
      deleteInlineHookItem_def cacheflush_def split: if_splits)

function unhook_all_loop :: "nat \<Rightarrow> world \<Rightarrow> world res" where
  "unhook_all_loop i w =
     (if i < size_info (w_info w) then
        if status (item (w_info w) i) = HOOKED
        then (case doInlineUnHook i w of Inl e \<Rightarrow> Inl e | Inr w' \<Rightarrow> unhook_all_loop i w')
        else unhook_all_loop (Suc i) w
      else Inr w)"
  by pat_completeness auto
termination
  by (relation "measure (\<lambda>(i, w). size_info (w_info w) - i)") (auto dest: doInlineUnHook_size)

declare unhook_all_loop.simps [simp del]

definition inlineUnHookAll :: "os \<Rightarrow> world \<Rightarrow> world res" where
  "inlineUnHookAll os w =
     (case freeze os None ACTION_DISABLE w of
        Inl e \<Rightarrow> Inl e
      | Inr (pid, w1) \<Rightarrow>
          (case unhook_all_loop 0 w1 of Inl e \<Rightarrow> Inl e | Inr w2 \<Rightarrow> Inr (unFreeze pid w2)))"

end
