(* ===== verification/InlineHook_Table.thy ===== *)
theory InlineHook_Table
  imports InlineHook "HOL-Library.Multiset"
begin

text \<open>
  The item table of \<^verbatim>\<open>inlineHook.c\<close>.  \<open>slot_table\<close> is the contract the entry points rely on (what
  find, add, delete and an update of a slot do to the list of live items); its lemmas are proved once
  from the contract and used through the interpretation \<open>hooks\<close> on the array of the code.  \<open>hook_wf\<close> is the
  invariant of the table, kept by every entry point.
\<close>

section \<open>The table as an interface\<close>

locale slot_table =
  fixes slots :: "'t \<Rightarrow> 'i list"
    and key :: "'i \<Rightarrow> 'k"
    and find_slot :: "'k \<Rightarrow> 't \<Rightarrow> nat option"
    and put :: "nat \<Rightarrow> 'i \<Rightarrow> 't \<Rightarrow> 't"
    and grow :: "'t \<Rightarrow> (nat \<times> 't) option"
    and drop_slot :: "nat \<Rightarrow> 't \<Rightarrow> 't"
    and cap :: nat
  assumes find_None: "find_slot k t = None \<longleftrightarrow> k \<notin> key ` set (slots t)"
    and find_Some: "find_slot k t = Some i \<Longrightarrow> i < length (slots t) \<and> key (slots t ! i) = k"
    and put_slots: "i < length (slots t) \<Longrightarrow> slots (put i x t) = (slots t)[i := x]"
    and grow_None: "grow t = None \<longleftrightarrow> cap \<le> length (slots t)"
    and grow_Some: "grow t = Some (i, t') \<Longrightarrow> i = length (slots t) \<and> (\<exists>x. slots t' = slots t @ [x])"
    and drop_slots: "i < length (slots t) \<Longrightarrow> slots (drop_slot i t) = butlast ((slots t)[i := last (slots t)])"
begin

lemma grow_put:
  assumes "grow t = Some (i, t')"
  shows "slots (put i x t') = slots t @ [x]"
proof -
  obtain y where "i = length (slots t)" "slots t' = slots t @ [y]" using grow_Some [OF assms] by blast
  then show ?thesis using put_slots [of i t' x] by simp
qed

lemma grow_put_distinct:
  assumes "grow t = Some (i, t')" "find_slot (key x) t = None" "distinct (map key (slots t))"
  shows "distinct (map key (slots (put i x t')))"
  using assms(2,3) grow_put [OF assms(1)] find_None [of "key x" t] by auto

lemma put_same_key_distinct:
  assumes "i < length (slots t)" "key x = key (slots t ! i)"
  shows "map key (slots (put i x t)) = map key (slots t)"
  using assms put_slots [OF assms(1)] by (metis length_map list_update_id map_update nth_map)

lemma drop_mset:
  assumes "i < length (slots t)"
  shows "mset (slots (drop_slot i t)) = mset (slots t) - {#slots t ! i#}"
proof (cases "i = length (slots t) - 1")
  case True
  have ne: "slots t \<noteq> []" using assms by auto
  then have l: "slots t ! i = last (slots t)" using True by (simp add: last_conv_nth)
  then have "slots (drop_slot i t) = butlast (slots t)" using drop_slots [OF assms] by (metis list_update_id)
  moreover have "mset (slots t) = add_mset (last (slots t)) (mset (butlast (slots t)))"
    using append_butlast_last_id [OF ne] mset_append [of "butlast (slots t)" "[last (slots t)]"] by simp
  ultimately show ?thesis using l by simp
next
  case False
  then obtain ys y where s: "slots t = ys @ [y]" using assms by (cases "slots t" rule: rev_cases) auto
  have i: "i < length ys" using False assms s by simp
  have "slots (drop_slot i t) = ys[i := y]"
    using drop_slots [OF assms] i by (simp add: s list_update_append butlast_append)
  then show ?thesis using i by (simp add: s nth_append mset_update)
qed

lemma drop_map_key:
  assumes "i < length (slots t)"
  shows "mset (map key (slots (drop_slot i t))) = mset (remove1 (key (slots t ! i)) (map key (slots t)))"
  using drop_mset [OF assms] assms by (simp add: image_mset_Diff)

lemma drop_distinct:
  assumes "i < length (slots t)" "distinct (map key (slots t))"
  shows "distinct (map key (slots (drop_slot i t)))"
  using mset_eq_imp_distinct_iff [OF drop_map_key [OF assms(1)]] distinct_remove1 [OF assms(2)] by blast

lemma find_unique:
  assumes "i < length (slots t)" "distinct (map key (slots t))"
  shows "find_slot (key (slots t ! i)) t = Some i"
proof -
  have "find_slot (key (slots t ! i)) t \<noteq> None" using assms(1) by (auto simp: find_None)
  then obtain j where j: "find_slot (key (slots t ! i)) t = Some j" by blast
  then have "j < length (slots t)" "key (slots t ! j) = key (slots t ! i)" using find_Some by auto
  then have "j = i" using assms by (metis distinct_conv_nth length_map nth_map)
  then show ?thesis using j by simp
qed

lemma drop_keys:
  assumes "i < length (slots t)" "distinct (map key (slots t))"
  shows "key ` set (slots (drop_slot i t)) = key ` set (slots t) - {key (slots t ! i)}"
  using mset_eq_setD [OF drop_map_key [OF assms(1)]] set_remove1_eq [OF assms(2)] by simp

lemma find_drop:
  assumes "i < length (slots t)" "distinct (map key (slots t))"
  shows "find_slot k (drop_slot i t) = None \<longleftrightarrow> find_slot k t = None \<or> k = key (slots t ! i)"
  using drop_keys [OF assms] by (auto simp: find_None)

end

definition put_item :: "nat \<Rightarrow> inlineHookItem \<Rightarrow> inlineHookInfo \<Rightarrow> inlineHookInfo" where
  "put_item i it info = info\<lparr>item := (item info)(i := it)\<rparr>"

lemma find_upt_None: "find P [0..<n] = None \<longleftrightarrow> (\<forall>i<n. \<not> P i)"
  by (auto simp: find_None_iff)

lemma find_upt_Some: "find P [0..<n] = Some i \<Longrightarrow> i < n \<and> P i"
  by (auto simp: find_Some_iff)

lemma find_upt_SomeI: "n < m \<Longrightarrow> P n \<Longrightarrow> (\<And>i. i < n \<Longrightarrow> \<not> P i) \<Longrightarrow> find P [0..<m] = Some n"
  by (auto simp: find_Some_iff intro!: exI [of _ n])

lemma length_live [simp]: "length (live info) = size_info info"
  by (simp add: live_def)

lemma nth_live [simp]: "i < size_info info \<Longrightarrow> live info ! i = item info i"
  by (simp add: live_def)

lemma live_delete:
  assumes "i < size_info info"
  shows "live (deleteInlineHookItem i info) = butlast ((live info)[i := last (live info)])"
proof (rule nth_equalityI)
  have ne: "live info \<noteq> []" using assms by (metis length_live length_0_conv not_less_zero)
  fix j assume "j < length (live (deleteInlineHookItem i info))"
  then have j: "j < size_info info - 1" by (simp add: deleteInlineHookItem_def)
  have l: "last (live info) = item info (size_info info - 1)" using ne assms by (simp add: last_conv_nth)
  show "live (deleteInlineHookItem i info) ! j = butlast ((live info)[i := last (live info)]) ! j"
    using j assms by (simp add: nth_butlast l nth_list_update deleteInlineHookItem_def)
qed (simp add: deleteInlineHookItem_def)

interpretation hooks: slot_table live target_addr findInlineHookItem put_item addInlineHookItem
  deleteInlineHookItem 1024
proof unfold_locales
  fix k info
  show "findInlineHookItem k info = None \<longleftrightarrow> k \<notin> target_addr ` set (live info)"
    by (auto simp: findInlineHookItem_def find_upt_None live_def)
next
  fix k info i assume "findInlineHookItem k info = Some i"
  then show "i < length (live info) \<and> target_addr (live info ! i) = k"
    by (auto simp: findInlineHookItem_def dest: find_upt_Some)
next
  fix i info x assume "i < length (live info)"
  then show "live (put_item i x info) = (live info)[i := x]"
    by (intro nth_equalityI) (simp_all add: put_item_def nth_list_update)
next
  fix info show "addInlineHookItem info = None \<longleftrightarrow> 1024 \<le> length (live info)"
    by (simp add: addInlineHookItem_def)
next
  fix info i info' assume "addInlineHookItem info = Some (i, info')"
  then show "i = length (live info) \<and> (\<exists>x. live info' = live info @ [x])"
    by (auto simp: addInlineHookItem_def live_def split: if_splits)
next
  fix i info assume "i < length (live info)"
  then show "live (deleteInlineHookItem i info) = butlast ((live info)[i := last (live info)])"
    by (simp add: live_delete)
qed

section \<open>Frames\<close>

lemma processThreadPC_frame:
  "w_info (processThreadPC os t it act w) = w_info w" "w_mem (processThreadPC os t it act w) = w_mem w"
  "w_prot (processThreadPC os t it act w) = w_prot w" "w_stopped (processThreadPC os t it act w) = w_stopped w"
  "w_child (processThreadPC os t it act w) = w_child w"
  by (simp_all add: processThreadPC_def Let_def)

lemma freeze_loop_frame:
  "w_info (freeze_loop os tids it act w) = w_info w \<and> w_mem (freeze_loop os tids it act w) = w_mem w
   \<and> w_prot (freeze_loop os tids it act w) = w_prot w \<and> w_child (freeze_loop os tids it act w) = w_child w"
  by (induction os tids it act w rule: freeze_loop.induct) (auto simp: processThreadPC_frame)

lemma freeze_frame:
  assumes "freeze os it act w = Inr (pid, w')"
  shows "w_info w' = w_info w" "w_mem w' = w_mem w" "w_prot w' = w_prot w"
  using assms freeze_loop_frame [of os _ it act w]
  by (auto simp: freeze_def split: sum.splits if_splits)

lemma unFreeze_frame [simp]:
  "w_info (unFreeze pid w) = w_info w" "w_mem (unFreeze pid w) = w_mem w" "w_prot (unFreeze pid w) = w_prot w"
  "w_pc (unFreeze pid w) = w_pc w"
  by (simp_all add: unFreeze_def)

lemma store_bytes_frame:
  assumes "store_bytes a bs w = Inr w'"
  shows "w_info w' = w_info w" "w_mem w' = write_bytes a bs (w_mem w)" "w_prot w' = w_prot w"
  using assms by (auto simp: store_bytes_def split: if_splits)

lemma set_proto_frame:
  assumes "set_proto it w = Inr w'"
  shows "w_info w' = w_info w" "w_prot w' = w_prot w"
  using assms by (auto simp: set_proto_def dest: store_bytes_frame split: if_splits)

lemma doInlineHook_info:
  assumes "doInlineHook i w = Inr w'"
  shows "w_info w' = put_item i ((item (w_info w) i)\<lparr>status := HOOKED\<rparr>) (w_info w)"
  using assms
  by (auto simp: doInlineHook_def Let_def cacheflush_def set_item_def mprotect2_def put_item_def
      dest!: set_proto_frame(1) store_bytes_frame(1) split: sum.splits)

lemma doInlineUnHook_info:
  assumes "doInlineUnHook i w = Inr w'"
  shows "w_info w' = deleteInlineHookItem i (w_info w)"
  using assms
  by (auto simp: doInlineUnHook_def Let_def cacheflush_def mprotect2_def munmap_page_def
      dest!: store_bytes_frame(1) split: sum.splits)

section \<open>The invariant of the table\<close>

definition item_ok :: "inlineHookItem \<Rightarrow> bool" where
  "item_ok it \<longleftrightarrow> (status it = REGISTERED \<or> status it = HOOKED)
     \<and> item_length it = (if TEST_BIT0 (target_addr it) then 12 else 8)
     \<and> length (orig_instructions it) = item_length it"

definition hook_wf :: "inlineHookInfo \<Rightarrow> bool" where
  "hook_wf info \<longleftrightarrow> size_info info \<le> 1024 \<and> distinct (map target_addr (live info)) \<and> (\<forall>it \<in> set (live info). item_ok it)"

lemma hook_wf_info0: "hook_wf info0"
  by (simp add: hook_wf_def info0_def live_def)

lemma hook_wf_hooked:
  assumes "hook_wf info" "i < size_info info"
  shows "hook_wf (put_item i ((item info i)\<lparr>status := HOOKED\<rparr>) info)"
proof -
  let ?it = "(item info i)\<lparr>status := HOOKED\<rparr>"
  have l: "live (put_item i ?it info) = (live info)[i := ?it]" using hooks.put_slots [of i info ?it] assms(2) by simp
  have "item_ok (item info i)" using assms by (metis hook_wf_def length_live nth_live nth_mem)
  then have "item_ok ?it" by (simp add: item_ok_def)
  then have "\<forall>it \<in> set ((live info)[i := ?it]). item_ok it"
    using assms(1) set_update_subset_insert [of "live info" i ?it] by (auto simp: hook_wf_def)
  moreover have "map target_addr (live (put_item i ?it info)) = map target_addr (live info)"
    using assms(2) by (intro hooks.put_same_key_distinct) simp_all
  ultimately show ?thesis using assms(1) by (simp add: hook_wf_def l [symmetric] put_item_def)
qed

lemma hook_wf_delete:
  assumes "hook_wf info" "i < size_info info"
  shows "hook_wf (deleteInlineHookItem i info)"
proof -
  have "set (live (deleteInlineHookItem i info)) \<subseteq> set (live info)"
    using hooks.drop_mset [of i info] assms(2) by (metis diff_subset_eq_self length_live set_mset_mono set_mset_mset)
  then show ?thesis
    using assms hooks.drop_distinct [of i info] by (auto simp: hook_wf_def deleteInlineHookItem_def)
qed

lemma register_info:
  assumes "registerInlineHook os target new proto w = Inr (st, w')"
  shows "(st \<noteq> ELE7EN_OK \<and> w' = w) \<or>
    (\<exists>i info' it. st = ELE7EN_OK \<and> findInlineHookItem target (w_info w) = None
       \<and> addInlineHookItem (w_info w) = Some (i, info') \<and> w_info w' = put_item i it info'
       \<and> target_addr it = target \<and> new_addr it = new \<and> status it = REGISTERED \<and> item_ok it
       \<and> orig_instructions it = read_bytes (w_mem w) (CLEAR_BIT0 target) (item_length it))"
  using assms
  by (auto simp: registerInlineHook_def Let_def set_item_def put_item_def item_ok_def read_bytes_def mmap_page_def
      dest!: store_bytes_frame(1) split: if_splits option.splits sum.splits prod.splits)

lemma hook_wf_register:
  assumes "registerInlineHook os target new proto w = Inr (st, w')" "hook_wf (w_info w)"
  shows "hook_wf (w_info w')"
  using register_info [OF assms(1)]
proof (elim disjE exE conjE)
  fix i info' it
  assume a: "findInlineHookItem target (w_info w) = None" "addInlineHookItem (w_info w) = Some (i, info')"
    "w_info w' = put_item i it info'" "target_addr it = target" "item_ok it"
  have l: "live (w_info w') = live (w_info w) @ [it]" using hooks.grow_put [OF a(2), of it] a(3) by simp
  have "distinct (map target_addr (live (w_info w')))"
    using hooks.grow_put_distinct [OF a(2), of it] a assms(2) by (simp add: hook_wf_def)
  moreover have "size_info (w_info w') \<le> 1024"
    using a(2,3) by (auto simp: addInlineHookItem_def put_item_def split: if_splits)
  ultimately show ?thesis using l a(5) assms(2) by (auto simp: hook_wf_def)
qed (use assms(2) in simp)

lemma hook_wf_hook:
  assumes "inlineHook os target w = Inr (st, w')" "hook_wf (w_info w)"
  shows "hook_wf (w_info w')"
  using assms hooks.find_Some [of target "w_info w"]
  by (auto simp: inlineHook_def Let_def dest!: doInlineHook_info freeze_frame(1) intro!: hook_wf_hooked
      split: option.splits if_splits sum.splits prod.splits)

lemma hook_wf_unhook:
  assumes "inlineUnHook os target w = Inr (st, w')" "hook_wf (w_info w)"
  shows "hook_wf (w_info w')"
  using assms
  by (auto simp: inlineUnHook_def dest!: doInlineUnHook_info freeze_frame(1) find_upt_Some intro!: hook_wf_delete
      split: option.splits if_splits sum.splits prod.splits)

lemma hook_all_loop_wf:
  assumes "hook_all_loop is w = Inr w'" "hook_wf (w_info w)" "\<forall>i \<in> set is. i < size_info (w_info w)"
  shows "hook_wf (w_info w')"
  using assms
proof (induction "is" w rule: hook_all_loop.induct)
  case (2 i "is" w)
  show ?case
  proof (cases "status (item (w_info w) i) = REGISTERED")
    case True
    then obtain w1 where w1: "doInlineHook i w = Inr w1" "hook_all_loop is w1 = Inr w'"
      using 2(3) by (auto split: sum.splits)
    have "hook_wf (w_info w1)" using hook_wf_hooked doInlineHook_info [OF w1(1)] 2(4,5) by simp
    then show ?thesis using 2(1) [OF True w1] doInlineHook_info [OF w1(1)] 2(5) by (simp add: put_item_def)
  qed (use 2 in auto)
qed simp

lemma filter_mset_drop:
  assumes "x \<in># M" "\<not> P x"
  shows "filter_mset P (M - {#x#}) = filter_mset P M"
  using assms by (metis add_mset_remove_trivial_If filter_mset_add_mset insert_DiffM)

lemma unhook_all_loop_spec:
  assumes "unhook_all_loop i w = Inr w'" "hook_wf (w_info w)"
    "\<forall>j < i. j < size_info (w_info w) \<longrightarrow> status (item (w_info w) j) \<noteq> HOOKED"
  shows "hook_wf (w_info w') \<and>
    mset (live (w_info w')) = filter_mset (\<lambda>it. status it \<noteq> HOOKED) (mset (live (w_info w)))"
  using assms
proof (induction i w rule: unhook_all_loop.induct)
  case (1 i w)
  consider (stop) "\<not> i < size_info (w_info w)"
    | (hooked) "i < size_info (w_info w)" "status (item (w_info w) i) = HOOKED"
    | (skip) "i < size_info (w_info w)" "status (item (w_info w) i) \<noteq> HOOKED" by blast
  then show ?case
  proof cases
    case stop
    have "\<forall>it \<in># mset (live (w_info w)). status it \<noteq> HOOKED"
      using 1(5) stop by (auto simp: in_set_conv_nth)
    then have "filter_mset (\<lambda>it. status it \<noteq> HOOKED) (mset (live (w_info w))) = mset (live (w_info w))"
      by (simp add: filter_mset_eq_conv)
    then show ?thesis using 1(3,4) stop by (auto simp: unhook_all_loop.simps)
  next
    case hooked
    then obtain w1 where w1: "doInlineUnHook i w = Inr w1" "unhook_all_loop i w1 = Inr w'"
      using 1(3) by (subst (asm) unhook_all_loop.simps) (auto split: sum.splits)
    note info = doInlineUnHook_info [OF w1(1)]
    have before: "\<forall>j < i. j < size_info (w_info w1) \<longrightarrow> status (item (w_info w1) j) \<noteq> HOOKED"
      using 1(5) info by (auto simp: deleteInlineHookItem_def)
    have "mset (live (w_info w1)) = mset (live (w_info w)) - {#item (w_info w) i#}"
      using hooks.drop_mset [of i "w_info w"] hooked(1) info by simp
    moreover have "item (w_info w) i \<in># mset (live (w_info w))"
      using hooked(1) by (metis length_live nth_live nth_mem set_mset_mset)
    ultimately have "filter_mset (\<lambda>it. status it \<noteq> HOOKED) (mset (live (w_info w1)))
        = filter_mset (\<lambda>it. status it \<noteq> HOOKED) (mset (live (w_info w)))"
      using hooked(2) by (simp add: filter_mset_drop)
    moreover have "hook_wf (w_info w1)" using hook_wf_delete [OF 1(4) hooked(1)] info by simp
    ultimately show ?thesis using 1(1) [OF hooked w1] before by simp
  next
    case skip
    have "unhook_all_loop (Suc i) w = Inr w'" using 1(3) skip by (subst (asm) unhook_all_loop.simps) simp
    then show ?thesis using 1(2) [OF skip] 1(4,5) skip by (auto simp: less_Suc_eq)
  qed
qed

section \<open>Reachable states\<close>

text \<open>The states the library gets into by calls of its five entry points that do not crash.\<close>

inductive hook_step :: "world \<Rightarrow> world \<Rightarrow> bool" where
  step_register: "registerInlineHook os target new proto w = Inr (st, w') \<Longrightarrow> hook_step w w'"
| step_hook: "inlineHook os target w = Inr (st, w') \<Longrightarrow> hook_step w w'"
| step_unhook: "inlineUnHook os target w = Inr (st, w') \<Longrightarrow> hook_step w w'"
| step_hook_all: "inlineHookAll os w = Inr w' \<Longrightarrow> hook_step w w'"
| step_unhook_all: "inlineUnHookAll os w = Inr w' \<Longrightarrow> hook_step w w'"

inductive hook_reach :: "world \<Rightarrow> bool" where
  reach_init: "w_info w = info0 \<Longrightarrow> hook_reach w"
| reach_step: "hook_reach w \<Longrightarrow> hook_step w w' \<Longrightarrow> hook_reach w'"

inductive_cases hook_stepE: "hook_step w w'"

lemma hook_all_wf:
  assumes "inlineHookAll os w = Inr w'" "hook_wf (w_info w)"
  shows "hook_wf (w_info w')"
  using assms
  by (auto simp: inlineHookAll_def dest!: freeze_frame(1) hook_all_loop_wf split: sum.splits prod.splits)

lemma unhook_all_spec:
  assumes "inlineUnHookAll os w = Inr w'" "hook_wf (w_info w)"
  shows "hook_wf (w_info w') \<and>
    mset (live (w_info w')) = filter_mset (\<lambda>it. status it \<noteq> HOOKED) (mset (live (w_info w)))"
proof -
  obtain pid w1 w2 where f: "freeze os None ACTION_DISABLE w = Inr (pid, w1)"
    and l: "unhook_all_loop 0 w1 = Inr w2" and w': "w' = unFreeze pid w2"
    using assms(1) by (auto simp: inlineUnHookAll_def split: sum.splits prod.splits)
  show ?thesis using unhook_all_loop_spec [OF l] assms(2) by (simp add: w' freeze_frame(1) [OF f])
qed

lemma hook_step_wf: "hook_step w w' \<Longrightarrow> hook_wf (w_info w) \<Longrightarrow> hook_wf (w_info w')"
  by (elim hook_stepE) (auto dest: hook_wf_register hook_wf_hook hook_wf_unhook hook_all_wf unhook_all_spec)

lemma hook_reach_wf: "hook_reach w \<Longrightarrow> hook_wf (w_info w)"
  by (induction rule: hook_reach.induct) (auto simp: hook_wf_info0 dest: hook_step_wf)

lemma find_item: "findInlineHookItem t info = Some i \<Longrightarrow> i < size_info info \<and> target_addr (item info i) = t"
  using hooks.find_Some [of t info i] by auto

lemma hook_wf_item: "hook_wf info \<Longrightarrow> i < size_info info \<Longrightarrow> item_ok (item info i)"
  by (metis hook_wf_def length_live nth_live nth_mem)

end
