(* ===== verification/Relocate_Bits.thy ===== *)
theory Relocate_Bits
  imports Relocate Arm_Isa
begin

text \<open>
  Bit-level facts shared by the correctness proofs of the two relocators: the code's hand-written
  sign extension is the architecture's, the register and condition fields of an instruction are
  determined by its masked bits, and word-aligned addresses stay in the ARM state.
\<close>

lemma and_mask_24: "ins AND 0xFFFFFF = take_bit 24 ins" for ins :: u32
  by (simp add: take_bit_eq_mask mask_eq_exp_minus_1)
lemma and_mask_8: "ins AND 0xFF = take_bit 8 ins" for ins :: u32
  by (simp add: take_bit_eq_mask mask_eq_exp_minus_1)
lemma and_mask_11: "ins AND 0x7FF = take_bit 11 ins" for ins :: u32
  by (simp add: take_bit_eq_mask mask_eq_exp_minus_1)

lemma ones32: "(0xFFFFFFFF :: u32) = - 1" by simp

lemma bit_sign_fill:
  "bit (sign_fill n t x) k \<longleftrightarrow> k < 32 \<and> (bit x k \<or> (t \<noteq> 0 \<and> n \<le> k))"
  unfolding sign_fill_def ones32 by (auto simp: bit_simps dest: bit_imp_le_length)

lemma sign_fill_field:
  assumes "w + s \<le> 31" "w + s \<le> f" "f \<le> w + s + 1"
  shows "sign_fill f (drop_bit (w + s) (push_bit s (take_bit (Suc w) ins))) (push_bit s (take_bit (Suc w) ins))
     = push_bit s (signed_take_bit w ins)" (is "?l = ?r")
proof (rule bit_word_eqI)
  fix n assume n: "n < LENGTH(32)"
  have top: "drop_bit (w + s) (push_bit s (take_bit (Suc w) ins)) \<noteq> 0 \<longleftrightarrow> bit ins w"
  proof -
    have "(\<exists>k \<ge> w + s. bit (push_bit s (take_bit (Suc w) ins)) k) \<longleftrightarrow> bit ins w"
    proof
      assume "\<exists>k \<ge> w + s. bit (push_bit s (take_bit (Suc w) ins)) k"
      then obtain k where "w + s \<le> k" "k - s < Suc w" "bit ins (k - s)" by (auto simp: bit_simps)
      moreover from this have "k - s = w" by linarith
      ultimately show "bit ins w" by simp
    qed (use assms in \<open>auto intro: exI [of _ "w + s"] simp: bit_simps\<close>)
    then show ?thesis by (simp only: drop_bit_top)
  qed
  show "bit ?l n \<longleftrightarrow> bit ?r n"
  proof (cases "n < w + s")
    case True
    then show ?thesis using n assms unfolding bit_sign_fill top by (auto simp: bit_simps min_def)
  next
    case False
    then have eq: "n - s < Suc w \<longleftrightarrow> n - s = w" and le: "w \<le> n - s" "n = w + s \<or> f \<le> n" using assms by linarith+
    then show ?thesis using n assms False unfolding bit_sign_fill top by (auto simp: bit_simps min_def eq)
  qed
qed

lemma scast_ucast_24: "scast (ucast ins :: 24 word) = signed_take_bit 23 ins" for ins :: u32
  by (rule bit_word_eqI) (auto simp: bit_simps min_def)
lemma scast_ucast_11: "scast (ucast ins :: 11 word) = signed_take_bit 10 ins" for ins :: u32
  by (rule bit_word_eqI) (auto simp: bit_simps min_def)
lemma scast_ucast_8: "scast (ucast ins :: 8 word) = signed_take_bit 7 ins" for ins :: u32
  by (rule bit_word_eqI) (auto simp: bit_simps min_def)

lemma branch_field_sign:
  "sign_fill 26 (drop_bit 25 (push_bit 2 (ins AND 0xFFFFFF))) (push_bit 2 (ins AND 0xFFFFFF))
     = push_bit 2 (scast (ucast ins :: 24 word))" for ins :: u32
  using sign_fill_field [of 23 2 26 ins] by (simp add: and_mask_24 scast_ucast_24)

lemma and_3: "x AND 3 = take_bit 2 x" for x :: u32
  by (simp add: take_bit_eq_mask mask_eq_exp_minus_1)

lemma push2_aligned: "push_bit 2 x AND 3 = 0" for x :: u32
  by (simp only: and_3 take_bit_push_bit) simp

lemma aligned_push2: "a AND 3 = 0 \<Longrightarrow> a = push_bit 2 (drop_bit 2 a)" for a :: u32
  using bits_ident [of 2 a] by (simp only: and_3) simp

lemma add_aligned: "a AND 3 = 0 \<Longrightarrow> b AND 3 = 0 \<Longrightarrow> (a + b) AND 3 = 0" for a b :: u32
  using push2_aligned [of "drop_bit 2 a + drop_bit 2 b"] aligned_push2 [of a] aligned_push2 [of b]
  by (simp only: push_bit_add)

lemma mul4_aligned: "(4 * x) AND 3 = 0" for x :: u32
  using push2_aligned [of x] by (simp add: push_bit_eq_mult mult.commute)

lemma aligned_bits: "a AND 3 = 0 \<Longrightarrow> a AND 1 = 0" "a AND 3 = 0 \<Longrightarrow> a AND 2 = 0" for a :: u32
  by (drule mask_sub [where m' = 1]; simp) (drule mask_sub [where m' = 2]; simp)

lemma bx_write_pc_arm: "v AND 3 = 0 \<Longrightarrow> bx_write_pc v s = Some (s\<lparr>PC := v, Thumb := False\<rparr>)"
  by (simp add: bx_write_pc_def aligned_bits)

lemma bx_write_pc_thumb:
  assumes "v AND 1 = 0"
  shows "bx_write_pc (v + 1) s = Some (s\<lparr>PC := v, Thumb := True\<rparr>)"
proof -
  have o: "v + 1 = v OR 1" using disjoint_or_add [OF assms] by simp
  have "(v OR 1) AND 1 = 1" by simp
  moreover have "(v OR 1) AND 0xFFFFFFFE = v"
  proof (rule bit_word_eqI)
    fix n assume n: "n < LENGTH(32)"
    have f: "(0xFFFFFFFE :: u32) = NOT 1" by simp
    have "\<not> bit v 0" using assms by (simp add: and_one_eq even_iff_mod_2_eq_zero bit_0)
    then show "bit ((v OR 1) AND 0xFFFFFFFE) n = bit v n"
      unfolding f using n by (cases n) (auto simp: bit_simps bit_1_iff)
  qed
  ultimately show ?thesis unfolding o bx_write_pc_def by simp
qed

lemma fld_masked: "fld k ins = unat (drop_bit k (ins AND push_bit k 0xF))"
proof -
  have "drop_bit k ins AND 0xF = drop_bit k (ins AND push_bit k 0xF)"
    by (rule bit_word_eqI) (auto simp: bit_simps dest: bit_imp_le_length)
  then show ?thesis by (simp add: fld_def)
qed

lemma cond_masked: "drop_bit 28 ins = drop_bit 28 (ins AND 0xF0000000)" for ins :: u32
proof (rule bit_word_eqI)
  fix n assume "n < LENGTH(32)"
  have "bit ins (28 + n) \<Longrightarrow> n < 4" by (auto dest: bit_imp_le_length)
  then have "bit ins (28 + n) \<Longrightarrow> n = 0 \<or> n = 1 \<or> n = 2 \<or> n = 3" by auto
  then show "bit (drop_bit 28 ins) n = bit (drop_bit 28 (ins AND 0xF0000000)) n"
    by (auto simp: bit_drop_bit_eq bit_and_iff)
qed

lemma word_rotr_0 [simp]: "word_rotr 0 w = w"
  by transfer (simp add: concat_bit_eq take_bit_eq_mod)

lemma less16_cases:
  fixes r :: u32
  assumes "r < 16"
  shows "r \<in> {0,1,2,3,4,5,6,7,8,9,10,11,12,13,14,15}"
proof -
  have "unat r < 16" using assms by (simp add: word_less_nat_alt)
  then have "unat r \<in> {..<16}" by simp
  also have "{..<16} = {0,1,2,3,4,5,6,7,8,9,10,11,12,13,14,15::nat}" by (simp add: lessThan_nat_numeral lessThan_Suc insert_commute)
  finally have "unat r \<in> {0,1,2,3,4,5,6,7,8,9,10,11,12,13,14,15}" .
  then have "word_of_nat (unat r) \<in> (word_of_nat :: nat \<Rightarrow> u32) ` {0,1,2,3,4,5,6,7,8,9,10,11,12,13,14,15}" by blast
  then show ?thesis by simp
qed

end
