(* ===== verification/Relocate_Arm.thy ===== *)
theory Relocate_Arm
  imports Relocate_Layout Relocate_Bits
begin

text \<open>
  Correctness of the ARM half of \<^verbatim>\<open>relocate.c\<close> against the instruction semantics of \<open>Arm_Isa\<close>.
  \<open>arm_supported\<close> are the unconditional PC-relative encodings the relocator rewrites (the flag and
  shift variants its masks also catch are outside it), \<open>arm_plain\<close> the encodings it copies that do not read
  the PC.  Per class, the generated sequence run at the trampoline address does what the original
  instruction does at its own address; chained over a prologue this gives the correctness of the
  whole trampoline.
\<close>

section \<open>Single steps of the generated instructions\<close>

lemmas isa_simps = cpu_step_def arm_exec_def Let_def cond_passed_def read_arm_def arm_expand_imm_def

lemma step_add_lr:
  assumes "\<not> Thumb s" "load32 (mem s) (PC s) = 0xE28FE004"
  shows "cpu_step s = Some (s\<lparr>R := (R s)(14 := PC s + 12), PC := PC s + 4\<rparr>)"
  using assms by (simp add: isa_simps fld_def write_reg_def) (simp only: add.commute)

lemma step_ldr_pc:
  assumes "\<not> Thumb s" "load32 (mem s) (PC s) = 0xE51FF004"
  shows "cpu_step s = bx_write_pc (load32 (mem s) (PC s + 4)) s"
  using assms by (simp add: isa_simps fld_def write_reg_def) (simp only: add.commute)

lemma step_skip:
  assumes "\<not> Thumb s" "load32 (mem s) (PC s) = 0xE28FF000"
  shows "cpu_step s = bx_write_pc (PC s + 8) s"
  using assms by (simp add: isa_simps fld_def write_reg_def)

lemma step_ldr_lit:
  assumes "\<not> Thumb s" "load32 (mem s) (PC s) = ins" "ins AND 0xFFFF0FFF = 0xE51F0000" 
  shows "cpu_step s = write_reg (fld 12 ins) (load32 (mem s) (PC s + 8)) (PC s + 4) s"
  using assms by (simp add: isa_simps fld_masked [of 16] cond_masked mask_sub [OF assms(3)] mask_neq [OF assms(3)])

section \<open>Running the generated sequences\<close>

lemma run_jump:
  assumes "\<not> Thumb s" "code32_at (mem s) T [0xE51FF004, v]"
  shows "cpu_run 1 (s\<lparr>PC := T\<rparr>) = bx_write_pc v (s\<lparr>PC := T\<rparr>)"
  using assms step_ldr_pc [of "s\<lparr>PC := T\<rparr>"] by (simp split: option.split)

lemma run_call:
  assumes "\<not> Thumb s" "code32_at (mem s) T [0xE28FE004, 0xE51FF004, v]"
  shows "cpu_run 2 (s\<lparr>PC := T\<rparr>) = bx_write_pc v (s\<lparr>R := (R s)(14 := T + 12), PC := T + 4\<rparr>)"
proof -
  let ?s1 = "s\<lparr>R := (R s)(14 := T + 12), PC := T + 4\<rparr>"
  have "cpu_step (s\<lparr>PC := T\<rparr>) = Some ?s1"
    using assms step_add_lr [of "s\<lparr>PC := T\<rparr>"] by simp
  moreover have "cpu_step ?s1 = bx_write_pc v ?s1"
    using assms step_ldr_pc [of ?s1] by (simp add: add.assoc)
  ultimately show ?thesis by (simp add: numeral_2_eq_2 split: option.split)
qed

lemma run_load:
  assumes "\<not> Thumb s" "T AND 3 = 0" "code32_at (mem s) T [ldr, 0xE28FF000, v]" "ldr AND 0xFFFF0FFF = 0xE51F0000"
  shows "\<exists>n. cpu_run n (s\<lparr>PC := T\<rparr>) = write_reg (fld 12 ldr) v (T + 12) (s\<lparr>PC := T\<rparr>)"
proof (cases "fld 12 ldr = 15")
  case True
  then have "cpu_run 1 (s\<lparr>PC := T\<rparr>) = write_reg (fld 12 ldr) v (T + 12) (s\<lparr>PC := T\<rparr>)"
    using assms step_ldr_lit [of "s\<lparr>PC := T\<rparr>" ldr] by (simp add: write_reg_def add.assoc split: option.split)
  then show ?thesis ..
next
  case False
  let ?s1 = "s\<lparr>R := (R s)(fld 12 ldr := v), PC := T + 4\<rparr>"
  have 1: "cpu_step (s\<lparr>PC := T\<rparr>) = Some ?s1"
    using assms False step_ldr_lit [of "s\<lparr>PC := T\<rparr>" ldr] by (simp add: write_reg_def add.assoc)
  have "(T + 12) AND 3 = 0" using add_aligned [OF assms(2), of 12] by simp
  then have "cpu_step ?s1 = Some (?s1\<lparr>PC := T + 12\<rparr>)"
    using assms step_skip [of ?s1] by (simp add: bx_write_pc_arm add.assoc)
  with 1 have "cpu_run 2 (s\<lparr>PC := T\<rparr>) = write_reg (fld 12 ldr) v (T + 12) (s\<lparr>PC := T\<rparr>)"
    using False by (simp add: numeral_2_eq_2 write_reg_def)
  then show ?thesis ..
qed

lemma blx_field_sign:
  fixes ins :: u32
  defines "h \<equiv> drop_bit 23 (ins AND 0x1000000)"
  defines "x \<equiv> push_bit 2 (ins AND 0xFFFFFF) OR h"
  shows "sign_fill 26 (drop_bit 25 x) x = push_bit 2 (scast (ucast ins :: 24 word)) + h"
    and "h = 0 \<or> h = 2"
proof -
  have "bit h n \<longleftrightarrow> n = 1 \<and> bit ins 24" for n
  proof -
    have "(0x1000000 :: u32) = push_bit 24 1" by simp
    then have h: "h = drop_bit 23 (ins AND push_bit 24 1)" unfolding h_def by (simp only:)
    show ?thesis unfolding h by (auto simp: bit_simps bit_1_iff)
  qed
  then have "h = (if bit ins 24 then 2 else 0)" by (intro bit_word_eqI) (auto simp: bit_simps)
  then show hc: "h = 0 \<or> h = 2" by auto
  have d: "drop_bit 25 x = drop_bit 25 (push_bit 2 (ins AND 0xFFFFFF))"
    using hc unfolding x_def by (auto simp: drop_bit_or)
  have "sign_fill 26 (drop_bit 25 x) x = push_bit 2 (scast (ucast ins :: 24 word)) OR h"
    unfolding d branch_field_sign [symmetric] unfolding x_def sign_fill_def by (simp add: ac_simps)
  moreover have "push_bit 2 (scast (ucast ins :: 24 word)) AND h = (0 :: u32)"
    using hc push2_aligned [of "scast (ucast ins :: 24 word)"] aligned_bits(2) by auto
  ultimately show "sign_fill 26 (drop_bit 25 x) x = push_bit 2 (scast (ucast ins :: 24 word)) + h"
    by (simp add: disjoint_or_add)
qed

lemma reloc_arm_blx:
  assumes "\<not> Thumb s" "A AND 3 = 0" "code32_at (mem s) T (relocateOneArm ld32 (A + 8) ins)"
    "ins AND 0xFE000000 = 0xFA000000"
  shows "cpu_run 2 (s\<lparr>PC := T\<rparr>) = arm_exec ins (T + 12) (s\<lparr>PC := A\<rparr>)"
proof -
  let ?h = "drop_bit 23 (ins AND 0x1000000)"
  let ?v = "A + 8 + push_bit 2 (scast (ucast ins :: 24 word)) + ?h"
  have code: "relocateOneArm ld32 (A + 8) ins = [0xE28FE004, 0xE51FF004, ?v + 1]"
    using assms(4) blx_field_sign(1) [of ins] by (simp add: relocateOneArm_def getTypeInArm_def Let_def add.assoc)
  have al: "(A + 8 + push_bit 2 (scast (ucast ins :: 24 word))) AND 3 = 0"
    using assms(2) by (intro add_aligned push2_aligned) simp_all
  have "?v AND 1 = 0"
    using aligned_bits(1) [OF al] blx_field_sign(2) [of ins] by (auto simp: and_one_eq even_iff_mod_2_eq_zero [symmetric])
  then have "bx_write_pc (?v + 1) t = Some (t\<lparr>PC := ?v, Thumb := True\<rparr>)" for t by (rule bx_write_pc_thumb)
  moreover have "cpu_run 2 (s\<lparr>PC := T\<rparr>) = bx_write_pc (?v + 1) (s\<lparr>R := (R s)(14 := T + 12), PC := T + 4\<rparr>)"
    using assms(3) unfolding code by (rule run_call [OF assms(1)])
  moreover have "arm_exec ins (T + 12) (s\<lparr>PC := A\<rparr>) = Some (s\<lparr>R := (R s)(14 := T + 12), PC := ?v, Thumb := True\<rparr>)"
    using assms(4) by (simp add: arm_exec_def Let_def cond_masked mask_sub [OF assms(4)])
  ultimately show ?thesis by simp
qed

lemma reloc_arm_bl:
  assumes "\<not> Thumb s" "A AND 3 = 0" "code32_at (mem s) T (relocateOneArm ld32 (A + 8) ins)"
    "ins AND 0xFF000000 = 0xEB000000"
  shows "cpu_run 2 (s\<lparr>PC := T\<rparr>) = arm_exec ins (T + 12) (s\<lparr>PC := A\<rparr>)"
proof -
  let ?v = "A + 8 + push_bit 2 (scast (ucast ins :: 24 word))"
  have code: "relocateOneArm ld32 (A + 8) ins = [0xE28FE004, 0xE51FF004, ?v]"
    by (simp add: relocateOneArm_def getTypeInArm_def mask_sub [OF assms(4)] mask_neq [OF assms(4)] Let_def
        branch_field_sign [simplified])
  have "?v AND 3 = 0" using assms(2) by (intro add_aligned push2_aligned) simp_all
  then show ?thesis
    using run_call [OF assms(1), of T ?v] assms(1,3) unfolding code
    by (simp add: bx_write_pc_arm arm_exec_def Let_def cond_masked cond_passed_def mask_sub [OF assms(4)])
qed

lemma reloc_arm_b:
  assumes "\<not> Thumb s" "A AND 3 = 0" "code32_at (mem s) T (relocateOneArm ld32 (A + 8) ins)"
    "ins AND 0xFF000000 = 0xEA000000"
  shows "cpu_run 1 (s\<lparr>PC := T\<rparr>) = arm_exec ins (T + 8) (s\<lparr>PC := A\<rparr>)"
proof -
  let ?v = "A + 8 + push_bit 2 (scast (ucast ins :: 24 word))"
  have code: "relocateOneArm ld32 (A + 8) ins = [0xE51FF004, ?v]"
    by (simp add: relocateOneArm_def getTypeInArm_def mask_sub [OF assms(4)] mask_neq [OF assms(4)] Let_def
        branch_field_sign [simplified])
  have "?v AND 3 = 0" using assms(2) by (intro add_aligned push2_aligned) simp_all
  then show ?thesis
    using run_jump [OF assms(1), of T ?v] assms(1,3) unfolding code
    by (simp add: bx_write_pc_arm arm_exec_def Let_def cond_masked cond_passed_def mask_sub [OF assms(4)])
qed

lemma reloc_arm_bx:
  assumes "\<not> Thumb s" "A AND 3 = 0" "code32_at (mem s) T (relocateOneArm ld32 (A + 8) 0xE12FFF1F)"
  shows "cpu_run 1 (s\<lparr>PC := T\<rparr>) = arm_exec 0xE12FFF1F (T + 8) (s\<lparr>PC := A\<rparr>)"
proof -
  have code: "relocateOneArm ld32 (A + 8) 0xE12FFF1F = [0xE51FF004, A + 8]"
    by (simp add: relocateOneArm_def getTypeInArm_def Let_def sign_fill_def)
  have "(A + 8) AND 3 = 0" using assms(2) by (intro add_aligned) simp_all
  then show ?thesis
    using run_jump [OF assms(1), of T "A + 8"] assms(1,3) unfolding code
    by (simp add: bx_write_pc_arm arm_exec_def Let_def cond_passed_def read_arm_def fld_def)
qed


lemma small_imm:
  assumes "ins AND 0xF00 = 0"
  shows "arm_expand_imm (ins AND 0xFFF) = ins AND 0xFFF"
proof -
  have "ins AND 0xFFF = (ins AND 0xF00) OR (ins AND 0xFF)"
    by (simp add: bit.conj_disj_distrib [symmetric])
  then have e: "ins AND 0xFFF = ins AND 0xFF" using assms by simp
  then show ?thesis by (simp add: arm_expand_imm_def and.assoc)
qed

lemma load_word_shape:
  fixes ins :: u32
  shows "(0xE51F0000 OR push_bit 12 (drop_bit 12 (ins AND 0xF000))) AND 0xFFFF0FFF = 0xE51F0000"
    and "fld 12 (0xE51F0000 OR push_bit 12 (drop_bit 12 (ins AND 0xF000))) = fld 12 ins"
proof -
  have p: "push_bit 12 (drop_bit 12 (ins AND 0xF000)) = ins AND 0xF000"
    using push_drop_field [of 12 ins 15] by simp
  show "(0xE51F0000 OR push_bit 12 (drop_bit 12 (ins AND 0xF000))) AND 0xFFFF0FFF = 0xE51F0000"
   and "fld 12 (0xE51F0000 OR push_bit 12 (drop_bit 12 (ins AND 0xF000))) = fld 12 ins"
    unfolding p by (simp_all add: bit.conj_disj_distrib2 and.assoc fld_masked)
qed

lemma reloc_arm_load:
  assumes "\<not> Thumb s" "T AND 3 = 0" "code32_at (mem s) T (relocateOneArm ld32 pc ins)"
    "relocateOneArm ld32 pc ins = [0xE51F0000 OR push_bit 12 (drop_bit 12 (ins AND 0xF000)), 0xE28FF000, v]"
    "arm_exec ins (T + 12) (s\<lparr>PC := A\<rparr>) = write_reg (fld 12 ins) v (T + 12) (s\<lparr>PC := A\<rparr>)"
  shows "\<exists>n. cpu_run n (s\<lparr>PC := T\<rparr>) = arm_exec ins (T + 12) (s\<lparr>PC := A\<rparr>)"
proof -
  have "write_reg k v nxt (s\<lparr>PC := A\<rparr>) = write_reg k v nxt (s\<lparr>PC := T\<rparr>)" for k nxt
    by (simp add: write_reg_def bx_write_pc_def)
  then show ?thesis
    using run_load [OF assms(1,2) assms(3) [unfolded assms(4)] load_word_shape(1)]
    by (simp only: load_word_shape(2) assms(5))
qed

lemma reloc_arm_adr:
  assumes "\<not> Thumb s" "T AND 3 = 0" "code32_at (mem s) T (relocateOneArm ld32 (A + 8) ins)"
    "ins AND 0xFFFF0F00 = 0xE28F0000 \<or> ins AND 0xFFFF0F00 = 0xE24F0000"
  shows "\<exists>n. cpu_run n (s\<lparr>PC := T\<rparr>) = arm_exec ins (T + 12) (s\<lparr>PC := A\<rparr>)"
  using assms(4)
proof
  assume m: "ins AND 0xFFFF0F00 = 0xE28F0000"
  show ?thesis
    by (rule reloc_arm_load [OF assms(1-3), of "A + 8 + (ins AND 0xFFF)"])
      (simp_all add: relocateOneArm_def getTypeInArm_def arm_exec_def Let_def cond_masked cond_passed_def
        mask_sub [OF m] mask_neq [OF m] read_arm_def fld_masked [of 16] small_imm)
next
  assume m: "ins AND 0xFFFF0F00 = 0xE24F0000"
  show ?thesis
    by (rule reloc_arm_load [OF assms(1-3), of "A + 8 - (ins AND 0xFFF)"])
      (simp_all add: relocateOneArm_def getTypeInArm_def arm_exec_def Let_def cond_masked cond_passed_def
        mask_sub [OF m] mask_neq [OF m] read_arm_def fld_masked [of 16] small_imm)
qed

lemma reloc_arm_mov:
  assumes "\<not> Thumb s" "T AND 3 = 0" "code32_at (mem s) T (relocateOneArm ld32 (A + 8) ins)"
    "ins AND 0xFFFF0FFF = 0xE1A0000F"
  shows "\<exists>n. cpu_run n (s\<lparr>PC := T\<rparr>) = arm_exec ins (T + 12) (s\<lparr>PC := A\<rparr>)"
    by (rule reloc_arm_load [OF assms(1-3), of "A + 8"])
      (simp_all add: relocateOneArm_def getTypeInArm_def arm_exec_def Let_def cond_masked cond_passed_def
        mask_sub [OF assms(4)] mask_neq [OF assms(4)] read_arm_def fld_masked [of 0])

lemma reloc_arm_ldr:
  assumes "\<not> Thumb s" "T AND 3 = 0" "code32_at (mem s) T (relocateOneArm (load32 (mem s)) (A + 8) ins)"
    "ins AND 0xFF7F0000 = 0xE51F0000"
  shows "\<exists>n. cpu_run n (s\<lparr>PC := T\<rparr>) = arm_exec ins (T + 12) (s\<lparr>PC := A\<rparr>)"
    by (rule reloc_arm_load [OF assms(1-3)])
      (simp_all add: relocateOneArm_def getTypeInArm_def arm_exec_def Let_def cond_masked cond_passed_def
        mask_sub [OF assms(4)] mask_neq [OF assms(4)] read_arm_def fld_masked [of 16] drop_field_zero [of 23 ins 1, simplified])

section \<open>The supported encodings together\<close>

definition arm_supported :: "u32 \<Rightarrow> bool" where
  "arm_supported ins \<longleftrightarrow>
     ins AND 0xFE000000 = 0xFA000000 \<or> ins AND 0xFF000000 = 0xEB000000 \<or> ins AND 0xFF000000 = 0xEA000000
   \<or> ins = 0xE12FFF1F \<or> ins AND 0xFFFF0F00 = 0xE28F0000 \<or> ins AND 0xFFFF0F00 = 0xE24F0000
   \<or> ins AND 0xFFFF0FFF = 0xE1A0000F \<or> ins AND 0xFF7F0000 = 0xE51F0000"

lemma arm_supported_cases:
  assumes "arm_supported ins"
  obtains (blx) "ins AND 0xFE000000 = 0xFA000000" | (bl) "ins AND 0xFF000000 = 0xEB000000"
  | (b) "ins AND 0xFF000000 = 0xEA000000" | (bx) "ins = 0xE12FFF1F"
  | (adr) "ins AND 0xFFFF0F00 = 0xE28F0000 \<or> ins AND 0xFFFF0F00 = 0xE24F0000"
  | (mov) "ins AND 0xFFFF0FFF = 0xE1A0000F" | (ldr) "ins AND 0xFF7F0000 = 0xE51F0000"
  using assms unfolding arm_supported_def by blast

lemma reloc_arm_length:
  fixes ld32 :: "u32 \<Rightarrow> u32" and pc :: u32
  shows "ins AND 0xFE000000 = 0xFA000000 \<Longrightarrow> length (relocateOneArm ld32 pc ins) = 3"
    "ins AND 0xFF000000 = 0xEB000000 \<Longrightarrow> length (relocateOneArm ld32 pc ins) = 3"
    "ins AND 0xFF000000 = 0xEA000000 \<Longrightarrow> length (relocateOneArm ld32 pc ins) = 2"
    "length (relocateOneArm ld32 pc 0xE12FFF1F) = 2"
    "ins AND 0xFFFF0F00 = 0xE28F0000 \<Longrightarrow> length (relocateOneArm ld32 pc ins) = 3"
    "ins AND 0xFFFF0F00 = 0xE24F0000 \<Longrightarrow> length (relocateOneArm ld32 pc ins) = 3"
    "ins AND 0xFFFF0FFF = 0xE1A0000F \<Longrightarrow> length (relocateOneArm ld32 pc ins) = 3"
    "ins AND 0xFF7F0000 = 0xE51F0000 \<Longrightarrow> length (relocateOneArm ld32 pc ins) = 3"
proof -
  assume m: "ins AND 0xFE000000 = 0xFA000000"
  show "length (relocateOneArm ld32 pc ins) = 3"
    by (simp add: relocateOneArm_def Let_def getTypeInArm_def m)
next
  assume m: "ins AND 0xFF000000 = 0xEB000000"
  show "length (relocateOneArm ld32 pc ins) = 3"
    by (simp add: relocateOneArm_def Let_def getTypeInArm_def mask_sub [OF m] mask_neq [OF m])
next
  assume m: "ins AND 0xFF000000 = 0xEA000000"
  show "length (relocateOneArm ld32 pc ins) = 2"
    by (simp add: relocateOneArm_def Let_def getTypeInArm_def mask_sub [OF m] mask_neq [OF m])
next
  show "length (relocateOneArm ld32 pc 0xE12FFF1F) = 2"
    by (simp add: relocateOneArm_def Let_def getTypeInArm_def)
next
  assume m: "ins AND 0xFFFF0F00 = 0xE28F0000"
  show "length (relocateOneArm ld32 pc ins) = 3"
    by (simp add: relocateOneArm_def Let_def getTypeInArm_def mask_sub [OF m] mask_neq [OF m])
next
  assume m: "ins AND 0xFFFF0F00 = 0xE24F0000"
  show "length (relocateOneArm ld32 pc ins) = 3"
    by (simp add: relocateOneArm_def Let_def getTypeInArm_def mask_sub [OF m] mask_neq [OF m])
next
  assume m: "ins AND 0xFFFF0FFF = 0xE1A0000F"
  show "length (relocateOneArm ld32 pc ins) = 3"
    by (simp add: relocateOneArm_def Let_def getTypeInArm_def mask_sub [OF m] mask_neq [OF m])
next
  assume m: "ins AND 0xFF7F0000 = 0xE51F0000"
  show "length (relocateOneArm ld32 pc ins) = 3"
    by (simp add: relocateOneArm_def Let_def getTypeInArm_def mask_sub [OF m] mask_neq [OF m])
qed

lemma reloc_arm_supported:
  assumes "\<not> Thumb s" "A AND 3 = 0" "T AND 3 = 0"
    "code32_at (mem s) T (relocateOneArm (load32 (mem s)) (A + 8) ins)" "arm_supported ins"
  shows "\<exists>n. cpu_run n (s\<lparr>PC := T\<rparr>) =
           arm_exec ins (T + 4 * of_nat (length (relocateOneArm (load32 (mem s)) (A + 8) ins))) (s\<lparr>PC := A\<rparr>)"
  using assms(5)
proof (cases rule: arm_supported_cases)
  case blx
  from reloc_arm_blx [OF assms(1,2,4) this] show ?thesis by (auto simp: reloc_arm_length(1) [OF blx])
next
  case bl
  from reloc_arm_bl [OF assms(1,2,4) this] show ?thesis by (auto simp: reloc_arm_length(2) [OF bl])
next
  case b
  then show ?thesis
    using reloc_arm_b [OF assms(1,2,4) b] by (intro exI [of _ 1]) (simp add: reloc_arm_length(3) [OF b])
next
  case bx
  then show ?thesis
    using reloc_arm_bx [OF assms(1,2) assms(4) [unfolded bx]]
    by (intro exI [of _ 1]) (simp add: reloc_arm_length(4))
next
  case adr
  from reloc_arm_adr [OF assms(1,3,4) this] show ?thesis using adr by (auto simp: reloc_arm_length)
next
  case mov
  from reloc_arm_mov [OF assms(1,3,4) this] show ?thesis by (auto simp: reloc_arm_length(7) [OF mov])
next
  case ldr
  from reloc_arm_ldr [OF assms(1,3,4) this] show ?thesis by (auto simp: reloc_arm_length(8) [OF ldr])
qed

definition arm_plain :: "u32 \<Rightarrow> bool" where
  "arm_plain ins \<longleftrightarrow> ins AND 0xF0000000 = 0xE0000000 \<and> getTypeInArm ins = UNDEFINE
     \<and> fld 16 ins \<noteq> 15 \<and> fld 0 ins \<noteq> 15 \<and> ins AND 0xFFF0FFF \<noteq> 0x52D0004"

lemma write_reg_pc: "write_reg k v nxt (s\<lparr>PC := A\<rparr>) = write_reg k v nxt (s\<lparr>PC := T\<rparr>)"
  by (simp add: write_reg_def bx_write_pc_def)

lemma arm_plain_exec:
  assumes "arm_plain ins"
  shows "arm_exec ins nxt (s\<lparr>PC := A\<rparr>) = arm_exec ins nxt (s\<lparr>PC := T\<rparr>)"
proof -
  have m: "ins AND 0xF0000000 = 0xE0000000" and r: "fld 16 ins \<noteq> 15" "fld 0 ins \<noteq> 15"
    and b: "ins AND 0xF000000 \<noteq> 0xB000000" "ins AND 0xF000000 \<noteq> 0xA000000"
    using assms by (auto simp: arm_plain_def getTypeInArm_def split: if_splits)
  have rd: "read_arm k (s\<lparr>PC := A\<rparr>) = read_arm k (s\<lparr>PC := T\<rparr>)" if "k \<noteq> 15" for k
    using that by (simp add: read_arm_def)
  have bx: "bx_write_pc v (s\<lparr>PC := A\<rparr>) = bx_write_pc v (s\<lparr>PC := T\<rparr>)" for v
    by (simp add: bx_write_pc_def)
  show ?thesis
    using b rd [OF r(1)] rd [OF r(2)]
    by (simp add: arm_exec_def Let_def cond_masked mask_sub [OF m] cond_passed_def bx write_reg_pc [where A = A and T = T])
qed

lemma write_reg_mem: "write_reg k v nxt s = Some t \<Longrightarrow> mem t = mem s"
  by (auto simp: write_reg_def bx_write_pc_def split: if_splits)

lemma arm_exec_mem:
  assumes "arm_exec ins nxt s = Some t" "ins AND 0xFFF0FFF \<noteq> 0x52D0004"
  shows "mem t = mem s"
  using assms
  by (auto simp: arm_exec_def Let_def bx_write_pc_def dest: write_reg_mem split: if_splits)


lemma reloc_arm_plain:
  assumes "\<not> Thumb s" "code32_at (mem s) T (relocateOneArm ld32 (A + 8) ins)" "arm_plain ins"
  shows "\<exists>n. cpu_run n (s\<lparr>PC := T\<rparr>) =
           arm_exec ins (T + 4 * of_nat (length (relocateOneArm ld32 (A + 8) ins))) (s\<lparr>PC := A\<rparr>)"
proof (rule exI [of _ 1])
  have code: "relocateOneArm ld32 (A + 8) ins = [ins]"
    using assms(3) by (simp add: relocateOneArm_def arm_plain_def)
  show "cpu_run 1 (s\<lparr>PC := T\<rparr>) =
          arm_exec ins (T + 4 * of_nat (length (relocateOneArm ld32 (A + 8) ins))) (s\<lparr>PC := A\<rparr>)"
    using assms(1,2) unfolding code
    by (simp add: cpu_step_def arm_plain_exec [OF assms(3), where A = A and T = T] split: option.split)
qed

fun out_of_line :: "(u32 \<Rightarrow> u32) \<Rightarrow> u32 \<Rightarrow> u32 \<Rightarrow> u32 list \<Rightarrow> arm_state \<Rightarrow> arm_state option" where
  "out_of_line ld32 A T [] s = Some s"
| "out_of_line ld32 A T (ins # rest) s =
     (let nxt = T + 4 * of_nat (length (relocateOneArm ld32 (A + 8) ins))
      in case arm_exec ins nxt (s\<lparr>PC := A\<rparr>) of
           None \<Rightarrow> None
         | Some t \<Rightarrow> if PC t = nxt \<and> \<not> Thumb t then out_of_line ld32 (A + 4) nxt rest t else Some t)"

lemma code32_at_append:
  "code32_at m a (xs @ ys) \<longleftrightarrow> code32_at m a xs \<and> code32_at m (a + 4 * of_nat (length xs)) ys"
  by (induction xs arbitrary: a) (auto simp: algebra_simps)

lemma arm_no_push:
  assumes "arm_supported ins \<or> arm_plain ins"
  shows "ins AND 0xFFF0FFF \<noteq> 0x52D0004"
  using assms
proof
  assume "arm_supported ins"
  then show ?thesis
  proof (cases rule: arm_supported_cases)
    case adr
    then show ?thesis by (auto dest: mask_neq [where m' = "0xFFF0FFF" and v' = "0x52D0004"])
  qed (auto dest: mask_neq [where m' = "0xFFF0FFF" and v' = "0x52D0004"])
qed (simp add: arm_plain_def)

lemma trampoline_runs_prologue:
  assumes "\<not> Thumb s" "A AND 3 = 0" "T AND 3 = 0" "PC s = T" "ld32 = load32 (mem s)"
    "code32_at (mem s) T (arm_code ld32 (A + 8) ws)" "\<forall>w \<in> set ws. arm_supported w \<or> arm_plain w"
  shows "\<exists>n. cpu_run n s = out_of_line ld32 A T ws s"
  using assms
proof (induction ws arbitrary: s A T)
  case Nil
  show ?case by (rule exI [of _ 0]) simp
next
  case (Cons w ws)
  let ?k = "length (relocateOneArm ld32 (A + 8) w)"
  let ?nxt = "T + 4 * of_nat ?k"
  have code: "code32_at (mem s) T (relocateOneArm ld32 (A + 8) w)"
    "code32_at (mem s) ?nxt (arm_code ld32 (A + 4 + 8) ws)"
    using Cons.prems(6) by (simp_all add: code32_at_append add.assoc add.commute)
  have s: "s\<lparr>PC := T\<rparr> = s" using Cons.prems(4) by simp
  have "\<exists>n. cpu_run n s = arm_exec w ?nxt (s\<lparr>PC := A\<rparr>)"
    using Cons.prems(7) reloc_arm_supported [OF Cons.prems(1-3), of w] reloc_arm_plain [OF Cons.prems(1) code(1)]
      code(1) unfolding Cons.prems(5) s by auto
  then obtain n where n: "cpu_run n s = arm_exec w ?nxt (s\<lparr>PC := A\<rparr>)" ..
  show ?case
  proof (cases "arm_exec w ?nxt (s\<lparr>PC := A\<rparr>)")
    case None
    then show ?thesis using n by (auto simp: Let_def intro: exI [of _ n])
  next
    case (Some t)
    show ?thesis
    proof (cases "PC t = ?nxt \<and> \<not> Thumb t")
      case False
      then show ?thesis using n Some by (auto simp: Let_def intro: exI [of _ n])
    next
      case True
      have m: "mem t = mem s" using arm_exec_mem [OF Some] arm_no_push Cons.prems(7) by simp
      have "\<exists>k. cpu_run k t = out_of_line ld32 (A + 4) ?nxt ws t"
        using True Cons.prems m code(2) by (intro Cons.IH) (auto intro!: add_aligned mul4_aligned)
      then obtain k where "cpu_run k t = out_of_line ld32 (A + 4) ?nxt ws t" ..
      then have "cpu_run (n + k) s = out_of_line ld32 A T (w # ws) s"
        using n Some True by (simp add: cpu_run_add Let_def)
      then show ?thesis ..
    qed
  qed
qed

lemma out_of_line_mem:
  assumes "out_of_line ld32 A T ws s = Some t" "\<forall>w \<in> set ws. w AND 0xFFF0FFF \<noteq> 0x52D0004"
  shows "mem t = mem s"
  using assms
  by (induction ws arbitrary: A T s) (fastforce simp: Let_def dest: arm_exec_mem split: option.splits if_splits)+

theorem arm_trampoline_correct:
  assumes "\<not> Thumb s" "A AND 3 = 0" "T AND 3 = 0" "PC s = T"
    "\<forall>w \<in> set ws. arm_supported w \<or> arm_plain w"
    "count bd + length ws \<le> length (orig_boundaries bd)" "count bd + length ws \<le> length (trampoline_boundaries bd)"
  shows "\<exists>code bd'. relocateInstructionInArm (load32 (mem s)) A ws (4 * length ws) bd = Inr (code, bd') \<and>
          (code32_at (mem s) T code \<longrightarrow>
            (\<exists>n. cpu_run n s =
              (case out_of_line (load32 (mem s)) A T ws s of None \<Rightarrow> None
               | Some t \<Rightarrow> if PC t = T + 4 * of_nat (length code - 2) \<and> \<not> Thumb t
                           then Some (t\<lparr>PC := A + 4 * of_nat (length ws)\<rparr>) else Some t)))"
proof -
  let ?ld = "load32 (mem s)" and ?fin = "[0xe51ff004, A + 4 * of_nat (length ws)]"
  let ?body = "arm_code ?ld (A + 8) ws"
  obtain bd' where reloc: "relocateInstructionInArm ?ld A ws (4 * length ws) bd = Inr (?body @ ?fin, bd')"
    using arm_relocation_spec [of "4 * length ws" ws bd ?ld A] assms(6,7) by auto
  have "\<exists>n. cpu_run n s = (case out_of_line ?ld A T ws s of None \<Rightarrow> None
               | Some t \<Rightarrow> if PC t = T + 4 * of_nat (length ?body) \<and> \<not> Thumb t
                           then Some (t\<lparr>PC := A + 4 * of_nat (length ws)\<rparr>) else Some t)"
    if code: "code32_at (mem s) T (?body @ ?fin)"
  proof -
    obtain n where n: "cpu_run n s = out_of_line ?ld A T ws s"
      using trampoline_runs_prologue [OF assms(1-4) refl _ assms(5)] code by (auto simp: code32_at_append)
    show ?thesis
    proof (cases "out_of_line ?ld A T ws s")
      case (Some t)
      show ?thesis
      proof (cases "PC t = T + 4 * of_nat (length ?body) \<and> \<not> Thumb t")
        case True
        have m: "mem t = mem s" using out_of_line_mem [OF Some] assms(5) arm_no_push by blast
        have al: "(A + 4 * of_nat (length ws)) AND 3 = 0" using assms(2) by (intro add_aligned mul4_aligned)
        have "code32_at (mem t) (PC t) ?fin" using code True m by (simp add: code32_at_append)
        then have "cpu_step t = Some (t\<lparr>PC := A + 4 * of_nat (length ws)\<rparr>)"
          using True step_ldr_pc [of t] by (simp add: bx_write_pc_arm [OF al])
        then have "cpu_run (n + 1) s = Some (t\<lparr>PC := A + 4 * of_nat (length ws)\<rparr>)"
          using n Some unfolding cpu_run_add by simp
        then show ?thesis unfolding Some option.case if_P [OF True] ..
      qed (use n Some in auto)
    qed (use n in auto)
  qed
  moreover have len: "length (?body @ ?fin) - 2 = length ?body" by simp
  ultimately show ?thesis
    using reloc by (intro exI [of _ "?body @ ?fin"] exI [of _ bd'] conjI impI) (simp_all only: len)
qed

section \<open>ADD with a PC operand\<close>

definition slot :: "u32 \<Rightarrow> u32 set" where
  "slot a = {a, a + 1, a + 2, a + 3}"

lemma load32_store32_other:
  assumes "b \<notin> slot a" "b + 1 \<notin> slot a" "b + 2 \<notin> slot a" "b + 3 \<notin> slot a"
  shows "load32 (store32 a v m) b = load32 m b"
  unfolding load32_bytes store32_def using assms by (simp add: slot_def del: add_diff_cancel_right)

lemma code32_at_store32:
  assumes "\<forall>i < 4 * length ws. T + of_nat i \<notin> slot a" "code32_at m T ws"
  shows "code32_at (store32 a v m) T ws"
  using assms
proof (induction ws arbitrary: T)
  case (Cons w ws)
  have "load32 (store32 a v m) T = load32 m T"
    using Cons.prems(1) [rule_format, of 0] Cons.prems(1) [rule_format, of 1] Cons.prems(1) [rule_format, of 2]
      Cons.prems(1) [rule_format, of 3] by (intro load32_store32_other) simp_all
  moreover have "T + 4 + of_nat i \<notin> slot a" if "i < 4 * length ws" for i
    using Cons.prems(1) [rule_format, of "4 + i"] that by (simp add: add.assoc)
  ultimately show ?case using Cons.IH [of "T + 4"] Cons.prems(2) by simp
qed simp

lemma step_push:
  assumes "\<not> Thumb s" "load32 (mem s) (PC s) = ins" "ins AND 0xFFFF0FFF = 0xE52D0004" "fld 12 ins < 13"
  shows "cpu_step s = Some (s\<lparr>mem := store32 (R s 13 - 4) (R s (fld 12 ins)) (mem s),
                              R := (R s)(13 := R s 13 - 4), PC := PC s + 4\<rparr>)"
  using assms by (simp add: isa_simps cond_masked mask_sub [OF assms(3)] mask_neq [OF assms(3)])

lemma step_pop:
  assumes "\<not> Thumb s" "load32 (mem s) (PC s) = ins" "ins AND 0xFFFF0FFF = 0xE49D0004" "fld 12 ins < 13"
  shows "cpu_step s = Some (s\<lparr>R := (R s)(13 := R s 13 + 4, fld 12 ins := load32 (mem s) (R s 13)),
                              PC := PC s + 4\<rparr>)"
  using assms by (simp add: isa_simps cond_masked mask_sub [OF assms(3)] mask_neq [OF assms(3)])

lemma step_ldr_fwd:
  assumes "\<not> Thumb s" "load32 (mem s) (PC s) = ins" "ins AND 0xFFFF0FFF = 0xE59F0008" "fld 12 ins \<noteq> 15"
  shows "cpu_step s = Some (s\<lparr>R := (R s)(fld 12 ins := load32 (mem s) (PC s + 16)), PC := PC s + 4\<rparr>)"
  using assms
  by (simp add: isa_simps cond_masked write_reg_def fld_masked [of 16] mask_sub [OF assms(3)] mask_neq [OF assms(3)])
    (simp only: add.commute)

lemma step_add_reg:
  assumes "\<not> Thumb s" "load32 (mem s) (PC s) = ins" "ins AND 0xFFF00FF0 = 0xE0800000"
    "fld 12 ins \<noteq> 15" "fld 16 ins \<noteq> 15" "fld 0 ins \<noteq> 15"
  shows "cpu_step s = Some (s\<lparr>R := (R s)(fld 12 ins := R s (fld 16 ins) + R s (fld 0 ins)), PC := PC s + 4\<rparr>)"
  using assms
  by (simp add: isa_simps cond_masked write_reg_def mask_sub [OF assms(3)] mask_neq [OF assms(3)])

lemma nibble_masks:
  fixes w :: u32
  assumes "w < 16"
  shows "push_bit 12 w AND 0xFFFF0FFF = 0" "push_bit 12 w AND 0xF000 = push_bit 12 w"
    "push_bit 16 w AND 0xFFF00FF0 = 0" "push_bit 16 w AND 0xF0000 = push_bit 16 w"
    "push_bit 16 w AND 0xF000 = 0" "push_bit 16 w AND 0xF = 0"
    "drop_bit 12 (push_bit 12 w) = w" "drop_bit 16 (push_bit 16 w) = w"
  using less16_cases [OF assms] by (elim insertE; simp)+

lemma nat_nibble: "r < 16 \<Longrightarrow> of_nat r < (16 :: u32)" "r < 16 \<Longrightarrow> unat (of_nat r :: u32) = r"
  by (simp_all add: word_less_nat_alt unat_of_nat)

lemma reg_at_12:
  assumes "k AND 0xFFFF0FFF = k" "r < 16"
  shows "fld 12 (k OR push_bit 12 (of_nat r)) = r" "(k OR push_bit 12 (of_nat r)) AND 0xFFFF0FFF = k"
proof -
  have "k AND 0xF000 = 0" using arg_cong [OF assms(1), of "\<lambda>x. x AND 0xF000"] by (simp add: and.assoc)
  then show "fld 12 (k OR push_bit 12 (of_nat r)) = r" "(k OR push_bit 12 (of_nat r)) AND 0xFFFF0FFF = k"
    using assms nibble_masks [OF nat_nibble(1) [OF assms(2)]] nat_nibble(2) [OF assms(2)]
    by (simp_all add: fld_masked bit.conj_disj_distrib2)
qed

text \<open>
  The sequence emitted for \<open>ADD Rd, PC, Rm\<close> computes what the original computes and restores the scratch
  register; memory changes only in the stack slot the register is saved in.
\<close>

theorem reloc_arm_add:
  fixes ld32 :: "u32 \<Rightarrow> u32"
  assumes "\<not> Thumb s" "T AND 3 = 0" "code32_at (mem s) T (relocateOneArm ld32 (A + 8) ins)"
    "ins AND 0xFFFF0FF0 = 0xE08F0000" "fld 12 ins \<notin> {13, 15}" "fld 0 ins \<notin> {13, 15}"
    "\<forall>i < 24. T + of_nat i \<notin> slot (R s 13 - 4)"
  defines "r \<equiv> free_reg 12 [fld 12 ins, fld 0 ins]"
  shows "cpu_run 5 (s\<lparr>PC := T\<rparr>) =
    arm_exec ins (T + 24) (s\<lparr>PC := A, mem := store32 (R s 13 - 4) (R s r) (mem s)\<rparr>)"
proof -
  have r: "0 < r" "r \<le> 12" "r \<noteq> fld 12 ins" "r \<noteq> fld 0 ins"
    using free_reg_positive [of "[fld 12 ins, fld 0 ins]" 12] free_reg_le [of 12] by (auto simp: r_def)
  have rd: "unat (drop_bit 12 (ins AND 0xF000)) = fld 12 ins" "unat (ins AND 0xF) = fld 0 ins"
    by (simp_all add: fld_masked)
  let ?w = "of_nat r :: u32"
  let ?add = "(ins AND 0xFFF0FFFF) OR push_bit 16 ?w"
  have code: "relocateOneArm ld32 (A + 8) ins =
     [0xE52D0004 OR push_bit 12 ?w, 0xE59F0008 OR push_bit 12 ?w, ?add, 0xE49D0004 OR push_bit 12 ?w, 0xE28FF000, A + 8]"
    by (simp add: relocateOneArm_def getTypeInArm_def Let_def mask_sub [OF assms(4)] mask_neq [OF assms(4)]
        rd [simplified] r_def [symmetric])
  have a: "?add AND 0xFFF00FF0 = 0xE0800000" "fld 16 ?add = r" "fld 12 ?add = fld 12 ins" "fld 0 ?add = fld 0 ins"
    using nibble_masks [OF nat_nibble(1), of r] nat_nibble(2) [of r] r
    by (simp_all add: fld_masked bit.conj_disj_distrib2 and.assoc mask_sub [OF assms(4)])
  let ?m = "store32 (R s 13 - 4) (R s r) (mem s)"
  have m: "code32_at ?m T (relocateOneArm ld32 (A + 8) ins)"
    by (rule code32_at_store32 [OF _ assms(3)]) (use assms(7) in \<open>simp add: code\<close>)
  let ?s1 = "s\<lparr>mem := ?m, R := (R s)(13 := R s 13 - 4), PC := T + 4\<rparr>"
  let ?s2 = "?s1\<lparr>R := (R ?s1)(r := A + 8), PC := T + 8\<rparr>"
  let ?s3 = "?s2\<lparr>R := (R ?s2)(fld 12 ins := A + 8 + R s (fld 0 ins)), PC := T + 12\<rparr>"
  let ?s4 = "?s3\<lparr>R := (R ?s3)(13 := R s 13, r := R s r), PC := T + 16\<rparr>"
  have "cpu_step (s\<lparr>PC := T\<rparr>) = Some ?s1"
    using step_push [of "s\<lparr>PC := T\<rparr>"] assms(1) assms(3) r reg_at_12 [of _ r] by (simp add: code)
  moreover have "cpu_step ?s1 = Some ?s2"
    using step_ldr_fwd [of ?s1] assms(1) m r reg_at_12 [of _ r] by (simp add: code add.assoc)
  moreover have "cpu_step ?s2 = Some ?s3"
    using step_add_reg [of ?s2] assms(1,5,6) m r a by (simp add: code add.assoc)
  moreover have "cpu_step ?s3 = Some ?s4"
    using step_pop [of ?s3] assms(1,5,6) m r reg_at_12 [of _ r] by (simp add: code add.assoc load32_store32_same)
  moreover have "cpu_step ?s4 = Some (?s4\<lparr>PC := T + 24\<rparr>)"
    using step_skip [of ?s4] assms(1) m add_aligned [OF assms(2), of 24]
    by (simp add: code add.assoc bx_write_pc_arm)
  ultimately have "cpu_run 5 (s\<lparr>PC := T\<rparr>) = Some (?s4\<lparr>PC := T + 24\<rparr>)"
    by (simp add: eval_nat_numeral)
  moreover have upd: "(R s)(fld 12 ins := v, 13 := R s 13, r := R s r) = (R s)(fld 12 ins := v)" for v
    using assms(5) r by auto
  moreover have "arm_exec ins (T + 24) (s\<lparr>PC := A, mem := ?m\<rparr>) = Some (?s4\<lparr>PC := T + 24\<rparr>)"
    using assms(5,6) r upd
    by (auto simp: arm_exec_def Let_def cond_masked cond_passed_def write_reg_def read_arm_def fld_masked [of 16]
        mask_sub [OF assms(4)] mask_neq [OF assms(4)])
  ultimately show ?thesis by simp
qed

theorem reloc_arm_add_witness:
  "cpu_run 5 ((demo_state (demo_code32 [0xE52DC004, 0xE59FC008, 0xE08C0001, 0xE49DC004, 0xE28FF000, 0x8008]) False)\<lparr>PC := 0x9000\<rparr>) =
    arm_exec 0xE08F0001 0x9018 ((demo_state (demo_code32 [0xE52DC004, 0xE59FC008, 0xE08C0001, 0xE49DC004, 0xE28FF000, 0x8008]) False)
      \<lparr>PC := 0x8000, mem := store32 0xEFFC 0 (demo_code32 [0xE52DC004, 0xE59FC008, 0xE08C0001, 0xE49DC004, 0xE28FF000, 0x8008])\<rparr>)"
proof -
  let ?ws = "[0xE52DC004, 0xE59FC008, 0xE08C0001, 0xE49DC004, 0xE28FF000, 0x8008] :: u32 list"
  let ?s = "demo_state (demo_code32 ?ws) False"
  have f: "fld 12 0xE08F0001 = 0" "fld 0 0xE08F0001 = 1" by (simp_all add: fld_def)
  have fr: "free_reg 12 [0, 1] = 12" by (simp add: numeral_eq_Suc)
  have r: "relocateOneArm (\<lambda>_. 0) (0x8000 + 8) 0xE08F0001 = ?ws"
    using fr by (simp add: relocateOneArm_def getTypeInArm_def)
  have c: "code32_at (mem ?s) 0x9000 ?ws" unfolding demo_state_def arm_state.simps by code_simp
  have sl: "0x9000 + of_nat i \<notin> slot (R ?s 13 - 4)" if "i < 24" for i
  proof -
    have n: "(of_nat (0x9000 + i) :: u32) \<noteq> of_nat (0xEFFC + j)" if "j < 4" for j
      using \<open>i < 24\<close> that by (simp only: word_of_nat_eq_iff) (simp add: take_bit_nat_eq_self)
    from n [of 0] n [of 1] n [of 2] n [of 3] show ?thesis by (simp add: slot_def demo_state_def)
  qed
  show ?thesis
    using reloc_arm_add [of ?s "0x9000" "\<lambda>_. 0" "0x8000" "0xE08F0001"] c sl unfolding r f fr
    by (simp add: demo_state_def)
qed

section \<open>Correctness of the relocated instructions\<close>

text \<open>
  (C15) Running the words emitted for an unconditional \<^verbatim>\<open>B\<close>, \<^verbatim>\<open>BL\<close>, \<^verbatim>\<open>BLX\<close>, \<^verbatim>\<open>BX PC\<close>, \<^verbatim>\<open>ADR\<close> with an unrotated immediate, \<^verbatim>\<open>MOV\<close> from the PC or
  literal load (\<^verbatim>\<open>arm_supported\<close>), or for an unconditional copied word neither register field of which names the PC and that is not a
  single-register \<^verbatim>\<open>PUSH\<close> (\<^verbatim>\<open>arm_plain\<close>), at any word-aligned address has the effect that the processor model gives the original
  at its own word-aligned address, with fall-through and return behind the emitted words.  \<^verbatim>\<open>ADD\<close> of the PC and a register
  and \<^verbatim>\<open>ADR\<close> with a rotated immediate are not covered.
\<close>

theorem arm_instruction_relocated:
  assumes "arm_supported ins \<or> arm_plain ins" "\<not> Thumb s" "A AND 3 = 0" "T AND 3 = 0"
    "code32_at (mem s) T (relocateOneArm (load32 (mem s)) (A + 8) ins)"
  shows "\<exists>n. cpu_run n (s\<lparr>PC := T\<rparr>) =
           arm_exec ins (T + 4 * of_nat (length (relocateOneArm (load32 (mem s)) (A + 8) ins))) (s\<lparr>PC := A\<rparr>)"
  using assms reloc_arm_supported reloc_arm_plain by blast

theorem arm_instruction_relocated_witness:
  "\<exists>n. cpu_run n ((demo_state (demo_code32 [0xE51F0000, 0xE28FF000, 0x8018]) False)\<lparr>PC := 0x9000\<rparr>) =
    arm_exec 0xE28F0010 0x900C ((demo_state (demo_code32 [0xE51F0000, 0xE28FF000, 0x8018]) False)\<lparr>PC := 0x8000\<rparr>)"
proof -
  let ?s = "demo_state (demo_code32 [0xE51F0000, 0xE28FF000, 0x8018]) False"
  have r: "relocateOneArm (load32 (mem ?s)) (0x8000 + 8) 0xE28F0010 = [0xE51F0000, 0xE28FF000, 0x8018]"
    by (simp add: relocateOneArm_def getTypeInArm_def)
  have c: "code32_at (mem ?s) 0x9000 [0xE51F0000, 0xE28FF000, 0x8018]" unfolding demo_state_def arm_state.simps by code_simp
  show ?thesis
    using arm_instruction_relocated [of "0xE28F0010" ?s "0x8000" "0x9000"] c unfolding r
    by (simp add: arm_supported_def demo_state_def)
qed

text \<open>The instruction with the condition \<^verbatim>\<open>AL\<close>.\<close>

definition always :: "u32 \<Rightarrow> u32" where
  "always ins = (ins AND 0x0FFFFFFF) OR 0xE0000000"

lemma always_masked: "M AND 0x0FFFFFFF = M \<Longrightarrow> M AND 0xE0000000 = 0 \<Longrightarrow> always ins AND M = ins AND M"
proof -
  assume m: "M AND 0x0FFFFFFF = M" "M AND 0xE0000000 = 0"
  have "always ins AND M = ((ins AND 0x0FFFFFFF) AND M) OR (0xE0000000 AND M)" unfolding always_def by (rule bit.conj_disj_distrib2)
  also have "\<dots> = ins AND (M AND 0x0FFFFFFF)" using m(2) by (simp add: and.assoc and.commute and.left_commute)
  finally show ?thesis unfolding m(1) .
qed

lemma always_cond: "ins AND 0xFE000000 = 0xFA000000 \<Longrightarrow> ins AND 0xF0000000 = 0xF0000000" "always ins AND 0xFE000000 \<noteq> 0xFA000000"
proof -
  show "ins AND 0xF0000000 = 0xF0000000" if "ins AND 0xFE000000 = 0xFA000000" using mask_sub [OF that, of "0xF0000000"] by simp
  have "always ins AND 0xF0000000 = 0xE0000000" unfolding always_def by (simp add: bit.conj_disj_distrib2 and.assoc)
  then show "always ins AND 0xFE000000 \<noteq> 0xFA000000" using mask_sub [of "always ins" "0xFE000000" "0xFA000000" "0xF0000000"] by auto
qed

lemma getType_always: "ins AND 0xF0000000 \<noteq> 0xF0000000 \<Longrightarrow> getTypeInArm (always ins) = getTypeInArm ins"
  using always_cond [of ins] by (auto simp: getTypeInArm_def always_masked)

lemma reloc_always:
  assumes "ins AND 0xF0000000 \<noteq> 0xF0000000" "getTypeInArm ins \<in> {BL_ARM, B_ARM, BX_ARM, ADR1_ARM, ADR2_ARM, LDR_ARM, MOV_ARM}"
  shows "relocateOneArm ld32 pc (always ins) = relocateOneArm ld32 pc ins"
  unfolding relocateOneArm_def getType_always [OF assms(1)]
  using assms(2) by (auto simp: always_masked Let_def)

lemma supported_type:
  assumes "arm_supported w" "w AND 0xFE000000 \<noteq> 0xFA000000"
  shows "getTypeInArm w \<in> {BL_ARM, B_ARM, BX_ARM, ADR1_ARM, ADR2_ARM, LDR_ARM, MOV_ARM}"
  using assms(1)
proof (cases rule: arm_supported_cases)
  case blx
  then show ?thesis using assms(2) by simp
next
  case bl
  show ?thesis by (simp add: getTypeInArm_def mask_sub [OF bl] mask_neq [OF bl])
next
  case b
  show ?thesis by (simp add: getTypeInArm_def mask_sub [OF b] mask_neq [OF b])
next
  case bx
  show ?thesis by (simp add: getTypeInArm_def bx)
next
  case adr
  then consider (a1) "w AND 0xFFFF0F00 = 0xE28F0000" | (a2) "w AND 0xFFFF0F00 = 0xE24F0000" by blast
  then show ?thesis
  proof cases
    case a1
    show ?thesis by (simp add: getTypeInArm_def mask_sub [OF a1] mask_neq [OF a1])
  next
    case a2
    show ?thesis by (simp add: getTypeInArm_def mask_sub [OF a2] mask_neq [OF a2])
  qed
next
  case mov
  show ?thesis by (simp add: getTypeInArm_def mask_sub [OF mov] mask_neq [OF mov])
next
  case ldr
  show ?thesis by (simp add: getTypeInArm_def mask_sub [OF ldr] mask_neq [OF ldr])
qed

text \<open>
  (C24) The condition of a relocated ARM instruction is lost.  For a \<open>B\<close>, \<open>BL\<close>, \<open>BX PC\<close>, \<open>ADR\<close> or \<open>MOV\<close> from the PC or a
  literal load under any condition that does not hold, the emitted words do what the same instruction does under the condition
  \<^verbatim>\<open>AL\<close>, so a branch goes to its target, whereas the original falls through.
\<close>

theorem arm_condition_dropped:
  assumes "ins AND 0xF0000000 \<noteq> 0xF0000000" "arm_supported (always ins)" "\<not> cond_passed (drop_bit 28 ins) s"
    and "\<not> Thumb s" "A AND 3 = 0" "T AND 3 = 0" "code32_at (mem s) T (relocateOneArm (load32 (mem s)) (A + 8) ins)"
  defines "nxt \<equiv> T + 4 * of_nat (length (relocateOneArm (load32 (mem s)) (A + 8) ins))"
  shows "arm_exec ins nxt (s\<lparr>PC := A\<rparr>) = Some (s\<lparr>PC := nxt\<rparr>)
    \<and> (\<exists>n. cpu_run n (s\<lparr>PC := T\<rparr>) = arm_exec (always ins) nxt (s\<lparr>PC := A\<rparr>))
    \<and> (ins AND 0xF000000 = 0xA000000 \<or> ins AND 0xF000000 = 0xB000000 \<longrightarrow>
        (\<exists>n t. cpu_run n (s\<lparr>PC := T\<rparr>) = Some t \<and> PC t = A + 8 + push_bit 2 (scast (ucast ins :: 24 word))))"
proof -
  have c: "drop_bit 28 ins \<noteq> 0xF"
  proof
    assume "drop_bit 28 ins = 0xF"
    then have "push_bit 28 (drop_bit 28 ins) = 0xF0000000" by simp
    moreover have "push_bit 28 (drop_bit 28 ins) = ins AND 0xF0000000"
    proof -
      have "push_bit 28 (drop_bit 28 ins) = ins AND push_bit 28 (mask 4)" by (rule bit_word_eqI) (auto simp: bit_simps)
      then show ?thesis by (simp add: mask_eq_exp_minus_1)
    qed
    ultimately show False using assms(1) by simp
  qed
  have ty: "getTypeInArm ins \<in> {BL_ARM, B_ARM, BX_ARM, ADR1_ARM, ADR2_ARM, LDR_ARM, MOV_ARM}"
    using supported_type [OF assms(2) always_cond(2)] unfolding getType_always [OF assms(1)] .
  note same = reloc_always [OF assms(1) ty]
  have run: "\<exists>n. cpu_run n (s\<lparr>PC := T\<rparr>) = arm_exec (always ins) nxt (s\<lparr>PC := A\<rparr>)"
    using reloc_arm_supported [OF assms(4-6) _ assms(2)] assms(7) unfolding nxt_def same by simp
  have ex: "arm_exec ins nxt (s\<lparr>PC := A\<rparr>) = Some (s\<lparr>PC := nxt\<rparr>)"
    using c assms(3) by (simp add: arm_exec_def Let_def)
  have to: "\<exists>t. arm_exec (always ins) nxt (s\<lparr>PC := A\<rparr>) = Some t \<and> PC t = A + 8 + push_bit 2 (scast (ucast ins :: 24 word))"
    if "ins AND 0xF000000 = 0xA000000 \<or> ins AND 0xF000000 = 0xB000000"
  proof -
    have d: "drop_bit 28 (always ins) = 0xE" unfolding always_def by (rule bit_word_eqI) (auto simp: bit_simps)
    have u: "(ucast (always ins) :: 24 word) = ucast ins" 
    proof (rule bit_word_eqI)
      have "take_bit 24 (always ins) = take_bit 24 ins" by (simp add: take_bit_eq_mask mask_eq_exp_minus_1 always_masked)
      then show "bit (ucast (always ins) :: 24 word) n = bit (ucast ins :: 24 word) n" if "n < LENGTH(24)" for n
        using that bit_take_bit_iff [of 24 "always ins" n] bit_take_bit_iff [of 24 ins n] by (simp add: bit_unsigned_iff)
    qed
    show ?thesis using that by (auto simp: arm_exec_def Let_def d u cond_passed_def always_masked)
  qed
  show ?thesis using run ex to by metis
qed

theorem arm_condition_dropped_witness:
  "arm_exec 0x0A000000 0x9008 ((demo_state (demo_code32 [0xE51FF004, 0x8008]) False)\<lparr>PC := 0x8000\<rparr>)
     = Some ((demo_state (demo_code32 [0xE51FF004, 0x8008]) False)\<lparr>PC := 0x9008\<rparr>)
   \<and> (\<exists>n t. cpu_run n ((demo_state (demo_code32 [0xE51FF004, 0x8008]) False)\<lparr>PC := 0x9000\<rparr>) = Some t \<and> PC t = 0x8008)"
proof -
  let ?ws = "[0xE51FF004, 0x8008] :: u32 list"
  let ?s = "demo_state (demo_code32 ?ws) False"
  have r: "relocateOneArm ld (0x8000 + 8) 0x0A000000 = ?ws" for ld
    by (simp add: relocateOneArm_def getTypeInArm_def sign_fill_def)
  have c: "code32_at (mem ?s) 0x9000 ?ws" unfolding demo_state_def arm_state.simps by code_simp
  have al: "always 0x0A000000 = 0xEA000000" "arm_supported 0xEA000000" by (simp_all add: always_def arm_supported_def)
  show ?thesis
    using arm_condition_dropped [of "0x0A000000" ?s "0x8000" "0x9000"] c unfolding r al
    by (simp add: demo_state_def cond_passed_def al)
qed

end
