(* ===== verification/Relocate_Thumb16.thy ===== *)
theory Relocate_Thumb16
  imports Relocate_Arm
begin

text \<open>
  Correctness of \<^verbatim>\<open>relocateInstructionInThumb16\<close> against \<open>Arm_Isa\<close>, for copies that start on a word
  boundary (which the layout guarantees): conditional and unconditional branches, \<open>CBZ\<close>/\<open>CBNZ\<close>, literal
  loads, \<open>MOV\<close> of the PC into a low register, \<open>ADD\<close> of the PC, and copied instructions.
\<close>

section \<open>Halves, alignment and the short steps\<close>

lemma join_halves [simp]: "ucast (low_half v) OR push_bit 16 (ucast (high_half v)) = v"
proof (rule bit_word_eqI)
  have m: "v AND 0xFFFF = take_bit 16 v" by (simp add: take_bit_eq_mask mask_eq_exp_minus_1)
  fix n assume "n < LENGTH(32)"
  then show "bit (ucast (low_half v) OR push_bit 16 (ucast (high_half v)) :: u32) n = bit v n"
    unfolding low_half_def high_half_def m by (auto simp: bit_simps dest: bit_imp_le_length)
qed

lemma load32_halves:
  "load16 m a = low_half v \<Longrightarrow> load16 m (a + 2) = high_half v \<Longrightarrow> load32 m a = v"
  by (simp add: load32_def)

lemma align4_aligned: "a AND 3 = 0 \<Longrightarrow> align4 a = a"
  using bit.conj_disj_distrib [of a 3 "NOT 3"] by (simp add: align4_def)

lemma ALIGN_PC_align4: "ALIGN_PC a = align4 a"
proof -
  have "(0xFFFFFFFC :: u32) = NOT 3" by simp
  then show ?thesis unfolding ALIGN_PC_def align4_def by (rule arg_cong)
qed

lemma aligned_plus: "a AND 3 = 0 \<Longrightarrow> (a + 4 * k) AND 3 = 0" for a :: u32
  by (intro add_aligned mul4_aligned)

lemma aligned_offsets:
  fixes a :: u32
  assumes "a AND 3 = 0"
  shows "(a + 4) AND 3 = 0" "(a + 8) AND 3 = 0" "(a + 12) AND 3 = 0" "(a + 16) AND 3 = 0"
  using aligned_plus [OF assms, of 1] aligned_plus [OF assms, of 2] aligned_plus [OF assms, of 3]
    aligned_plus [OF assms, of 4] by simp_all

lemma align4_plus2: "a AND 3 = 0 \<Longrightarrow> align4 (a + 2) = a"
proof -
  assume a: "a AND 3 = 0"
  have "a AND 2 = 0" using aligned_bits(2) [OF a] .
  then have "a + 2 = a OR 2" by (simp add: disjoint_or_add)
  then have "align4 (a + 2) = (a AND NOT 3) OR (2 AND NOT 3)" by (simp only: align4_def bit.conj_disj_distrib2)
  then show ?thesis using align4_aligned [OF a] by (simp add: align4_def)
qed

lemmas thumb_isa = cpu_step_def wide_def thumb16_exec_def thumb32_exec_def Let_def

lemma t_step_jump:
  assumes "Thumb s" "PC s AND 3 = 0" "code16_at (mem s) (PC s) [0xF8DF, 0xF000, low_half v, high_half v]"
  shows "cpu_step s = bx_write_pc v s"
proof -
  have "load32 (mem s) (PC s + 4) = v"
    using assms(3) by (intro load32_halves) (simp_all add: add.assoc)
  then show ?thesis
    using assms aligned_offsets(1) [OF assms(2)]
    by (simp add: thumb_isa align4_aligned write_reg_def)
qed

lemma t_step_b:
  assumes "Thumb s" 
  shows "load16 (mem s) (PC s) = 0xE001 \<Longrightarrow> cpu_step s = Some (s\<lparr>PC := PC s + 6\<rparr>)"
    "load16 (mem s) (PC s) = 0xE002 \<Longrightarrow> cpu_step s = Some (s\<lparr>PC := PC s + 8\<rparr>)"
    "load16 (mem s) (PC s) = 0xE003 \<Longrightarrow> cpu_step s = Some (s\<lparr>PC := PC s + 10\<rparr>)"
    "load16 (mem s) (PC s) = 0xBF00 \<Longrightarrow> cpu_step s = Some (s\<lparr>PC := PC s + 2\<rparr>)"
  using assms by (simp_all add: thumb_isa)


section \<open>Fields of a 16-bit instruction\<close>

lemma and_mask_lemmas:
  fixes x :: u32
  shows "x AND 0x7FF = take_bit 11 x" "x AND 0xFF = take_bit 8 x"
  by (simp_all add: take_bit_eq_mask mask_eq_exp_minus_1)

lemma b_field_sign:
  fixes ins :: u32
  shows "sign_fill 11 (drop_bit 11 (push_bit 1 (ins AND 0x7FF))) (push_bit 1 (ins AND 0x7FF))
     = push_bit 1 (scast (ucast ins :: 11 word))"
  and "sign_fill 8 (drop_bit 8 (push_bit 1 (ins AND 0xFF))) (push_bit 1 (ins AND 0xFF))
     = push_bit 1 (scast (ucast ins :: 8 word))"
  using sign_fill_field [of 10 1 11 ins] sign_fill_field [of 7 1 8 ins]
  by (simp_all only: and_mask_lemmas scast_ucast_11 scast_ucast_8) simp_all

lemma push1_even: "push_bit 1 x AND 1 = 0" for x :: u32
proof -
  have "x AND 1 = take_bit 1 x" for x :: u32 by (simp add: take_bit_eq_mask mask_eq_exp_minus_1)
  then show ?thesis by (simp only: take_bit_push_bit) simp
qed

lemma add_even: "a AND 1 = 0 \<Longrightarrow> b AND 1 = 0 \<Longrightarrow> (a + b) AND 1 = 0" for a b :: u32
  by (simp add: and_one_eq even_iff_mod_2_eq_zero [symmetric])

lemma or_one_even: "v AND 1 = 0 \<Longrightarrow> v OR 1 = v + 1" for v :: u32
  by (rule disjoint_or_add)

lemma ucast_mask:
  fixes h :: u16
  assumes "h AND m = v"
  shows "(ucast h :: u32) AND ucast m = ucast v"
  using arg_cong [OF assms, of "ucast :: u16 \<Rightarrow> u32"] by (simp add: unsigned_and_eq)

lemma reloc_t_b2:
  assumes "Thumb s" "A AND 1 = 0" "T AND 3 = 0" "h AND 0xF800 = 0xE000"
    "code16_at (mem s) T (relocateInstructionInThumb16 ld32 (A + 4) h)"
  shows "cpu_run 1 (s\<lparr>PC := T\<rparr>) = thumb16_exec h (T + 8) (s\<lparr>PC := A\<rparr>)"
proof -
  let ?v = "A + 4 + push_bit 1 (scast (ucast (ucast h :: u32) :: 11 word))"
  have v: "?v AND 1 = 0" using assms(2) by (intro add_even push1_even) simp_all
  note m = ucast_mask [OF assms(4), simplified]
  have code: "relocateInstructionInThumb16 ld32 (A + 4) h = [0xF8DF, 0xF000, low_half (?v + 1), high_half (?v + 1)]"
    by (simp only: relocateInstructionInThumb16_def Let_def getTypeInThumb16_def b_field_sign or_one_even [OF v, symmetric])
      (simp add: mask_sub [OF assms(4)] mask_neq [OF assms(4)])
  have "cpu_step (s\<lparr>PC := T\<rparr>) = Some (s\<lparr>PC := ?v\<rparr>)"
    using t_step_jump [of "s\<lparr>PC := T\<rparr>" "?v + 1"] assms(1,3,5) bx_write_pc_thumb [OF v] unfolding code by simp
  then show ?thesis
    using assms(1) by (simp add: thumb16_exec_def Let_def mask_sub [OF m] mask_neq [OF m])
qed

lemma run_jump16:
  assumes "Thumb s" "T AND 3 = 0" "v AND 1 = 0"
    "code16_at (mem s) T [0xF8DF, 0xF000, low_half (v + 1), high_half (v + 1)]"
  shows "cpu_step (s\<lparr>PC := T\<rparr>) = Some (s\<lparr>PC := v\<rparr>)"
  using t_step_jump [of "s\<lparr>PC := T\<rparr>" "v + 1"] assms bx_write_pc_thumb [OF assms(3)] by simp

text \<open>The shape shared by the conditional branches: \<open>c\<close> is taken to the jump or falls to \<open>B\<close> behind it.\<close>

lemma run_cond_jump:
  assumes "Thumb s" "T AND 3 = 0" "v AND 1 = 0"
    "code16_at (mem s) T ([c, 0xE003] @ [0xF8DF, 0xF000, low_half (v + 1), high_half (v + 1)])"
    "\<not> wide c" "thumb16_exec c (T + 2) (s\<lparr>PC := T\<rparr>) = Some (s\<lparr>PC := if p then T + 4 else T + 2\<rparr>)"
  shows "cpu_run 2 (s\<lparr>PC := T\<rparr>) = Some (s\<lparr>PC := if p then v else T + 12\<rparr>)"
proof -
  have 1: "cpu_step (s\<lparr>PC := T\<rparr>) = Some (s\<lparr>PC := if p then T + 4 else T + 2\<rparr>)"
    using assms by (simp add: cpu_step_def Let_def)
  have 2: "cpu_step (s\<lparr>PC := T + 4\<rparr>) = Some (s\<lparr>PC := v\<rparr>)"
    using assms aligned_offsets(1) [OF assms(2)] by (intro run_jump16) (simp_all add: add.assoc)
  have 3: "cpu_step (s\<lparr>PC := T + 2\<rparr>) = Some (s\<lparr>PC := T + 12\<rparr>)"
    using t_step_b(3) [of "s\<lparr>PC := T + 2\<rparr>"] assms(1,4) by (simp add: add.assoc)
  show ?thesis using 1 2 3 by (simp add: numeral_2_eq_2)
qed

lemma drop_top_field: "drop_bit 12 h = drop_bit 12 (h AND 0xF000)" "drop_bit 11 h = drop_bit 11 (h AND 0xF800)" for h :: u16
proof -
  have m: "(0xF000 :: u16) = push_bit 12 (mask 4)" "(0xF800 :: u16) = push_bit 11 (mask 5)"
    by (simp_all add: mask_eq_exp_minus_1)
  show "drop_bit 12 h = drop_bit 12 (h AND 0xF000)" "drop_bit 11 h = drop_bit 11 (h AND 0xF800)"
    unfolding m by (rule bit_word_eqI, auto simp: bit_simps simp del: push_bit_mask_eq dest: bit_imp_le_length)+
qed

lemma is_wide_iff: "is_wide h \<longleftrightarrow> wide h"
proof -
  have "unat h < 2 ^ 16" using unsigned_less [of h] by simp
  then have "unat h div 2048 \<le> 31" using less_mult_imp_div_less [of "unat h" 32 2048] by simp
  moreover have "29 \<le> unat h div 2048 \<longleftrightarrow> 0xE800 \<le> unat h"
    using less_eq_div_iff_mult_less_eq [of 2048 29 "unat h"] by simp
  ultimately show ?thesis
    by (simp add: is_wide_def wide_def word_le_nat_alt drop_bit_eq_div unat_div)
qed

lemma not_wideI:
  assumes "h AND 0xF000 = v" "v < 0xE000"
  shows "\<not> wide h"
proof -
  have "unat v div 4096 < 14" using assms(2) less_mult_imp_div_less [of "unat v" 14 4096] by (simp add: word_less_nat_alt)
  moreover have "unat h div 4096 = unat v div 4096"
    using arg_cong [OF drop_top_field(1) [of h], of unat] assms(1) by (simp add: drop_bit_eq_div unat_div)
  ultimately have "\<not> 14 * 4096 \<le> unat h" using less_eq_div_iff_mult_less_eq [of 4096 14 "unat h"] by linarith
  then show ?thesis by (simp add: wide_def word_le_nat_alt)
qed

lemma ucast8_high: "(ucast (x AND push_bit 8 m) :: 8 word) = 0" for x m :: u32
  by (intro bit_word_eqI) (auto simp: bit_simps)

lemma reloc_t_b1:
  assumes "Thumb s" "A AND 1 = 0" "T AND 3 = 0" "h AND 0xF000 = 0xD000" "drop_bit 8 (ucast h :: u32) AND 0xF < 0xE"
    "code16_at (mem s) T (relocateInstructionInThumb16 ld32 (A + 4) h)"
  shows "cpu_run 2 (s\<lparr>PC := T\<rparr>) = thumb16_exec h (T + 12) (s\<lparr>PC := A\<rparr>)"
proof -
  let ?v = "A + 4 + push_bit 1 (scast (ucast (ucast h :: u32) :: 8 word))"
  let ?c = "cond_passed (drop_bit 8 (ucast h) AND 0xF) s"
  have v: "?v AND 1 = 0" using assms(2) by (intro add_even push1_even) simp_all
  note m = ucast_mask [OF assms(4), simplified]
  have code: "relocateInstructionInThumb16 ld32 (A + 4) h =
     [h AND 0xFF00, 0xE003] @ [0xF8DF, 0xF000, low_half (?v + 1), high_half (?v + 1)]"
    by (simp only: relocateInstructionInThumb16_def Let_def getTypeInThumb16_def b_field_sign or_one_even [OF v, symmetric])
      (simp add: mask_sub [OF assms(4)] mask_neq [OF assms(4)])
  have u: "(ucast (h AND 0xFF00) :: u32) = ucast h AND 0xFF00" by (simp add: unsigned_and_eq)
  have z: "(scast (ucast (ucast h AND 0xFF00 :: u32) :: 8 word) :: u32) = 0"
    using ucast8_high [of "ucast h" 255] by simp
  have d: "drop_bit 8 (ucast h AND 0xFF00 :: u32) AND 0xF = drop_bit 8 (ucast h) AND 0xF"
    by (simp add: drop_bit_and and.assoc)
  have w: "\<not> wide (h AND 0xFF00)"
    by (rule not_wideI [of _ "0xD000"]) (simp_all add: and.assoc assms(4))
  have ex: "thumb16_exec (h AND 0xFF00) (T + 2) (s\<lparr>PC := T\<rparr>) = Some (s\<lparr>PC := if ?c then T + 4 else T + 2\<rparr>)"
    unfolding thumb16_exec_def Let_def u z d cond_passed_pc using assms(5) by (simp add: and.assoc mask_sub [OF m])
  show ?thesis
    using run_cond_jump [OF assms(1,3) v assms(6) [unfolded code] w ex] assms(5)
    unfolding thumb16_exec_def Let_def cond_passed_pc by (simp add: mask_sub [OF m])
qed

lemma less8_cases:
  fixes r :: u16
  assumes "r < 8"
  shows "r \<in> {0,1,2,3,4,5,6,7}"
proof -
  have "unat r \<in> {..<8}" using assms by (simp add: word_less_nat_alt)
  also have "{..<8} = {0,1,2,3,4,5,6,7::nat}" by (simp add: lessThan_nat_numeral lessThan_Suc insert_commute)
  finally have "word_of_nat (unat r) \<in> (word_of_nat :: nat \<Rightarrow> u16) ` {0,1,2,3,4,5,6,7}" by blast
  then show ?thesis by simp
qed

lemma ldr_low_shape:
  assumes "r < 8"
  shows "\<not> wide (0x4800 OR push_bit 8 r)"
    "thumb16_exec (0x4800 OR push_bit 8 r) nxt s =
       Some (s\<lparr>R := (R s)(unat r := load32 (mem s) (align4 (PC s + 4))), PC := nxt\<rparr>)"
  using less8_cases [OF assms] by (elim insertE; simp add: thumb16_exec_def wide_def)+

lemma run_load16:
  assumes "Thumb s" "T AND 3 = 0" "r < 8"
    "code16_at (mem s) T [0x4800 OR push_bit 8 r, 0xE001, low_half v, high_half v]"
  shows "cpu_run 2 (s\<lparr>PC := T\<rparr>) = Some (s\<lparr>R := (R s)(unat r := v), PC := T + 8\<rparr>)"
proof -
  have v: "load32 (mem s) (T + 4) = v" using assms(4) by (intro load32_halves) (simp_all add: add.assoc)
  have 1: "cpu_step (s\<lparr>PC := T\<rparr>) = Some (s\<lparr>R := (R s)(unat r := v), PC := T + 2\<rparr>)"
    using assms v ldr_low_shape [OF assms(3)] aligned_offsets(1) [OF assms(2)]
    by (simp add: cpu_step_def align4_aligned)
  have 2: "cpu_step (s\<lparr>R := (R s)(unat r := v), PC := T + 2\<rparr>) = Some (s\<lparr>R := (R s)(unat r := v), PC := T + 8\<rparr>)"
    using t_step_b(1) [of "s\<lparr>R := (R s)(unat r := v), PC := T + 2\<rparr>"] assms(1,4) by (simp add: add.assoc)
  show ?thesis using 1 2 by (simp add: numeral_2_eq_2)
qed

lemma unat_ucast16: "unat (ucast h :: u32) = unat h" for h :: u16
  using unsigned_less [of h, where 'a = nat] by (simp add: unsigned_ucast_eq take_bit_nat_eq_self_iff)

lemma ucast_drop16: "(ucast (drop_bit k h) :: u32) = drop_bit k (ucast h)" for h :: u16
  by (rule bit_word_eqI) (auto simp: bit_simps dest: bit_imp_le_length)

lemma low_reg_field:
  fixes h :: u16
  shows "drop_bit 8 (h AND 0x700) < 8" "unat (drop_bit 8 (h AND 0x700)) = unat (drop_bit 8 (ucast h :: u32) AND 7)"
    "h AND 7 < 8"
proof -
  have "h AND 7 \<le> 7" for h :: u16 by (rule word_and_le1)
  then show l: "h AND 7 < 8" for h :: u16 by (rule le_less_trans) simp
  have e: "drop_bit 8 (h AND 0x700) = drop_bit 8 h AND 7" by (simp add: drop_bit_and)
  show "drop_bit 8 (h AND 0x700) < 8" unfolding e by (rule l)
  have "ucast (drop_bit 8 h AND 7) = drop_bit 8 (ucast h :: u32) AND 7"
    by (simp add: unsigned_and_eq ucast_drop16)
  then have "unat (drop_bit 8 (ucast h :: u32) AND 7) = unat (ucast (drop_bit 8 h AND 7) :: u32)" by simp
  also have "\<dots> = unat (drop_bit 8 h AND 7)" by (rule unat_ucast16)
  finally show "unat (drop_bit 8 (h AND 0x700)) = unat (drop_bit 8 (ucast h :: u32) AND 7)" unfolding e ..
qed

lemma reloc_t_ldr:
  assumes "Thumb s" "T AND 3 = 0" "h AND 0xF800 = 0x4800"
    "code16_at (mem s) T (relocateInstructionInThumb16 (load32 (mem s)) (A + 4) h)"
  shows "cpu_run 2 (s\<lparr>PC := T\<rparr>) = thumb16_exec h (T + 8) (s\<lparr>PC := A\<rparr>)"
proof -
  note m = ucast_mask [OF assms(3), simplified]
  let ?v = "load32 (mem s) (align4 (A + 4) + push_bit 2 (ucast h AND 0xFF))"
  let ?r = "drop_bit 8 (h AND 0x700)"
  have code: "relocateInstructionInThumb16 (load32 (mem s)) (A + 4) h =
    [0x4800 OR push_bit 8 ?r, 0xE001, low_half ?v, high_half ?v]"
    by (simp add: relocateInstructionInThumb16_def Let_def getTypeInThumb16_def ALIGN_PC_align4
        mask_sub [OF assms(3)] mask_neq [OF assms(3)])
  show ?thesis
    using run_load16 [OF assms(1,2) low_reg_field(1) assms(4) [unfolded code]]
    unfolding low_reg_field(2) thumb16_exec_def Let_def
    by (simp add: mask_sub [OF m] mask_neq [OF m])
qed

lemma reloc_t_mov:
  assumes "Thumb s" "T AND 3 = 0" "h AND 0xFFF8 = 0x4678"
    "code16_at (mem s) T (relocateInstructionInThumb16 ld32 (A + 4) h)"
  shows "cpu_run 2 (s\<lparr>PC := T\<rparr>) = thumb16_exec h (T + 8) (s\<lparr>PC := A\<rparr>)"
proof -
  note m = ucast_mask [OF assms(3), simplified]
  have code: "relocateInstructionInThumb16 ld32 (A + 4) h =
    [0x4800 OR push_bit 8 (h AND 7), 0xE001, low_half (A + 4), high_half (A + 4)]"
    by (simp add: relocateInstructionInThumb16_def Let_def getTypeInThumb16_def
        mask_sub [OF assms(3)] mask_neq [OF assms(3)])
  have r: "unat (ucast h AND 7 :: u32) = unat (h AND 7)"
    using unat_ucast16 [of "h AND 7"] by (simp add: unsigned_and_eq)
  have rm: "drop_bit 3 (ucast h :: u32) AND 0xF = 0xF"
    using drop_bit_and [of 3 "ucast h :: u32" "0x78"] by (simp add: mask_sub [OF m])
  have d: "drop_bit 4 (ucast h :: u32) AND 8 = 0"
    using drop_bit_and [of 4 "ucast h :: u32" "0x80"] by (simp add: mask_sub [OF m])
  have nop: "ucast h \<noteq> (0xBF00 :: u32)" using m by auto
  have "unat (h AND 7) < 8" using low_reg_field(3) [of h] by (simp add: word_less_nat_alt)
  then show ?thesis
    using run_load16 [OF assms(1,2) low_reg_field(3) assms(4) [unfolded code]] d nop
    by (simp add: thumb16_exec_def Let_def mask_sub [OF m] mask_neq [OF m] rm r read_thumb_def)
qed

lemma field_move:
  fixes x :: "'a::len word"
  assumes "a \<le> b"
  shows "drop_bit a (x AND push_bit b m) = push_bit (b - a) (drop_bit b x AND m)"
  using assms by (intro bit_word_eqI) (auto simp: bit_simps add.commute dest: bit_imp_le_length)

lemma push_even: "0 < k \<Longrightarrow> push_bit k x AND 1 = 0" for x :: "'a::len word"
  by (rule bit_word_eqI) (auto simp: bit_simps bit_1_iff)

lemma reloc_t_cb:
  assumes "Thumb s" "A AND 1 = 0" "T AND 3 = 0" "h AND 0xF500 = 0xB100"
    "code16_at (mem s) T (relocateInstructionInThumb16 ld32 (A + 4) h)"
  shows "cpu_run 2 (s\<lparr>PC := T\<rparr>) = thumb16_exec h (T + 12) (s\<lparr>PC := A\<rparr>)"
proof -
  let ?ins = "ucast h :: u32"
  let ?off = "push_bit 6 (drop_bit 9 ?ins AND 1) OR push_bit 1 (drop_bit 3 ?ins AND 0x1F)"
  let ?v = "A + 4 + ?off"
  let ?p = "(R s (unat (?ins AND 7)) = 0) = (?ins AND 0x800 = 0)"
  note m = ucast_mask [OF assms(4), simplified]
  have off: "drop_bit 3 (?ins AND 0x200) OR drop_bit 2 (?ins AND 0xF8) = ?off"
    using field_move [of 3 9 ?ins 1] field_move [of 2 3 ?ins "0x1F"] by simp
  have "?off AND 1 = 0"
    by (simp add: bit.conj_disj_distrib2 and.assoc)
  then have v: "?v AND 1 = 0" using assms(2) by (intro add_even) simp_all
  have code: "relocateInstructionInThumb16 ld32 (A + 4) h =
     [h AND 0xFD07, 0xE003] @ [0xF8DF, 0xF000, low_half (?v + 1), high_half (?v + 1)]"
    by (simp only: relocateInstructionInThumb16_def Let_def off getTypeInThumb16_def)
      (simp add: mask_sub [OF assms(4)] mask_neq [OF assms(4)])
  have u: "(ucast (h AND 0xFD07) :: u32) = ?ins AND 0xFD07" by (simp add: unsigned_and_eq)
  have z: "drop_bit 9 (?ins AND 0xFD07) AND 1 = 0" "drop_bit 3 (?ins AND 0xFD07) AND 0x1F = 0"
    by (simp_all add: drop_bit_and and.assoc)
  have w: "\<not> wide (h AND 0xFD07)"
    by (rule not_wideI [of _ "0xB000"]) (simp_all add: and.assoc mask_sub [OF assms(4)])
  have ex: "thumb16_exec (h AND 0xFD07) (T + 2) (s\<lparr>PC := T\<rparr>) = Some (s\<lparr>PC := if ?p then T + 4 else T + 2\<rparr>)"
    unfolding thumb16_exec_def Let_def u z
    by (simp add: and.assoc mask_sub [OF m] mask_neq [OF m])
  show ?thesis
    using run_cond_jump [OF assms(1,3) v assms(5) [unfolded code] w ex]
    unfolding thumb16_exec_def Let_def by (simp add: mask_sub [OF m] mask_neq [OF m])
qed

text \<open>Copied instructions: a NOP fills up the copy to a word.\<close>

lemma reloc_t_plain:
  assumes "Thumb s" "\<not> wide h" "getTypeInThumb16 h = UNDEFINE"
    "code16_at (mem s) T (relocateInstructionInThumb16 ld32 pc h)"
    "thumb16_exec h (T + 2) (s\<lparr>PC := T\<rparr>) = Some (t\<lparr>PC := T + 2\<rparr>)" "Thumb t" "mem t = mem s"
  shows "cpu_run 2 (s\<lparr>PC := T\<rparr>) = Some (t\<lparr>PC := T + 4\<rparr>)"
proof -
  have code: "relocateInstructionInThumb16 ld32 pc h = [h, 0xBF00]"
    using assms(3) by (simp add: relocateInstructionInThumb16_def Let_def)
  have "cpu_step (s\<lparr>PC := T\<rparr>) = Some (t\<lparr>PC := T + 2\<rparr>)"
    using assms by (simp add: cpu_step_def Let_def code)
  moreover have "cpu_step (t\<lparr>PC := T + 2\<rparr>) = Some (t\<lparr>PC := T + 4\<rparr>)"
    using t_step_b(4) [of "t\<lparr>PC := T + 2\<rparr>"] assms by (simp add: code)
  ultimately show ?thesis by (simp add: numeral_2_eq_2)
qed

section \<open>ADD of the PC\<close>

lemma code16_at_store32:
  assumes "\<forall>i < 2 * length hs. T + of_nat i \<notin> slot a" "code16_at m T hs"
  shows "code16_at (store32 a v m) T hs"
  using assms
proof (induction hs arbitrary: T)
  case (Cons h hs)
  have "store32 a v m T = m T" "store32 a v m (T + 1) = m (T + 1)"
    using Cons.prems(1) [rule_format, of 0] Cons.prems(1) [rule_format, of 1]
    by (auto simp: slot_def store32_def)
  moreover have "T + 2 + of_nat i \<notin> slot a" if "i < 2 * length hs" for i
    using Cons.prems(1) [rule_format, of "2 + i"] that by (simp add: add.assoc)
  ultimately show ?case using Cons.IH [of "T + 2"] Cons.prems(2) by (simp add: load16_def)
qed simp

lemma low_reg_one: "low_reg_list 0xB440 = [6]" "low_reg_list 0xB480 = [7]" "low_reg_list 0xBC40 = [6]" "low_reg_list 0xBC80 = [7]"
  by (simp_all add: low_reg_list_def upt_rec)

lemma t_step_push:
  assumes "Thumb s" "r = 6 \<or> r = 7" "load16 (mem s) (PC s) = 0xB400 OR push_bit r 1"
  shows "cpu_step s = Some (s\<lparr>mem := store32 (R s 13 - 4) (R s r) (mem s), R := (R s)(13 := R s 13 - 4), PC := PC s + 2\<rparr>)"
  using assms(2) by (elim disjE) (use assms(1,3) in \<open>simp_all add: thumb_isa low_reg_one\<close>)

lemma t_step_pop:
  assumes "Thumb s" "r = 6 \<or> r = 7" "load16 (mem s) (PC s) = 0xBC00 OR push_bit r 1"
  shows "cpu_step s = Some (s\<lparr>R := (R s)(13 := R s 13 + 4, r := load32 (mem s) (R s 13)), PC := PC s + 2\<rparr>)"
  using assms(2) by (elim disjE) (use assms(1,3) in \<open>simp_all add: thumb_isa low_reg_one\<close>)

lemma t_step_ldr8:
  assumes "Thumb s" "r = 6 \<or> r = 7" "load16 (mem s) (PC s) = 0x4802 OR push_bit 8 (of_nat r)"
  shows "cpu_step s = Some (s\<lparr>R := (R s)(r := load32 (mem s) (align4 (PC s + 4) + 8)), PC := PC s + 2\<rparr>)"
  using assms(2) by (elim disjE) (use assms(1,3) in \<open>simp_all add: thumb_isa\<close>)

definition rdn_of :: "u16 \<Rightarrow> nat" where
  "rdn_of h = unat (drop_bit 4 ((ucast h :: u32) AND 0x80) OR (ucast h AND 7))"

lemma t_step_add:
  assumes "Thumb s" "r = 6 \<or> r = 7" "h AND 0xFF78 = 0x4478" "rdn_of h < 13"
    "load16 (mem s) (PC s) = (h AND 0xFF87) OR push_bit 3 (of_nat r)"
  shows "cpu_step s = Some (s\<lparr>R := (R s)(rdn_of h := R s (rdn_of h) + R s r), PC := PC s + 2\<rparr>)"
proof -
  let ?g = "(h AND 0xFF87) OR push_bit 3 (of_nat r) :: u16"
  note m = ucast_mask [OF assms(3), simplified]
  have u: "(ucast ?g :: u32) = (ucast h AND 0xFF87) OR push_bit 3 (of_nat r)"
    using assms(2) by (auto simp: unsigned_or_eq unsigned_and_eq)
  have g: "(ucast ?g :: u32) AND 0xFF00 = 0x4400"
    unfolding u using assms(2) by (auto simp: bit.conj_disj_distrib2 and.assoc mask_sub [OF m])
  have g2: "(ucast ?g :: u32) AND 0x78 = push_bit 3 (of_nat r)"
    unfolding u using assms(2) by (auto simp: bit.conj_disj_distrib2 and.assoc)
  have rdn: "unat (drop_bit 4 ((ucast ?g :: u32) AND 0x80) OR (ucast ?g AND 7)) = rdn_of h"
    unfolding u rdn_of_def using assms(2) by (auto simp: bit.conj_disj_distrib2 and.assoc)
  have rm: "unat (drop_bit 3 (ucast ?g :: u32) AND 0xF) = r"
    using drop_bit_and [of 3 "ucast ?g :: u32" "0x78"] g2 assms(2) by auto
  have "?g AND 0xF000 = 0x4000"
    using assms(2) by (elim disjE) (simp_all add: bit.conj_disj_distrib2 and.assoc mask_sub [OF assms(3)])
  then have w: "\<not> wide ?g" by (rule not_wideI) simp
  have "thumb16_exec ?g (PC s + 2) s = Some (s\<lparr>R := (R s)(rdn_of h := R s (rdn_of h) + read_thumb r s), PC := PC s + 2\<rparr>)"
    unfolding thumb16_exec_def Let_def rdn rm by (simp add: mask_sub [OF g] mask_neq [OF g] assms(4))
  then show ?thesis
    using assms(1,2,5) w by (auto simp: cpu_step_def Let_def read_thumb_def)
qed

text \<open>
  The sequence emitted for the Thumb \<open>ADD Rdn, PC\<close> computes what the original computes and restores the
  scratch register; memory changes only in its stack slot.
\<close>

theorem reloc_t_add:
  fixes ld32 :: "u32 \<Rightarrow> u32"
  assumes "Thumb s" "T AND 3 = 0" "h AND 0xFF78 = 0x4478" "rdn_of h < 13"
    "code16_at (mem s) T (relocateInstructionInThumb16 ld32 (A + 4) h)"
    "\<forall>i < 16. T + of_nat i \<notin> slot (R s 13 - 4)"
  defines "r \<equiv> free_reg 7 [rdn_of h]"
  shows "cpu_run 5 (s\<lparr>PC := T\<rparr>) =
    thumb16_exec h (T + 16) (s\<lparr>PC := A, mem := store32 (R s 13 - 4) (R s r) (mem s)\<rparr>)"
proof -
  have r: "r = 6 \<or> r = 7" "r \<noteq> rdn_of h" by (auto simp: r_def numeral_eq_Suc)
  note m = ucast_mask [OF assms(3), simplified]
  have code: "relocateInstructionInThumb16 ld32 (A + 4) h =
     [0xB400 OR push_bit r 1, 0x4802 OR push_bit 8 (of_nat r), (h AND 0xFF87) OR push_bit 3 (of_nat r),
      0xBC00 OR push_bit r 1, 0xE002, 0xBF00, low_half (A + 4), high_half (A + 4)]"
    unfolding relocateInstructionInThumb16_def Let_def rdn_of_def [symmetric] r_def [symmetric]
    by (simp add: getTypeInThumb16_def mask_sub [OF assms(3)] mask_neq [OF assms(3)])
  let ?m = "store32 (R s 13 - 4) (R s r) (mem s)"
  have c: "code16_at ?m T (relocateInstructionInThumb16 ld32 (A + 4) h)"
    by (rule code16_at_store32 [OF _ assms(5)]) (use assms(6) in \<open>simp add: code\<close>)
  have v: "load32 ?m (T + 12) = A + 4" using c by (intro load32_halves) (simp_all add: code add.assoc)
  let ?s1 = "s\<lparr>mem := ?m, R := (R s)(13 := R s 13 - 4), PC := T + 2\<rparr>"
  let ?s2 = "?s1\<lparr>R := (R ?s1)(r := A + 4), PC := T + 4\<rparr>"
  let ?s3 = "?s2\<lparr>R := (R ?s2)(rdn_of h := R s (rdn_of h) + (A + 4)), PC := T + 6\<rparr>"
  let ?s4 = "?s3\<lparr>R := (R ?s3)(13 := R s 13, r := R s r), PC := T + 8\<rparr>"
  have "cpu_step (s\<lparr>PC := T\<rparr>) = Some ?s1"
    using t_step_push [of "s\<lparr>PC := T\<rparr>" r] assms(1,5) r by (simp add: code)
  moreover have "align4 (T + 6) = T + 4"
    using align4_plus2 [OF aligned_offsets(1) [OF assms(2)]] by (simp add: add.assoc)
  then have "cpu_step ?s1 = Some ?s2"
    using t_step_ldr8 [of ?s1 r] assms(1) c r v by (simp add: code add.assoc)
  moreover have "cpu_step ?s2 = Some ?s3"
    using t_step_add [of ?s2 r h] assms(1,3,4) c r by (simp add: code add.assoc)
  moreover have "cpu_step ?s3 = Some ?s4"
    using t_step_pop [of ?s3 r] assms(1,4) c r by (auto simp: code add.assoc load32_store32_same)
  moreover have "cpu_step ?s4 = Some (?s4\<lparr>PC := T + 16\<rparr>)"
    using t_step_b(2) [of ?s4] assms(1) c by (simp add: code add.assoc)
  ultimately have "cpu_run 5 (s\<lparr>PC := T\<rparr>) = Some (?s4\<lparr>PC := T + 16\<rparr>)"
    by (simp add: eval_nat_numeral)
  moreover have upd: "(R s)(rdn_of h := v, 13 := R s 13, r := R s r) = (R s)(rdn_of h := v)" for v
    using assms(4) r by auto
  moreover have rm: "drop_bit 3 (ucast h :: u32) AND 0xF = 0xF"
    using drop_bit_and [of 3 "ucast h :: u32" "0x78"] by (simp add: mask_sub [OF m])
  have "thumb16_exec h (T + 16) (s\<lparr>PC := A, mem := ?m\<rparr>) = Some (?s4\<lparr>PC := T + 16\<rparr>)"
    unfolding thumb16_exec_def Let_def rdn_of_def [symmetric] rm
    using assms(4) r upd by (auto simp: mask_sub [OF m] mask_neq [OF m] read_thumb_def add.assoc)
  ultimately show ?thesis by simp
qed

theorem reloc_t_add_witness:
  "cpu_run 5 ((demo_state (demo_code16 [0xB480, 0x4F02, 0x4438, 0xBC80, 0xE002, 0xBF00, 0x8004, 0]) True)\<lparr>PC := 0x9000\<rparr>) =
    thumb16_exec 0x4478 0x9010 ((demo_state (demo_code16 [0xB480, 0x4F02, 0x4438, 0xBC80, 0xE002, 0xBF00, 0x8004, 0]) True)
      \<lparr>PC := 0x8000, mem := store32 0xEFFC 0 (demo_code16 [0xB480, 0x4F02, 0x4438, 0xBC80, 0xE002, 0xBF00, 0x8004, 0])\<rparr>)"
proof -
  let ?hs = "[0xB480, 0x4F02, 0x4438, 0xBC80, 0xE002, 0xBF00, 0x8004, 0] :: u16 list"
  let ?s = "demo_state (demo_code16 ?hs) True"
  have f: "rdn_of 0x4478 = 0" by (simp add: rdn_of_def)
  have fr: "free_reg 7 [0] = 7" by (simp add: numeral_eq_Suc)
  have r: "relocateInstructionInThumb16 (\<lambda>_. 0) (0x8000 + 4) 0x4478 = ?hs"
    by (simp add: relocateInstructionInThumb16_def getTypeInThumb16_def low_half_def high_half_def fr)
  have c: "code16_at (mem ?s) 0x9000 ?hs" unfolding demo_state_def arm_state.simps by code_simp
  have sl: "0x9000 + of_nat i \<notin> slot (R ?s 13 - 4)" if "i < 16" for i
  proof -
    have n: "(of_nat (0x9000 + i) :: u32) \<noteq> of_nat (0xEFFC + j)" if "j < 4" for j
      using \<open>i < 16\<close> that by (simp only: word_of_nat_eq_iff) (simp add: take_bit_nat_eq_self)
    from n [of 0] n [of 1] n [of 2] n [of 3] show ?thesis by (simp add: slot_def demo_state_def)
  qed
  show ?thesis
    using reloc_t_add [of ?s "0x9000" "0x4478" "\<lambda>_. 0" "0x8000"] c sl unfolding r f fr
    by (simp add: demo_state_def)
qed

section \<open>The supported encodings together\<close>

definition thumb16_supported :: "u16 \<Rightarrow> bool" where
  "thumb16_supported h \<longleftrightarrow>
     h AND 0xF000 = 0xD000 \<and> drop_bit 8 (ucast h :: u32) AND 0xF < 0xE \<or> h AND 0xF800 = 0xE000
   \<or> h AND 0xFFF8 = 0x4678 \<or> h AND 0xF800 = 0x4800 \<or> h AND 0xF500 = 0xB100"

lemma thumb16_supported_cases:
  assumes "thumb16_supported h"
  obtains (b1) "h AND 0xF000 = 0xD000" "drop_bit 8 (ucast h :: u32) AND 0xF < 0xE"
  | (b2) "h AND 0xF800 = 0xE000" | (mov) "h AND 0xFFF8 = 0x4678" | (ldr) "h AND 0xF800 = 0x4800"
  | (cb) "h AND 0xF500 = 0xB100"
  using assms unfolding thumb16_supported_def by blast

lemma thumb16_length:
  assumes "h AND m = v" 
  shows "m = 0xF000 \<Longrightarrow> v = 0xD000 \<Longrightarrow> length (relocateInstructionInThumb16 ld32 pc h) = 6"
    "m = 0xF800 \<Longrightarrow> v = 0xE000 \<Longrightarrow> length (relocateInstructionInThumb16 ld32 pc h) = 4"
    "m = 0xFFF8 \<Longrightarrow> v = 0x4678 \<Longrightarrow> length (relocateInstructionInThumb16 ld32 pc h) = 4"
    "m = 0xF800 \<Longrightarrow> v = 0x4800 \<Longrightarrow> length (relocateInstructionInThumb16 ld32 pc h) = 4"
    "m = 0xF500 \<Longrightarrow> v = 0xB100 \<Longrightarrow> length (relocateInstructionInThumb16 ld32 pc h) = 6"
  using mask_sub [OF assms] mask_neq [OF assms]
  by (simp_all add: relocateInstructionInThumb16_def Let_def getTypeInThumb16_def)

text \<open>
  (C16) Running the halfwords emitted for a conditional or unconditional 16-bit branch, \<^verbatim>\<open>CBZ\<close> or \<^verbatim>\<open>CBNZ\<close>, a literal load, or \<^verbatim>\<open>MOV\<close> of the PC to a
  low register, at a word-aligned address, has the effect of the original Thumb instruction at its own
  address.  \<^verbatim>\<open>BX PC\<close>, \<^verbatim>\<open>ADR\<close>, \<^verbatim>\<open>ADD\<close> with the PC and \<^verbatim>\<open>MOV\<close> of the PC to a high register are not covered.
\<close>

theorem thumb16_relocation_correct:
  assumes "thumb16_supported h" "Thumb s" "A AND 1 = 0" "T AND 3 = 0"
    "code16_at (mem s) T (relocateInstructionInThumb16 (load32 (mem s)) (A + 4) h)"
  shows "\<exists>n. cpu_run n (s\<lparr>PC := T\<rparr>) =
    thumb16_exec h (T + 2 * of_nat (length (relocateInstructionInThumb16 (load32 (mem s)) (A + 4) h))) (s\<lparr>PC := A\<rparr>)"
  using assms(1)
proof (cases rule: thumb16_supported_cases)
  case b1
  from reloc_t_b1 [OF assms(2-4) b1 assms(5)] show ?thesis by (auto simp: thumb16_length(1) [OF b1(1)])
next
  case b2
  from reloc_t_b2 [OF assms(2-4) b2 assms(5)] show ?thesis
    by (intro exI [of _ 1]) (simp add: thumb16_length(2) [OF b2])
next
  case mov
  from reloc_t_mov [OF assms(2,4) mov assms(5)] show ?thesis by (auto simp: thumb16_length(3) [OF mov])
next
  case ldr
  from reloc_t_ldr [OF assms(2,4) ldr assms(5)] show ?thesis by (auto simp: thumb16_length(4) [OF ldr])
next
  case cb
  from reloc_t_cb [OF assms(2-4) cb assms(5)] show ?thesis by (auto simp: thumb16_length(5) [OF cb])
qed

theorem thumb16_relocation_correct_witness:
  "\<exists>n. cpu_run n ((demo_state (demo_code16 [0xD000, 0xE003, 0xF8DF, 0xF000, 0x8009, 0]) True)\<lparr>PC := 0x9000\<rparr>) =
    thumb16_exec 0xD002 0x900C ((demo_state (demo_code16 [0xD000, 0xE003, 0xF8DF, 0xF000, 0x8009, 0]) True)\<lparr>PC := 0x8000\<rparr>)"
proof -
  let ?hs = "[0xD000, 0xE003, 0xF8DF, 0xF000, 0x8009, 0] :: u16 list"
  let ?s = "demo_state (demo_code16 ?hs) True"
  have r: "relocateInstructionInThumb16 (load32 (mem ?s)) (0x8000 + 4) 0xD002 = ?hs"
    by (simp add: relocateInstructionInThumb16_def getTypeInThumb16_def sign_fill_def low_half_def high_half_def)
  have c: "code16_at (mem ?s) 0x9000 ?hs" unfolding demo_state_def arm_state.simps by code_simp
  show ?thesis
    using thumb16_relocation_correct [of "0xD002" ?s "0x8000" "0x9000"] c unfolding r
    by (simp add: thumb16_supported_def demo_state_def)
qed

text \<open>
  A relocated Thumb \<open>BX PC\<close> continues at the right address in the wrong instruction set: the emitted
  jump sets bit 0 of the target, while the original switches to the ARM state.
\<close>

theorem bx_pc_thumb_stays_thumb:
  assumes "Thumb s" "A AND 3 = 0" "T AND 3 = 0"
    "code16_at (mem s) T (relocateInstructionInThumb16 ld32 (A + 4) 0x4778)"
  shows "cpu_run 1 (s\<lparr>PC := T\<rparr>) = Some (s\<lparr>PC := A + 4\<rparr>) \<and>
    thumb16_exec 0x4778 (T + 8) (s\<lparr>PC := A\<rparr>) = Some (s\<lparr>PC := A + 4, Thumb := False\<rparr>)"
proof
  have e: "(A + 4) AND 1 = 0" by (rule aligned_bits(1) [OF aligned_offsets(1) [OF assms(2)]])
  have code: "relocateInstructionInThumb16 ld32 (A + 4) 0x4778 =
     [0xF8DF, 0xF000, low_half (A + 4 + 1), high_half (A + 4 + 1)]"
    unfolding or_one_even [OF e, symmetric] by (simp add: relocateInstructionInThumb16_def getTypeInThumb16_def)
  show "cpu_run 1 (s\<lparr>PC := T\<rparr>) = Some (s\<lparr>PC := A + 4\<rparr>)"
    using run_jump16 [OF assms(1,3) e assms(4) [unfolded code]] by simp
  show "thumb16_exec 0x4778 (T + 8) (s\<lparr>PC := A\<rparr>) = Some (s\<lparr>PC := A + 4, Thumb := False\<rparr>)"
    using bx_write_pc_arm [OF aligned_offsets(1) [OF assms(2)]] by (simp add: thumb16_exec_def read_thumb_def)
qed

theorem bx_pc_thumb_stays_thumb_witness:
  "cpu_run 1 ((demo_state (demo_code16 [0xF8DF, 0xF000, 0x8005, 0]) True)\<lparr>PC := 0x9000\<rparr>) =
      Some ((demo_state (demo_code16 [0xF8DF, 0xF000, 0x8005, 0]) True)\<lparr>PC := 0x8004\<rparr>)
   \<and> thumb16_exec 0x4778 0x9008 ((demo_state (demo_code16 [0xF8DF, 0xF000, 0x8005, 0]) True)\<lparr>PC := 0x8000\<rparr>) =
      Some ((demo_state (demo_code16 [0xF8DF, 0xF000, 0x8005, 0]) True)\<lparr>PC := 0x8004, Thumb := False\<rparr>)"
proof -
  let ?hs = "[0xF8DF, 0xF000, 0x8005, 0] :: u16 list"
  let ?s = "demo_state (demo_code16 ?hs) True"
  have r: "relocateInstructionInThumb16 (\<lambda>_. 0) (0x8000 + 4) 0x4778 = ?hs"
    by (simp add: relocateInstructionInThumb16_def getTypeInThumb16_def low_half_def high_half_def)
  have c: "code16_at (mem ?s) 0x9000 ?hs" unfolding demo_state_def arm_state.simps by code_simp
  show ?thesis
    using bx_pc_thumb_stays_thumb [of ?s "0x8000" "0x9000" "\<lambda>_. 0"] c unfolding r
    by (simp add: demo_state_def)
qed

end
