(* ===== verification/Relocate_Thumb32.thy ===== *)
theory Relocate_Thumb32
  imports Relocate_Thumb16
begin

text \<open>
  Correctness of \<^verbatim>\<open>relocateInstructionInThumb32\<close> against \<open>Arm_Isa\<close>: \<open>BL\<close>, \<open>BLX\<close>, both wide branches
  and the wide literal load.  \<open>BL\<close> and the wide branches are covered at word-aligned originals only,
  because the code aligns the PC for them and the architecture does not.
\<close>

section \<open>Branch offsets\<close>

lemma bit_flag: "drop_bit k (x AND push_bit k 1) = of_bool (bit x k)" for x :: "'a::len word"
proof -
  have "drop_bit k (x AND push_bit k 1) = drop_bit k x AND 1" using field_move [of k k x 1] by simp
  then show ?thesis by (simp add: and_one_eq bit_iff_odd_drop_bit odd_iff_mod_2_eq_one of_bool_def)
qed

lemma bit_if_one: "bit (if b then push_bit k 1 else 0 :: 'a::len word) n \<longleftrightarrow> b \<and> n = k \<and> k < LENGTH('a)"
  by (auto simp: bit_simps bit_1_iff)

lemma bit_push_bool: "bit (push_bit k (of_bool b) :: 'a::len word) n \<longleftrightarrow> b \<and> n = k \<and> k < LENGTH('a)"
  by (auto simp: bit_simps bit_1_iff)

lemma bit_scast24: "bit (scast w :: u32) n \<longleftrightarrow> n < 32 \<and> bit w (if n < 23 then n else 23)" for w :: "24 word"
  by (auto simp: bit_simps min_def)

lemma bit_scast20: "bit (scast w :: u32) n \<longleftrightarrow> n < 32 \<and> bit w (if n < 19 then n else 19)" for w :: "20 word"
  by (auto simp: bit_simps min_def)

lemma long_branch_field:
  fixes hi lo :: u32
  defines "s \<equiv> drop_bit 10 (hi AND 0x400)" and "j1 \<equiv> drop_bit 13 (lo AND 0x2000)"
    and "j2 \<equiv> drop_bit 11 (lo AND 0x800)"
  defines "i1 \<equiv> (if j1 XOR s = 0 then 1 else 0) :: u32" and "i2 \<equiv> (if j2 XOR s = 0 then 1 else 0) :: u32"
  shows "sign_fill 25 s (push_bit 24 s OR push_bit 23 i1 OR push_bit 22 i2 OR push_bit 12 (hi AND 0x3FF)
                     OR push_bit 1 (lo AND 0x7FF)) = branch_off25 hi lo"
proof -
  have f: "s = of_bool (bit hi 10)" "j1 = of_bool (bit lo 13)" "j2 = of_bool (bit lo 11)"
    unfolding s_def j1_def j2_def
    using bit_flag [of 10 hi] bit_flag [of 13 lo] bit_flag [of 11 lo] by simp_all
  have i: "i1 = of_bool (bit lo 13 = bit hi 10)" "i2 = of_bool (bit lo 11 = bit hi 10)"
    unfolding i1_def i2_def f by (auto simp: of_bool_def)
  have mk: "hi AND 0x3FF = take_bit 10 hi" "lo AND 0x7FF = take_bit 11 lo"
    by (simp_all add: take_bit_eq_mask mask_eq_exp_minus_1)
  define W :: "24 word" where "W = (if bit hi 10 then push_bit 23 1 else 0) OR (if bit lo 13 = bit hi 10 then push_bit 22 1 else 0)
      OR (if bit lo 11 = bit hi 10 then push_bit 21 1 else 0)
      OR push_bit 11 (ucast (ucast hi :: 10 word)) OR ucast (ucast lo :: 11 word)"
  have p1: "bit (push_bit 11 (ucast (ucast hi :: 10 word)) :: 24 word) k \<longleftrightarrow> 11 \<le> k \<and> k < 21 \<and> bit hi (k - 11)" for k
    by (auto simp: bit_simps)
  have p2: "bit (ucast (ucast lo :: 11 word) :: 24 word) k \<longleftrightarrow> k < 11 \<and> bit lo k" for k
    by (auto simp: bit_simps)
  have w: "bit W k \<longleftrightarrow> (((bit hi 10 \<and> k = 23 \<or> bit lo 13 = bit hi 10 \<and> k = 22) \<or> bit lo 11 = bit hi 10 \<and> k = 21)
      \<or> 11 \<le> k \<and> k < 21 \<and> bit hi (k - 11)) \<or> k < 11 \<and> bit lo k" for k
    unfolding W_def by (simp only: bit_or_iff bit_if_one p1 p2) simp
  show ?thesis
    unfolding f i mk branch_off25_def Let_def W_def [symmetric]
  proof (rule bit_word_eqI)
    fix n assume n: "n < LENGTH(32)"
    show "bit (sign_fill 25 (of_bool (bit hi 10)) (push_bit 24 (of_bool (bit hi 10))
          OR push_bit 23 (of_bool (bit lo 13 = bit hi 10)) OR push_bit 22 (of_bool (bit lo 11 = bit hi 10))
          OR push_bit 12 (take_bit 10 hi) OR push_bit 1 (take_bit 11 lo))) n = bit (push_bit 1 (scast W :: u32)) n"
    proof (cases n)
      case (Suc k)
      consider "k < 11" | "11 \<le> k" "k < 21" | "k = 21" | "k = 22" | "k = 23" | "23 < k" by linarith
      then show ?thesis
        unfolding bit_sign_fill bit_or_iff bit_push_bool bit_push_bit_iff bit_take_bit_iff bit_scast24 w
        using n Suc by cases (simp_all add: bit_1_iff less_diff_conv2)
    next
      case 0
      then show ?thesis unfolding bit_sign_fill bit_or_iff bit_push_bit_iff by simp
    qed
  qed
qed

lemma cond_branch_field:
  fixes hi lo :: u32
  defines "s \<equiv> drop_bit 10 (hi AND 0x400)" and "j1 \<equiv> drop_bit 13 (lo AND 0x2000)"
    and "j2 \<equiv> drop_bit 11 (lo AND 0x800)"
  shows "sign_fill 21 s (push_bit 20 s OR push_bit 19 j2 OR push_bit 18 j1 OR push_bit 12 (hi AND 0x3F)
                     OR push_bit 1 (lo AND 0x7FF)) = branch_off21 hi lo"
proof -
  have f: "s = of_bool (bit hi 10)" "j1 = of_bool (bit lo 13)" "j2 = of_bool (bit lo 11)"
    unfolding s_def j1_def j2_def
    using bit_flag [of 10 hi] bit_flag [of 13 lo] bit_flag [of 11 lo] by simp_all
  have mk: "hi AND 0x3F = take_bit 6 hi" "lo AND 0x7FF = take_bit 11 lo"
    by (simp_all add: take_bit_eq_mask mask_eq_exp_minus_1)
  define W :: "20 word" where "W = (if bit hi 10 then push_bit 19 1 else 0) OR (if bit lo 11 then push_bit 18 1 else 0)
      OR (if bit lo 13 then push_bit 17 1 else 0)
      OR push_bit 11 (ucast (ucast hi :: 6 word)) OR ucast (ucast lo :: 11 word)"
  have p1: "bit (push_bit 11 (ucast (ucast hi :: 6 word)) :: 20 word) k \<longleftrightarrow> 11 \<le> k \<and> k < 17 \<and> bit hi (k - 11)" for k
    by (auto simp: bit_simps)
  have p2: "bit (ucast (ucast lo :: 11 word) :: 20 word) k \<longleftrightarrow> k < 11 \<and> bit lo k" for k
    by (auto simp: bit_simps)
  have w: "bit W k \<longleftrightarrow> (((bit hi 10 \<and> k = 19 \<or> bit lo 11 \<and> k = 18) \<or> bit lo 13 \<and> k = 17)
      \<or> 11 \<le> k \<and> k < 17 \<and> bit hi (k - 11)) \<or> k < 11 \<and> bit lo k" for k
    unfolding W_def by (simp only: bit_or_iff bit_if_one p1 p2) simp
  show ?thesis
    unfolding f mk branch_off21_def Let_def W_def [symmetric]
  proof (rule bit_word_eqI)
    fix n assume n: "n < LENGTH(32)"
    show "bit (sign_fill 21 (of_bool (bit hi 10)) (push_bit 20 (of_bool (bit hi 10))
          OR push_bit 19 (of_bool (bit lo 11)) OR push_bit 18 (of_bool (bit lo 13))
          OR push_bit 12 (take_bit 6 hi) OR push_bit 1 (take_bit 11 lo))) n = bit (push_bit 1 (scast W :: u32)) n"
    proof (cases n)
      case (Suc k)
      consider "k < 11" | "11 \<le> k" "k < 17" | "k = 17" | "k = 18" | "k = 19" | "19 < k" by linarith
      then show ?thesis
        unfolding bit_sign_fill bit_or_iff bit_push_bool bit_push_bit_iff bit_take_bit_iff bit_scast20 w
        using n Suc by cases (simp_all add: bit_1_iff less_diff_conv2)
    next
      case 0
      then show ?thesis unfolding bit_sign_fill bit_or_iff bit_push_bit_iff by simp
    qed
  qed
qed

section \<open>Sequences\<close>

lemma branch_off_even: "branch_off25 hi lo AND 1 = 0" "branch_off21 hi lo AND 1 = 0"
  by (simp_all only: branch_off25_def branch_off21_def Let_def push1_even)

lemma and_push16_low: "push_bit 16 (ucast a) AND (ucast m :: u32) = 0" for a m :: u16
  by (rule bit_word_eqI) (auto simp: bit_simps dest: bit_imp_le_length)

lemma ins32_mask:
  fixes h1 h2 m1 m2 :: u16
  shows "(push_bit 16 (ucast h1) OR ucast h2) AND (push_bit 16 (ucast m1) OR ucast m2)
           = (push_bit 16 (ucast (h1 AND m1)) OR ucast (h2 AND m2) :: u32)"
  by (rule bit_word_eqI) (auto simp: bit_simps dest: bit_imp_le_length)

lemma t_step_adr_lr:
  assumes "Thumb s" "PC s AND 3 = 0" "load16 (mem s) (PC s) = 0xF20F" "load16 (mem s) (PC s + 2) = 0x0E09"
  shows "cpu_step s = Some (s\<lparr>R := (R s)(14 := PC s + 13), PC := PC s + 4\<rparr>)"
  using assms aligned_offsets(1) [OF assms(2)]
  by (simp add: thumb_isa align4_aligned) (simp only: add.commute)

lemma run_call16:
  assumes "Thumb s" "T AND 3 = 0"
    "code16_at (mem s) T ([0xF20F, 0x0E09] @ [0xF8DF, 0xF000, low_half v, high_half v])"
  shows "cpu_run 2 (s\<lparr>PC := T\<rparr>) = bx_write_pc v (s\<lparr>R := (R s)(14 := T + 13), PC := T + 4\<rparr>)"
proof -
  let ?s1 = "s\<lparr>R := (R s)(14 := T + 13), PC := T + 4\<rparr>"
  have "cpu_step (s\<lparr>PC := T\<rparr>) = Some ?s1" using t_step_adr_lr [of "s\<lparr>PC := T\<rparr>"] assms by simp
  moreover have "cpu_step ?s1 = bx_write_pc v ?s1"
    using t_step_jump [of ?s1 v] assms aligned_offsets(1) [OF assms(2)] by (simp add: add.assoc)
  ultimately show ?thesis by (simp add: numeral_2_eq_2 split: option.split)
qed

lemma or_one_13: "T AND 3 = 0 \<Longrightarrow> (T + 12) OR 1 = T + 13" for T :: u32
  using or_one_even [of "T + 12"] aligned_bits(1) [OF aligned_offsets(3)] by (simp add: add.assoc)

lemma push16_inj: "push_bit 16 (ucast a) = (push_bit 16 (ucast b) :: u32) \<Longrightarrow> a = b" for a b :: u16
proof -
  assume e: "push_bit 16 (ucast a) = (push_bit 16 (ucast b) :: u32)"
  have "bit a n = bit b n" if "n < 16" for n
    using arg_cong [OF e, of "\<lambda>x. bit x (n + 16)"] that by (simp add: bit_simps)
  then show "a = b" by (intro bit_word_eqI) simp
qed

lemma type32_branches:
  fixes h1 h2 :: u16
  defines "ins \<equiv> push_bit 16 (ucast h1) OR ucast h2 :: u32"
  assumes "h1 AND 0xF800 = 0xF000"
  shows "h2 AND 0xD000 = 0xC000 \<Longrightarrow> getTypeInThumb32 ins = BLX_THUMB32"
    "h2 AND 0xD000 = 0xD000 \<Longrightarrow> getTypeInThumb32 ins = BL_THUMB32"
    "h2 AND 0xD000 = 0x9000 \<Longrightarrow> getTypeInThumb32 ins = B2_THUMB32"
    "h2 AND 0xD000 = 0x8000 \<Longrightarrow> h1 AND 0x380 \<noteq> 0x380 \<Longrightarrow> getTypeInThumb32 ins = B1_THUMB32"
proof -
  have x: "ins AND 0xF800D000 = 0xF0000000 OR ucast (h2 AND 0xD000)"
    using ins32_mask [of h1 h2 "0xF800" "0xD000"] assms(2) by (simp add: ins_def)
  show "getTypeInThumb32 ins = BLX_THUMB32" if "h2 AND 0xD000 = 0xC000"
    using x that by (simp add: getTypeInThumb32_def mask_neq [of ins "0xF800D000" "0xF000C000"])
  show "getTypeInThumb32 ins = BL_THUMB32" if "h2 AND 0xD000 = 0xD000"
    using x that by (simp add: getTypeInThumb32_def mask_neq [of ins "0xF800D000" "0xF000D000"])
  show "getTypeInThumb32 ins = B2_THUMB32" if "h2 AND 0xD000 = 0x9000"
    using x that by (simp add: getTypeInThumb32_def mask_neq [of ins "0xF800D000" "0xF0009000"])
  show "getTypeInThumb32 ins = B1_THUMB32" if "h2 AND 0xD000 = 0x8000" "h1 AND 0x380 \<noteq> 0x380"
  proof -
    have "ins AND 0x03800000 = push_bit 16 (ucast (h1 AND 0x380))"
      using ins32_mask [of h1 h2 "0x380" 0] by (simp add: ins_def)
    moreover have "push_bit 16 (ucast (h1 AND 0x380)) \<noteq> (push_bit 16 (ucast (0x380 :: u16)) :: u32)"
      using that(2) push16_inj by blast
    ultimately have "ins AND 0xFFF0D000 \<noteq> 0xF3B08000"
      using mask_sub [of ins "0xFFF0D000" "0xF3B08000" "0x03800000"] by auto
    then show ?thesis using x that(1) by (simp add: getTypeInThumb32_def)
  qed
qed

lemma reloc_t_bl:
  assumes "Thumb s" "A AND 3 = 0" "T AND 3 = 0" "h1 AND 0xF800 = 0xF000" "h2 AND 0xD000 = 0xD000"
    "code16_at (mem s) T (relocateInstructionInThumb32 ld32 (A + 4) h1 h2)"
  shows "cpu_run 2 (s\<lparr>PC := T\<rparr>) = thumb32_exec h1 h2 (T + 12) (s\<lparr>PC := A\<rparr>)"
proof -
  let ?v = "A + 4 + branch_off25 (ucast h1) (ucast h2)"
  note m = ucast_mask [OF assms(4), simplified] ucast_mask [OF assms(5), simplified]
  have v: "?v AND 1 = 0" using aligned_bits(1) [OF assms(2)] by (intro add_even branch_off_even) simp_all
  have code: "relocateInstructionInThumb32 ld32 (A + 4) h1 h2 =
      [0xF20F, 0x0E09] @ [0xF8DF, 0xF000, low_half (?v + 1), high_half (?v + 1)]"
    unfolding relocateInstructionInThumb32_def Let_def long_branch_field type32_branches(2) [OF assms(4,5)]
    using aligned_offsets(1) [OF assms(2)] by (simp add: ALIGN_PC_align4 align4_aligned)
  show ?thesis
    using run_call16 [OF assms(1,3) assms(6) [unfolded code]] bx_write_pc_thumb [OF v] assms(1) or_one_13 [OF assms(3)]
    by (simp add: thumb32_exec_def Let_def mask_sub [OF m(1)] mask_sub [OF m(2)])
qed

lemma reloc_t_bw:
  assumes "Thumb s" "A AND 3 = 0" "T AND 3 = 0" "h1 AND 0xF800 = 0xF000" "h2 AND 0xD000 = 0x9000"
    "code16_at (mem s) T (relocateInstructionInThumb32 ld32 (A + 4) h1 h2)"
  shows "cpu_run 1 (s\<lparr>PC := T\<rparr>) = thumb32_exec h1 h2 (T + 8) (s\<lparr>PC := A\<rparr>)"
proof -
  let ?v = "A + 4 + branch_off25 (ucast h1) (ucast h2)"
  note m = ucast_mask [OF assms(4), simplified] ucast_mask [OF assms(5), simplified]
  have v: "?v AND 1 = 0" using aligned_bits(1) [OF assms(2)] by (intro add_even branch_off_even) simp_all
  have code: "relocateInstructionInThumb32 ld32 (A + 4) h1 h2 =
      [0xF8DF, 0xF000, low_half (?v + 1), high_half (?v + 1)]"
    unfolding relocateInstructionInThumb32_def Let_def long_branch_field type32_branches(3) [OF assms(4,5)]
    using aligned_offsets(1) [OF assms(2)] by (simp add: ALIGN_PC_align4 align4_aligned)
  show ?thesis
    using run_jump16 [OF assms(1,3) v assms(6) [unfolded code]]
    by (simp add: thumb32_exec_def Let_def mask_sub [OF m(1)] mask_sub [OF m(2)])
qed

lemma field_up: "push_bit a (x AND push_bit b m) = push_bit (a + b) (drop_bit b x AND m)" for x :: "'a::len word"
  by (rule bit_word_eqI) (auto simp: bit_simps dest: bit_imp_le_length)

lemma cond_field:
  fixes h :: u16
  shows "push_bit 2 (h AND 0x3C0) = push_bit 8 (drop_bit 6 h AND 0xF)"
    and "h AND 0x380 \<noteq> 0x380 \<Longrightarrow> drop_bit 6 h AND 0xF < 14"
    and "h AND 0x380 \<noteq> 0x380 \<Longrightarrow> (ucast h :: u32) AND 0x380 \<noteq> 0x380"
proof -
  show "push_bit 2 (h AND 0x3C0) = push_bit 8 (drop_bit 6 h AND 0xF)" using field_up [of 2 h 6 15] by simp
  assume n: "h AND 0x380 \<noteq> 0x380"
  let ?x = "drop_bit 6 h AND 0xF"
  have e: "h AND 0x380 = push_bit 6 (?x AND 14)" using field_up [of 0 h 6 14] by (simp add: and.assoc)
  show "?x < 14"
  proof (rule ccontr)
    assume "\<not> ?x < 14"
    moreover have "?x \<le> 15" by (rule word_and_le1)
    ultimately have "unat ?x = 14 \<or> unat ?x = 15" unfolding word_less_nat_alt word_le_nat_alt by simp arith
    then have "?x = 14 \<or> ?x = 15" by (simp add: word_eq_iff_unsigned [where 'a = nat])
    then have "?x AND 14 = 14" by (elim disjE) (simp_all only:, simp_all)
    then have "h AND 0x380 = 0x380" unfolding e by simp
    then show False using n by simp
  qed
  have "unat ((ucast h :: u32) AND 0x380) = unat (h AND 0x380)"
    using unat_ucast16 [of "h AND 0x380"] by (simp add: unsigned_and_eq)
  then show "(ucast h :: u32) AND 0x380 \<noteq> 0x380" using n by (auto simp: word_eq_iff_unsigned [where 'a = nat])
qed

lemma bcond_shape:
  fixes c :: u16
  assumes "c < 14"
  shows "\<not> wide (0xD000 OR push_bit 8 c)"
    "thumb16_exec (0xD000 OR push_bit 8 c) (T + 2) (s\<lparr>PC := T\<rparr>) =
       Some (s\<lparr>PC := if cond_passed (ucast c) s then T + 4 else T + 2\<rparr>)"
proof -
  have "unat c \<in> {..<14}" using assms by (simp add: word_less_nat_alt)
  also have "{..<14} = {0,1,2,3,4,5,6,7,8,9,10,11,12,13::nat}" by (simp add: lessThan_nat_numeral lessThan_Suc insert_commute)
  finally have "word_of_nat (unat c) \<in> (word_of_nat :: nat \<Rightarrow> u16) ` {0,1,2,3,4,5,6,7,8,9,10,11,12,13}" by blast
  then have c: "c \<in> {0,1,2,3,4,5,6,7,8,9,10,11,12,13}" by simp
  show "\<not> wide (0xD000 OR push_bit 8 c)" using c by (elim insertE; simp add: wide_def)
  show "thumb16_exec (0xD000 OR push_bit 8 c) (T + 2) (s\<lparr>PC := T\<rparr>) =
       Some (s\<lparr>PC := if cond_passed (ucast c) s then T + 4 else T + 2\<rparr>)"
    using c by (elim insertE; simp add: thumb16_exec_def)
qed

lemma reloc_t_bcondw:
  assumes "Thumb s" "A AND 3 = 0" "T AND 3 = 0" "h1 AND 0xF800 = 0xF000" "h2 AND 0xD000 = 0x8000"
    "h1 AND 0x380 \<noteq> 0x380" "code16_at (mem s) T (relocateInstructionInThumb32 ld32 (A + 4) h1 h2)"
  shows "cpu_run 2 (s\<lparr>PC := T\<rparr>) = thumb32_exec h1 h2 (T + 12) (s\<lparr>PC := A\<rparr>)"
proof -
  let ?v = "A + 4 + branch_off21 (ucast h1) (ucast h2)"
  let ?c = "drop_bit 6 h1 AND 0xF"
  note m = ucast_mask [OF assms(4), simplified] ucast_mask [OF assms(5), simplified]
  have v: "?v AND 1 = 0" using aligned_bits(1) [OF assms(2)] by (intro add_even branch_off_even) simp_all
  have code: "relocateInstructionInThumb32 ld32 (A + 4) h1 h2 =
      [0xD000 OR push_bit 8 ?c, 0xE003] @ [0xF8DF, 0xF000, low_half (?v + 1), high_half (?v + 1)]"
    unfolding relocateInstructionInThumb32_def Let_def cond_branch_field type32_branches(4) [OF assms(4-6)] cond_field(1)
    using aligned_offsets(1) [OF assms(2)] by (simp add: ALIGN_PC_align4 align4_aligned)
  have c: "?c < 14" by (rule cond_field(2) [OF assms(6)])
  have u: "(ucast ?c :: u32) = drop_bit 6 (ucast h1) AND 0xF" by (simp add: unsigned_and_eq ucast_drop16)
  have n: "(ucast h1 :: u32) AND 0x380 \<noteq> 0x380" by (rule cond_field(3) [OF assms(6)])
  show ?thesis
    using run_cond_jump [OF assms(1,3) v assms(7) [unfolded code] bcond_shape [OF c]] n
    unfolding u thumb32_exec_def Let_def by (simp add: mask_sub [OF m(1)] mask_sub [OF m(2)])
qed

lemma less16_cases_u16:
  fixes r :: u16
  assumes "r < 16"
  shows "r \<in> {0,1,2,3,4,5,6,7,8,9,10,11,12,13,14,15}"
proof -
  have "unat r \<in> {..<16}" using assms by (simp add: word_less_nat_alt)
  also have "{..<16} = {0,1,2,3,4,5,6,7,8,9,10,11,12,13,14,15::nat}"
    by (simp add: lessThan_nat_numeral lessThan_Suc insert_commute)
  finally have "word_of_nat (unat r) \<in> (word_of_nat :: nat \<Rightarrow> u16) ` {0,1,2,3,4,5,6,7,8,9,10,11,12,13,14,15}" by blast
  then show ?thesis by simp
qed

lemma rt_field:
  fixes r :: u16
  assumes "r < 16"
  shows "ucast (push_bit 12 r OR 4) AND (0xFFF :: u32) = 4" "unat (drop_bit 12 (ucast (push_bit 12 r OR 4) :: u32)) = unat r"
  using less16_cases_u16 [OF assms] by (elim insertE; simp)+

lemma t_step_ldrw:
  fixes r :: u16
  assumes "Thumb s" "PC s AND 3 = 0" "code16_at (mem s) (PC s) [0xF8DF, push_bit 12 r OR 4]" "r < 16"
  shows "cpu_step s = write_reg (unat r) (load32 (mem s) (PC s + 8)) (PC s + 4) s"
proof -
  have "PC s + 4 + 4 = PC s + 8" by simp
  then show ?thesis
    using assms aligned_offsets(1) [OF assms(2)] rt_field [OF assms(4)]
    by (simp add: cpu_step_def Let_def wide_def thumb32_exec_def align4_aligned) (simp only: add.commute)
qed

lemma run_loadw:
  assumes "Thumb s" "T AND 3 = 0" "r < 16"
    "code16_at (mem s) T [0xF8DF, push_bit 12 r OR 4, 0xBF00, 0xE001, low_half v, high_half v]"
  shows "\<exists>n. cpu_run n (s\<lparr>PC := T\<rparr>) = write_reg (unat r) v (T + 12) (s\<lparr>PC := T\<rparr>)"
proof -
  have v: "load32 (mem s) (T + 8) = v" using assms(4) by (intro load32_halves) (simp_all add: add.assoc)
  have 1: "cpu_step (s\<lparr>PC := T\<rparr>) = write_reg (unat r) v (T + 4) (s\<lparr>PC := T\<rparr>)"
    using t_step_ldrw [of "s\<lparr>PC := T\<rparr>" r] assms v by simp
  show ?thesis
  proof (cases "unat r = 15")
    case True
    then show ?thesis using 1 by (intro exI [of _ 1]) (simp add: write_reg_def split: option.split)
  next
    case False
    let ?s1 = "s\<lparr>R := (R s)(unat r := v), PC := T + 4\<rparr>"
    have "cpu_step ?s1 = Some (?s1\<lparr>PC := T + 6\<rparr>)"
      using t_step_b(4) [of ?s1] assms(1,4) by (simp add: add.assoc)
    moreover have "cpu_step (?s1\<lparr>PC := T + 6\<rparr>) = Some (?s1\<lparr>PC := T + 12\<rparr>)"
      using t_step_b(1) [of "?s1\<lparr>PC := T + 6\<rparr>"] assms(1,4) by (simp add: add.assoc)
    ultimately show ?thesis using 1 False by (intro exI [of _ 3]) (simp add: numeral_3_eq_3 write_reg_def)
  qed
qed

lemma reloc_t_ldrw:
  assumes "Thumb s" "T AND 3 = 0" "h1 AND 0xFF7F = 0xF85F"
    "code16_at (mem s) T (relocateInstructionInThumb32 (load32 (mem s)) (A + 4) h1 h2)"
  shows "\<exists>n. cpu_run n (s\<lparr>PC := T\<rparr>) = thumb32_exec h1 h2 (T + 12) (s\<lparr>PC := A\<rparr>)"
proof -
  let ?b = "align4 (A + 4)" and ?imm = "ucast h2 AND 0xFFF"
  let ?v = "load32 (mem s) (if ucast h1 AND 0x80 \<noteq> (0 :: u32) then ?b + ?imm else ?b - ?imm)"
  let ?r = "drop_bit 12 h2"
  note m = ucast_mask [OF assms(3), simplified]
  have q: "(push_bit 16 (ucast h1) OR ucast h2 :: u32) AND 0xFF7F0000 = 0xF85F0000"
    using ins32_mask [of h1 h2 "0xFF7F" 0] assms(3) by simp
  have z: "drop_bit 7 (ucast h1 AND (0x80 :: u32)) = 0 \<longleftrightarrow> ucast h1 AND (0x80 :: u32) = 0"
    using drop_field_zero [of 7 "ucast h1 :: u32" 1] by simp
  have code: "relocateInstructionInThumb32 (load32 (mem s)) (A + 4) h1 h2 =
      [0xF8DF, push_bit 12 ?r OR 4, 0xBF00, 0xE001, low_half ?v, high_half ?v]"
    unfolding relocateInstructionInThumb32_def Let_def getTypeInThumb32_def z
    by (simp add: mask_sub [OF q] mask_neq [OF q] ALIGN_PC_align4)
  have r: "?r < 16"
    using less_mult_imp_div_less [of "unat h2" 16 4096] unsigned_less [of h2, where 'a = nat]
    by (simp add: word_less_nat_alt drop_bit_eq_div unat_div)
  have "thumb32_exec h1 h2 (T + 12) (s\<lparr>PC := A\<rparr>) = write_reg (unat ?r) ?v (T + 12) (s\<lparr>PC := A\<rparr>)"
    using unat_ucast16 [of ?r]
    by (simp add: thumb32_exec_def Let_def mask_sub [OF m] mask_neq [OF m] ucast_drop16)
  then show ?thesis
    using run_loadw [OF assms(1,2) r assms(4) [unfolded code]] write_reg_pc [of _ _ _ A s T] by simp
qed

lemma blx_off_aligned:
  fixes h1 h2 :: u16
  assumes "h2 AND 1 = 0"
  shows "branch_off25 (ucast h1) (ucast h2) AND 3 = 0"
    and "ucast h2 AND (0x7FE :: u32) = ucast h2 AND 0x7FF"
proof -
  have n: "\<not> bit h2 0" using assms by (simp add: bit_0 and_one_eq even_iff_mod_2_eq_zero)
  have b: "\<not> bit (branch_off25 (ucast h1) (ucast h2)) 1"
    unfolding long_branch_field [symmetric] bit_sign_fill bit_or_iff bit_push_bit_iff
    using n by (simp add: bit_simps bit_0 [symmetric])
  have "branch_off25 (ucast h1) (ucast h2) AND 2 = 0"
    using bit_flag [of 1 "branch_off25 (ucast h1) (ucast h2)"] b
      drop_field_zero [of 1 "branch_off25 (ucast h1) (ucast h2)" 1] by simp
  then have "branch_off25 (ucast h1) (ucast h2) AND (1 OR 2) = 0"
    unfolding bit.conj_disj_distrib branch_off_even(1) by simp
  then show "branch_off25 (ucast h1) (ucast h2) AND 3 = 0" by simp
  have e: "(0x7FF :: u32) = 0x7FE OR 1" by simp
  have "ucast h2 AND (1 :: u32) = 0" using ucast_mask [OF assms] by simp
  then show "ucast h2 AND (0x7FE :: u32) = ucast h2 AND 0x7FF"
    unfolding e bit.conj_disj_distrib by simp
qed

lemma reloc_t_blx:
  assumes "Thumb s" "A AND 1 = 0" "T AND 3 = 0" "h1 AND 0xF800 = 0xF000" "h2 AND 0xD001 = 0xC000"
    "code16_at (mem s) T (relocateInstructionInThumb32 ld32 (A + 4) h1 h2)"
  shows "cpu_run 2 (s\<lparr>PC := T\<rparr>) = thumb32_exec h1 h2 (T + 12) (s\<lparr>PC := A\<rparr>)"
proof -
  let ?v = "align4 (A + 4) + branch_off25 (ucast h1) (ucast h2)"
  have h2: "h2 AND 0xD000 = 0xC000" "h2 AND 1 = 0"
    using mask_sub [OF assms(5), of "0xD000"] mask_sub [OF assms(5), of 1] by simp_all
  note m = ucast_mask [OF assms(4), simplified] ucast_mask [OF assms(5), simplified]
  have "align4 (A + 4) AND 3 = 0" by (simp add: align4_def and.assoc)
  then have v: "?v AND 3 = 0" by (intro add_aligned blx_off_aligned h2)
  have code: "relocateInstructionInThumb32 ld32 (A + 4) h1 h2 =
      [0xF20F, 0x0E09] @ [0xF8DF, 0xF000, low_half ?v, high_half ?v]"
    unfolding relocateInstructionInThumb32_def Let_def blx_off_aligned(2) [OF h2(2)] long_branch_field
      type32_branches(1) [OF assms(4) h2(1)]
    by (simp add: ALIGN_PC_align4)
  show ?thesis
    using run_call16 [OF assms(1,3) assms(6) [unfolded code]] bx_write_pc_arm [OF v] or_one_13 [OF assms(3)]
    by (simp add: thumb32_exec_def Let_def mask_sub [OF m(1)] mask_sub [OF m(2)] mask_neq [OF m(2)])
qed

section \<open>The supported encodings together\<close>

definition thumb32_supported :: "u32 \<Rightarrow> u16 \<Rightarrow> u16 \<Rightarrow> bool" where
  "thumb32_supported A h1 h2 \<longleftrightarrow>
     h1 AND 0xFF7F = 0xF85F
   \<or> h1 AND 0xF800 = 0xF000 \<and> h2 AND 0xD001 = 0xC000
   \<or> A AND 3 = 0 \<and> h1 AND 0xF800 = 0xF000 \<and>
       (h2 AND 0xD000 = 0xD000 \<or> h2 AND 0xD000 = 0x9000 \<or> h2 AND 0xD000 = 0x8000 \<and> h1 AND 0x380 \<noteq> 0x380)"

lemma thumb32_supported_cases:
  assumes "thumb32_supported A h1 h2"
  obtains (ldr) "h1 AND 0xFF7F = 0xF85F"
  | (blx) "h1 AND 0xF800 = 0xF000" "h2 AND 0xD001 = 0xC000"
  | (bl) "A AND 3 = 0" "h1 AND 0xF800 = 0xF000" "h2 AND 0xD000 = 0xD000"
  | (bw) "A AND 3 = 0" "h1 AND 0xF800 = 0xF000" "h2 AND 0xD000 = 0x9000"
  | (bc) "A AND 3 = 0" "h1 AND 0xF800 = 0xF000" "h2 AND 0xD000 = 0x8000" "h1 AND 0x380 \<noteq> 0x380"
  using assms unfolding thumb32_supported_def by blast

lemma thumb32_length:
  "getTypeInThumb32 (push_bit 16 (ucast h1) OR ucast h2) = t \<Longrightarrow>
     length (relocateInstructionInThumb32 ld32 pc h1 h2) =
       (if t = B2_THUMB32 then 4 else if t \<in> {TBB_THUMB32, TBH_THUMB32} then 14
        else if t \<in> {BLX_THUMB32, BL_THUMB32, B1_THUMB32, ADR1_THUMB32, ADR2_THUMB32, LDR_THUMB32} then 6 else 2)"
  by (cases t) (simp_all add: relocateInstructionInThumb32_def Let_def)

lemma type32_ldr: "h1 AND 0xFF7F = 0xF85F \<Longrightarrow> getTypeInThumb32 (push_bit 16 (ucast h1) OR ucast h2) = LDR_THUMB32" for h1 h2 :: u16
proof -
  assume "h1 AND 0xFF7F = 0xF85F"
  then have q: "(push_bit 16 (ucast h1) OR ucast h2 :: u32) AND 0xFF7F0000 = 0xF85F0000"
    using ins32_mask [of h1 h2 "0xFF7F" 0] by simp
  show ?thesis unfolding getTypeInThumb32_def by (simp add: mask_sub [OF q] mask_neq [OF q])
qed

text \<open>
  (C17) Running the halfwords emitted at a word-aligned address for a \<^verbatim>\<open>BLX\<close> or a wide literal load at any halfword address, or for a \<^verbatim>\<open>BL\<close>, \<^verbatim>\<open>B.W\<close> or
  conditional \<^verbatim>\<open>B.W\<close> at a word-aligned address, has the effect of the original instruction, including the return
  address and the switch to the ARM state.
\<close>

theorem thumb32_relocation_correct:
  assumes "thumb32_supported A h1 h2" "Thumb s" "A AND 1 = 0" "T AND 3 = 0"
    "code16_at (mem s) T (relocateInstructionInThumb32 (load32 (mem s)) (A + 4) h1 h2)"
  shows "\<exists>n. cpu_run n (s\<lparr>PC := T\<rparr>) =
    thumb32_exec h1 h2 (T + 2 * of_nat (length (relocateInstructionInThumb32 (load32 (mem s)) (A + 4) h1 h2)))
      (s\<lparr>PC := A\<rparr>)"
  using assms(1)
proof (cases rule: thumb32_supported_cases)
  case ldr
  from reloc_t_ldrw [OF assms(2,4) ldr assms(5)] show ?thesis by (simp add: thumb32_length [OF type32_ldr [OF ldr]])
next
  case blx
  have "h2 AND 0xD000 = 0xC000" using mask_sub [OF blx(2), of "0xD000"] by simp
  from thumb32_length [OF type32_branches(1) [OF blx(1) this]] show ?thesis
    using reloc_t_blx [OF assms(2-4) blx assms(5)] by auto
next
  case bl
  from thumb32_length [OF type32_branches(2) [OF bl(2,3)]] show ?thesis
    using reloc_t_bl [OF assms(2) bl(1) assms(4) bl(2,3) assms(5)] by auto
next
  case bw
  from thumb32_length [OF type32_branches(3) [OF bw(2,3)]] show ?thesis
    using reloc_t_bw [OF assms(2) bw(1) assms(4) bw(2,3) assms(5)] by (intro exI [of _ 1]) simp
next
  case bc
  from thumb32_length [OF type32_branches(4) [OF bc(2,3,4)]] show ?thesis
    using reloc_t_bcondw [OF assms(2) bc(1) assms(4) bc(2,3,4) assms(5)] by auto
qed

theorem thumb32_relocation_correct_witness:
  "\<exists>n. cpu_run n ((demo_state (demo_code16 [0xF20F, 0x0E09, 0xF8DF, 0xF000, 0x8105, 0]) True)\<lparr>PC := 0x9000\<rparr>) =
    thumb32_exec 0xF000 0xF880 0x900C ((demo_state (demo_code16 [0xF20F, 0x0E09, 0xF8DF, 0xF000, 0x8105, 0]) True)\<lparr>PC := 0x8000\<rparr>)"
proof -
  let ?hs = "[0xF20F, 0x0E09, 0xF8DF, 0xF000, 0x8105, 0] :: u16 list"
  let ?s = "demo_state (demo_code16 ?hs) True"
  have r: "relocateInstructionInThumb32 (load32 (mem ?s)) (0x8000 + 4) 0xF000 0xF880 = ?hs"
    by (simp add: relocateInstructionInThumb32_def getTypeInThumb32_def sign_fill_def low_half_def high_half_def ALIGN_PC_def)
  have c: "code16_at (mem ?s) 0x9000 ?hs" unfolding demo_state_def arm_state.simps by code_simp
  show ?thesis
    using thumb32_relocation_correct [of "0x8000" "0xF000" "0xF880" ?s "0x9000"] c unfolding r
    by (simp add: thumb32_supported_def demo_state_def)
qed

end
