(* ===== verification/InlineHook_Exec.thy ===== *)
theory InlineHook_Exec
  imports InlineHook_Table Relocate_Thumb32
begin

text \<open>
  What the hook library does to the running program: the patch it writes redirects the target to the
  replacement, unhooking restores the bytes, the PCs of stopped threads are translated back and forth,
  no thread stays stopped, and the trampoline still executes the original.
\<close>

section \<open>Memory\<close>

lemma write_bytes_other:
  "(\<And>i. i < length bs \<Longrightarrow> x \<noteq> a + of_nat i) \<Longrightarrow> write_bytes a bs m x = m x"
proof (induction bs arbitrary: a m)
  case (Cons b bs)
  have "x \<noteq> a" using Cons.prems [of 0] by simp
  moreover have "write_bytes (a + 1) bs (m(a := b)) x = (m(a := b)) x"
    using Cons.prems [of "Suc _"] by (intro Cons.IH) (simp add: add.assoc)
  ultimately show ?case by simp
qed simp

lemma of_nat_less_inj:
  assumes "i < 2 ^ 32" "j < 2 ^ 32"
  shows "(of_nat i :: u32) = of_nat j \<longleftrightarrow> i = j"
  using assms by (simp add: word_of_nat_eq_iff take_bit_nat_eq_self)

lemma write_bytes_nth:
  "length bs \<le> 2 ^ 32 \<Longrightarrow> i < length bs \<Longrightarrow> write_bytes a bs m (a + of_nat i) = bs ! i"
proof (induction bs arbitrary: a m i)
  case (Cons b bs)
  show ?case
  proof (cases i)
    case 0
    have "write_bytes (a + 1) bs (m(a := b)) a = (m(a := b)) a"
    proof (rule write_bytes_other)
      fix j assume "j < length bs"
      then have "(of_nat (Suc j) :: u32) \<noteq> of_nat 0" using Cons.prems(1) of_nat_less_inj [of "Suc j" 0] by simp
      then show "a \<noteq> a + 1 + of_nat j" by (simp add: add.assoc)
    qed
    then show ?thesis using 0 by simp
  next
    case (Suc k)
    have "write_bytes (a + 1) bs (m(a := b)) (a + 1 + of_nat k) = bs ! k"
      by (rule Cons.IH) (use Cons.prems Suc in simp_all)
    then show ?thesis using Suc by (simp add: add.assoc)
  qed
qed simp

lemma read_write_bytes: "length bs \<le> 2 ^ 32 \<Longrightarrow> read_bytes (write_bytes a bs m) a (length bs) = bs"
  by (intro nth_equalityI) (simp_all add: read_bytes_def write_bytes_nth)

lemma length_read_bytes [simp]: "length (read_bytes m a n) = n"
  by (simp add: read_bytes_def)

lemma write_back:
  assumes "n \<le> 2 ^ 32" "\<And>x. (\<And>i. i < n \<Longrightarrow> x \<noteq> a + of_nat i) \<Longrightarrow> m' x = m x"
  shows "write_bytes a (read_bytes m a n) m' = m"
proof
  fix x
  show "write_bytes a (read_bytes m a n) m' x = m x"
  proof (cases "\<exists>i < n. x = a + of_nat i")
    case True
    then obtain i where "i < n" "x = a + of_nat i" by blast
    then show ?thesis using assms(1) write_bytes_nth [of "read_bytes m a n" i a m'] by (simp add: read_bytes_def)
  next
    case False
    then show ?thesis using assms(2) [of x] write_bytes_other [of "read_bytes m a n" x a m'] by auto
  qed
qed

section \<open>Pages\<close>

lemma PAGE_START_in:
  assumes "P AND 0xFFF = 0" "r < 0x1000"
  shows "PAGE_START (P + r) = P"
proof -
  have m: "(0xFFF :: u32) = mask 12" by (simp add: mask_eq_exp_minus_1)
  have "take_bit 12 r = r" using assms(2)
    by (simp add: word_eq_iff_unsigned [where 'a = nat] unsigned_take_bit_eq word_less_nat_alt take_bit_nat_eq_self)
  then have r: "0xFFF AND r = r" by (simp add: take_bit_eq_mask m and.commute)
  have "P AND r = (P AND 0xFFF) AND r" by (simp only: and.assoc r)
  then have "P AND r = 0" using assms(1) by simp
  then have "PAGE_START (P + r) = (NOT 0xFFF AND P) OR (NOT 0xFFF AND r)"
    by (simp only: PAGE_START_def disjoint_or_add [symmetric] bit.conj_disj_distrib)
  moreover have "NOT 0xFFF AND r = (NOT 0xFFF AND 0xFFF) AND r" by (simp only: and.assoc r)
  moreover have "NOT 0xFFF AND P = P"
    using bit.conj_disj_distrib2 [of "0xFFF" "NOT 0xFFF" P] assms(1) by (simp add: and.commute)
  ultimately show ?thesis by simp
qed

lemma page_split: "x = PAGE_START x + (x AND 0xFFF)" "PAGE_START x AND 0xFFF = 0" "x AND 0xFFF < 0x1000"
proof -
  show z: "PAGE_START x AND 0xFFF = 0" by (simp add: PAGE_START_def and.assoc and.left_commute and.commute)
  have "PAGE_START x AND (x AND 0xFFF) = 0" using z by (simp add: and.assoc [symmetric] and.commute [of x "0xFFF"])
  then have "PAGE_START x + (x AND 0xFFF) = PAGE_START x OR (x AND 0xFFF)" by (simp add: disjoint_or_add)
  also have "\<dots> = x" using bit.conj_disj_distrib2 [of "NOT 0xFFF" "0xFFF" x] by (simp add: PAGE_START_def and.commute)
  finally show "x = PAGE_START x + (x AND 0xFFF)" ..
  have "x AND 0xFFF \<le> 0xFFF" by (rule word_and_le1)
  then show "x AND 0xFFF < 0x1000" by (rule le_less_trans) simp
qed

lemma small_of_nat: "k < 0x1000 \<Longrightarrow> (of_nat k :: u32) < 0x1000"
  by (simp add: word_less_nat_alt unat_of_nat)

lemma next_page_aligned:
  assumes "P AND 0xFFF = 0"
  shows "(P + 0x1000) AND 0xFFF = (0 :: u32)"
proof -
  have t: "x AND 0xFFF = take_bit 12 x" for x :: u32 by (simp add: take_bit_eq_mask mask_eq_exp_minus_1)
  have "P = push_bit 12 (drop_bit 12 P)" using bits_ident [of 12 P] assms by (simp only: t) simp
  then have "P + 0x1000 = push_bit 12 (drop_bit 12 P + 1)" by (simp only: push_bit_add) simp
  then show ?thesis by (simp only: t take_bit_push_bit) simp
qed

lemma two_pages:
  assumes "i < 0x1000"
  shows "PAGE_START (x + of_nat i) = PAGE_START x \<or> PAGE_START (x + of_nat i) = PAGE_START x + 0x1000"
proof -
  let ?r = "unat (x AND 0xFFF)"
  have r: "?r < 0x1000" using page_split(3) [of x] by (simp add: word_less_nat_alt)
  have x: "x + of_nat i = PAGE_START x + of_nat (?r + i)"
    using page_split(1) [of x] by (simp add: add.assoc)
  show ?thesis
  proof (cases "?r + i < 0x1000")
    case True
    then have "(of_nat (?r + i) :: u32) < 0x1000" by (rule small_of_nat)
    then show ?thesis unfolding x using PAGE_START_in [OF page_split(2)] by blast
  next
    case False
    define k where "k = ?r + i - 0x1000"
    have k: "?r + i = 0x1000 + k" "k < 0x1000" using False r assms by (simp_all add: k_def)
    have "(PAGE_START x + 0x1000) AND 0xFFF = 0" by (rule next_page_aligned [OF page_split(2)])
    moreover have "(of_nat k :: u32) < 0x1000" using k(2) by (rule small_of_nat)
    moreover have "x + of_nat i = (PAGE_START x + 0x1000) + of_nat k" unfolding x k(1) by (simp add: add.assoc)
    ultimately show ?thesis using PAGE_START_in [of "PAGE_START x + 0x1000" "of_nat k"] by simp
  qed
qed

section \<open>Code images\<close>

lemma write_bytes_append: "write_bytes a (xs @ ys) m = write_bytes (a + of_nat (length xs)) ys (write_bytes a xs m)"
  by (induction xs arbitrary: a m) (simp_all add: add.assoc)

lemma write_bytes_keeps:
  assumes "length xs + length ys \<le> 2 ^ 32" "i < length xs"
  shows "write_bytes (a + of_nat (length xs)) ys m (a + of_nat i) = m (a + of_nat i)"
proof (rule write_bytes_other)
  fix j assume "j < length ys"
  then have "(of_nat i :: u32) \<noteq> of_nat (length xs + j)" using assms of_nat_less_inj [of i "length xs + j"] by simp
  then show "a + of_nat i \<noteq> a + of_nat (length xs) + of_nat j" by (simp add: add.assoc)
qed

lemma length_concat_le [simp]: "length (concat (map (le_bytes n) ws)) = n * length ws"
  by (induction ws) simp_all

lemma load32_le_bytes:
  assumes "\<And>i. i < 4 \<Longrightarrow> m (a + of_nat i) = le_bytes 4 v ! i"
  shows "load32 m a = v"
proof -
  have "load32 m a = le_word (le_bytes 4 v)"
    using assms [of 0] assms [of 1] assms [of 2] assms [of 3] by (simp add: load32_bytes le_bytes_4 del: le_word.simps)
  then show ?thesis by simp
qed

lemma le_bytes_2: "le_bytes 2 v = [ucast v, ucast (drop_bit 8 v)]"
  by (simp add: le_bytes_def upt_rec)

lemma load16_le_bytes:
  assumes "\<And>i. i < 2 \<Longrightarrow> m (a + of_nat i) = le_bytes 2 v ! i"
  shows "load16 m a = v"
proof -
  have "load16 m a = le_word (le_bytes 2 v)"
    using assms [of 0] assms [of 1] by (simp add: load16_def le_bytes_2 del: le_word.simps)
  then show ?thesis by simp
qed

lemma code32_written:
  "4 * length ws \<le> 2 ^ 32 \<Longrightarrow> code32_at (write_bytes a (concat (map (le_bytes 4) ws)) m) a ws"
proof (induction ws arbitrary: a m)
  case (Cons w ws)
  let ?m = "write_bytes a (le_bytes 4 w) m" and ?rest = "concat (map (le_bytes 4) ws)"
  have "load32 (write_bytes (a + 4) ?rest ?m) a = w"
  proof (rule load32_le_bytes)
    fix i :: nat assume i: "i < 4"
    then have "write_bytes (a + 4) ?rest ?m (a + of_nat i) = ?m (a + of_nat i)"
      using write_bytes_keeps [of "le_bytes 4 w" ?rest i a ?m] Cons.prems by simp
    then show "write_bytes (a + 4) ?rest ?m (a + of_nat i) = le_bytes 4 w ! i"
      using i write_bytes_nth [of "le_bytes 4 w" i a m] by simp
  qed
  moreover have "code32_at (write_bytes (a + 4) ?rest ?m) (a + 4) ws" using Cons by simp
  ultimately show ?case by (simp add: write_bytes_append)
qed simp

lemma code16_written:
  "2 * length hs \<le> 2 ^ 32 \<Longrightarrow> code16_at (write_bytes a (concat (map (le_bytes 2) hs)) m) a hs"
proof (induction hs arbitrary: a m)
  case (Cons h hs)
  let ?m = "write_bytes a (le_bytes 2 h) m" and ?rest = "concat (map (le_bytes 2) hs)"
  have "load16 (write_bytes (a + 2) ?rest ?m) a = h"
  proof (rule load16_le_bytes)
    fix i :: nat assume i: "i < 2"
    then have "write_bytes (a + 2) ?rest ?m (a + of_nat i) = ?m (a + of_nat i)"
      using write_bytes_keeps [of "le_bytes 2 h" ?rest i a ?m] Cons.prems by simp
    then show "write_bytes (a + 2) ?rest ?m (a + of_nat i) = le_bytes 2 h ! i"
      using i write_bytes_nth [of "le_bytes 2 h" i a m] by simp
  qed
  moreover have "code16_at (write_bytes (a + 2) ?rest ?m) (a + 2) hs" using Cons by simp
  ultimately show ?case by (simp add: write_bytes_append)
qed simp

section \<open>Hooking\<close>

lemma writable_mprotect:
  assumes "n \<le> 0x1000"
  shows "writable (mprotect2 (PAGE_START x) PROT_RWX w) x n"
proof -
  have "p_write (w_prot (mprotect2 (PAGE_START x) PROT_RWX w) (PAGE_START (x + of_nat i)))" if "i < n" for i
    using two_pages [of i x] that assms by (auto simp: mprotect2_def PROT_RWX_def)
  then show ?thesis by (simp add: writable_def list_all_iff)
qed

lemma length_hook_patch: "length (hook_patch it) \<le> (if TEST_BIT0 (target_addr it) then 10 else 8)"
  by (simp add: hook_patch_def)

lemma writable_prot: "w_prot w = w_prot w' \<Longrightarrow> writable w a n = writable w' a n"
  by (simp add: writable_def)

lemma doInlineHook_effect:
  fixes w :: world and i :: nat
  defines "code \<equiv> CLEAR_BIT0 (target_addr (item (w_info w) i))"
  assumes "set_proto (item (w_info w) i) (mprotect2 (PAGE_START code) PROT_RWX w) = Inr w2"
  shows "\<exists>w'. doInlineHook i w = Inr w' \<and> w_mem w' = write_bytes code (hook_patch (item (w_info w) i)) (w_mem w2)
     \<and> w_prot w' = (w_prot w)(PAGE_START code := PROT_RX, PAGE_START code + 0x1000 := PROT_RX)
     \<and> w_pc w' = w_pc w2 \<and> w_stopped w' = w_stopped w2 \<and> w_child w' = w_child w2"
proof -
  let ?it = "item (w_info w) i"
  have "length (hook_patch ?it) \<le> 0x1000" using length_hook_patch [of ?it] by (auto split: if_splits)
  then have "writable w2 code (length (hook_patch ?it))"
    using writable_mprotect [of _ code w] set_proto_frame(2) [OF assms(2)] writable_prot by metis
  then have "store_bytes code (hook_patch ?it) w2 = Inr (w2\<lparr>w_mem := write_bytes code (hook_patch ?it) (w_mem w2)\<rparr>)"
    by (simp add: store_bytes_def)
  moreover have "w_prot w2 = (w_prot w)(PAGE_START code := PROT_RWX, PAGE_START code + 0x1000 := PROT_RWX)"
    using set_proto_frame(2) [OF assms(2)] by (simp add: mprotect2_def)
  ultimately show ?thesis
    using assms(2)
    by (simp add: doInlineHook_def Let_def code_def [symmetric] cacheflush_def set_item_def mprotect2_def)
qed


lemma inlineHook_steps:
  assumes "inlineHook os t w = Inr (ELE7EN_OK, w')" "findInlineHookItem t (w_info w) = Some i"
  shows "status (item (w_info w) i) = REGISTERED \<and> (\<exists>pid w1 w2.
    freeze os (Some (item (w_info w) i)) ACTION_ENABLE w = Inr (pid, w1) \<and> doInlineHook i w1 = Inr w2 \<and> w' = unFreeze pid w2)"
  using assms by (auto simp: inlineHook_def Let_def split: if_splits sum.splits prod.splits)

lemma inlineHook_effect:
  assumes "inlineHook os t w = Inr (ELE7EN_OK, w')" "findInlineHookItem t (w_info w) = Some i"
  defines "it \<equiv> item (w_info w) i" and "code \<equiv> CLEAR_BIT0 t"
  shows "\<exists>M. w_mem w' = write_bytes code (hook_patch it) M
     \<and> (M = w_mem w \<and> proto_addr it = 0 \<or>
        M = write_bytes (proto_addr it) (le_bytes 4 (if TEST_BIT0 t then SET_BIT0 (trampoline_instructions it)
              else trampoline_instructions it)) (w_mem w))
     \<and> w_info w' = put_item i (it\<lparr>status := HOOKED\<rparr>) (w_info w)
     \<and> w_prot w' = (w_prot w)(PAGE_START code := PROT_RX, PAGE_START code + 0x1000 := PROT_RX)"
proof -
  obtain pid w1 w2 where f: "freeze os (Some it) ACTION_ENABLE w = Inr (pid, w1)"
    and d: "doInlineHook i w1 = Inr w2" and w': "w' = unFreeze pid w2"
    using inlineHook_steps [OF assms(1,2)] by (auto simp: it_def)
  note fr = freeze_frame [OF f]
  have t: "target_addr it = t" using find_item [OF assms(2)] by (simp add: it_def)
  obtain w3 where w3: "set_proto it (mprotect2 (PAGE_START code) PROT_RWX w1) = Inr w3"
    using d fr(1) by (auto simp: doInlineHook_def Let_def it_def [symmetric] t code_def [symmetric] split: sum.splits)
  have e: "w_mem w2 = write_bytes code (hook_patch it) (w_mem w3)"
    "w_prot w2 = (w_prot w1)(PAGE_START code := PROT_RX, PAGE_START code + 0x1000 := PROT_RX)"
    using doInlineHook_effect [of w1 i w3] d w3 fr(1) by (auto simp: it_def [symmetric] t code_def [symmetric])
  have "w_mem w3 = w_mem w \<and> proto_addr it = 0 \<or>
      w_mem w3 = write_bytes (proto_addr it) (le_bytes 4 (if TEST_BIT0 t then SET_BIT0 (trampoline_instructions it)
              else trampoline_instructions it)) (w_mem w)"
    using w3 fr(2) by (auto simp: set_proto_def mprotect2_def t dest!: store_bytes_frame(2) split: if_splits)
  then show ?thesis
    using e doInlineHook_info [OF d] fr unfolding w' by (intro exI [of _ "w_mem w3"]) (simp add: it_def)
qed

lemma clear_bit0_mod4: "x mod 4 = x AND 3" for x :: u32
  by (simp add: and_3 take_bit_eq_mod)

lemma bx_write_pc_over: "bx_write_pc v (s\<lparr>PC := a\<rparr>) = bx_write_pc v s"
  by (simp add: bx_write_pc_def)

lemma halfway_aligned:
  assumes "c AND 1 = 0" "c AND 3 \<noteq> 0"
  shows "(c + 2) AND 3 = (0 :: u32)"
proof -
  have "c AND 3 = (c AND 1) OR (c AND 2)" by (simp add: bit.conj_disj_distrib [symmetric])
  then have z: "c AND 3 = c AND 2" using assms(1) by simp
  have "c AND push_bit 1 1 = push_bit 1 (of_bool (bit c 1))"
    by (rule bit_word_eqI) (auto simp: bit_simps bit_1_iff)
  then have r: "c AND 3 = 2" using z assms(2) by (cases "bit c 1") auto
  have "c = (c AND NOT 3) OR (c AND 3)" by (simp add: bit.conj_disj_distrib [symmetric])
  also have "\<dots> = (c AND NOT 3) + (c AND 3)" by (rule disjoint_or_add) (simp add: and.assoc and.left_commute)
  finally have "c = align4 c + 2" by (simp only: align4_def r)
  then have "c + 2 = align4 c + 2 + 2" by (rule arg_cong)
  then have "c + 2 = align4 c + 4" by (simp only: add.assoc) simp
  moreover have "align4 c AND 3 = 0" by (simp add: align4_def and.assoc)
  ultimately show ?thesis by (simp only: aligned_offsets(1))
qed

lemma CLEAR_BIT0_even: "CLEAR_BIT0 t AND 1 = 0"
  by (simp add: CLEAR_BIT0_def and.assoc)

section \<open>Unhooking\<close>

lemma inlineUnHook_find:
  assumes "hook_wf info" "i < size_info info" "target_addr (item info i) = t" "status (item info i) = HOOKED"
  shows "find (\<lambda>j. target_addr (item info j) = t \<and> status (item info j) = HOOKED) [0..<size_info info] = Some i"
proof -
  have "find (\<lambda>j. target_addr (item info j) = t \<and> status (item info j) = HOOKED) [0..<size_info info] \<noteq> None"
    using assms(2-4) by (auto simp: find_upt_None)
  then obtain j where j: "find (\<lambda>j. target_addr (item info j) = t \<and> status (item info j) = HOOKED) [0..<size_info info] = Some j"
    by blast
  then have "j < size_info info" "target_addr (item info j) = t" using find_upt_Some by auto
  then have "findInlineHookItem t info = Some j" "findInlineHookItem t info = Some i"
    using hooks.find_unique [of j info] hooks.find_unique [of i info] assms by (auto simp: hook_wf_def)
  then show ?thesis using j by simp
qed

lemma inlineUnHook_effect:
  assumes "inlineUnHook os t w = Inr (ELE7EN_OK, w')" "hook_wf (w_info w)" "findInlineHookItem t (w_info w) = Some i"
  defines "it \<equiv> item (w_info w) i" and "code \<equiv> CLEAR_BIT0 t"
  shows "status it = HOOKED \<and> w_mem w' = write_bytes code (orig_instructions it) (w_mem w)
    \<and> w_info w' = deleteInlineHookItem i (w_info w)"
proof -
  obtain j where j: "find (\<lambda>i. target_addr (item (w_info w) i) = t \<and> status (item (w_info w) i) = HOOKED)
      [0..<size_info (w_info w)] = Some j"
    using assms(1) by (auto simp: inlineUnHook_def split: option.splits)
  have "j < size_info (w_info w)" "target_addr (item (w_info w) j) = t" "status (item (w_info w) j) = HOOKED"
    using find_upt_Some [OF j] by auto
  then have ji: "j = i"
    using hooks.find_unique [of j "w_info w"] assms(2,3) by (auto simp: hook_wf_def)
  obtain pid w1 w2 where f: "freeze os (Some it) ACTION_DISABLE w = Inr (pid, w1)"
    and d: "doInlineUnHook i w1 = Inr w2" and w': "w' = unFreeze pid w2"
    using assms(1) j by (auto simp: inlineUnHook_def ji it_def split: sum.splits prod.splits)
  note fr = freeze_frame [OF f]
  have t: "target_addr it = t" "status it = HOOKED" using find_upt_Some [OF j] by (simp_all add: it_def ji)
  have "w_mem w2 = write_bytes code (orig_instructions it) (w_mem w1)"
    using d fr(1) t by (auto simp: doInlineUnHook_def Let_def it_def [symmetric] code_def cacheflush_def munmap_page_def
        mprotect2_def dest!: store_bytes_frame(2) split: sum.splits)
  then show ?thesis using w' fr doInlineUnHook_info [OF d] t by simp
qed

section \<open>Thread PCs\<close>

lemma find_boundary_nth:
  assumes "sorted_wrt (<) (take n table)" "n \<le> length table" "\<forall>x \<in> set (take n table). x < 2 ^ 32" "i < n"
  shows "find_boundary table n (of_nat (table ! i)) = Some i"
proof -
  have lt: "table ! j < 2 ^ 32" if "j < n" for j
    using assms(2,3) nth_mem [of j "take n table"] that by simp
  have uniq: "j = i" if "j < n" "(of_nat (table ! j) :: u32) = of_nat (table ! i)" for j
  proof -
    have "table ! j = table ! i" using that(2) of_nat_less_inj [OF lt [OF that(1)] lt [OF assms(4)]] by simp
    then show ?thesis
      using sorted_wrt_nth_less [OF assms(1), of i j] sorted_wrt_nth_less [OF assms(1), of j i] that(1) assms(2,4)
      by (metis length_take less_irrefl linorder_neqE_nat min.absorb2 nth_take)
  qed
  have "\<forall>j < i. (of_nat (table ! j) :: u32) \<noteq> of_nat (table ! i)"
    using uniq assms(4) by (metis less_irrefl order.strict_trans)
  then have "find (\<lambda>j. (of_nat (table ! j) :: u32) = of_nat (table ! i)) [0..<n] = Some i"
    using assms(4) by (auto simp: find_Some_iff intro!: exI [of _ i])
  then show ?thesis by (simp add: find_boundary_def)
qed

lemma freeze_loop_stopped:
  "w_stopped (freeze_loop os tids it act w) tid \<longleftrightarrow> w_stopped w tid \<or> tid \<in> set tids \<and> os_attach os tid"
  by (induction os tids it act w rule: freeze_loop.induct) (auto simp: processThreadPC_frame)

lemma doInlineHook_threads:
  assumes "doInlineHook i w = Inr w'"
  shows "w_stopped w' = w_stopped w" "w_child w' = w_child w" "w_pc w' = w_pc w"
  using assms
  by (auto simp: doInlineHook_def Let_def cacheflush_def set_item_def mprotect2_def set_proto_def store_bytes_def
      split: sum.splits if_splits)

lemma doInlineUnHook_threads:
  assumes "doInlineUnHook i w = Inr w'"
  shows "w_stopped w' = w_stopped w" "w_child w' = w_child w" "w_pc w' = w_pc w"
  using assms
  by (auto simp: doInlineUnHook_def Let_def cacheflush_def mprotect2_def munmap_page_def store_bytes_def
      split: sum.splits if_splits)

lemma freeze_release:
  assumes "freeze os it act w = Inr (pid, w1)" "w_stopped w2 = w_stopped w1" "w_child w2 = w_child w1"
    "\<forall>tid. \<not> w_stopped w tid"
  shows "\<not> w_stopped (unFreeze pid w2) tid"
  using assms freeze_loop_stopped [of os _ it act w] freeze_loop_frame [of os _ it act w]
  by (auto simp: freeze_def unFreeze_def split: sum.splits if_splits)

text \<open>What freezing does to the PC of a thread that is not listed twice.\<close>

lemma freeze_loop_pc:
  assumes "distinct tids" "w_info w = info"
  shows "w_pc (freeze_loop os tids (Some it) act w) tid =
    (if tid \<in> set tids \<and> os_attach os tid \<and> os_getregs os tid
     then (case doProcessThreadPC it act (w_pc w tid) of Some p \<Rightarrow> p | None \<Rightarrow> w_pc w tid) else w_pc w tid)"
  using assms
proof (induction os tids "Some it" act w rule: freeze_loop.induct)
  case (2 os t tids act w)
  then show ?case by (auto simp: processThreadPC_def Let_def split: option.splits)
qed simp

section \<open>Calling the original through the trampoline\<close>

lemma code32_at_cong:
  "(\<And>i. i < 4 * length ws \<Longrightarrow> m (a + of_nat i) = m' (a + of_nat i)) \<Longrightarrow> code32_at m a ws = code32_at m' a ws"
proof (induction ws arbitrary: a)
  case (Cons w ws)
  have "m (a + of_nat i) = m' (a + of_nat i)" if "i < 4" for i using Cons.prems [of i] that by simp
  from this [of 0] this [of 1] this [of 2] this [of 3] have "load32 m a = load32 m' a" by (simp add: load32_bytes)
  moreover have "code32_at m (a + 4) ws = code32_at m' (a + 4) ws"
    using Cons.prems [of "4 + _"] by (intro Cons.IH) (simp add: add.assoc)
  ultimately show ?case by simp
qed simp

lemma length_2: "length xs = 2 \<Longrightarrow> \<exists>a b. xs = [a, b]"
  by (auto simp: numeral_2_eq_2 length_Suc_conv)

definition no_literal :: "u32 \<Rightarrow> bool" where
  "no_literal ins \<longleftrightarrow> getTypeInArm ins \<noteq> LDR_ARM"

lemma arm_code_no_literal:
  "\<forall>w \<in> set ws. no_literal w \<Longrightarrow> arm_code ld pc ws = arm_code ld' pc ws"
proof (induction ws arbitrary: pc)
  case (Cons w ws)
  have "relocateOneArm ld pc w = relocateOneArm ld' pc w"
    using Cons.prems by (cases "getTypeInArm w") (simp_all add: relocateOneArm_def no_literal_def)
  then show ?case using Cons by simp
qed simp

lemma out_of_line_no_literal:
  "\<forall>w \<in> set ws. no_literal w \<Longrightarrow> out_of_line ld A T ws s = out_of_line ld' A T ws s"
proof (induction ws arbitrary: A T s)
  case (Cons w ws)
  have "relocateOneArm ld (A + 8) w = relocateOneArm ld' (A + 8) w"
    using Cons.prems by (cases "getTypeInArm w") (simp_all add: relocateOneArm_def no_literal_def)
  then show ?case using Cons by (auto simp: Let_def split: option.splits)
qed simp

lemma length_words: "length (words bs) = length bs div 4"
  by (induction bs rule: words.induct) auto

lemma CLEAR_BIT0_arm: "t AND 3 = 0 \<Longrightarrow> CLEAR_BIT0 t = t"
proof -
  assume "t AND 3 = 0"
  moreover have "(0xFFFFFFFE :: u32) = NOT 1" by simp
  ultimately show ?thesis
    unfolding CLEAR_BIT0_def using bit.conj_disj_distrib [of t 1 "NOT 1"] aligned_bits(1) [of t] by (simp only:) simp
qed

definition fresh_slot :: "world \<Rightarrow> bool" where
  "fresh_slot w \<longleftrightarrow> (let bd = bounds (item (w_info w) (size_info (w_info w)))
     in boundaries.count bd = 0 \<and> length (orig_boundaries bd) = 4 \<and> length (trampoline_boundaries bd) = 20)"

lemma register_arm_effect:
  assumes "registerInlineHook os t new proto w = Inr (ELE7EN_OK, w1)" "t AND 3 = 0" "fresh_slot w"
  defines "ws \<equiv> words (read_bytes (w_mem w) t 8)" and "page \<equiv> os_mmap os"
  defines "m \<equiv> w_mem (mmap_page page w)"
  shows "w_mem w1 = write_bytes page (concat (map (le_bytes 4) (arm_code (load32 m) (t + 8) ws @ [0xe51ff004, t + 8]))) m
     \<and> findInlineHookItem t (w_info w1) = Some (size_info (w_info w))
     \<and> proto_addr (item (w_info w1) (size_info (w_info w))) = proto
     \<and> trampoline_instructions (item (w_info w1) (size_info (w_info w))) = page \<and> length ws = 2"
proof -
  let ?n = "size_info (w_info w)" and ?info = "(w_info w)\<lparr>size_info := Suc (size_info (w_info w))\<rparr>"
  let ?code = "arm_code (load32 m) (t + 8) ws @ [0xe51ff004, t + 8]"
  let ?bd = "bounds (item (w_info w) ?n)"
  have tb: "\<not> TEST_BIT0 t" "CLEAR_BIT0 t = t" using assms(2) aligned_bits(1) [OF assms(2)] CLEAR_BIT0_arm
    by (simp_all add: TEST_BIT0_def)
  have l: "length ws = 2" by (simp add: ws_def length_words)
  obtain bd' where "relocateInstructionInArm (load32 m) t ws 8 ?bd = Inr (?code, bd')"
    using arm_relocation_spec [of 8 ws ?bd "load32 m" t] l assms(3) by (auto simp: fresh_slot_def Let_def)
  then have rel: "relocateInstruction (load32 m) t (read_bytes (w_mem w) t 8) 8 ?bd
      = Inr (concat (map (le_bytes 4) ?code), bd')"
    using tb(1) by (simp add: relocateInstruction_def TEST_BIT0_def ws_def [symmetric])
  have m: "w_mem (mmap_page page (w\<lparr>w_info := i\<rparr>)) = m" for i by (auto simp: m_def mmap_page_def)
  have none: "findInlineHookItem t (w_info w) = None" and add: "addInlineHookItem (w_info w) = Some (?n, ?info)"
    using assms(1) by (auto simp: registerInlineHook_def addInlineHookItem_def split: if_splits option.splits)
  obtain w2 where w2: "store_bytes page (concat (map (le_bytes 4) ?code)) (mmap_page page (w\<lparr>w_info := ?info\<rparr>)) = Inr w2"
    and w1: "w1 = set_item ?n \<lparr>target_addr = t, new_addr = new, proto_addr = proto,
       orig_instructions = read_bytes (w_mem w) t 8, bounds = bd', trampoline_instructions = page,
       item_length = 8, status = REGISTERED\<rparr> w2"
    using assms(1) none add tb rel
    by (auto simp: registerInlineHook_def Let_def m page_def [symmetric] split: if_splits sum.splits)
  have "findInlineHookItem t (w_info w1) = Some ?n"
    unfolding findInlineHookItem_def
    by (rule find_upt_SomeI)
      (use none w1 store_bytes_frame(1) [OF w2] in
        \<open>auto simp: findInlineHookItem_def find_upt_None set_item_def mmap_page_def\<close>)
  then show ?thesis
    using w1 store_bytes_frame(2) [OF w2] l by (simp add: set_item_def m)
qed

section \<open>An example process\<close>

definition demo_mem :: "u32 \<Rightarrow> u8" where
  "demo_mem = (\<lambda>_. 0)(0x8000 := 0x01, 0x8002 := 0xA0, 0x8003 := 0xE1,
                      0x8004 := 0x0F, 0x8005 := 0x20, 0x8006 := 0xA0, 0x8007 := 0xE1)"

definition demo_world :: world where
  "demo_world = \<lparr>w_mem = demo_mem, w_prot = \<lambda>_. PROT_RX, w_pc = \<lambda>_. 0, w_stopped = \<lambda>_. False, w_child = \<lambda>_. [],
                 w_flush = [], w_info = info0\<rparr>"

definition demo_os :: os where
  "demo_os = \<lparr>os_gettid = 1, os_taskdir = \<lambda>_. Some [''.'', ''1'', ''7''], os_fork = 2, os_attach = \<lambda>_. True, os_getregs = \<lambda>_. True,
              os_maps = Some [''00008000-00009000 r-xp x''], os_malloc = True, os_mmap = 0x20000000\<rparr>"

definition demo_registered :: world where
  "demo_registered = (case registerInlineHook demo_os 0x8000 0x8100 0 demo_world of Inr (_, w) \<Rightarrow> w | Inl _ \<Rightarrow> demo_world)"

definition demo_hooked :: world where
  "demo_hooked = (case inlineHook demo_os 0x8000 demo_registered of Inr (_, w) \<Rightarrow> w | Inl _ \<Rightarrow> demo_world)"

lemma demo_register: "registerInlineHook demo_os 0x8000 0x8100 0 demo_world = Inr (ELE7EN_OK, demo_registered)"
proof -
  have "(case registerInlineHook demo_os 0x8000 0x8100 0 demo_world of Inr (st, _) \<Rightarrow> st = ELE7EN_OK | _ \<Rightarrow> False)"
    by code_simp
  then show ?thesis unfolding demo_registered_def by (auto split: sum.splits prod.splits)
qed

lemma demo_hook: "inlineHook demo_os 0x8000 demo_registered = Inr (ELE7EN_OK, demo_hooked)"
proof -
  have "(case inlineHook demo_os 0x8000 demo_registered of Inr (st, _) \<Rightarrow> st = ELE7EN_OK | _ \<Rightarrow> False)"
    by code_simp
  then show ?thesis unfolding demo_hooked_def by (auto split: sum.splits prod.splits)
qed

lemma demo_unhook: "\<exists>w2. inlineUnHook demo_os 0x8000 demo_hooked = Inr (ELE7EN_OK, w2)"
proof -
  have "(case inlineUnHook demo_os 0x8000 demo_hooked of Inr (st, _) \<Rightarrow> st = ELE7EN_OK | _ \<Rightarrow> False)"
    by code_simp
  then show ?thesis by (auto split: sum.splits prod.splits)
qed

lemma demo_find: "findInlineHookItem 0x8000 (w_info demo_registered) = Some 0"
  by code_simp

lemma demo_words: "words (read_bytes demo_mem 0x8000 8) = [0xE1A00001, 0xE1A0200F]"
  by code_simp

lemma demo_wf: "hook_wf (w_info demo_registered)"
  using hook_wf_register [OF demo_register] by (simp add: demo_world_def hook_wf_info0)

lemma demo_apart: "i < 4096 \<Longrightarrow> j < 4096 \<Longrightarrow> (0x20000000 + of_nat i :: u32) \<noteq> of_nat (0x8000 + j)" for i j :: nat
proof -
  assume "i < 4096" "j < 4096"
  then have "(of_nat (0x20000000 + i) :: u32) \<noteq> of_nat (0x8000 + j)"
    by (simp only: word_of_nat_eq_iff) (simp add: take_bit_nat_eq_self)
  then show ?thesis by simp
qed

lemma demo_apart0: "i < 4096 \<Longrightarrow> j < 4096 \<Longrightarrow> (0x20000000 + of_nat i :: u32) \<noteq> of_nat j" for i j :: nat
proof -
  assume "i < 4096" "j < 4096"
  then have "(of_nat (0x20000000 + i) :: u32) \<noteq> of_nat j"
    by (simp only: word_of_nat_eq_iff) (simp add: take_bit_nat_eq_self)
  then show ?thesis by simp
qed

lemma register_threads:
  assumes "registerInlineHook os t new proto w = Inr (st, w')"
  shows "w_stopped w' = w_stopped w"
  using assms
  by (auto simp: registerInlineHook_def Let_def set_item_def mmap_page_def store_bytes_def
      split: if_splits option.splits sum.splits prod.splits)

section \<open>Properties\<close>

text \<open>
  (C1) The original of a hooked ARM function stays callable.  The function is at a word-aligned address and is registered in a table slot
  that no removed item has used; each of its first two words is either one the relocation handles (an unconditional \<^verbatim>\<open>B\<close>, \<^verbatim>\<open>BL\<close> or
  \<^verbatim>\<open>BLX\<close>, \<^verbatim>\<open>BX PC\<close>, \<^verbatim>\<open>MOV\<close> from the PC, \<^verbatim>\<open>ADR\<close> with an unrotated immediate) or one that is copied, under the condition \<^verbatim>\<open>AL\<close>, with neither
  of its register fields naming the PC and other than a single-register \<^verbatim>\<open>PUSH\<close>; literal loads are left out.  The page for the
  trampoline does not overlap the function or the cell of \<^verbatim>\<open>proto_addr\<close>.  Then running the trampoline executes the two words
  as the processor model does at their own addresses and, when they fall through, continues at the third
  word of the function.
\<close>

theorem original_callable_after_hook:
  fixes w w1 w2 :: world
  assumes reg: "registerInlineHook os t new proto w = Inr (ELE7EN_OK, w1)"
    and hook: "inlineHook os' t w1 = Inr (ELE7EN_OK, w2)"
    and t: "t AND 3 = 0" and fresh: "fresh_slot w" and page: "os_mmap os AND 0xFFF = 0"
    and apart: "\<forall>i < 4096. \<forall>j < 8. os_mmap os + of_nat i \<noteq> t + of_nat j"
      "\<forall>i < 4096. \<forall>j < 4. os_mmap os + of_nat i \<noteq> proto + of_nat j"
    and prologue: "\<forall>v \<in> set (words (read_bytes (w_mem w) t 8)). (arm_supported v \<or> arm_plain v) \<and> no_literal v"
    and s: "mem s = w_mem w2" "PC s = os_mmap os" "\<not> Thumb s"
  shows "\<exists>n. cpu_run n s =
    (case out_of_line (load32 (mem s)) t (os_mmap os) (words (read_bytes (w_mem w) t 8)) s of
       None \<Rightarrow> None
     | Some u \<Rightarrow> if PC u = os_mmap os + 4 * of_nat (length (arm_code (load32 (mem s)) (t + 8)
                     (words (read_bytes (w_mem w) t 8)))) \<and> \<not> Thumb u
                 then Some (u\<lparr>PC := t + 8\<rparr>) else Some u)"
proof -
  let ?page = "os_mmap os" and ?ws = "words (read_bytes (w_mem w) t 8)"
  let ?m = "w_mem (mmap_page ?page w)"
  let ?code = "arm_code (load32 (mem s)) (t + 8) ?ws @ [0xe51ff004, t + 8]"
  have same: "arm_code (load32 ?m) (t + 8) ?ws = arm_code (load32 (mem s)) (t + 8) ?ws"
    using prologue by (intro arm_code_no_literal) blast
  note eff = register_arm_effect [OF reg t fresh]
  have l: "length ?ws = 2" using eff by blast
  have m1: "w_mem w1 = write_bytes ?page (concat (map (le_bytes 4) ?code)) ?m"
    using eff unfolding same by blast
  let ?it = "item (w_info w1) (size_info (w_info w))"
  have find: "findInlineHookItem t (w_info w1) = Some (size_info (w_info w))" and proto: "proto_addr ?it = proto"
    using eff by blast+
  obtain M where M: "w_mem w2 = write_bytes t (hook_patch ?it) M"
    "M = w_mem w1 \<or> (\<exists>v :: u32. M = write_bytes proto (le_bytes 4 v) (w_mem w1))"
    using inlineHook_effect [OF hook find] CLEAR_BIT0_arm [OF t] proto by auto
  have tgt: "target_addr ?it = t" using find_item [OF find] by simp
  have patch: "length (hook_patch ?it) \<le> 8"
    using length_hook_patch [of ?it] aligned_bits(1) [OF t] by (simp add: tgt TEST_BIT0_def)
  have keep: "mem s (?page + of_nat i) = w_mem w1 (?page + of_nat i)" if i: "i < 4096" for i
  proof -
    have "mem s (?page + of_nat i) = M (?page + of_nat i)"
      unfolding s(1) M(1) using apart(1) i patch by (intro write_bytes_other) auto
    also have "\<dots> = w_mem w1 (?page + of_nat i)"
      using M(2) write_bytes_other [of "le_bytes 4 _" "?page + of_nat i" proto "w_mem w1"] apart(2) i by auto
    finally show ?thesis .
  qed
  obtain a b where ws: "?ws = [a, b]" using length_2 [OF l] by blast
  have len: "length ?code \<le> 14"
    using length_arm [of "load32 (mem s)" "t + 8" a] length_arm [of "load32 (mem s)" "t + 8 + 4" b] unfolding ws by auto
  have "code32_at (w_mem w1) ?page ?code" unfolding m1 by (rule code32_written) (use len in simp)
  moreover have "code32_at (mem s) ?page ?code = code32_at (w_mem w1) ?page ?code"
    by (rule code32_at_cong) (use keep len in simp)
  ultimately have code: "code32_at (mem s) ?page ?code" by simp
  have al: "?page AND 3 = 0" using mask_sub [OF page, of 3] by simp
  let ?bd = "\<lparr>orig_boundaries = replicate 4 0, trampoline_boundaries = replicate 20 0, count = 0\<rparr> :: boundaries"
  have sup: "\<forall>v \<in> set ?ws. arm_supported v \<or> arm_plain v" using prologue by blast
  obtain code' bd' where r: "relocateInstructionInArm (load32 (mem s)) t ?ws (4 * length ?ws) ?bd = Inr (code', bd')"
    and run: "code32_at (mem s) ?page code' \<longrightarrow> (\<exists>n. cpu_run n s =
      (case out_of_line (load32 (mem s)) t ?page ?ws s of None \<Rightarrow> None
       | Some u \<Rightarrow> if PC u = ?page + 4 * of_nat (length code' - 2) \<and> \<not> Thumb u
                   then Some (u\<lparr>PC := t + 4 * of_nat (length ?ws)\<rparr>) else Some u))"
    using arm_trampoline_correct [OF s(3) t al s(2) sup, of ?bd] l by auto
  have c: "code' = ?code"
    using r arm_relocation_spec [of "4 * length ?ws" ?ws ?bd "load32 (mem s)" t] l by auto
  have e: "length ?code - 2 = length (arm_code (load32 (mem s)) (t + 8) ?ws)" "4 * of_nat (length ?ws) = (8 :: u32)"
    using l by simp_all
  show ?thesis using run code unfolding c e by blast
qed

theorem original_callable_after_hook_witness:
  "\<exists>n. cpu_run n ((demo_state (w_mem demo_hooked) False)\<lparr>PC := 0x20000000\<rparr>) =
    (case out_of_line (load32 (w_mem demo_hooked)) 0x8000 0x20000000 [0xE1A00001, 0xE1A0200F]
            ((demo_state (w_mem demo_hooked) False)\<lparr>PC := 0x20000000\<rparr>) of
       None \<Rightarrow> None
     | Some u \<Rightarrow> if PC u = 0x20000000 + 4 * of_nat (length (arm_code (load32 (w_mem demo_hooked)) (0x8000 + 8) [0xE1A00001, 0xE1A0200F]))
                     \<and> \<not> Thumb u
                 then Some (u\<lparr>PC := 0x8000 + 8\<rparr>) else Some u)"
proof -
  let ?s = "(demo_state (w_mem demo_hooked) False)\<lparr>PC := 0x20000000\<rparr>"
  have w: "words (read_bytes (w_mem demo_world) 0x8000 8) = [0xE1A00001, 0xE1A0200F]"
    by (simp add: demo_world_def demo_words)
  have p: "os_mmap demo_os = 0x20000000" by (simp add: demo_os_def)
  have f: "fresh_slot demo_world" by (simp add: fresh_slot_def demo_world_def info0_def zero_item_def)
  have sup: "\<forall>v \<in> set [0xE1A00001, 0xE1A0200F]. (arm_supported v \<or> arm_plain v) \<and> no_literal v"
    by (simp add: arm_supported_def arm_plain_def no_literal_def getTypeInArm_def fld_def)
  have a: "\<forall>i < 4096. \<forall>j < 8. (0x20000000 :: u32) + of_nat i \<noteq> 0x8000 + of_nat j"
  proof (intro allI impI)
    fix i j :: nat assume "i < 4096" "j < 8"
    then show "(0x20000000 :: u32) + of_nat i \<noteq> 0x8000 + of_nat j" using demo_apart [of i j] by simp
  qed
  have b: "\<forall>i < 4096. \<forall>j < 4. (0x20000000 :: u32) + of_nat i \<noteq> 0 + of_nat j"
    using demo_apart0 by simp
  have s: "mem ?s = w_mem demo_hooked" by (simp add: demo_state_def)
  show ?thesis
    by (rule original_callable_after_hook [OF demo_register demo_hook _ f, unfolded p w, OF _ _ a b sup, of ?s, unfolded s])
      (simp_all add: demo_state_def)
qed

text \<open>
  (C2) After \<^verbatim>\<open>inlineHook\<close> succeeds, execution that enters the target, in ARM or Thumb state and at any
  halfword alignment, reaches the replacement function with registers and memory unchanged.
\<close>

theorem hook_redirects:
  assumes "inlineHook os t w = Inr (ELE7EN_OK, w')" "findInlineHookItem t (w_info w) = Some i"
    "mem s = w_mem w'" "Thumb s = TEST_BIT0 t" "PC s = CLEAR_BIT0 t" "TEST_BIT0 t \<or> t AND 3 = 0"
  shows "\<exists>n. cpu_run n s = bx_write_pc (new_addr (item (w_info w) i)) s"
proof -
  let ?it = "item (w_info w) i" and ?c = "CLEAR_BIT0 t"
  have t: "target_addr ?it = t" using find_item [OF assms(2)] by simp
  obtain M where M: "mem s = write_bytes ?c (hook_patch ?it) M"
    using inlineHook_effect [OF assms(1,2)] assms(3) by auto
  show ?thesis
  proof (cases "TEST_BIT0 t")
    case False
    have "code32_at (mem s) ?c [0xe51ff004, new_addr ?it]"
      unfolding M using False t code32_written [of "[0xe51ff004, new_addr ?it]" ?c M] by (simp add: hook_patch_def)
    then have "cpu_step s = bx_write_pc (new_addr ?it) s"
      using step_ldr_pc [of s] False assms(4,5) by simp
    then show ?thesis by (intro exI [of _ 1]) (simp split: option.split)
  next
    case True
    let ?v = "new_addr ?it"
    show ?thesis
    proof (cases "?c AND 3 = 0")
      case al: True
      then have "code16_at (mem s) ?c [0xF8DF, 0xF000, low_half ?v, high_half ?v]"
        unfolding M using True t code16_written [of "[0xF8DF, 0xF000, low_half ?v, high_half ?v]" ?c M]
        by (simp add: hook_patch_def clear_bit0_mod4)
      then have "cpu_step s = bx_write_pc ?v s" using t_step_jump [of s ?v] True al assms(4,5) by simp
      then show ?thesis by (intro exI [of _ 1]) (simp split: option.split)
    next
      case al: False
      then have c: "code16_at (mem s) ?c [0xBF00, 0xF8DF, 0xF000, low_half ?v, high_half ?v]"
        unfolding M using True t code16_written [of "[0xBF00, 0xF8DF, 0xF000, low_half ?v, high_half ?v]" ?c M]
        by (simp add: hook_patch_def clear_bit0_mod4)
      let ?s1 = "s\<lparr>PC := ?c + 2\<rparr>"
      have "cpu_step s = Some ?s1" using t_step_b(4) [of s] True c assms(4,5) by simp
      moreover have "cpu_step ?s1 = bx_write_pc ?v ?s1"
        using t_step_jump [of ?s1 ?v] True c assms(4,5) halfway_aligned [OF CLEAR_BIT0_even al] by simp
      ultimately show ?thesis
        by (intro exI [of _ 2]) (simp add: numeral_2_eq_2 bx_write_pc_over split: option.split)
    qed
  qed
qed

theorem hook_redirects_witness:
  "\<exists>n. cpu_run n ((demo_state (w_mem demo_hooked) False)\<lparr>PC := 0x8000\<rparr>)
     = bx_write_pc 0x8100 ((demo_state (w_mem demo_hooked) False)\<lparr>PC := 0x8000\<rparr>)"
proof -
  have n: "new_addr (item (w_info demo_registered) 0) = 0x8100" by code_simp
  show ?thesis
    using hook_redirects [OF demo_hook demo_find, of "(demo_state (w_mem demo_hooked) False)\<lparr>PC := 0x8000\<rparr>"] n
    by (simp add: demo_state_def TEST_BIT0_def CLEAR_BIT0_def)
qed

text \<open>
  (C3) Hooking and then unhooking a registered function leaves every byte of memory outside the caller's
  \<^verbatim>\<open>proto_addr\<close> cell as it was before.
\<close>

theorem hook_unhook_restores:
  assumes "inlineHook os t w = Inr (ELE7EN_OK, w1)" "inlineUnHook os' t w1 = Inr (ELE7EN_OK, w2)"
    "hook_wf (w_info w)" "findInlineHookItem t (w_info w) = Some i"
  defines "it \<equiv> item (w_info w) i"
  assumes "orig_instructions it = read_bytes (w_mem w) (CLEAR_BIT0 t) (item_length it)"
    "\<forall>j < item_length it. \<forall>k < 4. CLEAR_BIT0 t + of_nat j \<noteq> proto_addr it + of_nat k"
  shows "\<forall>a. (\<forall>k < 4. a \<noteq> proto_addr it + of_nat k) \<longrightarrow> w_mem w2 a = w_mem w a"
proof -
  let ?c = "CLEAR_BIT0 t" and ?n = "item_length it"
  have i: "i < size_info (w_info w)" and t: "target_addr it = t" using find_item [OF assms(4)] by (simp_all add: it_def)
  have ok: "item_ok it" using assms(3) i by (metis hook_wf_def it_def length_live nth_live nth_mem)
  obtain M where M: "w_mem w1 = write_bytes ?c (hook_patch it) M"
    "M = w_mem w \<or> (\<exists>v. M = write_bytes (proto_addr it) (le_bytes 4 (v :: u32)) (w_mem w))"
    "w_info w1 = put_item i (it\<lparr>status := HOOKED\<rparr>) (w_info w)"
    using inlineHook_effect [OF assms(1,4)] by (auto simp: it_def)
  have same: "M a = w_mem w a" if "\<forall>k < 4. a \<noteq> proto_addr it + of_nat k" for a
    using M(2) write_bytes_other [of "le_bytes 4 _" a "proto_addr it" "w_mem w"] that by auto
  have orig: "orig_instructions it = read_bytes M ?c ?n"
    unfolding assms(6) read_bytes_def using assms(7) same by simp
  have wf1: "hook_wf (w_info w1)" using hook_wf_hook [OF assms(1,3)] .
  have "item (w_info w1) i = it\<lparr>status := HOOKED\<rparr>" "i < size_info (w_info w1)" using M(3) i by (simp_all add: put_item_def)
  moreover from this have "findInlineHookItem t (w_info w1) = Some i"
    using hooks.find_unique [of i "w_info w1"] wf1 t by (simp add: hook_wf_def)
  ultimately have "w_mem w2 = write_bytes ?c (orig_instructions it) (w_mem w1)"
    using inlineUnHook_effect [OF assms(2) wf1] by simp
  also have "\<dots> = M"
    unfolding orig
  proof (rule write_back)
    show "?n \<le> 2 ^ 32" using ok by (simp add: item_ok_def)
    fix x assume x: "\<And>j. j < ?n \<Longrightarrow> x \<noteq> ?c + of_nat j"
    have "length (hook_patch it) \<le> ?n" using length_hook_patch [of it] ok by (auto simp: item_ok_def split: if_splits)
    then show "w_mem w1 x = M x" unfolding M(1) using x by (intro write_bytes_other) auto
  qed
  finally show ?thesis using same by simp
qed

theorem hook_unhook_restores_witness:
  "\<exists>w2. inlineUnHook demo_os 0x8000 demo_hooked = Inr (ELE7EN_OK, w2)
     \<and> (\<forall>a. a \<notin> {0, 1, 2, 3} \<longrightarrow> w_mem w2 a = w_mem demo_registered a)"
proof -
  obtain w2 where u: "inlineUnHook demo_os 0x8000 demo_hooked = Inr (ELE7EN_OK, w2)" using demo_unhook ..
  let ?it = "item (w_info demo_registered) 0"
  have o: "orig_instructions ?it = read_bytes (w_mem demo_registered) (CLEAR_BIT0 0x8000) (item_length ?it)" by code_simp
  have p: "proto_addr ?it = 0" "item_length ?it = 8" by code_simp+
  have d: "\<forall>j < 8. \<forall>k < 4. CLEAR_BIT0 0x8000 + of_nat j \<noteq> 0 + of_nat k"
  proof (intro allI impI)
    fix j k :: nat assume "j < 8" "k < 4"
    then have "(of_nat (0x8000 + j) :: u32) \<noteq> of_nat k"
      by (simp only: word_of_nat_eq_iff) (simp add: take_bit_nat_eq_self)
    then show "CLEAR_BIT0 0x8000 + of_nat j \<noteq> 0 + of_nat k" by (simp add: CLEAR_BIT0_def)
  qed
  have "\<forall>a. (\<forall>k < 4. a \<noteq> 0 + of_nat k) \<longrightarrow> w_mem w2 a = w_mem demo_registered a"
    using hook_unhook_restores [OF demo_hook u demo_wf demo_find] o d unfolding p by blast
  moreover have "(\<forall>k < 4. a \<noteq> 0 + of_nat k) \<longleftrightarrow> a \<notin> {0, 1, 2, 3}" for a :: u32
    by (auto simp: numeral_eq_Suc less_Suc_eq)
  ultimately show ?thesis using u by auto
qed

lemma doProcessThreadPC_rows:
  assumes "bd_inv p q (bounds it)" "p \<le> 2 ^ 32" "q \<le> 2 ^ 32" "i < boundaries.count (bounds it)"
  defines "pc \<equiv> CLEAR_BIT0 (target_addr it) + of_nat (orig_boundaries (bounds it) ! i)"
    and "pc' \<equiv> trampoline_instructions it + of_nat (trampoline_boundaries (bounds it) ! i)"
  shows "doProcessThreadPC it ACTION_ENABLE pc = Some pc' \<and> doProcessThreadPC it ACTION_DISABLE pc' = Some pc"
proof -
  have "find_boundary (orig_boundaries (bounds it)) (boundaries.count (bounds it)) (of_nat (orig_boundaries (bounds it) ! i)) = Some i"
    using assms(1,2,4) by (intro find_boundary_nth) (auto simp: bd_inv_def)
  moreover have "find_boundary (trampoline_boundaries (bounds it)) (boundaries.count (bounds it))
      (of_nat (trampoline_boundaries (bounds it) ! i)) = Some i"
    using assms(1,3,4) by (intro find_boundary_nth) (auto simp: bd_inv_def)
  ultimately show ?thesis by (simp add: doProcessThreadPC_def pc_def pc'_def)
qed

lemma register_rows:
  assumes "registerInlineHook os t new proto w = Inr (ELE7EN_OK, w1)" "boundaries.count (bounds (item (w_info w) (size_info (w_info w)))) = 0"
  defines "it \<equiv> item (w_info w1) (size_info (w_info w))"
  shows "target_addr it = t" "trampoline_instructions it = os_mmap os" "\<exists>p q. bd_inv p q (bounds it) \<and> p \<le> 2 ^ 32 \<and> q \<le> 2 ^ 32 \<and> 0 < boundaries.count (bounds it)"
proof -
  let ?n = "size_info (w_info w)" and ?len = "if TEST_BIT0 t then 12 else 8 :: nat"
  let ?info = "(w_info w)\<lparr>size_info := Suc ?n\<rparr>" and ?orig = "read_bytes (w_mem w) (CLEAR_BIT0 t) ?len"
  let ?w1 = "mmap_page (os_mmap os) (w\<lparr>w_info := ?info\<rparr>)"
  have none: "isExecutableAddr os t \<and> isExecutableAddr os new" "findInlineHookItem t (w_info w) = None"
    "addInlineHookItem (w_info w) = Some (?n, ?info)" "os_malloc os"
    using assms(1) by (auto simp: registerInlineHook_def addInlineHookItem_def split: if_splits option.splits)
  let ?r = "relocateInstruction (load32 (w_mem ?w1)) t ?orig ?len (bounds (item (w_info w) ?n))"
  obtain code bd where r: "?r = Inr (code, bd)"
    using assms(1) none by (cases ?r) (auto simp: registerInlineHook_def Let_def)
  obtain w2 where w2: "store_bytes (os_mmap os) code ?w1 = Inr w2"
    using assms(1) none r by (cases "store_bytes (os_mmap os) code ?w1") (simp_all add: registerInlineHook_def Let_def)
  have "w1 = set_item ?n \<lparr>target_addr = t, new_addr = new, proto_addr = proto, orig_instructions = ?orig, bounds = bd,
         trampoline_instructions = os_mmap os, item_length = ?len, status = REGISTERED\<rparr> w2"
    using assms(1) none r w2 by (simp add: registerInlineHook_def Let_def)
  then have it: "target_addr it = t" "trampoline_instructions it = os_mmap os" "bounds it = bd" by (simp_all add: it_def set_item_def)
  have "\<exists>p q. bd_inv p q bd \<and> p \<le> 2 ^ 32 \<and> q \<le> 2 ^ 32 \<and> 0 < boundaries.count bd"
    by (rule relocation_rows [OF r assms(2)]) (auto simp: TEST_BIT0_def)
  then show "target_addr it = t" "trampoline_instructions it = os_mmap os" "\<exists>p q. bd_inv p q (bounds it) \<and> p \<le> 2 ^ 32 \<and> q \<le> 2 ^ 32 \<and> 0 < boundaries.count (bounds it)"
    using it by simp_all
qed

text \<open>
  (C19) After a successful registration in a table slot without rows of an earlier item, the table of the new item has rows, and for each of them: a
  thread stopped at the instruction of the prologue that the row names is moved to the copy of that instruction when the hook
  is enabled, and from the copy back to it when the hook is disabled.  (Registering leaves the rows of a removed item in its slot, and
  with such rows in front the translation can go wrong.)
\<close>

theorem thread_pc_roundtrip:
  assumes "registerInlineHook os t new proto w = Inr (ELE7EN_OK, w1)" "boundaries.count (bounds (item (w_info w) (size_info (w_info w)))) = 0"
  defines "it \<equiv> item (w_info w1) (size_info (w_info w))"
  shows "0 < boundaries.count (bounds it) \<and> (\<forall>i < boundaries.count (bounds it).
      doProcessThreadPC it ACTION_ENABLE (CLEAR_BIT0 t + of_nat (orig_boundaries (bounds it) ! i))
        = Some (os_mmap os + of_nat (trampoline_boundaries (bounds it) ! i))
    \<and> doProcessThreadPC it ACTION_DISABLE (os_mmap os + of_nat (trampoline_boundaries (bounds it) ! i))
        = Some (CLEAR_BIT0 t + of_nat (orig_boundaries (bounds it) ! i)))"
proof -
  obtain p q where b: "bd_inv p q (bounds it)" "p \<le> 2 ^ 32" "q \<le> 2 ^ 32" "0 < boundaries.count (bounds it)"
    using register_rows(3) [OF assms(1,2)] unfolding it_def by blast
  have e: "target_addr it = t" "trampoline_instructions it = os_mmap os" using register_rows(1,2) [OF assms(1,2)] unfolding it_def by simp_all
  show ?thesis using doProcessThreadPC_rows [OF b(1-3)] b(4) unfolding e by blast
qed

theorem thread_pc_roundtrip_witness:
  "doProcessThreadPC (item (w_info demo_registered) 0) ACTION_ENABLE 0x8004 = Some 0x20000004
   \<and> doProcessThreadPC (item (w_info demo_registered) 0) ACTION_DISABLE 0x20000004 = Some 0x8004"
proof -
  let ?it = "item (w_info demo_registered) 0"
  have b: "bounds ?it = \<lparr>orig_boundaries = [0, 4, 0, 0], trampoline_boundaries = [0, 4] @ replicate 18 0, count = 2\<rparr>"
    by code_simp
  have n: "size_info (w_info demo_world) = 0" "boundaries.count (bounds (item (w_info demo_world) 0)) = 0" "os_mmap demo_os = 0x20000000"
    by code_simp+
  show ?thesis
    using thread_pc_roundtrip [OF demo_register, unfolded n, OF refl, THEN conjunct2, THEN spec, of 1] by (simp add: b CLEAR_BIT0_def)
qed

text \<open>
  (C21) Whatever the outcome of \<^verbatim>\<open>inlineHook\<close> and \<^verbatim>\<open>inlineUnHook\<close>, no thread is left stopped.
\<close>

theorem no_thread_left_stopped:
  assumes "\<forall>tid. \<not> w_stopped w tid"
    "inlineHook os t w = Inr (st, w') \<or> inlineUnHook os t w = Inr (st, w')"
  shows "\<not> w_stopped w' tid"
  using assms(2)
proof
  assume "inlineHook os t w = Inr (st, w')"
  then show ?thesis
    using assms(1)
    by (auto simp: inlineHook_def Let_def dest: doInlineHook_threads freeze_release
        split: option.splits if_splits sum.splits prod.splits)
next
  assume "inlineUnHook os t w = Inr (st, w')"
  then show ?thesis
    using assms(1)
    by (auto simp: inlineUnHook_def Let_def dest: doInlineUnHook_threads freeze_release
        split: option.splits if_splits sum.splits prod.splits)
qed

theorem no_thread_left_stopped_witness: "\<not> w_stopped demo_hooked 7"
proof -
  have "w_stopped demo_registered = w_stopped demo_world" by (rule register_threads [OF demo_register])
  then have "w_stopped demo_registered = (\<lambda>_. False)" by (simp add: demo_world_def)
  then show ?thesis using no_thread_left_stopped [of demo_registered demo_os "0x8000" ELE7EN_OK demo_hooked 7] demo_hook by simp
qed

text \<open>
  (C20) In every state the five entry points lead to, the table holds at most 1024 items, no two of them for
  the same target, and no entry point returns \<^verbatim>\<open>ELE7EN_ERROR_UNKNOWN\<close>.
\<close>

theorem table_invariant:
  assumes "hook_reach w"
  shows "size_info (w_info w) \<le> 1024 \<and> distinct (map target_addr (live (w_info w)))
     \<and> (\<forall>os t. \<forall>w'. inlineHook os t w \<noteq> Inr (ELE7EN_ERROR_UNKNOWN, w'))
     \<and> (\<forall>os t new proto. \<forall>w'. registerInlineHook os t new proto w \<noteq> Inr (ELE7EN_ERROR_UNKNOWN, w'))"
proof -
  have wf: "hook_wf (w_info w)" using hook_reach_wf [OF assms] .
  have ok: "status (item (w_info w) i) = REGISTERED \<or> status (item (w_info w) i) = HOOKED"
    if "findInlineHookItem t (w_info w) = Some i" for t i
    using hook_wf_item [OF wf] find_item [OF that] by (simp add: item_ok_def)
  show ?thesis
    using wf ok
    by (auto simp: hook_wf_def inlineHook_def registerInlineHook_def Let_def
        split: option.splits if_splits sum.splits prod.splits)
qed

theorem table_invariant_witness: "size_info (w_info demo_hooked) \<le> 1024"
proof -
  have "hook_reach demo_world" by (rule reach_init) (simp add: demo_world_def)
  from reach_step [OF this step_register [OF demo_register]] have "hook_reach demo_registered" .
  from reach_step [OF this step_hook [OF demo_hook]] show ?thesis using table_invariant by blast
qed

text \<open>
  \<^verbatim>\<open>inlineUnHookAll\<close> removes exactly the hooked items, though every removal moves the last item into
  the freed slot.
\<close>

theorem unhook_all_removes_hooked:
  assumes "inlineUnHookAll os w = Inr w'" "hook_wf (w_info w)"
  shows "mset (live (w_info w')) = filter_mset (\<lambda>it. status it \<noteq> HOOKED) (mset (live (w_info w)))"
  using unhook_all_spec [OF assms] by simp

theorem unhook_all_removes_hooked_witness:
  "\<exists>w'. inlineUnHookAll demo_os demo_hooked = Inr w' \<and>
     mset (live (w_info w')) = filter_mset (\<lambda>it. status it \<noteq> HOOKED) (mset (live (w_info demo_hooked)))"
proof -
  have "(case inlineUnHookAll demo_os demo_hooked of Inr _ \<Rightarrow> True | Inl _ \<Rightarrow> False)" by code_simp
  then obtain w' where w': "inlineUnHookAll demo_os demo_hooked = Inr w'" by (auto split: sum.splits)
  show ?thesis using w' unhook_all_removes_hooked [OF w'] hook_wf_hook [OF demo_hook demo_wf] by blast
qed

definition demo_used_world :: world where
  "demo_used_world = demo_world\<lparr>w_info := info0\<lparr>item := \<lambda>_. zero_item\<lparr>bounds :=
     \<lparr>orig_boundaries = [0, 4, 0, 4], trampoline_boundaries = [0, 4, 0, 4] @ replicate 16 0, count = 4\<rparr>\<rparr>\<rparr>\<rparr>"

text \<open>
  (C22) A slot that was used before keeps its \<^verbatim>\<open>count\<close>: registering an ARM function in a slot with three or
  more stale rows writes past the end of \<^verbatim>\<open>orig_boundaries\<close>.
\<close>

theorem used_up_slot_overflows:
  assumes "isExecutableAddr os t" "isExecutableAddr os new" "findInlineHookItem t (w_info w) = None"
    "size_info (w_info w) < 1024" "os_malloc os" "t AND 3 = 0"
    "bounds (item (w_info w) (size_info (w_info w))) = bd" "length (orig_boundaries bd) = 4" "3 \<le> boundaries.count bd"
  shows "registerInlineHook os t new proto w = Inl OutOfBounds"
proof -
  let ?ws = "words (read_bytes (w_mem w) t 8)"
  have tb: "\<not> TEST_BIT0 t" "CLEAR_BIT0 t = t" "t AND 1 = 0"
    using assms(6) aligned_bits(1) [OF assms(6)] CLEAR_BIT0_arm by (simp_all add: TEST_BIT0_def)
  obtain a b where ws: "?ws = [a, b]" using length_2 [of ?ws] by (auto simp: length_words)
  have "relocateInstructionInArm ld t ?ws 8 bd = Inl OutOfBounds" for ld
    unfolding ws using assms(8,9) by (auto simp: relocateInstructionInArm_def record_boundary_def)
  then have "relocateInstruction ld t (read_bytes (w_mem w) t 8) 8 bd = Inl OutOfBounds" for ld
    using tb(3) by (simp add: relocateInstruction_def)
  then show ?thesis
    using assms tb by (simp add: registerInlineHook_def addInlineHookItem_def Let_def)
qed

theorem used_up_slot_overflows_witness:
  "registerInlineHook demo_os 0x8000 0x8100 0 demo_used_world = Inl OutOfBounds"
proof -
  have "isExecutableAddr demo_os 0x8000" "isExecutableAddr demo_os 0x8100" by code_simp+
  then show ?thesis
    using used_up_slot_overflows [of demo_os "0x8000" "0x8100" demo_used_world]
    by (simp add: demo_used_world_def info0_def demo_os_def findInlineHookItem_def zero_item_def)
qed

lemma unhook_flushes_moved_item:
  assumes "doInlineUnHook i w = Inr w'" "i < size_info (w_info w) - 1"
  shows "last (w_flush w') =
    (let it = item (w_info w) (size_info (w_info w) - 1); a = CLEAR_BIT0 (target_addr it) in (a, a + of_nat (item_length it)))"
  using assms
  by (auto simp: doInlineUnHook_def Let_def cacheflush_def mprotect2_def munmap_page_def deleteInlineHookItem_def
      dest!: store_bytes_frame(1) split: sum.splits)

end
