(* ===== verification/Lite_Buffer.thy ===== *)
theory Lite_Buffer
  imports C_Prelude
begin

text \<open>
  The growing containers of \<^verbatim>\<open>Dobby/external/stdcxx\<close> and the code buffers of
  \<^verbatim>\<open>Dobby/source/CodeBufferKit\<close> that every assembler emits into.  A buffer is its backing store, the
  cursor as an offset into it, and its capacity; \<open>contents\<close> is what was emitted.  The locale
  \<open>byte_sink\<close> states what the assemblers rely on: emitting appends, and patching or loading inside the
  emitted part acts on the emitted bytes alone.  The bytes of a fresh \<^verbatim>\<open>malloc\<close> block are the parameter
  \<open>junk\<close>; \<^verbatim>\<open>malloc\<close> succeeds, since the code asserts it.  Sizes are natural numbers;
  the lemmas keep them below \<open>2 ^ 30\<close>, where no \<^verbatim>\<open>int\<close> computation of the code overflows.
\<close>

section \<open>LiteMutableBuffer\<close>

record LiteMutableBuffer =
  buffer :: "u8 list"
  cursor :: nat
  capacity :: nat

definition CAPACITY_STEP :: nat where
  "CAPACITY_STEP = 64"

definition initWithCapacity :: "(nat \<Rightarrow> u8) \<Rightarrow> int \<Rightarrow> LiteMutableBuffer option" where
  "initWithCapacity junk in_capacity =
     (if in_capacity \<le> 0 then None
      else Some \<lparr>buffer = map junk [0..<nat in_capacity], cursor = 0, capacity = nat in_capacity\<rparr>)"

definition getSize :: "LiteMutableBuffer \<Rightarrow> nat" where
  "getSize b = cursor b"

definition align_step :: "nat \<Rightarrow> nat" where
  "align_step n = unat (ALIGN_FLOOR (of_nat (n + CAPACITY_STEP) :: u64) (of_nat CAPACITY_STEP))"

definition ensureCapacity :: "nat \<Rightarrow> LiteMutableBuffer \<Rightarrow> LiteMutableBuffer" where
  "ensureCapacity new_capacity b =
     (if new_capacity \<le> capacity b then b
      else let new_capacity = align_step new_capacity;
               new_buffer = replicate new_capacity 0x41;
               offset = cursor b
           in b\<lparr>buffer := poke 0 (take offset (buffer b)) new_buffer, cursor := offset, capacity := new_capacity\<rparr>)"

definition put_cursor :: "u8 list \<Rightarrow> LiteMutableBuffer \<Rightarrow> LiteMutableBuffer" where
  "put_cursor bs b = b\<lparr>buffer := poke (cursor b) bs (buffer b), cursor := cursor b + length bs\<rparr>"

section \<open>CodeBuffer\<close>

definition Emit8 :: "u8 \<Rightarrow> LiteMutableBuffer \<Rightarrow> LiteMutableBuffer" where
  "Emit8 v b = put_cursor [v] (ensureCapacity (1 + getSize b) b)"

definition Emit16 :: "u16 \<Rightarrow> LiteMutableBuffer \<Rightarrow> LiteMutableBuffer" where
  "Emit16 v b = put_cursor (le_bytes 2 v) (ensureCapacity (2 + getSize b) b)"

definition Emit32 :: "u32 \<Rightarrow> LiteMutableBuffer \<Rightarrow> LiteMutableBuffer" where
  "Emit32 v b = put_cursor (le_bytes 4 v) (ensureCapacity (4 + getSize b) b)"

definition Emit64 :: "u64 \<Rightarrow> LiteMutableBuffer \<Rightarrow> LiteMutableBuffer" where
  "Emit64 v b = put_cursor (le_bytes 8 v) (ensureCapacity (8 + getSize b) b)"

definition EmitBuffer :: "u8 list \<Rightarrow> LiteMutableBuffer \<Rightarrow> LiteMutableBuffer" where
  "EmitBuffer src b = put_cursor src (ensureCapacity (length src + getSize b) b)"

definition copy :: "(nat \<Rightarrow> u8) \<Rightarrow> LiteMutableBuffer \<Rightarrow> LiteMutableBuffer option" where
  "copy junk b = map_option (EmitBuffer (take (getSize b) (buffer b))) (initWithCapacity junk (int (capacity b)))"

definition load_bytes :: "nat \<Rightarrow> nat \<Rightarrow> LiteMutableBuffer \<Rightarrow> u8 list res" where
  "load_bytes n offset b = (if offset + n \<le> capacity b then Inr (peek offset n (buffer b)) else Inl OutOfBounds)"

definition patch_bytes :: "nat \<Rightarrow> u8 list \<Rightarrow> LiteMutableBuffer \<Rightarrow> LiteMutableBuffer res" where
  "patch_bytes offset bs b =
     (if offset + length bs \<le> capacity b then Inr (b\<lparr>buffer := poke offset bs (buffer b)\<rparr>) else Inl OutOfBounds)"

definition LoadInst :: "nat \<Rightarrow> LiteMutableBuffer \<Rightarrow> u32 res" where
  "LoadInst offset b = map_sum id le_word (load_bytes 4 offset b)"

definition FixBindLabel :: "nat \<Rightarrow> u32 \<Rightarrow> LiteMutableBuffer \<Rightarrow> LiteMutableBuffer res" where
  "FixBindLabel offset instr b = patch_bytes offset (le_bytes 4 instr) b"

definition LoadThumb1Inst :: "nat \<Rightarrow> LiteMutableBuffer \<Rightarrow> u16 res" where
  "LoadThumb1Inst offset b = map_sum id le_word (load_bytes 2 offset b)"

definition RewriteThumb1Inst :: "nat \<Rightarrow> u16 \<Rightarrow> LiteMutableBuffer \<Rightarrow> LiteMutableBuffer res" where
  "RewriteThumb1Inst offset instr b = patch_bytes offset (le_bytes 2 instr) b"

section \<open>The interface the assemblers rely on\<close>

definition buf_ok :: "LiteMutableBuffer \<Rightarrow> bool" where
  "buf_ok b \<longleftrightarrow> length (buffer b) = capacity b \<and> cursor b \<le> capacity b \<and> capacity b < 2 ^ 31"

definition contents :: "LiteMutableBuffer \<Rightarrow> u8 list" where
  "contents b = take (cursor b) (buffer b)"

text \<open>The growth macro rounds down to a multiple of the step, past the requested size.\<close>

lemma align_step_eq:
  assumes "n < 2 ^ 63"
  shows "align_step n = (n + 64) div 64 * 64"
proof -
  let ?w = "of_nat (n + 64) :: u64"
  have t: "take_bit 64 (n + 64) = n + 64" using assms by (intro take_bit_nat_eq_self) simp
  have u: "unat ?w = n + 64" by (subst unsigned_of_nat) (simp only: len_num1 len_bit0 mult.right_neutral t of_nat_id, simp add: t)
  have m: "mask 6 = (63 :: u64)" by (simp add: mask_eq_exp_minus_1)
  have "align_step n = unat (?w AND NOT (mask 6))" unfolding m by (simp add: align_step_def CAPACITY_STEP_def ALIGN_FLOOR_def)
  also have "?w AND NOT (mask 6) = push_bit 6 (drop_bit 6 ?w)"
    by (rule bit_word_eqI) (auto simp: bit_simps)
  also have "unat \<dots> = take_bit 64 (push_bit 6 (drop_bit 6 (n + 64)))"
    by (simp only: unsigned_push_bit_eq unsigned_drop_bit_eq u) (simp add: t)
  also have "\<dots> = (n + 64) div 64 * 64"
    using assms by (subst take_bit_nat_eq_self) (simp_all add: push_bit_eq_mult drop_bit_eq_div)
  finally show ?thesis .
qed

lemma align_step_bounds: "n < 2 ^ 63 \<Longrightarrow> n < align_step n \<and> align_step n \<le> n + 64"
  by (simp add: align_step_eq)

lemma ensureCapacity_props:
  assumes "buf_ok b" "n < 2 ^ 30"
  shows "buf_ok (ensureCapacity n b)" "contents (ensureCapacity n b) = contents b"
    "cursor (ensureCapacity n b) = cursor b" "n \<le> capacity (ensureCapacity n b)"
proof -
  note a = align_step_bounds [of n]
  have c: "\<not> n \<le> capacity b \<Longrightarrow> cursor b \<le> align_step n" using a assms by (simp add: buf_ok_def)
  show "buf_ok (ensureCapacity n b)" "n \<le> capacity (ensureCapacity n b)" "cursor (ensureCapacity n b) = cursor b"
    "contents (ensureCapacity n b) = contents b"
    using a c assms by (auto simp: ensureCapacity_def buf_ok_def Let_def contents_def poke_def)
qed

lemma put_cursor_props:
  assumes "buf_ok b" "cursor b + length bs \<le> capacity b"
  shows "buf_ok (put_cursor bs b)" "contents (put_cursor bs b) = contents b @ bs"
  using assms by (auto simp: put_cursor_def buf_ok_def contents_def poke_def)

text \<open>
  \<open>put\<close> appends while the emitted bytes stay below \<open>limit\<close>; \<open>patch\<close> and \<open>load\<close> inside the emitted part
  act on it.
\<close>

locale byte_sink =
  fixes ok :: "'s \<Rightarrow> bool" and out :: "'s \<Rightarrow> u8 list" and put :: "u8 list \<Rightarrow> 's \<Rightarrow> 's"
    and limit :: nat
  assumes put_ok: "ok b \<Longrightarrow> length (out b) + length bs < limit \<Longrightarrow> ok (put bs b)"
    and put_out: "ok b \<Longrightarrow> length (out b) + length bs < limit \<Longrightarrow> out (put bs b) = out b @ bs"
begin

lemma put_all:
  "ok b \<Longrightarrow> length (out b) + length (concat bss) < limit \<Longrightarrow>
   ok (fold put bss b) \<and> out (fold put bss b) = out b @ concat bss"
proof (induction bss arbitrary: b)
  case Nil
  then show ?case by simp
next
  case (Cons bs bss)
  have "ok (put bs b)" "out (put bs b) = out b @ bs"
    using Cons.prems put_ok [of b bs] put_out [of b bs] by simp_all
  with Cons.IH [of "put bs b"] Cons.prems show ?case by simp
qed

lemma put_append:
  "ok b \<Longrightarrow> length (out b) + length xs + length ys < limit \<Longrightarrow> out (put ys (put xs b)) = out (put (xs @ ys) b)"
  using put_all [of b "[xs, ys]"] put_out [of b "xs @ ys"] by simp

end

locale patchable_sink = byte_sink +
  fixes patch :: "nat \<Rightarrow> u8 list \<Rightarrow> 's \<Rightarrow> 's res" and load :: "nat \<Rightarrow> nat \<Rightarrow> 's \<Rightarrow> u8 list res"
  assumes patch_inside: "ok b \<Longrightarrow> i + length bs \<le> length (out b) \<Longrightarrow>
      \<exists>b'. patch i bs b = Inr b' \<and> ok b' \<and> out b' = poke i bs (out b)"
    and load_inside: "ok b \<Longrightarrow> i + n \<le> length (out b) \<Longrightarrow> load n i b = Inr (peek i n (out b))"
begin

text \<open>What is patched is loaded back, and the rest of the emitted bytes keeps its value.\<close>

lemma load_after_patch:
  assumes "ok b" "i + length bs \<le> length (out b)" "patch i bs b = Inr b'"
  shows "load (length bs) i b' = Inr bs"
    and "j + n \<le> i \<or> i + length bs \<le> j \<Longrightarrow> j + n \<le> length (out b) \<Longrightarrow> load n j b' = load n j b"
proof -
  have b': "ok b'" "out b' = poke i bs (out b)" using patch_inside [OF assms(1,2)] assms(3) by auto
  show "load (length bs) i b' = Inr bs" using load_inside [OF b'(1), of i "length bs"] assms(2) b'(2) by simp
  show "load n j b' = load n j b" if "j + n \<le> i \<or> i + length bs \<le> j" "j + n \<le> length (out b)"
    using load_inside [OF b'(1), of j n] load_inside [OF assms(1) that(2)] b'(2) assms(2) that
      peek_poke_other [of i bs "out b" j n] by simp
qed

lemma load_after_put:
  assumes "ok b" "length (out b) + length bs < limit"
  shows "load (length bs) (length (out b)) (put bs b) = Inr bs"
    and "j + n \<le> length (out b) \<Longrightarrow> load n j (put bs b) = load n j b"
  using load_inside [OF put_ok [OF assms], of "length (out b)" "length bs"]
    load_inside [OF put_ok [OF assms], of j n] load_inside [OF assms(1), of j n]
  by (simp_all add: put_out [OF assms] peek_def)

end

lemma emit_ok:
  assumes "buf_ok b" "length (contents b) + length bs < 2 ^ 30"
  shows "buf_ok (EmitBuffer bs b) \<and> contents (EmitBuffer bs b) = contents b @ bs"
proof -
  have c: "length (contents b) = cursor b" using assms(1) by (simp add: contents_def buf_ok_def)
  let ?e = "ensureCapacity (length bs + getSize b) b"
  have s: "length bs + getSize b < 2 ^ 30" using assms(2) c by (simp add: getSize_def)
  note e = ensureCapacity_props [OF assms(1) s]
  have "cursor ?e + length bs \<le> capacity ?e" using e(3,4) by (simp add: getSize_def)
  from put_cursor_props [OF e(1) this] e(2) show ?thesis by (simp add: EmitBuffer_def)
qed

interpretation code: patchable_sink buf_ok contents EmitBuffer "2 ^ 30" patch_bytes load_bytes
proof unfold_locales
  fix b :: LiteMutableBuffer and i n and bs :: "u8 list"
  assume ok: "buf_ok b"
  show "buf_ok (EmitBuffer bs b)" "contents (EmitBuffer bs b) = contents b @ bs"
    if "length (contents b) + length bs < 2 ^ 30" using emit_ok [OF ok that] by simp_all
  show "\<exists>b'. patch_bytes i bs b = Inr b' \<and> buf_ok b' \<and> contents b' = poke i bs (contents b)"
    if "i + length bs \<le> length (contents b)"
    using ok that by (auto simp: patch_bytes_def buf_ok_def contents_def take_poke)
  show "load_bytes n i b = Inr (peek i n (contents b))" if "i + n \<le> length (contents b)"
  proof -
    have "i + n \<le> cursor b" "i + n \<le> capacity b" using ok that by (auto simp: buf_ok_def contents_def)
    then show ?thesis using ok by (simp add: load_bytes_def contents_def peek_def drop_take min_def)
  qed
qed

lemma length_contents [simp]: "buf_ok b \<Longrightarrow> length (contents b) = getSize b"
  by (simp add: buf_ok_def contents_def getSize_def)

text \<open>The sized emitters are \<open>EmitBuffer\<close> of the little-endian bytes.\<close>

lemma Emit_eq_EmitBuffer:
  "Emit8 v8 b = EmitBuffer [v8] b" "Emit16 v16 b = EmitBuffer (le_bytes 2 v16) b"
  "Emit32 v32 b = EmitBuffer (le_bytes 4 v32) b" "Emit64 v64 b = EmitBuffer (le_bytes 8 v64) b"
  by (simp_all add: Emit8_def Emit16_def Emit32_def Emit64_def EmitBuffer_def)

lemma LoadInst_inside:
  "buf_ok b \<Longrightarrow> i + 4 \<le> getSize b \<Longrightarrow> LoadInst i b = Inr (le_word (peek i 4 (contents b)))"
  using code.load_inside [of b i 4] by (simp add: LoadInst_def)

lemma FixBindLabel_inside:
  "buf_ok b \<Longrightarrow> i + 4 \<le> getSize b \<Longrightarrow>
   \<exists>b'. FixBindLabel i v b = Inr b' \<and> buf_ok b' \<and> contents b' = poke i (le_bytes 4 v) (contents b)"
  using code.patch_inside [of b i "le_bytes 4 v"] by (simp add: FixBindLabel_def)

lemma initWithCapacity_ok:
  "initWithCapacity junk n = Some b \<Longrightarrow> n < 2 ^ 31 \<Longrightarrow> buf_ok b \<and> contents b = []"
  by (auto simp: initWithCapacity_def buf_ok_def contents_def split: if_splits)

lemma copy_contents:
  assumes "buf_ok b" "0 < getSize b" "getSize b < 2 ^ 30"
  shows "\<exists>b'. copy junk b = Some b' \<and> buf_ok b' \<and> contents b' = contents b"
proof -
  let ?c = "\<lparr>buffer = map junk [0..<capacity b], cursor = 0, capacity = capacity b\<rparr>"
  have c: "buf_ok ?c" "contents ?c = []" using assms(1) by (simp_all add: buf_ok_def contents_def)
  have "0 < capacity b" using assms(1,2) by (simp add: buf_ok_def getSize_def)
  then have "copy junk b = Some (EmitBuffer (contents b) ?c)"
    by (simp add: copy_def initWithCapacity_def contents_def getSize_def)
  then show ?thesis using emit_ok [OF c(1), of "contents b"] c(2) assms(1,3) by simp
qed

section \<open>LiteMutableArray\<close>

text \<open>
  An array of object pointers.  A slot that no object was stored in holds \<open>None\<close>: following what is
  there would be an access outside every object.
\<close>

record 'a LiteMutableArray =
  arr_count :: nat
  arr_capacity :: nat
  array :: "'a option list"

definition arr_initWithCapacity :: "nat \<Rightarrow> 'a LiteMutableArray" where
  "arr_initWithCapacity inCapacity =
     \<lparr>arr_count = 0, arr_capacity = inCapacity, array = replicate inCapacity None\<rparr>"

definition getObject :: "nat \<Rightarrow> 'a LiteMutableArray \<Rightarrow> 'a res" where
  "getObject index a =
     (if index < arr_capacity a then (case array a ! index of Some ob \<Rightarrow> Inr ob | None \<Rightarrow> Inl AccessFault)
      else Inl OutOfBounds)"

definition getCount :: "'a LiteMutableArray \<Rightarrow> nat" where
  "getCount a = arr_count a"

definition arr_ensureCapacity :: "nat \<Rightarrow> 'a LiteMutableArray \<Rightarrow> nat \<times> 'a LiteMutableArray" where
  "arr_ensureCapacity newCapacity a =
     (if newCapacity \<le> arr_capacity a then (arr_capacity a, a)
      else let newCapacity = align_step newCapacity
           in (newCapacity,
               a\<lparr>array := poke 0 (take (arr_count a) (array a)) (replicate newCapacity None), arr_capacity := newCapacity\<rparr>))"

definition pushObject :: "'a \<Rightarrow> 'a LiteMutableArray \<Rightarrow> bool \<times> 'a LiteMutableArray" where
  "pushObject ob a =
     (let newCount = arr_count a + 1;
          (grown, a') = (if arr_capacity a < newCount
                         then (let (c, a') = arr_ensureCapacity newCount a in (newCount \<le> c, a'))
                         else (True, a))
      in if grown then (True, a'\<lparr>array := (array a')[arr_count a' := Some ob], arr_count := arr_count a' + 1\<rparr>)
         else (False, a'))"

definition getNextObjectForIterator :: "nat \<Rightarrow> 'a LiteMutableArray \<Rightarrow> nat \<times> 'a option" where
  "getNextObjectForIterator index a =
     (index + 1, if index < arr_count a then array a ! index else None)"

definition arr_ok :: "'a LiteMutableArray \<Rightarrow> bool" where
  "arr_ok a \<longleftrightarrow> length (array a) = arr_capacity a \<and> arr_count a \<le> arr_capacity a \<and> arr_capacity a < 2 ^ 31
     \<and> None \<notin> set (take (arr_count a) (array a))"

definition objects :: "'a LiteMutableArray \<Rightarrow> 'a list" where
  "objects a = map the (take (arr_count a) (array a))"

lemma arr_init_ok: "n < 2 ^ 31 \<Longrightarrow> arr_ok (arr_initWithCapacity n) \<and> objects (arr_initWithCapacity n) = []"
  by (simp add: arr_initWithCapacity_def arr_ok_def objects_def)

lemma arr_init_simps [simp]:
  "objects (arr_initWithCapacity n) = []" "getCount (arr_initWithCapacity n) = 0"
  "arr_ok (arr_initWithCapacity n) \<longleftrightarrow> n < 2 ^ 31"
  by (simp_all add: arr_initWithCapacity_def arr_ok_def objects_def getCount_def)

lemma length_objects [simp]: "arr_ok a \<Longrightarrow> length (objects a) = getCount a"
  by (simp add: arr_ok_def objects_def getCount_def)

lemma arr_ensureCapacity_props:
  assumes "arr_ok a" "n < 2 ^ 30" "arr_ensureCapacity n a = (c, a')"
  shows "arr_ok a'" "objects a' = objects a" "arr_count a' = arr_count a" "c = arr_capacity a'" "n \<le> arr_capacity a'"
proof -
  note s = align_step_bounds [of n]
  have c: "\<not> n \<le> arr_capacity a \<Longrightarrow> arr_count a \<le> align_step n" using s assms by (simp add: arr_ok_def)
  show "arr_ok a'" "objects a' = objects a" "arr_count a' = arr_count a" "c = arr_capacity a'" "n \<le> arr_capacity a'"
    using s c assms by (auto simp: arr_ensureCapacity_def arr_ok_def objects_def Let_def poke_def split: if_splits)
qed

lemma pushObject_props:
  assumes "arr_ok a" "getCount a < 2 ^ 29"
  shows "\<exists>a'. pushObject ob a = (True, a') \<and> arr_ok a' \<and> objects a' = objects a @ [ob]"
proof -
  obtain c a1 where e: "arr_ensureCapacity (arr_count a + 1) a = (c, a1)" by (metis surj_pair)
  have n: "arr_count a + 1 < 2 ^ 30" using assms(2) by (simp add: getCount_def)
  note p = arr_ensureCapacity_props [OF assms(1) n e]
  have store: "arr_ok (b\<lparr>array := (array b)[arr_count b := Some ob], arr_count := arr_count b + 1\<rparr>) \<and>
      objects (b\<lparr>array := (array b)[arr_count b := Some ob], arr_count := arr_count b + 1\<rparr>) = objects b @ [ob]"
    if "arr_ok b" "arr_count b < arr_capacity b" for b :: "'a LiteMutableArray"
    using that by (auto simp: arr_ok_def objects_def take_Suc_conv_app_nth)
  show ?thesis
  proof (cases "arr_capacity a < arr_count a + 1")
    case True
    with store [OF p(1)] p e show ?thesis by (auto simp: pushObject_def Let_def)
  next
    case False
    with store [OF assms(1)] show ?thesis by (auto simp: pushObject_def Let_def)
  qed
qed

lemma getObject_inside: "arr_ok a \<Longrightarrow> i < getCount a \<Longrightarrow> getObject i a = Inr (objects a ! i)"
  by (auto simp: getObject_def arr_ok_def objects_def getCount_def in_set_conv_nth split: option.splits)

text \<open>Following the iterator from 0 yields the stored objects in order and then the null pointer.\<close>

lemma iterator_yields:
  "arr_ok a \<Longrightarrow> getNextObjectForIterator i a = (i + 1, if i < getCount a then Some (objects a ! i) else None)"
  by (auto simp: getNextObjectForIterator_def arr_ok_def objects_def getCount_def in_set_conv_nth)

end
