(* ===== verification/Assembler_Base.thy ===== *)
theory Assembler_Base
  imports Lite_Buffer
begin

text \<open>
  The parts of \<^verbatim>\<open>Dobby/source/core/modules/assembler/assembler.h\<close> and \<^verbatim>\<open>assembler.cc\<close> that every
  assembler inherits: labels, external references and the assembler's buffer with the address the
  code will run at.
\<close>

section \<open>Labels\<close>

text \<open>\<open>pos_\<close> is negative for a bound label, positive for a linked one and 0 for an unused one.\<close>

record Label =
  label_pos :: int
  near_link_pos :: int

definition new_label :: Label where
  "new_label = \<lparr>label_pos = 0, near_link_pos = 0\<rparr>"

definition is_bound :: "('a Label_scheme) \<Rightarrow> bool" where
  "is_bound l \<longleftrightarrow> label_pos l < 0"

definition is_unused :: "('a Label_scheme) \<Rightarrow> bool" where
  "is_unused l \<longleftrightarrow> label_pos l = 0 \<and> near_link_pos l = 0"

definition is_linked :: "('a Label_scheme) \<Rightarrow> bool" where
  "is_linked l \<longleftrightarrow> 0 < label_pos l"

definition pos :: "('a Label_scheme) \<Rightarrow> int" where
  "pos l = (if label_pos l < 0 then - label_pos l - 1 else if 0 < label_pos l then label_pos l - 1 else 0)"

definition bind_to :: "int \<Rightarrow> ('a Label_scheme) \<Rightarrow> ('a Label_scheme)" where
  "bind_to p l = l\<lparr>label_pos := - p - 1\<rparr>"

definition link_to :: "int \<Rightarrow> ('a Label_scheme) \<Rightarrow> ('a Label_scheme)" where
  "link_to p l = l\<lparr>label_pos := p + 1\<rparr>"

lemma label_states [simp]:
  "0 \<le> p \<Longrightarrow> is_bound (bind_to p l) \<and> pos (bind_to p l) = p \<and> \<not> is_linked (bind_to p l)"
  "0 \<le> p \<Longrightarrow> is_linked (link_to p l) \<and> pos (link_to p l) = p \<and> \<not> is_bound (link_to p l)"
  "\<not> is_bound new_label" "\<not> is_linked new_label" "\<not> is_linked (link_to (-1) l)"
  by (simp_all add: is_bound_def is_linked_def pos_def bind_to_def link_to_def new_label_def)

section \<open>AssemblerBase\<close>

record AssemblerBase =
  code_buffer :: LiteMutableBuffer
  realized_address :: u64

definition pc_offset :: "('a AssemblerBase_scheme) \<Rightarrow> nat" where
  "pc_offset a = getSize (code_buffer a)"

definition ip_offset :: "('a AssemblerBase_scheme) \<Rightarrow> nat" where
  "ip_offset a = getSize (code_buffer a)"

definition CommitRealizeAddress :: "u64 \<Rightarrow> ('a AssemblerBase_scheme) \<Rightarrow> ('a AssemblerBase_scheme)" where
  "CommitRealizeAddress address a = a\<lparr>realized_address := address\<rparr>"

text \<open>What an assembler has emitted, and emission as an operation on the assembler.\<close>

definition emitted :: "('a AssemblerBase_scheme) \<Rightarrow> u8 list" where
  "emitted a = contents (code_buffer a)"

definition asm_ok :: "('a AssemblerBase_scheme) \<Rightarrow> bool" where
  "asm_ok a \<longleftrightarrow> buf_ok (code_buffer a)"

definition emit_code :: "u8 list \<Rightarrow> ('a AssemblerBase_scheme) \<Rightarrow> ('a AssemblerBase_scheme)" where
  "emit_code bs a = a\<lparr>code_buffer := EmitBuffer bs (code_buffer a)\<rparr>"

text \<open>Loading and patching emitted instructions.\<close>

definition asm_load :: "nat \<Rightarrow> nat \<Rightarrow> ('a AssemblerBase_scheme) \<Rightarrow> u8 list res" where
  "asm_load n i a = load_bytes n i (code_buffer a)"

definition asm_patch :: "nat \<Rightarrow> u8 list \<Rightarrow> ('a AssemblerBase_scheme) \<Rightarrow> ('a AssemblerBase_scheme) res" where
  "asm_patch i bs a = map_sum id (\<lambda>b. a\<lparr>code_buffer := b\<rparr>) (patch_bytes i bs (code_buffer a))"

interpretation asm: patchable_sink asm_ok emitted emit_code "2 ^ 30" asm_patch asm_load
proof unfold_locales
  fix a :: "'z AssemblerBase_scheme" and i n and bs :: "u8 list"
  assume ok: "asm_ok a"
  show "asm_ok (emit_code bs a)" "emitted (emit_code bs a) = emitted a @ bs"
    if "length (emitted a) + length bs < 2 ^ 30"
    using ok that by (simp_all add: asm_ok_def emitted_def emit_code_def code.put_ok code.put_out)
  show "\<exists>a'. asm_patch i bs a = Inr a' \<and> asm_ok a' \<and> emitted a' = poke i bs (emitted a)"
    if "i + length bs \<le> length (emitted a)"
    using code.patch_inside [of "code_buffer a" i bs] ok that by (auto simp: asm_ok_def emitted_def asm_patch_def)
  show "asm_load n i a = Inr (peek i n (emitted a))" if "i + n \<le> length (emitted a)"
    using code.load_inside [of "code_buffer a" i n] ok that by (simp add: asm_ok_def emitted_def asm_load_def)
qed

lemma emit_code_ok [c_wf]: "asm_ok a \<Longrightarrow> pc_offset a + length bs < 2 ^ 30 \<Longrightarrow> asm_ok (emit_code bs a)"
  using asm.put_ok [of a bs] by (simp add: asm_ok_def emitted_def pc_offset_def)

lemma emit_code_emitted [c_wf]:
  "asm_ok a \<Longrightarrow> pc_offset a + length bs < 2 ^ 30 \<Longrightarrow> emitted (emit_code bs a) = emitted a @ bs"
  using asm.put_out [of a bs] by (simp add: asm_ok_def emitted_def pc_offset_def)

lemma length_emitted [simp]: "asm_ok a \<Longrightarrow> length (emitted a) = pc_offset a"
  by (simp add: asm_ok_def emitted_def pc_offset_def)

lemma pc_offset_emit_code [c_wf]:
  "asm_ok a \<Longrightarrow> pc_offset a + length bs < 2 ^ 30 \<Longrightarrow> pc_offset (emit_code bs a) = pc_offset a + length bs"
  using length_emitted [OF emit_code_ok [of a bs]] emit_code_emitted [of a bs] by simp

lemma emit_code_more [simp]:
  "realized_address (emit_code bs a) = realized_address a" "AssemblerBase.more (emit_code bs a) = AssemblerBase.more a"
  by (simp_all add: emit_code_def)

lemma CommitRealizeAddress_simps [simp]:
  "asm_ok (CommitRealizeAddress ad a) = asm_ok a" "emitted (CommitRealizeAddress ad a) = emitted a"
  "pc_offset (CommitRealizeAddress ad a) = pc_offset a" "realized_address (CommitRealizeAddress ad a) = ad"
  by (simp_all add: CommitRealizeAddress_def asm_ok_def emitted_def pc_offset_def)

lemma ip_offset_pc_offset: "ip_offset a = pc_offset a"
  by (simp add: ip_offset_def pc_offset_def)

lemma copy_emitted:
  assumes "asm_ok a" "0 < pc_offset a" "pc_offset a < 2 ^ 30"
  shows "\<exists>b. copy junk (code_buffer a) = Some b \<and> contents b = emitted a"
  using copy_contents [of "code_buffer a" junk] assms by (auto simp: asm_ok_def pc_offset_def emitted_def)

end
