(* ===== verification/Arm64_Constants.thy ===== *)
theory Arm64_Constants
  imports C_Prelude
begin

text \<open>
  The opcode tables of \<^verbatim>\<open>Dobby/source/core/arch/arm64/constants-arm64.h\<close>: every enumeration is a datatype
  with one constructor per enumerator and a function \<open>_code\<close> to its value.  The instruction lists that the
  header expands with different macros are one datatype each, which the derived enumerations take as
  an argument.  Names that clash with HOL or with variables carry the suffix \<open>_op\<close>.
\<close>

datatype Shift =
  NO_SHIFT | LSL | LSR | ASR | ROR | MSL

primrec Shift_code :: "Shift \<Rightarrow> u32" where
  "Shift_code NO_SHIFT = -1"
| "Shift_code LSL = 0"
| "Shift_code LSR = 1"
| "Shift_code ASR = 2"
| "Shift_code ROR = 3"
| "Shift_code MSL = 4"

datatype Extend =
  NO_EXTEND | UXTB | UXTH | UXTW | UXTX | SXTB | SXTH | SXTW | SXTX

primrec Extend_code :: "Extend \<Rightarrow> u32" where
  "Extend_code NO_EXTEND = -1"
| "Extend_code UXTB = 0"
| "Extend_code UXTH = 1"
| "Extend_code UXTW = 2"
| "Extend_code UXTX = 3"
| "Extend_code SXTB = 4"
| "Extend_code SXTH = 5"
| "Extend_code SXTW = 6"
| "Extend_code SXTX = 7"

datatype AddrMode =
  Offset | PreIndex | PostIndex

datatype FlagsUpdate =
  SetFlags | LeaveFlags

primrec FlagsUpdate_code :: "FlagsUpdate \<Rightarrow> u32" where
  "FlagsUpdate_code SetFlags = 1"
| "FlagsUpdate_code LeaveFlags = 0"

datatype InstructionFields =
  kRdShift | kRdBits | kRnShift | kRnBits | kRaShift | kRaBits | kRmShift | kRmBits | kRtShift
  | kRtBits | kRt2Shift | kRt2Bits | kRsShift | kRsBits

primrec InstructionFields_code :: "InstructionFields \<Rightarrow> nat" where
  "InstructionFields_code kRdShift = 0"
| "InstructionFields_code kRdBits = 5"
| "InstructionFields_code kRnShift = 5"
| "InstructionFields_code kRnBits = 5"
| "InstructionFields_code kRaShift = 10"
| "InstructionFields_code kRaBits = 5"
| "InstructionFields_code kRmShift = 16"
| "InstructionFields_code kRmBits = 5"
| "InstructionFields_code kRtShift = 0"
| "InstructionFields_code kRtBits = 5"
| "InstructionFields_code kRt2Shift = 10"
| "InstructionFields_code kRt2Bits = 5"
| "InstructionFields_code kRsShift = 16"
| "InstructionFields_code kRsBits = 5"

datatype ExceptionOp =
  ExceptionFixed | ExceptionFMask | ExceptionMask | HLT | BRK | SVC | HVC | SMC | DCPS1 | DCPS2
  | DCPS3

primrec ExceptionOp_code :: "ExceptionOp \<Rightarrow> u32" where
  "ExceptionOp_code ExceptionFixed = 0xD4000000"
| "ExceptionOp_code ExceptionFMask = 0xFF000000"
| "ExceptionOp_code ExceptionMask = 0xFFE0001F"
| "ExceptionOp_code HLT = 0xD4000000 OR 0x00400000"
| "ExceptionOp_code BRK = 0xD4000000 OR 0x00200000"
| "ExceptionOp_code SVC = 0xD4000000 OR 1"
| "ExceptionOp_code HVC = 0xD4000000 OR 2"
| "ExceptionOp_code SMC = 0xD4000000 OR 3"
| "ExceptionOp_code DCPS1 = 0xD4000000 OR 0x00A00001"
| "ExceptionOp_code DCPS2 = 0xD4000000 OR 0x00A00002"
| "ExceptionOp_code DCPS3 = 0xD4000000 OR 0x00A00003"

datatype UnconditionalBranchOp =
  UnconditionalBranchFixed | UnconditionalBranchFixedMask | UnconditionalBranchMask | B_op | BL_op

primrec UnconditionalBranchOp_code :: "UnconditionalBranchOp \<Rightarrow> u32" where
  "UnconditionalBranchOp_code UnconditionalBranchFixed = 0x14000000"
| "UnconditionalBranchOp_code UnconditionalBranchFixedMask = 0x7C000000"
| "UnconditionalBranchOp_code UnconditionalBranchMask = 0xFC000000"
| "UnconditionalBranchOp_code B_op = 0x14000000 OR 0"
| "UnconditionalBranchOp_code BL_op = 0x14000000 OR 0x80000000"

datatype UnconditionalBranchToRegisterOp =
  UnconditionalBranchToRegisterFixed | UnconditionalBranchToRegisterFixedMask
  | UnconditionalBranchToRegisterMask | BR_op | BLR_op | RET_op

primrec UnconditionalBranchToRegisterOp_code :: "UnconditionalBranchToRegisterOp \<Rightarrow> u32" where
  "UnconditionalBranchToRegisterOp_code UnconditionalBranchToRegisterFixed = 0xD6000000"
| "UnconditionalBranchToRegisterOp_code UnconditionalBranchToRegisterFixedMask = 0xFE000000"
| "UnconditionalBranchToRegisterOp_code UnconditionalBranchToRegisterMask = 0xFFFFFC1F"
| "UnconditionalBranchToRegisterOp_code BR_op = 0xD6000000 OR 0x001F0000"
| "UnconditionalBranchToRegisterOp_code BLR_op = 0xD6000000 OR 0x003F0000"
| "UnconditionalBranchToRegisterOp_code RET_op = 0xD6000000 OR 0x005F0000"

definition LoadRegLiteralSub :: "u32 \<Rightarrow> u32 \<Rightarrow> u32" where
  "LoadRegLiteralSub opc V = 0x18000000 OR LFT opc 2 30 OR LFT V 1 26"

datatype LoadRegLiteralOp =
  LoadRegLiteralFixed | LoadRegLiteralFixedMask | LoadRegLiteralMask | LDR_w_literal
  | LDR_x_literal | LDRSW_literal | PRFM_literal | LDR_s_literal | LDR_d_literal | LDR_q_literal

primrec LoadRegLiteralOp_code :: "LoadRegLiteralOp \<Rightarrow> u32" where
  "LoadRegLiteralOp_code LoadRegLiteralFixed = 0x18000000"
| "LoadRegLiteralOp_code LoadRegLiteralFixedMask = 0x3B000000"
| "LoadRegLiteralOp_code LoadRegLiteralMask = 0xFF000000"
| "LoadRegLiteralOp_code LDR_w_literal = LoadRegLiteralSub 0 0"
| "LoadRegLiteralOp_code LDR_x_literal = LoadRegLiteralSub 1 0"
| "LoadRegLiteralOp_code LDRSW_literal = LoadRegLiteralSub 2 0"
| "LoadRegLiteralOp_code PRFM_literal = LoadRegLiteralSub 3 0"
| "LoadRegLiteralOp_code LDR_s_literal = LoadRegLiteralSub 0 1"
| "LoadRegLiteralOp_code LDR_d_literal = LoadRegLiteralSub 1 1"
| "LoadRegLiteralOp_code LDR_q_literal = LoadRegLiteralSub 2 1"

datatype LoadStoreOp =
  STRB_w | LDRB_w | LDRSB_x | LDRSB_w | STR_b | LDR_b | STR_q | LDR_q | STRH_w | LDRH_w | LDRSH_x
  | LDRSH_w | STR_h | LDR_h | STR_w | LDR_w | LDRSW | STR_s | LDR_s | STR_x | LDR_x | PRFM | STR_d
  | LDR_d

primrec LOAD_STORE_OP_LIST :: "LoadStoreOp \<Rightarrow> u32 \<times> u32 \<times> u32" where
  "LOAD_STORE_OP_LIST STRB_w = (0, 0, 0)"
| "LOAD_STORE_OP_LIST LDRB_w = (0, 0, 1)"
| "LOAD_STORE_OP_LIST LDRSB_x = (0, 0, 2)"
| "LOAD_STORE_OP_LIST LDRSB_w = (0, 0, 3)"
| "LOAD_STORE_OP_LIST STR_b = (0, 1, 0)"
| "LOAD_STORE_OP_LIST LDR_b = (0, 1, 1)"
| "LOAD_STORE_OP_LIST STR_q = (0, 1, 2)"
| "LOAD_STORE_OP_LIST LDR_q = (0, 1, 3)"
| "LOAD_STORE_OP_LIST STRH_w = (1, 0, 0)"
| "LOAD_STORE_OP_LIST LDRH_w = (1, 0, 1)"
| "LOAD_STORE_OP_LIST LDRSH_x = (1, 0, 2)"
| "LOAD_STORE_OP_LIST LDRSH_w = (1, 0, 3)"
| "LOAD_STORE_OP_LIST STR_h = (1, 1, 0)"
| "LOAD_STORE_OP_LIST LDR_h = (1, 1, 1)"
| "LOAD_STORE_OP_LIST STR_w = (2, 0, 0)"
| "LOAD_STORE_OP_LIST LDR_w = (2, 0, 1)"
| "LOAD_STORE_OP_LIST LDRSW = (2, 0, 2)"
| "LOAD_STORE_OP_LIST STR_s = (2, 1, 0)"
| "LOAD_STORE_OP_LIST LDR_s = (2, 1, 1)"
| "LOAD_STORE_OP_LIST STR_x = (3, 0, 0)"
| "LOAD_STORE_OP_LIST LDR_x = (3, 0, 1)"
| "LOAD_STORE_OP_LIST PRFM = (3, 0, 2)"
| "LOAD_STORE_OP_LIST STR_d = (3, 1, 0)"
| "LOAD_STORE_OP_LIST LDR_d = (3, 1, 1)"

definition LoadStoreOp_code :: "LoadStoreOp \<Rightarrow> u32" where
  "LoadStoreOp_code op =
     (case LOAD_STORE_OP_LIST op of (sz, V, opc) \<Rightarrow> LFT sz 2 30 OR LFT V 1 26 OR LFT opc 2 22)"

datatype LoadStoreRegisterOffsetOp =
  LoadStoreRegisterOffsetFixed | LoadStoreRegisterOffsetFixedMask | LoadStoreRegisterOffsetMask
  | LS_register LoadStoreOp

primrec LoadStoreRegisterOffsetOp_code :: "LoadStoreRegisterOffsetOp \<Rightarrow> u32" where
  "LoadStoreRegisterOffsetOp_code LoadStoreRegisterOffsetFixed = 0x38200800"
| "LoadStoreRegisterOffsetOp_code LoadStoreRegisterOffsetFixedMask = 0x3B200C00"
| "LoadStoreRegisterOffsetOp_code LoadStoreRegisterOffsetMask = 0xFFE00C00"
| "LoadStoreRegisterOffsetOp_code (LS_register op) = 
     (case LOAD_STORE_OP_LIST op of (sz, V, opc) \<Rightarrow> 0x38200800 OR LFT sz 2 30 OR LFT V 1 26 OR LFT opc 2 22)"

datatype LoadStoreUnscaledOffsetOp =
  LoadStoreUnscaledOffsetFixed | LoadStoreUnscaledOffsetFixedMask | LoadStoreUnscaledOffsetMask
  | LS_unscaled LoadStoreOp

primrec LoadStoreUnscaledOffsetOp_code :: "LoadStoreUnscaledOffsetOp \<Rightarrow> u32" where
  "LoadStoreUnscaledOffsetOp_code LoadStoreUnscaledOffsetFixed = 0x38000000"
| "LoadStoreUnscaledOffsetOp_code LoadStoreUnscaledOffsetFixedMask = 0x3B200C00"
| "LoadStoreUnscaledOffsetOp_code LoadStoreUnscaledOffsetMask = 0xFFE00C00"
| "LoadStoreUnscaledOffsetOp_code (LS_unscaled op) = 
     (case LOAD_STORE_OP_LIST op of (sz, V, opc) \<Rightarrow> 0x38000000 OR LFT sz 2 30 OR LFT V 1 26 OR LFT opc 2 22)"

datatype LoadStoreUnsignedOffset =
  LoadStoreUnsignedOffsetFixed | LoadStoreUnsignedOffsetFixedMask | LoadStoreUnsignedOffsetMask
  | LS_unsigned LoadStoreOp

primrec LoadStoreUnsignedOffset_code :: "LoadStoreUnsignedOffset \<Rightarrow> u32" where
  "LoadStoreUnsignedOffset_code LoadStoreUnsignedOffsetFixed = 0x39000000"
| "LoadStoreUnsignedOffset_code LoadStoreUnsignedOffsetFixedMask = 0x3B000000"
| "LoadStoreUnsignedOffset_code LoadStoreUnsignedOffsetMask = 0xFFC00000"
| "LoadStoreUnsignedOffset_code (LS_unsigned op) = 
     (case LOAD_STORE_OP_LIST op of (sz, V, opc) \<Rightarrow> 0x39000000 OR LFT sz 2 30 OR LFT V 1 26 OR LFT opc 2 22)"

datatype LoadStorePairOp =
  STP_w | LDP_w | STP_s | LDP_s | LDPSW | STP_d | LDP_d | STP_x | LDP_x | STP_q | LDP_q

primrec LOAD_STORE_PAIR_OP_LIST :: "LoadStorePairOp \<Rightarrow> u32 \<times> u32 \<times> u32" where
  "LOAD_STORE_PAIR_OP_LIST STP_w = (0, 0, 0)"
| "LOAD_STORE_PAIR_OP_LIST LDP_w = (0, 0, 1)"
| "LOAD_STORE_PAIR_OP_LIST STP_s = (0, 1, 0)"
| "LOAD_STORE_PAIR_OP_LIST LDP_s = (0, 1, 1)"
| "LOAD_STORE_PAIR_OP_LIST LDPSW = (1, 0, 1)"
| "LOAD_STORE_PAIR_OP_LIST STP_d = (1, 1, 0)"
| "LOAD_STORE_PAIR_OP_LIST LDP_d = (1, 1, 1)"
| "LOAD_STORE_PAIR_OP_LIST STP_x = (2, 0, 0)"
| "LOAD_STORE_PAIR_OP_LIST LDP_x = (2, 0, 1)"
| "LOAD_STORE_PAIR_OP_LIST STP_q = (2, 1, 0)"
| "LOAD_STORE_PAIR_OP_LIST LDP_q = (2, 1, 1)"

definition LoadStorePairOp_code :: "LoadStorePairOp \<Rightarrow> u32" where
  "LoadStorePairOp_code op =
     (case LOAD_STORE_PAIR_OP_LIST op of (opc, V, L) \<Rightarrow> LFT opc 2 30 OR LFT V 1 26 OR LFT L 1 22)"

datatype LoadStorePairOffsetOp =
  LoadStorePairOffsetFixed | LoadStorePairOffsetFixedMask | LoadStorePairOffsetMask
  | LSP_offset LoadStorePairOp

primrec LoadStorePairOffsetOp_code :: "LoadStorePairOffsetOp \<Rightarrow> u32" where
  "LoadStorePairOffsetOp_code LoadStorePairOffsetFixed = 0x29000000"
| "LoadStorePairOffsetOp_code LoadStorePairOffsetFixedMask = 0x3B800000"
| "LoadStorePairOffsetOp_code LoadStorePairOffsetMask = 0xFFC00000"
| "LoadStorePairOffsetOp_code (LSP_offset op) = 
     (case LOAD_STORE_PAIR_OP_LIST op of (opc, V, L) \<Rightarrow> 0x29000000 OR LFT opc 2 30 OR LFT V 1 26 OR LFT L 1 22)"

datatype LoadStorePairPostIndexOp =
  LoadStorePairPostIndexFixed | LoadStorePairPostIndexFixedMask | LoadStorePairPostIndexMask
  | LSP_post LoadStorePairOp

primrec LoadStorePairPostIndexOp_code :: "LoadStorePairPostIndexOp \<Rightarrow> u32" where
  "LoadStorePairPostIndexOp_code LoadStorePairPostIndexFixed = 0x28800000"
| "LoadStorePairPostIndexOp_code LoadStorePairPostIndexFixedMask = 0x3B800000"
| "LoadStorePairPostIndexOp_code LoadStorePairPostIndexMask = 0xFFC00000"
| "LoadStorePairPostIndexOp_code (LSP_post op) = 
     (case LOAD_STORE_PAIR_OP_LIST op of (opc, V, L) \<Rightarrow> 0x28800000 OR LFT opc 2 30 OR LFT V 1 26 OR LFT L 1 22)"

datatype LoadStorePairPreIndexOp =
  LoadStorePairPreIndexFixed | LoadStorePairPreIndexFixedMask | LoadStorePairPreIndexMask
  | LSP_pre LoadStorePairOp

primrec LoadStorePairPreIndexOp_code :: "LoadStorePairPreIndexOp \<Rightarrow> u32" where
  "LoadStorePairPreIndexOp_code LoadStorePairPreIndexFixed = 0x29800000"
| "LoadStorePairPreIndexOp_code LoadStorePairPreIndexFixedMask = 0x3B800000"
| "LoadStorePairPreIndexOp_code LoadStorePairPreIndexMask = 0xFFC00000"
| "LoadStorePairPreIndexOp_code (LSP_pre op) = 
     (case LOAD_STORE_PAIR_OP_LIST op of (opc, V, L) \<Rightarrow> 0x29800000 OR LFT opc 2 30 OR LFT V 1 26 OR LFT L 1 22)"

datatype GenericInstrField =
  SixtyFourBits | ThirtyTwoBits | FP32 | FP64

primrec GenericInstrField_code :: "GenericInstrField \<Rightarrow> u32" where
  "GenericInstrField_code SixtyFourBits = 0x80000000"
| "GenericInstrField_code ThirtyTwoBits = 0"
| "GenericInstrField_code FP32 = 0"
| "GenericInstrField_code FP64 = 0x00400000"

datatype MoveWideImmediateOp =
  MoveWideImmediateFixed | MoveWideImmediateFixedMask | MoveWideImmediateMask | MOVN | MOVZ | MOVK
  | MOVN_w | MOVN_x | MOVZ_w | MOVZ_x | MOVK_w | MOVK_x

primrec MoveWideImmediateOp_code :: "MoveWideImmediateOp \<Rightarrow> u32" where
  "MoveWideImmediateOp_code MoveWideImmediateFixed = 0x12800000"
| "MoveWideImmediateOp_code MoveWideImmediateFixedMask = 0x1F800000"
| "MoveWideImmediateOp_code MoveWideImmediateMask = 0xFF800000"
| "MoveWideImmediateOp_code MOVN = 0"
| "MoveWideImmediateOp_code MOVZ = 0x40000000"
| "MoveWideImmediateOp_code MOVK = 0x60000000"
| "MoveWideImmediateOp_code MOVN_w = 0x12800000 OR 0"
| "MoveWideImmediateOp_code MOVN_x = 0x12800000 OR 0 OR 0x80000000"
| "MoveWideImmediateOp_code MOVZ_w = 0x12800000 OR 0x40000000"
| "MoveWideImmediateOp_code MOVZ_x = 0x12800000 OR 0x40000000 OR 0x80000000"
| "MoveWideImmediateOp_code MOVK_w = 0x12800000 OR 0x60000000"
| "MoveWideImmediateOp_code MOVK_x = 0x12800000 OR 0x60000000 OR 0x80000000"

definition AddSubImmediateOpSub :: "u32 \<Rightarrow> u32 \<Rightarrow> u32 \<Rightarrow> u32" where
  "AddSubImmediateOpSub sf op S = 0x11000000 OR LFT sf 1 31 OR LFT op 1 30 OR LFT S 1 29"

datatype AddSubImmediateOp =
  AddSubImmediateFixed | AddSubImmediateFixedMask | AddSubImmediateMask | ADD_w_imm | ADDS_w_imm
  | SUB_w_imm | SUBS_w_imm | ADD_x_imm | ADDS_x_imm | SUB_x_imm | SUBS_x_imm

primrec AddSubImmediateOp_code :: "AddSubImmediateOp \<Rightarrow> u32" where
  "AddSubImmediateOp_code AddSubImmediateFixed = 0x11000000"
| "AddSubImmediateOp_code AddSubImmediateFixedMask = 0x1F000000"
| "AddSubImmediateOp_code AddSubImmediateMask = 0xFF000000"
| "AddSubImmediateOp_code ADD_w_imm = AddSubImmediateOpSub 0 0 0"
| "AddSubImmediateOp_code ADDS_w_imm = AddSubImmediateOpSub 0 0 1"
| "AddSubImmediateOp_code SUB_w_imm = AddSubImmediateOpSub 0 1 0"
| "AddSubImmediateOp_code SUBS_w_imm = AddSubImmediateOpSub 0 1 1"
| "AddSubImmediateOp_code ADD_x_imm = AddSubImmediateOpSub 1 0 0"
| "AddSubImmediateOp_code ADDS_x_imm = AddSubImmediateOpSub 1 0 1"
| "AddSubImmediateOp_code SUB_x_imm = AddSubImmediateOpSub 1 1 0"
| "AddSubImmediateOp_code SUBS_x_imm = AddSubImmediateOpSub 1 1 1"

definition AddSubShiftedOpSub :: "u32 \<Rightarrow> u32 \<Rightarrow> u32 \<Rightarrow> u32" where
  "AddSubShiftedOpSub sf op S = 0x0B000000 OR LFT sf 1 31 OR LFT op 1 30 OR LFT S 1 29"

datatype AddSubShiftedOp =
  AddSubShiftedFixed | AddSubShiftedFixedMask | AddSubShiftedMask | ADD_w_shift | ADDS_w_shift
  | SUB_w_shift | SUBS_w_shift | ADD_x_shift | ADDS_x_shift | SUB_x_shift | SUBS_x_shift

primrec AddSubShiftedOp_code :: "AddSubShiftedOp \<Rightarrow> u32" where
  "AddSubShiftedOp_code AddSubShiftedFixed = 0x0B000000"
| "AddSubShiftedOp_code AddSubShiftedFixedMask = 0x1F200000"
| "AddSubShiftedOp_code AddSubShiftedMask = 0xFF200000"
| "AddSubShiftedOp_code ADD_w_shift = AddSubShiftedOpSub 0 0 0"
| "AddSubShiftedOp_code ADDS_w_shift = AddSubShiftedOpSub 0 0 1"
| "AddSubShiftedOp_code SUB_w_shift = AddSubShiftedOpSub 0 1 0"
| "AddSubShiftedOp_code SUBS_w_shift = AddSubShiftedOpSub 0 1 1"
| "AddSubShiftedOp_code ADD_x_shift = AddSubShiftedOpSub 1 0 0"
| "AddSubShiftedOp_code ADDS_x_shift = AddSubShiftedOpSub 1 0 1"
| "AddSubShiftedOp_code SUB_x_shift = AddSubShiftedOpSub 1 1 0"
| "AddSubShiftedOp_code SUBS_x_shift = AddSubShiftedOpSub 1 1 1"

definition AddSubExtendedOpSub :: "u32 \<Rightarrow> u32 \<Rightarrow> u32 \<Rightarrow> u32" where
  "AddSubExtendedOpSub sf op S = 0x0B200000 OR LFT sf 1 31 OR LFT op 1 30 OR LFT S 1 29"

datatype AddSubExtendedOp =
  AddSubExtendedFixed | AddSubExtendedFixedMask | AddSubExtendedMask | ADD_w_extend
  | ADDS_w_extend | SUB_w_extend | SUBS_w_extend | ADD_x_extend | ADDS_x_extend | SUB_x_extend
  | SUBS_x_extend

primrec AddSubExtendedOp_code :: "AddSubExtendedOp \<Rightarrow> u32" where
  "AddSubExtendedOp_code AddSubExtendedFixed = 0x0B200000"
| "AddSubExtendedOp_code AddSubExtendedFixedMask = 0x1F200000"
| "AddSubExtendedOp_code AddSubExtendedMask = 0xFFE00000"
| "AddSubExtendedOp_code ADD_w_extend = AddSubExtendedOpSub 0 0 0"
| "AddSubExtendedOp_code ADDS_w_extend = AddSubExtendedOpSub 0 0 1"
| "AddSubExtendedOp_code SUB_w_extend = AddSubExtendedOpSub 0 1 0"
| "AddSubExtendedOp_code SUBS_w_extend = AddSubExtendedOpSub 0 1 1"
| "AddSubExtendedOp_code ADD_x_extend = AddSubExtendedOpSub 1 0 0"
| "AddSubExtendedOp_code ADDS_x_extend = AddSubExtendedOpSub 1 0 1"
| "AddSubExtendedOp_code SUB_x_extend = AddSubExtendedOpSub 1 1 0"
| "AddSubExtendedOp_code SUBS_x_extend = AddSubExtendedOpSub 1 1 1"

datatype LogicalOp =
  LogicalOpMask | NOT_op | AND_op | BIC_op | ORR_op | ORN_op | EOR_op | EON_op | ANDS_op | BICS_op

primrec LogicalOp_code :: "LogicalOp \<Rightarrow> u32" where
  "LogicalOp_code LogicalOpMask = 0x60200000"
| "LogicalOp_code NOT_op = 0x00200000"
| "LogicalOp_code AND_op = 0"
| "LogicalOp_code BIC_op = 0 OR 0x00200000"
| "LogicalOp_code ORR_op = 0x20000000"
| "LogicalOp_code ORN_op = 0x20000000 OR 0x00200000"
| "LogicalOp_code EOR_op = 0x40000000"
| "LogicalOp_code EON_op = 0x40000000 OR 0x00200000"
| "LogicalOp_code ANDS_op = 0x60000000"
| "LogicalOp_code BICS_op = 0x60000000 OR 0x00200000"

datatype LogicalImmediateOp =
  LogicalImmediateFixed | LogicalImmediateFixedMask | LogicalImmediateMask

primrec LogicalImmediateOp_code :: "LogicalImmediateOp \<Rightarrow> u32" where
  "LogicalImmediateOp_code LogicalImmediateFixed = 0x12000000"
| "LogicalImmediateOp_code LogicalImmediateFixedMask = 0x1F800000"
| "LogicalImmediateOp_code LogicalImmediateMask = 0xFF800000"

datatype LogicalShiftedOp =
  LogicalShiftedFixed | LogicalShiftedFixedMask | LogicalShiftedMask

primrec LogicalShiftedOp_code :: "LogicalShiftedOp \<Rightarrow> u32" where
  "LogicalShiftedOp_code LogicalShiftedFixed = 0x0A000000"
| "LogicalShiftedOp_code LogicalShiftedFixedMask = 0x1F000000"
| "LogicalShiftedOp_code LogicalShiftedMask = 0xFF200000"

datatype PCRelAddressingOp =
  PCRelAddressingFixed | PCRelAddressingFixedMask | PCRelAddressingMask | ADR_op | ADRP_op

primrec PCRelAddressingOp_code :: "PCRelAddressingOp \<Rightarrow> u32" where
  "PCRelAddressingOp_code PCRelAddressingFixed = 0x10000000"
| "PCRelAddressingOp_code PCRelAddressingFixedMask = 0x1F000000"
| "PCRelAddressingOp_code PCRelAddressingMask = 0x9F000000"
| "PCRelAddressingOp_code ADR_op = 0x10000000 OR 0"
| "PCRelAddressingOp_code ADRP_op = 0x10000000 OR 0x80000000"

section \<open>The tables are decodable\<close>

lemma distinct_LoadStoreOp_code:
  "distinct (map LoadStoreOp_code [STRB_w, LDRB_w, LDRSB_x, LDRSB_w, STR_b, LDR_b, STR_q, LDR_q, STRH_w, LDRH_w,
     LDRSH_x, LDRSH_w, STR_h, LDR_h, STR_w, LDR_w, LDRSW, STR_s, LDR_s, STR_x, LDR_x, PRFM, STR_d, LDR_d])"
  by code_simp

lemma distinct_LoadStorePairOp_code:
  "distinct (map LoadStorePairOp_code [STP_w, LDP_w, STP_s, LDP_s, LDPSW, STP_d, LDP_d, STP_x, LDP_x, STP_q, LDP_q])"
  by code_simp

text \<open>A load or store opcode sets only the size, vector and opcode fields, which its class leaves free.\<close>

lemma load_store_fields [simp]:
  "LoadStoreOp_code op AND 0xC4C00000 = LoadStoreOp_code op"
  by (cases op) (simp_all add: LoadStoreOp_code_def LFT_eval)

lemma load_store_pair_fields [simp]:
  "LoadStorePairOp_code op AND 0xC4400000 = LoadStorePairOp_code op"
  by (cases op) (simp_all add: LoadStorePairOp_code_def LFT_eval)

end
