(* ===== verification/Asm_Arm64.thy ===== *)
theory Asm_Arm64
  imports Assembler_Base Arm64_Constants
begin

text \<open>
  Dobby's ARM64 assembler: \<^verbatim>\<open>core/arch/arm64/registers-arm64.h\<close>,
  \<^verbatim>\<open>core/modules/assembler/assembler-arm64.h\<close> and \<^verbatim>\<open>.cc\<close>, and \<^verbatim>\<open>core/modules/codegen/codegen-arm64.cc\<close>.
  An instruction is a \<open>u32\<close>, a 64-bit immediate a \<open>u64\<close>; an operation takes the assembler and returns it
  with the instruction emitted, or the error of the \<^verbatim>\<open>UNREACHABLE()\<close> it meets.  Labels are passed by value
  and returned; the entries of \<^verbatim>\<open>data_labels_\<close>, which the code shares by pointer, live in the heap
  \<open>label_heap\<close> of the assembler.  \<^verbatim>\<open>DCHECK\<close> is compiled out, as in a release build.  Operations carry the
  suffix \<open>_a64\<close> where their name is shared with the other assemblers.
\<close>

section \<open>Registers\<close>

datatype RegisterType =
  kRegister_32 | kRegister_64 | kRegister | kVRegister | kSIMD_FP_Register_8 | kSIMD_FP_Register_16
  | kSIMD_FP_Register_32 | kSIMD_FP_Register_64 | kSIMD_FP_Register_128 | kInvalid

primrec RegisterType_code :: "RegisterType \<Rightarrow> nat" where
  "RegisterType_code kRegister_32 = 0"
| "RegisterType_code kRegister_64 = 1"
| "RegisterType_code kRegister = 2"
| "RegisterType_code kVRegister = 3"
| "RegisterType_code kSIMD_FP_Register_8 = 4"
| "RegisterType_code kSIMD_FP_Register_16 = 5"
| "RegisterType_code kSIMD_FP_Register_32 = 6"
| "RegisterType_code kSIMD_FP_Register_64 = 7"
| "RegisterType_code kSIMD_FP_Register_128 = 8"
| "RegisterType_code kInvalid = 9"

lemma RegisterType_code_inj: "RegisterType_code a = RegisterType_code b \<Longrightarrow> a = b"
  by (cases a; cases b) simp_all

instantiation RegisterType :: linorder
begin

definition less_eq_RegisterType :: "RegisterType \<Rightarrow> RegisterType \<Rightarrow> bool" where
  "less_eq_RegisterType a b \<longleftrightarrow> RegisterType_code a \<le> RegisterType_code b"

definition less_RegisterType :: "RegisterType \<Rightarrow> RegisterType \<Rightarrow> bool" where
  "less_RegisterType a b \<longleftrightarrow> RegisterType_code a < RegisterType_code b"

instance
  by standard (auto simp: less_eq_RegisterType_def less_RegisterType_def intro: RegisterType_code_inj)

end

record CPURegister =
  reg_code :: nat
  reg_size :: nat
  reg_type :: RegisterType

definition Reg_X :: "nat \<Rightarrow> CPURegister" where
  "Reg_X code = \<lparr>reg_code = code, reg_size = 64, reg_type = kRegister_64\<rparr>"

definition Reg_W :: "nat \<Rightarrow> CPURegister" where
  "Reg_W code = \<lparr>reg_code = code, reg_size = 32, reg_type = kRegister_32\<rparr>"

definition Reg_Q :: "nat \<Rightarrow> CPURegister" where
  "Reg_Q code = \<lparr>reg_code = code, reg_size = 128, reg_type = kSIMD_FP_Register_128\<rparr>"

definition InvalidRegister :: CPURegister where
  "InvalidRegister = \<lparr>reg_code = 0, reg_size = 0, reg_type = kInvalid\<rparr>"

definition Reg_Is :: "CPURegister \<Rightarrow> CPURegister \<Rightarrow> bool" where
  "Reg_Is this reg \<longleftrightarrow> reg_code reg = reg_code this"

definition Is64Bits :: "CPURegister \<Rightarrow> bool" where
  "Is64Bits r \<longleftrightarrow> reg_size r = 64"

definition IsRegister :: "CPURegister \<Rightarrow> bool" where
  "IsRegister r \<longleftrightarrow> reg_type r < kRegister"

definition IsVRegister :: "CPURegister \<Rightarrow> bool" where
  "IsVRegister r \<longleftrightarrow> kVRegister < reg_type r"

definition xzr :: CPURegister where "xzr = Reg_X 31"
definition wzr :: CPURegister where "wzr = Reg_W 31"
definition SP_reg :: CPURegister where "SP_reg = Reg_X 31"
definition TMP0 :: CPURegister where "TMP0 = Reg_X 17"
definition TMP1 :: CPURegister where "TMP1 = Reg_X 16"

definition Rd :: "CPURegister \<Rightarrow> u32" where
  "Rd r = push_bit (InstructionFields_code kRdShift) (of_nat (reg_code r))"

definition Rt :: "CPURegister \<Rightarrow> u32" where
  "Rt r = push_bit (InstructionFields_code kRtShift) (of_nat (reg_code r))"

definition Rt2 :: "CPURegister \<Rightarrow> u32" where
  "Rt2 r = push_bit (InstructionFields_code kRt2Shift) (of_nat (reg_code r))"

definition Rn :: "CPURegister \<Rightarrow> u32" where
  "Rn r = push_bit (InstructionFields_code kRnShift) (of_nat (reg_code r))"

definition Rm :: "CPURegister \<Rightarrow> u32" where
  "Rm r = push_bit (InstructionFields_code kRmShift) (of_nat (reg_code r))"

definition Low16Bits :: "u32 \<Rightarrow> u32" where
  "Low16Bits value = value AND 0xffff"

definition High16Bits :: "u32 \<Rightarrow> u32" where
  "High16Bits value = signed_drop_bit 16 value"

definition Low32Bits :: "u64 \<Rightarrow> u32" where
  "Low32Bits value = ucast value"

definition High32Bits :: "u64 \<Rightarrow> u32" where
  "High32Bits value = ucast (signed_drop_bit 32 value)"

section \<open>Operands\<close>

record Operand =
  immediate :: u64
  operand_reg :: CPURegister
  operand_shift :: Shift
  operand_extend :: Extend
  shift_extent_imm :: u32

definition Operand_imm :: "u64 \<Rightarrow> Operand" where
  "Operand_imm imm = \<lparr>immediate = imm, operand_reg = InvalidRegister, operand_shift = NO_SHIFT,
     operand_extend = NO_EXTEND, shift_extent_imm = 0\<rparr>"

definition Operand_shifted :: "CPURegister \<Rightarrow> Shift \<Rightarrow> u32 \<Rightarrow> Operand" where
  "Operand_shifted reg shift imm = \<lparr>immediate = 0, operand_reg = reg, operand_shift = shift,
     operand_extend = NO_EXTEND, shift_extent_imm = imm\<rparr>"

definition Operand_extended :: "CPURegister \<Rightarrow> Extend \<Rightarrow> u32 \<Rightarrow> Operand" where
  "Operand_extended reg ex imm = \<lparr>immediate = 0, operand_reg = reg, operand_shift = NO_SHIFT,
     operand_extend = ex, shift_extent_imm = imm\<rparr>"

definition IsImmediate :: "Operand \<Rightarrow> bool" where
  "IsImmediate op \<longleftrightarrow> Reg_Is (operand_reg op) InvalidRegister"

definition IsShiftedRegister :: "Operand \<Rightarrow> bool" where
  "IsShiftedRegister op \<longleftrightarrow> operand_shift op \<noteq> NO_SHIFT"

definition IsExtendedRegister :: "Operand \<Rightarrow> bool" where
  "IsExtendedRegister op \<longleftrightarrow> operand_extend op \<noteq> NO_EXTEND"

record MemOperand =
  mem_base :: CPURegister
  regoffset :: CPURegister
  mem_offset :: u64
  addrmode :: AddrMode
  mem_shift :: Shift
  mem_extend :: Extend
  shift_extend_imm :: u32

definition MemOperand_offset :: "CPURegister \<Rightarrow> u64 \<Rightarrow> AddrMode \<Rightarrow> MemOperand" where
  "MemOperand_offset base offset mode = \<lparr>mem_base = base, regoffset = InvalidRegister, mem_offset = offset,
     addrmode = mode, mem_shift = NO_SHIFT, mem_extend = NO_EXTEND, shift_extend_imm = 0\<rparr>"

definition MemOperand_extended :: "CPURegister \<Rightarrow> CPURegister \<Rightarrow> Extend \<Rightarrow> u32 \<Rightarrow> MemOperand" where
  "MemOperand_extended base reg ex imm = \<lparr>mem_base = base, regoffset = reg, mem_offset = 0,
     addrmode = Offset, mem_shift = NO_SHIFT, mem_extend = ex, shift_extend_imm = imm\<rparr>"

definition MemOperand_shifted :: "CPURegister \<Rightarrow> CPURegister \<Rightarrow> Shift \<Rightarrow> u32 \<Rightarrow> MemOperand" where
  "MemOperand_shifted base reg shift imm = \<lparr>mem_base = base, regoffset = reg, mem_offset = 0,
     addrmode = Offset, mem_shift = shift, mem_extend = NO_EXTEND, shift_extend_imm = imm\<rparr>"

text \<open>An immediate operand leaves the other fields as they were in memory: the parameter \<open>junk\<close>.\<close>

definition MemOperand_operand :: "MemOperand \<Rightarrow> CPURegister \<Rightarrow> Operand \<Rightarrow> AddrMode \<Rightarrow> MemOperand" where
  "MemOperand_operand junk base offset mode =
     (let m = junk\<lparr>mem_base := base, regoffset := InvalidRegister, addrmode := mode\<rparr>
      in if IsShiftedRegister offset then
           m\<lparr>regoffset := operand_reg offset, mem_shift := operand_shift offset,
             shift_extend_imm := shift_extent_imm offset, mem_extend := NO_EXTEND, mem_offset := 0\<rparr>
         else if IsExtendedRegister offset then
           m\<lparr>regoffset := operand_reg offset, mem_extend := operand_extend offset,
             shift_extend_imm := shift_extent_imm offset, mem_shift := NO_SHIFT, mem_offset := 0\<rparr>
         else m)"

definition IsImmediateOffset :: "MemOperand \<Rightarrow> bool" where
  "IsImmediateOffset m \<longleftrightarrow> addrmode m = Offset"

definition IsRegisterOffset :: "MemOperand \<Rightarrow> bool" where
  "IsRegisterOffset m \<longleftrightarrow> addrmode m = Offset"

definition IsPreIndex :: "MemOperand \<Rightarrow> bool" where
  "IsPreIndex m \<longleftrightarrow> addrmode m = PreIndex"

definition IsPostIndex :: "MemOperand \<Rightarrow> bool" where
  "IsPostIndex m \<longleftrightarrow> addrmode m = PostIndex"

section \<open>OpEncode\<close>

definition sf :: "CPURegister \<Rightarrow> u32" where
  "sf reg = (if Is64Bits reg then LFT 1 1 31 else 0)"

definition sf_op :: "CPURegister \<Rightarrow> u32 \<Rightarrow> u32" where
  "sf_op reg op = op OR sf reg"

definition V_bit :: "CPURegister \<Rightarrow> u32" where
  "V_bit reg = (if IsVRegister reg then LFT 1 1 26 else 0)"

definition V_op :: "CPURegister \<Rightarrow> u32 \<Rightarrow> u32" where
  "V_op reg op = op OR V_bit reg"

definition L_bit :: "bool \<Rightarrow> u32" where
  "L_bit load_or_store = (if load_or_store then LFT 1 1 22 else 0)"

definition shift_field :: "Shift \<Rightarrow> u32" where
  "shift_field s = LFT (Shift_code s) 2 22"

definition EncodeLogicalImmediate :: "CPURegister \<Rightarrow> CPURegister \<Rightarrow> Operand \<Rightarrow> u32" where
  "EncodeLogicalImmediate rd rn operand =
     (let imm = immediate operand;
          immr = ucast (bits imm 0 5);
          imms = ucast (bits imm 6 11)
      in sf rd OR LFT immr 6 16 OR LFT imms 6 10 OR Rd rd OR Rn rn)"

definition EncodeLogicalShift :: "CPURegister \<Rightarrow> CPURegister \<Rightarrow> Operand \<Rightarrow> u32" where
  "EncodeLogicalShift rd rn operand =
     sf rd OR shift_field (operand_shift operand) OR Rm (operand_reg operand)
       OR LFT (shift_extent_imm operand) 6 10 OR Rn rn OR Rd rd"

definition OpEncode_LoadStorePair :: "LoadStorePairOp \<Rightarrow> CPURegister \<Rightarrow> CPURegister \<Rightarrow> MemOperand \<Rightarrow> u32" where
  "OpEncode_LoadStorePair op rt rt2 addr =
     (let opc = bits (LoadStorePairOp_code op) 30 31;
          sc = (if IsRegister rt then 2 + unat (bit_of opc 1)
                else if IsVRegister rt then 2 + unat opc else 2);
          imm7 = ucast (signed_drop_bit sc (mem_offset addr))
      in LFT imm7 7 15)"

definition OpEncode_scale :: "u32 \<Rightarrow> nat" where
  "OpEncode_scale op =
     (let f = LoadStoreUnsignedOffset_code LoadStoreUnsignedOffsetFixed
      in if op AND f = f then unat (bits op 30 31) else 0)"

section \<open>Assembler\<close>

definition Emit_a64 :: "u32 \<Rightarrow> 'a AssemblerBase_scheme \<Rightarrow> 'a AssemblerBase_scheme" where
  "Emit_a64 v a = a\<lparr>code_buffer := Emit32 v (code_buffer a)\<rparr>"

definition EmitInt64 :: "u64 \<Rightarrow> 'a AssemblerBase_scheme \<Rightarrow> 'a AssemblerBase_scheme" where
  "EmitInt64 v a = a\<lparr>code_buffer := Emit64 v (code_buffer a)\<rparr>"

definition nop_a64 :: "'a AssemblerBase_scheme \<Rightarrow> 'a AssemblerBase_scheme" where
  "nop_a64 = Emit_a64 0xD503201F"

definition brk_a64 :: "u32 \<Rightarrow> 'a AssemblerBase_scheme \<Rightarrow> 'a AssemblerBase_scheme" where
  "brk_a64 code = Emit_a64 (ExceptionOp_code BRK OR LFT code 16 5)"

definition adrp_a64 :: "CPURegister \<Rightarrow> u64 \<Rightarrow> 'a AssemblerBase_scheme \<Rightarrow> 'a AssemblerBase_scheme" where
  "adrp_a64 rd imm =
     (let immlo = LFT (bits (signed_drop_bit 12 imm) 0 1) 2 29;
          immhi = LFT (bits (signed_drop_bit 12 imm) 2 20) 19 5
      in Emit_a64 (PCRelAddressingOp_code ADRP_op OR Rd rd OR ucast immlo OR ucast immhi))"

definition AddSubImmediate :: "CPURegister \<Rightarrow> CPURegister \<Rightarrow> Operand \<Rightarrow> AddSubImmediateOp
    \<Rightarrow> 'a AssemblerBase_scheme \<Rightarrow> 'a AssemblerBase_scheme res" where
  "AddSubImmediate rd rn operand op a =
     (if IsImmediate operand then
        let imm12 = ucast (LFT (immediate operand) 12 10)
        in Inr (Emit_a64 (AddSubImmediateOp_code op OR Rd rd OR Rn rn OR imm12) a)
      else Inl Unreachable)"

definition add_a64 :: "CPURegister \<Rightarrow> CPURegister \<Rightarrow> u64 \<Rightarrow> 'a AssemblerBase_scheme \<Rightarrow> 'a AssemblerBase_scheme res" where
  "add_a64 rd rn imm =
     AddSubImmediate rd rn (Operand_imm imm) (if Is64Bits rd \<and> Is64Bits rn then ADD_x_imm else ADD_w_imm)"

definition adds_a64 :: "CPURegister \<Rightarrow> CPURegister \<Rightarrow> u64 \<Rightarrow> 'a AssemblerBase_scheme \<Rightarrow> 'a AssemblerBase_scheme res" where
  "adds_a64 rd rn imm a = Inl Unreachable"

definition sub_a64 :: "CPURegister \<Rightarrow> CPURegister \<Rightarrow> u64 \<Rightarrow> 'a AssemblerBase_scheme \<Rightarrow> 'a AssemblerBase_scheme res" where
  "sub_a64 rd rn imm =
     AddSubImmediate rd rn (Operand_imm imm) (if Is64Bits rd \<and> Is64Bits rn then SUB_x_imm else SUB_w_imm)"

definition subs_a64 :: "CPURegister \<Rightarrow> CPURegister \<Rightarrow> u64 \<Rightarrow> 'a AssemblerBase_scheme \<Rightarrow> 'a AssemblerBase_scheme res" where
  "subs_a64 rd rn imm a = Inl Unreachable"

definition b_a64 :: "u64 \<Rightarrow> 'a AssemblerBase_scheme \<Rightarrow> 'a AssemblerBase_scheme" where
  "b_a64 imm = Emit_a64 (UnconditionalBranchOp_code B_op OR ucast (bits (signed_drop_bit 2 imm) 0 25))"

definition LinkAndGetByteOffsetTo ::
    "'b Label_scheme \<Rightarrow> 'a AssemblerBase_scheme \<Rightarrow> int \<times> 'b Label_scheme" where
  "LinkAndGetByteOffsetTo label a =
     (if is_bound label then (pos label - int (pc_offset a), label)
      else (if is_linked label then pos label - int (pc_offset a) else 0, link_to (int (pc_offset a)) label))"

definition b_label_a64 ::
    "'b Label_scheme \<Rightarrow> 'a AssemblerBase_scheme \<Rightarrow> 'b Label_scheme \<times> 'a AssemblerBase_scheme" where
  "b_label_a64 label a = (let (offset, label') = LinkAndGetByteOffsetTo label a in (label', b_a64 (of_int offset) a))"

text \<open>The position a linked branch chains to, as \<^verbatim>\<open>bind\<close> computes it from the branch's immediate.\<close>

definition prevlinkpos :: "u32 \<Rightarrow> int \<Rightarrow> int" where
  "prevlinkpos instr linkpos =
     (if instr AND UnconditionalBranchOp_code UnconditionalBranchMask =
          UnconditionalBranchOp_code UnconditionalBranchFixed
      then linkpos - uint (push_bit 2 (bits instr 0 25)) else 0)"

definition fix_b_instr :: "u32 \<Rightarrow> int \<Rightarrow> u32" where
  "fix_b_instr instr offset =
     (instr AND 0xfc000000) OR LFT (bits (signed_drop_bit 2 (of_int offset :: u32)) 0 25) 26 0"

function bind_loop :: "int \<Rightarrow> 'b Label_scheme \<Rightarrow> LiteMutableBuffer \<Rightarrow> ('b Label_scheme \<times> LiteMutableBuffer) res" where
  "bind_loop bound_pc label b =
     (if is_linked label then
        let linkpos = pos label
        in res_bind (LoadInst (nat linkpos) b) (\<lambda>instr.
             res_bind (if instr AND UnconditionalBranchOp_code UnconditionalBranchMask =
                            UnconditionalBranchOp_code UnconditionalBranchFixed
                       then FixBindLabel (nat linkpos) (fix_b_instr instr (bound_pc - linkpos)) b
                       else Inr b) (\<lambda>b'.
             if linkpos - prevlinkpos instr linkpos = 0 then bind_loop bound_pc (link_to (-1) label) b'
             else bind_loop bound_pc (link_to (prevlinkpos instr linkpos) label) b'))
      else Inr (label, b))"
  by pat_completeness auto

termination
proof (relation "measure (\<lambda>(_, label, _). nat (label_pos label))")
  fix label :: "'b Label_scheme" and linkpos :: int and instr :: u32
  assume l: "is_linked label" "linkpos = pos label" and p: "linkpos - prevlinkpos instr linkpos \<noteq> 0"
  have "0 \<le> linkpos" "label_pos label = linkpos + 1" using l by (simp_all add: is_linked_def pos_def)
  moreover have "prevlinkpos instr linkpos < linkpos"
    using p \<open>0 \<le> linkpos\<close> by (auto simp: prevlinkpos_def order.strict_iff_order split: if_splits)
  ultimately show "((bound_pc, link_to (prevlinkpos instr linkpos) label, b'), bound_pc, label, b)
      \<in> measure (\<lambda>(_, label, _). nat (label_pos label))" for bound_pc b b'
    by (simp add: link_to_def)
qed (auto simp: is_linked_def link_to_def)

declare bind_loop.simps [simp del]

definition bind_a64 ::
    "'b Label_scheme \<Rightarrow> 'a AssemblerBase_scheme \<Rightarrow> ('b Label_scheme \<times> 'a AssemblerBase_scheme) res" where
  "bind_a64 label a =
     (let bound_pc = int (pc_offset a)
      in res_bind (bind_loop bound_pc label (code_buffer a))
           (\<lambda>(label', b). Inr (bind_to bound_pc label', a\<lparr>code_buffer := b\<rparr>)))"

definition br_a64 :: "CPURegister \<Rightarrow> 'a AssemblerBase_scheme \<Rightarrow> 'a AssemblerBase_scheme" where
  "br_a64 rn = Emit_a64 (UnconditionalBranchToRegisterOp_code BR_op OR Rn rn)"

definition blr_a64 :: "CPURegister \<Rightarrow> 'a AssemblerBase_scheme \<Rightarrow> 'a AssemblerBase_scheme" where
  "blr_a64 rn = Emit_a64 (UnconditionalBranchToRegisterOp_code BLR_op OR Rn rn)"

definition EmitLoadRegLiteral ::
    "LoadRegLiteralOp \<Rightarrow> CPURegister \<Rightarrow> u64 \<Rightarrow> 'a AssemblerBase_scheme \<Rightarrow> 'a AssemblerBase_scheme" where
  "EmitLoadRegLiteral op rt imm = Emit_a64 (LoadRegLiteralOp_code op OR ucast (LFT imm 26 5) OR Rt rt)"

definition ldr_literal_a64 :: "CPURegister \<Rightarrow> u64 \<Rightarrow> 'a AssemblerBase_scheme \<Rightarrow> 'a AssemblerBase_scheme res" where
  "ldr_literal_a64 rt imm a =
     (case reg_type rt of
        kRegister_32 \<Rightarrow> Inr (EmitLoadRegLiteral LDR_w_literal rt imm a)
      | kRegister_64 \<Rightarrow> Inr (EmitLoadRegLiteral LDR_x_literal rt imm a)
      | kSIMD_FP_Register_32 \<Rightarrow> Inr (EmitLoadRegLiteral LDR_s_literal rt imm a)
      | kSIMD_FP_Register_64 \<Rightarrow> Inr (EmitLoadRegLiteral LDR_d_literal rt imm a)
      | kSIMD_FP_Register_128 \<Rightarrow> Inr (EmitLoadRegLiteral LDR_q_literal rt imm a)
      | _ \<Rightarrow> Inl Unreachable)"

definition LoadStore ::
    "LoadStoreOp \<Rightarrow> CPURegister \<Rightarrow> MemOperand \<Rightarrow> 'a AssemblerBase_scheme \<Rightarrow> 'a AssemblerBase_scheme res" where
  "LoadStore op rt addr a =
     (if IsImmediateOffset addr then
        let f = LoadStoreUnsignedOffset_code LoadStoreUnsignedOffsetFixed;
            imm12 = signed_drop_bit (OpEncode_scale (f OR LoadStoreOp_code op)) (mem_offset addr)
        in Inr (Emit_a64 (f OR LoadStoreOp_code op OR ucast (LFT imm12 12 10) OR Rn (mem_base addr) OR Rt rt) a)
      else Inl Unreachable)"

definition ldr_a64 :: "CPURegister \<Rightarrow> MemOperand \<Rightarrow> 'a AssemblerBase_scheme \<Rightarrow> 'a AssemblerBase_scheme res" where
  "ldr_a64 rt src = LoadStore LDR_x rt src"

definition str_a64 :: "CPURegister \<Rightarrow> MemOperand \<Rightarrow> 'a AssemblerBase_scheme \<Rightarrow> 'a AssemblerBase_scheme res" where
  "str_a64 rt src = LoadStore STR_x rt src"

definition LoadStorePair ::
    "LoadStorePairOp \<Rightarrow> CPURegister \<Rightarrow> CPURegister \<Rightarrow> MemOperand \<Rightarrow> 'a AssemblerBase_scheme \<Rightarrow> 'a AssemblerBase_scheme" where
  "LoadStorePair op rt rt2 addr =
     (let combine_fields_op = OpEncode_LoadStorePair op rt rt2 addr OR Rt2 rt2 OR Rn (mem_base addr) OR Rt rt;
          addrmodeop = (if IsImmediateOffset addr then LoadStorePairOffsetOp_code LoadStorePairOffsetFixed
                        else if IsPreIndex addr then LoadStorePairPreIndexOp_code LoadStorePairPreIndexFixed
                        else LoadStorePairPostIndexOp_code LoadStorePairPostIndexFixed)
      in Emit_a64 (LoadStorePairOp_code op OR addrmodeop OR combine_fields_op))"

definition ldp_a64 ::
    "CPURegister \<Rightarrow> CPURegister \<Rightarrow> MemOperand \<Rightarrow> 'a AssemblerBase_scheme \<Rightarrow> 'a AssemblerBase_scheme res" where
  "ldp_a64 rt rt2 src a =
     (if reg_type rt = kSIMD_FP_Register_128 then Inr (LoadStorePair LDP_q rt rt2 src a)
      else if reg_type rt = kRegister_64 then Inr (LoadStorePair LDP_x rt rt2 src a)
      else Inl Unreachable)"

definition stp_a64 ::
    "CPURegister \<Rightarrow> CPURegister \<Rightarrow> MemOperand \<Rightarrow> 'a AssemblerBase_scheme \<Rightarrow> 'a AssemblerBase_scheme res" where
  "stp_a64 rt rt2 dst a =
     (if reg_type rt = kSIMD_FP_Register_128 then Inr (LoadStorePair STP_q rt rt2 dst a)
      else if reg_type rt = kRegister_64 then Inr (LoadStorePair STP_x rt rt2 dst a)
      else Inl Unreachable)"

definition LogicalImmediate ::
    "CPURegister \<Rightarrow> CPURegister \<Rightarrow> Operand \<Rightarrow> LogicalOp \<Rightarrow> 'a AssemblerBase_scheme \<Rightarrow> 'a AssemblerBase_scheme" where
  "LogicalImmediate rd rn operand op = Emit_a64 (LogicalOp_code op OR EncodeLogicalImmediate rd rn operand)"

definition LogicalShift ::
    "CPURegister \<Rightarrow> CPURegister \<Rightarrow> Operand \<Rightarrow> LogicalOp \<Rightarrow> 'a AssemblerBase_scheme \<Rightarrow> 'a AssemblerBase_scheme" where
  "LogicalShift rd rn operand op =
     Emit_a64 (LogicalOp_code op OR LogicalShiftedOp_code LogicalShiftedFixed OR EncodeLogicalShift rd rn operand)"

definition Logical ::
    "CPURegister \<Rightarrow> CPURegister \<Rightarrow> Operand \<Rightarrow> LogicalOp \<Rightarrow> 'a AssemblerBase_scheme \<Rightarrow> 'a AssemblerBase_scheme" where
  "Logical rd rn operand op =
     (if IsImmediate operand then LogicalImmediate rd rn operand op else LogicalShift rd rn operand op)"

definition orr_a64 ::
    "CPURegister \<Rightarrow> CPURegister \<Rightarrow> Operand \<Rightarrow> 'a AssemblerBase_scheme \<Rightarrow> 'a AssemblerBase_scheme" where
  "orr_a64 rd rn operand = Logical rd rn operand ORR_op"

definition mov_a64 :: "CPURegister \<Rightarrow> CPURegister \<Rightarrow> 'a AssemblerBase_scheme \<Rightarrow> 'a AssemblerBase_scheme res" where
  "mov_a64 rd rn a =
     (if Reg_Is rd SP_reg \<or> Reg_Is rn SP_reg then add_a64 rd rn 0 a
      else if Is64Bits rd then Inr (orr_a64 rd xzr (Operand_shifted rn LSL 0) a)
      else Inr (orr_a64 rd wzr (Operand_shifted rn LSL 0) a))"

definition MoveWide ::
    "CPURegister \<Rightarrow> u64 \<Rightarrow> int \<Rightarrow> MoveWideImmediateOp \<Rightarrow> 'a AssemblerBase_scheme \<Rightarrow> 'a AssemblerBase_scheme" where
  "MoveWide rd imm shift op =
     (let shift = (if 0 < shift then shift div 16 else 0);
          imm16 = ucast (LFT imm 16 5)
      in Emit_a64 (MoveWideImmediateOp_code MoveWideImmediateFixed OR MoveWideImmediateOp_code op OR sf rd
           OR LFT (of_int shift) 2 21 OR imm16 OR Rd rd))"

definition movk_a64 :: "CPURegister \<Rightarrow> u64 \<Rightarrow> int \<Rightarrow> 'a AssemblerBase_scheme \<Rightarrow> 'a AssemblerBase_scheme" where
  "movk_a64 rd imm shift = MoveWide rd imm shift MOVK"

definition movn_a64 :: "CPURegister \<Rightarrow> u64 \<Rightarrow> int \<Rightarrow> 'a AssemblerBase_scheme \<Rightarrow> 'a AssemblerBase_scheme" where
  "movn_a64 rd imm shift = MoveWide rd imm shift MOVN"

definition movz_a64 :: "CPURegister \<Rightarrow> u64 \<Rightarrow> int \<Rightarrow> 'a AssemblerBase_scheme \<Rightarrow> 'a AssemblerBase_scheme" where
  "movz_a64 rd imm shift = MoveWide rd imm shift MOVZ"

section \<open>PseudoLabel\<close>

datatype PseudoLabelType = kLdrLiteral

record PseudoLabelInstruction =
  position :: nat
  pl_type :: PseudoLabelType

record PseudoLabel = Label +
  instructions :: "PseudoLabelInstruction LiteMutableArray"

record RelocLabelEntry = PseudoLabel +
  reloc_data :: u64
  data_size :: int

definition new_PseudoLabel :: PseudoLabel where
  "new_PseudoLabel = \<lparr>label_pos = 0, near_link_pos = 0, instructions = arr_initWithCapacity 8\<rparr>"

definition new_RelocLabelEntry :: "u64 \<Rightarrow> RelocLabelEntry" where
  "new_RelocLabelEntry d =
     \<lparr>label_pos = 0, near_link_pos = 0, instructions = arr_initWithCapacity 8, reloc_data = d, data_size = 0\<rparr>"

definition has_confused_instructions :: "'b PseudoLabel_scheme \<Rightarrow> bool" where
  "has_confused_instructions l \<longleftrightarrow> 0 < getCount (instructions l)"

definition fix_ldr_literal :: "u32 \<Rightarrow> int \<Rightarrow> u32" where
  "fix_ldr_literal inst32 offset =
     (inst32 AND 0xFF00001F) OR LFT (signed_drop_bit 2 (of_int offset :: u32)) 19 5"

fun link_loop :: "nat list \<Rightarrow> 'b PseudoLabel_scheme \<Rightarrow> LiteMutableBuffer \<Rightarrow> LiteMutableBuffer res" where
  "link_loop [] l b = Inr b"
| "link_loop (i # is) l b =
     res_bind (getObject i (instructions l)) (\<lambda>ins.
     res_bind (LoadInst (position ins) b) (\<lambda>inst32.
     res_bind (FixBindLabel (position ins)
         (case pl_type ins of kLdrLiteral \<Rightarrow> fix_ldr_literal inst32 (pos l - int (position ins))) b)
       (link_loop is l)))"

definition link_confused_instructions :: "'b PseudoLabel_scheme \<Rightarrow> LiteMutableBuffer \<Rightarrow> LiteMutableBuffer res" where
  "link_confused_instructions l b = link_loop [0..<getCount (instructions l)] l b"

definition pl_link_to :: "nat \<Rightarrow> PseudoLabelType \<Rightarrow> 'b PseudoLabel_scheme \<Rightarrow> 'b PseudoLabel_scheme" where
  "pl_link_to p t l = l\<lparr>instructions := snd (pushObject \<lparr>position = p, pl_type = t\<rparr> (instructions l))\<rparr>"

section \<open>TurboAssembler\<close>

record TurboAssembler = AssemblerBase +
  data_labels :: "nat LiteMutableArray option"
  label_heap :: "nat \<Rightarrow> RelocLabelEntry"

definition new_TurboAssembler :: "(nat \<Rightarrow> u8) \<Rightarrow> u64 \<Rightarrow> TurboAssembler" where
  "new_TurboAssembler junk address =
     \<lparr>code_buffer = the (initWithCapacity junk 32), realized_address = address, data_labels = None,
      label_heap = (\<lambda>_. new_RelocLabelEntry 0)\<rparr>"

definition Mov_a64 :: "CPURegister \<Rightarrow> u64 \<Rightarrow> 'a AssemblerBase_scheme \<Rightarrow> 'a AssemblerBase_scheme" where
  "Mov_a64 rd imm a =
     (let w0 = Low32Bits imm;
          w1 = High32Bits imm;
          h0 = ucast (Low16Bits w0) :: u16;
          h1 = ucast (High16Bits w0) :: u16;
          h2 = ucast (Low16Bits w1) :: u16;
          h3 = ucast (High16Bits w1) :: u16
      in movk_a64 rd (ucast h3) 48 (movk_a64 rd (ucast h2) 32 (movk_a64 rd (ucast h1) 16 (movz_a64 rd (ucast h0) 0 a))))"

definition CallFunction_a64 :: "u64 \<Rightarrow> 'a AssemblerBase_scheme \<Rightarrow> 'a AssemblerBase_scheme" where
  "CallFunction_a64 function_address a = blr_a64 TMP0 (Mov_a64 TMP0 function_address a)"

definition Ldr_a64 :: "CPURegister \<Rightarrow> 'b PseudoLabel_scheme \<Rightarrow> 'a AssemblerBase_scheme
    \<Rightarrow> ('b PseudoLabel_scheme \<times> 'a AssemblerBase_scheme) res" where
  "Ldr_a64 rt label a =
     (if is_bound label then
        res_bind (ldr_literal_a64 rt (of_int (pos label - int (getSize (code_buffer a)))) a) (\<lambda>a'. Inr (label, a'))
      else
        res_bind (ldr_literal_a64 rt 0 a) (\<lambda>a'. Inr (pl_link_to (getSize (code_buffer a)) kLdrLiteral label, a')))"

definition AdrpAdd :: "CPURegister \<Rightarrow> u64 \<Rightarrow> u64 \<Rightarrow> 'a AssemblerBase_scheme \<Rightarrow> 'a AssemblerBase_scheme res" where
  "AdrpAdd rd from to a =
     (let from_PAGE = ALIGN_FLOOR from 0x1000;
          to_PAGE = ALIGN_FLOOR to 0x1000;
          to_PAGEOFF = to mod 0x1000
      in add_a64 rd rd to_PAGEOFF (adrp_a64 rd (to_PAGE - from_PAGE) a))"

definition PseudoBind_a64 :: "'b PseudoLabel_scheme \<Rightarrow> 'a AssemblerBase_scheme
    \<Rightarrow> ('b PseudoLabel_scheme \<times> 'a AssemblerBase_scheme) res" where
  "PseudoBind_a64 label a =
     (let label' = bind_to (int (getSize (code_buffer a))) label
      in if has_confused_instructions label' then
           res_bind (link_confused_instructions label' (code_buffer a)) (\<lambda>b. Inr (label', a\<lparr>code_buffer := b\<rparr>))
         else Inr (label', a))"

fun RelocBind_loop :: "nat list \<Rightarrow> nat LiteMutableArray \<Rightarrow> TurboAssembler \<Rightarrow> TurboAssembler res" where
  "RelocBind_loop [] labels a = Inr a"
| "RelocBind_loop (i # is) labels a =
     res_bind (getObject i labels) (\<lambda>l.
     res_bind (PseudoBind_a64 (label_heap a l) a) (\<lambda>(label, a').
       RelocBind_loop is labels
         (EmitInt64 (reloc_data label) (a'\<lparr>label_heap := (label_heap a')(l := label)\<rparr>))))"

definition RelocBind_a64 :: "TurboAssembler \<Rightarrow> TurboAssembler res" where
  "RelocBind_a64 a =
     (case data_labels a of None \<Rightarrow> Inr a | Some labels \<Rightarrow> RelocBind_loop [0..<getCount labels] labels a)"

definition AppendRelocLabelEntry_a64 :: "nat \<Rightarrow> TurboAssembler \<Rightarrow> TurboAssembler" where
  "AppendRelocLabelEntry_a64 label a =
     (let labels = (case data_labels a of None \<Rightarrow> arr_initWithCapacity 8 | Some labels \<Rightarrow> labels)
      in a\<lparr>data_labels := Some (snd (pushObject label labels))\<rparr>)"

section \<open>CodeGen\<close>

definition LiteralLdrBranch_a64 :: "u64 \<Rightarrow> 'a AssemblerBase_scheme \<Rightarrow> 'a AssemblerBase_scheme res" where
  "LiteralLdrBranch_a64 address a =
     res_bind (Ldr_a64 (Reg_X 17) new_PseudoLabel a) (\<lambda>(address_ptr, a1).
     res_bind (PseudoBind_a64 address_ptr (br_a64 (Reg_X 17) a1)) (\<lambda>(_, a2). Inr (EmitInt64 address a2)))"

end
