(* ===== verification/Mem64.thy ===== *)
theory Mem64
  imports C_Prelude
begin

text \<open>
  Byte memory with 64-bit addresses, shared by the abstract machines the emitted code is judged against:
  little-endian loads and stores, and code standing in memory.
\<close>

definition ld_bytes :: "nat \<Rightarrow> (u64 \<Rightarrow> u8) \<Rightarrow> u64 \<Rightarrow> u8 list" where
  "ld_bytes n m a = map (\<lambda>i. m (a + of_nat i)) [0..<n]"

definition ld32 :: "(u64 \<Rightarrow> u8) \<Rightarrow> u64 \<Rightarrow> u32" where
  "ld32 m a = le_word (ld_bytes 4 m a)"

definition ld64 :: "(u64 \<Rightarrow> u8) \<Rightarrow> u64 \<Rightarrow> u64" where
  "ld64 m a = le_word (ld_bytes 8 m a)"

definition st64 :: "u64 \<Rightarrow> u64 \<Rightarrow> (u64 \<Rightarrow> u8) \<Rightarrow> (u64 \<Rightarrow> u8)" where
  "st64 a v m = (\<lambda>b. if unat (b - a) < 8 then le_bytes 8 v ! unat (b - a) else m b)"

text \<open>The bytes \<open>bs\<close> stand in memory from \<open>a\<close> on.\<close>

definition code_at :: "(u64 \<Rightarrow> u8) \<Rightarrow> u64 \<Rightarrow> u8 list \<Rightarrow> bool" where
  "code_at m a bs \<longleftrightarrow> ld_bytes (length bs) m a = bs"

lemma length_ld_bytes [simp]: "length (ld_bytes n m a) = n"
  by (simp add: ld_bytes_def)

lemma ld_bytes_add: "ld_bytes (j + k) m a = ld_bytes j m a @ ld_bytes k m (a + of_nat j)"
  by (rule nth_equalityI) (auto simp: ld_bytes_def nth_append add.assoc of_nat_diff)

lemma code_at_append:
  "code_at m a (xs @ ys) \<longleftrightarrow> code_at m a xs \<and> code_at m (a + of_nat (length xs)) ys"
  by (auto simp: code_at_def ld_bytes_add)

lemma code_at_word: "code_at m a (le_bytes 4 (w :: u32)) \<Longrightarrow> ld32 m a = w"
  by (simp add: code_at_def ld32_def)

lemma code_at_dword: "code_at m a (le_bytes 8 (d :: u64)) \<Longrightarrow> ld64 m a = d"
  by (simp add: code_at_def ld64_def)

lemma code_at_Nil [simp]: "code_at m a []"
  by (simp add: code_at_def ld_bytes_def)

lemma code_at_Cons: "code_at m a (b # bs) \<longleftrightarrow> m a = b \<and> code_at m (a + 1) bs"
  using code_at_append [of m a "[b]" bs] by (simp add: code_at_def ld_bytes_def)

text \<open>A memory that holds given bytes from an address on.\<close>

definition mem_of :: "u64 \<Rightarrow> u8 list \<Rightarrow> u64 \<Rightarrow> u8" where
  "mem_of addr bs a = (if unat (a - addr) < length bs then bs ! unat (a - addr) else 0)"

lemma unat_of_nat_small: "n < 2 ^ 64 \<Longrightarrow> unat (of_nat n :: u64) = n"
  by (simp add: unsigned_of_nat take_bit_nat_eq_self)

lemma code_at_mem_of:
  assumes "length bs < 2 ^ 64"
  shows "code_at (mem_of addr bs) addr bs"
  using assms by (auto simp: code_at_def ld_bytes_def mem_of_def unat_of_nat_small intro: nth_equalityI)

text \<open>A store is read back, and other addresses keep their bytes.\<close>

lemma ld64_st64_same [simp]: "ld64 (st64 a v m) a = v"
proof -
  have "unat (of_nat i :: u64) = i" if "i < 8" for i
    using that by (simp add: unsigned_of_nat take_bit_nat_eq_self)
  then have "ld_bytes 8 (st64 a v m) a = le_bytes 8 v"
    by (intro nth_equalityI) (auto simp: ld_bytes_def st64_def)
  then show ?thesis by (simp add: ld64_def)
qed

lemma code_at_st64:
  assumes "code_at m a bs" "\<forall>i < length bs. 8 \<le> unat (a + of_nat i - p)"
  shows "code_at (st64 p v m) a bs"
proof -
  have "ld_bytes (length bs) (st64 p v m) a = ld_bytes (length bs) m a"
    unfolding ld_bytes_def by (rule map_cong [OF refl]) (use assms(2) in \<open>simp add: st64_def leD\<close>)
  then show ?thesis using assms(1) by (simp add: code_at_def)
qed

text \<open>Memory in which the bytes from \<open>p\<close> on are replaced.\<close>

lemma code_at_patched:
  assumes "m' = (\<lambda>a. if unat (a - p) < length bs then bs ! unat (a - p) else m a)" "length bs < 2 ^ 64"
  shows "code_at m' p bs"
  using assms by (auto simp: code_at_def ld_bytes_def unat_of_nat_small intro: nth_equalityI)

lemma code_at_unpatched:
  assumes "m' = (\<lambda>a. if unat (a - p) < length bs then bs ! unat (a - p) else m a)"
    and "code_at m a cs" "\<forall>i < length cs. length bs \<le> unat (a + of_nat i - p)"
  shows "code_at m' a cs"
proof -
  have "ld_bytes (length cs) m' a = ld_bytes (length cs) m a"
    unfolding ld_bytes_def assms(1) by (rule map_cong [OF refl]) (use assms(3) in \<open>simp add: leD\<close>)
  then show ?thesis using assms(2) by (simp add: code_at_def)
qed

end
