(* ===== verification/Arm64_Isa.thy ===== *)
theory Arm64_Isa
  imports Mem64
begin

text \<open>
  Semantics of the A64 instructions that Dobby emits or rewrites, from the architecture manual: the
  abstract machine the emitted code is judged against.  Decoding is by the fixed bits of each class;
  an instruction outside the subset has no step (\<open>None\<close>).
\<close>

record arm64_state =
  XR :: "nat \<Rightarrow> u64"
  SP64 :: u64
  PC64 :: u64
  fN :: bool
  fZ :: bool
  fC :: bool
  fV :: bool
  mem64 :: "u64 \<Rightarrow> u8"

definition ufield :: "nat \<Rightarrow> nat \<Rightarrow> u32 \<Rightarrow> nat" where
  "ufield lo n w = unat (drop_bit lo w AND mask n)"

definition sfield :: "nat \<Rightarrow> nat \<Rightarrow> u32 \<Rightarrow> u64" where
  "sfield lo n w = of_int (signed_take_bit (n - 1) (uint (drop_bit lo w AND mask n)))"

text \<open>Register 31 is the zero register in data operands and the stack pointer in addresses.\<close>

definition xread :: "nat \<Rightarrow> arm64_state \<Rightarrow> u64" where
  "xread r s = (if r = 31 then 0 else XR s r)"

definition xwrite :: "nat \<Rightarrow> u64 \<Rightarrow> arm64_state \<Rightarrow> arm64_state" where
  "xwrite r v s = (if r = 31 then s else s\<lparr>XR := (XR s)(r := v)\<rparr>)"

definition spread :: "nat \<Rightarrow> arm64_state \<Rightarrow> u64" where
  "spread r s = (if r = 31 then SP64 s else XR s r)"

definition spwrite :: "nat \<Rightarrow> u64 \<Rightarrow> arm64_state \<Rightarrow> arm64_state" where
  "spwrite r v s = (if r = 31 then s\<lparr>SP64 := v\<rparr> else s\<lparr>XR := (XR s)(r := v)\<rparr>)"

definition next_pc :: "arm64_state \<Rightarrow> arm64_state" where
  "next_pc s = s\<lparr>PC64 := PC64 s + 4\<rparr>"

definition w32 :: "bool \<Rightarrow> u64 \<Rightarrow> u64" where
  "w32 wide v = (if wide then v else v AND 0xFFFFFFFF)"

definition cond_holds :: "nat \<Rightarrow> arm64_state \<Rightarrow> bool" where
  "cond_holds c s =
     (let r = (case c div 2 of
          0 \<Rightarrow> fZ s | Suc 0 \<Rightarrow> fC s | Suc (Suc 0) \<Rightarrow> fN s | Suc (Suc (Suc 0)) \<Rightarrow> fV s
        | Suc (Suc (Suc (Suc 0))) \<Rightarrow> fC s \<and> \<not> fZ s
        | Suc (Suc (Suc (Suc (Suc 0)))) \<Rightarrow> fN s = fV s
        | Suc (Suc (Suc (Suc (Suc (Suc 0))))) \<Rightarrow> fN s = fV s \<and> \<not> fZ s
        | _ \<Rightarrow> True)
      in if odd c \<and> c \<noteq> 15 then \<not> r else r)"

section \<open>One instruction\<close>

definition branch_rel :: "u64 \<Rightarrow> arm64_state \<Rightarrow> arm64_state" where
  "branch_rel off s = s\<lparr>PC64 := PC64 s + off\<rparr>"

definition move_wide :: "u32 \<Rightarrow> arm64_state \<Rightarrow> arm64_state option" where
  "move_wide w s =
     (let wide = bit w 31; opc = ufield 29 2 w; hw = ufield 21 2 w; rd = ufield 0 5 w;
          v = push_bit (16 * hw) (of_nat (ufield 5 16 w) :: u64)
      in if \<not> wide \<and> 2 \<le> hw then None
         else if opc = 2 then Some (next_pc (xwrite rd v s))
         else if opc = 0 then Some (next_pc (xwrite rd (w32 wide (NOT v)) s))
         else if opc = 3 then
           Some (next_pc (xwrite rd (w32 wide ((xread rd s AND NOT (push_bit (16 * hw) (mask 16))) OR v)) s))
         else None)"

definition add_sub_imm :: "u32 \<Rightarrow> arm64_state \<Rightarrow> arm64_state option" where
  "add_sub_imm w s =
     (let wide = bit w 31; rd = ufield 0 5 w; rn = ufield 5 5 w;
          imm = push_bit (if bit w 22 then 12 else 0) (of_nat (ufield 10 12 w) :: u64);
          v = (if bit w 30 then spread rn s - imm else spread rn s + imm)
      in if bit w 29 then None else Some (next_pc (spwrite rd (w32 wide v) s)))"

definition orr_shifted :: "u32 \<Rightarrow> arm64_state \<Rightarrow> arm64_state option" where
  "orr_shifted w s =
     (let wide = bit w 31; rd = ufield 0 5 w; rn = ufield 5 5 w; rm = ufield 16 5 w; amount = ufield 10 6 w
      in if ufield 22 2 w = 0 \<and> (wide \<or> amount < 32) then
           Some (next_pc (xwrite rd (w32 wide (xread rn s OR push_bit amount (xread rm s))) s))
         else None)"

definition load_literal :: "u32 \<Rightarrow> arm64_state \<Rightarrow> arm64_state option" where
  "load_literal w s =
     (let a = PC64 s + 4 * sfield 5 19 w; rt = ufield 0 5 w
      in if bit w 26 then None
         else if ufield 30 2 w = 0 then Some (next_pc (xwrite rt (ucast (ld32 (mem64 s) a)) s))
         else if ufield 30 2 w = 1 then Some (next_pc (xwrite rt (ld64 (mem64 s) a) s))
         else if ufield 30 2 w = 2 then Some (next_pc (xwrite rt (scast (ld32 (mem64 s) a)) s))
         else Some (next_pc s))"

definition load_store_x :: "u32 \<Rightarrow> arm64_state \<Rightarrow> arm64_state" where
  "load_store_x w s =
     (let a = spread (ufield 5 5 w) s + 8 * of_nat (ufield 10 12 w); rt = ufield 0 5 w
      in if bit w 22 then next_pc (xwrite rt (ld64 (mem64 s) a) s)
         else next_pc (s\<lparr>mem64 := st64 a (xread rt s) (mem64 s)\<rparr>))"

definition load_store_pair_x :: "u32 \<Rightarrow> arm64_state \<Rightarrow> arm64_state option" where
  "load_store_pair_x w s =
     (let rn = ufield 5 5 w; rt = ufield 0 5 w; rt2 = ufield 10 5 w; mode = ufield 23 2 w;
          off = 8 * sfield 15 7 w; base = spread rn s;
          a = (if mode = 1 then base else base + off);
          back = (if mode = 2 then (\<lambda>s. s) else spwrite rn (base + off))
      in if mode = 0 then None
         else if bit w 22 then
           Some (next_pc (xwrite rt2 (ld64 (mem64 s) (a + 8)) (xwrite rt (ld64 (mem64 s) a) (back s))))
         else Some (next_pc (back (s\<lparr>mem64 := st64 (a + 8) (xread rt2 s) (st64 a (xread rt s) (mem64 s))\<rparr>))))"

definition a64_exec :: "u32 \<Rightarrow> arm64_state \<Rightarrow> arm64_state option" where
  "a64_exec w s =
     (if w = 0xD503201F then Some (next_pc s)
      else if w AND 0x1F800000 = 0x12800000 then move_wide w s
      else if w AND 0x1F000000 = 0x10000000 then
        let imm = of_int (signed_take_bit 20 (int (ufield 29 2 w + 4 * ufield 5 19 w))) :: u64
        in if bit w 31 then
             Some (next_pc (xwrite (ufield 0 5 w) ((PC64 s AND NOT 0xFFF) + push_bit 12 imm) s))
           else Some (next_pc (xwrite (ufield 0 5 w) (PC64 s + imm) s))
      else if w AND 0x1F800000 = 0x11000000 then add_sub_imm w s
      else if w AND 0x7F200000 = 0x2A000000 then orr_shifted w s
      else if w AND 0x3B000000 = 0x18000000 then load_literal w s
      else if w AND 0xFF800000 = 0xF9000000 then Some (load_store_x w s)
      else if w AND 0xFE000000 = 0xA8000000 then load_store_pair_x w s
      else if w AND 0x7C000000 = 0x14000000 then
        let s' = (if bit w 31 then s\<lparr>XR := (XR s)(30 := PC64 s + 4)\<rparr> else s)
        in Some (branch_rel (4 * sfield 0 26 w) s')
      else if w AND 0xFF9FFC1F = 0xD61F0000 \<and> ufield 21 2 w < 3 then
        let t = xread (ufield 5 5 w) s;
            s' = (if ufield 21 2 w = 1 then s\<lparr>XR := (XR s)(30 := PC64 s + 4)\<rparr> else s)
        in Some (s'\<lparr>PC64 := t\<rparr>)
      else if w AND 0x7E000000 = 0x36000000 then
        let b = ufield 19 5 w + (if bit w 31 then 32 else 0)
        in if bit (xread (ufield 0 5 w) s) b = bit w 24 then Some (branch_rel (4 * sfield 5 14 w) s)
           else Some (next_pc s)
      else if w AND 0x7E000000 = 0x34000000 then
        if (w32 (bit w 31) (xread (ufield 0 5 w) s) \<noteq> 0) = bit w 24 then Some (branch_rel (4 * sfield 5 19 w) s)
        else Some (next_pc s)
      else if w AND 0xFF000010 = 0x54000000 then
        if cond_holds (ufield 0 4 w) s then Some (branch_rel (4 * sfield 5 19 w) s) else Some (next_pc s)
      else None)"

definition a64_step :: "arm64_state \<Rightarrow> arm64_state option" where
  "a64_step s = a64_exec (ld32 (mem64 s) (PC64 s)) s"

primrec a64_run :: "nat \<Rightarrow> arm64_state \<Rightarrow> arm64_state option" where
  "a64_run 0 s = Some s"
| "a64_run (Suc n) s = (case a64_step s of None \<Rightarrow> None | Some s' \<Rightarrow> a64_run n s')"

section \<open>Code in memory\<close>

text \<open>The image of a list of instruction words.\<close>

definition words_le :: "u32 list \<Rightarrow> u8 list" where
  "words_le ws = concat (map (le_bytes 4) ws)"

lemma words_le_simps [simp]:
  "words_le [] = []" "words_le (w # ws) = le_bytes 4 w @ words_le ws" "length (words_le ws) = 4 * length ws"
  by (simp_all add: words_le_def length_concat comp_def sum_list_triv)

lemma a64_step_word: "code_at (mem64 s) (PC64 s) (le_bytes 4 w) \<Longrightarrow> a64_step s = a64_exec w s"
  by (simp add: a64_step_def code_at_word)

lemma a64_run_word:
  "code_at (mem64 s) (PC64 s) (le_bytes 4 w) \<Longrightarrow> a64_exec w s = Some s' \<Longrightarrow> a64_run (Suc n) s = a64_run n s'"
  by (simp add: a64_step_word)

lemma a64_run_add: "a64_run (m + n) s = (case a64_run m s of None \<Rightarrow> None | Some s' \<Rightarrow> a64_run n s')"
  by (induction m arbitrary: s) (simp_all split: option.splits)

lemma next_pc_simps [simp]:
  "PC64 (next_pc s) = PC64 s + 4" "mem64 (next_pc s) = mem64 s" "XR (next_pc s) = XR s" "SP64 (next_pc s) = SP64 s"
  by (simp_all add: next_pc_def)

lemma xwrite_simps [simp]:
  "PC64 (xwrite r v s) = PC64 s" "mem64 (xwrite r v s) = mem64 s" "SP64 (xwrite r v s) = SP64 s"
  by (simp_all add: xwrite_def)

end
