(* ===== verification/Asm_Arm64_Correct.thy ===== *)
theory Asm_Arm64_Correct
  imports Asm_Arm64 Arm64_Isa
begin

text \<open>
  What the code emitted by Dobby's ARM64 assembler does: the emitted words of each operation, their
  decoding on the abstract machine, and the runs of the multi-instruction sequences (\<^verbatim>\<open>Mov\<close>,
  \<^verbatim>\<open>AdrpAdd\<close>, literal loads through labels, \<^verbatim>\<open>LiteralLdrBranch\<close>).
\<close>

section \<open>Decoding what the assembler encodes\<close>

lemma ufield_fw: "ufield lo n w = unat (fw lo n w)"
  by (simp add: ufield_def fw_def)

lemma not_nop: "w AND 0x1F000000 \<noteq> 0x15000000 \<Longrightarrow> w \<noteq> 0xD503201F" for w :: u32
  by auto

lemma exec_nop: "a64_exec 0xD503201F s = Some (next_pc s)"
  by (simp add: a64_exec_def)

lemma move_wide_fields:
  fixes h :: u32
  assumes "r < 32" "hw < 4" "opc < 4"
  defines "w \<equiv> 0x92800000 OR LFT (of_nat opc) 2 29 OR LFT (of_nat hw) 2 21 OR LFT h 16 5 OR LFT (of_nat r) 5 0"
  shows "a64_exec w s = move_wide w s" "ufield 21 2 w = hw" "ufield 29 2 w = opc" "ufield 0 5 w = r"
    "ufield 5 16 w = unat (h AND mask 16)" "bit w 31"
proof -
  have m: "w AND 0x1F800000 = 0x12800000" "w AND 0x1F000000 = 0x12000000" by (simp_all add: w_def mask_fields)
  show "a64_exec w s = move_wide w s" using m not_nop [of w] by (simp add: a64_exec_def)
  show "ufield 21 2 w = hw" "ufield 29 2 w = opc" "ufield 0 5 w = r" "ufield 5 16 w = unat (h AND mask 16)" "bit w 31"
    using assms(1-3) by (simp_all add: w_def ufield_fw fields unat_field bit_simps)
qed

lemma exec_movz:
  fixes h :: u32
  assumes "r < 32" "hw < 4"
  shows "a64_exec (0x92800000 OR LFT (of_nat 2) 2 29 OR LFT (of_nat hw) 2 21 OR LFT h 16 5 OR LFT (of_nat r) 5 0) s =
    Some (next_pc (xwrite r (push_bit (16 * hw) (ucast (h AND mask 16))) s))"
  using move_wide_fields [OF assms, of 2] by (simp add: move_wide_def Let_def)

lemma exec_movk:
  fixes h :: u32
  assumes "r < 31" "hw < 4"
  shows "a64_exec (0x92800000 OR LFT (of_nat 3) 2 29 OR LFT (of_nat hw) 2 21 OR LFT h 16 5 OR LFT (of_nat r) 5 0) s =
    Some (next_pc (xwrite r ((XR s r AND NOT (push_bit (16 * hw) (mask 16))) OR push_bit (16 * hw) (ucast (h AND mask 16))) s))"
  using move_wide_fields [of r hw 3] assms by (simp add: move_wide_def Let_def w32_def xread_def)

lemma ucast_LFT: "m + k \<le> 32 \<Longrightarrow> ucast (LFT (x :: u64) m k) = (LFT (ucast x) m k :: u32)"
  by (rule bit_word_eqI) (auto simp: bit_simps)

lemma reg_fields:
  "Rd (Reg_X r) = LFT (of_nat r) 5 0" "Rt (Reg_X r) = LFT (of_nat r) 5 0" "Rn (Reg_X r) = LFT (of_nat r) 5 5"
  "Rt2 (Reg_X r) = LFT (of_nat r) 5 10" "Rm (Reg_X r) = LFT (of_nat r) 5 16" if "r < 32"
  using of_nat_AND_mask [of r 5, where 'a = 32] that
  by (simp_all add: Rd_def Rt_def Rn_def Rt2_def Rm_def Reg_X_def LFT_def)

lemma Emit_a64_emit_code: "Emit_a64 v a = emit_code (le_bytes 4 v) a"
  by (simp add: Emit_a64_def emit_code_def Emit_eq_EmitBuffer)

lemma EmitInt64_emit_code: "EmitInt64 v a = emit_code (le_bytes 8 v) a"
  by (simp add: EmitInt64_def emit_code_def Emit_eq_EmitBuffer)

lemma Reg_X_simps [simp]:
  "Is64Bits (Reg_X r)" "sf (Reg_X r) = 0x80000000" "reg_code (Reg_X r) = r" "reg_type (Reg_X r) = kRegister_64" "IsRegister (Reg_X r)"
  by (simp_all add: Is64Bits_def sf_def Reg_X_def LFT_eval IsRegister_def less_RegisterType_def)

lemma MoveWide_word:
  assumes "r < 32"
  shows "movz_a64 (Reg_X r) imm 0 = Emit_a64 (0x92800000 OR LFT (of_nat 2) 2 29 OR LFT (of_nat 0) 2 21 OR LFT (ucast imm) 16 5 OR LFT (of_nat r) 5 0)"
    "hw < 4 \<Longrightarrow> 0 < hw \<Longrightarrow> movk_a64 (Reg_X r) imm (int (16 * hw)) = Emit_a64 (0x92800000 OR LFT (of_nat 3) 2 29 OR LFT (of_nat hw) 2 21 OR LFT (ucast imm) 16 5 OR LFT (of_nat r) 5 0)"
  using assms
  by (simp_all add: movz_a64_def movk_a64_def MoveWide_def Let_def reg_fields ucast_LFT LFT_eval [of 2] LFT_eval [of 3] LFT_eval [of 0]
       flip: or.assoc)

section \<open>Mov\<close>

definition movw :: "nat \<Rightarrow> nat \<Rightarrow> nat \<Rightarrow> u16 \<Rightarrow> u32" where
  "movw opc r hw h = 0x92800000 OR LFT (of_nat opc) 2 29 OR LFT (of_nat hw) 2 21 OR LFT (ucast h) 16 5 OR LFT (of_nat r) 5 0"

lemma exec_movw:
  "r < 31 \<Longrightarrow> a64_exec (movw 2 r 0 h) s = Some (next_pc (xwrite r (ucast h) s))"
  "r < 31 \<Longrightarrow> hw < 4 \<Longrightarrow> a64_exec (movw 3 r hw h) s =
     Some (next_pc (xwrite r ((XR s r AND NOT (push_bit (16 * hw) (mask 16))) OR push_bit (16 * hw) (ucast h)) s))"
proof -
  have h: "ucast ((ucast h :: u32) AND mask 16) = (ucast h :: u64)" by (rule bit_word_eqI) (auto simp: bit_simps dest: bit_imp_le_length)
  show "r < 31 \<Longrightarrow> a64_exec (movw 2 r 0 h) s = Some (next_pc (xwrite r (ucast h) s))"
    using exec_movz [of r 0 "ucast h" s] unfolding movw_def h by simp
  show "r < 31 \<Longrightarrow> hw < 4 \<Longrightarrow> a64_exec (movw 3 r hw h) s =
     Some (next_pc (xwrite r ((XR s r AND NOT (push_bit (16 * hw) (mask 16))) OR push_bit (16 * hw) (ucast h)) s))"
    using exec_movk [of r hw "ucast h" s] unfolding movw_def h by simp
qed

definition quarter :: "nat \<Rightarrow> u64 \<Rightarrow> u16" where
  "quarter k imm = ucast (drop_bit (16 * k) imm)"

lemma Mov_a64_words:
  assumes "r < 32"
  shows "Mov_a64 (Reg_X r) imm a =
    Emit_a64 (movw 3 r 3 (quarter 3 imm)) (Emit_a64 (movw 3 r 2 (quarter 2 imm))
      (Emit_a64 (movw 3 r 1 (quarter 1 imm)) (Emit_a64 (movw 2 r 0 (quarter 0 imm)) a)))"
proof -
  have m: "(0xFFFF :: u32) = mask 16" by (simp add: mask_eq_exp_minus_1)
  have q: "ucast (Low16Bits (Low32Bits imm)) = quarter 0 imm" "ucast (High16Bits (Low32Bits imm)) = quarter 1 imm"
    "ucast (Low16Bits (High32Bits imm)) = quarter 2 imm" "ucast (High16Bits (High32Bits imm)) = quarter 3 imm"
    unfolding quarter_def Low16Bits_def Low32Bits_def High16Bits_def High32Bits_def m
    by (rule bit_word_eqI; auto simp: bit_simps min_def)+
  have u: "ucast (ucast h :: u64) = (ucast h :: u32)" for h :: u16 by (rule bit_word_eqI) (auto simp: bit_simps)
  have k: "int (16 * 1) = 16" "int (16 * 2) = 32" "int (16 * 3) = 48" by simp_all
  note movk = MoveWide_word(2) [OF assms, of 1, unfolded k] MoveWide_word(2) [OF assms, of 2, unfolded k]
    MoveWide_word(2) [OF assms, of 3, unfolded k]
  show ?thesis
    by (simp add: Mov_a64_def Let_def q MoveWide_word(1) [OF assms] movk u movw_def)
qed

lemma quarters:
  fixes x :: u64
  defines "a \<equiv> (ucast (quarter 0 x) AND NOT (push_bit 16 (mask 16))) OR push_bit 16 (ucast (quarter 1 x)) :: u64"
  defines "b \<equiv> (a AND NOT (push_bit 32 (mask 16))) OR push_bit 32 (ucast (quarter 2 x))"
  shows "(b AND NOT (push_bit 48 (mask 16))) OR push_bit 48 (ucast (quarter 3 x)) = x"
proof (rule bit_word_eqI)
  fix n assume n: "n < LENGTH(64)"
  consider "n < 16" | "16 \<le> n" "n < 32" | "32 \<le> n" "n < 48" | "48 \<le> n" by linarith
  then show "bit ((b AND NOT (push_bit 48 (mask 16))) OR push_bit 48 (ucast (quarter 3 x))) n \<longleftrightarrow> bit x n"
    using n by cases (auto simp: bit_simps a_def b_def quarter_def)
qed

text \<open>A run of words at the program counter, each with the state it leads to.\<close>

lemma run_words_Cons:
  assumes "code_at (mem64 s) (PC64 s) (words_le (w # ws))" "a64_exec w s = Some s'"
    "mem64 s' = mem64 s" "PC64 s' = PC64 s + 4"
  shows "a64_run (Suc n) s = a64_run n s'" "code_at (mem64 s') (PC64 s') (words_le ws)"
  using assms by (auto simp: code_at_append a64_step_word)

lemma Mov_a64_runs:
  assumes "r < 31" "code_at (mem64 s) (PC64 s) (words_le [movw 2 r 0 (quarter 0 imm), movw 3 r 1 (quarter 1 imm),
      movw 3 r 2 (quarter 2 imm), movw 3 r 3 (quarter 3 imm)])"
  shows "a64_run 4 s = Some (s\<lparr>XR := (XR s)(r := imm), PC64 := PC64 s + 16\<rparr>)"
proof -
  let ?step = "\<lambda>v s. next_pc (xwrite r v s)"
  have st: "mem64 (?step v s) = mem64 s" "PC64 (?step v s) = PC64 s + 4" for v s by simp_all
  note r1 = run_words_Cons [OF assms(2) exec_movw(1) [OF assms(1)] st]
  note r2 = run_words_Cons [OF r1(2) exec_movw(2) [OF assms(1)] st]
  note r3 = run_words_Cons [OF r2(2) exec_movw(2) [OF assms(1)] st]
  note r4 = run_words_Cons [OF r3(2) exec_movw(2) [OF assms(1)] st]
  have n4: "(4 :: nat) = Suc (Suc (Suc (Suc 0)))" by simp
  have ne: "r \<noteq> 31" using assms(1) by simp
  show ?thesis
    unfolding n4 using r1(1) r2(1) r3(1) r4(1) quarters [of imm] ne by (simp add: xwrite_def next_pc_def)
qed

lemma emit_words_Cons:
  assumes "asm_ok a" "pc_offset a + 4 * length (w # ws) < 2 ^ 30"
  shows "asm_ok (Emit_a64 w a)" "pc_offset (Emit_a64 w a) = pc_offset a + 4"
    "emitted (Emit_a64 w a) = emitted a @ le_bytes 4 w" "pc_offset (Emit_a64 w a) + 4 * length ws < 2 ^ 30"
  using assms emit_code_ok [of a "le_bytes 4 w"] emit_code_emitted [of a "le_bytes 4 w"] pc_offset_emit_code [of a "le_bytes 4 w"]
  by (simp_all add: Emit_a64_emit_code)

lemma emit_words:
  "asm_ok a \<Longrightarrow> pc_offset a + 4 * length ws < 2 ^ 30 \<Longrightarrow>
   asm_ok (fold Emit_a64 ws a) \<and> emitted (fold Emit_a64 ws a) = emitted a @ words_le ws
     \<and> pc_offset (fold Emit_a64 ws a) = pc_offset a + 4 * length ws"
proof (induction ws arbitrary: a)
  case Nil
  then show ?case by simp
next
  case (Cons w ws)
  with emit_words_Cons [OF Cons.prems] Cons.IH [of "Emit_a64 w a"] show ?case by simp
qed


section \<open>AdrpAdd\<close>

definition adrp_word :: "nat \<Rightarrow> u64 \<Rightarrow> u32" where
  "adrp_word r imm = 0x90000000 OR LFT (of_nat r) 5 0 OR LFT (ucast (drop_bit 12 imm)) 2 29 OR LFT (ucast (drop_bit 14 imm)) 19 5"

definition add_word :: "nat \<Rightarrow> nat \<Rightarrow> u64 \<Rightarrow> u32" where
  "add_word rd rn imm = 0x91000000 OR LFT (of_nat rd) 5 0 OR LFT (of_nat rn) 5 5 OR LFT (ucast imm) 12 10"

lemma adrp_a64_word: "r < 32 \<Longrightarrow> adrp_a64 (Reg_X r) imm = Emit_a64 (adrp_word r imm)"
proof -
  assume r: "r < 32"
  have "(ucast (LFT (bits (signed_drop_bit 12 imm) 0 1) 2 29) :: u32) = LFT (ucast (drop_bit 12 imm)) 2 29"
    "(ucast (LFT (bits (signed_drop_bit 12 imm) 2 20) 19 5) :: u32) = LFT (ucast (drop_bit 14 imm)) 19 5"
    by (rule bit_word_eqI; auto simp: bit_simps min_def)+
  then show ?thesis using r by (simp add: adrp_a64_def Let_def adrp_word_def reg_fields)
qed

lemma add_a64_word:
  "rd < 32 \<Longrightarrow> rn < 32 \<Longrightarrow> add_a64 (Reg_X rd) (Reg_X rn) imm a = Inr (Emit_a64 (add_word rd rn imm) a)"
  by (simp add: add_a64_def AddSubImmediate_def IsImmediate_def Operand_imm_def Reg_Is_def InvalidRegister_def Let_def
      add_word_def reg_fields ucast_LFT AddSubImmediateOpSub_def LFT_eval [of 1] LFT_eval [of 0])

lemma AdrpAdd_words:
  "r < 32 \<Longrightarrow> AdrpAdd (Reg_X r) from to a =
     Inr (fold Emit_a64 [adrp_word r (ALIGN_FLOOR to 0x1000 - ALIGN_FLOOR from 0x1000), add_word r r (to mod 0x1000)] a)"
  by (simp add: AdrpAdd_def Let_def adrp_a64_word add_a64_word)

lemma exec_add_word:
  assumes "rd < 32" "rn < 32"
  shows "a64_exec (add_word rd rn imm) s = Some (next_pc (spwrite rd (spread rn s + (imm AND mask 12)) s))"
proof -
  let ?w = "add_word rd rn imm"
  have m: "?w AND 0x1F800000 = 0x11000000" "?w AND 0x1F000000 = 0x11000000" by (simp_all add: add_word_def mask_fields)
  have f: "ufield 0 5 ?w = rd" "ufield 5 5 ?w = rn" "ufield 10 12 ?w = unat ((ucast imm :: u32) AND mask 12)" "bit ?w 31"
      "\<not> bit ?w 29" "\<not> bit ?w 22" "\<not> bit ?w 30"
    using assms by (simp_all add: add_word_def ufield_fw fields unat_field bit_simps)
  have u: "(ucast ((ucast imm :: u32) AND mask 12) :: u64) = imm AND mask 12"
    by (rule bit_word_eqI) (auto simp: bit_simps)
  show ?thesis using m f not_nop [of ?w] by (simp add: a64_exec_def add_sub_imm_def Let_def w32_def u)
qed

text \<open>A page difference in the range of ADRP survives the split into its two fields.\<close>

lemma adrp_imm:
  fixes d :: u64
  assumes "d AND 0xFFF = 0" "- (2 ^ 32) \<le> sint d" "sint d < 2 ^ 32"
  shows "push_bit 12 (of_int (signed_take_bit 20 (uint (drop_bit 12 d AND mask 21)))) = d"
proof (rule bit_word_eqI)
  fix n assume n: "n < LENGTH(64)"
  have m: "(0xFFF :: u64) = mask 12" by (simp add: mask_eq_exp_minus_1)
  have low: "n < 12 \<Longrightarrow> \<not> bit d n"
    using arg_cong [OF assms(1), of "\<lambda>x. bit x n"] unfolding m by (simp add: bit_simps n)
  have "bit (sint d) n = bit (signed_take_bit 32 (sint d)) n" using assms(2,3) by (simp add: signed_take_bit_int_eq_self)
  then have high: "32 \<le> n \<Longrightarrow> bit d n = bit d 32"
    using n by (cases "n = 63") (auto simp: bit_simps min_def split: if_splits)
  consider "n < 12" | k where "n = 12 + k" "k < 20" | "32 \<le> n" using le_Suc_ex [of 12 n] by fastforce
  then show "bit (push_bit 12 (of_int (signed_take_bit 20 (uint (drop_bit 12 d AND mask 21)))) :: u64) n \<longleftrightarrow> bit d n"
    using low high n by cases (auto simp: bit_simps min_def)
qed

lemma exec_adrp_word:
  assumes "r < 32" "d AND 0xFFF = 0" "- (2 ^ 32) \<le> sint d" "sint d < 2 ^ 32"
  shows "a64_exec (adrp_word r d) s = Some (next_pc (xwrite r ((PC64 s AND NOT 0xFFF) + d) s))"
proof -
  let ?w = "adrp_word r d"
  have m: "?w AND 0x1F000000 = 0x10000000" by (simp add: adrp_word_def mask_fields)
  have m': "?w AND 0x1F800000 \<noteq> 0x12800000" by (rule mask_neq [OF m]) simp
  have f: "ufield 0 5 ?w = r" "ufield 29 2 ?w = unat ((ucast (drop_bit 12 d) :: u32) AND mask 2)"
      "ufield 5 19 ?w = unat ((ucast (drop_bit 14 d) :: u32) AND mask 19)" "bit ?w 31"
    using assms by (simp_all add: adrp_word_def ufield_fw fields unat_field bit_simps)
  have "int (ufield 29 2 ?w + 4 * ufield 5 19 ?w) = uint (drop_bit 12 d AND mask 21)"
  proof -
    have "unat (drop_bit 12 d AND mask 21) = unat d div 2 ^ 12 mod 2 ^ 21" by (rule unat_field_div)
    also have "\<dots> = unat d div 2 ^ 12 mod 4 + 4 * (unat d div 2 ^ 14 mod 2 ^ 19)"
      using mod_mult2_eq [of "unat d div 2 ^ 12" 4 "2 ^ 19"] by (simp add: div_mult2_eq [symmetric])
    finally have e: "unat (drop_bit 12 d AND mask 21) = unat d div 2 ^ 12 mod 4 + 4 * (unat d div 2 ^ 14 mod 2 ^ 19)" .
    show ?thesis using arg_cong [OF e, of int] by (simp add: f unat_ucast_field)
  qed
  then show ?thesis using m m' f not_nop [of ?w] adrp_imm [OF assms(2-4)] by (simp add: a64_exec_def Let_def)
qed

lemma page_difference:
  fixes src dst :: u64
  shows "(ALIGN_FLOOR dst 0x1000 - ALIGN_FLOOR src 0x1000) AND 0xFFF = 0" "ALIGN_FLOOR x 0x1000 = x AND NOT 0xFFF"
    "ALIGN_FLOOR dst 0x1000 + (dst mod 0x1000 AND mask 12) = dst"
proof -
  have m: "(0xFFF :: u64) = mask 12" by (simp add: mask_eq_exp_minus_1)
  have a: "ALIGN_FLOOR x 0x1000 = x AND NOT (mask 12)" for x :: u64 using ALIGN_FLOOR_mask [of x 12] by simp
  have p: "x AND NOT (mask 12) = push_bit 12 (drop_bit 12 x)" for x :: u64 by (rule bit_word_eqI) (auto simp: bit_simps)
  have "push_bit 12 x - push_bit 12 y = push_bit 12 (x - y)" for x y :: u64 by (simp add: push_bit_eq_mult algebra_simps)
  then show "(ALIGN_FLOOR dst 0x1000 - ALIGN_FLOOR src 0x1000) AND 0xFFF = 0"
    unfolding a m p by (simp add: bit_eq_iff bit_simps)
  show "ALIGN_FLOOR x 0x1000 = x AND NOT 0xFFF" by (simp add: ALIGN_FLOOR_def)
  have t: "dst mod 0x1000 = take_bit 12 dst" by (simp add: take_bit_eq_mod)
  show "ALIGN_FLOOR dst 0x1000 + (dst mod 0x1000 AND mask 12) = dst"
    unfolding a t take_bit_eq_mask [symmetric]
    by (subst disjunctive_add_eq_or) (rule bit_word_eqI; auto simp: bit_simps)+
qed

lemma AdrpAdd_runs:
  assumes "r < 31" "PC64 s = src"
    "code_at (mem64 s) src (words_le [adrp_word r (ALIGN_FLOOR dst 0x1000 - ALIGN_FLOOR src 0x1000), add_word r r (dst mod 0x1000)])"
    "- (2 ^ 32) \<le> sint (ALIGN_FLOOR dst 0x1000 - ALIGN_FLOOR src 0x1000)" "sint (ALIGN_FLOOR dst 0x1000 - ALIGN_FLOOR src 0x1000) < 2 ^ 32"
  shows "a64_run 2 s = Some (s\<lparr>XR := (XR s)(r := dst), PC64 := src + 8\<rparr>)"
proof -
  let ?d = "ALIGN_FLOOR dst 0x1000 - ALIGN_FLOOR src 0x1000"
  have r: "r < 32" "r \<noteq> 31" using assms(1) by simp_all
  have st: "mem64 (next_pc (xwrite r v s)) = mem64 s" "PC64 (next_pc (xwrite r v s)) = PC64 s + 4"
    "mem64 (next_pc (spwrite r v s)) = mem64 s" "PC64 (next_pc (spwrite r v s)) = PC64 s + 4" for v s
    using r by (simp_all add: spwrite_def)
  have c: "code_at (mem64 s) (PC64 s) (words_le [adrp_word r ?d, add_word r r (dst mod 0x1000)])" using assms(2,3) by simp
  note r1 = run_words_Cons [OF c exec_adrp_word [OF r(1) page_difference(1) assms(4,5)] st(1,2)]
  note r2 = run_words_Cons [OF r1(2) exec_add_word [OF r(1) r(1)] st(3,4)]
  have "(PC64 s AND NOT 0xFFF) + ?d = ALIGN_FLOOR dst 0x1000" unfolding assms(2) page_difference(2) by simp
  then show ?thesis
    unfolding numeral_2_eq_2 using r1(1) r2(1) r page_difference(3) [of dst] assms(2)
    by (simp add: xwrite_def next_pc_def spwrite_def spread_def)
qed

section \<open>Literal loads and branches to a register\<close>

definition ldr_lit_word :: "nat \<Rightarrow> u32 \<Rightarrow> u32" where
  "ldr_lit_word r off = 0x58000000 OR LFT off 19 5 OR LFT (of_nat r) 5 0"

definition br_word :: "nat \<Rightarrow> u32" where
  "br_word r = 0xD61F0000 OR LFT (of_nat r) 5 5"

lemma br_a64_word: "r < 32 \<Longrightarrow> br_a64 (Reg_X r) = Emit_a64 (br_word r)"
  by (simp add: br_a64_def br_word_def reg_fields)

lemma exec_br_word: "r < 31 \<Longrightarrow> a64_exec (br_word r) s = Some (s\<lparr>PC64 := XR s r\<rparr>)"
proof -
  assume r: "r < 31"
  let ?w = "br_word r"
  have m: "?w AND 0xFFFFFC1F = 0xD61F0000" by (simp add: br_word_def mask_fields)
  have f: "ufield 5 5 ?w = r" "ufield 21 2 ?w = 0" using r by (simp_all add: br_word_def ufield_fw fields unat_field)
  note t = mask_neq [OF m] mask_sub [OF m]
  show ?thesis using f r not_nop [of ?w] by (simp add: a64_exec_def Let_def t xread_def)
qed

lemma exec_ldr_lit_word:
  "r < 31 \<Longrightarrow> a64_exec (ldr_lit_word r off) s =
     Some (next_pc (xwrite r (ld64 (mem64 s) (PC64 s + 4 * sfield 5 19 (ldr_lit_word r off))) s))"
  "sfield 5 19 (ldr_lit_word r off) = of_int (signed_take_bit 18 (uint (off AND mask 19)))"
proof -
  let ?w = "ldr_lit_word r off"
  have m: "?w AND 0xFF000000 = 0x58000000" by (simp add: ldr_lit_word_def mask_fields)
  have f: "ufield 0 5 ?w = r" if "r < 31" using that by (simp add: ldr_lit_word_def ufield_fw fields unat_field)
  have g: "ufield 30 2 ?w = 1" "\<not> bit ?w 26" by (simp_all add: ldr_lit_word_def ufield_fw fields bit_simps)
  note t = mask_neq [OF m] mask_sub [OF m]
  show "r < 31 \<Longrightarrow> a64_exec ?w s = Some (next_pc (xwrite r (ld64 (mem64 s) (PC64 s + 4 * sfield 5 19 ?w)) s))"
    using f g not_nop [of ?w] by (simp add: a64_exec_def load_literal_def Let_def t)
  have "fw 5 19 ?w = off AND mask 19" by (simp add: ldr_lit_word_def fields)
  then show "sfield 5 19 ?w = of_int (signed_take_bit 18 (uint (off AND mask 19)))" by (simp add: sfield_def fw_def)
qed

lemma ldr_literal_a64_zero: "r < 32 \<Longrightarrow> ldr_literal_a64 (Reg_X r) 0 a = Inr (Emit_a64 (ldr_lit_word r 0) a)"
  by (simp add: ldr_literal_a64_def EmitLoadRegLiteral_def LoadRegLiteralSub_def reg_fields ldr_lit_word_def
      LFT_eval [of 1] LFT_eval [of 0])

text \<open>Fixing a recorded literal load for a label \<open>4 * k\<close> bytes further on.\<close>

lemma fix_ldr_literal_word:
  assumes "r < 32" "0 \<le> k" "k < 2 ^ 18"
  shows "fix_ldr_literal (ldr_lit_word r off) (4 * k) = ldr_lit_word r (of_int k)"
proof -
  have k: "signed_drop_bit 2 (of_int (4 * k) :: u32) = of_int k"
  proof (rule bit_word_eqI)
    fix n assume n: "n < LENGTH(32)"
    have p: "4 * k = push_bit 2 k" by (simp add: push_bit_eq_mult)
    have "take_bit 18 k = k" using assms(2,3) by (rule take_bit_int_eq_self)
    then have "bit k j \<Longrightarrow> j < 18" for j by (metis bit_take_bit_iff)
    then have h: "bit k j = False" if "18 \<le> j" for j using that by fastforce
    show "bit (signed_drop_bit 2 (of_int (4 * k)) :: u32) n \<longleftrightarrow> bit (of_int k :: u32) n"
      unfolding p using n by (cases "n < 18") (auto simp: bit_simps min_def h)
  qed
  have "ldr_lit_word r off AND 0xFF00001F = 0x58000000 OR LFT (of_nat r) 5 0"
  proof -
    have "LFT (of_nat r) 5 0 AND 0xFF00001F = (LFT (of_nat r) 5 0 :: u32)"
      by (simp add: LFT_eval and.assoc)
    then show ?thesis by (simp add: ldr_lit_word_def mask_fields)
  qed
  then show ?thesis unfolding fix_ldr_literal_def k by (simp add: ldr_lit_word_def or.assoc or.commute or.left_commute)
qed

section \<open>Binding a pseudo label\<close>

text \<open>The rewrite of one recorded instruction, on the emitted bytes.\<close>

definition relink :: "int \<Rightarrow> nat \<Rightarrow> u8 list \<Rightarrow> u8 list" where
  "relink target p bs = poke p (le_bytes 4 (fix_ldr_literal (le_word (peek p 4 bs)) (target - int p))) bs"

lemma getSize_contents: "buf_ok b \<Longrightarrow> buf_ok b' \<Longrightarrow> length (contents b') = length (contents b) \<Longrightarrow> getSize b' = getSize b"
  by simp

lemma link_loop_relinks:
  assumes "arr_ok (instructions l)"
  shows "buf_ok b \<Longrightarrow> \<forall>i \<in> set is. i < getCount (instructions l) \<and> position (objects (instructions l) ! i) + 4 \<le> getSize b \<Longrightarrow>
    \<exists>b'. link_loop is l b = Inr b' \<and> buf_ok b' \<and> getSize b' = getSize b
      \<and> contents b' = fold (\<lambda>i. relink (pos l) (position (objects (instructions l) ! i))) is (contents b)"
proof (induction "is" arbitrary: b)
  case Nil
  then show ?case by simp
next
  case (Cons i "is")
  let ?ins = "objects (instructions l) ! i"
  let ?v = "fix_ldr_literal (le_word (peek (position ?ins) 4 (contents b))) (pos l - int (position ?ins))"
  have i: "getObject i (instructions l) = Inr ?ins" "position ?ins + 4 \<le> getSize b"
    using Cons.prems getObject_inside [OF assms, of i] by simp_all
  obtain b1 where b1: "FixBindLabel (position ?ins) ?v b = Inr b1" "buf_ok b1"
      "contents b1 = poke (position ?ins) (le_bytes 4 ?v) (contents b)"
    using FixBindLabel_inside [OF Cons.prems(1) i(2), of ?v] by blast
  have sz: "getSize b1 = getSize b"
    using getSize_contents [OF Cons.prems(1) b1(2)] b1(3) i(2) Cons.prems(1) by simp
  have "link_loop (i # is) l b = link_loop is l b1"
    using i LoadInst_inside [OF Cons.prems(1) i(2)] b1(1) by (cases "pl_type ?ins") simp
  with Cons.IH [OF b1(2)] Cons.prems(2) sz b1(3) show ?case by (simp add: relink_def)
qed

lemma PseudoBind_a64_relinks:
  assumes "asm_ok a" "arr_ok (instructions l)" "\<forall>ins \<in> set (objects (instructions l)). position ins + 4 \<le> pc_offset a"
  shows "\<exists>a'. PseudoBind_a64 l a = Inr (bind_to (int (pc_offset a)) l, a') \<and> asm_ok a' \<and> pc_offset a' = pc_offset a
    \<and> realized_address a' = realized_address a \<and> AssemblerBase.more a' = AssemblerBase.more a
    \<and> emitted a' = fold (\<lambda>ins. relink (int (pc_offset a)) (position ins)) (objects (instructions l)) (emitted a)"
proof -
  let ?l = "bind_to (int (pc_offset a)) l" and ?n = "getCount (instructions l)"
  have l: "instructions ?l = instructions l" "pos ?l = int (pc_offset a)" by (simp_all add: bind_to_def pos_def)
  have ok: "buf_ok (code_buffer a)" "getSize (code_buffer a) = pc_offset a" using assms(1) by (simp_all add: asm_ok_def pc_offset_def)
  have all: "\<forall>i \<in> set [0..<?n]. i < getCount (instructions ?l) \<and> position (objects (instructions ?l) ! i) + 4 \<le> getSize (code_buffer a)"
    using assms(2,3) ok(2) l by (auto simp: all_set_conv_all_nth)
  obtain b where b: "link_loop [0..<?n] ?l (code_buffer a) = Inr b" "buf_ok b" "getSize b = pc_offset a"
      "contents b = fold (\<lambda>i. relink (pos ?l) (position (objects (instructions ?l) ! i))) [0..<?n] (contents (code_buffer a))"
    using link_loop_relinks [of ?l, OF _ ok(1) all] assms(2) ok(2) l(1) by auto
  have idx: "map (\<lambda>i. objects (instructions l) ! i) [0..<?n] = objects (instructions l)"
    using assms(2) map_nth [of "objects (instructions l)"] by simp
  have "contents b = fold (\<lambda>ins. relink (int (pc_offset a)) (position ins)) (objects (instructions l)) (emitted a)"
    using fold_map [of "\<lambda>ins. relink (int (pc_offset a)) (position ins)" "\<lambda>i. objects (instructions l) ! i" "[0..<?n]"]
    unfolding b(4) l idx by (simp add: comp_def emitted_def)
  then have e: "contents b = \<dots>" .
  let ?a' = "if has_confused_instructions ?l then a\<lparr>code_buffer := b\<rparr> else a"
  have n0: "objects (instructions l) = []" if "\<not> has_confused_instructions ?l"
    using that assms(2) length_objects [OF assms(2)] by (simp add: has_confused_instructions_def l flip: length_0_conv)
  have "PseudoBind_a64 l a = Inr (?l, ?a')"
    using b(1) ok(2) l(1) by (simp add: PseudoBind_a64_def Let_def link_confused_instructions_def)
  moreover have "emitted ?a' = fold (\<lambda>ins. relink (int (pc_offset a)) (position ins)) (objects (instructions l)) (emitted a)"
    using e n0 by (simp add: emitted_def)
  moreover have "asm_ok ?a'" "pc_offset ?a' = pc_offset a" using b(2,3) assms(1) by (simp_all add: asm_ok_def pc_offset_def)
  moreover have "realized_address ?a' = realized_address a" "AssemblerBase.more ?a' = AssemblerBase.more a" by simp_all
  ultimately show ?thesis by blast
qed

section \<open>Literal load and branch\<close>

lemma new_label_link:
  assumes "pushObject \<lparr>position = p, pl_type = kLdrLiteral\<rparr> (arr_initWithCapacity 8) = (True, ar)"
  shows "arr_ok ar" "objects ar = [\<lparr>position = p, pl_type = kLdrLiteral\<rparr>]"
  using pushObject_props [of "arr_initWithCapacity 8" "\<lparr>position = p, pl_type = kLdrLiteral\<rparr>"] assms arr_init_ok [of 8, where 'a = PseudoLabelInstruction]
  by (auto simp: arr_initWithCapacity_def getCount_def)

lemma pl_link_to_fresh:
  assumes "instructions l = arr_initWithCapacity 8"
  shows "arr_ok (instructions (pl_link_to p kLdrLiteral l))"
    "objects (instructions (pl_link_to p kLdrLiteral l)) = [\<lparr>position = p, pl_type = kLdrLiteral\<rparr>]"
proof -
  obtain ar where "pushObject \<lparr>position = p, pl_type = kLdrLiteral\<rparr> (arr_initWithCapacity 8) = (True, ar)"
    using pushObject_props [of "arr_initWithCapacity 8" "\<lparr>position = p, pl_type = kLdrLiteral\<rparr>"]
      arr_init_ok [of 8, where 'a = PseudoLabelInstruction] by (auto simp: arr_initWithCapacity_def getCount_def)
  with new_label_link [OF this] assms show "arr_ok (instructions (pl_link_to p kLdrLiteral l))"
    "objects (instructions (pl_link_to p kLdrLiteral l)) = [\<lparr>position = p, pl_type = kLdrLiteral\<rparr>]"
    by (simp_all add: pl_link_to_def)
qed

text \<open>Relinking a load that was emitted \<open>4 * k\<close> bytes before the label.\<close>

lemma relink_ldr:
  assumes "r < 32" "k < 2 ^ 18" "length pre = p"
  shows "relink (int (p + 4 * k)) p (pre @ le_bytes 4 (ldr_lit_word r off) @ post) =
    pre @ le_bytes 4 (ldr_lit_word r (of_nat k)) @ post"
proof -
  have "peek p 4 (pre @ le_bytes 4 (ldr_lit_word r off) @ post) = le_bytes 4 (ldr_lit_word r off)"
    using assms(3) by (simp add: peek_def)
  moreover have "fix_ldr_literal (ldr_lit_word r off) (int (p + 4 * k) - int p) = ldr_lit_word r (of_nat k)"
    using fix_ldr_literal_word [OF assms(1), of "int k" off] assms(2) by simp
  ultimately show ?thesis using assms(3) by (simp add: relink_def poke_def)
qed

lemma LiteralLdrBranch_a64_emits:
  assumes "asm_ok a" "pc_offset a + 16 < 2 ^ 30"
  shows "\<exists>a'. LiteralLdrBranch_a64 address a = Inr a' \<and> asm_ok a' \<and> pc_offset a' = pc_offset a + 16
    \<and> realized_address a' = realized_address a \<and> AssemblerBase.more a' = AssemblerBase.more a
    \<and> emitted a' = emitted a @ words_le [ldr_lit_word 17 2, br_word 17] @ le_bytes 8 address"
proof -
  let ?l = "pl_link_to (pc_offset a) kLdrLiteral new_PseudoLabel"
  let ?a2 = "Emit_a64 (br_word 17) (Emit_a64 (ldr_lit_word 17 0) a)"
  have e: "asm_ok ?a2" "emitted ?a2 = emitted a @ le_bytes 4 (ldr_lit_word 17 0) @ le_bytes 4 (br_word 17)" "pc_offset ?a2 = pc_offset a + 8"
    using emit_words [of a "[ldr_lit_word 17 0, br_word 17]"] assms by simp_all
  have m: "realized_address ?a2 = realized_address a" "AssemblerBase.more ?a2 = AssemblerBase.more a"
    by (simp_all add: Emit_a64_emit_code)
  have ar: "arr_ok (instructions ?l)" "objects (instructions ?l) = [\<lparr>position = pc_offset a, pl_type = kLdrLiteral\<rparr>]"
    using pl_link_to_fresh [of new_PseudoLabel] by (simp_all add: new_PseudoLabel_def)
  obtain a3 where a3: "PseudoBind_a64 ?l ?a2 = Inr (bind_to (int (pc_offset ?a2)) ?l, a3)" "asm_ok a3" "pc_offset a3 = pc_offset ?a2"
      "realized_address a3 = realized_address ?a2" "AssemblerBase.more a3 = AssemblerBase.more ?a2"
      "emitted a3 = relink (int (pc_offset ?a2)) (pc_offset a) (emitted ?a2)"
    using PseudoBind_a64_relinks [OF e(1) ar(1)] ar(2) e(3) by auto
  have e3: "emitted a3 = emitted a @ le_bytes 4 (ldr_lit_word 17 2) @ le_bytes 4 (br_word 17)"
    using relink_ldr [of 17 2 "emitted a" "pc_offset a" 0 "le_bytes 4 (br_word 17)"] a3(6) e assms(1) by simp
  have "LiteralLdrBranch_a64 address a = Inr (EmitInt64 address a3)"
    using a3(1) by (simp add: LiteralLdrBranch_a64_def Ldr_a64_def new_PseudoLabel_def is_bound_def ldr_literal_a64_zero br_a64_word pc_offset_def)
  then show ?thesis
    using emit_code_ok [OF a3(2), of "le_bytes 8 address"] emit_code_emitted [OF a3(2), of "le_bytes 8 address"]
      pc_offset_emit_code [OF a3(2), of "le_bytes 8 address"] a3(3-5) e(3) e3 m assms(2)
    by (simp add: EmitInt64_emit_code)
qed

lemma LiteralLdrBranch_runs:
  assumes "code_at (mem64 s) (PC64 s) (words_le [ldr_lit_word 17 2, br_word 17] @ le_bytes 8 address)"
  shows "a64_run 2 s = Some (s\<lparr>XR := (XR s)(17 := address), PC64 := address\<rparr>)"
proof -
  have c: "code_at (mem64 s) (PC64 s) (words_le [ldr_lit_word 17 2, br_word 17])" "code_at (mem64 s) (PC64 s + 8) (le_bytes 8 address)"
    using assms by (simp_all only: code_at_append) simp_all
  have off: "sfield 5 19 (ldr_lit_word 17 2) = 2"
    by (simp add: exec_ldr_lit_word(2) take_bit_eq_mask [symmetric] unsigned_take_bit_eq signed_take_bit_int_eq_self)
  note r1 = run_words_Cons [OF c(1) exec_ldr_lit_word(1)]
  show ?thesis unfolding numeral_2_eq_2
    using r1(1) [of "Suc 0"] r1(2) code_at_dword [OF c(2)] off
    by (simp add: code_at_append xwrite_def next_pc_def a64_step_word exec_br_word)
qed
end
