(* ===== verification/Memory_Arena.thy ===== *)
theory Memory_Arena
  imports Assembler_Base
begin

text \<open>
  Executable memory of Dobby: the page and chunk allocator \<^verbatim>\<open>source/MemoryArena.cc\<close>, the patch tool
  \<^verbatim>\<open>UserMode/ExecMemory/code-patch-tool-posix.cc\<close> and the code objects of
  \<^verbatim>\<open>Helpers/AssemblyCode.cc\<close>.  The answer of \<^verbatim>\<open>OSMemory::Allocate\<close> (\<^verbatim>\<open>mmap\<close>) and the page size are
  parameters; memory is a function from addresses to bytes with a writable flag per address, which
  \<^verbatim>\<open>mprotect\<close> changes page by page.
\<close>

section \<open>MemoryArena\<close>

datatype MemoryPermission = kNoAccess | kRead | kReadWrite | kReadWriteExecute | kReadExecute

record MemoryRange =
  mr_address :: u64
  mr_length :: u64

record PageChunk =
  page :: MemoryRange
  page_cursor :: u64
  permission :: MemoryPermission
  chunks :: "MemoryRange LiteMutableArray"

type_synonym arena = "PageChunk LiteMutableArray option"

definition page_fits :: "nat \<Rightarrow> MemoryPermission \<Rightarrow> PageChunk \<Rightarrow> bool" where
  "page_fits inSize perm p \<longleftrightarrow>
     permission p = perm \<and> page_cursor p + of_nat inSize < mr_address (page p) + mr_length (page p)"

text \<open>The walk of the iterator up to the first page that satisfies \<open>P\<close>, or to the null object.\<close>

function find_page :: "('a \<Rightarrow> bool) \<Rightarrow> nat \<Rightarrow> 'a LiteMutableArray \<Rightarrow> nat option" where
  "find_page P i pages =
     (case getNextObjectForIterator i pages of
        (_, None) \<Rightarrow> None
      | (i', Some p) \<Rightarrow> if P p then Some i else find_page P i' pages)"
  by pat_completeness auto

termination
  by (relation "measure (\<lambda>(_, i, pages). arr_count pages - i)")
     (auto simp: getNextObjectForIterator_def split: if_splits)

declare find_page.simps [simp del]

definition new_page :: "u64 \<Rightarrow> nat \<Rightarrow> MemoryPermission \<Rightarrow> PageChunk" where
  "new_page pageAddress pageSize perm =
     \<lparr>page = \<lparr>mr_address = pageAddress, mr_length = of_nat pageSize\<rparr>, page_cursor = pageAddress,
      permission = perm, chunks = arr_initWithCapacity 8\<rparr>"

definition take_chunk :: "nat \<Rightarrow> PageChunk \<Rightarrow> MemoryRange \<times> PageChunk" where
  "take_chunk inSize p =
     (let chunk = \<lparr>mr_address = page_cursor p, mr_length = of_nat inSize\<rparr>
      in (chunk, p\<lparr>chunks := snd (pushObject chunk (chunks p)), page_cursor := page_cursor p + of_nat inSize\<rparr>))"

definition AllocateChunk ::
    "u64 option \<Rightarrow> nat \<Rightarrow> nat \<Rightarrow> MemoryPermission \<Rightarrow> arena \<Rightarrow> MemoryRange option \<times> arena" where
  "AllocateChunk os_alloc pageSize inSize perm arena =
     (let pages = (case arena of None \<Rightarrow> arr_initWithCapacity 1 | Some pages \<Rightarrow> pages);
          found = (case find_page (page_fits inSize perm) 0 pages of
                     Some i \<Rightarrow> Some (i, pages)
                   | None \<Rightarrow> (case os_alloc of
                       None \<Rightarrow> None
                     | Some pageAddress \<Rightarrow>
                         Some (getCount pages, snd (pushObject (new_page pageAddress pageSize perm) pages))))
      in case found of
           None \<Rightarrow> (None, Some pages)
         | Some (i, pages') \<Rightarrow>
             (case array pages' ! i of
                None \<Rightarrow> (None, Some pages')
              | Some p \<Rightarrow> (let (chunk, p') = take_chunk inSize p
                           in (Some chunk, Some (pages'\<lparr>array := (array pages')[i := Some p']\<rparr>)))))"

definition AllocateCodeChunk :: "u64 option \<Rightarrow> nat \<Rightarrow> nat \<Rightarrow> arena \<Rightarrow> MemoryRange option \<times> arena" where
  "AllocateCodeChunk os_alloc pageSize inSize = AllocateChunk os_alloc pageSize inSize kReadExecute"

definition AllocateDataChunk :: "u64 option \<Rightarrow> nat \<Rightarrow> nat \<Rightarrow> arena \<Rightarrow> MemoryRange option \<times> arena" where
  "AllocateDataChunk os_alloc pageSize inSize = AllocateChunk os_alloc pageSize inSize kReadWrite"

section \<open>CodePatch\<close>

record env64 =
  e_mem :: "u64 \<Rightarrow> u8"
  e_writable :: "u64 \<Rightarrow> bool"

definition mprotect_page :: "u64 \<Rightarrow> u64 \<Rightarrow> bool \<Rightarrow> env64 \<Rightarrow> env64" where
  "mprotect_page addr len w e = e\<lparr>e_writable := (\<lambda>a. if a - addr < len then w else e_writable e a)\<rparr>"

definition memcpy64 :: "u64 \<Rightarrow> u8 list \<Rightarrow> env64 \<Rightarrow> env64 res" where
  "memcpy64 dst bs e =
     (if \<forall>i < length bs. e_writable e (dst + of_nat i)
      then Inr (e\<lparr>e_mem := (\<lambda>a. if unat (a - dst) < length bs then bs ! unat (a - dst) else e_mem e a)\<rparr>)
      else Inl AccessFault)"

definition CodePatch :: "u64 \<Rightarrow> u64 \<Rightarrow> u8 list \<Rightarrow> env64 \<Rightarrow> env64 res" where
  "CodePatch page_size address bs e =
     (let page_align_address = ALIGN_FLOOR address page_size;
          offset = address - page_align_address
      in res_bind (memcpy64 (page_align_address + offset) bs (mprotect_page page_align_address page_size True e))
           (\<lambda>e'. Inr (mprotect_page page_align_address page_size False e')))"

section \<open>AssemblyCode\<close>

definition FinalizeFromAddress :: "u64 \<Rightarrow> nat \<Rightarrow> MemoryRange" where
  "FinalizeFromAddress address len = \<lparr>mr_address = address, mr_length = of_nat len\<rparr>"

text \<open>On ARM and ARM64 the chunk is four bytes longer than the code (\<open>extra\<close>), elsewhere it is not.\<close>

definition FinalizeFromTurboAssember ::
    "nat \<Rightarrow> u64 option \<Rightarrow> nat \<Rightarrow> 'a AssemblerBase_scheme \<Rightarrow> arena \<Rightarrow> env64
      \<Rightarrow> (MemoryRange \<times> 'a AssemblerBase_scheme \<times> arena \<times> env64) res" where
  "FinalizeFromTurboAssember extra os_alloc pageSize a arena e =
     (let codeBuffer = code_buffer a;
          finish = (\<lambda>address a arena.
             res_bind (CodePatch (of_nat pageSize) address (contents codeBuffer) e) (\<lambda>e'.
               Inr (FinalizeFromAddress address (getSize codeBuffer), a, arena, e')))
      in if realized_address a = 0 then
           (case AllocateCodeChunk os_alloc pageSize (getSize codeBuffer + extra) arena of
              (None, arena') \<Rightarrow> Inl NullPointer
            | (Some chunk, arena') \<Rightarrow> finish (mr_address chunk) (CommitRealizeAddress (mr_address chunk) a) arena')
         else finish (realized_address a) a arena)"

text \<open>The entry of a closure trampoline (\<^verbatim>\<open>ClosureTrampolineBridge/AssemblyClosureTrampoline.h\<close>).\<close>

record ClosureTrampolineEntry =
  cte_address :: u64
  cte_size :: u64
  carry_handler :: u64
  carry_data :: u64

section \<open>Chunks never overlap\<close>

definition rng_end :: "MemoryRange \<Rightarrow> nat" where
  "rng_end r = unat (mr_address r) + unat (mr_length r)"

definition apart :: "MemoryRange \<Rightarrow> MemoryRange \<Rightarrow> bool" where
  "apart r q \<longleftrightarrow> rng_end r \<le> unat (mr_address q) \<or> rng_end q \<le> unat (mr_address r)"

definition inside :: "MemoryRange \<Rightarrow> MemoryRange \<Rightarrow> bool" where
  "inside r q \<longleftrightarrow> unat (mr_address q) \<le> unat (mr_address r) \<and> rng_end r \<le> rng_end q"

fun consec :: "nat \<Rightarrow> MemoryRange list \<Rightarrow> nat \<Rightarrow> bool" where
  "consec a [] e \<longleftrightarrow> a = e"
| "consec a (c # cs) e \<longleftrightarrow> unat (mr_address c) = a \<and> consec (rng_end c) cs e"

definition page_ok :: "PageChunk \<Rightarrow> bool" where
  "page_ok p \<longleftrightarrow> rng_end (page p) < 2 ^ 63 \<and> arr_ok (chunks p) \<and> unat (page_cursor p) \<le> rng_end (page p)
     \<and> consec (unat (mr_address (page p))) (objects (chunks p)) (unat (page_cursor p))"

definition arena_pages :: "arena \<Rightarrow> PageChunk list" where
  "arena_pages arena = (case arena of None \<Rightarrow> [] | Some pages \<Rightarrow> objects pages)"

definition arena_chunks :: "arena \<Rightarrow> MemoryRange list" where
  "arena_chunks arena = concat (map (objects \<circ> chunks) (arena_pages arena))"

definition arena_ok :: "arena \<Rightarrow> bool" where
  "arena_ok arena \<longleftrightarrow> (\<forall>pages. arena = Some pages \<longrightarrow> arr_ok pages) \<and> (\<forall>p \<in> set (arena_pages arena). page_ok p)
     \<and> pairwise (\<lambda>i j. apart (page (arena_pages arena ! i)) (page (arena_pages arena ! j))) {..<length (arena_pages arena)}"

text \<open>Room for one more entry in each of the arrays.\<close>

definition arena_room :: "arena \<Rightarrow> bool" where
  "arena_room arena \<longleftrightarrow> length (arena_pages arena) < 2 ^ 29 \<and> (\<forall>p \<in> set (arena_pages arena). getCount (chunks p) < 2 ^ 29)"

lemma rng_end_le: "unat (mr_address r) \<le> rng_end r" by (simp add: rng_end_def)

lemma apart_sym: "apart r q \<longleftrightarrow> apart q r" by (auto simp: apart_def)

lemma apart_inside: "apart p q \<Longrightarrow> inside r p \<Longrightarrow> inside t q \<Longrightarrow> apart r t"
  by (auto simp: apart_def inside_def)

lemma consec_le: "consec a cs e \<Longrightarrow> a \<le> e"
  by (induction a cs e rule: consec.induct) (use rng_end_le in \<open>auto intro: order_trans\<close>)

lemma consec_snoc: "consec a (cs @ [c]) e \<longleftrightarrow> (\<exists>m. consec a cs m \<and> unat (mr_address c) = m \<and> rng_end c = e)"
  by (induction a cs e rule: consec.induct) auto

lemma consec_bounds: "consec a cs e \<Longrightarrow> c \<in> set cs \<Longrightarrow> a \<le> unat (mr_address c) \<and> rng_end c \<le> e"
proof (induction a cs e rule: consec.induct)
  case (2 a d cs e)
  then have IH: "c \<in> set cs \<Longrightarrow> rng_end d \<le> unat (mr_address c) \<and> rng_end c \<le> e" by auto
  have "consec (rng_end d) cs e" "unat (mr_address d) = a" using 2 by simp_all
  from this(1) have "rng_end d \<le> e" by (rule consec_le)
  with IH 2 rng_end_le [of d] show ?case by auto
qed simp

lemma page_chunk_inside: "page_ok p \<Longrightarrow> c \<in> set (objects (chunks p)) \<Longrightarrow> inside c (page p)"
  using consec_bounds [of _ _ _ c] by (fastforce simp: page_ok_def inside_def)

lemma unat_add_small: "unat a + n < 2 ^ 64 \<Longrightarrow> unat (a + of_nat n :: u64) = unat a + n"
  by (simp add: unat_add_lem [symmetric] unsigned_of_nat take_bit_nat_eq_self unat_word_ariths)

lemma take_chunk_ok:
  assumes "page_ok p" "getCount (chunks p) < 2 ^ 29" "unat (page_cursor p) + n \<le> rng_end (page p)" "take_chunk n p = (c, p')"
  shows "page_ok p'" "page p' = page p" "objects (chunks p') = objects (chunks p) @ [c]" "mr_address c = page_cursor p"
    "unat (mr_length c) = n" "\<forall>d \<in> set (objects (chunks p)). apart c d"
proof -
  have lim: "unat (page_cursor p) + n < 2 ^ 64" "n < 2 ^ 64" using assms(1,3) by (simp_all add: page_ok_def)
  have cur: "unat (page_cursor p + of_nat n) = unat (page_cursor p) + n" using lim(1) by (rule unat_add_small)
  obtain ar where ar: "pushObject c (chunks p) = (True, ar)" "arr_ok ar" "objects ar = objects (chunks p) @ [c]"
    using pushObject_props [of "chunks p" c] assms(1,2) by (auto simp: page_ok_def)
  have c: "c = \<lparr>mr_address = page_cursor p, mr_length = of_nat n\<rparr>" and p': "p' = p\<lparr>chunks := ar, page_cursor := page_cursor p + of_nat n\<rparr>"
    using assms(4) ar(1) by (auto simp: take_chunk_def Let_def)
  show len: "unat (mr_length c) = n" using lim(2) by (simp add: c unsigned_of_nat take_bit_nat_eq_self)
  then have e: "rng_end c = unat (page_cursor p) + n" "unat (mr_address c) = unat (page_cursor p)" by (simp_all add: rng_end_def c)
  show "page p' = page p" "objects (chunks p') = objects (chunks p) @ [c]" "mr_address c = page_cursor p" using p' ar c by simp_all
  show "page_ok p'" using assms(1,3) ar p' cur e by (auto simp: page_ok_def consec_snoc)
  show "\<forall>d \<in> set (objects (chunks p)). apart c d"
    using consec_bounds assms(1) e(2) by (fastforce simp: page_ok_def apart_def)
qed

lemma find_page_Some: "arr_ok pages \<Longrightarrow> find_page P i pages = Some k \<Longrightarrow> k < getCount pages \<and> P (objects pages ! k)"
proof (induction P i pages rule: find_page.induct)
  case (1 P i pages)
  show ?case
  proof (cases "i < getCount pages")
    case True
    then have it: "getNextObjectForIterator i pages = (i + 1, Some (objects pages ! i))" using 1(2) by (simp add: iterator_yields)
    show ?thesis using 1(1) [OF it [symmetric] refl] 1(2,3) True it
      by (cases "P (objects pages ! i)") (simp_all add: find_page.simps [of P i pages])
  next
    case False
    then show ?thesis using 1(2,3) by (simp add: find_page.simps [of P i pages] iterator_yields)
  qed
qed

lemma objects_update:
  assumes "arr_ok pages" "i < getCount pages"
  shows "arr_ok (pages\<lparr>array := (array pages)[i := Some p]\<rparr>)"
    "objects (pages\<lparr>array := (array pages)[i := Some p]\<rparr>) = (objects pages)[i := p]"
    "array pages ! i = Some (objects pages ! i)"
proof -
  have i: "i < arr_count pages" "i < length (array pages)" using assms by (auto simp: getCount_def arr_ok_def)
  have "set ((take (arr_count pages) (array pages))[i := Some p]) \<subseteq> insert (Some p) (set (take (arr_count pages) (array pages)))"
    by (rule set_update_subset_insert)
  then show "arr_ok (pages\<lparr>array := (array pages)[i := Some p]\<rparr>)"
    using assms i by (auto simp: arr_ok_def take_update_swap)
  show "objects (pages\<lparr>array := (array pages)[i := Some p]\<rparr>) = (objects pages)[i := p]"
    by (simp add: objects_def take_update_swap map_update)
  show "array pages ! i = Some (objects pages ! i)"
    using getObject_inside [OF assms] assms i by (auto simp: getObject_def arr_ok_def split: if_splits option.splits)
qed

text \<open>The pages after the search: those from before, or one fresh page more.\<close>

lemma pages_after_search:
  assumes "arena_ok arena" "arena_room arena"
    and os: "\<And>a. os_alloc = Some a \<Longrightarrow> unat a + pageSize < 2 ^ 63 \<and> (\<forall>p \<in> set (arena_pages arena). apart \<lparr>mr_address = a, mr_length = of_nat pageSize\<rparr> (page p))"
    and n: "n \<le> pageSize" and small: "n < 2 ^ 63"
    and res: "AllocateChunk os_alloc pageSize n perm arena = (Some c, arena')"
  shows "\<exists>pages i p'. arena_ok (Some pages) \<and> arena_chunks (Some pages) = arena_chunks arena \<and> i < getCount pages
    \<and> getCount (chunks (objects pages ! i)) < 2 ^ 29
    \<and> unat (page_cursor (objects pages ! i)) + n \<le> rng_end (page (objects pages ! i))
    \<and> take_chunk n (objects pages ! i) = (c, p') \<and> arena' = Some (pages\<lparr>array := (array pages)[i := Some p']\<rparr>)"
proof -
  define pages where "pages = (case arena of None \<Rightarrow> arr_initWithCapacity 1 | Some pages \<Rightarrow> pages)"
  have pg: "arr_ok pages" "objects pages = arena_pages arena" "arena_ok (Some pages)" "arena_chunks (Some pages) = arena_chunks arena"
    using assms(1)
    by (auto simp: pages_def arena_ok_def arena_pages_def arena_chunks_def split: option.splits)
  show ?thesis
  proof (cases "find_page (page_fits n perm) 0 pages")
    case (Some i)
    let ?p = "objects pages ! i"
    have i: "i < getCount pages" "page_fits n perm ?p" using find_page_Some [OF pg(1) Some] by simp_all
    have ok: "page_ok ?p" "getCount (chunks ?p) < 2 ^ 29"
      using assms(1,2) nth_mem [of i "objects pages"] length_objects [OF pg(1)] pg(2) i(1)
      by (simp_all add: arena_ok_def arena_room_def)
    obtain p' where p': "take_chunk n ?p = (c, p')" "arena' = Some (pages\<lparr>array := (array pages)[i := Some p']\<rparr>)"
      using res Some objects_update(3) [OF pg(1) i(1)] by (auto simp: AllocateChunk_def pages_def [symmetric] split: prod.splits)
    have "unat (page_cursor ?p) + n \<le> rng_end (page ?p)"
    proof -
      have e: "unat (mr_address (page ?p) + mr_length (page ?p)) = rng_end (page ?p)"
        using ok(1) unat_add_small [of "mr_address (page ?p)" "unat (mr_length (page ?p))"] by (simp add: page_ok_def rng_end_def)
      have "unat (page_cursor ?p) + n < 2 ^ 64" using ok(1) small by (simp add: page_ok_def)
      from unat_add_small [OF this] i(2) e show ?thesis by (simp add: page_fits_def word_less_nat_alt)
    qed
    then show ?thesis using pg i ok p' by blast
  next
    case None
    then obtain a where a: "os_alloc = Some a" using res by (auto simp: AllocateChunk_def pages_def [symmetric] split: option.splits)
    let ?q = "new_page a pageSize perm"
    have q: "page_ok ?q" "objects (chunks ?q) = []" "unat (page_cursor ?q) + n \<le> rng_end (page ?q)" "getCount (chunks ?q) < 2 ^ 29"
      using os [OF a] n 
      by (simp_all add: page_ok_def new_page_def rng_end_def unsigned_of_nat take_bit_nat_eq_self)
    have "getCount pages < 2 ^ 29" using assms(2) pg(1,2) length_objects [OF pg(1)] by (simp add: arena_room_def)
    then obtain pages' where pages': "pushObject ?q pages = (True, pages')" "arr_ok pages'" "objects pages' = objects pages @ [?q]"
      using pushObject_props [OF pg(1)] by blast
    have cnt: "getCount pages' = getCount pages + 1"
      using length_objects [OF pages'(2)] length_objects [OF pg(1)] pages'(3) by simp
    have last: "objects pages' ! getCount pages = ?q" using pages'(3) length_objects [OF pg(1)] by (simp add: nth_append)
    obtain p' where p': "take_chunk n ?q = (c, p')" "arena' = Some (pages'\<lparr>array := (array pages')[getCount pages := Some p']\<rparr>)"
      using res None a pages'(1) objects_update(3) [OF pages'(2), of "getCount pages"] cnt last
      by (auto simp: AllocateChunk_def pages_def [symmetric] split: prod.splits)
    have "arena_ok (Some pages')"
    proof -
      have ap: "apart (page ?q) (page p)" if "p \<in> set (objects pages)" for p
        using os [OF a] that pg(2) by (simp add: new_page_def)
      have "pairwise (\<lambda>i j. apart (page (objects pages' ! i)) (page (objects pages' ! j))) {..<length (objects pages')}"
        using pg(1,3) ap by (auto simp: pages'(3) pairwise_def nth_append arena_ok_def arena_pages_def less_Suc_eq apart_sym)
      then show ?thesis using pages'(2,3) q(1) pg(3) by (auto simp: arena_ok_def arena_pages_def)
    qed
    moreover have "arena_chunks (Some pages') = arena_chunks arena"
      using pages'(3) q(2) pg(4) by (simp add: arena_chunks_def arena_pages_def)
    ultimately show ?thesis using p' last cnt q by (intro exI [of _ pages'] exI [of _ "getCount pages"] exI [of _ p']) simp
  qed
qed

lemma UN_set_nth: "(\<Union>x \<in> set xs. g x) = (\<Union>j \<in> {..<length xs}. g (xs ! j))"
  by (auto simp: in_set_conv_nth dest: nth_mem)

text \<open>
  (C29) When \<^verbatim>\<open>MemoryArena::AllocateChunk\<close> hands out a chunk for a request no larger than a page, and a page it had to get from the operating
  system is apart from the pages the arena holds, the chunk has the requested size, lies inside a page of the
  arena and apart from every chunk handed out before, and the arena keeps its invariant.  (A larger request
  is not refused and does not fit its page; the arrays of the arena have fewer than \<^verbatim>\<open>2^29\<close> entries.)
\<close>

theorem AllocateChunk_fresh:
  assumes "arena_ok arena" "arena_room arena"
    and "\<And>a. os_alloc = Some a \<Longrightarrow> unat a + pageSize < 2 ^ 63 \<and>
       (\<forall>p \<in> set (arena_pages arena). apart \<lparr>mr_address = a, mr_length = of_nat pageSize\<rparr> (page p))"
    and "n \<le> pageSize" "n < 2 ^ 63" "AllocateChunk os_alloc pageSize n perm arena = (Some c, arena')"
  shows "arena_ok arena' \<and> unat (mr_length c) = n \<and> (\<exists>p \<in> set (arena_pages arena'). inside c (page p))
    \<and> (\<forall>d \<in> set (arena_chunks arena). apart c d) \<and> set (arena_chunks arena') = insert c (set (arena_chunks arena))"
proof -
  obtain pages i p' where pg: "arena_ok (Some pages)" "arena_chunks (Some pages) = arena_chunks arena" "i < getCount pages"
      "getCount (chunks (objects pages ! i)) < 2 ^ 29"
      "unat (page_cursor (objects pages ! i)) + n \<le> rng_end (page (objects pages ! i))"
      "take_chunk n (objects pages ! i) = (c, p')" "arena' = Some (pages\<lparr>array := (array pages)[i := Some p']\<rparr>)"
    using pages_after_search [OF assms] by blast
  let ?ps = "objects pages" and ?p = "objects pages ! i"
  have ps: "arr_ok pages" "\<forall>p \<in> set ?ps. page_ok p" "i < length ?ps"
      "pairwise (\<lambda>i j. apart (page (?ps ! i)) (page (?ps ! j))) {..<length ?ps}"
    using pg(1,3) by (auto simp: arena_ok_def arena_pages_def)
  have ok: "page_ok ?p" using ps(2,3) by simp
  note t = take_chunk_ok [OF ok pg(4,5,6)]
  have ps': "arena_pages arena' = ?ps[i := p']" "arr_ok (pages\<lparr>array := (array pages)[i := Some p']\<rparr>)"
    using objects_update(1,2) [OF ps(1) pg(3)] pg(7) by (simp_all add: arena_pages_def)
  have same: "page (?ps[i := p'] ! j) = page (?ps ! j)" if "j < length ?ps" for j
    using that t(2) by (cases "j = i") simp_all
  have c: "inside c (page ?p)" using page_chunk_inside [OF t(1), of c] t(2,3) by simp
  have "arena_ok arena'"
    using ps' pg(7) ps(2,4) t(1) same set_update_subset_insert [of ?ps i p']
    by (auto simp: arena_ok_def pairwise_def)
  moreover have "\<exists>p \<in> set (arena_pages arena'). inside c (page p)"
    using c t(2) ps(3) by (intro bexI [of _ p']) (simp_all add: ps'(1) set_update_memI)
  moreover have "apart c d" if d: "d \<in> set (arena_chunks arena)" for d
  proof -
    obtain j where j: "j < length ?ps" "d \<in> set (objects (chunks (?ps ! j)))"
      using d unfolding pg(2) [symmetric] by (auto simp: arena_chunks_def arena_pages_def) (metis in_set_conv_nth)
    show ?thesis
    proof (cases "j = i")
      case True
      then show ?thesis using t(6) j(2) by simp
    next
      case False
      then have "apart (page ?p) (page (?ps ! j))" using ps(3,4) j(1) by (auto simp: pairwise_def)
      from apart_inside [OF this c page_chunk_inside [OF _ j(2)]] show ?thesis using ps(2) j(1) by simp
    qed
  qed
  moreover have "set (arena_chunks arena') = insert c (set (arena_chunks arena))"
  proof -
    have "set (arena_chunks (Some pages)) = (\<Union>j \<in> {..<length ?ps}. set (objects (chunks (?ps ! j))))"
      by (simp add: arena_chunks_def arena_pages_def UN_set_nth)
    moreover have "set (arena_chunks arena') = (\<Union>j \<in> {..<length ?ps}. set (objects (chunks (?ps[i := p'] ! j))))"
      unfolding arena_chunks_def ps'(1) by (simp add: UN_set_nth)
    moreover have "set (objects (chunks (?ps[i := p'] ! j))) = (if j = i then insert c else id) (set (objects (chunks (?ps ! j))))"
      if "j < length ?ps" for j using that t(3) by simp
    ultimately show ?thesis using ps(3) pg(2) by (auto split: if_splits)
  qed
  ultimately show ?thesis using t(5) by blast
qed

theorem AllocateChunk_fresh_witness:
  "\<exists>c arena'. AllocateChunk (Some 0x10000) 4096 16 kReadExecute None = (Some c, arena')
     \<and> arena_ok arena' \<and> unat (mr_length c) = 16"
proof -
  obtain c arena' where r: "AllocateChunk (Some 0x10000) 4096 16 kReadExecute None = (Some c, arena')"
    by (simp add: AllocateChunk_def Let_def find_page.simps getNextObjectForIterator_def arr_initWithCapacity_def
        pushObject_def getCount_def take_chunk_def)
  have "arena_ok None" "arena_room None" by (simp_all add: arena_ok_def arena_room_def arena_pages_def)
  from AllocateChunk_fresh [OF this _ _ _ r] show ?thesis using r by (simp add: arena_pages_def)
qed

text \<open>
  Nothing compares a request with the size of a fresh page: a first request larger than a page gets a chunk that
  begins at the page and goes on behind it.
\<close>

theorem AllocateChunk_too_large:
  assumes "pageSize < n" "unat a + n < 2 ^ 64"
  defines "c \<equiv> \<lparr>mr_address = a, mr_length = of_nat n\<rparr>" and "pg \<equiv> \<lparr>mr_address = a, mr_length = of_nat pageSize\<rparr>"
  shows "\<exists>arena'. AllocateChunk (Some a) pageSize n perm None = (Some c, arena') \<and> map page (arena_pages arena') = [pg] \<and> \<not> inside c pg"
proof -
  have "unat (of_nat n :: u64) = n" "unat (of_nat pageSize :: u64) = pageSize" using assms(1,2) by (simp_all add: unsigned_of_nat take_bit_nat_eq_self)
  then have "\<not> inside c pg" using assms(1) by (simp add: c_def pg_def inside_def rng_end_def)
  then show ?thesis
    by (simp add: AllocateChunk_def Let_def find_page.simps getNextObjectForIterator_def arr_initWithCapacity_def
        pushObject_def getCount_def take_chunk_def new_page_def c_def pg_def arena_pages_def objects_def)
qed

section \<open>Patching code\<close>

lemma e_mem_mprotect [simp]: "e_mem (mprotect_page addr len w e) = e_mem e"
  by (simp add: mprotect_page_def)

lemma unat_two_power: "k < 64 \<Longrightarrow> unat (2 ^ k :: u64) = 2 ^ k"
proof -
  assume k: "k < 64"
  then have "2 ^ k < (2 ^ 64 :: nat)" by (rule power_strict_increasing) simp
  then have "unat (of_nat (2 ^ k) :: u64) = 2 ^ k" using k unfolding unsigned_of_nat by (simp add: take_bit_nat_eq_self)
  then show ?thesis by simp
qed

lemma same_page:
  assumes "unat (address - ALIGN_FLOOR address (2 ^ k)) + n \<le> 2 ^ k" "i < n" "k < 63"
  shows "address - ALIGN_FLOOR address (2 ^ k) + of_nat i < (2 ^ k :: u64)"
proof -
  let ?o = "address - ALIGN_FLOOR address (2 ^ k)"
  have "2 ^ k < (2 ^ 63 :: nat)" using assms(3) by (rule power_strict_increasing) simp
  have k: "unat (2 ^ k :: u64) = 2 ^ k" using assms(3) by (intro unat_two_power) simp
  have "unat ?o + i < 2 ^ 64" using assms(1,2) \<open>2 ^ k < (2 ^ 63 :: nat)\<close> by simp
  from unat_add_small [OF this] have "unat (?o + of_nat i) < 2 ^ k" using assms(1,2) by simp
  then show ?thesis unfolding word_less_nat_alt k .
qed

text \<open>A patch inside one page writes its bytes and nothing else.\<close>

lemma CodePatch_in_page:
  assumes "unat (address - ALIGN_FLOOR address (2 ^ k)) + length bs \<le> 2 ^ k" "k < 63"
  shows "\<exists>e'. CodePatch (2 ^ k) address bs e = Inr e'
    \<and> e_mem e' = (\<lambda>a. if unat (a - address) < length bs then bs ! unat (a - address) else e_mem e a)"
proof -
  let ?e = "mprotect_page (ALIGN_FLOOR address (2 ^ k)) (2 ^ k) True e"
  have "e_writable ?e (address + of_nat i)" if "i < length bs" for i
    using same_page [OF assms(1) that assms(2)] by (simp add: mprotect_page_def algebra_simps)
  then have m: "memcpy64 address bs ?e =
      Inr (?e\<lparr>e_mem := (\<lambda>a. if unat (a - address) < length bs then bs ! unat (a - address) else e_mem ?e a)\<rparr>)"
    by (simp add: memcpy64_def)
  have p: "ALIGN_FLOOR address (2 ^ k) + (address - ALIGN_FLOOR address (2 ^ k)) = address" by simp
  show ?thesis unfolding CodePatch_def Let_def p m by (auto simp: fun_eq_iff)
qed

text \<open>
  (C30) \<^verbatim>\<open>CodePatch\<close> makes a single page writable: a patch that runs into the following page, whose
  code is not writable, faults.
\<close>

theorem CodePatch_page_crossing_faults:
  assumes "unat (address - ALIGN_FLOOR address (2 ^ k)) + i = 2 ^ k" "i < length bs" "k < 63"
    "\<not> e_writable e (address + of_nat i)"
  shows "CodePatch (2 ^ k) address bs e = Inl AccessFault"
proof -
  let ?o = "address - ALIGN_FLOOR address (2 ^ k)"
  have k': "2 ^ k < (2 ^ 63 :: nat)" using assms(3) by (rule power_strict_increasing) simp
  have k: "unat (2 ^ k :: u64) = 2 ^ k" using assms(3) by (intro unat_two_power) simp
  have "unat ?o + i < 2 ^ 64" using assms(1) k' by simp
  from unat_add_small [OF this] have "\<not> ?o + of_nat i < 2 ^ k" unfolding word_less_nat_alt k using assms(1) by simp
  then have w: "\<not> e_writable (mprotect_page (ALIGN_FLOOR address (2 ^ k)) (2 ^ k) True e) (address + of_nat i)"
    using assms(4) by (simp add: mprotect_page_def algebra_simps)
  have p: "ALIGN_FLOOR address (2 ^ k) + (address - ALIGN_FLOOR address (2 ^ k)) = address" by simp
  show ?thesis unfolding CodePatch_def Let_def p using w assms(2) by (auto simp: memcpy64_def)
qed

theorem CodePatch_page_crossing_faults_witness:
  "CodePatch (2 ^ 12) 0x10FFE [1, 2, 3, 4] \<lparr>e_mem = (\<lambda>_. 0), e_writable = (\<lambda>_. False)\<rparr> = Inl AccessFault"
  by (rule CodePatch_page_crossing_faults [where i = 2]) (simp_all add: ALIGN_FLOOR_def)

end
