(* ===== verification/Relocate_Arm64.thy ===== *)
theory Relocate_Arm64
  imports Asm_Arm64_Correct Memory_Arena
begin

text \<open>
  Dobby's ARM64 back end: the relocation of a prologue
  (\<^verbatim>\<open>InstructionRelocation/arm64/ARM64InstructionRelocation.cc\<close>) and the trampolines written over a
  hooked function (\<^verbatim>\<open>InterceptRouting/InterceptRoutingTrampoline/arm64/trampoline-arm64.cc\<close>,
  \<^verbatim>\<open>ClosureTrampolineBridge/arm64/ARM64AssemblyClosureTrampoline.cc\<close>).  The instructions of the prologue
  are given as the list of words the loop reads; the addresses of \<^verbatim>\<open>new\<close> objects are the indices
  0, 1, \<dots> of the label heap.
\<close>

section \<open>Field decoders\<close>

datatype CompareBranchOp = CompareBranchFixed | CompareBranchFixedMask | CompareBranchMask

primrec CompareBranchOp_code :: "CompareBranchOp \<Rightarrow> u32" where
  "CompareBranchOp_code CompareBranchFixed = 0x34000000"
| "CompareBranchOp_code CompareBranchFixedMask = 0x7E000000"
| "CompareBranchOp_code CompareBranchMask = 0xFF000000"

datatype ConditionalBranchOp = ConditionalBranchFixed | ConditionalBranchFixedMask | ConditionalBranchMask

primrec ConditionalBranchOp_code :: "ConditionalBranchOp \<Rightarrow> u32" where
  "ConditionalBranchOp_code ConditionalBranchFixed = 0x54000000"
| "ConditionalBranchOp_code ConditionalBranchFixedMask = 0xFE000000"
| "ConditionalBranchOp_code ConditionalBranchMask = 0xFF000010"

datatype TestBranchOp = TestBranchFixed | TestBranchFixedMask | TestBranchMask | TBZ | TBNZ

primrec TestBranchOp_code :: "TestBranchOp \<Rightarrow> u32" where
  "TestBranchOp_code TestBranchFixed = 0x36000000"
| "TestBranchOp_code TestBranchFixedMask = 0x7E000000"
| "TestBranchOp_code TestBranchMask = 0x7F000000"
| "TestBranchOp_code TBZ = 0x36000000 OR 0"
| "TestBranchOp_code TBNZ = 0x36000000 OR 0x01000000"

definition SignExtend :: "u64 \<Rightarrow> nat \<Rightarrow> nat \<Rightarrow> u64" where
  "SignExtend x M N = signed_drop_bit (N - M) (push_bit (N - M) x)"

definition decode_imm14_offset :: "u32 \<Rightarrow> u64" where
  "decode_imm14_offset instr = SignExtend (push_bit 2 (ucast (bits instr 5 18))) (2 + 14) 64"

definition decode_imm19_offset :: "u32 \<Rightarrow> u64" where
  "decode_imm19_offset instr = SignExtend (push_bit 2 (ucast (bits instr 5 23))) (2 + 19) 64"

definition decode_imm26_offset :: "u32 \<Rightarrow> u64" where
  "decode_imm26_offset instr = SignExtend (push_bit 2 (ucast (bits instr 0 25))) (2 + 26) 64"

definition decode_immhi_immlo_offset :: "u32 \<Rightarrow> u64" where
  "decode_immhi_immlo_offset instr =
     (let immhi = fw 5 19 instr;
          immlo = fw 29 2 instr
      in SignExtend (ucast (immlo + push_bit 2 immhi)) (2 + 19) 64)"

definition decode_immhi_immlo_zero12_offset :: "u32 \<Rightarrow> u64" where
  "decode_immhi_immlo_zero12_offset instr = push_bit 12 (decode_immhi_immlo_offset instr)"

definition decode_rt :: "u32 \<Rightarrow> nat" where
  "decode_rt instr = unat (bits instr 0 4)"

definition decode_rd :: "u32 \<Rightarrow> nat" where
  "decode_rd instr = unat (bits instr 0 4)"

section \<open>Relocating one instruction\<close>

text \<open>The branch to \<^verbatim>\<open>branch_address\<close> through a fresh entry of \<^verbatim>\<open>data_labels_\<close> at heap address \<open>l\<close>.\<close>

definition new_label_entry :: "nat \<Rightarrow> u64 \<Rightarrow> TurboAssembler \<Rightarrow> TurboAssembler" where
  "new_label_entry l d a = AppendRelocLabelEntry_a64 l (a\<lparr>label_heap := (label_heap a)(l := new_RelocLabelEntry d)\<rparr>)"

definition Ldr_entry :: "CPURegister \<Rightarrow> nat \<Rightarrow> TurboAssembler \<Rightarrow> TurboAssembler res" where
  "Ldr_entry rt l a =
     res_bind (Ldr_a64 rt (label_heap a l) a) (\<lambda>(label, a'). Inr (a'\<lparr>label_heap := (label_heap a')(l := label)\<rparr>))"

definition relo_load_literal :: "u64 \<Rightarrow> u32 \<Rightarrow> TurboAssembler \<Rightarrow> TurboAssembler res" where
  "relo_load_literal curr_orig_pc instr a =
     (let rt = decode_rt instr;
          opc = bits instr 30 31;
          memory_address = decode_imm19_offset instr + curr_orig_pc;
          a1 = Mov_a64 (Reg_X 17) memory_address (nop_a64 a)
      in if opc = 0 then res_bind (ldr_a64 (Reg_W rt) (MemOperand_offset (Reg_X 17) 0 Offset) a1) (\<lambda>a2. Inr (nop_a64 a2))
         else if opc = 1 then res_bind (ldr_a64 (Reg_X rt) (MemOperand_offset (Reg_X 17) 0 Offset) a1) (\<lambda>a2. Inr (nop_a64 a2))
         else Inl Unimplemented)"

definition relo_pc_relative :: "u64 \<Rightarrow> u32 \<Rightarrow> TurboAssembler \<Rightarrow> TurboAssembler" where
  "relo_pc_relative curr_orig_pc instr a =
     (let rd = decode_rd instr;
          runtime_address =
            (if instr AND PCRelAddressingOp_code PCRelAddressingMask = PCRelAddressingOp_code ADR_op
             then curr_orig_pc + decode_immhi_immlo_offset instr
             else ALIGN_FLOOR curr_orig_pc 0x1000 + decode_immhi_immlo_zero12_offset instr)
      in nop_a64 (Mov_a64 (Reg_X rd) runtime_address (nop_a64 a)))"

definition relo_branch :: "nat \<Rightarrow> u64 \<Rightarrow> u32 \<Rightarrow> TurboAssembler \<Rightarrow> TurboAssembler res" where
  "relo_branch l curr_orig_pc instr a =
     (let branch_address = decode_imm26_offset instr + curr_orig_pc
      in res_bind (Ldr_entry (Reg_X 17) l (nop_a64 (new_label_entry l branch_address a))) (\<lambda>a1.
           Inr (nop_a64 (if instr AND UnconditionalBranchOp_code UnconditionalBranchMask = UnconditionalBranchOp_code BL_op
                         then blr_a64 (Reg_X 17) a1 else br_a64 (Reg_X 17) a1))))"

text \<open>The three conditional branches emit the inverted branch over a branch through the label.\<close>

definition relo_inverted :: "nat \<Rightarrow> u64 \<Rightarrow> u32 \<Rightarrow> TurboAssembler \<Rightarrow> TurboAssembler res" where
  "relo_inverted l branch_address branch_instr a =
     res_bind (Ldr_entry (Reg_X 17) l (Emit_a64 branch_instr (nop_a64 (new_label_entry l branch_address a))))
       (\<lambda>a1. Inr (nop_a64 (br_a64 (Reg_X 17) a1)))"

definition relo_test_branch :: "nat \<Rightarrow> u64 \<Rightarrow> u32 \<Rightarrow> TurboAssembler \<Rightarrow> TurboAssembler res" where
  "relo_test_branch l curr_orig_pc instr a =
     (let op = bit_of instr 24 XOR 1;
          branch_instr = set_bits_c (set_bit_c instr 24 op) 5 18 3
      in relo_inverted l (decode_imm14_offset instr + curr_orig_pc) branch_instr a)"

definition relo_compare_branch :: "nat \<Rightarrow> u64 \<Rightarrow> u32 \<Rightarrow> TurboAssembler \<Rightarrow> TurboAssembler res" where
  "relo_compare_branch l curr_orig_pc instr a =
     (let op = bit_of instr 24 XOR 1;
          branch_instr = set_bits_c (set_bit_c instr 24 op) 5 23 3
      in relo_inverted l (decode_imm19_offset instr + curr_orig_pc) branch_instr a)"

definition relo_conditional_branch :: "nat \<Rightarrow> u64 \<Rightarrow> u32 \<Rightarrow> TurboAssembler \<Rightarrow> TurboAssembler res" where
  "relo_conditional_branch l curr_orig_pc instr a =
     (let cond = bits instr 0 3 XOR 1;
          branch_instr = set_bits_c (set_bits_c instr 0 3 cond) 5 23 3
      in relo_inverted l (decode_imm19_offset instr + curr_orig_pc) branch_instr a)"

definition relo_one :: "nat \<Rightarrow> u64 \<Rightarrow> u32 \<Rightarrow> TurboAssembler \<Rightarrow> TurboAssembler res" where
  "relo_one l curr_orig_pc instr a =
     (if instr AND LoadRegLiteralOp_code LoadRegLiteralFixedMask = LoadRegLiteralOp_code LoadRegLiteralFixed
      then relo_load_literal curr_orig_pc instr a
      else if instr AND PCRelAddressingOp_code PCRelAddressingFixedMask = PCRelAddressingOp_code PCRelAddressingFixed
      then Inr (relo_pc_relative curr_orig_pc instr a)
      else if instr AND UnconditionalBranchOp_code UnconditionalBranchFixedMask
          = UnconditionalBranchOp_code UnconditionalBranchFixed
      then relo_branch l curr_orig_pc instr a
      else if instr AND TestBranchOp_code TestBranchFixedMask = TestBranchOp_code TestBranchFixed
      then relo_test_branch l curr_orig_pc instr a
      else if instr AND CompareBranchOp_code CompareBranchFixedMask = CompareBranchOp_code CompareBranchFixed
      then relo_compare_branch l curr_orig_pc instr a
      else if instr AND ConditionalBranchOp_code ConditionalBranchFixedMask = ConditionalBranchOp_code ConditionalBranchFixed
      then relo_conditional_branch l curr_orig_pc instr a
      else Inr (Emit_a64 instr a))"

section \<open>GenRelocateCode\<close>

fun relo_loop :: "nat \<Rightarrow> u64 \<Rightarrow> u32 list \<Rightarrow> TurboAssembler \<Rightarrow> (u64 \<times> TurboAssembler) res" where
  "relo_loop l curr_orig_pc [] a = Inr (curr_orig_pc, a)"
| "relo_loop l curr_orig_pc (instr # instrs) a =
     res_bind (relo_one l curr_orig_pc instr a) (relo_loop (l + 1) (curr_orig_pc + 4) instrs)"

definition GenRelocateCode_a64 ::
    "(nat \<Rightarrow> u8) \<Rightarrow> u64 option \<Rightarrow> nat \<Rightarrow> u64 \<Rightarrow> u32 list \<Rightarrow> arena \<Rightarrow> env64 \<Rightarrow> (MemoryRange \<times> arena \<times> env64) res" where
  "GenRelocateCode_a64 junk os_alloc pageSize orig_start instrs arena e =
     res_bind (relo_loop 0 orig_start instrs (new_TurboAssembler junk 0)) (\<lambda>(curr_orig_pc, a).
     res_bind (LiteralLdrBranch_a64 curr_orig_pc a) (\<lambda>a1.
     res_bind (RelocBind_a64 a1) (\<lambda>a2.
     res_bind (FinalizeFromTurboAssember 4 os_alloc pageSize a2 arena e) (\<lambda>(code, _, arena', e').
       Inr (code, arena', e')))))"

section \<open>Trampolines\<close>

definition llabs :: "u64 \<Rightarrow> u64" where
  "llabs x = (if sint x < 0 then - x else x)"

definition GenerateNormalTrampolineBuffer_a64 :: "(nat \<Rightarrow> u8) \<Rightarrow> u64 \<Rightarrow> u64 \<Rightarrow> LiteMutableBuffer option res" where
  "GenerateNormalTrampolineBuffer_a64 junk from to =
     (let a = new_TurboAssembler junk from;
          distance = llabs (from - to);
          adrp_range = push_bit (2 + 19 + 12 - 1) 1
      in res_bind (if distance < adrp_range
                   then res_bind (AdrpAdd (Reg_X 17) from to a) (\<lambda>a'. Inr (br_a64 (Reg_X 17) a'))
                   else LiteralLdrBranch_a64 to a)
           (\<lambda>a'. Inr (copy junk (code_buffer a'))))"

definition ARM64_TINY_REDIRECT_SIZE :: nat where "ARM64_TINY_REDIRECT_SIZE = 4 * 4"
definition ARM64_B_XXX_RANGE :: u64 where "ARM64_B_XXX_RANGE = push_bit 2 (push_bit 25 1)"

text \<open>
  \<open>near_chunk\<close> is the answer of \<^verbatim>\<open>NearMemoryArena::AllocateCodeChunk\<close>.
\<close>

definition GenerateFastForwardTrampoline ::
    "(nat \<Rightarrow> u8) \<Rightarrow> nat \<Rightarrow> MemoryRange option \<Rightarrow> u64 \<Rightarrow> arena \<Rightarrow> env64 \<Rightarrow> (MemoryRange option \<times> arena \<times> env64) res" where
  "GenerateFastForwardTrampoline junk pageSize near_chunk target_address arena e =
     (case near_chunk of
        None \<Rightarrow> Inr (None, arena, e)
      | Some codeChunk \<Rightarrow>
          res_bind (LiteralLdrBranch_a64 target_address
              (CommitRealizeAddress (mr_address codeChunk) (new_TurboAssembler junk 0))) (\<lambda>a.
          res_bind (FinalizeFromTurboAssember 4 None pageSize a arena e) (\<lambda>(code, _, arena', e').
            Inr (Some code, arena', e'))))"

definition GenerateNearTrampolineBuffer_a64 ::
    "(nat \<Rightarrow> u8) \<Rightarrow> nat \<Rightarrow> MemoryRange option \<Rightarrow> u64 \<Rightarrow> u64 \<Rightarrow> arena \<Rightarrow> env64
      \<Rightarrow> (LiteMutableBuffer option \<times> arena \<times> env64) res" where
  "GenerateNearTrampolineBuffer_a64 junk pageSize near_chunk src dst arena e =
     (let a = new_TurboAssembler junk src
      in if llabs (dst - src) < ARM64_B_XXX_RANGE
         then Inr (copy junk (code_buffer (b_a64 (dst - src) a)), arena, e)
         else res_bind (GenerateFastForwardTrampoline junk pageSize near_chunk dst arena e) (\<lambda>(code, arena', e').
           case code of
             None \<Rightarrow> Inr (None, arena', e')
           | Some fast \<Rightarrow> Inr (copy junk (code_buffer (b_a64 (mr_address fast - src) a)), arena', e')))"

text \<open>The closure trampoline: \<open>x16\<close> gets the entry, \<open>x17\<close> the bridge, which it branches to.\<close>

definition closure_trampoline_code :: "(nat \<Rightarrow> u8) \<Rightarrow> u64 \<Rightarrow> u64 \<Rightarrow> TurboAssembler res" where
  "closure_trampoline_code junk entry bridge =
     res_bind (Ldr_a64 (Reg_X 16) new_PseudoLabel (new_TurboAssembler junk 0)) (\<lambda>(entry_label, a1).
     res_bind (Ldr_a64 (Reg_X 17) new_PseudoLabel a1) (\<lambda>(forward_bridge_label, a2).
     res_bind (PseudoBind_a64 entry_label (br_a64 (Reg_X 17) a2)) (\<lambda>(_, a3).
     res_bind (PseudoBind_a64 forward_bridge_label (EmitInt64 entry a3)) (\<lambda>(_, a4).
       Inr (EmitInt64 bridge a4)))))"

definition CreateClosureTrampoline_a64 ::
    "(nat \<Rightarrow> u8) \<Rightarrow> u64 option \<Rightarrow> nat \<Rightarrow> u64 \<Rightarrow> u64 \<Rightarrow> u64 \<Rightarrow> u64 \<Rightarrow> arena \<Rightarrow> env64
      \<Rightarrow> (ClosureTrampolineEntry \<times> arena \<times> env64) res" where
  "CreateClosureTrampoline_a64 junk os_alloc pageSize entry bridge data handler arena e =
     res_bind (closure_trampoline_code junk entry bridge) (\<lambda>a.
     res_bind (FinalizeFromTurboAssember 4 os_alloc pageSize a arena e) (\<lambda>(code, _, arena', e').
       Inr (\<lparr>cte_address = mr_address code, cte_size = mr_length code, carry_handler = handler, carry_data = data\<rparr>,
            arena', e')))"

end
