(* ===== verification/Asm_X64.thy ===== *)
theory Asm_X64
  imports Assembler_Base
begin

text \<open>
  The x64 assembler: \<^verbatim>\<open>core/arch/x64/registers-x64.h\<close>, \<^verbatim>\<open>constants-x64.h\<close>, \<^verbatim>\<open>core/modules/assembler/assembler-x64.h\<close>
  and \<^verbatim>\<open>.cc\<close>, and \<^verbatim>\<open>core/modules/codegen/codegen-x64.cc\<close>.  \<^verbatim>\<open>ASSERT\<close> has an empty body in the source and is left out.
  The bytes of an \<open>Operand_x64\<close> beyond its length are never read; they start as 0 here.  Labels are reached
  only through the array of the assembler they were appended to, so the array holds the label objects.
\<close>

unbundle bit_operations_syntax

section \<open>Registers and constants\<close>

datatype RegisterType_x64 = kDefault_x64 | kInvalid_x64

record CPURegister_x64 =
  code_x64 :: nat
  size_x64 :: nat
  type_x64 :: RegisterType_x64

definition Create_x64 :: "nat \<Rightarrow> nat \<Rightarrow> RegisterType_x64 \<Rightarrow> CPURegister_x64" where
  "Create_x64 c sz t = \<lparr>code_x64 = c, size_x64 = sz, type_x64 = t\<rparr>"

definition from_code_x64 :: "nat \<Rightarrow> CPURegister_x64" where
  "from_code_x64 c = Create_x64 c 0 kDefault_x64"

definition Is_x64 :: "CPURegister_x64 \<Rightarrow> CPURegister_x64 \<Rightarrow> bool" where
  "Is_x64 r r' \<longleftrightarrow> code_x64 r' = code_x64 r"

definition low_bits_x64 :: "CPURegister_x64 \<Rightarrow> u8" where
  "low_bits_x64 r = of_nat (code_x64 r) AND 7"

definition rax :: CPURegister_x64 where "rax = Create_x64 0 64 kDefault_x64"
definition rcx :: CPURegister_x64 where "rcx = Create_x64 1 64 kDefault_x64"
definition rdx :: CPURegister_x64 where "rdx = Create_x64 2 64 kDefault_x64"
definition rbx :: CPURegister_x64 where "rbx = Create_x64 3 64 kDefault_x64"
definition rsp :: CPURegister_x64 where "rsp = Create_x64 4 64 kDefault_x64"
definition rbp :: CPURegister_x64 where "rbp = Create_x64 5 64 kDefault_x64"
definition rsi :: CPURegister_x64 where "rsi = Create_x64 6 64 kDefault_x64"
definition rdi :: CPURegister_x64 where "rdi = Create_x64 7 64 kDefault_x64"
definition r8 :: CPURegister_x64 where "r8 = Create_x64 8 64 kDefault_x64"
definition r9 :: CPURegister_x64 where "r9 = Create_x64 9 64 kDefault_x64"
definition r10 :: CPURegister_x64 where "r10 = Create_x64 10 64 kDefault_x64"
definition r11 :: CPURegister_x64 where "r11 = Create_x64 11 64 kDefault_x64"
definition r12 :: CPURegister_x64 where "r12 = Create_x64 12 64 kDefault_x64"
definition r13 :: CPURegister_x64 where "r13 = Create_x64 13 64 kDefault_x64"
definition r14 :: CPURegister_x64 where "r14 = Create_x64 14 64 kDefault_x64"
definition r15 :: CPURegister_x64 where "r15 = Create_x64 15 64 kDefault_x64"

lemmas x64_regs = rax_def rcx_def rdx_def rbx_def rsp_def rbp_def rsi_def rdi_def r8_def r9_def r10_def r11_def r12_def
  r13_def r14_def r15_def

definition VOLATILE_REGISTER_x64 :: CPURegister_x64 where
  "VOLATILE_REGISTER_x64 = r11"

datatype ScaleFactor = TIMES_1 | TIMES_2 | TIMES_4 | TIMES_8 | TIMES_16

primrec ScaleFactor_code :: "ScaleFactor \<Rightarrow> u8" where
  "ScaleFactor_code TIMES_1 = 0"
| "ScaleFactor_code TIMES_2 = 1"
| "ScaleFactor_code TIMES_4 = 2"
| "ScaleFactor_code TIMES_8 = 3"
| "ScaleFactor_code TIMES_16 = 4"

datatype RexBits = REX_NONE | REX_B | REX_X | REX_R | REX_W | REX_PREFIX

primrec RexBits_code :: "RexBits \<Rightarrow> u8" where
  "RexBits_code REX_NONE = 0"
| "RexBits_code REX_B = 1"
| "RexBits_code REX_X = 2"
| "RexBits_code REX_R = 4"
| "RexBits_code REX_W = 8"
| "RexBits_code REX_PREFIX = 64"

section \<open>Labels\<close>

datatype PseudoLabelType_x64 = kDisp32_off_9

record PseudoLabelInstruction_x64 =
  position_x64 :: nat
  pl_type_x64 :: PseudoLabelType_x64

record PseudoLabel_x64 = Label +
  instructions_x64 :: "PseudoLabelInstruction_x64 LiteMutableArray"

record RelocLabelEntry_x64 = PseudoLabel_x64 +
  reloc_data_x64 :: u64
  data_size_x64 :: int

definition new_RelocLabelEntry_x64 :: "u64 \<Rightarrow> RelocLabelEntry_x64" where
  "new_RelocLabelEntry_x64 d =
     \<lparr>label_pos = 0, near_link_pos = 0, instructions_x64 = arr_initWithCapacity 8, reloc_data_x64 = d, data_size_x64 = 0\<rparr>"

definition has_confused_instructions_x64 :: "'b PseudoLabel_x64_scheme \<Rightarrow> bool" where
  "has_confused_instructions_x64 l \<longleftrightarrow> 0 < getCount (instructions_x64 l)"

fun link_loop_x64 :: "nat list \<Rightarrow> 'b PseudoLabel_x64_scheme \<Rightarrow> LiteMutableBuffer \<Rightarrow> LiteMutableBuffer res" where
  "link_loop_x64 [] l b = Inr b"
| "link_loop_x64 (i # is) l b =
     res_bind (getObject i (instructions_x64 l)) (\<lambda>ins.
     let offset = pos l - int (position_x64 ins)
     in case pl_type_x64 ins of kDisp32_off_9 \<Rightarrow>
          if position_x64 ins < 4 then Inl OutOfBounds
          else res_bind (FixBindLabel (position_x64 ins - 4) (of_int (offset + 9)) b) (link_loop_x64 is l))"

definition link_confused_instructions_x64 :: "'b PseudoLabel_x64_scheme \<Rightarrow> LiteMutableBuffer \<Rightarrow> LiteMutableBuffer res" where
  "link_confused_instructions_x64 l b = link_loop_x64 [0..<getCount (instructions_x64 l)] l b"

definition pl_link_to_x64 :: "nat \<Rightarrow> PseudoLabelType_x64 \<Rightarrow> 'b PseudoLabel_x64_scheme \<Rightarrow> 'b PseudoLabel_x64_scheme" where
  "pl_link_to_x64 p t l =
     l\<lparr>instructions_x64 := snd (pushObject \<lparr>position_x64 = p, pl_type_x64 = t\<rparr> (instructions_x64 l))\<rparr>"

section \<open>Immediates, operands and addresses\<close>

definition asm_ModRM_Mod :: "u8 \<Rightarrow> u8" where
  "asm_ModRM_Mod b = drop_bit 6 (b AND 0xC0)"

definition asm_ModRM_RM :: "u8 \<Rightarrow> u8" where
  "asm_ModRM_RM b = b AND 7"

record Immediate_x64 =
  imm_value :: u64
  imm_size :: nat

definition Immediate_auto_x64 :: "u64 \<Rightarrow> Immediate_x64" where
  "Immediate_auto_x64 imm =
     \<lparr>imm_value = imm,
      imm_size = (if scast (ucast imm :: u8) = imm then 8
                  else if scast (ucast imm :: u16) = imm then 8
                  else if scast (ucast imm :: u32) = imm then 32 else 64)\<rparr>"

definition Immediate_sized_x64 :: "u64 \<Rightarrow> nat \<Rightarrow> Immediate_x64" where
  "Immediate_sized_x64 imm sz = \<lparr>imm_value = imm, imm_size = sz\<rparr>"

record Operand_x64 =
  length_x64 :: nat
  rex_x64 :: u8
  encoding_x64 :: "u8 list"

definition new_Operand_x64 :: Operand_x64 where
  "new_Operand_x64 = \<lparr>length_x64 = 0, rex_x64 = RexBits_code REX_NONE, encoding_x64 = replicate 6 0\<rparr>"

definition encoding_at_x64 :: "nat \<Rightarrow> Operand_x64 \<Rightarrow> u8" where
  "encoding_at_x64 index opd = encoding_x64 opd ! index"

definition rex_b_x64 :: "Operand_x64 \<Rightarrow> u8" where
  "rex_b_x64 opd = rex_x64 opd AND RexBits_code REX_B"

definition rex_x_x64 :: "Operand_x64 \<Rightarrow> u8" where
  "rex_x_x64 opd = rex_x64 opd AND RexBits_code REX_X"

definition modrm_x64 :: "Operand_x64 \<Rightarrow> u8" where
  "modrm_x64 opd = encoding_at_x64 0 opd"

definition mod_x64 :: "Operand_x64 \<Rightarrow> u8" where
  "mod_x64 opd = drop_bit 6 (encoding_at_x64 0 opd) AND 3"

definition rm_x64 :: "Operand_x64 \<Rightarrow> CPURegister_x64" where
  "rm_x64 opd = from_code_x64 (unat (push_bit 3 (rex_b_x64 opd)) + unat (encoding_at_x64 0 opd AND 7))"

definition scale_x64 :: "Operand_x64 \<Rightarrow> u8" where
  "scale_x64 opd = drop_bit 6 (encoding_at_x64 1 opd) AND 3"

definition index_x64 :: "Operand_x64 \<Rightarrow> CPURegister_x64" where
  "index_x64 opd = from_code_x64 (unat (push_bit 2 (rex_x_x64 opd)) + unat (drop_bit 3 (encoding_at_x64 1 opd) AND 7))"

definition base_x64 :: "Operand_x64 \<Rightarrow> CPURegister_x64" where
  "base_x64 opd = from_code_x64 (unat (push_bit 3 (rex_b_x64 opd)) + unat (encoding_at_x64 1 opd AND 7))"

definition disp8_x64 :: "Operand_x64 \<Rightarrow> u8" where
  "disp8_x64 opd = encoding_x64 opd ! (length_x64 opd - 1)"

definition disp32_x64 :: "Operand_x64 \<Rightarrow> u32" where
  "disp32_x64 opd = ucast (encoding_x64 opd ! (length_x64 opd - 4))"

definition SetModRM_x64 :: "u8 \<Rightarrow> CPURegister_x64 \<Rightarrow> Operand_x64 \<Rightarrow> Operand_x64" where
  "SetModRM_x64 md rm opd =
     (let opd = (if 7 < code_x64 rm \<and> \<not> (Is_x64 rm r12 \<and> md \<noteq> 3)
                 then opd\<lparr>rex_x64 := rex_x64 opd OR RexBits_code REX_B\<rparr> else opd)
      in opd\<lparr>encoding_x64 := (encoding_x64 opd)[0 := push_bit 6 md OR (of_nat (code_x64 rm) AND 7)], length_x64 := 1\<rparr>)"

definition SetSIB_x64 :: "ScaleFactor \<Rightarrow> CPURegister_x64 \<Rightarrow> CPURegister_x64 \<Rightarrow> Operand_x64 \<Rightarrow> Operand_x64" where
  "SetSIB_x64 scale index base opd =
     (let opd = (if 7 < code_x64 base then opd\<lparr>rex_x64 := rex_x64 opd OR RexBits_code REX_B\<rparr> else opd);
          opd = (if 7 < code_x64 index then opd\<lparr>rex_x64 := rex_x64 opd OR RexBits_code REX_X\<rparr> else opd)
      in opd\<lparr>encoding_x64 := (encoding_x64 opd)[1 := push_bit 6 (ScaleFactor_code scale)
             OR push_bit 3 (of_nat (code_x64 index) AND 7) OR (of_nat (code_x64 base) AND 7)], length_x64 := 2\<rparr>)"

definition SetDisp8_x64 :: "u8 \<Rightarrow> Operand_x64 \<Rightarrow> Operand_x64" where
  "SetDisp8_x64 disp opd =
     opd\<lparr>encoding_x64 := (encoding_x64 opd)[length_x64 opd := disp], length_x64 := length_x64 opd + 1\<rparr>"

definition SetDisp32_x64 :: "u32 \<Rightarrow> Operand_x64 \<Rightarrow> Operand_x64" where
  "SetDisp32_x64 disp opd =
     opd\<lparr>encoding_x64 := poke (length_x64 opd) (le_bytes 4 disp) (encoding_x64 opd), length_x64 := length_x64 opd + 4\<rparr>"

definition IsInt8 :: "u32 \<Rightarrow> bool" where
  "IsInt8 imm \<longleftrightarrow> -128 \<le> sint imm \<and> sint imm \<le> 127"

definition sib_for_rsp :: "CPURegister_x64 \<Rightarrow> Operand_x64 \<Rightarrow> Operand_x64" where
  "sib_for_rsp base opd = (if of_nat (code_x64 base) AND 7 = (of_nat (code_x64 rsp) :: u8) then SetSIB_x64 TIMES_1 rsp base opd else opd)"

definition Address_x64 :: "CPURegister_x64 \<Rightarrow> u32 \<Rightarrow> Operand_x64" where
  "Address_x64 base disp =
     (if disp = 0 \<and> of_nat (code_x64 base) AND 7 \<noteq> (of_nat (code_x64 rbp) :: u8) then
        sib_for_rsp base (SetModRM_x64 0 base new_Operand_x64)
      else if IsInt8 disp then
        SetDisp8_x64 (ucast disp) (sib_for_rsp base (SetModRM_x64 1 base new_Operand_x64))
      else
        SetDisp32_x64 disp (sib_for_rsp base (SetModRM_x64 2 base new_Operand_x64)))"

definition Address_index_x64 :: "CPURegister_x64 \<Rightarrow> ScaleFactor \<Rightarrow> u32 \<Rightarrow> Operand_x64" where
  "Address_index_x64 index scale disp =
     SetDisp32_x64 disp (SetSIB_x64 scale index rbp (SetModRM_x64 0 rsp new_Operand_x64))"

definition Address_base_index_x64 :: "CPURegister_x64 \<Rightarrow> CPURegister_x64 \<Rightarrow> ScaleFactor \<Rightarrow> u32 \<Rightarrow> Operand_x64" where
  "Address_base_index_x64 base index scale disp =
     (if disp = 0 \<and> of_nat (code_x64 base) AND 7 \<noteq> (of_nat (code_x64 rbp) :: u8) then
        SetSIB_x64 scale index base (SetModRM_x64 0 rsp new_Operand_x64)
      else if IsInt8 disp then
        SetDisp8_x64 (ucast disp) (SetSIB_x64 scale index base (SetModRM_x64 1 rsp new_Operand_x64))
      else
        SetDisp32_x64 disp (SetSIB_x64 scale index base (SetModRM_x64 2 rsp new_Operand_x64)))"

definition Address_fixed_x64 :: "CPURegister_x64 \<Rightarrow> u32 \<Rightarrow> Operand_x64" where
  "Address_fixed_x64 base disp = SetDisp32_x64 disp (sib_for_rsp base (SetModRM_x64 2 base new_Operand_x64))"

section \<open>Assembler\<close>

definition Emit1_x64 :: "u8 \<Rightarrow> 'a AssemblerBase_scheme \<Rightarrow> 'a AssemblerBase_scheme" where
  "Emit1_x64 v a = a\<lparr>code_buffer := Emit8 v (code_buffer a)\<rparr>"

definition Emit_x64 :: "u32 \<Rightarrow> 'a AssemblerBase_scheme \<Rightarrow> 'a AssemblerBase_scheme" where
  "Emit_x64 v a = a\<lparr>code_buffer := Emit32 v (code_buffer a)\<rparr>"

definition EmitInt64_x64 :: "u64 \<Rightarrow> 'a AssemblerBase_scheme \<Rightarrow> 'a AssemblerBase_scheme" where
  "EmitInt64_x64 v a = a\<lparr>code_buffer := Emit64 v (code_buffer a)\<rparr>"

definition EmitBuffer_x64 :: "u8 list \<Rightarrow> 'a AssemblerBase_scheme \<Rightarrow> 'a AssemblerBase_scheme" where
  "EmitBuffer_x64 bs a = a\<lparr>code_buffer := EmitBuffer bs (code_buffer a)\<rparr>"

definition EmitOptionalRex :: "bool \<Rightarrow> bool \<Rightarrow> bool \<Rightarrow> bool \<Rightarrow> bool \<Rightarrow> u8" where
  "EmitOptionalRex force w r x b =
     (if force then 0x40 else 0) OR (if w then 0x48 else 0) OR (if r then 0x44 else 0) OR (if x then 0x42 else 0)
     OR (if b then 0x41 else 0)"

definition Emit_64REX :: "u8 \<Rightarrow> 'a AssemblerBase_scheme \<Rightarrow> 'a AssemblerBase_scheme" where
  "Emit_64REX extra a =
     (let rex = EmitOptionalRex False True False False False OR extra in if rex \<noteq> 0 then Emit1_x64 rex a else a)"

definition EmitREX_ExtraRegister :: "CPURegister_x64 \<Rightarrow> 'a AssemblerBase_scheme \<Rightarrow> 'a AssemblerBase_scheme" where
  "EmitREX_ExtraRegister reg a =
     (let rex = EmitOptionalRex False (size_x64 reg = 64) (7 < code_x64 reg) False (7 < code_x64 reg)
      in if rex \<noteq> 0 then Emit1_x64 rex a else a)"

definition EmitREX_Register :: "CPURegister_x64 \<Rightarrow> 'a AssemblerBase_scheme \<Rightarrow> 'a AssemblerBase_scheme" where
  "EmitREX_Register reg a =
     (let rex = EmitOptionalRex False (size_x64 reg = 64) (7 < code_x64 reg) False False
      in if rex \<noteq> 0 then Emit1_x64 rex a else a)"

definition EmitREX_Register_Operand :: "CPURegister_x64 \<Rightarrow> Operand_x64 \<Rightarrow> 'a AssemblerBase_scheme
    \<Rightarrow> 'a AssemblerBase_scheme res" where
  "EmitREX_Register_Operand reg operand a =
     (if size_x64 reg \<noteq> 64 then Inl Unimplemented
      else let rex = rex_x64 operand OR EmitOptionalRex True (size_x64 reg = 64) (7 < code_x64 reg) False False
           in Inr (if rex \<noteq> 0 then Emit1_x64 rex a else a))"

definition EmitREX_Operand :: "Operand_x64 \<Rightarrow> 'a AssemblerBase_scheme \<Rightarrow> 'a AssemblerBase_scheme" where
  "EmitREX_Operand operand a =
     (let rex = rex_x64 operand OR RexBits_code REX_PREFIX in if rex \<noteq> 0 then Emit1_x64 rex a else a)"

definition EmitImmediate_x64 :: "Immediate_x64 \<Rightarrow> nat \<Rightarrow> 'a AssemblerBase_scheme \<Rightarrow> 'a AssemblerBase_scheme res" where
  "EmitImmediate_x64 imm sz a =
     (if sz = 8 then Inr (Emit1_x64 (ucast (imm_value imm)) a)
      else if sz = 32 then Inr (Emit_x64 (ucast (imm_value imm)) a)
      else if sz = 64 then Inr (EmitInt64_x64 (imm_value imm) a)
      else Inl Unreachable)"

definition EmitModRM_x64 :: "u8 \<Rightarrow> u8 \<Rightarrow> u8 \<Rightarrow> 'a AssemblerBase_scheme \<Rightarrow> 'a AssemblerBase_scheme" where
  "EmitModRM_x64 Mod RegOpcode RM = Emit1_x64 (push_bit 6 Mod OR push_bit 3 RegOpcode OR RM)"

definition EmitModRM_ExtraOpcode_Register_x64 :: "u8 \<Rightarrow> CPURegister_x64 \<Rightarrow> 'a AssemblerBase_scheme \<Rightarrow> 'a AssemblerBase_scheme" where
  "EmitModRM_ExtraOpcode_Register_x64 extra_opcode reg = EmitModRM_x64 3 extra_opcode (of_nat (code_x64 reg))"

definition EmitModRM_Register_Register_x64 :: "CPURegister_x64 \<Rightarrow> CPURegister_x64 \<Rightarrow> 'a AssemblerBase_scheme \<Rightarrow> 'a AssemblerBase_scheme" where
  "EmitModRM_Register_Register_x64 reg1 reg2 = EmitModRM_x64 3 (of_nat (code_x64 reg1)) (of_nat (code_x64 reg2))"

definition EmitModRM_Update_Register_x64 :: "u8 \<Rightarrow> CPURegister_x64 \<Rightarrow> 'a AssemblerBase_scheme \<Rightarrow> 'a AssemblerBase_scheme" where
  "EmitModRM_Update_Register_x64 modRM reg = EmitModRM_x64 (asm_ModRM_Mod modRM) (low_bits_x64 reg) (asm_ModRM_RM modRM)"

definition EmitModRM_Update_ExtraOpcode_x64 :: "u8 \<Rightarrow> u8 \<Rightarrow> 'a AssemblerBase_scheme \<Rightarrow> 'a AssemblerBase_scheme" where
  "EmitModRM_Update_ExtraOpcode_x64 modRM extra_opcode = EmitModRM_x64 (asm_ModRM_Mod modRM) extra_opcode (asm_ModRM_RM modRM)"

definition EmitOpcode_x64 :: "u8 \<Rightarrow> 'a AssemblerBase_scheme \<Rightarrow> 'a AssemblerBase_scheme" where
  "EmitOpcode_x64 opc = Emit1_x64 opc"

definition EmitOpcode_Register_x64 :: "u8 \<Rightarrow> CPURegister_x64 \<Rightarrow> 'a AssemblerBase_scheme \<Rightarrow> 'a AssemblerBase_scheme" where
  "EmitOpcode_Register_x64 opc reg = EmitOpcode_x64 (opc OR low_bits_x64 reg)"

definition tail_x64 :: "Operand_x64 \<Rightarrow> u8 list" where
  "tail_x64 operand = take (length_x64 operand - 1) (drop 1 (encoding_x64 operand))"

definition Emit_OpEn_Register_Operand_x64 :: "CPURegister_x64 \<Rightarrow> Operand_x64 \<Rightarrow> 'a AssemblerBase_scheme \<Rightarrow> 'a AssemblerBase_scheme" where
  "Emit_OpEn_Register_Operand_x64 dst operand a =
     EmitBuffer_x64 (tail_x64 operand) (EmitModRM_Update_Register_x64 (modrm_x64 operand) dst a)"

definition Emit_OpEn_Register_RegisterOperand_x64 :: "CPURegister_x64 \<Rightarrow> CPURegister_x64 \<Rightarrow> 'a AssemblerBase_scheme \<Rightarrow> 'a AssemblerBase_scheme" where
  "Emit_OpEn_Register_RegisterOperand_x64 dst src = EmitModRM_Register_Register_x64 dst src"

definition Emit_OpEn_RegisterOperand_Immediate_x64 :: "u8 \<Rightarrow> CPURegister_x64 \<Rightarrow> Immediate_x64 \<Rightarrow> 'a AssemblerBase_scheme
    \<Rightarrow> 'a AssemblerBase_scheme res" where
  "Emit_OpEn_RegisterOperand_Immediate_x64 extra_opcode reg imm a =
     EmitImmediate_x64 imm (imm_size imm) (EmitModRM_ExtraOpcode_Register_x64 extra_opcode reg a)"

definition Emit_OpEn_Operand_x64 :: "u8 \<Rightarrow> Operand_x64 \<Rightarrow> 'a AssemblerBase_scheme \<Rightarrow> 'a AssemblerBase_scheme" where
  "Emit_OpEn_Operand_x64 extra_opcode operand a =
     EmitBuffer_x64 (tail_x64 operand) (EmitModRM_Update_ExtraOpcode_x64 (modrm_x64 operand) extra_opcode a)"

definition Emit_OpEn_RegisterOperand_x64 :: "u8 \<Rightarrow> CPURegister_x64 \<Rightarrow> 'a AssemblerBase_scheme \<Rightarrow> 'a AssemblerBase_scheme" where
  "Emit_OpEn_RegisterOperand_x64 extra_opcode reg = EmitModRM_ExtraOpcode_Register_x64 extra_opcode reg"

definition Emit_OpEn_OpcodeRegister_Immediate_x64 :: "u8 \<Rightarrow> CPURegister_x64 \<Rightarrow> Immediate_x64 \<Rightarrow> 'a AssemblerBase_scheme
    \<Rightarrow> 'a AssemblerBase_scheme res" where
  "Emit_OpEn_OpcodeRegister_Immediate_x64 opc dst imm a =
     EmitImmediate_x64 imm (imm_size imm) (EmitOpcode_Register_x64 opc dst a)"

subsection \<open>Instructions\<close>

definition pushfq_x64 :: "'a AssemblerBase_scheme \<Rightarrow> 'a AssemblerBase_scheme" where
  "pushfq_x64 = Emit1_x64 0x9C"

definition jmp_x64 :: "Immediate_x64 \<Rightarrow> 'a AssemblerBase_scheme \<Rightarrow> 'a AssemblerBase_scheme" where
  "jmp_x64 imm a = Emit_x64 (ucast (imm_value imm)) (Emit1_x64 0xE9 a)"

definition sub_x64 :: "CPURegister_x64 \<Rightarrow> Immediate_x64 \<Rightarrow> 'a AssemblerBase_scheme \<Rightarrow> 'a AssemblerBase_scheme res" where
  "sub_x64 dst imm a =
     (if size_x64 dst \<noteq> 64 then Inl CheckFailed
      else Emit_OpEn_RegisterOperand_Immediate_x64 5 dst imm (EmitOpcode_x64 0x81 (EmitREX_Register dst a)))"

definition add_x64 :: "CPURegister_x64 \<Rightarrow> Immediate_x64 \<Rightarrow> 'a AssemblerBase_scheme \<Rightarrow> 'a AssemblerBase_scheme res" where
  "add_x64 dst imm a =
     (if size_x64 dst \<noteq> 64 then Inl CheckFailed
      else Emit_OpEn_RegisterOperand_Immediate_x64 0 dst imm (EmitOpcode_x64 0x81 (EmitREX_Register dst a)))"

definition mov_imm_x64 :: "CPURegister_x64 \<Rightarrow> Immediate_x64 \<Rightarrow> 'a AssemblerBase_scheme \<Rightarrow> 'a AssemblerBase_scheme res" where
  "mov_imm_x64 dst imm a = Emit_OpEn_OpcodeRegister_Immediate_x64 0xb8 dst imm (EmitREX_Register dst a)"

definition mov_load_x64 :: "CPURegister_x64 \<Rightarrow> Operand_x64 \<Rightarrow> 'a AssemblerBase_scheme \<Rightarrow> 'a AssemblerBase_scheme" where
  "mov_load_x64 dst src a = Emit_OpEn_Register_Operand_x64 dst src (EmitOpcode_x64 0x8B (EmitREX_Register dst a))"

definition mov_store_x64 :: "Operand_x64 \<Rightarrow> CPURegister_x64 \<Rightarrow> 'a AssemblerBase_scheme \<Rightarrow> 'a AssemblerBase_scheme res" where
  "mov_store_x64 dst src a =
     res_bind (EmitREX_Register_Operand src dst a) (\<lambda>a. Inr (Emit_OpEn_Register_Operand_x64 src dst (EmitOpcode_x64 0x89 a)))"

definition mov_reg_x64 :: "CPURegister_x64 \<Rightarrow> CPURegister_x64 \<Rightarrow> 'a AssemblerBase_scheme \<Rightarrow> 'a AssemblerBase_scheme" where
  "mov_reg_x64 dst src a = Emit_OpEn_Register_RegisterOperand_x64 dst src (Emit1_x64 0x8B (EmitREX_Register dst a))"

definition call_mem_x64 :: "Operand_x64 \<Rightarrow> 'a AssemblerBase_scheme \<Rightarrow> 'a AssemblerBase_scheme" where
  "call_mem_x64 operand a = Emit_OpEn_Operand_x64 2 operand (EmitOpcode_x64 0xFF (EmitREX_Operand operand a))"

definition call_imm_x64 :: "Immediate_x64 \<Rightarrow> 'a AssemblerBase_scheme \<Rightarrow> 'a AssemblerBase_scheme res" where
  "call_imm_x64 imm a = EmitImmediate_x64 imm (imm_size imm) (EmitOpcode_x64 0xe8 a)"

definition call_reg_x64 :: "CPURegister_x64 \<Rightarrow> 'a AssemblerBase_scheme \<Rightarrow> 'a AssemblerBase_scheme" where
  "call_reg_x64 reg a = Emit_OpEn_RegisterOperand_x64 2 reg (EmitOpcode_x64 0xFF (EmitREX_Register reg a))"

definition pop_x64 :: "CPURegister_x64 \<Rightarrow> 'a AssemblerBase_scheme \<Rightarrow> 'a AssemblerBase_scheme" where
  "pop_x64 reg a = EmitOpcode_Register_x64 0x58 reg (EmitREX_ExtraRegister reg a)"

definition push_x64 :: "CPURegister_x64 \<Rightarrow> 'a AssemblerBase_scheme \<Rightarrow> 'a AssemblerBase_scheme" where
  "push_x64 reg a = EmitOpcode_Register_x64 0x50 reg (EmitREX_ExtraRegister reg a)"

definition ret_x64 :: "'a AssemblerBase_scheme \<Rightarrow> 'a AssemblerBase_scheme" where
  "ret_x64 = EmitOpcode_x64 0xc3"

definition nop_x64 :: "'a AssemblerBase_scheme \<Rightarrow> 'a AssemblerBase_scheme" where
  "nop_x64 = EmitOpcode_x64 0x90"

section \<open>TurboAssembler\<close>

record TurboAssembler_x64 = AssemblerBase +
  data_labels_x64 :: "RelocLabelEntry_x64 LiteMutableArray option"

definition new_TurboAssembler_x64 :: "(nat \<Rightarrow> u8) \<Rightarrow> u64 \<Rightarrow> TurboAssembler_x64" where
  "new_TurboAssembler_x64 junk address =
     \<lparr>code_buffer = the (initWithCapacity junk 32), realized_address = address, data_labels_x64 = None\<rparr>"

definition CurrentIP_x64 :: "'a AssemblerBase_scheme \<Rightarrow> u64" where
  "CurrentIP_x64 a = of_nat (pc_offset a) + realized_address a"

definition MovRipToRegister_x64 :: "CPURegister_x64 \<Rightarrow> 'a AssemblerBase_scheme \<Rightarrow> 'a AssemblerBase_scheme res" where
  "MovRipToRegister_x64 dst a = res_bind (call_imm_x64 (Immediate_sized_x64 0 32) a) (\<lambda>a. Inr (pop_x64 dst a))"

definition AppendRelocLabelEntry_x64 :: "RelocLabelEntry_x64 \<Rightarrow> TurboAssembler_x64 \<Rightarrow> TurboAssembler_x64" where
  "AppendRelocLabelEntry_x64 label a =
     (let labels = (case data_labels_x64 a of None \<Rightarrow> arr_initWithCapacity 8 | Some labels \<Rightarrow> labels)
      in a\<lparr>data_labels_x64 := Some (snd (pushObject label labels))\<rparr>)"

definition CallFunction_x64 :: "u64 \<Rightarrow> TurboAssembler_x64 \<Rightarrow> TurboAssembler_x64 res" where
  "CallFunction_x64 function_address a =
     res_bind (MovRipToRegister_x64 VOLATILE_REGISTER_x64 (nop_x64 a)) (\<lambda>a.
     let a = call_mem_x64 (Address_x64 VOLATILE_REGISTER_x64 0x7FFFFFFF) a;
         addrLabel = pl_link_to_x64 (ip_offset a) kDisp32_off_9 (new_RelocLabelEntry_x64 function_address)
     in Inr (nop_x64 (AppendRelocLabelEntry_x64 addrLabel a)))"

definition PseudoBind_x64 :: "'b PseudoLabel_x64_scheme \<Rightarrow> 'a AssemblerBase_scheme
    \<Rightarrow> ('b PseudoLabel_x64_scheme \<times> 'a AssemblerBase_scheme) res" where
  "PseudoBind_x64 label a =
     (let label = bind_to (int (getSize (code_buffer a))) label
      in if has_confused_instructions_x64 label then
           res_bind (link_confused_instructions_x64 label (code_buffer a)) (\<lambda>b. Inr (label, a\<lparr>code_buffer := b\<rparr>))
         else Inr (label, a))"

fun RelocBind_loop_x64 :: "nat list \<Rightarrow> RelocLabelEntry_x64 LiteMutableArray \<Rightarrow> 'a AssemblerBase_scheme
    \<Rightarrow> (RelocLabelEntry_x64 LiteMutableArray \<times> 'a AssemblerBase_scheme) res" where
  "RelocBind_loop_x64 [] labels a = Inr (labels, a)"
| "RelocBind_loop_x64 (i # is) labels a =
     res_bind (getObject i labels) (\<lambda>label.
     res_bind (PseudoBind_x64 label a) (\<lambda>(label, a).
       RelocBind_loop_x64 is (labels\<lparr>array := (array labels)[i := Some label]\<rparr>) (EmitInt64_x64 (reloc_data_x64 label) a)))"

definition RelocBind_x64 :: "TurboAssembler_x64 \<Rightarrow> TurboAssembler_x64 res" where
  "RelocBind_x64 a =
     (case data_labels_x64 a of None \<Rightarrow> Inr a
      | Some labels \<Rightarrow> res_bind (RelocBind_loop_x64 [0..<getCount labels] labels a)
          (\<lambda>(labels, a). Inr (a\<lparr>data_labels_x64 := Some labels\<rparr>)))"

section \<open>CodeGen\<close>

definition JmpNearIndirect_x64 :: "u64 \<Rightarrow> 'a AssemblerBase_scheme \<Rightarrow> 'a AssemblerBase_scheme" where
  "JmpNearIndirect_x64 address a =
     (let currIP = CurrentIP_x64 a + 6;
          offset = ucast (address - currIP) :: u32
      in Emit_x64 offset (Emit1_x64 0x25 (Emit1_x64 0xFF a)))"

end
