(* ===== verification/X86_Decode.thy ===== *)
theory X86_Decode
  imports C_Prelude
begin

text \<open>
  The x86 instruction decoder of \<^verbatim>\<open>InstructionRelocation/x86/X86OpcodoDecodeTable.h\<close> and \<^verbatim>\<open>.cc\<close>: the
  structure an instruction is decoded into, the opcode table with its decode handlers, and the dispatch.
  The function pointers of the table are the constructors of \<open>DecodeHandler_t\<close>; the flag \<open>x64\<close> stands for the
  preprocessor test of a 64-bit build.  The bytes of the code are a parameter, a function from addresses.
  A prefix continues the dispatch at the next byte, so a run of prefixes makes the C code recurse;
  \<open>ContinueDispatch\<close> is a partial function with value \<open>None\<close> when the recursion does not end.
\<close>

unbundle bit_operations_syntax

section \<open>The data\<close>

record Instr =
  prefix :: u8
  REX :: u8
  opcode1 :: u8
  ModRM :: u8
  SIB :: u8
  Displacement :: "u8 list"
  DisplacementOffset :: nat
  Immediate :: "u8 list"
  ImmediateOffset :: nat

definition OpSz_0 :: nat where "OpSz_0 = 0"
definition OpSz_8 :: nat where "OpSz_8 = 1"
definition OpSz_16 :: nat where "OpSz_16 = 2"
definition OpSz_32 :: nat where "OpSz_32 = 4"
definition OpSz_64 :: nat where "OpSz_64 = 8"

definition ImmSz_0 :: nat where "ImmSz_0 = 0"
definition ImmSz_8 :: nat where "ImmSz_8 = 1"
definition ImmSz_16 :: nat where "ImmSz_16 = 2"
definition ImmSz_32 :: nat where "ImmSz_32 = 4"

definition kNoFlag :: nat where "kNoFlag = 0"
definition kIPRelativeAddress :: nat where "kIPRelativeAddress = 1"

lemmas size_codes = OpSz_0_def OpSz_8_def OpSz_16_def OpSz_32_def OpSz_64_def
  ImmSz_0_def ImmSz_8_def ImmSz_16_def ImmSz_32_def kNoFlag_def kIPRelativeAddress_def

record InstrMnemonic =
  len :: nat
  flag :: nat
  OperandSz :: nat
  ImmediteSz :: nat
  instr :: Instr

definition zero_instr :: InstrMnemonic where
  "zero_instr = \<lparr>len = 0, flag = 0, OperandSz = 0, ImmediteSz = 0,
     instr = \<lparr>prefix = 0, REX = 0, opcode1 = 0, ModRM = 0, SIB = 0, Displacement = [0, 0, 0, 0], DisplacementOffset = 0,
              Immediate = [0, 0, 0, 0], ImmediateOffset = 0\<rparr>\<rparr>"

datatype OperandEncodingType =
  OpEn_NONE | OpEn_ZO | OpEn_M | OpEn_I | OpEn_D | OpEn_O | OpEn_RM | OpEn_MR | OpEn_MI | OpEn_OI | OpEn_M1 | OpEn_MC
| OpEn_RMI

datatype DecodeHandler_t =
  h_UnknownOpHanlder | h_InValidOpHanlder | h_DecodeREXPrefix | h_DecodeLegacyPrefix | h_DecodePrefix_66
| h_DecodeOpEn_ZO | h_DecodeOpEn_O | h_DecodeOpEn_M | h_DecodeOpEn_RM | h_DecodeOpEn_MR | h_DecodeOpEn_M1 | h_DecodeOpEn_MC
| h_DecodeOpEn_I | h_DecodeOpEn_OI | h_DecodeOpEn_D | h_DecodeOpEn_RMI | h_DecodeOpEn_MI | h_DecodeOpC8

record OpcodeDecodeItem =
  opcode :: u8
  FixedSize :: int
  OpEn :: "OperandEncodingType option"
  item_OperandSz :: nat
  item_ImmediteSz :: nat
  DecodeHandler :: DecodeHandler_t

section \<open>The table\<close>

text \<open>\<open>entry\<close> builds a row; the others are the rows the \<^verbatim>\<open>_x\<close> macros abbreviate.\<close>

definition entry :: "u8 \<Rightarrow> int \<Rightarrow> OperandEncodingType \<Rightarrow> nat \<Rightarrow> nat \<Rightarrow> DecodeHandler_t \<Rightarrow> OpcodeDecodeItem" where
  "entry b fixed en osz isz h =
     \<lparr>opcode = b, FixedSize = fixed, OpEn = Some en, item_OperandSz = osz, item_ImmediteSz = isz, DecodeHandler = h\<rparr>"

definition row_unknown :: "u8 \<Rightarrow> OpcodeDecodeItem" where
  "row_unknown b = \<lparr>opcode = b, FixedSize = -1, OpEn = None, item_OperandSz = OpSz_0, item_ImmediteSz = ImmSz_0,
            DecodeHandler = h_UnknownOpHanlder\<rparr>"

definition row_invalid :: "u8 \<Rightarrow> OpcodeDecodeItem" where
  "row_invalid b = \<lparr>opcode = b, FixedSize = -1, OpEn = None, item_OperandSz = OpSz_0, item_ImmediteSz = ImmSz_0,
            DecodeHandler = h_InValidOpHanlder\<rparr>"

definition row_prefix :: "u8 \<Rightarrow> OpcodeDecodeItem" where
  "row_prefix b = entry b 1 OpEn_NONE OpSz_0 ImmSz_0 h_DecodeLegacyPrefix"

definition row_66 :: "u8 \<Rightarrow> OpcodeDecodeItem" where
  "row_66 b = entry b 1 OpEn_NONE OpSz_0 ImmSz_0 h_DecodePrefix_66"

definition row_REX :: "u8 \<Rightarrow> OpcodeDecodeItem" where
  "row_REX b = entry b 1 OpEn_NONE OpSz_0 ImmSz_0 h_DecodeREXPrefix"

definition row_ZO :: "u8 \<Rightarrow> OpcodeDecodeItem" where
  "row_ZO b = entry b 1 OpEn_ZO OpSz_0 ImmSz_0 h_DecodeOpEn_ZO"

definition row_O :: "u8 \<Rightarrow> OpcodeDecodeItem" where
  "row_O b = entry b 1 OpEn_O OpSz_0 ImmSz_0 h_DecodeOpEn_O"

definition row_C8 :: "u8 \<Rightarrow> OpcodeDecodeItem" where
  "row_C8 b = entry b 1 OpEn_NONE OpSz_0 ImmSz_0 h_DecodeOpC8"

definition OpcodeDecodeTable_00 :: "bool \<Rightarrow> OpcodeDecodeItem list" where
  "OpcodeDecodeTable_00 x64 =
   [entry 0x00 2 OpEn_MR OpSz_8 ImmSz_0 h_DecodeOpEn_MR,
    entry 0x01 2 OpEn_MR (OpSz_16 OR OpSz_32) ImmSz_0 h_DecodeOpEn_MR,
    entry 0x02 2 OpEn_RM OpSz_8 ImmSz_0 h_DecodeOpEn_RM,
    entry 0x03 2 OpEn_RM (OpSz_16 OR OpSz_32) ImmSz_0 h_DecodeOpEn_RM,
    entry 0x04 1 OpEn_I OpSz_0 ImmSz_8 h_DecodeOpEn_I,
    entry 0x05 1 OpEn_I (OpSz_16 OR OpSz_32) (ImmSz_16 OR ImmSz_32) h_DecodeOpEn_I,
    (if x64 then row_invalid 0x06 else row_ZO 0x06),
    (if x64 then row_invalid 0x07 else row_ZO 0x07),
    entry 0x08 2 OpEn_MR OpSz_8 ImmSz_0 h_DecodeOpEn_MR,
    entry 0x09 2 OpEn_MR (OpSz_16 OR OpSz_32) ImmSz_0 h_DecodeOpEn_MR,
    entry 0x0A 2 OpEn_RM OpSz_8 ImmSz_0 h_DecodeOpEn_RM,
    entry 0x0B 2 OpEn_RM (OpSz_16 OR OpSz_32) ImmSz_0 h_DecodeOpEn_RM,
    entry 0x0C 1 OpEn_I OpSz_0 ImmSz_8 h_DecodeOpEn_I,
    entry 0x0D 1 OpEn_I (OpSz_16 OR OpSz_32) (ImmSz_16 OR ImmSz_32) h_DecodeOpEn_I,
    (if x64 then row_invalid 0x0E else row_ZO 0x0E),
    row_prefix 0x0F,
    entry 0x10 2 OpEn_MR OpSz_8 ImmSz_0 h_DecodeOpEn_MR,
    entry 0x11 2 OpEn_MR (OpSz_16 OR OpSz_32) ImmSz_0 h_DecodeOpEn_MR,
    entry 0x12 2 OpEn_RM OpSz_8 ImmSz_0 h_DecodeOpEn_RM,
    entry 0x13 2 OpEn_RM (OpSz_16 OR OpSz_32) ImmSz_0 h_DecodeOpEn_RM,
    entry 0x14 1 OpEn_I OpSz_0 ImmSz_8 h_DecodeOpEn_I,
    entry 0x15 1 OpEn_I (OpSz_16 OR OpSz_32) (ImmSz_16 OR ImmSz_32) h_DecodeOpEn_I,
    (if x64 then row_invalid 0x16 else row_ZO 0x16),
    (if x64 then row_invalid 0x17 else row_ZO 0x17),
    entry 0x18 2 OpEn_MR OpSz_8 ImmSz_0 h_DecodeOpEn_MR,
    entry 0x19 2 OpEn_MR (OpSz_16 OR OpSz_32) ImmSz_0 h_DecodeOpEn_MR,
    entry 0x1A 2 OpEn_RM OpSz_8 ImmSz_0 h_DecodeOpEn_RM,
    entry 0x1B 2 OpEn_RM (OpSz_16 OR OpSz_32) ImmSz_0 h_DecodeOpEn_RM,
    entry 0x1C 1 OpEn_I OpSz_0 ImmSz_8 h_DecodeOpEn_I,
    entry 0x1D 1 OpEn_I (OpSz_16 OR OpSz_32) (ImmSz_16 OR ImmSz_32) h_DecodeOpEn_I,
    (if x64 then row_invalid 0x1E else row_ZO 0x1E),
    (if x64 then row_invalid 0x1F else row_ZO 0x1F),
    entry 0x20 2 OpEn_MR OpSz_8 ImmSz_0 h_DecodeOpEn_MR,
    entry 0x21 2 OpEn_MR (OpSz_16 OR OpSz_32) ImmSz_0 h_DecodeOpEn_MR,
    entry 0x22 2 OpEn_RM OpSz_8 ImmSz_0 h_DecodeOpEn_RM,
    entry 0x23 2 OpEn_RM (OpSz_16 OR OpSz_32) ImmSz_0 h_DecodeOpEn_RM,
    entry 0x24 1 OpEn_I OpSz_0 ImmSz_8 h_DecodeOpEn_I,
    entry 0x25 1 OpEn_I (OpSz_16 OR OpSz_32) (ImmSz_16 OR ImmSz_32) h_DecodeOpEn_I,
    row_prefix 0x26,
    (if x64 then row_invalid 0x27 else row_ZO 0x27),
    entry 0x28 2 OpEn_MR OpSz_8 ImmSz_0 h_DecodeOpEn_MR,
    entry 0x29 2 OpEn_MR (OpSz_16 OR OpSz_32) ImmSz_0 h_DecodeOpEn_MR,
    entry 0x2A 2 OpEn_RM OpSz_8 ImmSz_0 h_DecodeOpEn_RM,
    entry 0x2B 2 OpEn_RM (OpSz_16 OR OpSz_32) ImmSz_0 h_DecodeOpEn_RM,
    entry 0x2C 1 OpEn_I OpSz_0 ImmSz_8 h_DecodeOpEn_I,
    entry 0x2D 1 OpEn_I (OpSz_16 OR OpSz_32) (ImmSz_16 OR ImmSz_32) h_DecodeOpEn_I,
    row_prefix 0x2E,
    (if x64 then row_invalid 0x2F else row_ZO 0x2F),
    entry 0x30 2 OpEn_MR OpSz_8 ImmSz_0 h_DecodeOpEn_MR,
    entry 0x31 2 OpEn_MR (OpSz_16 OR OpSz_32) ImmSz_0 h_DecodeOpEn_MR,
    entry 0x32 2 OpEn_RM OpSz_8 ImmSz_0 h_DecodeOpEn_RM,
    entry 0x33 2 OpEn_RM (OpSz_16 OR OpSz_32) ImmSz_0 h_DecodeOpEn_RM,
    entry 0x34 1 OpEn_I OpSz_0 ImmSz_8 h_DecodeOpEn_I,
    entry 0x35 1 OpEn_I (OpSz_16 OR OpSz_32) (ImmSz_16 OR ImmSz_32) h_DecodeOpEn_I,
    row_prefix 0x36,
    (if x64 then row_invalid 0x37 else row_ZO 0x37),
    entry 0x38 2 OpEn_MR OpSz_8 ImmSz_0 h_DecodeOpEn_MR,
    entry 0x39 2 OpEn_MR (OpSz_16 OR OpSz_32) ImmSz_0 h_DecodeOpEn_MR,
    entry 0x3A 2 OpEn_RM OpSz_8 ImmSz_0 h_DecodeOpEn_RM,
    entry 0x3B 2 OpEn_RM (OpSz_16 OR OpSz_32) ImmSz_0 h_DecodeOpEn_RM,
    entry 0x3C 1 OpEn_I OpSz_0 ImmSz_8 h_DecodeOpEn_I,
    entry 0x3D 1 OpEn_I (OpSz_16 OR OpSz_32) (ImmSz_16 OR ImmSz_32) h_DecodeOpEn_I,
    row_prefix 0x3E,
    (if x64 then row_invalid 0x3F else row_ZO 0x3F)]"

definition OpcodeDecodeTable_40 :: "bool \<Rightarrow> OpcodeDecodeItem list" where
  "OpcodeDecodeTable_40 x64 =
   [(if x64 then row_REX 0x40 else row_O 0x40),
    (if x64 then row_REX 0x41 else row_O 0x41),
    (if x64 then row_REX 0x42 else row_O 0x42),
    (if x64 then row_REX 0x43 else row_O 0x43),
    (if x64 then row_REX 0x44 else row_O 0x44),
    (if x64 then row_REX 0x45 else row_O 0x45),
    (if x64 then row_REX 0x46 else row_O 0x46),
    (if x64 then row_REX 0x47 else row_O 0x47),
    (if x64 then row_REX 0x48 else row_O 0x48),
    (if x64 then row_REX 0x49 else row_O 0x49),
    (if x64 then row_REX 0x4A else row_O 0x4A),
    (if x64 then row_REX 0x4B else row_O 0x4B),
    (if x64 then row_REX 0x4C else row_O 0x4C),
    (if x64 then row_REX 0x4D else row_O 0x4D),
    (if x64 then row_REX 0x4E else row_O 0x4E),
    (if x64 then row_REX 0x4F else row_O 0x4F),
    row_O 0x50,
    row_O 0x51,
    row_O 0x52,
    row_O 0x53,
    row_O 0x54,
    row_O 0x55,
    row_O 0x56,
    row_O 0x57,
    row_O 0x58,
    row_O 0x59,
    row_O 0x5A,
    row_O 0x5B,
    row_O 0x5C,
    row_O 0x5D,
    row_O 0x5E,
    row_O 0x5F,
    (if x64 then row_invalid 0x60 else row_ZO 0x60),
    (if x64 then row_invalid 0x61 else row_ZO 0x61),
    (if x64 then row_invalid 0x62 else entry 0x62 2 OpEn_RM (OpSz_16 OR OpSz_32) ImmSz_0 h_DecodeOpEn_RM),
    entry 0x63 2 OpEn_RM (OpSz_16 OR OpSz_32) ImmSz_0 h_DecodeOpEn_RM,
    row_prefix 0x64,
    row_prefix 0x65,
    row_66 0x66,
    row_prefix 0x67,
    entry 0x68 1 OpEn_I (OpSz_16 OR OpSz_32) (ImmSz_16 OR ImmSz_32) h_DecodeOpEn_I,
    entry 0x69 2 OpEn_RMI (OpSz_16 OR OpSz_32) (ImmSz_16 OR ImmSz_32) h_DecodeOpEn_RMI,
    entry 0x6A 1 OpEn_I OpSz_0 ImmSz_8 h_DecodeOpEn_I,
    entry 0x6B 1 OpEn_RMI (OpSz_16 OR OpSz_32) ImmSz_8 h_DecodeOpEn_RMI,
    row_ZO 0x6C,
    row_ZO 0x6D,
    row_ZO 0x6E,
    row_ZO 0x6F,
    entry 0x70 1 OpEn_D OpSz_0 ImmSz_8 h_DecodeOpEn_D,
    entry 0x71 1 OpEn_D OpSz_0 ImmSz_8 h_DecodeOpEn_D,
    entry 0x72 1 OpEn_D OpSz_0 ImmSz_8 h_DecodeOpEn_D,
    entry 0x73 1 OpEn_D OpSz_0 ImmSz_8 h_DecodeOpEn_D,
    entry 0x74 1 OpEn_D OpSz_0 ImmSz_8 h_DecodeOpEn_D,
    entry 0x75 1 OpEn_D OpSz_0 ImmSz_8 h_DecodeOpEn_D,
    entry 0x76 1 OpEn_D OpSz_0 ImmSz_8 h_DecodeOpEn_D,
    entry 0x77 1 OpEn_D OpSz_0 ImmSz_8 h_DecodeOpEn_D,
    entry 0x78 1 OpEn_D OpSz_0 ImmSz_8 h_DecodeOpEn_D,
    entry 0x79 1 OpEn_D OpSz_0 ImmSz_8 h_DecodeOpEn_D,
    entry 0x7A 1 OpEn_D OpSz_0 ImmSz_8 h_DecodeOpEn_D,
    entry 0x7B 1 OpEn_D OpSz_0 ImmSz_8 h_DecodeOpEn_D,
    entry 0x7C 1 OpEn_D OpSz_0 ImmSz_8 h_DecodeOpEn_D,
    entry 0x7D 1 OpEn_D OpSz_0 ImmSz_8 h_DecodeOpEn_D,
    entry 0x7E 1 OpEn_D OpSz_0 ImmSz_8 h_DecodeOpEn_D,
    entry 0x7F 1 OpEn_D OpSz_0 ImmSz_8 h_DecodeOpEn_D]"

definition OpcodeDecodeTable_80 :: "bool \<Rightarrow> OpcodeDecodeItem list" where
  "OpcodeDecodeTable_80 x64 =
   [entry 0x80 2 OpEn_MI OpSz_8 ImmSz_8 h_DecodeOpEn_MI,
    entry 0x81 2 OpEn_MI (OpSz_16 OR OpSz_32) (ImmSz_16 OR ImmSz_32) h_DecodeOpEn_MI,
    (if x64 then row_invalid 0x82 else row_unknown 0x82),
    entry 0x83 2 OpEn_MI (OpSz_16 OR OpSz_32) ImmSz_8 h_DecodeOpEn_MI,
    entry 0x84 2 OpEn_MR OpSz_8 ImmSz_0 h_DecodeOpEn_MR,
    entry 0x85 2 OpEn_MR (OpSz_16 OR OpSz_32) ImmSz_0 h_DecodeOpEn_MR,
    entry 0x86 2 OpEn_RM (OpSz_16 OR OpSz_32) ImmSz_0 h_DecodeOpEn_RM,
    entry 0x87 2 OpEn_RM (OpSz_16 OR OpSz_32) ImmSz_0 h_DecodeOpEn_RM,
    entry 0x88 2 OpEn_MR OpSz_8 ImmSz_0 h_DecodeOpEn_MR,
    entry 0x89 2 OpEn_MR (OpSz_16 OR OpSz_32) ImmSz_0 h_DecodeOpEn_MR,
    entry 0x8A 2 OpEn_RM (OpSz_16 OR OpSz_32) ImmSz_0 h_DecodeOpEn_RM,
    entry 0x8B 2 OpEn_RM (OpSz_16 OR OpSz_32) ImmSz_0 h_DecodeOpEn_RM,
    entry 0x8C 2 OpEn_MR (OpSz_16 OR OpSz_32) ImmSz_0 h_DecodeOpEn_MR,
    entry 0x8D 2 OpEn_RM (OpSz_16 OR OpSz_32) ImmSz_0 h_DecodeOpEn_RM,
    entry 0x8E 2 OpEn_RM (OpSz_16 OR OpSz_32) ImmSz_0 h_DecodeOpEn_RM,
    entry 0x8F 2 OpEn_M (OpSz_16 OR OpSz_32) ImmSz_0 h_DecodeOpEn_M,
    row_ZO 0x90,
    row_invalid 0x91,
    row_invalid 0x92,
    row_invalid 0x93,
    row_invalid 0x94,
    row_invalid 0x95,
    row_invalid 0x96,
    row_invalid 0x97,
    row_ZO 0x98,
    row_ZO 0x99,
    (if x64 then row_invalid 0x9A else row_ZO 0x9A),
    row_ZO 0x9B,
    row_ZO 0x9C,
    row_ZO 0x9D,
    row_ZO 0x9E,
    row_ZO 0x9F,
    row_unknown 0xA0,
    row_unknown 0xA1,
    row_unknown 0xA2,
    row_unknown 0xA3,
    row_ZO 0xA4,
    row_ZO 0xA5,
    row_ZO 0xA6,
    row_ZO 0xA7,
    entry 0xA8 1 OpEn_I OpSz_0 ImmSz_8 h_DecodeOpEn_I,
    entry 0xA9 1 OpEn_I (OpSz_16 OR OpSz_32) (ImmSz_16 OR ImmSz_32) h_DecodeOpEn_I,
    row_ZO 0xAA,
    row_ZO 0xAB,
    row_ZO 0xAC,
    row_ZO 0xAD,
    row_ZO 0xAE,
    row_ZO 0xAF,
    entry 0xB0 1 OpEn_OI OpSz_0 ImmSz_8 h_DecodeOpEn_OI,
    entry 0xB1 1 OpEn_OI OpSz_0 ImmSz_8 h_DecodeOpEn_OI,
    entry 0xB2 1 OpEn_OI OpSz_0 ImmSz_8 h_DecodeOpEn_OI,
    entry 0xB3 1 OpEn_OI OpSz_0 ImmSz_8 h_DecodeOpEn_OI,
    entry 0xB4 1 OpEn_OI OpSz_0 ImmSz_8 h_DecodeOpEn_OI,
    entry 0xB5 1 OpEn_OI OpSz_0 ImmSz_8 h_DecodeOpEn_OI,
    entry 0xB6 1 OpEn_OI OpSz_0 ImmSz_8 h_DecodeOpEn_OI,
    entry 0xB7 1 OpEn_OI OpSz_0 ImmSz_8 h_DecodeOpEn_OI,
    entry 0xB8 1 OpEn_OI (OpSz_16 OR OpSz_32) (ImmSz_16 OR ImmSz_32) h_DecodeOpEn_OI,
    entry 0xB9 1 OpEn_OI (OpSz_16 OR OpSz_32) (ImmSz_16 OR ImmSz_32) h_DecodeOpEn_OI,
    entry 0xBA 1 OpEn_OI (OpSz_16 OR OpSz_32) (ImmSz_16 OR ImmSz_32) h_DecodeOpEn_OI,
    entry 0xBB 1 OpEn_OI (OpSz_16 OR OpSz_32) (ImmSz_16 OR ImmSz_32) h_DecodeOpEn_OI,
    entry 0xBC 1 OpEn_OI (OpSz_16 OR OpSz_32) (ImmSz_16 OR ImmSz_32) h_DecodeOpEn_OI,
    entry 0xBD 1 OpEn_OI (OpSz_16 OR OpSz_32) (ImmSz_16 OR ImmSz_32) h_DecodeOpEn_OI,
    entry 0xBE 1 OpEn_OI (OpSz_16 OR OpSz_32) (ImmSz_16 OR ImmSz_32) h_DecodeOpEn_OI,
    entry 0xBF 1 OpEn_OI (OpSz_16 OR OpSz_32) (ImmSz_16 OR ImmSz_32) h_DecodeOpEn_OI]"

definition OpcodeDecodeTable_C0 :: "bool \<Rightarrow> OpcodeDecodeItem list" where
  "OpcodeDecodeTable_C0 x64 =
   [entry 0xC0 2 OpEn_MI OpSz_8 ImmSz_8 h_DecodeOpEn_MI,
    entry 0xC1 2 OpEn_MI (OpSz_16 OR OpSz_32) (ImmSz_16 OR ImmSz_32) h_DecodeOpEn_MI,
    entry 0xC2 1 OpEn_I OpSz_0 ImmSz_16 h_DecodeOpEn_I,
    row_ZO 0xC3,
    row_invalid 0xC4,
    row_invalid 0xC5,
    row_unknown 0xC6,
    entry 0xC7 2 OpEn_MI (OpSz_16 OR OpSz_32) (ImmSz_16 OR ImmSz_32) h_DecodeOpEn_MI,
    row_C8 0xC8,
    row_ZO 0xC9,
    entry 0xCA 1 OpEn_I OpSz_0 ImmSz_16 h_DecodeOpEn_I,
    row_ZO 0xCB,
    row_ZO 0xCC,
    entry 0xCD 1 OpEn_I OpSz_0 ImmSz_8 h_DecodeOpEn_I,
    (if x64 then row_invalid 0xCE else row_ZO 0xCE),
    row_ZO 0xCF,
    entry 0xD0 1 OpEn_M1 OpSz_8 ImmSz_0 h_DecodeOpEn_M1,
    entry 0xD1 1 OpEn_M1 (OpSz_16 OR OpSz_32) ImmSz_0 h_DecodeOpEn_M1,
    entry 0xD2 1 OpEn_MC OpSz_8 ImmSz_0 h_DecodeOpEn_MC,
    entry 0xD3 1 OpEn_MC (OpSz_16 OR OpSz_32) ImmSz_0 h_DecodeOpEn_MC,
    (if x64 then row_invalid 0xD4 else entry 0xD4 1 OpEn_I OpSz_0 ImmSz_8 h_DecodeOpEn_I),
    (if x64 then row_invalid 0xD5 else entry 0xD5 1 OpEn_I OpSz_0 ImmSz_8 h_DecodeOpEn_I),
    row_invalid 0xD6,
    row_ZO 0xD7,
    row_unknown 0xD8,
    row_unknown 0xD9,
    row_unknown 0xDA,
    row_unknown 0xDB,
    row_unknown 0xDC,
    row_unknown 0xDD,
    row_unknown 0xDE,
    row_unknown 0xDF,
    entry 0xE0 1 OpEn_D OpSz_0 ImmSz_8 h_DecodeOpEn_D,
    entry 0xE1 1 OpEn_D OpSz_0 ImmSz_8 h_DecodeOpEn_D,
    entry 0xE2 1 OpEn_D OpSz_0 ImmSz_8 h_DecodeOpEn_D,
    entry 0xE3 1 OpEn_D OpSz_0 ImmSz_8 h_DecodeOpEn_D,
    entry 0xE4 1 OpEn_I OpSz_0 ImmSz_8 h_DecodeOpEn_I,
    entry 0xE5 1 OpEn_I OpSz_0 ImmSz_8 h_DecodeOpEn_I,
    entry 0xE6 1 OpEn_I OpSz_0 ImmSz_8 h_DecodeOpEn_I,
    entry 0xE7 1 OpEn_I OpSz_0 ImmSz_8 h_DecodeOpEn_I,
    entry 0xE8 1 OpEn_I (OpSz_16 OR OpSz_32) (ImmSz_16 OR ImmSz_32) h_DecodeOpEn_I,
    entry 0xE9 1 OpEn_I (OpSz_16 OR OpSz_32) (ImmSz_16 OR ImmSz_32) h_DecodeOpEn_I,
    (if x64 then row_invalid 0xEA else row_unknown 0xEA),
    entry 0xEB 1 OpEn_I OpSz_0 ImmSz_8 h_DecodeOpEn_I,
    row_ZO 0xEC,
    row_ZO 0xED,
    row_ZO 0xEE,
    row_ZO 0xEF,
    row_prefix 0xF0,
    row_ZO 0xF1,
    row_ZO 0xF2,
    row_ZO 0xF3,
    row_ZO 0xF4,
    row_ZO 0xF5,
    entry 0xF6 2 OpEn_MI OpSz_8 ImmSz_8 h_DecodeOpEn_MI,
    entry 0xF7 2 OpEn_MI (OpSz_16 OR OpSz_32) (ImmSz_16 OR ImmSz_32) h_DecodeOpEn_MI,
    row_ZO 0xF8,
    row_ZO 0xF9,
    row_ZO 0xFA,
    row_ZO 0xFB,
    row_ZO 0xFC,
    row_ZO 0xFD,
    entry 0xFE 2 OpEn_M OpSz_8 ImmSz_0 h_DecodeOpEn_M,
    entry 0xFF 2 OpEn_M (OpSz_16 OR OpSz_32) ImmSz_0 h_DecodeOpEn_M]"

definition OpcodeDecodeTable :: "bool \<Rightarrow> OpcodeDecodeItem list" where
  "OpcodeDecodeTable x64 =
     OpcodeDecodeTable_00 x64 @ OpcodeDecodeTable_40 x64 @ OpcodeDecodeTable_80 x64 @ OpcodeDecodeTable_C0 x64"

definition decode_item :: "bool \<Rightarrow> u8 \<Rightarrow> OpcodeDecodeItem" where
  "decode_item x64 b = OpcodeDecodeTable x64 ! unat b"

section \<open>The handlers\<close>

definition ModRM_Mod :: "u8 \<Rightarrow> u8" where
  "ModRM_Mod b = drop_bit 6 (b AND 0xC0)"

definition ModRM_RegOpcode :: "u8 \<Rightarrow> u8" where
  "ModRM_RegOpcode b = drop_bit 3 (b AND 0x38)"

definition ModRM_RM :: "u8 \<Rightarrow> u8" where
  "ModRM_RM b = b AND 7"

definition DecodeREXPrefix :: "(u64 \<Rightarrow> u8) \<Rightarrow> InstrMnemonic \<Rightarrow> u64 \<Rightarrow> InstrMnemonic" where
  "DecodeREXPrefix mem i p = i\<lparr>instr := (instr i)\<lparr>REX := mem p\<rparr>, len := len i + 1, OperandSz := OpSz_64\<rparr>"

definition DecodeLegacyPrefix :: "(u64 \<Rightarrow> u8) \<Rightarrow> InstrMnemonic \<Rightarrow> u64 \<Rightarrow> InstrMnemonic" where
  "DecodeLegacyPrefix mem i p = i\<lparr>instr := (instr i)\<lparr>prefix := mem p\<rparr>, len := len i + 1\<rparr>"

definition DecodePrefix_66 :: "(u64 \<Rightarrow> u8) \<Rightarrow> InstrMnemonic \<Rightarrow> u64 \<Rightarrow> InstrMnemonic" where
  "DecodePrefix_66 mem i p = DecodeLegacyPrefix mem (i\<lparr>OperandSz := OpSz_16\<rparr>) p"

definition DecodeOp :: "(u64 \<Rightarrow> u8) \<Rightarrow> InstrMnemonic \<Rightarrow> u64 \<Rightarrow> InstrMnemonic" where
  "DecodeOp mem i p = i\<lparr>instr := (instr i)\<lparr>opcode1 := mem p\<rparr>, len := len i + 1\<rparr>"

definition DecodeOpExtraOp :: "(u64 \<Rightarrow> u8) \<Rightarrow> InstrMnemonic \<Rightarrow> u64 \<Rightarrow> InstrMnemonic" where
  "DecodeOpExtraOp mem i p = DecodeOp mem i p"

definition DecodeOpWithReg :: "(u64 \<Rightarrow> u8) \<Rightarrow> InstrMnemonic \<Rightarrow> u64 \<Rightarrow> InstrMnemonic" where
  "DecodeOpWithReg mem i p = DecodeOp mem i p"

definition DecodeDisplacement8 :: "(u64 \<Rightarrow> u8) \<Rightarrow> InstrMnemonic \<Rightarrow> u64 \<Rightarrow> InstrMnemonic" where
  "DecodeDisplacement8 mem i p =
     i\<lparr>instr := (instr i)\<lparr>Displacement := (Displacement (instr i))[0 := mem p]\<rparr>, len := len i + 1\<rparr>"

definition DecodeDisplacement32 :: "(u64 \<Rightarrow> u8) \<Rightarrow> InstrMnemonic \<Rightarrow> u64 \<Rightarrow> InstrMnemonic" where
  "DecodeDisplacement32 mem i p =
     i\<lparr>instr := (instr i)\<lparr>DisplacementOffset := len i, Displacement := le_bytes 4 (ucast (mem p) :: u32)\<rparr>,
       len := len i + 4\<rparr>"

definition DecodeSIB :: "(u64 \<Rightarrow> u8) \<Rightarrow> InstrMnemonic \<Rightarrow> u64 \<Rightarrow> InstrMnemonic" where
  "DecodeSIB mem i p = i\<lparr>instr := (instr i)\<lparr>SIB := mem p\<rparr>, len := len i + 1\<rparr>"

definition DecodeModRM :: "bool \<Rightarrow> (u64 \<Rightarrow> u8) \<Rightarrow> InstrMnemonic \<Rightarrow> u64 \<Rightarrow> InstrMnemonic" where
  "DecodeModRM x64 mem i p =
     (let init_len = len i;
          i = i\<lparr>instr := (instr i)\<lparr>ModRM := mem p\<rparr>, len := len i + 1\<rparr>;
          Mod = ModRM_Mod (mem p);
          RM = ModRM_RM (mem p);
          at = (\<lambda>i. p + of_nat (len i - init_len))
      in if x64 \<and> Mod = 0 \<and> RM = 5 then DecodeDisplacement32 mem (i\<lparr>flag := flag i OR kIPRelativeAddress\<rparr>) (at i)
         else let i = (if Mod \<noteq> 3 \<and> RM = 4 then DecodeSIB mem i (at i) else i)
              in if Mod = 0 \<and> RM = 5 then DecodeDisplacement32 mem i (at i)
                 else if Mod = 1 then DecodeDisplacement8 mem i (at i)
                 else if Mod = 2 then DecodeDisplacement32 mem i (at i)
                 else i)"

definition DecodeImmedite :: "bool \<Rightarrow> (u64 \<Rightarrow> u8) \<Rightarrow> InstrMnemonic \<Rightarrow> u64 \<Rightarrow> nat \<Rightarrow> InstrMnemonic" where
  "DecodeImmedite x64 mem i p sz =
     (let i = i\<lparr>instr := (instr i)\<lparr>ImmediateOffset := len i\<rparr>\<rparr>;
          item = decode_item x64 (opcode1 (instr i));
          sz = (if sz = ImmSz_0 then
                  (if item_ImmediteSz item = (ImmSz_16 OR ImmSz_32) then
                     (if prefix (instr i) = 0x66 then ImmSz_16 else ImmSz_32)
                   else item_ImmediteSz item)
                else sz)
      in if sz = ImmSz_8 then i\<lparr>instr := (instr i)\<lparr>Immediate := poke 0 [mem p] (Immediate (instr i))\<rparr>, len := len i + 1\<rparr>
         else if sz = ImmSz_16 then
           i\<lparr>instr := (instr i)\<lparr>Immediate := poke 0 [mem p, mem (p + 1)] (Immediate (instr i))\<rparr>, len := len i + 2\<rparr>
         else if sz = ImmSz_32 then
           i\<lparr>instr := (instr i)\<lparr>Immediate := poke 0 [mem p, mem (p + 1), mem (p + 2), mem (p + 3)] (Immediate (instr i))\<rparr>,
             len := len i + 4\<rparr>
         else i)"

definition DecodeOpEn_ZO :: "(u64 \<Rightarrow> u8) \<Rightarrow> InstrMnemonic \<Rightarrow> u64 \<Rightarrow> InstrMnemonic" where
  "DecodeOpEn_ZO mem i p = DecodeOp mem i p"

definition DecodeOpEn_O :: "(u64 \<Rightarrow> u8) \<Rightarrow> InstrMnemonic \<Rightarrow> u64 \<Rightarrow> InstrMnemonic" where
  "DecodeOpEn_O mem i p = DecodeOpWithReg mem i p"

definition DecodeOpEn_M :: "bool \<Rightarrow> (u64 \<Rightarrow> u8) \<Rightarrow> InstrMnemonic \<Rightarrow> u64 \<Rightarrow> InstrMnemonic" where
  "DecodeOpEn_M x64 mem i p = DecodeModRM x64 mem (DecodeOp mem i p) (p + 1)"

definition DecodeOpEn_I :: "bool \<Rightarrow> (u64 \<Rightarrow> u8) \<Rightarrow> InstrMnemonic \<Rightarrow> u64 \<Rightarrow> InstrMnemonic" where
  "DecodeOpEn_I x64 mem i p = (let i = DecodeOp mem i p in DecodeImmedite x64 mem i (p + 1) (ImmediteSz i))"

definition DecodeOpEn_OI :: "bool \<Rightarrow> (u64 \<Rightarrow> u8) \<Rightarrow> InstrMnemonic \<Rightarrow> u64 \<Rightarrow> InstrMnemonic" where
  "DecodeOpEn_OI x64 mem i p = (let i = DecodeOpWithReg mem i p in DecodeImmedite x64 mem i (p + 1) (ImmediteSz i))"

definition DecodeOpEn_RMI :: "bool \<Rightarrow> (u64 \<Rightarrow> u8) \<Rightarrow> InstrMnemonic \<Rightarrow> u64 \<Rightarrow> InstrMnemonic" where
  "DecodeOpEn_RMI x64 mem i p =
     (let i = DecodeModRM x64 mem (DecodeOp mem i p) (p + 1) in DecodeImmedite x64 mem i (p + 2) (ImmediteSz i))"

definition DecodeOpEn_MI :: "bool \<Rightarrow> (u64 \<Rightarrow> u8) \<Rightarrow> InstrMnemonic \<Rightarrow> u64 \<Rightarrow> InstrMnemonic" where
  "DecodeOpEn_MI x64 mem i p =
     (let i = DecodeModRM x64 mem (DecodeOpExtraOp mem i p) (p + 1) in DecodeImmedite x64 mem i (p + 2) (ImmediteSz i))"

definition DecodeOpC8 :: "(u64 \<Rightarrow> u8) \<Rightarrow> InstrMnemonic \<Rightarrow> u64 \<Rightarrow> InstrMnemonic" where
  "DecodeOpC8 mem i p = (let i = DecodeOp mem i p in i\<lparr>len := len i + 2 + 1\<rparr>)"

text \<open>
  A call through the function pointer.  The handlers of the classes M, RM, MR, M1 and MC have the same
  body, and so have those of I and D.  A prefix handler answers the instruction to continue with.
\<close>

definition call_prefix :: "DecodeHandler_t \<Rightarrow> (u64 \<Rightarrow> u8) \<Rightarrow> InstrMnemonic \<Rightarrow> u64 \<Rightarrow> InstrMnemonic option" where
  "call_prefix h mem i p =
     (if h = h_DecodeREXPrefix then Some (DecodeREXPrefix mem i p)
      else if h = h_DecodeLegacyPrefix then Some (DecodeLegacyPrefix mem i p)
      else if h = h_DecodePrefix_66 then Some (DecodePrefix_66 mem i p)
      else None)"

primrec call_handler :: "DecodeHandler_t \<Rightarrow> bool \<Rightarrow> (u64 \<Rightarrow> u8) \<Rightarrow> InstrMnemonic \<Rightarrow> u64 \<Rightarrow> InstrMnemonic" where
  "call_handler h_UnknownOpHanlder x64 mem i p = i"
| "call_handler h_InValidOpHanlder x64 mem i p = i"
| "call_handler h_DecodeREXPrefix x64 mem i p = DecodeREXPrefix mem i p"
| "call_handler h_DecodeLegacyPrefix x64 mem i p = DecodeLegacyPrefix mem i p"
| "call_handler h_DecodePrefix_66 x64 mem i p = DecodePrefix_66 mem i p"
| "call_handler h_DecodeOpEn_ZO x64 mem i p = DecodeOpEn_ZO mem i p"
| "call_handler h_DecodeOpEn_O x64 mem i p = DecodeOpEn_O mem i p"
| "call_handler h_DecodeOpEn_M x64 mem i p = DecodeOpEn_M x64 mem i p"
| "call_handler h_DecodeOpEn_RM x64 mem i p = DecodeOpEn_M x64 mem i p"
| "call_handler h_DecodeOpEn_MR x64 mem i p = DecodeOpEn_M x64 mem i p"
| "call_handler h_DecodeOpEn_M1 x64 mem i p = DecodeOpEn_M x64 mem i p"
| "call_handler h_DecodeOpEn_MC x64 mem i p = DecodeOpEn_M x64 mem i p"
| "call_handler h_DecodeOpEn_I x64 mem i p = DecodeOpEn_I x64 mem i p"
| "call_handler h_DecodeOpEn_OI x64 mem i p = DecodeOpEn_OI x64 mem i p"
| "call_handler h_DecodeOpEn_D x64 mem i p = DecodeOpEn_I x64 mem i p"
| "call_handler h_DecodeOpEn_RMI x64 mem i p = DecodeOpEn_RMI x64 mem i p"
| "call_handler h_DecodeOpEn_MI x64 mem i p = DecodeOpEn_MI x64 mem i p"
| "call_handler h_DecodeOpC8 x64 mem i p = DecodeOpC8 mem i p"

partial_function (option) ContinueDispatch ::
    "bool \<Rightarrow> (u64 \<Rightarrow> u8) \<Rightarrow> InstrMnemonic \<Rightarrow> u64 \<Rightarrow> InstrMnemonic option" where
  [code]: "ContinueDispatch x64 mem i p =
     (let h = DecodeHandler (decode_item x64 (mem p))
      in case call_prefix h mem i p of Some i' \<Rightarrow> ContinueDispatch x64 mem i' (p + 1)
         | None \<Rightarrow> Some (call_handler h x64 mem i p))"


end
