(* ===== verification/Near_Arena.thy ===== *)
theory Near_Arena
  imports Memory_Arena
begin

text \<open>
  Memory near a given address: \<^verbatim>\<open>NearMemoryArena.cc\<close> of the near-branch plugin and the memory layout of
  \<^verbatim>\<open>UserMode/PlatformUtil/Linux/ProcesssRuntimeUtility.cc\<close>.  The entries of \<^verbatim>\<open>/proc/self/maps\<close>, as \<^verbatim>\<open>sscanf\<close> reads them,
  and the answers of \<^verbatim>\<open>OSMemory::Allocate\<close> are parameters, indexed by the number of the attempt, since the
  allocation jumps back to its search after every page it obtains; that loop is a partial function.
\<close>

section \<open>The memory layout of the process\<close>

record MemoryRegion =
  reg_address :: u64
  reg_length :: u64
  reg_permission :: MemoryPermission

record maps_entry =
  region_start :: u64
  region_end :: u64
  permissions :: string

definition region_permission :: "string \<Rightarrow> MemoryPermission" where
  "region_permission p =
     (if p ! 0 = CHR ''r'' \<and> p ! 1 = CHR ''w'' then kReadWrite
      else if p ! 0 = CHR ''r'' \<and> p ! 2 = CHR ''x'' then kReadExecute
      else if p ! 0 = CHR ''r'' \<and> p ! 1 = CHR ''w'' \<and> p ! 2 = CHR ''x'' then kReadWriteExecute
      else kNoAccess)"

definition region_of :: "maps_entry \<Rightarrow> MemoryRegion" where
  "region_of en = \<lparr>reg_address = region_start en, reg_length = region_end en - region_start en,
     reg_permission = region_permission (permissions en)\<rparr>"

text \<open>
  One element per turn of the loop that reads the file: what \<^verbatim>\<open>sscanf\<close> reads from the line, or \<open>None\<close> when it reads
  fewer than seven fields, which ends in \<^verbatim>\<open>FATAL\<close>.  The skipping of lines that are too long is part of the parameter.
\<close>

fun read_maps :: "maps_entry option list \<Rightarrow> MemoryRegion list \<Rightarrow> MemoryRegion list res" where
  "read_maps [] layout = Inr layout"
| "read_maps (None # lines) layout = Inl CheckFailed"
| "read_maps (Some en # lines) layout = read_maps lines (layout @ [region_of en])"

text \<open>The comparator orders by falling address; entries of the file have different addresses.\<close>

definition sort_layout :: "MemoryRegion list \<Rightarrow> MemoryRegion list" where
  "sort_layout layout = rev (sort_key (\<lambda>r. unat (reg_address r)) layout)"

text \<open>\<open>None\<close> stands for a file that cannot be opened.\<close>

definition GetProcessMemoryLayout :: "maps_entry option list option \<Rightarrow> MemoryRegion list res" where
  "GetProcessMemoryLayout maps =
     (case maps of None \<Rightarrow> Inr []
      | Some lines \<Rightarrow> res_bind (read_maps lines []) (\<lambda>layout. Inr (sort_layout layout)))"

section \<open>Searches\<close>

definition near_bounds :: "u64 \<Rightarrow> u64 \<Rightarrow> u32 \<Rightarrow> u64 \<times> u64" where
  "near_bounds page_size centre rng =
     (ALIGN_FLOOR (centre - scast rng) page_size + page_size, ALIGN_FLOOR (centre + scast rng) page_size - page_size)"

definition reg_end :: "MemoryRegion \<Rightarrow> u64" where
  "reg_end r = reg_address r + reg_length r"

fun near_page_loop :: "(u64 \<Rightarrow> u64) \<Rightarrow> u64 \<Rightarrow> u64 \<Rightarrow> MemoryRegion list \<Rightarrow> nat list \<Rightarrow> u64 \<Rightarrow> u64 res" where
  "near_page_loop alloc min_page max_page layout [] assume_page = Inr 0"
| "near_page_loop alloc min_page max_page layout (i # is) assume_page =
     (let region = layout ! i in
      if reg_end region < max_page \<and> min_page \<le> reg_address region then
        let prev_end = reg_end (layout ! (i - 1));
            special = assume_page = min_page \<and> i \<noteq> 0 \<and> prev_end < reg_address region;
            assume1 = (if special then (if prev_end < min_page then min_page else prev_end) else assume_page);
            near1 = (if special then alloc assume1 else 0)
        in if near1 \<noteq> 0 then Inr near1
           else if length layout \<le> i + 1 then Inl OutOfBounds
           else if reg_end region < reg_address (layout ! (i + 1)) then
             let near2 = alloc (reg_end region)
             in if near2 \<noteq> 0 then Inr near2
                else near_page_loop alloc min_page max_page layout is (reg_end region)
           else near_page_loop alloc min_page max_page layout is assume1
      else near_page_loop alloc min_page max_page layout is assume_page)"

definition search_near_blank_page :: "(u64 \<Rightarrow> u64) \<Rightarrow> u64 \<Rightarrow> u64 \<Rightarrow> u32 \<Rightarrow> MemoryRegion list \<Rightarrow> u64 res" where
  "search_near_blank_page alloc page_size centre rng layout =
     (let (min_page, max_page) = near_bounds page_size centre rng
      in near_page_loop alloc min_page max_page layout [0..<length layout] min_page)"

text \<open>\<^verbatim>\<open>memmem\<close> with a needle of zero bytes: the first place in the region that holds \<open>n\<close> of them.\<close>

definition memmem_zero :: "(u64 \<Rightarrow> u8) \<Rightarrow> MemoryRegion \<Rightarrow> nat \<Rightarrow> u64" where
  "memmem_zero mem r n =
     (case find (\<lambda>k. \<forall>j < n. mem (reg_address r + of_nat (k + j)) = 0) [0..<unat (reg_length r) + 1 - n] of
        None \<Rightarrow> 0 | Some k \<Rightarrow> reg_address r + of_nat k)"

text \<open>
  On ARM the needle is searched with three bytes more than were allocated for it: a read past its end.
\<close>

fun near_chunk_loop :: "bool \<Rightarrow> (u64 \<Rightarrow> u8) \<Rightarrow> u64 \<Rightarrow> u64 \<Rightarrow> nat \<Rightarrow> MemoryRegion list \<Rightarrow> u64 res" where
  "near_chunk_loop arm mem min_page max_page in_size [] = Inr 0"
| "near_chunk_loop arm mem min_page max_page in_size (region # regions) =
     (if (reg_permission region = kReadExecute \<or> reg_permission region = kRead)
         \<and> reg_end region \<le> max_page \<and> min_page \<le> reg_address region then
        if arm then Inl OutOfBounds
        else let blank = memmem_zero mem region in_size
             in if blank \<noteq> 0 then Inr blank else near_chunk_loop arm mem min_page max_page in_size regions
      else near_chunk_loop arm mem min_page max_page in_size regions)"

definition search_near_blank_memory_chunk ::
    "bool \<Rightarrow> (u64 \<Rightarrow> u8) \<Rightarrow> u64 \<Rightarrow> u64 \<Rightarrow> u32 \<Rightarrow> nat \<Rightarrow> MemoryRegion list \<Rightarrow> u64 res" where
  "search_near_blank_memory_chunk arm mem page_size centre rng in_size layout =
     (let (min_page, max_page) = near_bounds page_size centre rng
      in near_chunk_loop arm mem min_page max_page in_size layout)"

section \<open>Allocation\<close>

definition PushPage :: "nat \<Rightarrow> u64 \<Rightarrow> MemoryPermission \<Rightarrow> PageChunk LiteMutableArray \<Rightarrow> PageChunk LiteMutableArray" where
  "PushPage page_size page_addr perm pages = snd (pushObject (new_page page_addr page_size perm) pages)"

definition near_llabs :: "u64 \<Rightarrow> u64" where
  "near_llabs x = (if sint x < 0 then - x else x)"

definition near_page_fits :: "u64 \<Rightarrow> u64 \<Rightarrow> nat \<Rightarrow> MemoryPermission \<Rightarrow> PageChunk \<Rightarrow> bool" where
  "near_page_fits position rng inSize perm p \<longleftrightarrow>
     permission p = perm \<and> near_llabs (page_cursor p - position) < rng
     \<and> page_cursor p + of_nat inSize < mr_address (page p) + mr_length (page p)"

record near_env =
  ne_arm :: bool
  ne_alloc :: "nat \<Rightarrow> u64 \<Rightarrow> u64"
  ne_layout :: "nat \<Rightarrow> MemoryRegion list"
  ne_mem :: "u64 \<Rightarrow> u8"
  ne_page_size :: nat

partial_function (option) near_alloc ::
    "near_env \<Rightarrow> u64 \<Rightarrow> u64 \<Rightarrow> nat \<Rightarrow> MemoryPermission \<Rightarrow> nat \<Rightarrow> PageChunk LiteMutableArray
      \<Rightarrow> (MemoryRange option \<times> PageChunk LiteMutableArray) res option" where
  [code]: "near_alloc env position rng inSize perm n pages =
     (case find_page (near_page_fits position rng inSize perm) 0 pages of
        Some i \<Rightarrow>
          (case array pages ! i of
             None \<Rightarrow> Some (Inl NullPointer)
           | Some p \<Rightarrow> let (chunk, p') = take_chunk inSize p
                       in Some (Inr (Some chunk, pages\<lparr>array := (array pages)[i := Some p']\<rparr>)))
      | None \<Rightarrow>
          (case search_near_blank_page (ne_alloc env n) (of_nat (ne_page_size env)) position (ucast rng) (ne_layout env n) of
             Inl er \<Rightarrow> Some (Inl er)
           | Inr blank_page \<Rightarrow>
               if blank_page \<noteq> 0 then
                 near_alloc env position rng inSize perm (n + 1) (PushPage (ne_page_size env) blank_page kReadWrite pages)
               else
                 (case search_near_blank_memory_chunk (ne_arm env) (ne_mem env) (of_nat (ne_page_size env)) position
                         (ucast rng) inSize (ne_layout env n) of
                    Inl er \<Rightarrow> Some (Inl er)
                  | Inr blank_chunk \<Rightarrow>
                      if blank_chunk \<noteq> 0
                      then Some (Inr (Some \<lparr>mr_address = blank_chunk, mr_length = of_nat inSize\<rparr>, pages))
                      else Some (Inr (None, pages)))))"

definition near_AllocateChunk ::
    "near_env \<Rightarrow> u64 \<Rightarrow> u64 \<Rightarrow> nat \<Rightarrow> MemoryPermission \<Rightarrow> arena
      \<Rightarrow> (MemoryRange option \<times> PageChunk LiteMutableArray) res option" where
  "near_AllocateChunk env position rng inSize perm arena =
     near_alloc env position rng inSize perm 0 (case arena of None \<Rightarrow> arr_initWithCapacity 1 | Some pages \<Rightarrow> pages)"

definition near_AllocateDataChunk ::
    "near_env \<Rightarrow> u64 \<Rightarrow> u64 \<Rightarrow> nat \<Rightarrow> arena \<Rightarrow> (MemoryRange option \<times> PageChunk LiteMutableArray) res option" where
  "near_AllocateDataChunk env position rng inSize = near_AllocateChunk env position rng inSize kReadWrite"

definition near_AllocateCodeChunk ::
    "near_env \<Rightarrow> u64 \<Rightarrow> u64 \<Rightarrow> nat \<Rightarrow> arena \<Rightarrow> (MemoryRange option \<times> PageChunk LiteMutableArray) res option" where
  "near_AllocateCodeChunk env position rng inSize = near_AllocateChunk env position rng inSize kReadWrite"

section \<open>A range of two gigabytes\<close>

text \<open>
  The range is passed as an \<^verbatim>\<open>int\<close>: two gigabytes become \<open>- 2 ^ 31\<close>, and the bounds of the search change places.
\<close>

lemma bounds_swapped:
  assumes "near_bounds (2 ^ k) p 0x80000000 = (lo, hi)" "k < 20" "0x100000000 \<le> p" "p < 0x7FFFFFFFFFFF"
  shows "hi < lo"
proof -
  have p: "0x100000000 \<le> unat p" "unat p < 0x7FFFFFFFFFFF"
    using assms(3,4) by (simp_all add: word_le_nat_alt word_less_nat_alt)
  have "scast (0x80000000 :: u32) = (- 0x80000000 :: u64)" by code_simp
  then have lo: "lo = ALIGN_FLOOR (p + 0x80000000) (2 ^ k) + 2 ^ k" and hi: "hi = ALIGN_FLOOR (p - 0x80000000) (2 ^ k) - 2 ^ k"
    using assms(1) by (simp_all add: near_bounds_def)
  have "2 ^ k < (2 ^ 20 :: nat)" using assms(2) by (intro power_strict_increasing) simp_all
  then have k: "2 ^ k < (0x100000 :: nat)" by simp
  have up: "unat (p + 0x80000000) = unat p + 0x80000000" using unat_add_small [of p "0x80000000"] p(2) by simp
  have "p = (p - 0x80000000) + of_nat 0x80000000" by simp
  moreover have "unat (p - 0x80000000) = unat p - 0x80000000" using p by (subst unat_sub) (simp_all add: word_le_nat_alt)
  ultimately have down: "unat (p - 0x80000000) = unat p - 0x80000000" by simp
  have fl: "unat (ALIGN_FLOOR x (2 ^ k)) = unat x div 2 ^ k * 2 ^ k" for x :: u64
    using assms(2) by (intro unat_ALIGN_FLOOR) simp
  have pk: "unat (2 ^ k :: u64) = 2 ^ k" using assms(2) by (intro unat_two_power) simp
  have "(unat p + 0x80000000) div 2 ^ k * 2 ^ k + 2 ^ k < 0x10000000000000000"
    using div_times_less_eq_dividend [of "unat p + 0x80000000" "2 ^ k"] p(2) k by linarith
  then have l: "unat lo = (unat p + 0x80000000) div 2 ^ k * 2 ^ k + 2 ^ k"
    using unat_add_small [of "ALIGN_FLOOR (p + 0x80000000) (2 ^ k)" "2 ^ k"] by (simp add: lo fl up)
  have "unat p + 0x80000000 < 2 ^ k + (unat p + 0x80000000) div 2 ^ k * 2 ^ k" by (rule dividend_less_div_times) simp
  then have "unat p + 0x80000000 < unat lo" unfolding l by simp
  moreover have "unat hi \<le> unat p"
  proof -
    have f: "unat (ALIGN_FLOOR (p - 0x80000000) (2 ^ k)) = (unat p - 0x80000000) div 2 ^ k * 2 ^ k" unfolding fl down ..
    have "unat p - 0x80000000 < 2 ^ k + (unat p - 0x80000000) div 2 ^ k * 2 ^ k" by (rule dividend_less_div_times) simp
    then have "2 ^ k \<le> unat (ALIGN_FLOOR (p - 0x80000000) (2 ^ k))" using p(1) k unfolding f by linarith
    then have "unat hi = unat (ALIGN_FLOOR (p - 0x80000000) (2 ^ k)) - 2 ^ k"
      unfolding hi by (subst unat_sub) (simp_all add: word_le_nat_alt pk)
    then show ?thesis using f div_times_less_eq_dividend [of "unat p - 0x80000000" "2 ^ k"] by linarith
  qed
  ultimately show ?thesis by (simp add: word_less_nat_alt)
qed

text \<open>A region that wraps around the end of the address space does not occur.\<close>

definition region_wf :: "MemoryRegion \<Rightarrow> bool" where
  "region_wf r \<longleftrightarrow> unat (reg_address r) + unat (reg_length r) < 2 ^ 64"

lemma region_wf_end: "region_wf r \<Longrightarrow> unat (reg_end r) = unat (reg_address r) + unat (reg_length r)"
  using unat_add_small [of "reg_address r" "unat (reg_length r)"] by (simp add: region_wf_def reg_end_def)

lemma near_page_loop_none:
  assumes "\<forall>i \<in> set is. \<not> (reg_end (layout ! i) < hi \<and> lo \<le> reg_address (layout ! i))"
  shows "near_page_loop alloc lo hi layout is p = Inr 0"
  using assms by (induction "is" arbitrary: p) (auto simp: Let_def)

lemma near_chunk_loop_none:
  assumes "\<forall>r \<in> set layout. \<not> (reg_end r \<le> hi \<and> lo \<le> reg_address r)"
  shows "near_chunk_loop arm mem lo hi n layout = Inr 0"
  using assms by (induction layout) auto

text \<open>
  A request for a chunk within two gigabytes, the range the x64 trampolines ask for, is never
  served from new memory: whatever the layout of the process and whatever the system would allocate, it
  answers a null pointer unless a page obtained earlier has room.
\<close>

lemma near_alloc_2GB_fails:
  assumes "find_page (near_page_fits p 0x80000000 inSize perm) 0 pages = None"
    and "ne_page_size env = 2 ^ k" "k < 20" "0x100000000 \<le> p" "p < 0x7FFFFFFFFFFF"
    and "\<forall>r \<in> set (ne_layout env n). region_wf r"
  shows "near_alloc env p 0x80000000 inSize perm n pages = Some (Inr (None, pages))"
proof -
  obtain lo hi where b: "near_bounds (2 ^ k) p 0x80000000 = (lo, hi)" by fastforce
  have c: "hi < lo" by (rule bounds_swapped [OF b assms(3,4,5)])
  have none: "\<not> (reg_end r \<le> hi \<and> lo \<le> reg_address r)" if "r \<in> set (ne_layout env n)" for r
    using c region_wf_end [of r] assms(6) that by (auto simp: word_le_nat_alt word_less_nat_alt)
  then have "near_page_loop (ne_alloc env n) lo hi (ne_layout env n) [0..<length (ne_layout env n)] lo = Inr 0"
    by (intro near_page_loop_none) (auto dest: less_imp_le)
  moreover have "near_chunk_loop (ne_arm env) (ne_mem env) lo hi inSize (ne_layout env n) = Inr 0"
    using none by (intro near_chunk_loop_none) blast
  ultimately show ?thesis
    by (subst near_alloc.simps)
      (simp add: assms(1,2) search_near_blank_page_def search_near_blank_memory_chunk_def b)
qed

section \<open>The order of the layout\<close>

text \<open>Regions of a layout that do not overlap, and a layout ordered by falling address.\<close>

definition layout_wf :: "MemoryRegion list \<Rightarrow> bool" where
  "layout_wf layout \<longleftrightarrow> (\<forall>r \<in> set layout. region_wf r \<and> reg_length r \<noteq> 0)
     \<and> (\<forall>i < length layout. \<forall>j < length layout. i \<noteq> j \<longrightarrow>
          reg_end (layout ! i) \<le> reg_address (layout ! j) \<or> reg_end (layout ! j) \<le> reg_address (layout ! i))"

lemma layout_falling:
  assumes "i < j" "j < length (sort_layout rs)"
  shows "reg_address (sort_layout rs ! j) \<le> reg_address (sort_layout rs ! i)"
proof -
  let ?f = "\<lambda>r. unat (reg_address r)" and ?l = "sort_key (\<lambda>r. unat (reg_address r)) rs"
  have "sorted (map ?f ?l)" by simp
  then have "map ?f ?l ! (length ?l - Suc j) \<le> map ?f ?l ! (length ?l - Suc i)"
    by (rule sorted_nth_mono) (use assms in \<open>simp_all add: sort_layout_def\<close>)
  with assms show ?thesis by (simp add: sort_layout_def rev_nth word_le_nat_alt)
qed

lemma near_page_loop_falling:
  assumes l: "layout = sort_layout rs" "layout_wf layout" and i: "\<forall>i \<in> set is. i < length layout"
  shows "near_page_loop alloc lo hi layout is p \<in> {Inr 0, Inl OutOfBounds}"
  using i
proof (induction "is" arbitrary: p)
  case Nil
  then show ?case by simp
next
  case (Cons i "is")
  have up: "reg_address r \<le> reg_end r" if "r \<in> set layout" for r
    using l(2) that region_wf_end [of r] by (simp add: layout_wf_def word_le_nat_alt)
  have i: "i < length layout" using Cons.prems by simp
  have "i \<noteq> 0 \<Longrightarrow> \<not> reg_end (layout ! (i - 1)) < reg_address (layout ! i)"
    using layout_falling [of "i - 1" i rs] up [of "layout ! (i - 1)"] i l(1) by (simp add: not_less)
  moreover have "\<not> length layout \<le> i + 1 \<Longrightarrow> \<not> reg_end (layout ! i) < reg_address (layout ! (i + 1))"
    using layout_falling [of i "i + 1" rs] up [of "layout ! i"] i l(1) by (simp add: not_less)
  ultimately show ?case using Cons by (auto simp: Let_def)
qed

text \<open>
  In a layout as \<open>GetProcessMemoryLayout\<close> orders it, by falling address, with regions that do not overlap,
  the search for a blank page finds none and allocates nothing: it either ends with 0 or reads the region
  after the last one.
\<close>

theorem near_page_never_found:
  assumes "GetProcessMemoryLayout maps = Inr layout" "layout_wf layout"
  shows "search_near_blank_page alloc page_size p rng layout \<in> {Inr 0, Inl OutOfBounds}"
proof -
  have "\<exists>rs. layout = sort_layout rs"
  proof (cases maps)
    case None
    then have "layout = sort_layout []" using assms(1) by (simp add: GetProcessMemoryLayout_def sort_layout_def)
    then show ?thesis ..
  next
    case (Some lines)
    then show ?thesis using assms(1) by (auto simp: GetProcessMemoryLayout_def res_bind_Inr_iff)
  qed
  then obtain rs where "layout = sort_layout rs" ..
  then show ?thesis using near_page_loop_falling [OF _ assms(2), of rs "[0..<length layout]" alloc]
    by (cases "near_bounds page_size p rng") (simp add: search_near_blank_page_def)
qed

text \<open>Two regions with a blank page between them, inside the bounds, and an allocator that would answer.\<close>

theorem near_page_never_found_witness:
  "\<exists>layout. GetProcessMemoryLayout (Some
     [Some \<lparr>region_start = 0x15000, region_end = 0x16000, permissions = ''r-xp''\<rparr>,
      Some \<lparr>region_start = 0x18000, region_end = 0x19000, permissions = ''r-xp''\<rparr>]) = Inr layout
   \<and> search_near_blank_page (\<lambda>a. a) 0x1000 0x20000 0x10000 layout \<in> {Inr 0, Inl OutOfBounds}"
proof -
  let ?l = "[\<lparr>reg_address = 0x18000, reg_length = 0x1000, reg_permission = kReadExecute\<rparr>,
      \<lparr>reg_address = 0x15000, reg_length = 0x1000, reg_permission = kReadExecute\<rparr>]"
  let ?f = "Some [Some \<lparr>region_start = 0x15000, region_end = 0x16000, permissions = ''r-xp''\<rparr>,
      Some \<lparr>region_start = 0x18000, region_end = 0x19000, permissions = ''r-xp''\<rparr>]"
  have l: "layout_wf ?l" by (auto simp: layout_wf_def region_wf_def reg_end_def less_Suc_eq)
  have f: "GetProcessMemoryLayout ?f = Inr ?l"
    by (simp add: GetProcessMemoryLayout_def sort_layout_def region_of_def region_permission_def)
  from near_page_never_found [OF f l] f show ?thesis by blast
qed

end
