(* ===== verification/Relocate_X64.thy ===== *)
theory Relocate_X64
  imports Asm_X64 X86_Decode Near_Arena
begin

text \<open>
  Relocation and trampolines for x64: \<^verbatim>\<open>InstructionRelocation/x64/X64InstructionRelocation.cc\<close>,
  \<^verbatim>\<open>InterceptRoutingTrampoline/x64/trampoline-x64.cc\<close> and \<^verbatim>\<open>ClosureTrampolineBridge/x64/X64AssemblyClosureTrampoline.cc\<close>.
  The bytes of the original code are the parameter \<open>mem\<close>.  The loop over the instructions advances by the
  decoded length, which may be 0; it is a partial function whose value is \<open>None\<close> when it does not end.
\<close>

unbundle bit_operations_syntax

section \<open>One instruction\<close>

definition fetch :: "(u64 \<Rightarrow> u8) \<Rightarrow> u64 \<Rightarrow> nat \<Rightarrow> u8 list" where
  "fetch mem p n = map (\<lambda>k. mem (p + of_nat k)) [0..<n]"

definition relo_jcc_x64 :: "u8 \<Rightarrow> InstrMnemonic \<Rightarrow> u64 \<Rightarrow> u64 \<Rightarrow> 'a AssemblerBase_scheme \<Rightarrow> 'a AssemblerBase_scheme" where
  "relo_jcc_x64 opc i orig_ip relo_ip a =
     (let orig_offset = ucast (Immediate (instr i) ! 0) :: u64;
          offset = ucast (orig_ip + orig_offset - relo_ip) :: u32
      in Emit_x64 offset (Emit1_x64 opc (Emit1_x64 0x0F a)))"

definition relo_jmp8_x64 :: "InstrMnemonic \<Rightarrow> u64 \<Rightarrow> u64 \<Rightarrow> 'a AssemblerBase_scheme \<Rightarrow> 'a AssemblerBase_scheme" where
  "relo_jmp8_x64 i orig_ip relo_ip a =
     (let orig_offset = ucast (Immediate (instr i) ! 0) :: u64;
          offset = ucast (orig_ip + orig_offset - relo_ip) :: u8
      in Emit_x64 (ucast offset) (Emit1_x64 0xE9 a))"

definition relo_rel32_x64 :: "InstrMnemonic \<Rightarrow> u64 \<Rightarrow> u64 \<Rightarrow> 'a AssemblerBase_scheme \<Rightarrow> 'a AssemblerBase_scheme" where
  "relo_rel32_x64 i orig_ip relo_ip a =
     (let orig_offset = scast (le_word (Immediate (instr i)) :: u32) :: u64;
          offset = ucast (orig_ip + orig_offset - relo_ip) :: u32
      in Emit_x64 offset (Emit1_x64 (opcode1 (instr i)) a))"

definition relo_ip_relative_x64 :: "(u64 \<Rightarrow> u8) \<Rightarrow> u64 \<Rightarrow> InstrMnemonic \<Rightarrow> u64 \<Rightarrow> u64 \<Rightarrow> 'a AssemblerBase_scheme
    \<Rightarrow> 'a AssemblerBase_scheme" where
  "relo_ip_relative_x64 mem p i orig_ip relo_ip a =
     (let n = DisplacementOffset (instr i);
          orig_disp = scast (le_word (fetch mem (p + of_nat n) 4) :: u32) :: u64;
          disp = ucast (orig_ip + orig_disp - relo_ip) :: u32
      in Emit_x64 disp (EmitBuffer_x64 (fetch mem p n) a))"

definition relo_one_x64 :: "(u64 \<Rightarrow> u8) \<Rightarrow> u64 \<Rightarrow> InstrMnemonic \<Rightarrow> u64 \<Rightarrow> u64 \<Rightarrow> 'a AssemblerBase_scheme
    \<Rightarrow> 'a AssemblerBase_scheme res" where
  "relo_one_x64 mem p i orig_ip relo_ip a =
     (let opc = opcode1 (instr i)
      in if 0x70 \<le> opc \<and> opc \<le> 0x7F then Inr (relo_jcc_x64 (mem p) i orig_ip relo_ip a)
         else if 0xE0 \<le> opc \<and> opc \<le> 0xE2 then Inl Unimplemented
         else if opc = 0xE3 then Inl Unimplemented
         else if opc = 0xEB then Inr (relo_jmp8_x64 i orig_ip relo_ip a)
         else if opc = 0xE8 \<or> opc = 0xE9 then Inr (relo_rel32_x64 i orig_ip relo_ip a)
         else if flag i AND kIPRelativeAddress \<noteq> 0 then Inr (relo_ip_relative_x64 mem p i orig_ip relo_ip a)
         else Inr (EmitBuffer_x64 (fetch mem p (len i)) a))"

section \<open>GenRelocateCode\<close>

text \<open>The relocated instruction pointer is always the start of the chunk plus what was emitted.\<close>

partial_function (option) relo_loop_x64 ::
    "(u64 \<Rightarrow> u8) \<Rightarrow> u64 \<Rightarrow> u64 \<Rightarrow> u64 \<Rightarrow> u64 \<Rightarrow> TurboAssembler_x64 \<Rightarrow> (u64 \<times> TurboAssembler_x64) res option" where
  [code]: "relo_loop_x64 mem stop relo_start p orig_ip a =
     (if p < stop then
        (case ContinueDispatch True mem zero_instr p of
           None \<Rightarrow> None
         | Some i \<Rightarrow>
             (case relo_one_x64 mem p i orig_ip (relo_start + of_nat (ip_offset a)) a of
                Inl er \<Rightarrow> Some (Inl er)
              | Inr a' \<Rightarrow> relo_loop_x64 mem stop relo_start (p + of_nat (len i)) (orig_ip + of_nat (len i)) a'))
      else Some (Inr (orig_ip, a)))"

text \<open>The jump to the rest of the original function: an indirect jump through the eight bytes after it.\<close>

definition relo_jump_back_x64 :: "u64 \<Rightarrow> u64 \<Rightarrow> 'a AssemblerBase_scheme \<Rightarrow> 'a AssemblerBase_scheme" where
  "relo_jump_back_x64 relo_start orig_ip a =
     EmitInt64_x64 orig_ip (JmpNearIndirect_x64 (relo_start + of_nat (ip_offset a) + 6) a)"

text \<open>The answer \<open>None\<close> inside is \<^verbatim>\<open>RT_FAILED\<close>: the chunk is too small.\<close>

definition GenRelocateCodeFixed_x64 ::
    "(nat \<Rightarrow> u8) \<Rightarrow> nat \<Rightarrow> (u64 \<Rightarrow> u8) \<Rightarrow> u64 \<Rightarrow> MemoryRange \<Rightarrow> MemoryRange \<Rightarrow> arena \<Rightarrow> env64
      \<Rightarrow> (arena \<times> env64) option res option" where
  "GenRelocateCodeFixed_x64 junk pageSize mem buf origin relocated arena e =
     (case relo_loop_x64 mem (buf + mr_length origin) (mr_address relocated) buf (mr_address origin)
             (CommitRealizeAddress (mr_address relocated) (new_TurboAssembler_x64 junk 0)) of
        None \<Rightarrow> None
      | Some (Inl er) \<Rightarrow> Some (Inl er)
      | Some (Inr (orig_ip, a)) \<Rightarrow>
          (let a = relo_jump_back_x64 (mr_address relocated) orig_ip a
           in if unat (mr_length relocated) < getSize (code_buffer a) then Some (Inr None)
              else Some (res_bind (FinalizeFromTurboAssember 0 None pageSize a arena e)
                     (\<lambda>(code, _, arena', e'). Inr (Some (arena', e'))))))"

definition GenRelocateCode_x64 ::
    "(nat \<Rightarrow> u8) \<Rightarrow> (nat \<Rightarrow> u64 option) \<Rightarrow> nat \<Rightarrow> (u64 \<Rightarrow> u8) \<Rightarrow> u64 \<Rightarrow> MemoryRange \<Rightarrow> MemoryRange \<Rightarrow> arena \<Rightarrow> env64
      \<Rightarrow> (MemoryRange \<times> arena \<times> env64) res option" where
  "GenRelocateCode_x64 junk os_alloc pageSize mem buf origin relocated arena e =
     (let (r1, arena1) = (if mr_address relocated = 0 then AllocateCodeChunk (os_alloc 0) pageSize 32 arena else (Some relocated, arena))
      in case r1 of
           None \<Rightarrow> Some (Inl NullPointer)
         | Some relocated1 \<Rightarrow>
             (case GenRelocateCodeFixed_x64 junk pageSize mem buf origin relocated1 arena1 e of
                None \<Rightarrow> None
              | Some (Inl er) \<Rightarrow> Some (Inl er)
              | Some (Inr (Some (arena2, e2))) \<Rightarrow> Some (Inr (relocated1, arena2, e2))
              | Some (Inr None) \<Rightarrow>
                  (case AllocateCodeChunk (os_alloc 1) pageSize (32 + 16) arena1 of
                     (None, _) \<Rightarrow> Some (Inl NullPointer)
                   | (Some relocated2, arena2) \<Rightarrow> Some (Inr (relocated2, arena2, e)))))"

section \<open>Trampolines\<close>

definition AllocIndirectStub_x64 ::
    "near_env \<Rightarrow> u64 \<Rightarrow> arena \<Rightarrow> (u64 \<times> PageChunk LiteMutableArray) res option" where
  "AllocIndirectStub_x64 env branch_address arena =
     map_option (map_sum id (\<lambda>(stub, pages). (case stub of None \<Rightarrow> 0 | Some chunk \<Rightarrow> mr_address chunk, pages)))
       (near_AllocateDataChunk env branch_address (2 * 1024 * 1024 * 1024) 8 arena)"

definition GenerateNormalTrampolineBuffer_x64 ::
    "(nat \<Rightarrow> u8) \<Rightarrow> near_env \<Rightarrow> u64 \<Rightarrow> u64 \<Rightarrow> arena \<Rightarrow> env64
      \<Rightarrow> (LiteMutableBuffer option \<times> PageChunk LiteMutableArray \<times> env64) res option" where
  "GenerateNormalTrampolineBuffer_x64 junk env from to arena e =
     (case AllocIndirectStub_x64 env from arena of
        None \<Rightarrow> None
      | Some (Inl er) \<Rightarrow> Some (Inl er)
      | Some (Inr (branch_stub, pages)) \<Rightarrow>
          if branch_stub = 0 then Some (Inl NullPointer)
          else Some (res_bind (memcpy64 branch_stub (le_bytes 8 to) e) (\<lambda>e'.
                 Inr (copy junk (code_buffer (JmpNearIndirect_x64 branch_stub (new_TurboAssembler_x64 junk from))), pages, e'))))"

definition GenerateNearTrampolineBuffer_x64 :: "u64 \<Rightarrow> u64 \<Rightarrow> LiteMutableBuffer option" where
  "GenerateNearTrampolineBuffer_x64 src dst = None"

text \<open>The closure trampoline pushes its entry and jumps to the bridge.\<close>

definition closure_trampoline_code_x64 :: "(nat \<Rightarrow> u8) \<Rightarrow> u64 \<Rightarrow> u64 \<Rightarrow> TurboAssembler_x64" where
  "closure_trampoline_code_x64 junk closure bridge =
     EmitInt64_x64 bridge (EmitInt64_x64 closure
       (EmitBuffer_x64 [0xff, 0x25, 0x08, 0, 0, 0] (EmitBuffer_x64 [0xff, 0x35, 0x06, 0, 0, 0] (new_TurboAssembler_x64 junk 0))))"

definition CreateClosureTrampoline_x64 ::
    "(nat \<Rightarrow> u8) \<Rightarrow> u64 option \<Rightarrow> nat \<Rightarrow> u64 \<Rightarrow> u64 \<Rightarrow> u64 \<Rightarrow> u64 \<Rightarrow> arena \<Rightarrow> env64
      \<Rightarrow> (ClosureTrampolineEntry \<times> arena \<times> env64) res" where
  "CreateClosureTrampoline_x64 junk os_alloc pageSize closure bridge data handler arena e =
     res_bind (FinalizeFromTurboAssember 0 os_alloc pageSize (closure_trampoline_code_x64 junk closure bridge) arena e)
       (\<lambda>(code, _, arena', e').
         Inr (\<lparr>cte_address = mr_address code, cte_size = mr_length code, carry_handler = handler,
               carry_data = data\<rparr>, arena', e'))"

end
