(* ===== verification/Closure_Bridge.thy ===== *)
theory Closure_Bridge
  imports Relocate_Arm64 Relocate_X64
begin

text \<open>
  The closure bridges: the code every closure trampoline jumps to, which saves the registers of the
  instrumented function in a \<^verbatim>\<open>RegisterContext\<close>, calls \<^verbatim>\<open>intercept_routing_common_bridge_handler\<close> and restores them
  (\<^verbatim>\<open>ClosureTrampolineBridge/x64/closure-bridge-x64.cc\<close>, \<^verbatim>\<open>ClosureTrampolineBridge/arm64/closure-bridge-arm64.cc\<close>).
  The code is built once; its address is kept in the static variable \<^verbatim>\<open>closure_bridge\<close>, which is 0 before.
  The address of the handler is a parameter.  On ARM64 the build without
  \<^verbatim>\<open>FULL_FLOATING_POINT_REGISTER_PACK\<close> is modelled.
\<close>

text \<open>A block of calls of an assembler, each of which may end the run.\<close>

primrec emit_seq :: "('a \<Rightarrow> 'a res) list \<Rightarrow> 'a \<Rightarrow> 'a res" where
  "emit_seq [] a = Inr a"
| "emit_seq (f # fs) a = res_bind (f a) (emit_seq fs)"

definition emits :: "('a \<Rightarrow> 'a) \<Rightarrow> 'a \<Rightarrow> 'a res" where
  "emits f a = Inr (f a)"

lemma emit_seq_append: "emit_seq (fs @ gs) a = res_bind (emit_seq fs a) (emit_seq gs)"
  by (induction fs arbitrary: a) (auto simp: res_bind_def split: sum.splits)

section \<open>x64\<close>

definition context_registers_x64 :: "CPURegister_x64 list" where
  "context_registers_x64 = [rax, rbx, rcx, rdx, rbp, rsp, rdi, rsi, r8, r9, r10, r11, r12, r13, r14, r15]"

definition bridge_save_x64 :: "(TurboAssembler_x64 \<Rightarrow> TurboAssembler_x64 res) list" where
  "bridge_save_x64 =
     [emits (EmitBuffer_x64 [0x9c]), sub_x64 rsp (Immediate_sized_x64 8 32), sub_x64 rsp (Immediate_sized_x64 (16 * 8) 32)]
     @ map (\<lambda>k. mov_store_x64 (Address_x64 rsp (8 * of_nat k)) (context_registers_x64 ! k)) [0..<16]"

definition bridge_args_x64 :: "(TurboAssembler_x64 \<Rightarrow> TurboAssembler_x64 res) list" where
  "bridge_args_x64 =
     [emits (mov_reg_x64 rax rsp), add_x64 rax (Immediate_sized_x64 (8 + 8 + 8 + 16 * 8) 32),
      sub_x64 rsp (Immediate_sized_x64 (2 * 8) 32), mov_store_x64 (Address_x64 rsp 8) rax,
      emits (mov_reg_x64 rdi rsp), emits (mov_load_x64 rsi (Address_x64 rsp (8 + 8 + 16 * 8 + 2 * 8)))]"

definition bridge_call_x64 :: "u64 \<Rightarrow> (TurboAssembler_x64 \<Rightarrow> TurboAssembler_x64 res) list" where
  "bridge_call_x64 bridge_handler =
     [emits (EmitBuffer_x64 [0x48, 0x89, 0xE0]), emits (EmitBuffer_x64 [0x48, 0x83, 0xE0, 0x0F]),
      emits (EmitBuffer_x64 [0x48, 0x83, 0xF8, 0x00]), emits (EmitBuffer_x64 [0x75, 0x15]),
      CallFunction_x64 bridge_handler, emits (EmitBuffer_x64 [0xE9, 0x12, 0x00, 0x00, 0x00]),
      emits (EmitBuffer_x64 [0x50]), CallFunction_x64 bridge_handler, emits (EmitBuffer_x64 [0x58])]"

definition bridge_restore_x64 :: "(TurboAssembler_x64 \<Rightarrow> TurboAssembler_x64 res) list" where
  "bridge_restore_x64 =
     [add_x64 rsp (Immediate_sized_x64 (2 * 8) 32)]
     @ map (\<lambda>r. emits (pop_x64 r)) [rax, rbx, rcx, rdx, rbp]
     @ [add_x64 rsp (Immediate_sized_x64 8 32)]
     @ map (\<lambda>r. emits (pop_x64 r)) [rdi, rsi, r8, r9, r10, r11, r12, r13, r14, r15]
     @ [add_x64 rsp (Immediate_sized_x64 8 32), emits (EmitBuffer_x64 [0x9d]), emits ret_x64]"

definition closure_bridge_code_x64 :: "(nat \<Rightarrow> u8) \<Rightarrow> u64 \<Rightarrow> TurboAssembler_x64 res" where
  "closure_bridge_code_x64 junk bridge_handler =
     emit_seq (bridge_save_x64 @ bridge_args_x64 @ bridge_call_x64 bridge_handler @ bridge_restore_x64 @ [RelocBind_x64])
       (new_TurboAssembler_x64 junk 0)"

definition get_closure_bridge_x64 ::
    "(nat \<Rightarrow> u8) \<Rightarrow> u64 option \<Rightarrow> nat \<Rightarrow> u64 \<Rightarrow> u64 \<Rightarrow> arena \<Rightarrow> env64 \<Rightarrow> (u64 \<times> arena \<times> env64) res" where
  "get_closure_bridge_x64 junk os_alloc pageSize bridge_handler closure_bridge arena e =
     (if closure_bridge \<noteq> 0 then Inr (closure_bridge, arena, e)
      else res_bind (closure_bridge_code_x64 junk bridge_handler) (\<lambda>a.
           res_bind (FinalizeFromTurboAssember 0 os_alloc pageSize a arena e) (\<lambda>(code, _, arena', e').
             Inr (mr_address code, arena', e'))))"

text \<open>\<^verbatim>\<open>set_routing_bridge_next_hop\<close>: the next hop replaces the entry the closure trampoline pushed (\<^verbatim>\<open>helper-x64.cc\<close>).\<close>

definition set_routing_bridge_next_hop_x64 :: "u64 \<Rightarrow> u64 \<Rightarrow> (u64 \<Rightarrow> u8) \<Rightarrow> u64 \<Rightarrow> u8" where
  "set_routing_bridge_next_hop_x64 ctx address m = st64 (ld64 m (ctx + 8) - 8) address m"

section \<open>arm64\<close>

definition bridge_save_a64 :: "(TurboAssembler \<Rightarrow> TurboAssembler res) list" where
  "bridge_save_a64 =
     [sub_a64 SP_reg SP_reg (8 * 16)]
     @ map (\<lambda>k. stp_a64 (Reg_Q k) (Reg_Q (k + 1)) (MemOperand_offset SP_reg (of_nat k * 16) Offset)) [6, 4, 2, 0]
     @ [sub_a64 SP_reg SP_reg (30 * 8)]
     @ map (\<lambda>k. stp_a64 (Reg_X (k + 1)) (Reg_X (k + 2)) (MemOperand_offset SP_reg (of_nat k * 8) Offset))
         [28, 26, 24, 22, 20, 18, 16, 14, 12, 10, 8, 6, 4, 2, 0]
     @ [sub_a64 SP_reg SP_reg (2 * 8), str_a64 (Reg_X 0) (MemOperand_offset SP_reg 8 Offset),
        add_a64 (Reg_X 0) SP_reg (2 * 8 + 30 * 8 + 8 * 16), sub_a64 SP_reg SP_reg (2 * 8),
        str_a64 (Reg_X 0) (MemOperand_offset SP_reg 8 Offset)]"

definition bridge_call_a64 :: "u64 \<Rightarrow> (TurboAssembler \<Rightarrow> TurboAssembler res) list" where
  "bridge_call_a64 bridge_handler =
     [mov_a64 (Reg_X 0) SP_reg, mov_a64 (Reg_X 1) TMP1, emits (CallFunction_a64 bridge_handler)]"

definition bridge_restore_a64 :: "(TurboAssembler \<Rightarrow> TurboAssembler res) list" where
  "bridge_restore_a64 =
     [add_a64 SP_reg SP_reg (2 * 8), ldr_a64 (Reg_X 0) (MemOperand_offset SP_reg 8 Offset), add_a64 SP_reg SP_reg (2 * 8)]
     @ map (\<lambda>k. ldp_a64 (Reg_X k) (Reg_X (k + 1)) (MemOperand_offset SP_reg 16 PostIndex))
         [1, 3, 5, 7, 9, 11, 13, 15, 17, 19, 21, 23, 25, 27, 29]
     @ map (\<lambda>k. ldp_a64 (Reg_Q k) (Reg_Q (k + 1)) (MemOperand_offset SP_reg 32 PostIndex)) [0, 2, 4, 6]
     @ [emits (br_a64 (Reg_X 16))]"

definition closure_bridge_code_a64 :: "(nat \<Rightarrow> u8) \<Rightarrow> u64 \<Rightarrow> TurboAssembler res" where
  "closure_bridge_code_a64 junk bridge_handler =
     emit_seq (bridge_save_a64 @ bridge_call_a64 bridge_handler @ bridge_restore_a64) (new_TurboAssembler junk 0)"

definition get_closure_bridge_a64 ::
    "(nat \<Rightarrow> u8) \<Rightarrow> u64 option \<Rightarrow> nat \<Rightarrow> u64 \<Rightarrow> u64 \<Rightarrow> arena \<Rightarrow> env64 \<Rightarrow> (u64 \<times> arena \<times> env64) res" where
  "get_closure_bridge_a64 junk os_alloc pageSize bridge_handler closure_bridge arena e =
     (if closure_bridge \<noteq> 0 then Inr (closure_bridge, arena, e)
      else res_bind (closure_bridge_code_a64 junk bridge_handler) (\<lambda>a.
           res_bind (FinalizeFromTurboAssember 4 os_alloc pageSize a arena e) (\<lambda>(code, _, arena', e').
             Inr (mr_address code, arena', e'))))"

text \<open>\<^verbatim>\<open>general.regs.x16\<close> is the word at offset \<open>3 * 8 + 16 * 8\<close> of the context (\<^verbatim>\<open>dobby.h\<close>, \<^verbatim>\<open>helper-arm64.cc\<close>).\<close>

definition set_routing_bridge_next_hop_a64 :: "u64 \<Rightarrow> u64 \<Rightarrow> (u64 \<Rightarrow> u8) \<Rightarrow> u64 \<Rightarrow> u8" where
  "set_routing_bridge_next_hop_a64 ctx address = st64 (ctx + 8 * (3 + 16)) address"

end
