(* ===== verification/Dobby_Hook.thy ===== *)
theory Dobby_Hook
  imports Closure_Bridge
begin

text \<open>
  The public interface of Dobby and what lies between it and the code generators: the table of hooks
  (\<^verbatim>\<open>source/Interceptor.cpp\<close>), the routings (\<^verbatim>\<open>source/InterceptRouting\<close>), the plugin for near branches and the
  dispatch from a closure bridge to the handler of an instrumented instruction.  A hook entry or a closure is an
  object at an address that \<^verbatim>\<open>operator new\<close> returned; \<open>hook_heap\<close> and \<open>closure_heap\<close> hold these objects.  An entry and its
  routing point to each other and are created together, so that the routing is a field of the entry.  The four
  functions that each architecture provides are the fields of a \<open>backend\<close>.  A call that never returns is \<open>None\<close>.
\<close>

section \<open>Data\<close>

datatype RetStatus = RS_FAILED | RS_SUCCESS

datatype HookEntryType = kFunctionWrapper | kFunctionInlineHook | kDynamicBinaryInstrument

record HookEntryInfo =
  info_hook_id :: u64
  info_target_address :: u64

record InstructionBackupArray =
  ib_address :: u64
  ib_size :: nat
  ib_data :: "u8 list"

text \<open>
  \<^verbatim>\<open>origin_\<close> and \<^verbatim>\<open>relocated_\<close> are not initialised by the constructor (\<open>None\<close>).  \<open>route_call\<close> is the first field of the
  derived classes, \<^verbatim>\<open>replace_call\<close> or \<^verbatim>\<open>handler\<close>, which \<^verbatim>\<open>DobbyInstrument\<close> reads whatever class the routing has.
\<close>

record InterceptRouting =
  origin_code :: "MemoryRange option"
  relocated_code :: "MemoryRange option"
  trampoline_buffer :: "LiteMutableBuffer option"
  trampoline_target :: u64
  route_call :: u64
  prologue_dispatch_bridge :: u64

record HookEntry =
  target_address :: u64
  hook_id :: u32
  hook_type :: HookEntryType
  route :: InterceptRouting
  relocated_origin :: u64
  origin_instructions :: InstructionBackupArray

text \<open>
  The environment: the bytes of fresh buffers, the answers of the operating system and of \<^verbatim>\<open>operator new\<close>
  (numbered by the calls), the addresses of two functions of the library, and whether it was compiled with
  \<^verbatim>\<open>NDEBUG\<close>, in which case \<^verbatim>\<open>FATAL\<close> only logs.
\<close>

record dobby_env =
  de_junk :: "nat \<Rightarrow> u8"
  de_page_size :: nat
  de_os :: "nat \<Rightarrow> nat \<Rightarrow> u64 option"
  de_near :: "nat \<Rightarrow> near_env"
  de_new :: "nat \<Rightarrow> u64"
  de_dispatch :: u64
  de_bridge_handler :: u64
  de_ndebug :: bool

record dobby =
  interceptor :: "u64 LiteMutableArray option"
  hook_heap :: "u64 \<Rightarrow> HookEntry option"
  closure_heap :: "u64 \<Rightarrow> ClosureTrampolineEntry option"
  bridge_address :: u64
  near_branch_trampoline :: u64
  plugins :: "u64 LiteMutableArray option"
  code_arena :: arena
  near_arena :: arena
  process :: env64
  news :: nat
  os_calls :: nat

type_synonym 'a run = "'a res option"

definition run_bind :: "'a run \<Rightarrow> ('a \<Rightarrow> 'b run) \<Rightarrow> 'b run" where
  "run_bind r f = (case r of None \<Rightarrow> None | Some (Inl er) \<Rightarrow> Some (Inl er) | Some (Inr x) \<Rightarrow> f x)"

lemma run_bind_simps [simp]:
  "run_bind None f = None" "run_bind (Some (Inl er)) f = Some (Inl er)" "run_bind (Some (Inr x)) f = f x"
  by (simp_all add: run_bind_def)

lemma run_bind_Inr_iff: "run_bind r f = Some (Inr y) \<longleftrightarrow> (\<exists>x. r = Some (Inr x) \<and> f x = Some (Inr y))"
  by (auto simp: run_bind_def split: option.splits sum.splits)

record backend =
  be_normal :: "dobby_env \<Rightarrow> u64 \<Rightarrow> u64 \<Rightarrow> dobby \<Rightarrow> (LiteMutableBuffer option \<times> dobby) run"
  be_near :: "dobby_env \<Rightarrow> u64 \<Rightarrow> u64 \<Rightarrow> dobby \<Rightarrow> (LiteMutableBuffer option \<times> dobby) run"
  be_relocate :: "dobby_env \<Rightarrow> u64 \<Rightarrow> MemoryRange \<Rightarrow> MemoryRange \<Rightarrow> dobby \<Rightarrow> (MemoryRange \<times> dobby) run"
  be_bridge :: "(nat \<Rightarrow> u8) \<Rightarrow> u64 option \<Rightarrow> nat \<Rightarrow> u64 \<Rightarrow> u64 \<Rightarrow> arena \<Rightarrow> env64 \<Rightarrow> (u64 \<times> arena \<times> env64) res"
  be_closure :: "(nat \<Rightarrow> u8) \<Rightarrow> u64 option \<Rightarrow> nat \<Rightarrow> u64 \<Rightarrow> u64 \<Rightarrow> u64 \<Rightarrow> u64 \<Rightarrow> arena \<Rightarrow> env64
      \<Rightarrow> (ClosureTrampolineEntry \<times> arena \<times> env64) res"

definition FATAL :: "dobby_env \<Rightarrow> unit run" where
  "FATAL env = Some (if de_ndebug env then Inr () else Inl CheckFailed)"

definition operator_new :: "dobby_env \<Rightarrow> dobby \<Rightarrow> u64 \<times> dobby" where
  "operator_new env s = (de_new env (news s), s\<lparr>news := news s + 1\<rparr>)"

section \<open>Interceptor\<close>

definition SharedInstance :: "dobby \<Rightarrow> u64 LiteMutableArray \<times> dobby" where
  "SharedInstance s =
     (case interceptor s of
        None \<Rightarrow> (let entries = arr_initWithCapacity 8 in (entries, s\<lparr>interceptor := Some entries\<rparr>))
      | Some entries \<Rightarrow> (entries, s))"

function FindHookEntry :: "(u64 \<Rightarrow> HookEntry option) \<Rightarrow> u64 \<Rightarrow> nat \<Rightarrow> u64 LiteMutableArray \<Rightarrow> HookEntry option res" where
  "FindHookEntry heap address i entries =
     (case getNextObjectForIterator i entries of
        (_, None) \<Rightarrow> Inr None
      | (i', Some p) \<Rightarrow>
          (case heap p of
             None \<Rightarrow> Inl AccessFault
           | Some e \<Rightarrow> if target_address e = address then Inr (Some e) else FindHookEntry heap address i' entries))"
  by pat_completeness auto

termination
  by (relation "measure (\<lambda>(_, _, i, entries). arr_count entries - i)")
     (auto simp: getNextObjectForIterator_def split: if_splits)

declare FindHookEntry.simps [simp del]

definition AddHookEntry :: "u64 \<Rightarrow> HookEntry \<Rightarrow> dobby \<Rightarrow> dobby" where
  "AddHookEntry p e s =
     s\<lparr>interceptor := map_option (\<lambda>entries. snd (pushObject p entries)) (interceptor s), hook_heap := (hook_heap s)(p \<mapsto> e)\<rparr>"

section \<open>Routing\<close>

definition new_InterceptRouting :: "u64 \<Rightarrow> InterceptRouting" where
  "new_InterceptRouting call =
     \<lparr>origin_code = None, relocated_code = None, trampoline_buffer = None, trampoline_target = 0, route_call = call,
      prologue_dispatch_bridge = 0\<rparr>"

definition new_HookEntry :: "u64 \<Rightarrow> nat \<Rightarrow> HookEntryType \<Rightarrow> u64 \<Rightarrow> HookEntry" where
  "new_HookEntry address count ty call =
     \<lparr>target_address = address, hook_id = of_nat count, hook_type = ty, route = new_InterceptRouting call, relocated_origin = 0,
      origin_instructions = \<lparr>ib_address = 0, ib_size = 0, ib_data = replicate 64 0\<rparr>\<rparr>"

text \<open>The plugin writes the buffer of the routing only when it made one.\<close>

definition near_GenerateTrampolineBuffer ::
    "backend \<Rightarrow> dobby_env \<Rightarrow> u64 \<Rightarrow> u64 \<Rightarrow> HookEntry \<Rightarrow> dobby \<Rightarrow> (bool \<times> HookEntry \<times> dobby) run" where
  "near_GenerateTrampolineBuffer be env src dst e s =
     run_bind (be_near be env src dst s) (\<lambda>(b, s').
       case b of
         None \<Rightarrow> Some (Inr (False, e, s'))
       | Some b \<Rightarrow> Some (Inr (True, e\<lparr>route := (route e)\<lparr>trampoline_buffer := Some b\<rparr>\<rparr>, s')))"

definition GenerateTrampolineBuffer ::
    "backend \<Rightarrow> dobby_env \<Rightarrow> u64 \<Rightarrow> u64 \<Rightarrow> HookEntry \<Rightarrow> dobby \<Rightarrow> (HookEntry \<times> dobby) run" where
  "GenerateTrampolineBuffer be env src dst e s =
     run_bind (if near_branch_trampoline s \<noteq> 0 then near_GenerateTrampolineBuffer be env src dst e s else Some (Inr (False, e, s)))
       (\<lambda>(_, e1, s1).
         if trampoline_buffer (route e1) = None
         then run_bind (be_normal be env src dst s1) (\<lambda>(b, s2).
                Some (Inr (e1\<lparr>route := (route e1)\<lparr>trampoline_buffer := b\<rparr>\<rparr>, s2)))
         else Some (Inr (e1, s1)))"

definition GenerateRelocatedCode :: "backend \<Rightarrow> dobby_env \<Rightarrow> HookEntry \<Rightarrow> dobby \<Rightarrow> (HookEntry \<times> dobby) run" where
  "GenerateRelocatedCode be env e s =
     (case trampoline_buffer (route e) of
        None \<Rightarrow> Some (Inl NullPointer)
      | Some b \<Rightarrow>
          (let relocate_buffer = target_address e;
               origin = FinalizeFromAddress (target_address e) (getSize b)
           in run_bind (be_relocate be env relocate_buffer origin (FinalizeFromAddress 0 0) s) (\<lambda>(relocated, s').
                if 64 < getSize b then Some (Inl OutOfBounds)
                else Some (Inr
                  (e\<lparr>route := (route e)\<lparr>origin_code := Some origin, relocated_code := Some relocated\<rparr>,
                     relocated_origin := mr_address relocated,
                     origin_instructions := \<lparr>ib_address = mr_address origin, ib_size = getSize b,
                       ib_data = fetch (e_mem (process s')) relocate_buffer (getSize b)
                         @ drop (getSize b) (ib_data (origin_instructions e))\<rparr>\<rparr>, s')))))"

definition Active :: "dobby_env \<Rightarrow> HookEntry \<Rightarrow> dobby \<Rightarrow> dobby run" where
  "Active env e s =
     (case (origin_code (route e), trampoline_buffer (route e)) of
        (None, _) \<Rightarrow> Some (Inl AccessFault)
      | (_, None) \<Rightarrow> Some (Inl NullPointer)
      | (Some origin, Some b) \<Rightarrow>
          Some (res_bind (CodePatch (of_nat (de_page_size env)) (mr_address origin) (contents b) (process s))
            (\<lambda>p. Inr (s\<lparr>process := p\<rparr>))))"

definition Commit :: "dobby_env \<Rightarrow> HookEntry \<Rightarrow> dobby \<Rightarrow> dobby run" where
  "Commit = Active"

section \<open>Function replacement\<close>

definition BuildReplaceRouting :: "backend \<Rightarrow> dobby_env \<Rightarrow> HookEntry \<Rightarrow> dobby \<Rightarrow> (HookEntry \<times> dobby) run" where
  "BuildReplaceRouting be env e s =
     (let e1 = e\<lparr>route := (route e)\<lparr>trampoline_target := route_call (route e)\<rparr>\<rparr>
      in run_bind (GenerateTrampolineBuffer be env (target_address e1) (trampoline_target (route e1)) e1 s)
           (\<lambda>(e2, s2). GenerateRelocatedCode be env e2 s2))"

text \<open>The answer: the returned status and the value written to \<^verbatim>\<open>*origin_call\<close>.\<close>

definition DobbyHook :: "backend \<Rightarrow> dobby_env \<Rightarrow> u64 \<Rightarrow> u64 \<Rightarrow> dobby \<Rightarrow> ((RetStatus \<times> u64 option) \<times> dobby) run" where
  "DobbyHook be env function_address replace_call s =
     run_bind (if function_address = 0 then FATAL env else Some (Inr ())) (\<lambda>_.
     let (entries, s1) = SharedInstance s in
     run_bind (Some (FindHookEntry (hook_heap s1) function_address 0 entries)) (\<lambda>found.
     if (case found of None \<Rightarrow> False | Some e \<Rightarrow> trampoline_target (route e) = replace_call)
     then run_bind (FATAL env) (\<lambda>_. Some (Inr ((RS_FAILED, None), s1)))
     else
       let (p, s2) = operator_new env s1;
           e = new_HookEntry function_address (getCount entries) kFunctionInlineHook replace_call
       in run_bind (BuildReplaceRouting be env e s2) (\<lambda>(e', s3).
          run_bind (Commit env e' (AddHookEntry p e' s3)) (\<lambda>s4.
            Some (Inr ((RS_SUCCESS, Some (relocated_origin e')), s4))))))"

section \<open>Instrumentation\<close>

definition CreateClosureTrampoline :: "backend \<Rightarrow> dobby_env \<Rightarrow> u64 \<Rightarrow> u64 \<Rightarrow> dobby \<Rightarrow> (ClosureTrampolineEntry \<times> dobby) run" where
  "CreateClosureTrampoline be env data handler s =
     (let (p, s1) = operator_new env s; os = de_os env (os_calls s)
      in Some (res_bind (be_bridge be (de_junk env) (os 0) (de_page_size env) (de_bridge_handler env) (bridge_address s1)
                 (code_arena s1) (process s1)) (\<lambda>(bridge, arena1, proc1).
           res_bind (be_closure be (de_junk env) (os 1) (de_page_size env) p bridge data handler arena1 proc1) (\<lambda>(c, arena2, proc2).
             Inr (c, s1\<lparr>bridge_address := bridge, closure_heap := (closure_heap s1)(p \<mapsto> c), code_arena := arena2,
                       process := proc2, os_calls := os_calls s1 + 1\<rparr>)))))"

definition BuildDynamicBinaryInstrumentRouting ::
    "backend \<Rightarrow> dobby_env \<Rightarrow> u64 \<Rightarrow> HookEntry \<Rightarrow> dobby \<Rightarrow> (HookEntry \<times> dobby) run" where
  "BuildDynamicBinaryInstrumentRouting be env p e s =
     run_bind (CreateClosureTrampoline be env p (de_dispatch env) s) (\<lambda>(c, s1).
       let e1 = e\<lparr>route := (route e)\<lparr>trampoline_target := cte_address c, prologue_dispatch_bridge := cte_address c\<rparr>\<rparr>
       in run_bind (GenerateTrampolineBuffer be env (target_address e1) (trampoline_target (route e1)) e1 s1)
            (\<lambda>(e2, s2). GenerateRelocatedCode be env e2 s2))"

definition DobbyInstrument :: "backend \<Rightarrow> dobby_env \<Rightarrow> u64 \<Rightarrow> u64 \<Rightarrow> dobby \<Rightarrow> (RetStatus \<times> dobby) run" where
  "DobbyInstrument be env instr_address handler s =
     run_bind (if instr_address = 0 then FATAL env else Some (Inr ())) (\<lambda>_.
     let (entries, s1) = SharedInstance s in
     run_bind (Some (FindHookEntry (hook_heap s1) instr_address 0 entries)) (\<lambda>found.
     if (case found of None \<Rightarrow> False | Some e \<Rightarrow> route_call (route e) = handler)
     then run_bind (FATAL env) (\<lambda>_. Some (Inr (RS_FAILED, s1)))
     else
       let (p, s2) = operator_new env s1;
           e = new_HookEntry instr_address (getCount entries) kDynamicBinaryInstrument handler
       in run_bind (BuildDynamicBinaryInstrumentRouting be env p e s2) (\<lambda>(e', s3).
          run_bind (Commit env e' (AddHookEntry p e' s3)) (\<lambda>s4. Some (Inr (RS_SUCCESS, s4))))))"

text \<open>
  The handlers.  \<open>call\<close> stands for the function at an address, \<open>user\<close> for the effect of a handler of the
  application on the memory, \<open>next_hop\<close> for \<^verbatim>\<open>set_routing_bridge_next_hop\<close> of the architecture.
\<close>

definition instrument_call_forward_handler ::
    "(u64 \<Rightarrow> u64 \<Rightarrow> (u64 \<Rightarrow> u8) \<Rightarrow> u64 \<Rightarrow> u8) \<Rightarrow> (u64 \<Rightarrow> u64 \<Rightarrow> HookEntryInfo \<Rightarrow> (u64 \<Rightarrow> u8) \<Rightarrow> u64 \<Rightarrow> u8)
      \<Rightarrow> u64 \<Rightarrow> HookEntry \<Rightarrow> (u64 \<Rightarrow> u8) \<Rightarrow> u64 \<Rightarrow> u8" where
  "instrument_call_forward_handler next_hop user reg_ctx e m =
     (let handler = route_call (route e);
          m1 = (if handler \<noteq> 0
                then user handler reg_ctx \<lparr>info_hook_id = ucast (hook_id e), info_target_address = target_address e\<rparr> m
                else m)
      in next_hop reg_ctx (relocated_origin e) m1)"

definition instrument_routing_dispatch ::
    "(u64 \<Rightarrow> u64 \<Rightarrow> (u64 \<Rightarrow> u8) \<Rightarrow> u64 \<Rightarrow> u8) \<Rightarrow> (u64 \<Rightarrow> u64 \<Rightarrow> HookEntryInfo \<Rightarrow> (u64 \<Rightarrow> u8) \<Rightarrow> u64 \<Rightarrow> u8)
      \<Rightarrow> dobby \<Rightarrow> u64 \<Rightarrow> ClosureTrampolineEntry \<Rightarrow> (u64 \<Rightarrow> u8) \<Rightarrow> (u64 \<Rightarrow> u8) res" where
  "instrument_routing_dispatch next_hop user s ctx closure m =
     (case hook_heap s (carry_data closure) of
        None \<Rightarrow> Inl AccessFault
      | Some e \<Rightarrow> Inr (instrument_call_forward_handler next_hop user ctx e m))"

definition intercept_routing_common_bridge_handler ::
    "(u64 \<Rightarrow> u64 \<Rightarrow> ClosureTrampolineEntry \<Rightarrow> (u64 \<Rightarrow> u8) \<Rightarrow> (u64 \<Rightarrow> u8) res) \<Rightarrow> dobby \<Rightarrow> u64 \<Rightarrow> u64 \<Rightarrow> (u64 \<Rightarrow> u8) \<Rightarrow> (u64 \<Rightarrow> u8) res" where
  "intercept_routing_common_bridge_handler call s ctx closure m =
     (case closure_heap s closure of
        None \<Rightarrow> Inl AccessFault
      | Some c \<Rightarrow> call (carry_handler c) ctx c m)"

section \<open>The plugin for near branches\<close>

definition registerPlugin :: "u64 \<Rightarrow> dobby \<Rightarrow> dobby" where
  "registerPlugin plugin s =
     (let ps = (case plugins s of None \<Rightarrow> arr_initWithCapacity 1 | Some ps \<Rightarrow> ps)
      in s\<lparr>plugins := Some (snd (pushObject plugin ps))\<rparr>)"

definition dobby_enable_near_branch_trampoline :: "dobby_env \<Rightarrow> dobby \<Rightarrow> dobby" where
  "dobby_enable_near_branch_trampoline env s =
     (let (plugin, s1) = operator_new env s
      in (registerPlugin plugin s1)\<lparr>near_branch_trampoline := plugin\<rparr>)"

definition dobby_disable_near_branch_trampoline :: "dobby \<Rightarrow> dobby" where
  "dobby_disable_near_branch_trampoline s = s\<lparr>near_branch_trampoline := 0\<rparr>"

section \<open>The architectures\<close>

definition near_env_of :: "dobby_env \<Rightarrow> dobby \<Rightarrow> near_env" where
  "near_env_of env s = (de_near env (os_calls s))\<lparr>ne_mem := e_mem (process s)\<rparr>"

definition normal_x64 :: "dobby_env \<Rightarrow> u64 \<Rightarrow> u64 \<Rightarrow> dobby \<Rightarrow> (LiteMutableBuffer option \<times> dobby) run" where
  "normal_x64 env src dst s =
     run_bind (GenerateNormalTrampolineBuffer_x64 (de_junk env) (near_env_of env s) src dst (near_arena s) (process s))
       (\<lambda>(b, pages, p). Some (Inr (b, s\<lparr>near_arena := Some pages, process := p, os_calls := os_calls s + 1\<rparr>)))"

definition relocate_x64 :: "dobby_env \<Rightarrow> u64 \<Rightarrow> MemoryRange \<Rightarrow> MemoryRange \<Rightarrow> dobby \<Rightarrow> (MemoryRange \<times> dobby) run" where
  "relocate_x64 env buf origin relocated s =
     run_bind (GenRelocateCode_x64 (de_junk env) (de_os env (os_calls s)) (de_page_size env) (e_mem (process s)) buf origin relocated
         (code_arena s) (process s))
       (\<lambda>(r, arena, p). Some (Inr (r, s\<lparr>code_arena := arena, process := p, os_calls := os_calls s + 1\<rparr>)))"

definition x64_backend :: backend where
  "x64_backend = \<lparr>be_normal = normal_x64, be_near = (\<lambda>_ src dst s. Some (Inr (GenerateNearTrampolineBuffer_x64 src dst, s))),
     be_relocate = relocate_x64, be_bridge = get_closure_bridge_x64, be_closure = CreateClosureTrampoline_x64\<rparr>"

definition normal_a64 :: "dobby_env \<Rightarrow> u64 \<Rightarrow> u64 \<Rightarrow> dobby \<Rightarrow> (LiteMutableBuffer option \<times> dobby) run" where
  "normal_a64 env src dst s = Some (res_bind (GenerateNormalTrampolineBuffer_a64 (de_junk env) src dst) (\<lambda>b. Inr (b, s)))"

text \<open>The near arena is asked for a chunk only when the destination is out of the range of a branch.\<close>

definition near_a64 :: "dobby_env \<Rightarrow> u64 \<Rightarrow> u64 \<Rightarrow> dobby \<Rightarrow> (LiteMutableBuffer option \<times> dobby) run" where
  "near_a64 env src dst s =
     run_bind (if llabs (dst - src) < ARM64_B_XXX_RANGE then Some (Inr (None, near_arena s))
               else run_bind (near_AllocateCodeChunk (near_env_of env s) src ARM64_B_XXX_RANGE ARM64_TINY_REDIRECT_SIZE (near_arena s))
                 (\<lambda>(chunk, pages). Some (Inr (chunk, Some pages))))
       (\<lambda>(chunk, pages).
         Some (res_bind (GenerateNearTrampolineBuffer_a64 (de_junk env) (de_page_size env) chunk src dst (code_arena s) (process s))
           (\<lambda>(b, arena, p). Inr (b, s\<lparr>near_arena := pages, code_arena := arena, process := p, os_calls := os_calls s + 1\<rparr>))))"

definition fetch_words :: "(u64 \<Rightarrow> u8) \<Rightarrow> u64 \<Rightarrow> nat \<Rightarrow> u32 list" where
  "fetch_words mem buf n = map (\<lambda>k. le_word (fetch mem (buf + of_nat (4 * k)) 4)) [0..<(n + 3) div 4]"

definition relocate_a64 :: "dobby_env \<Rightarrow> u64 \<Rightarrow> MemoryRange \<Rightarrow> MemoryRange \<Rightarrow> dobby \<Rightarrow> (MemoryRange \<times> dobby) run" where
  "relocate_a64 env buf origin relocated s =
     Some (res_bind (GenRelocateCode_a64 (de_junk env) (de_os env (os_calls s) 0) (de_page_size env) (mr_address origin)
         (fetch_words (e_mem (process s)) buf (unat (mr_length origin))) (code_arena s) (process s))
       (\<lambda>(r, arena, p). Inr (r, s\<lparr>code_arena := arena, process := p, os_calls := os_calls s + 1\<rparr>)))"

definition a64_backend :: backend where
  "a64_backend = \<lparr>be_normal = normal_a64, be_near = near_a64, be_relocate = relocate_a64, be_bridge = get_closure_bridge_a64,
     be_closure = CreateClosureTrampoline_a64\<rparr>"

end
