(* ===== verification/Hook_Registry.thy ===== *)
theory Hook_Registry
  imports Dobby_Hook
begin

text \<open>
  The table of hooks that the calls of Dobby's interface build: what the generators of an architecture promise the
  calls (the locale \<open>hook_backend\<close>, interpreted on x64 and on ARM64), what each call does to the table, and the
  invariant every sequence of calls keeps.
\<close>

section \<open>The contract of an architecture\<close>

text \<open>Generating code leaves the hooks, the closures and the plugin alone.\<close>

definition keeps_table :: "dobby \<Rightarrow> dobby \<Rightarrow> bool" where
  "keeps_table s s' \<longleftrightarrow> interceptor s' = interceptor s \<and> hook_heap s' = hook_heap s \<and> closure_heap s' = closure_heap s
     \<and> news s' = news s \<and> near_branch_trampoline s' = near_branch_trampoline s \<and> plugins s' = plugins s"

lemma keeps_table_refl [simp]: "keeps_table s s"
  by (simp add: keeps_table_def)

lemma keeps_table_trans [trans]: "keeps_table s t \<Longrightarrow> keeps_table t u \<Longrightarrow> keeps_table s u"
  by (simp add: keeps_table_def)

text \<open>What a routing does to its entry: the parts that \<open>new_HookEntry\<close> fixed stay.\<close>

definition same_hook :: "HookEntry \<Rightarrow> HookEntry \<Rightarrow> bool" where
  "same_hook e e' \<longleftrightarrow> target_address e' = target_address e \<and> hook_id e' = hook_id e \<and> hook_type e' = hook_type e
     \<and> route_call (route e') = route_call (route e) \<and> trampoline_target (route e') = trampoline_target (route e)"

text \<open>An entry whose routing is complete.\<close>

definition routed :: "HookEntry \<Rightarrow> bool" where
  "routed e \<longleftrightarrow> (\<exists>b r. trampoline_buffer (route e) = Some b \<and> getSize b \<le> 64
     \<and> origin_code (route e) = Some (FinalizeFromAddress (target_address e) (getSize b))
     \<and> relocated_code (route e) = Some r \<and> relocated_origin e = mr_address r
     \<and> ib_address (origin_instructions e) = target_address e \<and> ib_size (origin_instructions e) = getSize b
     \<and> length (ib_data (origin_instructions e)) = 64)"

lemma Commit_keeps: "Commit env e s = Some (Inr s') \<Longrightarrow> keeps_table s s'"
  by (auto simp: Commit_def Active_def keeps_table_def res_bind_Inr_iff split: option.splits)

lemma SharedInstance_spec:
  "SharedInstance s = (a, s1) \<Longrightarrow> s1 = s\<lparr>interceptor := Some a\<rparr> \<and> (interceptor s = None \<and> a = arr_initWithCapacity 8 \<or> interceptor s = Some a)"
  by (auto simp: SharedInstance_def Let_def split: option.splits)

text \<open>The table after a call that added the entry \<open>e\<close> at the address \<open>p\<close>, the array of entries having been \<open>a\<close>.\<close>

definition hook_added :: "dobby_env \<Rightarrow> dobby \<Rightarrow> u64 LiteMutableArray \<Rightarrow> HookEntry \<Rightarrow> dobby \<Rightarrow> bool" where
  "hook_added env s a e s' \<longleftrightarrow> (interceptor s = None \<and> a = arr_initWithCapacity 8 \<or> interceptor s = Some a)
     \<and> interceptor s' = Some (snd (pushObject (de_new env (news s)) a)) \<and> hook_heap s' = (hook_heap s)(de_new env (news s) \<mapsto> e)
     \<and> hook_id e = of_nat (getCount a) \<and> routed e"

locale hook_backend =
  fixes be :: backend
  assumes normal_keeps: "be_normal be env src dst s = Some (Inr (b, s')) \<Longrightarrow> keeps_table s s'"
    and near_keeps: "be_near be env src dst s = Some (Inr (b, s')) \<Longrightarrow> keeps_table s s'"
    and relocate_keeps: "be_relocate be env buf origin relocated s = Some (Inr (r, s')) \<Longrightarrow> keeps_table s s'"
    and closure_carries: "be_closure be junk os n p bridge data handler arena e = Inr (c, arena', e') \<Longrightarrow>
      carry_data c = data \<and> carry_handler c = handler"
begin

lemma GenerateTrampolineBuffer_spec:
  assumes "GenerateTrampolineBuffer be env src dst e s = Some (Inr (e', s'))"
  shows "keeps_table s s' \<and> (\<exists>b. e' = e\<lparr>route := (route e)\<lparr>trampoline_buffer := b\<rparr>\<rparr>)"
proof -
  obtain x e1 s1 where 1: "(if near_branch_trampoline s \<noteq> 0 then near_GenerateTrampolineBuffer be env src dst e s
        else Some (Inr (False, e, s))) = Some (Inr (x, e1, s1))"
      "(if trampoline_buffer (route e1) = None
         then run_bind (be_normal be env src dst s1) (\<lambda>(b, s2). Some (Inr (e1\<lparr>route := (route e1)\<lparr>trampoline_buffer := b\<rparr>\<rparr>, s2)))
         else Some (Inr (e1, s1))) = Some (Inr (e', s'))"
    using assms unfolding GenerateTrampolineBuffer_def run_bind_Inr_iff by (auto simp: run_bind_Inr_iff)
  have k1: "keeps_table s s1 \<and> (\<exists>b. e1 = e\<lparr>route := (route e)\<lparr>trampoline_buffer := b\<rparr>\<rparr>)"
  proof (cases "near_branch_trampoline s \<noteq> 0")
    case True
    then obtain b where b: "be_near be env src dst s = Some (Inr (b, s1))"
      "e1 = e \<or> (\<exists>b. e1 = e\<lparr>route := (route e)\<lparr>trampoline_buffer := b\<rparr>\<rparr>)"
      using 1(1) by (auto simp: near_GenerateTrampolineBuffer_def run_bind_Inr_iff split: option.splits)
    have "e = e\<lparr>route := (route e)\<lparr>trampoline_buffer := trampoline_buffer (route e)\<rparr>\<rparr>" by simp
    then show ?thesis using near_keeps [OF b(1)] b(2) by metis
  next
    case False
    have "e = e\<lparr>route := (route e)\<lparr>trampoline_buffer := trampoline_buffer (route e)\<rparr>\<rparr>" by simp
    then show ?thesis using 1(1) False by (metis (no_types) Inr_inject keeps_table_refl option.inject prod.inject)
  qed
  show ?thesis
  proof (cases "trampoline_buffer (route e1) = None")
    case True
    then obtain b where b: "be_normal be env src dst s1 = Some (Inr (b, s'))" "e' = e1\<lparr>route := (route e1)\<lparr>trampoline_buffer := b\<rparr>\<rparr>"
      using 1(2) by (auto simp: run_bind_Inr_iff)
    then show ?thesis using k1 normal_keeps [OF b(1)] by (auto intro: keeps_table_trans)
  next
    case False
    then show ?thesis using 1(2) k1 by auto
  qed
qed

lemma GenerateRelocatedCode_spec:
  assumes "GenerateRelocatedCode be env e s = Some (Inr (e', s'))" "length (ib_data (origin_instructions e)) = 64"
  shows "keeps_table s s'" "same_hook e e'" "routed e'"
proof -
  from assms(1) obtain b r where b: "trampoline_buffer (route e) = Some b" "getSize b \<le> 64"
      "be_relocate be env (target_address e) (FinalizeFromAddress (target_address e) (getSize b)) (FinalizeFromAddress 0 0) s = Some (Inr (r, s'))"
      "e' = e\<lparr>route := (route e)\<lparr>origin_code := Some (FinalizeFromAddress (target_address e) (getSize b)), relocated_code := Some r\<rparr>,
                     relocated_origin := mr_address r,
                     origin_instructions := \<lparr>ib_address = mr_address (FinalizeFromAddress (target_address e) (getSize b)), ib_size = getSize b,
                       ib_data = fetch (e_mem (process s')) (target_address e) (getSize b)
                         @ drop (getSize b) (ib_data (origin_instructions e))\<rparr>\<rparr>"
    by (auto simp: GenerateRelocatedCode_def Let_def run_bind_Inr_iff split: option.splits if_splits)
  show "keeps_table s s'" using relocate_keeps [OF b(3)] .
  show "same_hook e e'" "routed e'"
    using b assms(2) by (simp_all add: same_hook_def routed_def FinalizeFromAddress_def fetch_def)
qed

lemma build_spec:
  assumes "run_bind (GenerateTrampolineBuffer be env src dst e s) (\<lambda>(e2, s2). GenerateRelocatedCode be env e2 s2) = Some (Inr (e', s'))"
    and "length (ib_data (origin_instructions e)) = 64"
  shows "keeps_table s s'" "same_hook e e'" "routed e'"
proof -
  obtain e2 s2 where g: "GenerateTrampolineBuffer be env src dst e s = Some (Inr (e2, s2))"
      "GenerateRelocatedCode be env e2 s2 = Some (Inr (e', s'))"
    using assms(1) by (auto simp: run_bind_Inr_iff)
  obtain b where e2: "keeps_table s s2" "e2 = e\<lparr>route := (route e)\<lparr>trampoline_buffer := b\<rparr>\<rparr>"
    using GenerateTrampolineBuffer_spec [OF g(1)] by blast
  have "length (ib_data (origin_instructions e2)) = 64" using assms(2) e2(2) by simp
  note r = GenerateRelocatedCode_spec [OF g(2) this]
  show "keeps_table s s'" "same_hook e e'" "routed e'" using e2 r keeps_table_trans by (auto simp: same_hook_def)
qed


text \<open>\<^verbatim>\<open>DobbyHook\<close>: either the function was found hooked to the same replacement, or an entry is added.\<close>

lemma DobbyHook_cases:
  assumes "DobbyHook be env f r s = Some (Inr ((st, oc), s'))"
  obtains (found) e where "st = RS_FAILED" "oc = None" "s' = snd (SharedInstance s)"
      "FindHookEntry (hook_heap s) f 0 (fst (SharedInstance s)) = Inr (Some e)" "trampoline_target (route e) = r"
  | (added) e a where "st = RS_SUCCESS" "oc = Some (relocated_origin e)" "hook_added env s a e s'"
      "target_address e = f" "hook_type e = kFunctionInlineHook" "trampoline_target (route e) = r"
      "closure_heap s' = closure_heap s" "news s' = news s + 1"
proof -
  obtain a s1 where sh: "SharedInstance s = (a, s1)" by (metis surj_pair)
  note s1 = SharedInstance_spec [OF sh]
  have heap: "hook_heap s1 = hook_heap s" using s1 by simp
  obtain found where f: "FindHookEntry (hook_heap s) f 0 a = Inr found"
    and rest: "(if (case found of None \<Rightarrow> False | Some e \<Rightarrow> trampoline_target (route e) = r)
     then run_bind (FATAL env) (\<lambda>_. Some (Inr ((RS_FAILED, None), s1)))
     else run_bind (BuildReplaceRouting be env (new_HookEntry f (getCount a) kFunctionInlineHook r) (s1\<lparr>news := news s1 + 1\<rparr>)) (\<lambda>(e', s3).
          run_bind (Commit env e' (AddHookEntry (de_new env (news s1)) e' s3)) (\<lambda>s4.
            Some (Inr ((RS_SUCCESS, Some (relocated_origin e')), s4))))) = Some (Inr ((st, oc), s'))"
    using assms unfolding DobbyHook_def run_bind_Inr_iff [of _ "\<lambda>_. _"] sh operator_new_def Let_def split_conv heap
    by (cases "FindHookEntry (hook_heap s) f 0 a") auto
  show thesis
  proof (cases "case found of None \<Rightarrow> False | Some e \<Rightarrow> trampoline_target (route e) = r")
    case True
    then obtain e where "found = Some e" "trampoline_target (route e) = r" by (cases found) auto
    then show thesis using rest f sh True by (intro that(1) [of e]) (auto simp: run_bind_Inr_iff)
  next
    case False
    let ?e0 = "new_HookEntry f (getCount a) kFunctionInlineHook r" and ?p = "de_new env (news s1)"
    let ?e1 = "?e0\<lparr>route := (route ?e0)\<lparr>trampoline_target := route_call (route ?e0)\<rparr>\<rparr>"
    obtain e' s3 where b: "BuildReplaceRouting be env ?e0 (s1\<lparr>news := news s1 + 1\<rparr>) = Some (Inr (e', s3))"
      and c: "Commit env e' (AddHookEntry ?p e' s3) = Some (Inr s')" and st: "st = RS_SUCCESS" "oc = Some (relocated_origin e')"
      using rest False by (auto simp: run_bind_Inr_iff)
    have "length (ib_data (origin_instructions ?e1)) = 64" by (simp add: new_HookEntry_def)
    note k = build_spec [OF b [unfolded BuildReplaceRouting_def Let_def] this]
    note t = k(1) [unfolded keeps_table_def] Commit_keeps [OF c, unfolded keeps_table_def]
    show thesis
    proof (rule that(2) [OF st])
      show "hook_added env s a e' s'"
        using s1 t k(2,3) by (auto simp: hook_added_def AddHookEntry_def same_hook_def new_HookEntry_def)
    qed (use s1 t k(2) in \<open>simp_all add: same_hook_def AddHookEntry_def new_HookEntry_def new_InterceptRouting_def\<close>)
  qed
qed

lemma CreateClosureTrampoline_spec:
  assumes "CreateClosureTrampoline be env data handler s = Some (Inr (c, s'))"
  shows "carry_data c = data" "carry_handler c = handler" "interceptor s' = interceptor s" "hook_heap s' = hook_heap s"
    "closure_heap s' = (closure_heap s)(de_new env (news s) \<mapsto> c)" "news s' = news s + 1"
proof -
  obtain junk os n p bridge arena e arena' e' where "be_closure be junk os n p bridge data handler arena e = Inr (c, arena', e')"
    using assms by (auto simp: CreateClosureTrampoline_def operator_new_def Let_def res_bind_Inr_iff)
  from closure_carries [OF this] show "carry_data c = data" "carry_handler c = handler" by simp_all
  show "interceptor s' = interceptor s" "hook_heap s' = hook_heap s" "closure_heap s' = (closure_heap s)(de_new env (news s) \<mapsto> c)" "news s' = news s + 1"
    using assms by (auto simp: CreateClosureTrampoline_def operator_new_def Let_def res_bind_Inr_iff)
qed

text \<open>\<^verbatim>\<open>DobbyInstrument\<close> likewise; the closure it makes carries the new entry.\<close>

lemma DobbyInstrument_cases:
  assumes "DobbyInstrument be env f h s = Some (Inr (st, s'))"
  obtains (found) "st = RS_FAILED" "s' = snd (SharedInstance s)"
  | (added) e a c where "st = RS_SUCCESS" "hook_added env s a e s'" "target_address e = f" "hook_type e = kDynamicBinaryInstrument"
      "route_call (route e) = h" "trampoline_target (route e) = cte_address c" "carry_data c = de_new env (news s)"
      "carry_handler c = de_dispatch env" "closure_heap s' = (closure_heap s)(de_new env (news s + 1) \<mapsto> c)" "news s' = news s + 2"
proof -
  obtain a s1 where sh: "SharedInstance s = (a, s1)" by (metis surj_pair)
  note s1 = SharedInstance_spec [OF sh]
  have heap: "hook_heap s1 = hook_heap s" using s1 by simp
  obtain found where f: "FindHookEntry (hook_heap s) f 0 a = Inr found"
    and rest: "(if (case found of None \<Rightarrow> False | Some e \<Rightarrow> route_call (route e) = h)
     then run_bind (FATAL env) (\<lambda>_. Some (Inr (RS_FAILED, s1)))
     else run_bind (BuildDynamicBinaryInstrumentRouting be env (de_new env (news s1)) (new_HookEntry f (getCount a) kDynamicBinaryInstrument h)
            (s1\<lparr>news := news s1 + 1\<rparr>)) (\<lambda>(e', s3).
          run_bind (Commit env e' (AddHookEntry (de_new env (news s1)) e' s3)) (\<lambda>s4. Some (Inr (RS_SUCCESS, s4))))) = Some (Inr (st, s'))"
    using assms unfolding DobbyInstrument_def run_bind_Inr_iff [of _ "\<lambda>_. _"] sh operator_new_def Let_def split_conv heap
    by (cases "FindHookEntry (hook_heap s) f 0 a") auto
  show thesis
  proof (cases "case found of None \<Rightarrow> False | Some e \<Rightarrow> route_call (route e) = h")
    case True
    then show thesis using rest sh by (intro that(1)) (auto simp: run_bind_Inr_iff split: option.splits)
  next
    case False
    let ?e0 = "new_HookEntry f (getCount a) kDynamicBinaryInstrument h" and ?p = "de_new env (news s1)"
    obtain e' s3 where b: "BuildDynamicBinaryInstrumentRouting be env ?p ?e0 (s1\<lparr>news := news s1 + 1\<rparr>) = Some (Inr (e', s3))"
      and c: "Commit env e' (AddHookEntry ?p e' s3) = Some (Inr s')" and st: "st = RS_SUCCESS"
      using rest False by (auto simp: run_bind_Inr_iff)
    obtain cl s2 where cl: "CreateClosureTrampoline be env ?p (de_dispatch env) (s1\<lparr>news := news s1 + 1\<rparr>) = Some (Inr (cl, s2))"
      and g: "run_bind (GenerateTrampolineBuffer be env (target_address ?e0) (cte_address cl)
          (?e0\<lparr>route := (route ?e0)\<lparr>trampoline_target := cte_address cl, prologue_dispatch_bridge := cte_address cl\<rparr>\<rparr>) s2)
        (\<lambda>(e2, s2). GenerateRelocatedCode be env e2 s2) = Some (Inr (e', s3))"
      using b by (auto simp: BuildDynamicBinaryInstrumentRouting_def run_bind_Inr_iff Let_def)
    note k = build_spec [OF g]
    note t = k(1) [unfolded keeps_table_def] Commit_keeps [OF c, unfolded keeps_table_def] CreateClosureTrampoline_spec [OF cl]
    show thesis
    proof (rule that(2) [OF st])
      show "hook_added env s a e' s'"
        using s1 t k(2,3) by (auto simp: hook_added_def AddHookEntry_def same_hook_def new_HookEntry_def)
    qed (use s1 t k(2) in \<open>simp_all add: same_hook_def AddHookEntry_def new_HookEntry_def new_InterceptRouting_def\<close>)
  qed
qed

end

interpretation x64b: hook_backend x64_backend
proof
  show "be_closure x64_backend junk os n p bridge data handler arena e = Inr (c, arena', e') \<Longrightarrow> carry_data c = data \<and> carry_handler c = handler"
    for junk os n p bridge data handler arena e c arena' e'
    by (auto simp: x64_backend_def CreateClosureTrampoline_x64_def res_bind_Inr_iff)
qed (auto simp: x64_backend_def normal_x64_def relocate_x64_def run_bind_Inr_iff keeps_table_def)

interpretation a64b: hook_backend a64_backend
proof
  show "be_closure a64_backend junk os n p bridge data handler arena e = Inr (c, arena', e') \<Longrightarrow> carry_data c = data \<and> carry_handler c = handler"
    for junk os n p bridge data handler arena e c arena' e'
    by (auto simp: a64_backend_def CreateClosureTrampoline_a64_def res_bind_Inr_iff)
qed (auto simp: a64_backend_def normal_a64_def near_a64_def relocate_a64_def run_bind_Inr_iff res_bind_Inr_iff keeps_table_def)

section \<open>The invariant of the table\<close>

text \<open>
  The entries stand in the array in the order of their numbers, each at its own address, with a complete routing;
  every entry of the heap is in the array; and every closure carries an instrumented entry whose redirect leads to
  the closure.
\<close>

definition entry_ok :: "nat \<Rightarrow> HookEntry \<Rightarrow> bool" where
  "entry_ok i e \<longleftrightarrow> hook_id e = of_nat i \<and> routed e"

definition closure_ok :: "dobby_env \<Rightarrow> dobby \<Rightarrow> ClosureTrampolineEntry \<Rightarrow> bool" where
  "closure_ok env s c \<longleftrightarrow> carry_handler c = de_dispatch env \<and> (\<exists>e. hook_heap s (carry_data c) = Some e
     \<and> hook_type e = kDynamicBinaryInstrument \<and> trampoline_target (route e) = cte_address c)"

definition made :: "dobby_env \<Rightarrow> dobby \<Rightarrow> u64 set" where
  "made env s = de_new env ` {..<news s}"

definition entries_of :: "dobby \<Rightarrow> u64 list" where
  "entries_of s = (case interceptor s of None \<Rightarrow> [] | Some a \<Rightarrow> objects a)"

definition hooks_ok :: "dobby_env \<Rightarrow> dobby \<Rightarrow> bool" where
  "hooks_ok env s \<longleftrightarrow> (\<forall>a. interceptor s = Some a \<longrightarrow> arr_ok a) \<and> distinct (entries_of s) \<and> set (entries_of s) \<subseteq> made env s
     \<and> dom (hook_heap s) = set (entries_of s)
     \<and> (\<forall>i < length (entries_of s). \<exists>e. hook_heap s (entries_of s ! i) = Some e \<and> entry_ok i e)
     \<and> (\<forall>p c. closure_heap s p = Some c \<longrightarrow> closure_ok env s c)"

lemma hook_added_entries:
  assumes "hook_added env s a e s'" "hooks_ok env s" "length (entries_of s) < 2 ^ 29"
  shows "entries_of s' = entries_of s @ [de_new env (news s)]" "\<forall>a. interceptor s' = Some a \<longrightarrow> arr_ok a" "hook_id e = of_nat (length (entries_of s))"
proof -
  have a: "arr_ok a" "objects a = entries_of s" "getCount a = length (entries_of s)"
    using assms(1,2) by (auto simp: hook_added_def hooks_ok_def entries_of_def)
  then have "getCount a < 2 ^ 29" using assms(3) by simp
  then obtain a' where "pushObject (de_new env (news s)) a = (True, a')" "arr_ok a'" "objects a' = objects a @ [de_new env (news s)]"
    using pushObject_props [OF a(1)] by blast
  then show "entries_of s' = entries_of s @ [de_new env (news s)]" "\<forall>a. interceptor s' = Some a \<longrightarrow> arr_ok a" "hook_id e = of_nat (length (entries_of s))"
    using assms(1) a by (auto simp: hook_added_def entries_of_def)
qed

lemma hook_added_ok:
  assumes "hook_added env s a e s'" "hooks_ok env s" "length (entries_of s) < 2 ^ 29" "inj_on (de_new env) {..news s}" "news s < news s'"
    and "\<forall>p c. closure_heap s' p = Some c \<longrightarrow> closure_heap s p = Some c \<or> closure_ok env s' c"
  shows "hooks_ok env s'"
proof -
  let ?p = "de_new env (news s)"
  note en = hook_added_entries [OF assms(1-3)]
  have fresh: "?p \<notin> made env s" using assms(4) unfolding made_def inj_on_def by force
  have mono: "made env s \<subseteq> made env s'" "?p \<in> made env s'" using assms(5) by (auto simp: made_def)
  have h: "hook_heap s' = (hook_heap s)(?p \<mapsto> e)" "routed e" using assms(1) by (simp_all add: hook_added_def)
  have old: "\<And>i. i < length (entries_of s) \<Longrightarrow> \<exists>e. hook_heap s (entries_of s ! i) = Some e \<and> entry_ok i e"
    "distinct (entries_of s)" "set (entries_of s) \<subseteq> made env s" "dom (hook_heap s) = set (entries_of s)"
    using assms(2) by (auto simp: hooks_ok_def)
  have ne: "entries_of s ! i \<noteq> ?p" if "i < length (entries_of s)" for i using old(3) fresh that nth_mem by fastforce
  have cl: "closure_ok env s' c" if "closure_ok env s c" for c
    using that fresh old(3,4) h(1) by (auto simp: closure_ok_def)
  have "\<exists>e. hook_heap s' (entries_of s' ! i) = Some e \<and> entry_ok i e" if "i < length (entries_of s')" for i
    using that old(1) [of i] ne [of i] h en by (auto simp: nth_append less_Suc_eq entry_ok_def)
  moreover have "\<forall>p c. closure_heap s' p = Some c \<longrightarrow> closure_ok env s' c" using assms(2,6) cl unfolding hooks_ok_def by blast
  ultimately show ?thesis
    unfolding hooks_ok_def using en old fresh mono h by auto
qed

text \<open>What every call keeps: the invariant, and bounds on the number of entries and of objects after \<open>n\<close> calls.\<close>

definition table_after :: "dobby_env \<Rightarrow> nat \<Rightarrow> dobby \<Rightarrow> bool" where
  "table_after env n s \<longleftrightarrow> hooks_ok env s \<and> length (entries_of s) \<le> n \<and> news s \<le> 2 * n"

lemma table_after_shared:
  "table_after env n s \<Longrightarrow> table_after env (Suc n) (snd (SharedInstance s))"
  by (auto simp: table_after_def SharedInstance_def hooks_ok_def entries_of_def made_def closure_ok_def Let_def split: option.splits)

lemma table_after_added:
  assumes "table_after env n s" "hook_added env s a e s'" "n < 2 ^ 29" "inj_on (de_new env) {..2 * n}" "news s < news s'" "news s' \<le> news s + 2"
    and "\<forall>p c. closure_heap s' p = Some c \<longrightarrow> closure_heap s p = Some c \<or> closure_ok env s' c"
  shows "table_after env (Suc n) s'"
proof -
  have i: "inj_on (de_new env) {..news s}" using assms(1,4) by (auto simp: table_after_def intro: inj_on_subset)
  have t: "hooks_ok env s" "length (entries_of s) < 2 ^ 29" using assms(1,3) by (auto simp: table_after_def)
  have "hooks_ok env s'" by (rule hook_added_ok [OF assms(2) t i assms(5,7)])
  then show ?thesis using hook_added_entries(1) [OF assms(2) t] assms(1,6) by (auto simp: table_after_def)
qed

lemma table_after_same:
  assumes "table_after env n s" "interceptor s' = interceptor s" "hook_heap s' = hook_heap s" "closure_heap s' = closure_heap s"
    and "news s \<le> news s'" "news s' \<le> news s + 2"
  shows "table_after env (Suc n) s'"
proof -
  have e: "entries_of s' = entries_of s" "closure_ok env s' = closure_ok env s" "made env s \<subseteq> made env s'"
    using assms(2-5) by (auto simp: entries_of_def closure_ok_def fun_eq_iff made_def)
  then show ?thesis using assms unfolding table_after_def hooks_ok_def by (simp only: e(1,2) assms(2-4)) (use e(3) in auto)
qed

datatype api_call = Hook u64 u64 | Instrument u64 u64 | Enable_near | Disable_near

definition api_step :: "backend \<Rightarrow> dobby_env \<Rightarrow> api_call \<Rightarrow> dobby \<Rightarrow> dobby run" where
  "api_step be env c s =
     (case c of
        Hook f r \<Rightarrow> run_bind (DobbyHook be env f r s) (\<lambda>(_, s'). Some (Inr s'))
      | Instrument f h \<Rightarrow> run_bind (DobbyInstrument be env f h s) (\<lambda>(_, s'). Some (Inr s'))
      | Enable_near \<Rightarrow> Some (Inr (dobby_enable_near_branch_trampoline env s))
      | Disable_near \<Rightarrow> Some (Inr (dobby_disable_near_branch_trampoline s)))"

primrec api_run :: "backend \<Rightarrow> dobby_env \<Rightarrow> api_call list \<Rightarrow> dobby \<Rightarrow> dobby run" where
  "api_run be env [] s = Some (Inr s)"
| "api_run be env (c # cs) s = run_bind (api_step be env c s) (api_run be env cs)"

text \<open>The library before the first call.\<close>

definition dobby_start :: "env64 \<Rightarrow> dobby" where
  "dobby_start p = \<lparr>interceptor = None, hook_heap = (\<lambda>_. None), closure_heap = (\<lambda>_. None), bridge_address = 0,
     near_branch_trampoline = 0, plugins = None, code_arena = None, near_arena = None, process = p, news = 0, os_calls = 0\<rparr>"

lemma table_after_start: "table_after env 0 (dobby_start p)"
  by (simp add: table_after_def hooks_ok_def dobby_start_def entries_of_def)

context hook_backend
begin

lemma api_step_table:
  assumes "table_after env n s" "api_step be env c s = Some (Inr s')" "n < 2 ^ 29" "inj_on (de_new env) {..2 * n}"
  shows "table_after env (Suc n) s'"
proof (cases c)
  case (Hook f r)
  then obtain st oc where "DobbyHook be env f r s = Some (Inr ((st, oc), s'))"
    using assms(2) by (auto simp: api_step_def run_bind_Inr_iff)
  then show ?thesis
  proof (cases rule: DobbyHook_cases)
    case found
    then show ?thesis using table_after_shared [OF assms(1)] by simp
  next
    case (added e a)
    then show ?thesis using table_after_added [OF assms(1) added(3) assms(3,4)] by simp
  qed
next
  case (Instrument f h)
  then obtain st where "DobbyInstrument be env f h s = Some (Inr (st, s'))"
    using assms(2) by (auto simp: api_step_def run_bind_Inr_iff)
  then show ?thesis
  proof (cases rule: DobbyInstrument_cases)
    case found
    then show ?thesis using table_after_shared [OF assms(1)] by simp
  next
    case (added e a c)
    have "closure_ok env s' c" using added(2,4,6,7,8) by (auto simp: closure_ok_def hook_added_def)
    then show ?thesis using table_after_added [OF assms(1) added(2) assms(3,4)] added(9,10) by (simp split: if_splits)
  qed
next
  case Enable_near
  then show ?thesis using assms(2)
    by (intro table_after_same [OF assms(1)])
       (auto simp: api_step_def dobby_enable_near_branch_trampoline_def registerPlugin_def operator_new_def Let_def)
next
  case Disable_near
  then show ?thesis using assms(2)
    by (intro table_after_same [OF assms(1)]) (auto simp: api_step_def dobby_disable_near_branch_trampoline_def)
qed

lemma api_run_table:
  assumes "table_after env n s" "api_run be env cs s = Some (Inr s')" "n + length cs \<le> 2 ^ 29" "inj_on (de_new env) {..2 * (n + length cs)}"
  shows "table_after env (n + length cs) s'"
  using assms
proof (induction cs arbitrary: n s)
  case (Cons c cs)
  obtain s1 where s1: "api_step be env c s = Some (Inr s1)" "api_run be env cs s1 = Some (Inr s')"
    using Cons.prems(2) by (auto simp: run_bind_Inr_iff)
  have "table_after env (Suc n) s1"
    using Cons.prems(1,3,4) by (intro api_step_table [OF _ s1(1)]) (auto intro: inj_on_subset)
  from Cons.IH [OF this s1(2)] show ?case using Cons.prems(3,4) by simp
qed simp

end

section \<open>Hooking a function twice\<close>

lemma find_first:
  assumes "arr_ok a" "i \<le> getCount a" "\<forall>k. i \<le> k \<and> k < getCount a \<longrightarrow> heap (objects a ! k) \<noteq> None"
  shows "FindHookEntry heap f i a =
     Inr (case find (\<lambda>p. map_option target_address (heap p) = Some f) (drop i (objects a)) of None \<Rightarrow> None | Some p \<Rightarrow> heap p)"
  using assms
proof (induction heap f i a rule: FindHookEntry.induct)
  case (1 heap f i a)
  note it = iterator_yields [OF 1(2), of i]
  show ?case
  proof (cases "i < getCount a")
    case True
    then obtain e where e: "heap (objects a ! i) = Some e" using 1(4) by blast
    have d: "drop i (objects a) = objects a ! i # drop (Suc i) (objects a)"
      using True length_objects [OF 1(2)] by (simp add: Cons_nth_drop_Suc)
    show ?thesis
    proof (cases "target_address e = f")
      case True
      then show ?thesis using \<open>i < getCount a\<close> by (subst FindHookEntry.simps) (simp add: it e d)
    next
      case False
      then show ?thesis
        using \<open>i < getCount a\<close> 1(1) [OF it [symmetric], unfolded if_P [OF \<open>i < getCount a\<close>], OF refl e False] 1(2-4)
        by (subst FindHookEntry.simps) (simp add: it e d)
    qed
  next
    case False
    then show ?thesis using 1(2,3) length_objects [OF 1(2)] iterator_yields [OF 1(2), of "getCount a"] by (subst FindHookEntry.simps) simp
  qed
qed

text \<open>The first entry of the table for an address.\<close>

definition first_hook :: "dobby \<Rightarrow> u64 \<Rightarrow> HookEntry option" where
  "first_hook s f = (case find (\<lambda>p. map_option target_address (hook_heap s p) = Some f) (entries_of s) of None \<Rightarrow> None | Some p \<Rightarrow> hook_heap s p)"

lemma FindHookEntry_first:
  assumes "hooks_ok env s" "SharedInstance s = (a, s1)"
  shows "FindHookEntry (hook_heap s) f 0 a = Inr (first_hook s f)"
proof -
  have a: "arr_ok a" "objects a = entries_of s"
    using assms by (auto simp: hooks_ok_def SharedInstance_def entries_of_def Let_def split: option.splits)
  have "\<forall>k. 0 \<le> k \<and> k < getCount a \<longrightarrow> hook_heap s (objects a ! k) \<noteq> None"
    using assms(1) a length_objects [OF a(1)] by (auto simp: hooks_ok_def)
  from find_first [OF a(1) _ this] show ?thesis using a(2) by (simp add: first_hook_def)
qed

lemma DobbyHook_first:
  assumes "hooks_ok env s" "f \<noteq> 0" "first_hook s f = Some e"
  shows "trampoline_target (route e) = r \<Longrightarrow>
    DobbyHook be env f r s = Some (if de_ndebug env then Inr ((RS_FAILED, None), s) else Inl CheckFailed)"
proof -
  obtain a where a: "interceptor s = Some a" using assms(3) by (auto simp: first_hook_def entries_of_def split: option.splits)
  then have sh: "SharedInstance s = (a, s)" by (simp add: SharedInstance_def)
  show "trampoline_target (route e) = r \<Longrightarrow>
    DobbyHook be env f r s = Some (if de_ndebug env then Inr ((RS_FAILED, None), s) else Inl CheckFailed)"
    using assms(2) FindHookEntry_first [OF assms(1) sh, of f] assms(3) by (simp add: DobbyHook_def sh FATAL_def)
qed

end
