(* ===== verification/Relocate_Arm64_Layout.thy ===== *)
theory Relocate_Arm64_Layout
  imports Relocate_Arm64
begin

text \<open>
  The code that the relocation of an ARM64 prologue emits: a block of words per instruction, the branch back behind
  the prologue, and a table with the targets of the relocated branches, which the literal loads of the blocks refer
  to once their labels are bound.
\<close>

unbundle bit_operations_syntax

section \<open>One block per instruction\<close>

definition nop_word :: u32 where "nop_word = 0xD503201F"

definition blr_word :: "nat \<Rightarrow> u32" where
  "blr_word r = 0xD63F0000 OR LFT (of_nat r) 5 5"

definition mov_words :: "nat \<Rightarrow> u64 \<Rightarrow> u32 list" where
  "mov_words r imm = [movw 2 r 0 (quarter 0 imm), movw 3 r 1 (quarter 1 imm), movw 3 r 2 (quarter 2 imm), movw 3 r 3 (quarter 3 imm)]"

definition ldr_word :: "nat \<Rightarrow> nat \<Rightarrow> u32" where
  "ldr_word rt rn = 0xF9400000 OR LFT (of_nat rn) 5 5 OR LFT (of_nat rt) 5 0"

text \<open>
  A block is a list of words, or words around a load of \<open>x17\<close> from the slot of a branch target.
\<close>

datatype relo_block = Words "u32 list" | Jump "u32 list" u64 "u32 list"

definition inverted_block :: "u64 \<Rightarrow> u32 \<Rightarrow> relo_block" where
  "inverted_block target w = Jump [nop_word, w] target [br_word 17, nop_word]"

definition relo_block :: "u64 \<Rightarrow> u32 \<Rightarrow> relo_block option" where
  "relo_block pc w =
     (if w AND 0x3B000000 = 0x18000000 then
        if bits w 30 31 = 0 \<or> bits w 30 31 = 1
        then Some (Words ([nop_word] @ mov_words 17 (decode_imm19_offset w + pc) @ [ldr_word (decode_rt w) 17, nop_word]))
        else None
      else if w AND 0x1F000000 = 0x10000000 then
        Some (Words ([nop_word] @ mov_words (decode_rd w)
          (if w AND 0x9F000000 = 0x10000000 then pc + decode_immhi_immlo_offset w
           else ALIGN_FLOOR pc 0x1000 + decode_immhi_immlo_zero12_offset w) @ [nop_word]))
      else if w AND 0x7C000000 = 0x14000000 then
        Some (Jump [nop_word] (decode_imm26_offset w + pc) [if w AND 0xFC000000 = 0x94000000 then blr_word 17 else br_word 17, nop_word])
      else if w AND 0x7E000000 = 0x36000000 then
        Some (inverted_block (decode_imm14_offset w + pc) (set_bits_c (set_bit_c w 24 (bit_of w 24 XOR 1)) 5 18 3))
      else if w AND 0x7E000000 = 0x34000000 then
        Some (inverted_block (decode_imm19_offset w + pc) (set_bits_c (set_bit_c w 24 (bit_of w 24 XOR 1)) 5 23 3))
      else if w AND 0xFE000000 = 0x54000000 then
        Some (inverted_block (decode_imm19_offset w + pc) (set_bits_c (set_bits_c w 0 3 (bits w 0 3 XOR 1)) 5 23 3))
      else Some (Words [w]))"

fun relo_blocks :: "u64 \<Rightarrow> u32 list \<Rightarrow> relo_block list option" where
  "relo_blocks pc [] = Some []"
| "relo_blocks pc (w # ws) =
     (case relo_block pc w of None \<Rightarrow> None
      | Some b \<Rightarrow> map_option ((#) b) (relo_blocks (pc + 4) ws))"

text \<open>The words of a block before its label is bound, and the number of words.\<close>

primrec raw_block :: "relo_block \<Rightarrow> u32 list" where
  "raw_block (Words ws) = ws"
| "raw_block (Jump us d vs) = us @ [ldr_lit_word 17 0] @ vs"

definition raw_blocks :: "relo_block list \<Rightarrow> u32 list" where
  "raw_blocks bs = concat (map raw_block bs)"

definition link_entry :: "nat \<Rightarrow> TurboAssembler \<Rightarrow> TurboAssembler" where
  "link_entry l a = (Emit_a64 (ldr_lit_word 17 0) a)\<lparr>label_heap := (label_heap a)(l := pl_link_to (pc_offset a) kLdrLiteral (label_heap a l))\<rparr>"

lemma decode_rt_less: "decode_rt w < 32" "decode_rd w < 32"
proof -
  have "unat (bits w 0 4) < 2 ^ 5"
    unfolding bits_def submask_def by (simp add: take_bit_eq_mask [symmetric] take_bit_eq_mod unat_mod)
  then show "decode_rt w < 32" "decode_rd w < 32" by (simp_all add: decode_rt_def decode_rd_def)
qed

lemma ldr_a64_word:
  assumes "r < 32"
  shows "ldr_a64 (Reg_X r) (MemOperand_offset (Reg_X 17) 0 Offset) a = Inr (Emit_a64 (ldr_word r 17) a)"
    "ldr_a64 (Reg_W r) (MemOperand_offset (Reg_X 17) 0 Offset) a = Inr (Emit_a64 (ldr_word r 17) a)"
proof -
  have c: "LoadStoreUnsignedOffset_code LoadStoreUnsignedOffsetFixed OR LoadStoreOp_code LDR_x = 0xF9400000" by code_simp
  have i: "IsImmediateOffset (MemOperand_offset (Reg_X 17) 0 Offset)" "mem_offset (MemOperand_offset (Reg_X 17) 0 Offset) = 0"
    "mem_base (MemOperand_offset (Reg_X 17) 0 Offset) = Reg_X 17" by code_simp+
  have t: "Rt (Reg_W r) = LFT (of_nat r) 5 0" using assms of_nat_AND_mask [of r 5, where 'a = 32] by (simp add: Rt_def Reg_W_def LFT_def)
  have z: "LFT (0 :: u64) 12 10 = 0" by (simp add: LFT_eval)
  have n: "Rn (Reg_X 17) = LFT (of_nat 17) 5 5" by (rule reg_fields) simp
  show "ldr_a64 (Reg_X r) (MemOperand_offset (Reg_X 17) 0 Offset) a = Inr (Emit_a64 (ldr_word r 17) a)"
    "ldr_a64 (Reg_W r) (MemOperand_offset (Reg_X 17) 0 Offset) a = Inr (Emit_a64 (ldr_word r 17) a)"
    using reg_fields(2) [OF assms] c
    by (simp_all add: ldr_a64_def LoadStore_def i Let_def z ldr_word_def n t or.assoc [symmetric])
qed

lemma blr_a64_word: "r < 32 \<Longrightarrow> blr_a64 (Reg_X r) = Emit_a64 (blr_word r)"
  by (simp add: blr_a64_def blr_word_def reg_fields)

lemma Mov_a64_fold: "r < 32 \<Longrightarrow> Mov_a64 (Reg_X r) imm a = fold Emit_a64 (mov_words r imm) a"
  by (simp add: Mov_a64_words mov_words_def)

lemma Ldr_entry_links:
  assumes "\<not> is_bound (label_heap a l)"
  shows "Ldr_entry (Reg_X 17) l a = Inr (link_entry l a)"
  using assms by (simp add: Ldr_entry_def Ldr_a64_def ldr_literal_a64_zero link_entry_def pc_offset_def Emit_a64_def)

lemma label_heap_Emit [simp]: "label_heap (Emit_a64 w a) = label_heap a" "data_labels (Emit_a64 w a) = data_labels a"
  by (simp_all add: Emit_a64_def)

lemma label_heap_fold_Emit [simp]: "label_heap (fold Emit_a64 ws a) = label_heap a" "data_labels (fold Emit_a64 ws a) = data_labels a"
  by (induction ws arbitrary: a) simp_all

lemma label_heap_new_entry [simp]: "label_heap (new_label_entry l d a) = (label_heap a)(l := new_RelocLabelEntry d)"
  by (simp add: new_label_entry_def AppendRelocLabelEntry_a64_def Let_def)

lemma new_entry_unbound [simp]: "\<not> is_bound (new_RelocLabelEntry d)"
  by (simp add: new_RelocLabelEntry_def is_bound_def)

lemma relo_one_block:
  "relo_one l pc w a = (case relo_block pc w of
      None \<Rightarrow> Inl Unimplemented
    | Some (Words ws) \<Rightarrow> Inr (fold Emit_a64 ws a)
    | Some (Jump us d vs) \<Rightarrow> Inr (fold Emit_a64 vs (link_entry l (fold Emit_a64 us (new_label_entry l d a)))))"
  by (simp add: relo_one_def relo_block_def relo_load_literal_def relo_pc_relative_def relo_branch_def relo_test_branch_def
      relo_compare_branch_def relo_conditional_branch_def relo_inverted_def inverted_block_def Let_def Mov_a64_fold decode_rt_less
      ldr_a64_word nop_a64_def nop_word_def Ldr_entry_links br_a64_word blr_a64_word)

section \<open>The loop\<close>

text \<open>
  The recorded labels: number, position of the load and target.  Labels are numbered by the instructions.
\<close>

fun jumps :: "nat \<Rightarrow> nat \<Rightarrow> relo_block list \<Rightarrow> (nat \<times> nat \<times> u64) list" where
  "jumps l p [] = []"
| "jumps l p (Words ws # bs) = jumps (l + 1) (p + 4 * length ws) bs"
| "jumps l p (Jump us d vs # bs) = (l, p + 4 * length us, d) # jumps (l + 1) (p + 4 * (length us + 1 + length vs)) bs"

definition label_at :: "(nat \<Rightarrow> RelocLabelEntry) \<Rightarrow> nat \<times> nat \<times> u64 \<Rightarrow> bool" where
  "label_at heap = (\<lambda>(l, p, d). arr_ok (instructions (heap l)) \<and> objects (instructions (heap l)) = [\<lparr>position = p, pl_type = kLdrLiteral\<rparr>]
     \<and> reloc_data (heap l) = d)"

definition labels_ok :: "TurboAssembler \<Rightarrow> (nat \<times> nat \<times> u64) list \<Rightarrow> bool" where
  "labels_ok a ls \<longleftrightarrow> (case data_labels a of None \<Rightarrow> ls = [] | Some ar \<Rightarrow> arr_ok ar \<and> objects ar = map fst ls) \<and> list_all (label_at (label_heap a)) ls"

lemma jumps_label_ge: "x \<in> set (jumps l p bs) \<Longrightarrow> l \<le> fst x"
  by (induction l p bs rule: jumps.induct) auto

lemma distinct_jumps: "distinct (map fst (jumps l p bs))"
proof (induction l p bs rule: jumps.induct)
  case (3 l p us d vs bs)
  have "l \<notin> fst ` set (jumps (l + 1) (p + 4 * (length us + 1 + length vs)) bs)" using jumps_label_ge by force
  with 3 show ?case by simp
qed simp_all

lemma length_jumps: "length (jumps l p bs) \<le> length bs"
  by (induction l p bs rule: jumps.induct) auto

lemma labels_ok_Emit [simp]: "labels_ok (fold Emit_a64 ws a) ls = labels_ok a ls"
  by (simp add: labels_ok_def)

lemma realized_fold_Emit [simp]: "realized_address (fold Emit_a64 ws a) = realized_address a"
  by (induction ws arbitrary: a) (simp_all add: Emit_a64_def)

lemma code_buffer_new_entry [simp]:
  "code_buffer (new_label_entry l d a) = code_buffer a" "realized_address (new_label_entry l d a) = realized_address a"
  by (simp_all add: new_label_entry_def AppendRelocLabelEntry_a64_def Let_def)

lemma same_code_buffer:
  assumes "code_buffer a = code_buffer b"
  shows "asm_ok a = asm_ok b" "pc_offset a = pc_offset b" "emitted a = emitted b"
  using assms by (simp_all add: asm_ok_def pc_offset_def emitted_def)

lemma jump_emits:
  fixes d :: u64
  assumes "asm_ok a" "pc_offset a + 4 * (length us + 1 + length vs) < 2 ^ 30" "labels_ok a ls" "\<forall>x \<in> set ls. fst x < l" "length ls < 2 ^ 29"
  defines "b \<equiv> fold Emit_a64 vs (link_entry l (fold Emit_a64 us (new_label_entry l d a)))"
  shows "asm_ok b" "emitted b = emitted a @ words_le (us @ [ldr_lit_word 17 0] @ vs)" "pc_offset b = pc_offset a + 4 * (length us + 1 + length vs)"
    "realized_address b = realized_address a" "labels_ok b (ls @ [(l, pc_offset a + 4 * length us, d)])"
proof -
  let ?a1 = "new_label_entry l d a"
  let ?a2 = "fold Emit_a64 us ?a1"
  note s1 = same_code_buffer [of ?a1 a, simplified]
  have e2: "asm_ok ?a2" "emitted ?a2 = emitted a @ words_le us" "pc_offset ?a2 = pc_offset a + 4 * length us"
    using emit_words [of ?a1 us] assms(1,2) s1 by simp_all
  have cb: "code_buffer (link_entry l ?a2) = code_buffer (Emit_a64 (ldr_lit_word 17 0) ?a2)" by (simp add: link_entry_def)
  note s3 = same_code_buffer [OF cb]
  have e3: "asm_ok (link_entry l ?a2)" "emitted (link_entry l ?a2) = emitted a @ words_le (us @ [ldr_lit_word 17 0])"
    "pc_offset (link_entry l ?a2) = pc_offset a + 4 * (length us + 1)"
    using emit_words [of ?a2 "[ldr_lit_word 17 0]"] assms(2) e2 s3 by (simp_all add: words_le_def)
  show "asm_ok b" "emitted b = emitted a @ words_le (us @ [ldr_lit_word 17 0] @ vs)" "pc_offset b = pc_offset a + 4 * (length us + 1 + length vs)"
    using emit_words [of "link_entry l ?a2" vs] assms(2) e3 by (simp_all add: b_def words_le_def)
  show "realized_address b = realized_address a" by (simp add: b_def link_entry_def Emit_a64_def)
  let ?ar = "case data_labels a of None \<Rightarrow> arr_initWithCapacity 8 | Some ar \<Rightarrow> ar"
  have ar: "arr_ok ?ar" "objects ?ar = map fst ls" using assms(3) by (auto simp: labels_ok_def split: option.splits)
  then have "getCount ?ar < 2 ^ 29" using assms(5) length_objects [OF ar(1)] by simp
  then obtain ar' where ar': "pushObject l ?ar = (True, ar')" "arr_ok ar'" "objects ar' = map fst ls @ [l]"
    using pushObject_props [OF ar(1), of l] ar(2) by auto
  have d: "data_labels b = Some ar'" using ar'(1)
    by (simp add: b_def link_entry_def new_label_entry_def AppendRelocLabelEntry_a64_def Let_def)
  have h: "label_heap b = (label_heap a)(l := pl_link_to (pc_offset a + 4 * length us) kLdrLiteral (new_RelocLabelEntry d))"
    by (simp add: b_def link_entry_def e2(3))
  have new: "label_at (label_heap b) (l, pc_offset a + 4 * length us, d)"
    using pl_link_to_fresh [of "new_RelocLabelEntry d"] by (simp add: label_at_def h new_RelocLabelEntry_def pl_link_to_def)
  have "label_at (label_heap b) x" if "x \<in> set ls" for x
  proof -
    have "fst x \<noteq> l" using that assms(4) by auto
    then show ?thesis using that assms(3) h by (auto simp: labels_ok_def label_at_def list_all_iff split: prod.splits)
  qed
  then show "labels_ok b (ls @ [(l, pc_offset a + 4 * length us, d)])"
    unfolding labels_ok_def using new ar' d by (simp add: list_all_iff)
qed

lemma relo_loop_blocks:
  assumes "relo_blocks pc ws = Some bs" "asm_ok a" "pc_offset a + 4 * length (raw_blocks bs) < 2 ^ 30" "labels_ok a ls"
    and "\<forall>x \<in> set ls. fst x < l" "length ls + length bs < 2 ^ 29"
  shows "\<exists>a'. relo_loop l pc ws a = Inr (pc + 4 * of_nat (length ws), a') \<and> asm_ok a' \<and> emitted a' = emitted a @ words_le (raw_blocks bs)
    \<and> pc_offset a' = pc_offset a + 4 * length (raw_blocks bs) \<and> realized_address a' = realized_address a
    \<and> labels_ok a' (ls @ jumps l (pc_offset a) bs)"
  using assms
proof (induction ws arbitrary: l pc a bs ls)
  case Nil
  then show ?case by (simp add: raw_blocks_def)
next
  case (Cons w ws)
  from Cons.prems(1) obtain b cs where b: "relo_block pc w = Some b" "relo_blocks (pc + 4) ws = Some cs" "bs = b # cs"
    by (auto split: option.splits)
  have pc: "pc + 4 + 4 * of_nat (length ws) = pc + 4 * of_nat (length (w # ws))" by (simp add: algebra_simps)
  have len: "length (raw_blocks bs) = length (raw_block b) + length (raw_blocks cs)" by (simp add: b(3) raw_blocks_def)
  show ?case
  proof (cases b)
    case (Words us)
    let ?a = "fold Emit_a64 us a"
    have e: "asm_ok ?a" "emitted ?a = emitted a @ words_le us" "pc_offset ?a = pc_offset a + 4 * length us"
      using emit_words [of a us] Cons.prems(2,3) len Words by simp_all
    have "\<exists>a'. relo_loop (l + 1) (pc + 4) ws ?a = Inr (pc + 4 + 4 * of_nat (length ws), a') \<and> asm_ok a'
        \<and> emitted a' = emitted ?a @ words_le (raw_blocks cs) \<and> pc_offset a' = pc_offset ?a + 4 * length (raw_blocks cs)
        \<and> realized_address a' = realized_address ?a \<and> labels_ok a' (ls @ jumps (l + 1) (pc_offset ?a) cs)"
      by (rule Cons.IH [OF b(2) e(1)]) (use Cons.prems b(3) len Words e(3) in \<open>auto intro: less_SucI\<close>)
    then show ?thesis unfolding pc using b e Words by (simp add: relo_one_block raw_blocks_def words_le_def algebra_simps)
  next
    case (Jump us d vs)
    let ?a = "fold Emit_a64 vs (link_entry l (fold Emit_a64 us (new_label_entry l d a)))"
    have q: "pc_offset a + 4 * (length us + 1 + length vs) < 2 ^ 30" "length ls < 2 ^ 29"
      using Cons.prems(3,6) len Jump by simp_all
    note e = jump_emits [OF Cons.prems(2) q(1) Cons.prems(4,5) q(2), of d]
    have "\<exists>a'. relo_loop (l + 1) (pc + 4) ws ?a = Inr (pc + 4 + 4 * of_nat (length ws), a') \<and> asm_ok a'
        \<and> emitted a' = emitted ?a @ words_le (raw_blocks cs) \<and> pc_offset a' = pc_offset ?a + 4 * length (raw_blocks cs)
        \<and> realized_address a' = realized_address ?a \<and> labels_ok a' ((ls @ [(l, pc_offset a + 4 * length us, d)]) @ jumps (l + 1) (pc_offset ?a) cs)"
      by (rule Cons.IH [OF b(2) e(1) _ e(5)]) (use Cons.prems b(3) len Jump e(3) in \<open>auto intro: less_SucI\<close>)
    then show ?thesis unfolding pc using b e Jump by (simp add: relo_one_block raw_blocks_def words_le_def algebra_simps)
  qed
qed

section \<open>Binding the labels\<close>

fun bind_jumps :: "(nat \<times> nat \<times> u64) list \<Rightarrow> u8 list \<Rightarrow> u8 list" where
  "bind_jumps [] bs = bs"
| "bind_jumps ((l, p, d) # js) bs = bind_jumps js (relink (int (length bs)) p bs @ le_bytes 8 d)"

lemma length_relink [simp]: "p + 4 \<le> length bs \<Longrightarrow> length (relink t p bs) = length bs"
  by (simp add: relink_def)

lemma RelocBind_loop_binds:
  assumes "arr_ok ar" "objects ar = map fst ls" "distinct (map fst ls)" "i \<le> length ls"
    and "asm_ok a" "list_all (label_at (label_heap a)) (drop i ls)" "\<forall>(l, p, d) \<in> set (drop i ls). p + 4 \<le> pc_offset a"
    and "pc_offset a + 8 * (length ls - i) < 2 ^ 30"
  shows "\<exists>a'. RelocBind_loop [i..<length ls] ar a = Inr a' \<and> asm_ok a' \<and> emitted a' = bind_jumps (drop i ls) (emitted a)
    \<and> pc_offset a' = pc_offset a + 8 * (length ls - i) \<and> realized_address a' = realized_address a"
  using assms(4-8)
proof (induction "length ls - i" arbitrary: i a)
  case 0
  then show ?case by simp
next
  case (Suc n)
  then have i: "i < length ls" by simp
  obtain l p d where x: "ls ! i = (l, p, d)" by (metis surj_pair)
  have dr: "drop i ls = (l, p, d) # drop (Suc i) ls" using i x by (metis Cons_nth_drop_Suc)
  have up: "[i..<length ls] = i # [Suc i..<length ls]" using i by (simp add: upt_rec)
  have ob: "getObject i ar = Inr l"
    using getObject_inside [OF assms(1), of i] assms(2) length_objects [OF assms(1)] i x by simp
  have la: "arr_ok (instructions (label_heap a l))" "objects (instructions (label_heap a l)) = [\<lparr>position = p, pl_type = kLdrLiteral\<rparr>]"
    "reloc_data (label_heap a l) = d" "p + 4 \<le> pc_offset a"
    using Suc.prems(3,4) by (auto simp: dr label_at_def)
  obtain a1 where a1: "PseudoBind_a64 (label_heap a l) a = Inr (bind_to (int (pc_offset a)) (label_heap a l), a1)" "asm_ok a1"
      "pc_offset a1 = pc_offset a" "realized_address a1 = realized_address a" "AssemblerBase.more a1 = AssemblerBase.more a"
      "emitted a1 = relink (int (pc_offset a)) p (emitted a)"
    using PseudoBind_a64_relinks [OF Suc.prems(2) la(1)] la(2,4) by auto
  have m: "label_heap a1 = label_heap a" "data_labels a1 = data_labels a"
    using a1(5) by (cases a1; cases a; simp)+
  let ?b = "EmitInt64 d (a1\<lparr>label_heap := (label_heap a1)(l := bind_to (int (pc_offset a)) (label_heap a l))\<rparr>)"
  have len: "length (emitted a) = pc_offset a" using Suc.prems(2) by (simp add: asm_ok_def emitted_def pc_offset_def)
  note sb = same_code_buffer [of "a1\<lparr>label_heap := (label_heap a1)(l := bind_to (int (pc_offset a)) (label_heap a l))\<rparr>" a1, simplified]
  have b: "asm_ok ?b" "emitted ?b = relink (int (length (emitted a))) p (emitted a) @ le_bytes 8 d" "pc_offset ?b = pc_offset a + 8"
    "realized_address ?b = realized_address a"
    using emit_code_ok [of "a1\<lparr>label_heap := (label_heap a1)(l := bind_to (int (pc_offset a)) (label_heap a l))\<rparr>" "le_bytes 8 d"]
      emit_code_emitted [of "a1\<lparr>label_heap := (label_heap a1)(l := bind_to (int (pc_offset a)) (label_heap a l))\<rparr>" "le_bytes 8 d"]
      pc_offset_emit_code [of "a1\<lparr>label_heap := (label_heap a1)(l := bind_to (int (pc_offset a)) (label_heap a l))\<rparr>" "le_bytes 8 d"]
      a1 sb Suc.prems(2,5) i len by (simp_all add: EmitInt64_emit_code)
  have rd: "reloc_data (bind_to (int (pc_offset a)) (label_heap a l)) = d" using la(3) by (simp add: bind_to_def)
  have hb: "label_heap ?b = (label_heap a)(l := bind_to (int (pc_offset a)) (label_heap a l))" by (simp add: EmitInt64_def m)
  have other: "list_all (label_at (label_heap ?b)) (drop (Suc i) ls)"
  proof -
    have "distinct (map fst (drop i ls))" using distinct_drop [OF assms(3), of i] by (simp only: drop_map)
    then have "l \<notin> fst ` set (drop (Suc i) ls)" by (simp add: dr)
    then have "label_at (label_heap ?b) x = label_at (label_heap a) x" if "x \<in> set (drop (Suc i) ls)" for x
      using that by (cases x) (force simp: label_at_def hb)
    then show ?thesis using Suc.prems(3) by (simp add: dr list_all_iff)
  qed
  have "\<exists>a'. RelocBind_loop [Suc i..<length ls] ar ?b = Inr a' \<and> asm_ok a' \<and> emitted a' = bind_jumps (drop (Suc i) ls) (emitted ?b)
    \<and> pc_offset a' = pc_offset ?b + 8 * (length ls - Suc i) \<and> realized_address a' = realized_address ?b"
    by (rule Suc.hyps(1)) (use Suc.hyps(2) Suc.prems(4,5) i b other dr in auto)
  moreover have "RelocBind_loop [i..<length ls] ar a = RelocBind_loop [Suc i..<length ls] ar ?b"
    unfolding up using ob a1(1) rd by simp
  moreover have "length ls - i = Suc (length ls - Suc i)" using i by simp
  ultimately show ?case using b dr by (simp add: add.assoc)
qed

text \<open>
  The words of the blocks once the labels are bound: \<open>S\<close> is the place of the slot of the next label and \<open>p\<close> that of
  the next block, both counted in words.
\<close>

fun bound_blocks :: "nat \<Rightarrow> nat \<Rightarrow> relo_block list \<Rightarrow> u32 list" where
  "bound_blocks S p [] = []"
| "bound_blocks S p (Words ws # bs) = ws @ bound_blocks S (p + length ws) bs"
| "bound_blocks S p (Jump us d vs # bs) =
     us @ [ldr_lit_word 17 (of_nat (S - (p + length us)))] @ vs @ bound_blocks (S + 2) (p + length us + 1 + length vs) bs"

primrec targets :: "relo_block list \<Rightarrow> u64 list" where
  "targets [] = []"
| "targets (b # bs) = (case b of Words _ \<Rightarrow> [] | Jump _ d _ \<Rightarrow> [d]) @ targets bs"

lemma words_le_append [simp]: "words_le (xs @ ys) = words_le xs @ words_le ys"
  by (simp add: words_le_def)

lemma length_bound_blocks [simp]: "length (bound_blocks S p bs) = length (raw_blocks bs)"
  by (induction S p bs rule: bound_blocks.induct) (simp_all add: raw_blocks_def)

lemma bind_jumps_blocks:
  assumes "length ps = p" "4 * S = length (words_le ps @ words_le (raw_blocks bs) @ tail)" "S + 2 * length bs < 2 ^ 18"
  shows "bind_jumps (jumps l (4 * p) bs) (words_le ps @ words_le (raw_blocks bs) @ tail) =
    words_le ps @ words_le (bound_blocks S p bs) @ tail @ concat (map (le_bytes 8) (targets bs))"
  using assms
proof (induction S p bs arbitrary: l ps tail rule: bound_blocks.induct)
  case (1 S p)
  then show ?case by (simp add: raw_blocks_def)
next
  case (2 S p ws bs)
  have q: "length (ps @ ws) = p + length ws" "4 * (p + length ws) = 4 * p + 4 * length ws" using 2(2) by simp_all
  show ?case using 2(1) [OF q(1), of tail "l + 1"] 2(3,4) by (simp add: raw_blocks_def q(2) algebra_simps)
next
  case (3 S p us d vs bs)
  let ?pos = "4 * (p + length us)" and ?k = "S - (p + length us)"
  let ?bytes = "words_le ps @ words_le us @ le_bytes 4 (ldr_lit_word 17 0) @ words_le vs @ words_le (raw_blocks bs) @ tail"
  have le: "p + length us \<le> S" using 3(2,3) by (simp add: raw_blocks_def)
  have len: "length ?bytes = ?pos + 4 * ?k" using 3(3) le by (simp add: raw_blocks_def)
  have r: "relink (int (length ?bytes)) ?pos ?bytes =
      (words_le ps @ words_le us) @ le_bytes 4 (ldr_lit_word 17 (of_nat ?k)) @ words_le vs @ words_le (raw_blocks bs) @ tail"
    unfolding len using relink_ldr [of 17 ?k "words_le ps @ words_le us" ?pos 0 "words_le vs @ words_le (raw_blocks bs) @ tail"] 3(2,4)
    by simp
  let ?qs = "ps @ us @ [ldr_lit_word 17 (of_nat ?k)] @ vs"
  have "bind_jumps (jumps (l + 1) (4 * (p + length us + 1 + length vs)) bs) (words_le ?qs @ words_le (raw_blocks bs) @ (tail @ le_bytes 8 d)) =
      words_le ?qs @ words_le (bound_blocks (S + 2) (p + length us + 1 + length vs) bs) @ (tail @ le_bytes 8 d) @ concat (map (le_bytes 8) (targets bs))"
    by (rule 3(1)) (use 3(2-4) in \<open>auto simp: raw_blocks_def\<close>)
  then show ?case using r by (simp add: raw_blocks_def algebra_simps)
qed

section \<open>The relocated code\<close>

definition relocated_code_a64 :: "u64 \<Rightarrow> nat \<Rightarrow> relo_block list \<Rightarrow> u8 list" where
  "relocated_code_a64 orig n bs =
     words_le (bound_blocks (length (raw_blocks bs) + 4) 0 bs) @ words_le [ldr_lit_word 17 2, br_word 17] @ le_bytes 8 (orig + 4 * of_nat n)
       @ concat (map (le_bytes 8) (targets bs))"

lemma length_targets: "length (targets bs) \<le> length bs \<and> length (jumps l p bs) = length (targets bs)"
  by (induction l p bs rule: jumps.induct) simp_all

lemma length_dwords [simp]: "length (concat (map (le_bytes 8) (ds :: u64 list))) = 8 * length ds"
  by (simp add: length_concat comp_def sum_list_triv)

lemma length_relocated_code_a64 [simp]:
  "length (relocated_code_a64 orig n bs) = 4 * length (raw_blocks bs) + 16 + 8 * length (targets bs)"
  by (simp add: relocated_code_a64_def)

lemma jumps_inside: "(l', p', d) \<in> set (jumps l p bs) \<Longrightarrow> p' + 4 \<le> p + 4 * length (raw_blocks bs)"
  by (induction l p bs rule: jumps.induct) (auto simp: raw_blocks_def)

lemma relocation_a64_emits:
  assumes "relo_blocks orig ws = Some bs" "length (raw_blocks bs) + 4 + 2 * length bs < 2 ^ 18"
  shows "\<exists>a a1 a2. relo_loop 0 orig ws (new_TurboAssembler junk 0) = Inr (orig + 4 * of_nat (length ws), a)
    \<and> LiteralLdrBranch_a64 (orig + 4 * of_nat (length ws)) a = Inr a1 \<and> RelocBind_a64 a1 = Inr a2
    \<and> asm_ok a2 \<and> emitted a2 = relocated_code_a64 orig (length ws) bs \<and> realized_address a2 = 0"
proof -
  let ?a0 = "new_TurboAssembler junk 0"
  have a0: "asm_ok ?a0" "emitted ?a0 = []" "pc_offset ?a0 = 0" "realized_address ?a0 = 0" "labels_ok ?a0 []"
    by (simp_all add: new_TurboAssembler_def asm_ok_def emitted_def pc_offset_def initWithCapacity_def buf_ok_def contents_def getSize_def labels_ok_def)
  obtain a where a: "relo_loop 0 orig ws ?a0 = Inr (orig + 4 * of_nat (length ws), a)" "asm_ok a" "emitted a = words_le (raw_blocks bs)"
      "pc_offset a = 4 * length (raw_blocks bs)" "realized_address a = 0" "labels_ok a (jumps 0 0 bs)"
    using relo_loop_blocks [OF assms(1) a0(1) _ a0(5), of 0] a0 assms(2) by auto
  have small: "pc_offset a + 16 < 2 ^ 30" using a(4) assms(2) by simp
  obtain a1 where a1: "LiteralLdrBranch_a64 (orig + 4 * of_nat (length ws)) a = Inr a1" "asm_ok a1" "pc_offset a1 = pc_offset a + 16"
      "realized_address a1 = realized_address a" "AssemblerBase.more a1 = AssemblerBase.more a"
      "emitted a1 = emitted a @ words_le [ldr_lit_word 17 2, br_word 17] @ le_bytes 8 (orig + 4 * of_nat (length ws))"
    using LiteralLdrBranch_a64_emits [OF a(2) small] by blast
  have m: "label_heap a1 = label_heap a" "data_labels a1 = data_labels a" using a1(5) by (cases a1; cases a; simp)+
  let ?js = "jumps 0 0 bs"
  let ?tail = "words_le [ldr_lit_word 17 2, br_word 17] @ le_bytes 8 (orig + 4 * of_nat (length ws))"
  have lab: "list_all (label_at (label_heap a1)) (drop 0 ?js)" using a(6) m by (simp add: labels_ok_def)
  have pos: "\<forall>(l, p, d) \<in> set (drop 0 ?js). p + 4 \<le> pc_offset a1" using jumps_inside [of _ _ _ 0 0 bs] a1(3) a(4) by fastforce
  have room: "pc_offset a1 + 8 * (length ?js - 0) < 2 ^ 30" using a1(3) a(4) length_targets [of bs 0 0] assms(2) by simp
  have "\<exists>a2. RelocBind_a64 a1 = Inr a2 \<and> asm_ok a2 \<and> emitted a2 = bind_jumps ?js (emitted a1) \<and> realized_address a2 = 0"
  proof (cases "data_labels a")
    case None
    then show ?thesis using a(5,6) a1 m by (simp add: RelocBind_a64_def labels_ok_def)
  next
    case (Some ar)
    then have ar: "arr_ok ar" "objects ar = map fst ?js" using a(6) by (simp_all add: labels_ok_def)
    then have "getCount ar = length ?js" using length_objects [OF ar(1)] by simp
    then show ?thesis
      using RelocBind_loop_binds [OF ar distinct_jumps le0 a1(2) lab pos room] Some m a1(4) a(5) by (auto simp: RelocBind_a64_def)
  qed
  moreover have "bind_jumps ?js (emitted a1) = relocated_code_a64 orig (length ws) bs"
    using bind_jumps_blocks [of "[]" 0 "length (raw_blocks bs) + 4" bs ?tail 0] assms(2) a1(6) a(3)
    by (simp add: relocated_code_a64_def)
  ultimately show ?thesis using a(1) a1(1) by auto
qed

lemma GenRelocateCode_a64_installs:
  assumes "relo_blocks orig ws = Some bs" "length (raw_blocks bs) + 4 + 2 * length bs < 2 ^ 18"
  defines "code \<equiv> relocated_code_a64 orig (length ws) bs"
  assumes "AllocateCodeChunk os_alloc (2 ^ k) (length code + 4) arena = (Some chunk, arena')" "k < 63"
    and "unat (mr_address chunk - ALIGN_FLOOR (mr_address chunk) (2 ^ k)) + length code \<le> 2 ^ k"
  shows "\<exists>e'. GenRelocateCode_a64 junk os_alloc (2 ^ k) orig ws arena e = Inr (FinalizeFromAddress (mr_address chunk) (length code), arena', e')
    \<and> e_mem e' = (\<lambda>a. if unat (a - mr_address chunk) < length code then code ! unat (a - mr_address chunk) else e_mem e a)"
proof -
  obtain a a1 a2 where g: "relo_loop 0 orig ws (new_TurboAssembler junk 0) = Inr (orig + 4 * of_nat (length ws), a)"
      "LiteralLdrBranch_a64 (orig + 4 * of_nat (length ws)) a = Inr a1" "RelocBind_a64 a1 = Inr a2"
      "asm_ok a2" "emitted a2 = code" "realized_address a2 = 0"
    using relocation_a64_emits [OF assms(1,2), of junk] unfolding code_def by blast
  have c: "contents (code_buffer a2) = code" "getSize (code_buffer a2) = length code"
    using g(4,5) length_contents [of "code_buffer a2"] by (simp_all add: emitted_def asm_ok_def)
  obtain e' where e': "CodePatch (2 ^ k) (mr_address chunk) code e = Inr e'"
      "e_mem e' = (\<lambda>a. if unat (a - mr_address chunk) < length code then code ! unat (a - mr_address chunk) else e_mem e a)"
    using CodePatch_in_page [OF assms(6,5), of e] by blast
  have "FinalizeFromTurboAssember 4 os_alloc (2 ^ k) a2 arena e =
      Inr (FinalizeFromAddress (mr_address chunk) (length code), CommitRealizeAddress (mr_address chunk) a2, arena', e')"
    using assms(4) e'(1) c g(6) by (simp add: FinalizeFromTurboAssember_def)
  then show ?thesis using e'(2) g(1-3) by (simp add: GenRelocateCode_a64_def)
qed

end
