(* ===== verification/Relocate_Arm64_Exec.thy ===== *)
theory Relocate_Arm64_Exec
  imports Relocate_Arm64_Layout
begin

text \<open>
  The relocated prologue of ARM64 behaves as the original: every block of relocated code simulates the instruction it
  was made from, with only the scratch register \<open>x17\<close> changed beyond what the instruction does, and the code ends in a
  branch to the rest of the function.
\<close>

unbundle bit_operations_syntax

section \<open>Offsets\<close>

lemma SignExtend_push:
  assumes "0 < n" "k + n \<le> 64"
  shows "SignExtend (push_bit k x) (k + n) 64 = push_bit k (of_int (signed_take_bit (n - 1) (uint x)))"
proof (rule bit_word_eqI)
  fix i assume i: "i < LENGTH(64)"
  obtain m where m: "n = Suc m" using assms(1) by (cases n) auto
  have "i - k = m \<or> \<not> i \<le> k + m \<or> i < k + m" if "k \<le> i" using that by auto
  then show "bit (SignExtend (push_bit k x) (k + n) 64) i = bit (push_bit k (of_int (signed_take_bit (n - 1) (uint x))) :: u64) i"
    using assms i by (cases "k \<le> i") (auto simp: SignExtend_def bit_simps min_def m Suc_le_eq not_less)
qed

lemma SignExtend_signed: "0 < n \<Longrightarrow> n \<le> 64 \<Longrightarrow> SignExtend x n 64 = of_int (signed_take_bit (n - 1) (uint x))"
  using SignExtend_push [of n 0 x] by simp

lemma SignExtend_words:
  fixes f :: u32
  assumes "0 < n" "n \<le> 32"
  shows "SignExtend (push_bit 2 (ucast f)) (2 + n) 64 = 4 * of_int (signed_take_bit (n - 1) (uint f))"
proof -
  have "uint (ucast f :: u64) = uint f" by (simp add: uint_up_ucast is_up)
  then show ?thesis using SignExtend_push [of n 2 "ucast f"] assms by (simp add: push_bit_eq_mult mult.commute)
qed

lemma bits_field: "bits w lo hi = drop_bit lo w AND mask (hi - lo + 1)"
  by (simp add: bits_def submask_def)

lemma decode_offsets:
  "decode_imm14_offset w = 4 * sfield 5 14 w" "decode_imm19_offset w = 4 * sfield 5 19 w" "decode_imm26_offset w = 4 * sfield 0 26 w"
  unfolding decode_imm14_offset_def decode_imm19_offset_def decode_imm26_offset_def bits_field sfield_def
  by (subst SignExtend_words; simp)+

lemma decode_adr:
  "decode_immhi_immlo_offset w = of_int (signed_take_bit 20 (int (ufield 29 2 w + 4 * ufield 5 19 w)))"
proof -
  have lt: "ufield 29 2 w < 4" "ufield 5 19 w < 2 ^ 19"
    by (simp_all add: ufield_def take_bit_eq_mask [symmetric] take_bit_eq_mod unat_mod)
  have u: "unat (push_bit 2 (fw 5 19 w)) = 4 * ufield 5 19 w"
    using lt(2) unfolding unsigned_push_bit_eq ufield_fw [symmetric] by (simp add: take_bit_nat_eq_self push_bit_eq_mult)
  have "unat (fw 29 2 w + push_bit 2 (fw 5 19 w)) = ufield 29 2 w + 4 * ufield 5 19 w"
    using lt u by (subst unat_add_lem [THEN iffD1]) (simp_all add: ufield_fw)
  moreover have "uint (ucast x :: u64) = int (unat x)" for x :: u32 by (simp add: uint_up_ucast is_up)
  ultimately have "uint (ucast (fw 29 2 w + push_bit 2 (fw 5 19 w)) :: u64) = int (ufield 29 2 w + 4 * ufield 5 19 w)" by (simp only:)
  then show ?thesis unfolding decode_immhi_immlo_offset_def Let_def by (subst SignExtend_signed) simp_all
qed

section \<open>The words of the blocks\<close>

lemma exec_nop_word [simp]: "a64_exec nop_word s = Some (next_pc s)"
  by (simp add: nop_word_def exec_nop)

lemma exec_ldr_slot:
  assumes "k < 2 ^ 18"
  shows "a64_exec (ldr_lit_word 17 (of_nat k)) s = Some (next_pc (xwrite 17 (ld64 (mem64 s) (PC64 s + 4 * of_nat k)) s))"
proof -
  have k: "k < 2 ^ 19" "int k < 2 ^ 18" using assms by simp_all
  have "uint (of_nat k AND mask 19 :: u32) = int k"
    using k(1) by (simp add: take_bit_eq_mask [symmetric] take_bit_of_nat take_bit_nat_eq_self uint_nat unsigned_of_nat)
  then have "sfield 5 19 (ldr_lit_word 17 (of_nat k)) = of_nat k"
    using k(2) by (simp add: exec_ldr_lit_word(2) signed_take_bit_int_eq_self)
  then show ?thesis using exec_ldr_lit_word(1) [of 17 "of_nat k" s] by simp
qed

lemma exec_blr_word: "a64_exec (blr_word 17) s = Some (s\<lparr>XR := (XR s)(30 := PC64 s + 4), PC64 := XR s 17\<rparr>)"
proof -
  let ?w = "blr_word 17"
  have w: "?w = 0xD63F0220" by code_simp
  have f: "ufield 5 5 ?w = 17" "ufield 21 2 ?w = 1" by (simp_all add: w ufield_def mask_eq_exp_minus_1)
  show ?thesis using f by (simp add: w a64_exec_def Let_def xread_def)
qed

lemma exec_ldr_word:
  assumes "r < 32"
  shows "a64_exec (ldr_word r 17) s = Some (next_pc (xwrite r (ld64 (mem64 s) (XR s 17)) s))"
proof -
  let ?w = "ldr_word r 17"
  have m: "?w AND 0xFFFFFC00 = 0xF9400000" by (simp add: ldr_word_def mask_fields)
  have "unat (17 AND mask 5 :: u32) = 17" by (simp add: mask_eq_exp_minus_1)
  then have f: "ufield 5 5 ?w = 17" "ufield 10 12 ?w = 0" "ufield 0 5 ?w = r" "bit ?w 22"
    using assms by (simp_all add: ldr_word_def ufield_fw fields unat_field bit_simps)
  note t = mask_neq [OF m] mask_sub [OF m]
  show ?thesis using f not_nop [of ?w] by (simp add: a64_exec_def load_store_x_def Let_def t spread_def)
qed

text \<open>Words that agree on a mask have the same fields inside the mask.\<close>

lemma agree_mask:
  fixes w v :: u32
  assumes "w AND K = v AND K" "M AND K = M"
  shows "w AND M = v AND M"
proof -
  have e: "x AND M = (x AND K) AND M" for x :: u32
    unfolding and.assoc and.commute [of K M] assms(2) ..
  show ?thesis by (simp only: e [of w] e [of v] assms(1))
qed

lemma agree_field:
  assumes "w AND K = v AND K" "push_bit lo (mask n) AND K = push_bit lo (mask n)"
  shows "ufield lo n w = ufield lo n v"
proof -
  have f: "drop_bit lo x AND mask n = drop_bit lo (x AND push_bit lo (mask n))" for x :: u32
    by (rule bit_word_eqI) (auto simp: bit_simps dest: bit_imp_le_length)
  show ?thesis unfolding ufield_def f agree_mask [OF assms] ..
qed

lemma agree_bit:
  assumes "w AND K = v AND K" "bit K n"
  shows "bit w n = bit (v :: u32) n"
proof -
  have "bit (w AND K) n = bit (v AND K) n" by (simp only: assms(1))
  then show ?thesis using assms(2) by (simp add: bit_and_iff)
qed

text \<open>The inverted branches: everything but the inverted condition and the offset 3 is kept.\<close>

lemma bit_set_bit_c: "st < 32 \<Longrightarrow> bit (set_bit_c w st (of_bool q)) n \<longleftrightarrow> (if n = st then q else bit (w :: u32) n)"
  by (auto simp: set_bit_c_def bit_simps dest: bit_imp_le_length)

lemma bit_set_bits_c:
  "st \<le> fn \<Longrightarrow> fn < 32 \<Longrightarrow> v AND NOT (mask (fn - st + 1)) = 0 \<Longrightarrow>
   bit (set_bits_c w st fn v) n \<longleftrightarrow> (if st \<le> n \<and> n \<le> fn then bit v (n - st) else bit (w :: u32) n)"
proof -
  assume a: "st \<le> fn" "fn < 32" "v AND NOT (mask (fn - st + 1)) = 0"
  have "\<not> bit v (n - st)" if "fn < n" "n < 32"
  proof -
    have "\<not> bit (v AND NOT (mask (fn - st + 1))) (n - st)" unfolding a(3) by simp
    then show ?thesis using that a(1) by (auto simp: bit_simps)
  qed
  then show ?thesis using a by (auto simp: set_bits_c_def submask_def bit_simps dest: bit_imp_le_length)
qed

lemma bit_of_flip: "bit_of w n XOR 1 = (of_bool (\<not> bit w n) :: u32)"
  by (rule bit_word_eqI) (auto simp: bit_of_def bit_simps)

text \<open>A word that differs from another in a range of bits and in one bit only.\<close>

lemma agree_outside:
  fixes v w K :: u32
  assumes "\<And>n. bit v n \<longleftrightarrow> (if lo \<le> n \<and> n \<le> hi then q n else if n = i then p else bit w n)" "list_all (\<lambda>n. \<not> bit K n) (i # [lo..<Suc hi])"
  shows "v AND K = w AND K"
proof (rule bit_word_eqI)
  have "\<forall>n \<in> set (i # [lo..<Suc hi]). \<not> bit K n" using assms(2) by (simp only: list_all_iff)
  then show "bit (v AND K) n = bit (w AND K) n" for n by (auto simp: bit_and_iff assms(1))
qed

lemma field_is_3:
  fixes v :: u32
  assumes "\<And>n. 5 \<le> n \<Longrightarrow> n \<le> 4 + m \<Longrightarrow> bit v n \<longleftrightarrow> bit (3 :: u32) (n - 5)" "3 \<le> m" "m < 27"
  shows "sfield 5 m v = 3"
proof -
  have "drop_bit 5 v AND mask m = 3"
  proof (rule bit_word_eqI)
    fix n assume "n < LENGTH(32)"
    have 3: "(3 :: u32) = mask 2" by (simp add: mask_eq_exp_minus_1)
    have "\<not> bit (3 :: u32) n" if "m \<le> n" unfolding 3 bit_mask_iff using that assms(2) by simp
    moreover have "bit v (n + 5) = bit (3 :: u32) n" if "n < m" using assms(1) [of "n + 5"] that by simp
    ultimately show "bit (drop_bit 5 v AND mask m) n = bit (3 :: u32) n" using assms(3)
      by (cases "n < m") (auto simp: bit_and_iff bit_drop_bit_eq bit_mask_iff add.commute)
  qed
  moreover have "signed_take_bit (m - 1) 3 = (3 :: int)"
  proof (rule signed_take_bit_int_eq_self)
    have "(2 :: int) ^ 2 \<le> 2 ^ (m - 1)" using assms(2) by (intro power_increasing) simp_all
    then show "3 < (2 :: int) ^ (m - 1)" by simp
  qed (simp add: order_trans [of _ 0])
  ultimately show ?thesis by (simp add: sfield_def)
qed

lemma inverted_test:
  fixes w :: u32
  defines "v \<equiv> set_bits_c (set_bit_c w 24 (bit_of w 24 XOR 1)) 5 18 3"
  shows "v AND 0xFEF8001F = w AND 0xFEF8001F" "bit v 24 = (\<not> bit w 24)" "sfield 5 14 v = 3"
proof -
  have b: "bit v n \<longleftrightarrow> (if 5 \<le> n \<and> n \<le> 18 then bit (3 :: u32) (n - 5) else if n = 24 then \<not> bit w 24 else bit w n)" for n
    unfolding v_def bit_of_flip by (subst bit_set_bits_c) (auto simp: bit_set_bit_c mask_eq_exp_minus_1)
  show "bit v 24 = (\<not> bit w 24)" by (simp add: b)
  show "v AND 0xFEF8001F = w AND 0xFEF8001F" by (rule agree_outside [OF b]) code_simp
  show "sfield 5 14 v = 3" by (rule field_is_3) (simp_all add: b)
qed

lemma inverted_compare:
  fixes w :: u32
  defines "v \<equiv> set_bits_c (set_bit_c w 24 (bit_of w 24 XOR 1)) 5 23 3"
  shows "v AND 0xFE00001F = w AND 0xFE00001F" "bit v 24 = (\<not> bit w 24)" "sfield 5 19 v = 3"
proof -
  have b: "bit v n \<longleftrightarrow> (if 5 \<le> n \<and> n \<le> 23 then bit (3 :: u32) (n - 5) else if n = 24 then \<not> bit w 24 else bit w n)" for n
    unfolding v_def bit_of_flip by (subst bit_set_bits_c) (auto simp: bit_set_bit_c mask_eq_exp_minus_1)
  show "bit v 24 = (\<not> bit w 24)" by (simp add: b)
  show "v AND 0xFE00001F = w AND 0xFE00001F" by (rule agree_outside [OF b]) code_simp
  show "sfield 5 19 v = 3" by (rule field_is_3) (simp_all add: b)
qed

lemma inverted_condition:
  fixes w :: u32
  defines "v \<equiv> set_bits_c (set_bits_c w 0 3 (bits w 0 3 XOR 1)) 5 23 3"
  shows "v AND 0xFF00001E = w AND 0xFF00001E" "bit v 0 = (\<not> bit w 0)" "sfield 5 19 v = 3"
proof -
  have x: "(bits w 0 3 XOR 1) AND NOT (mask (3 - 0 + 1)) = 0" by (rule bit_word_eqI) (auto simp: bit_simps)
  have b0: "bit (set_bits_c w 0 3 (bits w 0 3 XOR 1)) n \<longleftrightarrow> (if n = 0 then \<not> bit w 0 else bit w n)" for n
    using bit_set_bits_c [OF _ _ x, of w n] by (auto simp: bit_simps)
  have b: "bit v n \<longleftrightarrow> (if 5 \<le> n \<and> n \<le> 23 then bit (3 :: u32) (n - 5) else if n = 0 then \<not> bit w 0 else bit w n)" for n
    unfolding v_def by (subst bit_set_bits_c) (auto simp: b0 mask_eq_exp_minus_1)
  show "bit v 0 = (\<not> bit w 0)" by (simp add: b)
  show "v AND 0xFF00001E = w AND 0xFF00001E" by (rule agree_outside [OF b]) code_simp
  show "sfield 5 19 v = 3" by (rule field_is_3) (simp_all add: b)
qed

section \<open>Runs\<close>

definition a64_runs :: "arm64_state \<Rightarrow> arm64_state \<Rightarrow> bool" where
  "a64_runs s t \<longleftrightarrow> (\<exists>n. a64_run n s = Some t)"

lemma a64_runs_refl [simp]: "a64_runs s s"
  unfolding a64_runs_def by (rule exI [of _ 0]) simp

lemma a64_runs_trans: "a64_runs s t \<Longrightarrow> a64_runs t u \<Longrightarrow> a64_runs s u"
  unfolding a64_runs_def by (metis a64_run_add option.simps(5))

lemma a64_runs_word:
  assumes "code_at (mem64 s) (PC64 s) (le_bytes 4 w)" "a64_exec w s = Some t" "a64_runs t u"
  shows "a64_runs s u"
  using assms a64_run_word [OF assms(1,2)] unfolding a64_runs_def by metis

lemma code_at_words: "code_at m a (words_le (w # ws)) \<longleftrightarrow> code_at m a (le_bytes 4 w) \<and> code_at m (a + 4) (words_le ws)"
  by (simp add: code_at_append)

lemma runs_words_Cons:
  assumes "code_at (mem64 s) (PC64 s) (words_le (w # ws))" "a64_exec w s = Some t" "a64_runs t u"
  shows "a64_runs s u"
  by (rule a64_runs_word [OF _ assms(2,3)]) (use code_at_words assms(1) in blast)

lemma runs_nop: "code_at (mem64 s) (PC64 s) (le_bytes 4 nop_word) \<Longrightarrow> a64_runs s (next_pc s)"
  by (rule a64_runs_word [OF _ exec_nop_word a64_runs_refl])

lemma runs_mov:
  assumes "r < 31" "code_at (mem64 s) (PC64 s) (words_le (mov_words r imm))"
  shows "a64_runs s (s\<lparr>XR := (XR s)(r := imm), PC64 := PC64 s + 16\<rparr>)"
  using Mov_a64_runs [OF assms(1)] assms(2) unfolding a64_runs_def mov_words_def by blast

section \<open>A block simulates its instruction\<close>

text \<open>A block that lies in memory at \<open>P\<close>: the load of a jump refers to a slot with the target.\<close>

fun block_in :: "(u64 \<Rightarrow> u8) \<Rightarrow> u64 \<Rightarrow> relo_block \<Rightarrow> bool" where
  "block_in m P (Words ws) \<longleftrightarrow> code_at m P (words_le ws)"
| "block_in m P (Jump us d vs) \<longleftrightarrow> (\<exists>k < 2 ^ 18. code_at m P (words_le (us @ [ldr_lit_word 17 (of_nat k)] @ vs))
     \<and> ld64 m (P + 4 * of_nat (length us) + 4 * of_nat k) = d)"

definition links :: "u32 \<Rightarrow> bool" where
  "links w \<longleftrightarrow> w AND 0xFC000000 = 0x94000000 \<or> w AND 0xFFFFFC1F = 0xD63F0000"

definition same_but :: "nat set \<Rightarrow> arm64_state \<Rightarrow> arm64_state \<Rightarrow> bool" where
  "same_but X t s \<longleftrightarrow> (\<forall>r. r \<notin> X \<longrightarrow> XR t r = XR s r) \<and> SP64 t = SP64 s \<and> fN t = fN s \<and> fZ t = fZ s \<and> fC t = fC s \<and> fV t = fV s \<and> mem64 t = mem64 s"

text \<open>The blocks that need a register of their own: those of the branches, and of a literal load to a register other than \<open>x17\<close>.\<close>

definition scratch :: "u32 \<Rightarrow> nat set" where
  "scratch w = (if w AND 0x3B000000 = 0x18000000 \<and> ufield 0 5 w \<noteq> 17 \<or> w AND 0x7C000000 = 0x14000000
       \<or> w AND 0x7E000000 = 0x36000000 \<or> w AND 0x7E000000 = 0x34000000 \<or> w AND 0xFE000000 = 0x54000000 then {17} else {})"

text \<open>
  A call leaves a link register of its own, because the call is at another address.  It is right when a return through it comes
  to the end \<open>E\<close> of the block, at once or over the \<^verbatim>\<open>nop\<close> in front of \<open>E\<close>.
\<close>

definition returns_at :: "(u64 \<Rightarrow> u8) \<Rightarrow> u64 \<Rightarrow> u64 \<Rightarrow> bool" where
  "returns_at m l E \<longleftrightarrow> l = E \<or> l + 4 = E \<and> code_at m l (le_bytes 4 nop_word)"

lemma returns_at_runs:
  assumes "returns_at m l E" "PC64 u = l" "\<forall>k < 4. mem64 u (l + of_nat k) = m (l + of_nat k)"
  shows "a64_runs u (u\<lparr>PC64 := E\<rparr>)"
proof (cases "l = E")
  case True
  then have "u\<lparr>PC64 := E\<rparr> = u" using assms(2) by simp
  then show ?thesis by simp
next
  case False
  then have l: "l + 4 = E" "code_at m l (le_bytes 4 nop_word)" using assms(1) by (simp_all add: returns_at_def)
  have "ld_bytes 4 (mem64 u) l = ld_bytes 4 m l" using assms(3) by (simp add: ld_bytes_def)
  then have "code_at (mem64 u) (PC64 u) (le_bytes 4 nop_word)" using l(2) assms(2) by (simp add: code_at_def)
  from runs_nop [OF this] show ?thesis using l(1) assms(2) by (simp add: next_pc_def)
qed

text \<open>
  The state after the block: the registers, but for the scratch register of the block and the link register of a call, the
  flags and the memory are those after the instruction; the link register of a call returns behind the block; and the control
  is where the instruction went, or at the end of the block when the instruction goes on behind itself.
\<close>

definition simulates :: "u64 \<Rightarrow> u64 \<Rightarrow> u32 \<Rightarrow> arm64_state \<Rightarrow> arm64_state \<Rightarrow> bool" where
  "simulates pc0 E w t s \<longleftrightarrow> same_but (scratch w \<union> (if links w then {30} else {})) t s
     \<and> (links w \<longrightarrow> XR s 30 = pc0 + 4 \<and> returns_at (mem64 t) (XR t 30) E)
     \<and> (PC64 t = PC64 s \<or> PC64 s = pc0 + 4 \<and> PC64 t = E)"

lemma links_copied: "links w \<Longrightarrow> w AND 0x7C000000 \<noteq> 0x14000000 \<Longrightarrow> w AND 0xFFFFFC1F = 0xD63F0000"
  using mask_sub [of w "0xFC000000" "0x94000000" "0x7C000000"] by (auto simp: links_def)

text \<open>The classes of instructions exclude each other.\<close>

lemma class_literal:
  assumes "w AND 0xFF000000 = 0x58000000"
  shows "\<not> links w" "scratch w = (if ufield 0 5 w \<noteq> 17 then {17} else {})"
  using mask_neq [OF assms] mask_sub [OF assms, of "0x3B000000"] by (simp_all add: links_def scratch_def)

lemma class_adr:
  assumes "w AND 0x1F000000 = 0x10000000"
  shows "\<not> links w" "scratch w = {}"
  using mask_neq [OF assms] by (simp_all add: links_def scratch_def)

lemma class_inverted:
  "w AND 0x7E000000 = 0x36000000 \<Longrightarrow> \<not> links w \<and> scratch w = {17}"
  "w AND 0x7E000000 = 0x34000000 \<Longrightarrow> \<not> links w \<and> scratch w = {17}"
  "w AND 0xFE000000 = 0x54000000 \<Longrightarrow> \<not> links w \<and> scratch w = {17}"
proof -
  show "\<not> links w \<and> scratch w = {17}" if a: "w AND 0x7E000000 = 0x36000000"
    using mask_neq [OF a] a by (simp add: links_def scratch_def)
  show "\<not> links w \<and> scratch w = {17}" if a: "w AND 0x7E000000 = 0x34000000"
    using mask_neq [OF a] a by (simp add: links_def scratch_def)
  show "\<not> links w \<and> scratch w = {17}" if a: "w AND 0xFE000000 = 0x54000000"
    using mask_neq [OF a] a by (simp add: links_def scratch_def)
qed

text \<open>
  The instructions whose relocation is right: of the literal loads those of 64-bit general registers, ADR and ADRP to
  a register, and of the conditional branches those whose condition has an inverse.
\<close>

definition relocatable :: "u32 \<Rightarrow> bool" where
  "relocatable w \<longleftrightarrow> (w AND 0x3B000000 = 0x18000000 \<longrightarrow> w AND 0xFF000000 = 0x58000000)
     \<and> (w AND 0x1F000000 = 0x10000000 \<longrightarrow> ufield 0 5 w \<noteq> 31) \<and> (w AND 0xFE000000 = 0x54000000 \<longrightarrow> ufield 0 4 w < 14)"

lemma literal_block:
  assumes "w AND 0xFF000000 = 0x58000000" "PC64 t = P" "a64_exec w (t\<lparr>PC64 := pc0\<rparr>) = Some s"
    and "code_at (mem64 t) P (words_le ([nop_word] @ mov_words 17 (decode_imm19_offset w + pc0) @ [ldr_word (decode_rt w) 17, nop_word]))"
  shows "\<exists>t'. a64_runs t t' \<and> simulates pc0 (P + 28) w t' s"
proof -
  let ?v = "decode_imm19_offset w + pc0" and ?r = "decode_rt w"
  have r: "?r = ufield 0 5 w" by (simp add: decode_rt_def bits_field ufield_def)
  note m = mask_neq [OF assms(1)] mask_sub [OF assms(1)]
  have f: "\<not> bit w 26" "ufield 30 2 w = 1"
  proof -
    have b: "bit (w AND 0xFF000000) n = bit (0x58000000 :: u32) n" for n by (simp only: assms(1))
    show "\<not> bit w 26" using b [of 26] by (simp add: bit_and_iff)
    show "ufield 30 2 w = 1" using agree_field [of w "0xFF000000" "0x58000000" 30 2] assms(1)
      by (simp add: ufield_def mask_eq_exp_minus_1)
  qed
  have "a64_exec w st = load_literal w st" for st using not_nop [of w] by (simp add: a64_exec_def m)
  then have s: "s = next_pc (xwrite ?r (ld64 (mem64 t) ?v) (t\<lparr>PC64 := pc0\<rparr>))"
    using assms(3) f by (simp add: load_literal_def Let_def r decode_offsets(2) add.commute)
  let ?t1 = "next_pc t"
  let ?t2 = "?t1\<lparr>XR := (XR t)(17 := ?v), PC64 := P + 20\<rparr>"
  let ?t3 = "next_pc (xwrite ?r (ld64 (mem64 t) ?v) ?t2)"
  have c: "code_at (mem64 t) P (words_le (nop_word # (mov_words 17 ?v @ [ldr_word ?r 17, nop_word])))" using assms(4) by simp
  have c1: "code_at (mem64 t) (P + 4) (words_le (mov_words 17 ?v))" "code_at (mem64 t) (P + 20) (words_le [ldr_word ?r 17, nop_word])"
    using assms(4) by (simp_all add: code_at_append mov_words_def add.assoc)
  have "a64_runs ?t2 (next_pc ?t3)"
  proof (rule runs_words_Cons)
    show "code_at (mem64 ?t2) (PC64 ?t2) (words_le [ldr_word ?r 17, nop_word])" using c1(2) by simp
    show "a64_exec (ldr_word ?r 17) ?t2 = Some ?t3" using exec_ldr_word [OF decode_rt_less(1)] by simp
    show "a64_runs ?t3 (next_pc ?t3)"
      by (rule runs_nop) (use c1(2) in \<open>simp add: code_at_append add.assoc\<close>)
  qed
  moreover have "a64_runs ?t1 ?t2" using runs_mov [of 17 ?t1 ?v] c1(1) assms(2) by (simp add: add.assoc)
  moreover have "a64_runs t ?t1" by (rule runs_nop) (use c assms(2) in \<open>simp add: code_at_append\<close>)
  ultimately have "a64_runs t (next_pc ?t3)" by (meson a64_runs_trans)
  moreover have "simulates pc0 (P + 28) w (next_pc ?t3) s"
    unfolding s by (auto simp: simulates_def same_but_def xwrite_def next_pc_def class_literal [OF assms(1)] r)
  ultimately show ?thesis by blast
qed

lemma and_bit: "w AND push_bit k 1 = (if bit w k then push_bit k 1 else 0)" for w :: u32
  by (rule bit_word_eqI) (auto simp: bit_simps)

text \<open>A mask that also tests the top bit.\<close>

lemma mask_top:
  fixes w :: u32
  assumes "w AND M = v"
  shows "w AND (M OR 0x80000000) = (if bit w 31 then v OR 0x80000000 else v)"
  using and_bit [of w 31] assms by (simp add: bit.conj_disj_distrib)

lemma adr_block:
  assumes "w AND 0x1F000000 = 0x10000000" "ufield 0 5 w \<noteq> 31" "PC64 t = P" "a64_exec w (t\<lparr>PC64 := pc0\<rparr>) = Some s"
  defines "v \<equiv> if w AND 0x9F000000 = 0x10000000 then pc0 + decode_immhi_immlo_offset w
           else ALIGN_FLOOR pc0 0x1000 + decode_immhi_immlo_zero12_offset w"
  assumes "code_at (mem64 t) P (words_le ([nop_word] @ mov_words (decode_rd w) v @ [nop_word]))"
  shows "\<exists>t'. a64_runs t t' \<and> simulates pc0 (P + 24) w t' s"
proof -
  let ?r = "decode_rd w"
  have r: "?r = ufield 0 5 w" "?r < 31" using decode_rt_less(2) [of w] assms(2) by (simp_all add: decode_rd_def bits_field ufield_def)
  note m = mask_neq [OF assms(1)] mask_sub [OF assms(1)]
  have top: "w AND 0x9F000000 = 0x10000000 \<longleftrightarrow> \<not> bit w 31"
    using mask_top [OF assms(1)] by (cases "bit w 31") simp_all
  have pg: "ALIGN_FLOOR pc0 0x1000 = pc0 AND NOT 0xFFF" by (rule page_difference(2))
  have "a64_exec w st = Some (next_pc (xwrite ?r (if bit w 31 then (PC64 st AND NOT 0xFFF) + push_bit 12 (decode_immhi_immlo_offset w)
      else PC64 st + decode_immhi_immlo_offset w) st))" for st
    using not_nop [of w] by (simp add: a64_exec_def m Let_def r(1) decode_adr)
  then have s: "s = next_pc (xwrite ?r v (t\<lparr>PC64 := pc0\<rparr>))"
    using assms(4) by (cases "bit w 31") (auto simp: v_def top pg decode_immhi_immlo_zero12_offset_def)
  let ?t1 = "next_pc t"
  let ?t2 = "?t1\<lparr>XR := (XR t)(?r := v), PC64 := P + 20\<rparr>"
  have c: "code_at (mem64 t) P (le_bytes 4 nop_word)" "code_at (mem64 t) (P + 4) (words_le (mov_words ?r v))" "code_at (mem64 t) (P + 20) (le_bytes 4 nop_word)"
    using assms(6) by (simp_all add: code_at_append mov_words_def add.assoc)
  have "a64_runs t ?t1" by (rule runs_nop) (use c(1) assms(3) in simp)
  moreover have "a64_runs ?t1 ?t2" using runs_mov [OF r(2), of ?t1 v] c(2) assms(3) by (simp add: add.assoc)
  moreover have "a64_runs ?t2 (next_pc ?t2)" by (rule runs_nop) (use c(3) in simp)
  ultimately have "a64_runs t (next_pc ?t2)" by (meson a64_runs_trans)
  moreover have "simulates pc0 (P + 24) w (next_pc ?t2) s"
    unfolding s using r(2) by (auto simp: simulates_def same_but_def xwrite_def next_pc_def class_adr [OF assms(1)])
  ultimately show ?thesis by blast
qed

lemma runs_slot:
  assumes "k < 2 ^ 18" "code_at (mem64 t) (PC64 t) (words_le (ldr_lit_word 17 (of_nat k) # ws))" "ld64 (mem64 t) (PC64 t + 4 * of_nat k) = d"
  shows "a64_runs t (t\<lparr>XR := (XR t)(17 := d), PC64 := PC64 t + 4\<rparr>)"
  by (rule runs_words_Cons [OF assms(2) exec_ldr_slot [OF assms(1)]]) (simp add: assms(3) xwrite_def next_pc_def)

lemma branch_block:
  assumes "w AND 0x7C000000 = 0x14000000" "PC64 t = P" "a64_exec w (t\<lparr>PC64 := pc0\<rparr>) = Some s"
    and "block_in (mem64 t) P (Jump [nop_word] (decode_imm26_offset w + pc0) [if w AND 0xFC000000 = 0x94000000 then blr_word 17 else br_word 17, nop_word])"
  shows "\<exists>t'. a64_runs t t' \<and> simulates pc0 (P + 16) w t' s"
proof -
  let ?d = "decode_imm26_offset w + pc0" and ?b = "if w AND 0xFC000000 = 0x94000000 then blr_word 17 else br_word 17"
  from assms(4) obtain k where k: "k < 2 ^ 18" "code_at (mem64 t) P (words_le ([nop_word] @ [ldr_lit_word 17 (of_nat k)] @ [?b, nop_word]))"
      "ld64 (mem64 t) (P + 4 + 4 * of_nat k) = ?d" by auto
  note m = mask_neq [OF assms(1)] mask_sub [OF assms(1)]
  have bl: "w AND 0xFC000000 = 0x94000000 \<longleftrightarrow> bit w 31"
    using mask_top [OF assms(1)] by (cases "bit w 31") simp_all
  have nn: "w \<noteq> 0xD503201F" using assms(1) by auto
  have l: "links w \<longleftrightarrow> bit w 31" "scratch w = {17}" using m assms(1) by (simp_all add: links_def scratch_def bl)
  have "a64_exec w st = Some (branch_rel (4 * sfield 0 26 w) (if bit w 31 then st\<lparr>XR := (XR st)(30 := PC64 st + 4)\<rparr> else st))" for st
    using nn by (simp add: a64_exec_def m Let_def)
  then have s: "s = branch_rel (4 * sfield 0 26 w) (if bit w 31 then t\<lparr>PC64 := pc0, XR := (XR t)(30 := pc0 + 4)\<rparr> else t\<lparr>PC64 := pc0\<rparr>)"
    using assms(3) by (cases "bit w 31") auto
  let ?t1 = "next_pc t"
  let ?t2 = "?t1\<lparr>XR := (XR t)(17 := ?d), PC64 := P + 8\<rparr>"
  let ?t3 = "if bit w 31 then ?t2\<lparr>XR := (XR ?t2)(30 := P + 12), PC64 := ?d\<rparr> else ?t2\<lparr>PC64 := ?d\<rparr>"
  have c: "code_at (mem64 t) P (le_bytes 4 nop_word)" "code_at (mem64 t) (P + 4) (words_le [ldr_lit_word 17 (of_nat k)])"
    "code_at (mem64 t) (P + 8) (le_bytes 4 ?b)" "code_at (mem64 t) (P + 12) (le_bytes 4 nop_word)"
    using k(2) by (simp_all add: code_at_append add.assoc)
  have "a64_runs t ?t1" by (rule runs_nop) (use c(1) assms(2) in simp)
  moreover have "a64_runs ?t1 ?t2" using runs_slot [OF k(1), of ?t1 "[]" ?d] c(2) k(3) assms(2) by (simp add: add.assoc)
  moreover have "a64_runs ?t2 ?t3"
    by (rule a64_runs_word [OF _ _ a64_runs_refl, of _ ?b]) (use c(3) bl in \<open>simp_all add: exec_blr_word exec_br_word add.assoc split: if_splits\<close>)
  ultimately have "a64_runs t ?t3" by (meson a64_runs_trans)
  moreover have "simulates pc0 (P + 16) w ?t3 s"
    unfolding s using l c(4) by (auto simp: simulates_def same_but_def branch_rel_def next_pc_def decode_offsets(3) add.commute
        add.left_commute returns_at_def)
  ultimately show ?thesis by blast
qed

text \<open>
  The three conditional branches: \<open>taken\<close> is the condition of the original, \<open>v\<close> the inverted branch over the jump.
\<close>

lemma inverted_block_runs:
  assumes "PC64 t = P" "block_in (mem64 t) P (inverted_block d v)"
    and "\<And>st. a64_exec v st = (if taken st then Some (next_pc st) else Some (branch_rel 12 st))"
    and "taken (next_pc t) = taken (t\<lparr>PC64 := pc0\<rparr>)" "d = pc0 + off"
    and "a64_exec w (t\<lparr>PC64 := pc0\<rparr>) = (if taken (t\<lparr>PC64 := pc0\<rparr>) then Some (branch_rel off (t\<lparr>PC64 := pc0\<rparr>)) else Some (next_pc (t\<lparr>PC64 := pc0\<rparr>)))"
    and "a64_exec w (t\<lparr>PC64 := pc0\<rparr>) = Some s" "\<not> links w \<and> scratch w = {17}"
  shows "\<exists>t'. a64_runs t t' \<and> simulates pc0 (P + 20) w t' s"
proof -
  from assms(2) obtain k where k: "k < 2 ^ 18" "code_at (mem64 t) P (words_le ([nop_word, v] @ [ldr_lit_word 17 (of_nat k)] @ [br_word 17, nop_word]))"
      "ld64 (mem64 t) (P + 8 + 4 * of_nat k) = d" by (auto simp: inverted_block_def)
  have c: "code_at (mem64 t) P (le_bytes 4 nop_word)" "code_at (mem64 t) (P + 4) (le_bytes 4 v)"
    "code_at (mem64 t) (P + 8) (words_le [ldr_lit_word 17 (of_nat k)])" "code_at (mem64 t) (P + 12) (le_bytes 4 (br_word 17))"
    "code_at (mem64 t) (P + 16) (le_bytes 4 nop_word)"
    using k(2) by (simp_all add: code_at_append add.assoc)
  let ?t1 = "next_pc t"
  have r1: "a64_runs t ?t1" by (rule runs_nop) (use c(1) assms(1) in simp)
  show ?thesis
  proof (cases "taken (t\<lparr>PC64 := pc0\<rparr>)")
    case True
    let ?t2 = "next_pc ?t1"
    let ?t3 = "?t2\<lparr>XR := (XR t)(17 := d), PC64 := P + 12\<rparr>"
    let ?t4 = "?t3\<lparr>PC64 := d\<rparr>"
    have "a64_runs ?t1 ?t2"
      by (rule a64_runs_word [OF _ _ a64_runs_refl, of _ v]) (use c(2) assms(1,3,4) True in \<open>simp_all\<close>)
    moreover have "a64_runs ?t2 ?t3" using runs_slot [OF k(1), of ?t2 "[]" d] c(3) k(3) assms(1) by (simp add: add.assoc)
    moreover have "a64_runs ?t3 ?t4"
      by (rule a64_runs_word [OF _ _ a64_runs_refl, of _ "br_word 17"]) (use c(4) in \<open>simp_all add: exec_br_word\<close>)
    ultimately have "a64_runs t ?t4" using r1 by (meson a64_runs_trans)
    moreover have "simulates pc0 (P + 20) w ?t4 s"
      using assms(5-8) True by (auto simp: simulates_def same_but_def branch_rel_def next_pc_def)
    ultimately show ?thesis by blast
  next
    case False
    let ?t2 = "branch_rel 12 ?t1"
    have "a64_runs ?t1 ?t2"
      by (rule a64_runs_word [OF _ _ a64_runs_refl, of _ v]) (use c(2) assms(1,3,4) False in \<open>simp_all\<close>)
    moreover have "a64_runs ?t2 (next_pc ?t2)"
      by (rule runs_nop) (use c(5) assms(1) in \<open>simp add: branch_rel_def add.assoc\<close>)
    ultimately have "a64_runs t (next_pc ?t2)" using r1 by (meson a64_runs_trans)
    moreover have "simulates pc0 (P + 20) w (next_pc ?t2) s"
      using assms(1,6-8) False by (auto simp: simulates_def same_but_def branch_rel_def next_pc_def)
    ultimately show ?thesis by blast
  qed
qed

lemma test_branch_block:
  assumes "w AND 0x7E000000 = 0x36000000" "PC64 t = P" "a64_exec w (t\<lparr>PC64 := pc0\<rparr>) = Some s"
    and "block_in (mem64 t) P (inverted_block (decode_imm14_offset w + pc0) (set_bits_c (set_bit_c w 24 (bit_of w 24 XOR 1)) 5 18 3))"
  shows "\<exists>t'. a64_runs t t' \<and> simulates pc0 (P + 20) w t' s"
proof -
  let ?v = "set_bits_c (set_bit_c w 24 (bit_of w 24 XOR 1)) 5 18 3"
  note i = inverted_test [of w]
  have mv: "?v AND 0x7E000000 = 0x36000000" using agree_mask [OF i(1), of "0x7E000000"] assms(1) by simp
  have f: "ufield 19 5 ?v = ufield 19 5 w" "ufield 0 5 ?v = ufield 0 5 w" "bit ?v 31 = bit w 31"
    using agree_field [OF i(1)] agree_bit [OF i(1)] by (simp_all add: mask_eq_exp_minus_1)
  let ?taken = "\<lambda>st. bit (xread (ufield 0 5 w) st) (ufield 19 5 w + (if bit w 31 then 32 else 0)) = bit w 24"
  have nn: "u AND 0x7E000000 = 0x36000000 \<Longrightarrow> u \<noteq> 0xD503201F" for u :: u32 by auto
  have e: "a64_exec u st = (if bit (xread (ufield 0 5 u) st) (ufield 19 5 u + (if bit u 31 then 32 else 0)) = bit u 24
      then Some (branch_rel (4 * sfield 5 14 u) st) else Some (next_pc st))" if "u AND 0x7E000000 = 0x36000000" for u st
    using nn [OF that] by (simp add: a64_exec_def Let_def mask_neq [OF that] mask_sub [OF that])
  show ?thesis
  proof (rule inverted_block_runs [where taken = ?taken, OF assms(2,4) _ _ _ _ assms(3) class_inverted(1) [OF assms(1)]])
    show "a64_exec ?v st = (if ?taken st then Some (next_pc st) else Some (branch_rel 12 st))" for st
      unfolding e [OF mv] using i(2,3) f by auto
    show "decode_imm14_offset w + pc0 = pc0 + 4 * sfield 5 14 w" by (simp add: decode_offsets(1))
    show "?taken (next_pc t) = ?taken (t\<lparr>PC64 := pc0\<rparr>)" by (simp add: xread_def next_pc_def)
  qed (rule e [OF assms(1)])
qed

lemma compare_branch_block:
  assumes "w AND 0x7E000000 = 0x34000000" "PC64 t = P" "a64_exec w (t\<lparr>PC64 := pc0\<rparr>) = Some s"
    and "block_in (mem64 t) P (inverted_block (decode_imm19_offset w + pc0) (set_bits_c (set_bit_c w 24 (bit_of w 24 XOR 1)) 5 23 3))"
  shows "\<exists>t'. a64_runs t t' \<and> simulates pc0 (P + 20) w t' s"
proof -
  let ?v = "set_bits_c (set_bit_c w 24 (bit_of w 24 XOR 1)) 5 23 3"
  note i = inverted_compare [of w]
  have mv: "?v AND 0x7E000000 = 0x34000000" using agree_mask [OF i(1), of "0x7E000000"] assms(1) by simp
  have f: "ufield 0 5 ?v = ufield 0 5 w" "bit ?v 31 = bit w 31"
    using agree_field [OF i(1)] agree_bit [OF i(1)] by (simp_all add: mask_eq_exp_minus_1)
  let ?taken = "\<lambda>st. (w32 (bit w 31) (xread (ufield 0 5 w) st) \<noteq> 0) = bit w 24"
  have nn: "u AND 0x7E000000 = 0x34000000 \<Longrightarrow> u \<noteq> 0xD503201F" for u :: u32 by auto
  have e: "a64_exec u st = (if (w32 (bit u 31) (xread (ufield 0 5 u) st) \<noteq> 0) = bit u 24
      then Some (branch_rel (4 * sfield 5 19 u) st) else Some (next_pc st))" if "u AND 0x7E000000 = 0x34000000" for u st
    using nn [OF that] by (simp add: a64_exec_def Let_def mask_neq [OF that] mask_sub [OF that])
  show ?thesis
  proof (rule inverted_block_runs [where taken = ?taken, OF assms(2,4) _ _ _ _ assms(3) class_inverted(2) [OF assms(1)]])
    show "a64_exec ?v st = (if ?taken st then Some (next_pc st) else Some (branch_rel 12 st))" for st
      unfolding e [OF mv] using i(2,3) f by auto
    show "decode_imm19_offset w + pc0 = pc0 + 4 * sfield 5 19 w" by (simp add: decode_offsets(2))
    show "?taken (next_pc t) = ?taken (t\<lparr>PC64 := pc0\<rparr>)" by (simp add: xread_def next_pc_def)
  qed (rule e [OF assms(1)])
qed

lemma cond_holds_flip:
  assumes "c < 14" "c' = (if even c then c + 1 else c - 1)"
  shows "cond_holds c' s = (\<not> cond_holds c s)"
proof -
  have d: "c' div 2 = c div 2" "odd c' = even c" "c' \<noteq> 15" "c \<noteq> 15" using assms by (auto elim!: evenE oddE)
  then show ?thesis unfolding cond_holds_def Let_def d(1) by auto
qed

lemma condition_field:
  assumes "v AND 0xFF00001E = w AND 0xFF00001E" "bit v 0 = (\<not> bit w 0)"
  shows "ufield 0 4 v = (if even (ufield 0 4 w) then ufield 0 4 w + 1 else ufield 0 4 w - 1)"
proof -
  have e: "even (ufield 0 4 x) \<longleftrightarrow> \<not> bit x 0" for x
  proof -
    have "bit (unat (drop_bit 0 x AND mask 4)) 0 = bit x 0" unfolding bit_unsigned_iff by (simp add: bit_and_iff bit_mask_iff bit_drop_bit_eq del: bit_0)
    then show ?thesis by (simp add: ufield_def bit_0)
  qed
  have "ufield 1 3 v = ufield 1 3 w" using agree_field [OF assms(1), of 1 3] by (simp add: mask_eq_exp_minus_1)
  moreover have "ufield 1 3 x = ufield 0 4 x div 2" for x
  proof -
    have "drop_bit 1 x AND mask 3 = drop_bit 1 (drop_bit 0 x AND mask 4)" by (rule bit_word_eqI) (auto simp: bit_simps)
    then have "ufield 1 3 x = unat (drop_bit 1 (drop_bit 0 x AND mask 4))" unfolding ufield_def by (rule arg_cong)
    also have "\<dots> = ufield 0 4 x div 2" unfolding unsigned_drop_bit_eq ufield_def
    proof -
      have "unat (x AND mask 4) < 2 ^ LENGTH(32)" by (rule unsigned_less)
      then show "drop_bit 1 (take_bit LENGTH(32) (unat (drop_bit 0 x AND mask 4))) = unat (drop_bit 0 x AND mask 4) div 2"
        by (simp add: drop_bit_eq_div take_bit_nat_eq_self)
    qed
    finally show ?thesis .
  qed
  ultimately have "ufield 0 4 v div 2 = ufield 0 4 w div 2" by simp
  moreover have "even (ufield 0 4 v) \<longleftrightarrow> odd (ufield 0 4 w)" using assms(2) by (simp add: e)
  ultimately show ?thesis by presburger
qed

lemma conditional_branch_block:
  assumes "w AND 0xFE000000 = 0x54000000" "ufield 0 4 w < 14" "PC64 t = P" "a64_exec w (t\<lparr>PC64 := pc0\<rparr>) = Some s"
    and "block_in (mem64 t) P (inverted_block (decode_imm19_offset w + pc0) (set_bits_c (set_bits_c w 0 3 (bits w 0 3 XOR 1)) 5 23 3))"
  shows "\<exists>t'. a64_runs t t' \<and> simulates pc0 (P + 20) w t' s"
proof -
  let ?v = "set_bits_c (set_bits_c w 0 3 (bits w 0 3 XOR 1)) 5 23 3"
  note i = inverted_condition [of w]
  note m = mask_neq [OF assms(1)] mask_sub [OF assms(1)]
  have nn: "u AND 0xFE000000 = 0x54000000 \<Longrightarrow> u \<noteq> 0xD503201F" for u :: u32 by auto
  have "a64_exec w st = (if w AND 0xFF000010 = 0x54000000
      then if cond_holds (ufield 0 4 w) st then Some (branch_rel (4 * sfield 5 19 w) st) else Some (next_pc st) else None)" for st
    using nn [OF assms(1)] by (simp add: a64_exec_def Let_def m)
  then have cls: "w AND 0xFF000010 = 0x54000000" using assms(4) by (auto split: if_splits)
  have mv: "?v AND 0xFF000010 = 0x54000000" using agree_mask [OF i(1), of "0xFF000010"] cls by simp
  have nn': "u AND 0xFF000010 = 0x54000000 \<Longrightarrow> u \<noteq> 0xD503201F" for u :: u32 by auto
  have e: "a64_exec u st = (if cond_holds (ufield 0 4 u) st then Some (branch_rel (4 * sfield 5 19 u) st) else Some (next_pc st))"
    if "u AND 0xFF000010 = 0x54000000" for u st
    using nn' [OF that] by (simp add: a64_exec_def Let_def mask_neq [OF that] mask_sub [OF that] that)
  have flip: "cond_holds (ufield 0 4 ?v) st = (\<not> cond_holds (ufield 0 4 w) st)" for st
    by (rule cond_holds_flip [OF assms(2) condition_field [OF i(1,2)]])
  show ?thesis
  proof (rule inverted_block_runs [where taken = "cond_holds (ufield 0 4 w)", OF assms(3,5) _ _ _ _ assms(4) class_inverted(3) [OF assms(1)]])
    show "a64_exec ?v st = (if cond_holds (ufield 0 4 w) st then Some (next_pc st) else Some (branch_rel 12 st))" for st
      unfolding e [OF mv] flip using i(3) by simp
    show "decode_imm19_offset w + pc0 = pc0 + 4 * sfield 5 19 w" by (simp add: decode_offsets(2))
    show "cond_holds (ufield 0 4 w) (next_pc t) = cond_holds (ufield 0 4 w) (t\<lparr>PC64 := pc0\<rparr>)"
      by (simp add: cond_holds_def Let_def next_pc_def split: nat.splits)
  qed (rule e [OF cls])
qed

text \<open>An instruction that does not read the program counter.\<close>

lemma pc_shift:
  "move_wide w (s\<lparr>PC64 := p\<rparr>) = map_option (\<lambda>x. x\<lparr>PC64 := p + 4\<rparr>) (move_wide w s)"
  "add_sub_imm w (s\<lparr>PC64 := p\<rparr>) = map_option (\<lambda>x. x\<lparr>PC64 := p + 4\<rparr>) (add_sub_imm w s)"
  "orr_shifted w (s\<lparr>PC64 := p\<rparr>) = map_option (\<lambda>x. x\<lparr>PC64 := p + 4\<rparr>) (orr_shifted w s)"
  "load_store_x w (s\<lparr>PC64 := p\<rparr>) = (load_store_x w s)\<lparr>PC64 := p + 4\<rparr>"
  "load_store_pair_x w (s\<lparr>PC64 := p\<rparr>) = map_option (\<lambda>x. x\<lparr>PC64 := p + 4\<rparr>) (load_store_pair_x w s)"
  by (simp_all add: move_wide_def add_sub_imm_def orr_shifted_def load_store_x_def load_store_pair_x_def Let_def next_pc_def xwrite_def
      spwrite_def spread_def xread_def)

lemma copied_exec:
  assumes "w AND 0x3B000000 \<noteq> 0x18000000" "w AND 0x1F000000 \<noteq> 0x10000000" "w AND 0x7C000000 \<noteq> 0x14000000"
    "w AND 0x7E000000 \<noteq> 0x36000000" "w AND 0x7E000000 \<noteq> 0x34000000" "w AND 0xFE000000 \<noteq> 0x54000000"
    and "a64_exec w (t\<lparr>PC64 := pc0\<rparr>) = Some s" "PC64 t = P"
  shows "\<exists>t'. a64_exec w t = Some t' \<and> simulates pc0 (P + 4) w t' s"
proof -
  have cond: "w AND 0xFF000010 \<noteq> 0x54000000" using assms(6) mask_sub [of w "0xFF000010" "0x54000000" "0xFE000000"] by auto
  have t: "t = t\<lparr>PC64 := P\<rparr>" using assms(8) by simp
  have sc: "scratch w = {}" using assms(1-6) by (simp add: scratch_def)
  have go: "simulates pc0 (P + 4) w (x\<lparr>PC64 := P + 4\<rparr>) (x\<lparr>PC64 := pc0 + 4\<rparr>)" if "\<not> links w" for x
    using that by (simp add: simulates_def same_but_def)
  have ret: "\<exists>t'. map_option (\<lambda>x. x\<lparr>PC64 := P + 4\<rparr>) r = Some t' \<and> simulates pc0 (P + 4) w t' s"
    if "map_option (\<lambda>x. x\<lparr>PC64 := pc0 + 4\<rparr>) r = Some s" "\<not> links w" for r :: "arm64_state option"
    using that go by (cases r) auto
  consider "w = 0xD503201F" | "w \<noteq> 0xD503201F" "w AND 0x1F800000 = 0x12800000" | "w \<noteq> 0xD503201F" "w AND 0x1F800000 \<noteq> 0x12800000"
    by blast
  then show ?thesis
  proof cases
    case 1
    then show ?thesis using assms(7,8) by (auto simp: exec_nop simulates_def same_but_def next_pc_def links_def)
  next
    case 2
    then have "a64_exec w st = move_wide w st" for st by (simp add: a64_exec_def)
    moreover have "\<not> links w" using mask_neq [OF 2(2)] by (simp add: links_def)
    ultimately show ?thesis using ret [of "move_wide w t"] assms(7) pc_shift(1) t by metis
  next
    case 3
    have e: "a64_exec w st =
       (if w AND 0x1F800000 = 0x11000000 then add_sub_imm w st
        else if w AND 0x7F200000 = 0x2A000000 then orr_shifted w st
        else if w AND 0xFF800000 = 0xF9000000 then Some (load_store_x w st)
        else if w AND 0xFE000000 = 0xA8000000 then load_store_pair_x w st
        else if w AND 0xFF9FFC1F = 0xD61F0000 \<and> ufield 21 2 w < 3 then
          let s' = (if ufield 21 2 w = 1 then st\<lparr>XR := (XR st)(30 := PC64 st + 4)\<rparr> else st)
          in Some (s'\<lparr>PC64 := xread (ufield 5 5 w) st\<rparr>)
        else None)" for st
      using 3 assms(1-6) cond by (simp add: a64_exec_def Let_def)
    show ?thesis
    proof (cases "w AND 0x1F800000 = 0x11000000 \<or> w AND 0x7F200000 = 0x2A000000 \<or> w AND 0xFF800000 = 0xF9000000 \<or> w AND 0xFE000000 = 0xA8000000")
      case True
      have "\<exists>r. \<forall>p. a64_exec w (t\<lparr>PC64 := p\<rparr>) = map_option (\<lambda>x. x\<lparr>PC64 := p + 4\<rparr>) r"
      proof (cases "w AND 0x1F800000 = 0x11000000")
        case True
        then show ?thesis unfolding e pc_shift by auto
      next
        case False
        note f1 = this
        show ?thesis
        proof (cases "w AND 0x7F200000 = 0x2A000000")
          case True
          then show ?thesis unfolding e pc_shift using f1 by auto
        next
          case False
          show ?thesis
          proof (cases "w AND 0xFF800000 = 0xF9000000")
            case True
            then show ?thesis unfolding e pc_shift using f1 False by (intro exI [of _ "Some (load_store_x w t)"]) simp
          next
            case f3: False
            then show ?thesis unfolding e pc_shift using f1 False \<open>w AND 0x1F800000 = 0x11000000 \<or> _\<close> by auto
          qed
        qed
      qed
      moreover have "\<not> links w"
      proof
        assume "links w"
        then have l: "w AND 0xFFFFFC1F = 0xD63F0000" using links_copied assms(3) by blast
        show False using True mask_neq [OF l] by simp
      qed
      ultimately show ?thesis using ret assms(7) t by metis
    next
      case False
      then have j: "w AND 0xFF9FFC1F = 0xD61F0000" "ufield 21 2 w < 3" using assms(7) unfolding e by (auto split: if_splits)
      have bl: "links w \<longleftrightarrow> ufield 21 2 w = 1"
      proof
        assume "links w"
        then have "w AND 0xFFFFFC1F = 0xD63F0000" using links_copied assms(3) by blast
        then show "ufield 21 2 w = 1" using agree_field [of w "0xFFFFFC1F" "0xD63F0000" 21 2] by (simp add: ufield_def mask_eq_exp_minus_1)
      next
        assume that: "ufield 21 2 w = 1"
        have "w AND 0x600000 = 0x200000"
        proof -
          have 1: "drop_bit 21 w AND mask 2 = 1" using that by (simp add: ufield_def word_unat_eq_iff)
          have "push_bit 21 (drop_bit 21 w AND mask 2) = w AND push_bit 21 (mask 2)" by (rule bit_word_eqI) (auto simp: bit_simps)
          then have "w AND push_bit 21 (mask 2) = push_bit 21 1" by (simp only: 1)
          then show ?thesis by (simp add: mask_eq_exp_minus_1)
        qed
        moreover have "w AND (0xFF9FFC1F OR 0x600000) = (w AND 0xFF9FFC1F) OR (w AND 0x600000)" by (rule bit.conj_disj_distrib)
        ultimately have "w AND 0xFFFFFC1F = 0xD63F0000" unfolding j(1) by simp
        then show "links w" by (simp add: links_def)
      qed
      have s: "s = (if ufield 21 2 w = 1 then t\<lparr>PC64 := pc0, XR := (XR t)(30 := pc0 + 4)\<rparr> else t\<lparr>PC64 := pc0\<rparr>)\<lparr>PC64 := xread (ufield 5 5 w) t\<rparr>"
        using assms(7) False j by (auto simp: e Let_def xread_def)
      have t': "a64_exec w t = Some ((if ufield 21 2 w = 1 then t\<lparr>XR := (XR t)(30 := P + 4)\<rparr> else t)\<lparr>PC64 := xread (ufield 5 5 w) t\<rparr>)"
        using False j assms(8) by (simp add: e Let_def)
      show ?thesis unfolding t' s using bl assms(8) by (auto simp: simulates_def same_but_def returns_at_def)
    qed
  qed
qed

lemma block_simulates:
  assumes "relo_block pc0 w = Some b" "relocatable w" "PC64 t = P" "block_in (mem64 t) P b" "a64_exec w (t\<lparr>PC64 := pc0\<rparr>) = Some s"
  shows "\<exists>t'. a64_runs t t' \<and> simulates pc0 (P + 4 * of_nat (length (raw_block b))) w t' s"
proof -
  consider (literal) "w AND 0x3B000000 = 0x18000000" | (adr) "w AND 0x3B000000 \<noteq> 0x18000000" "w AND 0x1F000000 = 0x10000000"
    | (branch) "w AND 0x3B000000 \<noteq> 0x18000000" "w AND 0x1F000000 \<noteq> 0x10000000" "w AND 0x7C000000 = 0x14000000"
    | (test) "w AND 0x3B000000 \<noteq> 0x18000000" "w AND 0x1F000000 \<noteq> 0x10000000" "w AND 0x7C000000 \<noteq> 0x14000000" "w AND 0x7E000000 = 0x36000000"
    | (compare) "w AND 0x3B000000 \<noteq> 0x18000000" "w AND 0x1F000000 \<noteq> 0x10000000" "w AND 0x7C000000 \<noteq> 0x14000000" "w AND 0x7E000000 \<noteq> 0x36000000"
        "w AND 0x7E000000 = 0x34000000"
    | (cond) "w AND 0x3B000000 \<noteq> 0x18000000" "w AND 0x1F000000 \<noteq> 0x10000000" "w AND 0x7C000000 \<noteq> 0x14000000" "w AND 0x7E000000 \<noteq> 0x36000000"
        "w AND 0x7E000000 \<noteq> 0x34000000" "w AND 0xFE000000 = 0x54000000"
    | (other) "w AND 0x3B000000 \<noteq> 0x18000000" "w AND 0x1F000000 \<noteq> 0x10000000" "w AND 0x7C000000 \<noteq> 0x14000000" "w AND 0x7E000000 \<noteq> 0x36000000"
        "w AND 0x7E000000 \<noteq> 0x34000000" "w AND 0xFE000000 \<noteq> 0x54000000"
    by blast
  then show ?thesis
  proof cases
    case literal
    then have l: "w AND 0xFF000000 = 0x58000000" using assms(2) by (simp add: relocatable_def)
    have b: "b = Words ([nop_word] @ mov_words 17 (decode_imm19_offset w + pc0) @ [ldr_word (decode_rt w) 17, nop_word])"
      using assms(1) literal by (simp add: relo_block_def split: if_splits)
    show ?thesis using literal_block [OF l assms(3,5)] assms(4) unfolding b by (simp add: mov_words_def)
  next
    case adr
    then have r: "ufield 0 5 w \<noteq> 31" using assms(2) by (simp add: relocatable_def)
    show ?thesis using adr_block [OF adr(2) r assms(3,5)] assms(1,4) adr(1,2) by (auto simp: relo_block_def mov_words_def)
  next
    case branch
    then have b: "b = Jump [nop_word] (decode_imm26_offset w + pc0) [if w AND 0xFC000000 = 0x94000000 then blr_word 17 else br_word 17, nop_word]"
      using assms(1) by (simp add: relo_block_def)
    show ?thesis using branch_block [OF branch(3) assms(3,5)] assms(4) unfolding b by (simp del: block_in.simps)
  next
    case test
    then have b: "b = inverted_block (decode_imm14_offset w + pc0) (set_bits_c (set_bit_c w 24 (bit_of w 24 XOR 1)) 5 18 3)"
      using assms(1) by (simp add: relo_block_def)
    show ?thesis using test_branch_block [OF test(4) assms(3,5)] assms(4) unfolding b by (simp add: inverted_block_def del: block_in.simps)
  next
    case compare
    then have b: "b = inverted_block (decode_imm19_offset w + pc0) (set_bits_c (set_bit_c w 24 (bit_of w 24 XOR 1)) 5 23 3)"
      using assms(1) by (simp add: relo_block_def)
    show ?thesis using compare_branch_block [OF compare(5) assms(3,5)] assms(4) unfolding b by (simp add: inverted_block_def del: block_in.simps)
  next
    case cond
    then have b: "b = inverted_block (decode_imm19_offset w + pc0) (set_bits_c (set_bits_c w 0 3 (bits w 0 3 XOR 1)) 5 23 3)"
      using assms(1) by (simp add: relo_block_def)
    have c: "ufield 0 4 w < 14" using assms(2) cond(6) by (simp add: relocatable_def)
    show ?thesis using conditional_branch_block [OF cond(6) c assms(3,5)] assms(4) unfolding b by (simp add: inverted_block_def del: block_in.simps)
  next
    case other
    then have b: "b = Words [w]" using assms(1) by (simp add: relo_block_def)
    obtain t' where t': "a64_exec w t = Some t'" "simulates pc0 (P + 4) w t' s" using copied_exec [OF other assms(5,3)] by blast
    have "a64_runs t t'" by (rule a64_runs_word [OF _ t'(1) a64_runs_refl]) (use assms(3,4) b in simp)
    then show ?thesis using t'(2) b by auto
  qed
qed

section \<open>The whole prologue\<close>

lemma code_at_targets:
  "code_at m a (concat (map (le_bytes 8) (ds :: u64 list))) \<Longrightarrow> i < length ds \<Longrightarrow> ld64 m (a + 8 * of_nat i) = ds ! i"
proof (induction ds arbitrary: a i)
  case (Cons d ds)
  show ?case
  proof (cases i)
    case 0
    then show ?thesis using Cons.prems(1) by (simp add: code_at_append code_at_dword)
  next
    case (Suc j)
    then have "ld64 m (a + 8 + 8 * of_nat j) = ds ! j" using Cons.IH [of "a + 8" j] Cons.prems by (simp add: code_at_append)
    then show ?thesis using Suc by (simp add: algebra_simps)
  qed
qed simp

text \<open>Every block of the bound code lies in memory with its slot.\<close>

lemma bound_blocks_in:
  assumes "code_at m (B + 4 * of_nat p) (words_le (bound_blocks S p bs))" "code_at m (B + 4 * of_nat S) (concat (map (le_bytes 8) (targets bs)))"
    and "p + length (raw_blocks bs) \<le> S" "S + 2 * length bs < 2 ^ 18" "i < length bs"
  shows "block_in m (B + 4 * of_nat (p + length (raw_blocks (take i bs)))) (bs ! i)"
  using assms
proof (induction S p bs arbitrary: i rule: bound_blocks.induct)
  case (2 S p ws bs)
  show ?case
  proof (cases i)
    case 0
    then show ?thesis using 2(2) by (simp add: raw_blocks_def code_at_append)
  next
    case (Suc j)
    have "block_in m (B + 4 * of_nat (p + length ws + length (raw_blocks (take j bs)))) (bs ! j)"
      by (rule 2(1)) (use 2(2-6) Suc in \<open>simp_all add: raw_blocks_def code_at_append algebra_simps\<close>)
    then show ?thesis using Suc by (simp add: raw_blocks_def algebra_simps)
  qed
next
  case (3 S p us d vs bs)
  let ?k = "S - (p + length us)"
  have k: "?k < 2 ^ 18" "p + length us \<le> S" using 3(4,5) by (simp_all add: raw_blocks_def)
  show ?case
  proof (cases i)
    case 0
    have "(of_nat S :: u64) = of_nat p + of_nat (length us) + of_nat ?k" using k(2) by (simp flip: of_nat_add)
    then have a: "B + 4 * of_nat p + 4 * of_nat (length us) + 4 * of_nat ?k = B + 4 * of_nat S" by (simp add: algebra_simps)
    have "ld64 m (B + 4 * of_nat p + 4 * of_nat (length us) + 4 * of_nat ?k) = d"
      unfolding a using 3(3) by (simp add: code_at_append code_at_dword)
    moreover have "code_at m (B + 4 * of_nat p) (words_le (us @ [ldr_lit_word 17 (of_nat ?k)] @ vs))"
      using 3(2) by (simp add: code_at_append algebra_simps)
    ultimately have "block_in m (B + 4 * of_nat p) (Jump us d vs)" unfolding block_in.simps using k(1) by blast
    then show ?thesis using 0 by (simp add: raw_blocks_def)
  next
    case (Suc j)
    have "block_in m (B + 4 * of_nat (p + length us + 1 + length vs + length (raw_blocks (take j bs)))) (bs ! j)"
      by (rule 3(1)) (use 3(2-6) Suc in \<open>simp_all add: raw_blocks_def code_at_append algebra_simps\<close>)
    then show ?thesis using Suc by (simp add: raw_blocks_def algebra_simps)
  qed
qed simp

lemma relo_blocks_nth:
  "relo_blocks pc ws = Some bs \<Longrightarrow> length bs = length ws \<and> (\<forall>i < length ws. relo_block (pc + 4 * of_nat i) (ws ! i) = Some (bs ! i))"
proof (induction pc ws arbitrary: bs rule: relo_blocks.induct)
  case (2 pc w ws)
  then obtain b cs where b: "relo_block pc w = Some b" "relo_blocks (pc + 4) ws = Some cs" "bs = b # cs" by (auto split: option.splits)
  from 2(1) [OF b(1,2)] b show ?case by (auto simp: nth_Cons' algebra_simps of_nat_diff gr0_conv_Suc less_Suc_eq_0_disj)
qed simp

lemma relo_block_length: "relo_block pc w = Some b \<Longrightarrow> length (raw_block b) \<le> 7"
  by (auto simp: relo_block_def inverted_block_def mov_words_def split: if_splits)

lemma relo_blocks_length: "relo_blocks pc ws = Some bs \<Longrightarrow> length (raw_blocks bs) \<le> 7 * length ws"
proof (induction pc ws arbitrary: bs rule: relo_blocks.induct)
  case (2 pc w ws)
  then obtain b cs where b: "relo_block pc w = Some b" "relo_blocks (pc + 4) ws = Some cs" "bs = b # cs" by (auto split: option.splits)
  from 2(1) [OF b(1,2)] relo_block_length [OF b(1)] b(3) show ?case by (simp add: raw_blocks_def)
qed (simp add: raw_blocks_def)

lemma relo_loop_Some: "relo_loop l pc ws a = Inr r \<Longrightarrow> \<exists>bs. relo_blocks pc ws = Some bs"
proof (induction l pc ws a rule: relo_loop.induct)
  case (2 l pc w ws a)
  from 2(2) obtain a1 where a1: "relo_one l pc w a = Inr a1" "relo_loop (l + 1) (pc + 4) ws a1 = Inr r" by (auto simp: res_bind_Inr_iff)
  then obtain b where "relo_block pc w = Some b" by (auto simp: relo_one_block split: option.splits)
  with 2(1) [OF a1(2)] show ?case by auto
qed simp

text \<open>What a successful relocation leaves in memory.\<close>

lemma GenRelocateCode_a64_memory:
  assumes "GenRelocateCode_a64 junk os_alloc pageSize orig ws arena e = Inr (code, arena', e')" "length ws < 1000"
  obtains bs where "relo_blocks orig ws = Some bs" "code_at (e_mem e') (mr_address code) (relocated_code_a64 orig (length ws) bs)"
    "length (raw_blocks bs) + 4 + 2 * length bs < 2 ^ 18"
proof -
  obtain r where "relo_loop 0 orig ws (new_TurboAssembler junk 0) = Inr r" using assms(1) by (auto simp: GenRelocateCode_a64_def res_bind_Inr_iff)
  then obtain bs where bs: "relo_blocks orig ws = Some bs" using relo_loop_Some by blast
  have small: "length (raw_blocks bs) + 4 + 2 * length bs < 2 ^ 18"
    using relo_blocks_length [OF bs] relo_blocks_nth [OF bs] assms(2) by simp
  obtain a a1 a2 where g: "relo_loop 0 orig ws (new_TurboAssembler junk 0) = Inr (orig + 4 * of_nat (length ws), a)"
      "LiteralLdrBranch_a64 (orig + 4 * of_nat (length ws)) a = Inr a1" "RelocBind_a64 a1 = Inr a2"
      "asm_ok a2" "emitted a2 = relocated_code_a64 orig (length ws) bs" "realized_address a2 = 0"
    using relocation_a64_emits [OF bs small, of junk] by blast
  have c: "contents (code_buffer a2) = relocated_code_a64 orig (length ws) bs" using g(5) by (simp add: emitted_def)
  let ?n = "length (relocated_code_a64 orig (length ws) bs)"
  obtain p where "CodePatch p (mr_address code) (relocated_code_a64 orig (length ws) bs) e = Inr e'"
    using assms(1) g(1-3,6) c
    by (auto simp: GenRelocateCode_a64_def res_bind_Inr_iff FinalizeFromTurboAssember_def FinalizeFromAddress_def Let_def split: option.splits prod.splits)
  then have "e_mem e' = (\<lambda>a. if unat (a - mr_address code) < ?n then relocated_code_a64 orig (length ws) bs ! unat (a - mr_address code) else e_mem e a)"
    by (auto simp: CodePatch_def Let_def res_bind_Inr_iff memcpy64_def split: if_splits)
  moreover have n: "?n < 2 ^ 64" using small relo_blocks_length [OF bs] length_targets [of bs 0 0] relo_blocks_nth [OF bs] assms(2) by simp
  ultimately have "code_at (e_mem e') (mr_address code) (relocated_code_a64 orig (length ws) bs)" by (rule code_at_patched)
  then show ?thesis using that bs small by blast
qed

definition relo_offset :: "u64 \<Rightarrow> u32 list \<Rightarrow> nat \<Rightarrow> u64" where
  "relo_offset orig ws i = 4 * of_nat (length (raw_blocks (take i (the (relo_blocks orig ws)))))"

text \<open>
  The relocated code at any address \<open>B\<close>: block \<open>i\<close> simulates instruction \<open>i\<close>, the end branches to the rest of the function.
\<close>

definition relocated_does :: "u64 \<Rightarrow> u64 \<Rightarrow> u32 list \<Rightarrow> nat \<Rightarrow> arm64_state \<Rightarrow> bool" where
  "relocated_does B orig ws i t \<longleftrightarrow>
     (if i < length ws
      then relocatable (ws ! i) \<longrightarrow> (\<forall>s. a64_exec (ws ! i) (t\<lparr>PC64 := orig + 4 * of_nat i\<rparr>) = Some s \<longrightarrow>
        (\<exists>t'. a64_runs t t' \<and> simulates (orig + 4 * of_nat i) (B + relo_offset orig ws (Suc i)) (ws ! i) t' s))
      else a64_runs t (t\<lparr>XR := (XR t)(17 := orig + 4 * of_nat (length ws)), PC64 := orig + 4 * of_nat (length ws)\<rparr>))"

lemma relocated_code_runs:
  assumes "relo_blocks orig ws = Some bs" "code_at (mem64 t) B (relocated_code_a64 orig (length ws) bs)"
    "length (raw_blocks bs) + 4 + 2 * length bs < 2 ^ 18"
    and "i \<le> length ws" "PC64 t = B + relo_offset orig ws i"
  shows "relocated_does B orig ws i t"
proof -
  let ?n = "length (raw_blocks bs)"
  note nth = relo_blocks_nth [OF assms(1)]
  have c: "code_at (mem64 t) B (words_le (bound_blocks (?n + 4) 0 bs))"
    "code_at (mem64 t) (B + 4 * of_nat ?n) (words_le [ldr_lit_word 17 2, br_word 17] @ le_bytes 8 (orig + 4 * of_nat (length ws)))"
    "code_at (mem64 t) (B + 4 * of_nat (?n + 4)) (concat (map (le_bytes 8) (targets bs)))"
    using assms(2) by (simp_all add: relocated_code_a64_def code_at_append algebra_simps)
  show ?thesis
  proof (cases "i < length ws")
    case True
    let ?P = "B + 4 * of_nat (0 + length (raw_blocks (take i bs)))"
    have P: "PC64 t = ?P" using assms(5) assms(1) by (simp add: relo_offset_def)
    have bi: "block_in (mem64 t) ?P (bs ! i)"
      by (rule bound_blocks_in [of _ _ _ "?n + 4"]) (use c(1,3) assms(3) nth True in simp_all)
    have E: "?P + 4 * of_nat (length (raw_block (bs ! i))) = B + relo_offset orig ws (Suc i)"
      using assms(1) True nth by (simp add: relo_offset_def raw_blocks_def take_Suc_conv_app_nth algebra_simps)
    have rb: "relo_block (orig + 4 * of_nat i) (ws ! i) = Some (bs ! i)" using nth True by blast
    show ?thesis using block_simulates [OF rb _ P bi] True unfolding relocated_does_def E by auto
  next
    case False
    then have i: "i = length ws" "take i bs = bs" using assms(4) nth by simp_all
    have P: "PC64 t = B + 4 * of_nat ?n" using assms(5) assms(1) i by (simp add: relo_offset_def)
    have "code_at (mem64 t) (PC64 t) (words_le [ldr_lit_word 17 2, br_word 17] @ le_bytes 8 (orig + 4 * of_nat (length ws)))"
      unfolding P by (rule c(2))
    from LiteralLdrBranch_runs [OF this] show ?thesis using False unfolding relocated_does_def a64_runs_def by auto
  qed
qed

text \<open>
  (C11) On ARM64 the relocated prologue does what the original does.  In the code that \<^verbatim>\<open>GenRelocateCode\<close> leaves in memory for a
  prologue of less than a thousand instructions, the block of
  every instruction of the processor model, except literal loads other than the 64-bit \<^verbatim>\<open>LDR\<close>, \<^verbatim>\<open>ADR\<close> and \<^verbatim>\<open>ADRP\<close> to the zero register and
  \<^verbatim>\<open>B.AL\<close> and \<^verbatim>\<open>B.NV\<close> (\<^verbatim>\<open>relocatable\<close>), simulates the instruction at its original address: it leaves the same memory and
  registers, where \<^verbatim>\<open>x17\<close> may differ for branches and for literal loads into another register only; after a call the link
  register returns to the end of the block, which is the block of the next instruction; and it continues there or at the original
  target of the branch.  The end of the code branches to the rest of the function.
\<close>

theorem arm64_relocation_correct:
  assumes "GenRelocateCode_a64 junk os_alloc pageSize orig ws arena e = Inr (code, arena', e')" "length ws < 1000" "mem64 t = e_mem e'"
    and "i \<le> length ws" "PC64 t = mr_address code + relo_offset orig ws i"
  shows "relocated_does (mr_address code) orig ws i t"
proof -
  obtain bs where bs: "relo_blocks orig ws = Some bs" "code_at (e_mem e') (mr_address code) (relocated_code_a64 orig (length ws) bs)"
      "length (raw_blocks bs) + 4 + 2 * length bs < 2 ^ 18"
    using GenRelocateCode_a64_memory [OF assms(1,2)] .
  show ?thesis by (rule relocated_code_runs [OF bs(1) _ bs(3)]) (use bs(2) assms(3-5) in simp_all)
qed

text \<open>A taken \<^verbatim>\<open>b.eq\<close> of the original reaches the same target from the relocated code.\<close>

theorem arm64_relocation_correct_witness:
  "\<exists>code arena' e' t t'. GenRelocateCode_a64 (\<lambda>_. 0) (Some 0x10000) (2 ^ 12) 0x400000 [0x54000040] None
       \<lparr>e_mem = (\<lambda>_. 0), e_writable = (\<lambda>_. False)\<rparr> = Inr (code, arena', e')
     \<and> PC64 t = mr_address code \<and> mem64 t = e_mem e' \<and> fZ t \<and> a64_runs t t' \<and> PC64 t' = 0x400008"
proof -
  let ?e = "\<lparr>e_mem = (\<lambda>_. 0), e_writable = (\<lambda>_. False)\<rparr>" and ?w = "0x54000040 :: u32"
  obtain b where b: "relo_blocks 0x400000 [?w] = Some [b]" "length (raw_block b) \<le> 7"
    using relo_block_length [of "0x400000" ?w] by (auto simp: relo_block_def)
  let ?c = "relocated_code_a64 0x400000 (length [?w]) [b]"
  have len: "length ?c \<le> 100" using b(2) length_targets [of "[b]" 0 0] by (simp add: relocated_code_a64_def raw_blocks_def)
  obtain chunk arena' where al: "AllocateCodeChunk (Some 0x10000) (2 ^ 12) (length ?c + 4) None = (Some chunk, arena')" "mr_address chunk = 0x10000"
    using len by (simp add: AllocateCodeChunk_def AllocateChunk_def Let_def find_page.simps getNextObjectForIterator_def arr_initWithCapacity_def
        pushObject_def getCount_def take_chunk_def new_page_def)
  obtain e' where g: "GenRelocateCode_a64 (\<lambda>_. 0) (Some 0x10000) (2 ^ 12) 0x400000 [?w] None ?e = Inr (FinalizeFromAddress (mr_address chunk) (length ?c), arena', e')"
    using GenRelocateCode_a64_installs [OF b(1) _ al(1), of "\<lambda>_. 0" ?e] b(2) len al(2) by (auto simp: raw_blocks_def ALIGN_FLOOR_def)
  let ?t = "\<lparr>XR = (\<lambda>_. 0), SP64 = 0, PC64 = 0x10000, fN = False, fZ = True, fC = False, fV = False, mem64 = e_mem e'\<rparr>"
  have ok: "relocatable ?w" by (simp add: relocatable_def ufield_def mask_eq_exp_minus_1)
  have ex: "a64_exec ?w (?t\<lparr>PC64 := 0x400000\<rparr>) = Some (?t\<lparr>PC64 := 0x400008\<rparr>)" by (simp add: a64_exec_def cond_holds_def branch_rel_def sfield_def ufield_def mask_eq_exp_minus_1)
  have "\<exists>t'. a64_runs ?t t' \<and> simulates 0x400000 (mr_address (FinalizeFromAddress (mr_address chunk) (length ?c)) + relo_offset 0x400000 [?w] (Suc 0)) ?w t' (?t\<lparr>PC64 := 0x400008\<rparr>)"
    using arm64_relocation_correct [OF g, of ?t 0] ok ex al(2) by (simp add: relocated_does_def relo_offset_def raw_blocks_def FinalizeFromAddress_def)
  then obtain t' where "a64_runs ?t t'" "PC64 t' = 0x400008" by (auto simp: simulates_def)
  moreover have "mr_address (FinalizeFromAddress (mr_address chunk) (length ?c)) = 0x10000" using al(2) by (simp add: FinalizeFromAddress_def)
  ultimately show ?thesis using g by (intro exI [of _ "FinalizeFromAddress (mr_address chunk) (length ?c)"] exI [of _ arena'] exI [of _ e'] exI [of _ ?t] exI [of _ t'] conjI) simp_all
qed

end
