(* ===== verification/Trampoline_Arm64.thy ===== *)
theory Trampoline_Arm64
  imports Relocate_Arm64
begin

text \<open>
  What Dobby's ARM64 trampolines do: the code written over a hooked function reaches the replacement,
  and where the page arithmetic of its short form goes wrong.
\<close>

lemma sint_of_int: "- (2 ^ 63) \<le> i \<Longrightarrow> i < 2 ^ 63 \<Longrightarrow> sint (of_int i :: u64) = i"
  by (simp add: signed_of_int signed_take_bit_int_eq_self)

lemma llabs_bound:
  assumes "llabs y < push_bit 32 1"
  shows "- (2 ^ 32) < sint y \<and> sint y < 2 ^ 32"
proof (cases "sint y < 0")
  case True
  have "- y = of_int (- sint y)" by (simp add: of_int_sint scast_id)
  then have "uint (- y) = uint (of_int (- sint y) :: u64)" by (rule arg_cong)
  also have "\<dots> = take_bit 64 (- sint y)" by (subst unsigned_of_int) simp
  also have "\<dots> = - sint y" using True sint_greater_eq [of y] by (intro take_bit_int_eq_self) simp_all
  finally show ?thesis using assms True by (simp add: llabs_def word_less_def)
next
  case False
  then have "uint y = sint y" using sint_less [of y] by (simp add: uint_sint take_bit_int_eq_self)
  then show ?thesis using assms False by (simp add: llabs_def word_less_def)
qed

lemma page_difference_range:
  fixes src dst :: u64
  assumes "llabs (src - dst) < push_bit 32 1" "ALIGN_FLOOR dst 0x1000 - ALIGN_FLOOR src 0x1000 \<noteq> 0x100000000"
  defines "d \<equiv> ALIGN_FLOOR dst 0x1000 - ALIGN_FLOOR src 0x1000"
  shows "- (2 ^ 32) \<le> sint d" "sint d < 2 ^ 32"
proof -
  define x where "x = sint (src - dst)"
  define m where "m = int (unat (dst mod 0x1000)) - int (unat (src mod 0x1000))"
  have x: "- (2 ^ 32) < x" "x < 2 ^ 32"
    using llabs_bound [OF assms(1)] by (simp_all add: x_def)
  have lt: "unat (z mod 0x1000) < 0x1000" for z :: u64 by (simp add: unat_mod)
  have m: "- 4096 < m" "m < 4096" using lt [of dst] lt [of src] unfolding m_def by linarith+
  have y: "of_int x = src - dst" by (simp add: x_def of_int_sint scast_id)
  have fl: "ALIGN_FLOOR z 0x1000 = z - of_nat (unat (z mod 0x1000))" for z :: u64
  proof -
    have "z mod 0x1000 = take_bit 12 z" by (simp add: take_bit_eq_mod)
    then have "z mod 0x1000 AND mask 12 = z mod 0x1000" by (simp flip: take_bit_eq_mask)
    then show ?thesis using page_difference(3) [of z] by (simp add: algebra_simps)
  qed
  have d: "d = of_int (- x - m)" unfolding d_def fl m_def by (simp add: y)
  then have sd: "sint d = - x - m" using sint_of_int [of "- x - m"] x m by simp
  have "take_bit 12 d = 0" using page_difference(1) [of dst src] by (simp add: d_def take_bit_eq_mask mask_eq_exp_minus_1)
  then have "take_bit 12 (take_bit 64 (sint d)) = 0" using unsigned_take_bit_eq [of 12 d, where 'a = int] by (simp add: uint_sint)
  then have "4096 dvd sint d" by (simp add: take_bit_eq_0_iff)
  then obtain k where k: "sint d = 4096 * k" by blast
  have "sint d \<noteq> 2 ^ 32"
  proof
    assume "sint d = 2 ^ 32"
    then have "of_int (sint d) = (of_int (2 ^ 32) :: u64)" by (simp only:)
    then show False using assms(2) by (simp add: d_def)
  qed
  then show "- (2 ^ 32) \<le> sint d" "sint d < 2 ^ 32" using k sd x m by simp_all
qed

lemma new_TurboAssembler_ok: "asm_ok (new_TurboAssembler junk addr)" "emitted (new_TurboAssembler junk addr) = []"
  "pc_offset (new_TurboAssembler junk addr) = 0" "realized_address (new_TurboAssembler junk addr) = addr"
  by (simp_all add: new_TurboAssembler_def asm_ok_def emitted_def pc_offset_def initWithCapacity_def buf_ok_def contents_def getSize_def)

lemma trampoline_words:
  "\<exists>b. GenerateNormalTrampolineBuffer_a64 junk src dst = Inr (Some b) \<and> buf_ok b \<and> contents b =
     (if llabs (src - dst) < push_bit 32 1
      then words_le [adrp_word 17 (ALIGN_FLOOR dst 0x1000 - ALIGN_FLOOR src 0x1000), add_word 17 17 (dst mod 0x1000), br_word 17]
      else words_le [ldr_lit_word 17 2, br_word 17] @ le_bytes 8 dst)"
proof (cases "llabs (src - dst) < push_bit 32 1")
  case True
  let ?ws = "[adrp_word 17 (ALIGN_FLOOR dst 0x1000 - ALIGN_FLOOR src 0x1000), add_word 17 17 (dst mod 0x1000), br_word 17]"
  let ?a = "fold Emit_a64 ?ws (new_TurboAssembler junk src)"
  have a: "asm_ok ?a" "emitted ?a = words_le ?ws" "pc_offset ?a = 12"
    using emit_words [of "new_TurboAssembler junk src" ?ws] by (simp_all add: new_TurboAssembler_ok)
  then have b: "buf_ok (code_buffer ?a)" "getSize (code_buffer ?a) = 12" "contents (code_buffer ?a) = words_le ?ws"
    by (simp_all add: asm_ok_def pc_offset_def emitted_def)
  have "GenerateNormalTrampolineBuffer_a64 junk src dst = Inr (copy junk (code_buffer ?a))"
    using True by (simp add: GenerateNormalTrampolineBuffer_a64_def Let_def AdrpAdd_words br_a64_word)
  with copy_contents [OF b(1), of junk] b True show ?thesis by auto
next
  case False
  obtain a where a: "LiteralLdrBranch_a64 dst (new_TurboAssembler junk src) = Inr a" "asm_ok a" "pc_offset a = 16"
      "emitted a = words_le [ldr_lit_word 17 2, br_word 17] @ le_bytes 8 dst"
    using LiteralLdrBranch_a64_emits [of "new_TurboAssembler junk src" dst] by (auto simp: new_TurboAssembler_ok)
  then have b: "buf_ok (code_buffer a)" "getSize (code_buffer a) = 16" "contents (code_buffer a) = emitted a"
    by (simp_all add: asm_ok_def pc_offset_def emitted_def)
  have "GenerateNormalTrampolineBuffer_a64 junk src dst = Inr (copy junk (code_buffer a))"
    using False a(1) by (simp add: GenerateNormalTrampolineBuffer_a64_def Let_def)
  with copy_contents [OF b(1), of junk] b a(4) False show ?thesis by auto
qed

lemma run_br: "code_at (mem64 s) (PC64 s) (le_bytes 4 (br_word r)) \<Longrightarrow> r < 31 \<Longrightarrow> a64_run 1 s = Some (s\<lparr>PC64 := XR s r\<rparr>)"
  by (simp add: a64_step_word exec_br_word)

text \<open>The code of either form, at its address, branches to the destination.\<close>

lemma normal_trampoline_runs:
  assumes "ALIGN_FLOOR dst 0x1000 - ALIGN_FLOOR src 0x1000 \<noteq> 0x100000000"
    and "GenerateNormalTrampolineBuffer_a64 junk src dst = Inr (Some b)" "PC64 s = src" "code_at (mem64 s) src (contents b)"
  shows "\<exists>n. a64_run n s = Some (s\<lparr>XR := (XR s)(17 := dst), PC64 := dst\<rparr>)"
proof (cases "llabs (src - dst) < push_bit 32 1")
  case True
  let ?ws = "[adrp_word 17 (ALIGN_FLOOR dst 0x1000 - ALIGN_FLOOR src 0x1000), add_word 17 17 (dst mod 0x1000)]"
  have c: "code_at (mem64 s) src (words_le ?ws)" "code_at (mem64 s) (src + 8) (le_bytes 4 (br_word 17))"
    using assms(2,4) trampoline_words [of junk src dst] True by (auto simp: code_at_append add.assoc)
  note r1 = AdrpAdd_runs [OF _ assms(3) c(1) page_difference_range [OF True assms(1)], simplified]
  have "a64_run (2 + 1) s = Some (s\<lparr>XR := (XR s)(17 := dst), PC64 := dst\<rparr>)"
    unfolding a64_run_add r1 using run_br [of "s\<lparr>XR := (XR s)(17 := dst), PC64 := src + 8\<rparr>" 17] c(2) by simp
  then show ?thesis ..
next
  case False
  then have "code_at (mem64 s) (PC64 s) (words_le [ldr_lit_word 17 2, br_word 17] @ le_bytes 8 dst)"
    using assms(2-4) trampoline_words [of junk src dst] by auto
  from LiteralLdrBranch_runs [OF this] show ?thesis ..
qed

text \<open>
  (C25) \<^verbatim>\<open>GenerateNormalTrampolineBuffer\<close> on ARM64 always produces a buffer, and running its bytes at the patched function reaches the
  destination, with only the scratch register \<^verbatim>\<open>x17\<close> changed, unless the page of the destination is exactly \<^verbatim>\<open>2^32\<close> bytes above the
  page of the source.
\<close>

theorem normal_trampoline_reaches:
  assumes "ALIGN_FLOOR dst 0x1000 - ALIGN_FLOOR src 0x1000 \<noteq> 0x100000000"
  shows "\<exists>b. GenerateNormalTrampolineBuffer_a64 junk src dst = Inr (Some b) \<and>
    (\<forall>s. PC64 s = src \<and> code_at (mem64 s) src (contents b) \<longrightarrow>
      (\<exists>n. a64_run n s = Some (s\<lparr>XR := (XR s)(17 := dst), PC64 := dst\<rparr>)))"
  using trampoline_words [of junk src dst] normal_trampoline_runs [OF assms] by blast

theorem normal_trampoline_reaches_witness:
  "\<exists>b. GenerateNormalTrampolineBuffer_a64 (\<lambda>_. 0) 0x10000 0x20008 = Inr (Some b) \<and>
    (\<forall>s. PC64 s = 0x10000 \<and> code_at (mem64 s) 0x10000 (contents b) \<longrightarrow>
      (\<exists>n. a64_run n s = Some (s\<lparr>XR := (XR s)(17 := 0x20008), PC64 := 0x20008\<rparr>)))"
  by (rule normal_trampoline_reaches) (simp add: ALIGN_FLOOR_def)

text \<open>
  For a destination page exactly \<open>2 ^ 32\<close> bytes above the source page, with the addresses less than
  \<open>2 ^ 32\<close> apart, the page difference does not fit the immediate of ADRP: the trampoline branches to an
  address \<open>2 ^ 33\<close> below the destination.
\<close>

theorem normal_trampoline_overflow:
  assumes "ALIGN_FLOOR dst 0x1000 - ALIGN_FLOOR src 0x1000 = 0x100000000" "llabs (src - dst) < push_bit 32 1"
    "PC64 s = src" "GenerateNormalTrampolineBuffer_a64 junk src dst = Inr (Some b)" "code_at (mem64 s) src (contents b)"
  shows "a64_run 3 s = Some (s\<lparr>XR := (XR s)(17 := dst - 0x200000000), PC64 := dst - 0x200000000\<rparr>)"
proof -
  have c: "code_at (mem64 s) (PC64 s) (words_le [adrp_word 17 0x100000000, add_word 17 17 (dst mod 0x1000), br_word 17])"
    using assms trampoline_words [of junk src dst] by auto
  have w: "adrp_word 17 0x100000000 = adrp_word 17 0xFFFFFFFF00000000"
    by (simp add: adrp_word_def LFT_eval)
  have st: "mem64 (next_pc (xwrite 17 v s)) = mem64 s" "PC64 (next_pc (xwrite 17 v s)) = PC64 s + 4"
    "mem64 (next_pc (spwrite 17 v s)) = mem64 s" "PC64 (next_pc (spwrite 17 v s)) = PC64 s + 4" for v s
    by (simp_all add: spwrite_def)
  have e: "a64_exec (adrp_word 17 0x100000000) s = Some (next_pc (xwrite 17 ((PC64 s AND NOT 0xFFF) + 0xFFFFFFFF00000000) s))"
    unfolding w by (rule exec_adrp_word) (simp_all add: signed_take_bit_int_eq_self)
  note r1 = run_words_Cons [OF c e st(1,2)]
  have lt: "17 < (32 :: nat)" by simp
  note r2 = run_words_Cons [OF r1(2) exec_add_word [OF lt lt] st(3,4)]
  define off where "off = dst mod 0x1000 AND mask 12"
  have "ALIGN_FLOOR dst 0x1000 + off = dst" using page_difference(3) [of dst] by (simp add: off_def)
  moreover have "ALIGN_FLOOR dst 0x1000 = ALIGN_FLOOR src 0x1000 + 0x100000000" using assms(1) by (simp add: diff_eq_eq)
  ultimately have dst: "dst = ALIGN_FLOOR src 0x1000 + 0x100000000 + off" by simp
  have n: "(0xFFFFFFFF00000000 :: u64) = - 0x100000000" by code_simp
  have d: "(PC64 s AND NOT 0xFFF) + 0xFFFFFFFF00000000 + off = dst - 0x200000000"
    unfolding dst assms(3) page_difference(2) [symmetric] n by (simp add: algebra_simps)
  have n3: "(3 :: nat) = Suc (Suc (Suc 0))" by simp
  let ?s1 = "next_pc (xwrite 17 ((PC64 s AND NOT 0xFFF) + 0xFFFFFFFF00000000) s)"
  let ?s2 = "next_pc (spwrite 17 (spread 17 ?s1 + off) ?s1)"
  have "spread 17 ?s1 + off = dst - 0x200000000" using d by (simp add: spread_def xwrite_def next_pc_def)
  then have s2: "?s2 = s\<lparr>XR := (XR s)(17 := dst - 0x200000000), PC64 := PC64 s + 8\<rparr>"
    by (simp only:) (simp add: spwrite_def xwrite_def next_pc_def)
  have "a64_run 3 s = a64_run (Suc 0) ?s2" unfolding n3 r1(1) r2(1) off_def ..
  moreover have "a64_run (Suc 0) ?s2 = Some (?s2\<lparr>PC64 := XR ?s2 17\<rparr>)"
    using run_br [of ?s2 17] r2(2) by (simp only: off_def words_le_simps append_Nil2) simp
  ultimately show ?thesis unfolding s2 by simp
qed

text \<open>The overflow at a concrete pair of addresses.\<close>

definition code_state :: "u64 \<Rightarrow> u8 list \<Rightarrow> arm64_state" where
  "code_state addr bs = \<lparr>XR = (\<lambda>_. 0), SP64 = 0, PC64 = addr, fN = False, fZ = False, fC = False, fV = False,
     mem64 = mem_of addr bs\<rparr>"

lemma code_at_code_state: "length bs < 2 ^ 64 \<Longrightarrow> code_at (mem64 (code_state addr bs)) addr bs"
  by (simp add: code_state_def code_at_mem_of)

theorem normal_trampoline_overflow_witness:
  "\<exists>b s. GenerateNormalTrampolineBuffer_a64 (\<lambda>_. 0) 0x10FFF 0x100010000 = Inr (Some b)
     \<and> a64_run 3 s = Some (s\<lparr>XR := (XR s)(17 := 0x100010000 - 0x200000000), PC64 := 0x100010000 - 0x200000000\<rparr>)"
proof -
  have near: "llabs (0x10FFF - 0x100010000) < push_bit 32 1" by (simp add: llabs_def signed_take_bit_int_eq_self)
  obtain b where b: "GenerateNormalTrampolineBuffer_a64 (\<lambda>_. 0) 0x10FFF 0x100010000 = Inr (Some b)"
      "contents b = words_le [adrp_word 17 0x100000000, add_word 17 17 0, br_word 17]"
    using trampoline_words [of "\<lambda>_. 0" "0x10FFF" "0x100010000"] near by (auto simp: ALIGN_FLOOR_def)
  have c: "code_at (mem64 (code_state 0x10FFF (contents b))) 0x10FFF (contents b)"
    by (rule code_at_code_state) (simp add: b(2))
  have "PC64 (code_state 0x10FFF (contents b)) = 0x10FFF" by (simp add: code_state_def)
  from normal_trampoline_overflow [OF _ near this b(1) c] b(1) show ?thesis by (auto simp: ALIGN_FLOOR_def)
qed
end
