(* ===== verification/Hook_Correct.thy ===== *)
theory Hook_Correct
  imports Hook_Registry Relocate_Arm64_Exec Trampoline_Arm64
begin

text \<open>
  \<^verbatim>\<open>DobbyHook\<close> end to end on ARM64: the redirect that it writes over the function, the code that it relocates and the
  table it keeps, put together.  After a hook, a call of the function runs the replacement, and the address
  handed to the caller runs the instructions that were overwritten and then the rest of the function.  The
  properties of the table of \<open>Hook_Registry\<close> follow, with the hook as the run they are shown on.
\<close>

section \<open>A hook that succeeds\<close>

text \<open>The number of bytes the redirect takes, and the instructions it overwrites.\<close>

definition redirect_size :: "u64 \<Rightarrow> u64 \<Rightarrow> nat" where
  "redirect_size f r = (if llabs (f - r) < push_bit 32 1 then 12 else 16)"

definition prologue_words :: "dobby \<Rightarrow> u64 \<Rightarrow> u64 \<Rightarrow> u32 list" where
  "prologue_words s f r = fetch_words (e_mem (process s)) f (redirect_size f r)"

text \<open>
  What the environment has to grant: the overwritten instructions are among those that the relocation supports,
  the arena has a chunk for their code, and neither the chunk nor the redirect crosses a page or meets the other.
\<close>

definition hook_room :: "dobby_env \<Rightarrow> u64 \<Rightarrow> u64 \<Rightarrow> nat \<Rightarrow> MemoryRange \<Rightarrow> dobby \<Rightarrow> bool" where
  "hook_room env f r k chunk s \<longleftrightarrow> k < 63 \<and> de_page_size env = 2 ^ k
     \<and> unat (f - ALIGN_FLOOR f (2 ^ k)) + redirect_size f r \<le> 2 ^ k
     \<and> (case relo_blocks f (prologue_words s f r) of None \<Rightarrow> False | Some bs \<Rightarrow>
          let n = length (relocated_code_a64 f (length (prologue_words s f r)) bs)
          in fst (AllocateCodeChunk (de_os env (os_calls s) 0) (2 ^ k) (n + 4) (code_arena s)) = Some chunk
           \<and> unat (mr_address chunk - ALIGN_FLOOR (mr_address chunk) (2 ^ k)) + n \<le> 2 ^ k
           \<and> (\<forall>i < n. redirect_size f r \<le> unat (mr_address chunk + of_nat i - f)))"

lemma redirect_size_buffer:
  assumes "GenerateNormalTrampolineBuffer_a64 junk f r = Inr (Some b)"
  shows "length (contents b) = redirect_size f r" "getSize b = redirect_size f r"
proof -
  have b: "buf_ok b" "length (contents b) = redirect_size f r"
    using trampoline_words [of junk f r] assms by (auto simp: redirect_size_def)
  then show "length (contents b) = redirect_size f r" "getSize b = redirect_size f r" by auto
qed

text \<open>The steps of \<^verbatim>\<open>DobbyHook\<close> up to the commit, for a function that is not hooked with the same replacement.\<close>

lemma BuildReplaceRouting_a64:
  assumes "near_branch_trampoline s = 0" "hook_room env f r k chunk s" "trampoline_buffer (route e) = None"
    and "target_address e = f" "route_call (route e) = r" "length (ib_data (origin_instructions e)) = 64"
  obtains e' s' b bs where "BuildReplaceRouting a64_backend env e s = Some (Inr (e', s'))"
    "GenerateNormalTrampolineBuffer_a64 (de_junk env) f r = Inr (Some b)" "relo_blocks f (prologue_words s f r) = Some bs"
    "origin_code (route e') = Some (FinalizeFromAddress f (getSize b))" "trampoline_buffer (route e') = Some b"
    "relocated_origin e' = mr_address chunk"
    "code_at (e_mem (process s')) (mr_address chunk) (relocated_code_a64 f (length (prologue_words s f r)) bs)"
proof -
  let ?ws = "prologue_words s f r"
  obtain b where b: "GenerateNormalTrampolineBuffer_a64 (de_junk env) f r = Inr (Some b)" using trampoline_words by blast
  note sz = redirect_size_buffer [OF b]
  obtain bs where bs: "relo_blocks f ?ws = Some bs" using assms(2) by (auto simp: hook_room_def split: option.splits)
  let ?code = "relocated_code_a64 f (length ?ws) bs"
  obtain arena' where al: "AllocateCodeChunk (de_os env (os_calls s) 0) (2 ^ k) (length ?code + 4) (code_arena s) = (Some chunk, arena')"
      "k < 63" "unat (mr_address chunk - ALIGN_FLOOR (mr_address chunk) (2 ^ k)) + length ?code \<le> 2 ^ k" "de_page_size env = 2 ^ k"
    using assms(2) bs by (auto simp: hook_room_def Let_def prod_eq_iff)
  have n: "length ?ws \<le> 4" by (simp add: prologue_words_def fetch_words_def redirect_size_def)
  then have small: "length (raw_blocks bs) + 4 + 2 * length bs < 2 ^ 18"
    using relo_blocks_length [OF bs] relo_blocks_nth [OF bs] by simp
  obtain p where g: "GenRelocateCode_a64 (de_junk env) (de_os env (os_calls s) 0) (2 ^ k) f ?ws (code_arena s) (process s)
        = Inr (FinalizeFromAddress (mr_address chunk) (length ?code), arena', p)"
      "e_mem p = (\<lambda>a. if unat (a - mr_address chunk) < length ?code then ?code ! unat (a - mr_address chunk) else e_mem (process s) a)"
    using GenRelocateCode_a64_installs [OF bs small al(1-3), of "de_junk env" "process s"] by blast
  have len: "length ?code < 2 ^ 64" using small relo_blocks_length [OF bs] length_targets [of bs 0 0] relo_blocks_nth [OF bs] n
    by (simp add: relocated_code_a64_def)
  have c: "code_at (e_mem p) (mr_address chunk) ?code"
    by (rule code_at_patched [OF g(2) len])
  have u: "unat (of_nat (getSize b) :: u64) = redirect_size f r" "getSize b \<le> 64" using sz by (simp_all add: redirect_size_def)
  have "\<exists>e'. BuildReplaceRouting a64_backend env e s = Some (Inr (e', s\<lparr>code_arena := arena', process := p, os_calls := os_calls s + 1\<rparr>))
      \<and> origin_code (route e') = Some (FinalizeFromAddress f (getSize b)) \<and> trampoline_buffer (route e') = Some b \<and> relocated_origin e' = mr_address chunk"
    using assms(1,3-5) b g(1) al(4) u
    by (simp add: BuildReplaceRouting_def GenerateTrampolineBuffer_def GenerateRelocatedCode_def a64_backend_def normal_a64_def relocate_a64_def
        FinalizeFromAddress_def prologue_words_def Let_def)
  then show ?thesis using that b bs c by fastforce
qed

text \<open>What a successful hook leaves in memory: the redirect over the function and the relocated prologue.\<close>

lemma DobbyHook_a64_installs:
  assumes "f \<noteq> 0" "near_branch_trampoline s = 0" "hooks_ok env s" "\<And>e. first_hook s f = Some e \<Longrightarrow> trampoline_target (route e) \<noteq> r"
    and "hook_room env f r k chunk s"
  obtains s' b bs where "DobbyHook a64_backend env f r s = Some (Inr ((RS_SUCCESS, Some (mr_address chunk)), s'))"
    "GenerateNormalTrampolineBuffer_a64 (de_junk env) f r = Inr (Some b)" "code_at (e_mem (process s')) f (contents b)"
    "relo_blocks f (prologue_words s f r) = Some bs" "length (raw_blocks bs) + 4 + 2 * length bs < 2 ^ 18"
    "code_at (e_mem (process s')) (mr_address chunk) (relocated_code_a64 f (length (prologue_words s f r)) bs)"
proof -
  obtain a s1 where sh: "SharedInstance s = (a, s1)" by (cases "SharedInstance s")
  let ?s2 = "s1\<lparr>news := news s1 + 1\<rparr>" and ?e = "new_HookEntry f (getCount a) kFunctionInlineHook r" and ?ws = "prologue_words s f r"
  have s1: "hook_heap s1 = hook_heap s" "process s1 = process s" "code_arena s1 = code_arena s" "os_calls s1 = os_calls s"
      "near_branch_trampoline s1 = near_branch_trampoline s" "news s1 = news s"
    using sh by (auto simp: SharedInstance_def Let_def split: option.splits)
  have ws: "prologue_words (s1\<lparr>news := n\<rparr>) f r = ?ws" for n by (simp add: prologue_words_def s1)
  have room: "hook_room env f r k chunk ?s2" using assms(5) by (simp add: hook_room_def ws s1 cong: option.case_cong)
  have near: "near_branch_trampoline ?s2 = 0" using assms(2) s1(5) by simp
  have e: "trampoline_buffer (route ?e) = None" "target_address ?e = f" "route_call (route ?e) = r" "length (ib_data (origin_instructions ?e)) = 64"
    by (simp_all add: new_HookEntry_def new_InterceptRouting_def)
  obtain e' s3 b bs where h: "BuildReplaceRouting a64_backend env ?e ?s2 = Some (Inr (e', s3))"
      "GenerateNormalTrampolineBuffer_a64 (de_junk env) f r = Inr (Some b)" "relo_blocks f ?ws = Some bs"
      "origin_code (route e') = Some (FinalizeFromAddress f (getSize b))" "trampoline_buffer (route e') = Some b"
      "relocated_origin e' = mr_address chunk" "code_at (e_mem (process s3)) (mr_address chunk) (relocated_code_a64 f (length ?ws) bs)"
    using BuildReplaceRouting_a64 [OF near room e] unfolding ws .
  note sz = redirect_size_buffer [OF h(2)]
  have page: "de_page_size env = 2 ^ k" "k < 63" "unat (f - ALIGN_FLOOR f (2 ^ k)) + length (contents b) \<le> 2 ^ k"
      "\<forall>i < length (relocated_code_a64 f (length ?ws) bs). length (contents b) \<le> unat (mr_address chunk + of_nat i - f)"
    using assms(5) h(3) sz by (auto simp: hook_room_def Let_def)
  let ?s4 = "AddHookEntry (de_new env (news s)) e' s3"
  obtain p where p: "CodePatch (2 ^ k) f (contents b) (process s3) = Inr p"
      "e_mem p = (\<lambda>a. if unat (a - f) < length (contents b) then contents b ! unat (a - f) else e_mem (process s3) a)"
    using CodePatch_in_page [OF page(3,2), of "process s3"] by blast
  have "Commit env e' ?s4 = Some (Inr (?s4\<lparr>process := p\<rparr>))"
    using h(4,5) p(1) page(1) by (simp add: Commit_def Active_def FinalizeFromAddress_def AddHookEntry_def)
  then have hook: "DobbyHook a64_backend env f r s = Some (Inr ((RS_SUCCESS, Some (mr_address chunk)), ?s4\<lparr>process := p\<rparr>))"
    using assms(1,4) h(1,6) FindHookEntry_first [OF assms(3) sh, of f] s1 by (auto simp: DobbyHook_def sh operator_new_def split: option.splits)
  have "length (contents b) < 2 ^ 64" using sz by (simp add: redirect_size_def)
  note at = code_at_patched [OF p(2) this] code_at_unpatched [OF p(2) h(7) page(4)]
  have "length ?ws \<le> 4" by (simp add: prologue_words_def fetch_words_def redirect_size_def)
  then have small: "length (raw_blocks bs) + 4 + 2 * length bs < 2 ^ 18"
    using relo_blocks_length [OF h(3)] relo_blocks_nth [OF h(3)] by simp
  show ?thesis by (rule that [OF hook h(2) _ h(3) small]) (use at in simp_all)
qed

text \<open>
  (C10) \<^verbatim>\<open>DobbyHook\<close> on ARM64 with the near branches off, for a function that is not hooked with the same replacement as its first
  hook and whose page is not exactly \<open>2 ^ 32\<close> bytes below that of the replacement, returns \<^verbatim>\<open>RS_SUCCESS\<close> when the relocation
  supports the overwritten instructions, the arena has a chunk for them, and neither that chunk nor the redirect crosses a page or
  meets the other.  Afterwards a call of the function reaches the replacement with only \<open>x17\<close> changed, and the address stored
  in \<^verbatim>\<open>*origin_call\<close> still does what the function did: each overwritten instruction outside the known exceptions (\<open>relocatable\<close>) is
  simulated by its relocated block, calls with their return, and after the last block control is in the function behind the redirect.
\<close>

theorem dobby_hook_a64_correct:
  assumes "f \<noteq> 0" "near_branch_trampoline s = 0" "hooks_ok env s" "\<And>e. first_hook s f = Some e \<Longrightarrow> trampoline_target (route e) \<noteq> r"
    and "hook_room env f r k chunk s" "ALIGN_FLOOR r 0x1000 - ALIGN_FLOOR f 0x1000 \<noteq> 0x100000000"
  shows "\<exists>s'. DobbyHook a64_backend env f r s = Some (Inr ((RS_SUCCESS, Some (mr_address chunk)), s'))
    \<and> (\<forall>t. mem64 t = e_mem (process s') \<and> PC64 t = f \<longrightarrow> (\<exists>n. a64_run n t = Some (t\<lparr>XR := (XR t)(17 := r), PC64 := r\<rparr>)))
    \<and> (\<forall>t i. mem64 t = e_mem (process s') \<and> i \<le> length (prologue_words s f r)
          \<and> PC64 t = mr_address chunk + relo_offset f (prologue_words s f r) i
        \<longrightarrow> relocated_does (mr_address chunk) f (prologue_words s f r) i t)"
proof -
  obtain s' b bs where h: "DobbyHook a64_backend env f r s = Some (Inr ((RS_SUCCESS, Some (mr_address chunk)), s'))"
      "GenerateNormalTrampolineBuffer_a64 (de_junk env) f r = Inr (Some b)" "code_at (e_mem (process s')) f (contents b)"
      "relo_blocks f (prologue_words s f r) = Some bs" "length (raw_blocks bs) + 4 + 2 * length bs < 2 ^ 18"
      "code_at (e_mem (process s')) (mr_address chunk) (relocated_code_a64 f (length (prologue_words s f r)) bs)"
    using DobbyHook_a64_installs [OF assms(1-5)] by metis
  have "\<exists>n. a64_run n t = Some (t\<lparr>XR := (XR t)(17 := r), PC64 := r\<rparr>)" if "mem64 t = e_mem (process s')" "PC64 t = f" for t
    by (rule normal_trampoline_runs [OF assms(6) h(2)]) (use that h(3) in simp_all)
  moreover have "relocated_does (mr_address chunk) f (prologue_words s f r) i t"
    if "mem64 t = e_mem (process s')" "i \<le> length (prologue_words s f r)" "PC64 t = mr_address chunk + relo_offset f (prologue_words s f r) i" for t i
    by (rule relocated_code_runs [OF h(4) _ h(5)]) (use that h(6) in simp_all)
  ultimately show ?thesis using h(1) by blast
qed

section \<open>A process to hook in\<close>

text \<open>
  A process whose memory holds NOPs, with one page for the arena, pages of \<open>2 ^ 12\<close> bytes and objects from
  \<open>0x7000\<close> on: the hook of the function at \<open>0x400000\<close> with the replacement at \<open>0x500000\<close>.
\<close>

definition nop_process :: env64 where
  "nop_process = \<lparr>e_mem = (\<lambda>a. [0x1F, 0x20, 0x03, 0xD5] ! (unat a mod 4)), e_writable = (\<lambda>_. False)\<rparr>"

definition nop_env :: dobby_env where
  "nop_env = \<lparr>de_junk = (\<lambda>_. 0), de_page_size = 2 ^ 12, de_os = (\<lambda>_ _. Some 0x600000),
     de_near = (\<lambda>_. undefined), de_new = (\<lambda>n. 0x7000 + of_nat n), de_dispatch = 0x800, de_bridge_handler = 0x900, de_ndebug = False\<rparr>"

lemma nop_prologue: "redirect_size 0x400000 0x500000 = 12"
    "prologue_words (dobby_start nop_process) 0x400000 0x500000 = [0xD503201F, 0xD503201F, 0xD503201F]"
proof -
  show r: "redirect_size 0x400000 0x500000 = 12" by (simp add: redirect_size_def llabs_def signed_take_bit_int_eq_self)
  show "prologue_words (dobby_start nop_process) 0x400000 0x500000 = [0xD503201F, 0xD503201F, 0xD503201F]"
    unfolding prologue_words_def r by (simp add: fetch_words_def fetch_def nop_process_def dobby_start_def upt_rec)
qed

lemma nop_blocks:
  "relo_blocks 0x400000 [0xD503201F, 0xD503201F, 0xD503201F] = Some [Words [0xD503201F], Words [0xD503201F], Words [0xD503201F]]"
  "length (relocated_code_a64 0x400000 3 [Words [0xD503201F], Words [0xD503201F], Words [0xD503201F]]) = 28"
  by (simp_all add: relo_block_def relocated_code_a64_def raw_blocks_def)

lemma nop_room: "\<exists>chunk. hook_room nop_env 0x400000 0x500000 12 chunk (dobby_start nop_process) \<and> mr_address chunk = 0x600000"
proof -
  obtain chunk where al: "fst (AllocateCodeChunk (Some 0x600000) (2 ^ 12) 32 None) = Some chunk" "mr_address chunk = 0x600000"
    by (simp add: AllocateCodeChunk_def AllocateChunk_def Let_def find_page.simps getNextObjectForIterator_def arr_initWithCapacity_def
        pushObject_def getCount_def take_chunk_def new_page_def)
  have len: "0 + Suc 0 + Suc 0 + Suc 0 = (3 :: nat)" by simp
  have "12 \<le> unat (0x600000 + of_nat i - 0x400000 :: u64)" if "i < 28" for i
    using unat_of_nat_small [of "0x200000 + i"] that by simp
  then have "hook_room nop_env 0x400000 0x500000 12 chunk (dobby_start nop_process)"
    using al unfolding hook_room_def nop_prologue nop_blocks(1) option.case Let_def list.size nat_1_add_1 len nop_blocks(2)
    by (simp add: nop_env_def dobby_start_def ALIGN_FLOOR_def)
  with al(2) show ?thesis by blast
qed

theorem dobby_hook_a64_correct_witness:
  "\<exists>s'. DobbyHook a64_backend nop_env 0x400000 0x500000 (dobby_start nop_process) = Some (Inr ((RS_SUCCESS, Some 0x600000), s'))
    \<and> (\<forall>t. mem64 t = e_mem (process s') \<and> PC64 t = 0x400000 \<longrightarrow>
         (\<exists>n. a64_run n t = Some (t\<lparr>XR := (XR t)(17 := 0x500000), PC64 := 0x500000\<rparr>)))"
proof -
  obtain chunk where c: "hook_room nop_env 0x400000 0x500000 12 chunk (dobby_start nop_process)" "mr_address chunk = 0x600000"
    using nop_room by blast
  have s: "near_branch_trampoline (dobby_start nop_process) = 0" "first_hook (dobby_start nop_process) 0x400000 = None"
    by (simp_all add: dobby_start_def first_hook_def entries_of_def)
  have ok: "hooks_ok nop_env (dobby_start nop_process)" using table_after_start [of nop_env nop_process] by (simp add: table_after_def)
  have d: "ALIGN_FLOOR 0x500000 0x1000 - ALIGN_FLOOR 0x400000 0x1000 \<noteq> (0x100000000 :: u64)" by (simp add: ALIGN_FLOOR_def)
  from dobby_hook_a64_correct [OF _ s(1) ok _ c(1) d] s(2) c(2) show ?thesis by auto
qed

section \<open>The table of hooks\<close>

text \<open>
  (C14) Whatever calls of \<^verbatim>\<open>DobbyHook\<close>, \<^verbatim>\<open>DobbyInstrument\<close> and the two switches of the near-branch plugin the application
  makes, on x64 and on ARM64, the table of hooks is well formed afterwards: the entries are distinct objects,
  numbered by their position, each with a complete routing (a trampoline of at most 64 bytes, its range of the
  hooked function, the relocated code and the saved bytes), and every closure carries an instrumented entry whose
  redirect leads to the closure.
\<close>

theorem hook_table_well_formed:
  assumes "be = x64_backend \<or> be = a64_backend" "api_run be env cs (dobby_start p) = Some (Inr s)" "length cs \<le> 2 ^ 29"
    and "inj_on (de_new env) {..2 * length cs}"
  shows "hooks_ok env s \<and> length (entries_of s) \<le> length cs"
  using assms(1)
proof
  assume "be = x64_backend"
  then have "table_after env (0 + length cs) s" using x64b.api_run_table [OF table_after_start] assms(2-4) by simp
  then show ?thesis by (simp add: table_after_def)
next
  assume "be = a64_backend"
  then have "table_after env (0 + length cs) s" using a64b.api_run_table [OF table_after_start] assms(2-4) by simp
  then show ?thesis by (simp add: table_after_def)
qed

text \<open>The table after the hook in the process of NOPs, which has one entry.\<close>

lemma nop_hooked:
  obtains s' e where "api_run a64_backend nop_env [Hook 0x400000 0x500000] (dobby_start nop_process) = Some (Inr s')" "hooks_ok nop_env s'"
    "length (entries_of s') = 1" "first_hook s' 0x400000 = Some e" "trampoline_target (route e) = 0x500000"
proof -
  let ?s = "dobby_start nop_process"
  obtain chunk where c: "hook_room nop_env 0x400000 0x500000 12 chunk ?s" using nop_room by blast
  have s: "near_branch_trampoline ?s = 0" "first_hook ?s 0x400000 = None" "entries_of ?s = []" "hook_heap ?s = Map.empty" "news ?s = 0"
    by (simp_all add: dobby_start_def first_hook_def entries_of_def)
  have ok: "hooks_ok nop_env ?s" using table_after_start [of nop_env nop_process] by (simp add: table_after_def)
  have nz: "(0x400000 :: u64) \<noteq> 0" by simp
  have new: "trampoline_target (route e) \<noteq> 0x500000" if "first_hook ?s 0x400000 = Some e" for e
    using that s(2) by simp
  obtain s' where h: "DobbyHook a64_backend nop_env 0x400000 0x500000 ?s = Some (Inr ((RS_SUCCESS, Some (mr_address chunk)), s'))"
    using DobbyHook_a64_installs [OF nz s(1) ok new c] by blast
  then have run: "api_run a64_backend nop_env [Hook 0x400000 0x500000] ?s = Some (Inr s')" by (simp add: api_step_def)
  have "inj_on (de_new nop_env) {..2 * (0 + length [Hook 0x400000 0x500000])}"
    by (auto simp: nop_env_def inj_on_def le_Suc_eq numeral_2_eq_2)
  then have ok': "hooks_ok nop_env s'" using a64b.api_run_table [OF table_after_start run] by (simp add: table_after_def)
  from h show ?thesis
  proof (cases rule: a64b.DobbyHook_cases)
    case (added e a)
    have e: "entries_of s' = [de_new nop_env 0]" using hook_added_entries(1) [OF added(3) ok] s by simp
    have "hook_heap s' = [de_new nop_env 0 \<mapsto> e]" using added(3) s by (simp add: hook_added_def)
    then have "first_hook s' 0x400000 = Some e" using e added(4) by (simp add: first_hook_def)
    then show ?thesis using that run ok' e added(6) by simp
  qed simp
qed

theorem hook_table_well_formed_witness:
  "\<exists>s'. api_run a64_backend nop_env [Hook 0x400000 0x500000] (dobby_start nop_process) = Some (Inr s')
     \<and> hooks_ok nop_env s' \<and> length (entries_of s') = 1"
proof -
  obtain s' where s': "api_run a64_backend nop_env [Hook 0x400000 0x500000] (dobby_start nop_process) = Some (Inr s')" "length (entries_of s') = 1"
    using nop_hooked by metis
  have "inj_on (de_new nop_env) {..2 * length [Hook 0x400000 0x500000]}"
    by (auto simp: nop_env_def inj_on_def le_Suc_eq numeral_2_eq_2)
  with hook_table_well_formed [OF disjI2 [OF refl] s'(1)] s' show ?thesis by auto
qed

text \<open>
  The check of \<^verbatim>\<open>DobbyHook\<close> for a function that is already hooked compares the replacement with that of the first
  entry for the function only: when they agree the call fails (an assertion, or \<^verbatim>\<open>RS_FAILED\<close> when assertions are
  compiled out) and changes nothing; when they differ, a call that returns has added an entry, whatever
  replacements the later entries for the function have.
\<close>

theorem already_hooked_check:
  assumes "be = x64_backend \<or> be = a64_backend" "hooks_ok env s" "length (entries_of s) < 2 ^ 29" "f \<noteq> 0" "first_hook s f = Some e"
  shows "if trampoline_target (route e) = r
    then DobbyHook be env f r s = Some (if de_ndebug env then Inr ((RS_FAILED, None), s) else Inl CheckFailed)
    else \<forall>st oc s'. DobbyHook be env f r s = Some (Inr ((st, oc), s')) \<longrightarrow> st = RS_SUCCESS \<and> length (entries_of s') = length (entries_of s) + 1"
proof (cases "trampoline_target (route e) = r")
  case True
  then show ?thesis using DobbyHook_first [OF assms(2,4,5)] by simp
next
  case False
  have "st = RS_SUCCESS \<and> length (entries_of s') = length (entries_of s) + 1"
    if h: "DobbyHook be env f r s = Some (Inr ((st, oc), s'))" and b: "hook_backend be" for st oc s'
    using h
  proof (cases rule: hook_backend.DobbyHook_cases [OF b, consumes 1, case_names found added])
    case (found e')
    then show ?thesis using FindHookEntry_first [OF assms(2), of _ _ f] assms(5) False by (metis Inr_inject option.inject prod.collapse)
  next
    case (added e' a)
    then show ?thesis using hook_added_entries(1) [OF added(3) assms(2,3)] by simp
  qed
  then show ?thesis using False assms(1) x64b.hook_backend_axioms a64b.hook_backend_axioms by auto
qed

theorem already_hooked_check_witness:
  "\<exists>s'. api_run a64_backend nop_env [Hook 0x400000 0x500000] (dobby_start nop_process) = Some (Inr s')
     \<and> DobbyHook a64_backend nop_env 0x400000 0x500000 s' = Some (Inl CheckFailed)"
proof -
  obtain s' e where h: "api_run a64_backend nop_env [Hook 0x400000 0x500000] (dobby_start nop_process) = Some (Inr s')" "hooks_ok nop_env s'"
    "length (entries_of s') = 1" "first_hook s' 0x400000 = Some e" "trampoline_target (route e) = 0x500000" by (rule nop_hooked)
  have "DobbyHook a64_backend nop_env 0x400000 0x500000 s' = Some (Inl CheckFailed)"
    using already_hooked_check [OF disjI2 [OF refl] h(2) _ _ h(4), of "0x500000"] h(3,5) by (simp add: nop_env_def)
  with h(1) show ?thesis by blast
qed

section \<open>Hooks on x64\<close>

definition hooked_by :: "api_call \<Rightarrow> u64 option" where
  "hooked_by c = (case c of Hook f r \<Rightarrow> Some f | Instrument f h \<Rightarrow> Some f | _ \<Rightarrow> None)"

text \<open>What is known of the process: pages of at most \<open>2 ^ 19\<close> bytes, and regions that end in the address space.\<close>

definition near_env_ok :: "dobby_env \<Rightarrow> bool" where
  "near_env_ok env \<longleftrightarrow> (\<forall>n. (\<exists>k < 20. ne_page_size (de_near env n) = 2 ^ k) \<and> (\<forall>m. \<forall>r \<in> set (ne_layout (de_near env n) m). region_wf r))"

definition pie_address :: "u64 \<Rightarrow> bool" where
  "pie_address f \<longleftrightarrow> 0x100000000 \<le> f \<and> f < 0x7FFFFFFFFFFF"

lemma normal_x64_null:
  assumes "near_env_ok env" "pie_address f" "near_arena s = None"
  shows "normal_x64 env f r s = Some (Inl NullPointer)"
proof -
  have "\<exists>k < 20. ne_page_size (de_near env (os_calls s)) = 2 ^ k" using assms(1) unfolding near_env_ok_def by blast
  then obtain k where k: "k < 20" "ne_page_size (near_env_of env s) = 2 ^ k" by (auto simp: near_env_of_def)
  have l: "\<forall>r \<in> set (ne_layout (near_env_of env s) 0). region_wf r" using assms(1) by (simp add: near_env_ok_def near_env_of_def)
  have e: "find_page (near_page_fits f 0x80000000 8 kReadWrite) 0 (arr_initWithCapacity 1) = None"
    by (subst find_page.simps) (simp add: getNextObjectForIterator_def arr_initWithCapacity_def)
  have "near_alloc (near_env_of env s) f 0x80000000 8 kReadWrite 0 (arr_initWithCapacity 1) = Some (Inr (None, arr_initWithCapacity 1))"
    using near_alloc_2GB_fails [OF e k(2,1) _ _ l] assms(2) by (simp add: pie_address_def)
  then show ?thesis
    by (simp add: normal_x64_def GenerateNormalTrampolineBuffer_x64_def AllocIndirectStub_x64_def near_AllocateDataChunk_def near_AllocateChunk_def assms(3))
qed

lemma GenerateTrampolineBuffer_x64_null:
  assumes "near_env_ok env" "pie_address f" "near_arena s = None" "trampoline_buffer (route e) = None"
  shows "GenerateTrampolineBuffer x64_backend env f r e s = Some (Inl NullPointer)"
  using normal_x64_null [OF assms(1-3)] assms(4)
  by (simp add: GenerateTrampolineBuffer_def near_GenerateTrampolineBuffer_def x64_backend_def GenerateNearTrampolineBuffer_x64_def)

lemma no_entry: "FindHookEntry heap f 0 (arr_initWithCapacity 8) = Inr None"
  by (subst FindHookEntry.simps) (simp add: getNextObjectForIterator_def arr_initWithCapacity_def)

lemma DobbyHook_x64_null:
  assumes "near_env_ok env" "pie_address f" "near_arena s = None" "interceptor s = None"
  shows "DobbyHook x64_backend env f r s = Some (Inl NullPointer)"
  using assms GenerateTrampolineBuffer_x64_null [OF assms(1,2)]
  by (simp add: DobbyHook_def SharedInstance_def no_entry operator_new_def BuildReplaceRouting_def new_HookEntry_def new_InterceptRouting_def
      pie_address_def Let_def, auto)

lemma DobbyInstrument_x64_fails:
  assumes "near_env_ok env" "pie_address f" "near_arena s = None" "interceptor s = None"
  shows "\<exists>er. DobbyInstrument x64_backend env f h s = Some (Inl er)"
proof -
  have c: "(\<exists>er. CreateClosureTrampoline x64_backend env d hd t = Some (Inl er))
      \<or> (\<exists>c t'. CreateClosureTrampoline x64_backend env d hd t = Some (Inr (c, t')) \<and> near_arena t' = near_arena t)" for d hd t
    by (auto simp: CreateClosureTrampoline_def operator_new_def Let_def res_bind_def split: sum.splits)
  have b: "\<exists>er. BuildDynamicBinaryInstrumentRouting x64_backend env d e t = Some (Inl er)"
    if "target_address e = f" "trampoline_buffer (route e) = None" "near_arena t = None" for d e t
    using c [of d "de_dispatch env" t] GenerateTrampolineBuffer_x64_null [OF assms(1,2)] that
    by (auto simp: BuildDynamicBinaryInstrumentRouting_def)
  let ?a = "arr_initWithCapacity 8 :: u64 LiteMutableArray"
  let ?e = "new_HookEntry f (getCount ?a) kDynamicBinaryInstrument h" and ?t = "s\<lparr>interceptor := Some ?a, news := news s + 1\<rparr>"
  obtain er where "BuildDynamicBinaryInstrumentRouting x64_backend env (de_new env (news s)) ?e ?t = Some (Inl er)"
    using b [of ?e ?t "de_new env (news s)"] assms(3) by (auto simp: new_HookEntry_def new_InterceptRouting_def)
  then show ?thesis
    using assms(2,4) by (auto simp: DobbyInstrument_def SharedInstance_def no_entry operator_new_def pie_address_def Let_def)
qed

lemma switches_keep:
  assumes "hooked_by c = None" "near_arena s = None" "interceptor s = None"
  shows "\<exists>s'. api_step be env c s = Some (Inr s') \<and> near_arena s' = None \<and> interceptor s' = None"
  using assms by (cases c)
    (auto simp: hooked_by_def api_step_def dobby_enable_near_branch_trampoline_def dobby_disable_near_branch_trampoline_def
      registerPlugin_def operator_new_def Let_def)

lemma api_run_x64_fails:
  assumes "c \<in> set cs" "hooked_by c \<noteq> None" "\<forall>c \<in> set cs. \<forall>f. hooked_by c = Some f \<longrightarrow> pie_address f" "near_env_ok env"
    and "near_arena s = None" "interceptor s = None"
  shows "\<exists>er. api_run x64_backend env cs s = Some (Inl er) \<and> ((\<forall>f h. Instrument f h \<notin> set cs) \<longrightarrow> er = NullPointer)"
  using assms
proof (induction cs arbitrary: s)
  case (Cons d cs)
  show ?case
  proof (cases "hooked_by d")
    case None
    obtain s1 where s1: "api_step x64_backend env d s = Some (Inr s1)" "near_arena s1 = None" "interceptor s1 = None"
      using switches_keep [OF None Cons.prems(5,6)] by metis
    have "c \<in> set cs" using Cons.prems(1,2) None by auto
    from Cons.IH [OF this Cons.prems(2) _ Cons.prems(4) s1(2,3)] show ?thesis using Cons.prems(3) s1(1) by fastforce
  next
    case (Some f)
    then have f: "pie_address f" using Cons.prems(3) by simp
    show ?thesis
    proof (cases d)
      case (Hook g r)
      then show ?thesis using DobbyHook_x64_null [OF Cons.prems(4) f Cons.prems(5,6)] Some by (simp add: hooked_by_def api_step_def)
    next
      case (Instrument g h)
      obtain er where "DobbyInstrument x64_backend env f h s = Some (Inl er)"
        using DobbyInstrument_x64_fails [OF Cons.prems(4) f Cons.prems(5,6)] by blast
      then have "api_run x64_backend env (d # cs) s = Some (Inl er)" using Instrument Some by (simp add: hooked_by_def api_step_def)
      then show ?thesis using Instrument by auto
    qed (use Some in \<open>simp_all add: hooked_by_def\<close>)
  qed
qed simp

text \<open>
  (C31) On x64 the library hooks nothing.  From its start, every sequence of calls that hooks or instruments a function, all functions
  being at user addresses above four gigabytes as in a position independent executable, faults, whatever regions the map of the process
  lists (they end in the address space, and pages are of at most \<^verbatim>\<open>2^19\<close> bytes):
  the slot for the redirect is asked for within two gigabytes, a range that overflows the \<^verbatim>\<open>int\<close> that carries it, so none is
  found, and the generator writes through the null pointer it got.  When there is no call of
  \<^verbatim>\<open>DobbyInstrument\<close>, the fault is that null pointer.
\<close>

theorem x64_hooks_fault:
  assumes "c \<in> set cs" "hooked_by c \<noteq> None" "\<forall>c \<in> set cs. \<forall>f. hooked_by c = Some f \<longrightarrow> pie_address f" "near_env_ok env"
  shows "\<exists>er. api_run x64_backend env cs (dobby_start p) = Some (Inl er) \<and> ((\<forall>f h. Instrument f h \<notin> set cs) \<longrightarrow> er = NullPointer)"
  by (rule api_run_x64_fails [OF assms]) (simp_all add: dobby_start_def)

text \<open>A process with one region of code: the plugin for near branches is switched on and a function is hooked.\<close>

definition one_region :: near_env where
  "one_region = \<lparr>ne_arm = False, ne_alloc = (\<lambda>_ a. a),
     ne_layout = (\<lambda>_. [\<lparr>reg_address = 0x555555554000, reg_length = 0x1000, reg_permission = kReadExecute\<rparr>]),
     ne_mem = (\<lambda>_. 0), ne_page_size = 4096\<rparr>"

theorem x64_hooks_fault_witness:
  "api_run x64_backend (nop_env\<lparr>de_near := \<lambda>_. one_region\<rparr>) [Enable_near, Hook 0x555555554000 0x555555600000] (dobby_start nop_process)
     = Some (Inl NullPointer)"
proof -
  let ?env = "nop_env\<lparr>de_near := \<lambda>_. one_region\<rparr>" and ?c = "Hook 0x555555554000 0x555555600000"
  have "\<exists>k < 20. (4096 :: nat) = 2 ^ k" by (rule exI [of _ 12]) simp
  then have "near_env_ok ?env" by (simp add: near_env_ok_def one_region_def region_wf_def)
  then show ?thesis
    using x64_hooks_fault [of ?c "[Enable_near, ?c]" ?env nop_process] by (simp add: hooked_by_def pie_address_def)
qed

end
