(* ===== verification/X64_Isa.thy ===== *)
theory X64_Isa
  imports Mem64
begin

text \<open>
  Semantics of the x86-64 instructions that Dobby emits, from the architecture manual: the abstract machine
  its emitted code is judged against.  Registers are numbered as they are encoded (4 is the stack pointer).
  An instruction outside the subset has no step (\<open>None\<close>).  The flags are one word; which bits an arithmetic
  instruction sets is a parameter of no theorem here, so they are computed by \<open>arith_flags\<close> with the zero,
  sign, carry and parity bits only.
\<close>

unbundle bit_operations_syntax

record x64_state =
  GPR :: "nat \<Rightarrow> u64"
  RIP :: u64
  RFLAGS :: u64
  memx :: "u64 \<Rightarrow> u8"

definition sext32 :: "u32 \<Rightarrow> u64" where
  "sext32 w = scast w"

definition sext8 :: "u8 \<Rightarrow> u64" where
  "sext8 w = scast w"

datatype operand_loc = Reg nat | Mem u64

text \<open>
  The operand a ModRM byte at \<open>p\<close> denotes, with the number of bytes it takes.  \<open>rest\<close> is the number of bytes
  that follow it in the instruction: a RIP-relative address counts from the end of the instruction.
\<close>

definition rexb :: "u8 \<Rightarrow> nat" where "rexb rex = (if bit rex 0 then 8 else 0)"
definition rexx :: "u8 \<Rightarrow> nat" where "rexx rex = (if bit rex 1 then 8 else 0)"
definition rexr :: "u8 \<Rightarrow> nat" where "rexr rex = (if bit rex 2 then 8 else 0)"

definition x_mod :: "u8 \<Rightarrow> u8" where "x_mod m = drop_bit 6 m"
definition x_reg :: "u8 \<Rightarrow> u8" where "x_reg m = drop_bit 3 m AND 7"
definition x_rm :: "u8 \<Rightarrow> u8" where "x_rm m = m AND 7"

definition sib_address :: "u8 \<Rightarrow> u64 \<Rightarrow> x64_state \<Rightarrow> u8 \<Rightarrow> u64 \<times> nat" where
  "sib_address rex p s md =
     (let sib = memx s p;
          index = rexx rex + unat (x_reg sib);
          scaled = (if index = 4 then 0 else push_bit (unat (x_mod sib)) (GPR s index))
      in if x_rm sib = 5 \<and> md = 0 then (sext32 (ld32 (memx s) (p + 1)) + scaled, 5)
         else (GPR s (rexb rex + unat (x_rm sib)) + scaled, 1))"

definition modrm_operand :: "u8 \<Rightarrow> u64 \<Rightarrow> nat \<Rightarrow> x64_state \<Rightarrow> operand_loc \<times> nat" where
  "modrm_operand rex p rest s =
     (let m = memx s p; md = x_mod m; rm = x_rm m
      in if md = 3 then (Reg (rexb rex + unat rm), 1)
         else if md = 0 \<and> rm = 5 then (Mem (p + 5 + of_nat rest + sext32 (ld32 (memx s) (p + 1))), 5)
         else let (base, k) = (if rm = 4 then sib_address rex (p + 1) s md else (GPR s (rexb rex + unat rm), 0))
              in if md = 1 then (Mem (base + sext8 (memx s (p + 1 + of_nat k))), k + 2)
                 else if md = 2 then (Mem (base + sext32 (ld32 (memx s) (p + 1 + of_nat k))), k + 5)
                 else (Mem base, k + 1))"

definition read_loc :: "operand_loc \<Rightarrow> x64_state \<Rightarrow> u64" where
  "read_loc l s = (case l of Reg r \<Rightarrow> GPR s r | Mem a \<Rightarrow> ld64 (memx s) a)"

definition write_loc :: "operand_loc \<Rightarrow> u64 \<Rightarrow> x64_state \<Rightarrow> x64_state" where
  "write_loc l v s = (case l of Reg r \<Rightarrow> s\<lparr>GPR := (GPR s)(r := v)\<rparr> | Mem a \<Rightarrow> s\<lparr>memx := st64 a v (memx s)\<rparr>)"

definition push_val :: "u64 \<Rightarrow> x64_state \<Rightarrow> x64_state" where
  "push_val v s = s\<lparr>GPR := (GPR s)(4 := GPR s 4 - 8), memx := st64 (GPR s 4 - 8) v (memx s)\<rparr>"

definition top_of_stack :: "x64_state \<Rightarrow> u64" where
  "top_of_stack s = ld64 (memx s) (GPR s 4)"

definition drop_top :: "x64_state \<Rightarrow> x64_state" where
  "drop_top s = s\<lparr>GPR := (GPR s)(4 := GPR s 4 + 8)\<rparr>"

definition goto :: "u64 \<Rightarrow> x64_state \<Rightarrow> x64_state" where
  "goto a s = s\<lparr>RIP := a\<rparr>"

definition arith_flags :: "u64 \<Rightarrow> bool \<Rightarrow> u64 \<Rightarrow> u64" where
  "arith_flags v carry fl =
     (fl AND NOT 0xC5) OR (if v = 0 then 0x40 else 0) OR (if bit v 63 then 0x80 else 0) OR (if carry then 1 else 0)
     OR (if even (\<Sum>i<8. of_bool (bit v i) :: nat) then 4 else 0)"

text \<open>The conditions of Jcc for the flags kept here; overflow conditions have no step.\<close>

definition x64_cond :: "nat \<Rightarrow> u64 \<Rightarrow> bool option" where
  "x64_cond cc fl =
     (let cf = bit fl 0; zf = bit fl 6; sf = bit fl 7; pf = bit fl 2;
          neg = (\<lambda>b. if odd cc then \<not> b else b)
      in if cc div 2 = 1 then Some (neg cf)
         else if cc div 2 = 2 then Some (neg zf)
         else if cc div 2 = 3 then Some (neg (cf \<or> zf))
         else if cc div 2 = 4 then Some (neg sf)
         else if cc div 2 = 5 then Some (neg pf)
         else None)"

section \<open>One instruction\<close>

text \<open>\<open>x64_op rex p s\<close> executes the instruction whose opcode byte, after an optional REX prefix, is at \<open>p\<close>.\<close>

definition x64_op :: "u8 \<Rightarrow> u64 \<Rightarrow> x64_state \<Rightarrow> x64_state option" where
  "x64_op rex p s =
     (let m = memx s; b = m p; n = unat b; modrm = m (p + 1); rexw = bit rex 3 in
      if b = 0x90 then Some (goto (p + 1) s)
      else if 0x50 \<le> n \<and> n < 0x58 then Some (goto (p + 1) (push_val (GPR s (rexb rex + n - 0x50)) s))
      else if 0x58 \<le> n \<and> n < 0x60 then
        Some (goto (p + 1) (write_loc (Reg (rexb rex + n - 0x58)) (top_of_stack s) (drop_top s)))
      else if b = 0x9C then Some (goto (p + 1) (push_val (RFLAGS s) s))
      else if b = 0x9D then Some (goto (p + 1) ((drop_top s)\<lparr>RFLAGS := top_of_stack s\<rparr>))
      else if b = 0xC3 then Some (goto (top_of_stack s) (drop_top s))
      else if b = 0xE8 then Some (goto (p + 5 + sext32 (ld32 m (p + 1))) (push_val (p + 5) s))
      else if b = 0xE9 then Some (goto (p + 5 + sext32 (ld32 m (p + 1))) s)
      else if b = 0xEB then Some (goto (p + 2 + sext8 (m (p + 1))) s)
      else if 0x70 \<le> n \<and> n < 0x80 then
        map_option (\<lambda>c. goto (if c then p + 2 + sext8 (m (p + 1)) else p + 2) s) (x64_cond (n - 0x70) (RFLAGS s))
      else if b = 0x0F \<and> 0x80 \<le> unat modrm \<and> unat modrm < 0x90 then
        map_option (\<lambda>c. goto (if c then p + 6 + sext32 (ld32 m (p + 2)) else p + 6) s) (x64_cond (unat modrm - 0x80) (RFLAGS s))
      else if b = 0x89 \<and> rexw then
        (let (l, k) = modrm_operand rex (p + 1) 0 s
         in Some (goto (p + 1 + of_nat k) (write_loc l (GPR s (rexr rex + unat (x_reg modrm))) s)))
      else if b = 0x8B \<and> rexw then
        (let (l, k) = modrm_operand rex (p + 1) 0 s
         in Some (goto (p + 1 + of_nat k) (write_loc (Reg (rexr rex + unat (x_reg modrm))) (read_loc l s) s)))
      else if b = 0x81 \<and> rexw \<and> x_reg modrm \<in> {0, 5} then
        (let (l, k) = modrm_operand rex (p + 1) 4 s;
             x = read_loc l s;
             i = sext32 (ld32 m (p + 1 + of_nat k));
             v = (if x_reg modrm = 0 then x + i else x - i);
             c = (if x_reg modrm = 0 then x + i < x else x < i)
         in Some (goto (p + 5 + of_nat k) ((write_loc l v s)\<lparr>RFLAGS := arith_flags v c (RFLAGS s)\<rparr>)))
      else if b = 0x83 \<and> rexw \<and> x_reg modrm \<in> {4, 7} then
        (let (l, k) = modrm_operand rex (p + 1) 1 s;
             x = read_loc l s;
             i = sext8 (m (p + 1 + of_nat k))
         in Some (goto (p + 2 + of_nat k)
              (if x_reg modrm = 4 then (write_loc l (x AND i) s)\<lparr>RFLAGS := arith_flags (x AND i) False (RFLAGS s)\<rparr>
               else s\<lparr>RFLAGS := arith_flags (x - i) (x < i) (RFLAGS s)\<rparr>)))
      else if b = 0xFF \<and> x_reg modrm \<in> {2, 4, 6} then
        (let (l, k) = modrm_operand rex (p + 1) 0 s;
             ret = p + 1 + of_nat k;
             v = read_loc l s
         in Some (if x_reg modrm = 2 then goto v (push_val ret s)
                  else if x_reg modrm = 4 then goto v s
                  else goto ret (push_val v s)))
      else None)"

definition x64_step :: "x64_state \<Rightarrow> x64_state option" where
  "x64_step s =
     (let b = memx s (RIP s)
      in if 0x40 \<le> unat b \<and> unat b < 0x50 then x64_op b (RIP s + 1) s else x64_op 0 (RIP s) s)"

primrec x64_run :: "nat \<Rightarrow> x64_state \<Rightarrow> x64_state option" where
  "x64_run 0 s = Some s"
| "x64_run (Suc n) s = (case x64_step s of None \<Rightarrow> None | Some s' \<Rightarrow> x64_run n s')"

lemma goto_simps [simp]:
  "RIP (goto a s) = a" "GPR (goto a s) = GPR s" "memx (goto a s) = memx s" "RFLAGS (goto a s) = RFLAGS s"
  by (simp_all add: goto_def)

lemma push_val_simps [simp]:
  "GPR (push_val v s) 4 = GPR s 4 - 8" "r \<noteq> 4 \<Longrightarrow> GPR (push_val v s) r = GPR s r" "RIP (push_val v s) = RIP s"
  "memx (push_val v s) = st64 (GPR s 4 - 8) v (memx s)" "top_of_stack (push_val v s) = v" "RFLAGS (push_val v s) = RFLAGS s"
  by (simp_all add: push_val_def top_of_stack_def)

lemma drop_top_simps [simp]:
  "GPR (drop_top s) 4 = GPR s 4 + 8" "r \<noteq> 4 \<Longrightarrow> GPR (drop_top s) r = GPR s r" "RIP (drop_top s) = RIP s"
  "memx (drop_top s) = memx s" "RFLAGS (drop_top s) = RFLAGS s"
  by (simp_all add: drop_top_def)

section \<open>The steps of code in memory\<close>

lemma code_at_le4: "code_at m a (le_bytes 4 (w :: u32) @ bs) \<Longrightarrow> ld32 m a = w"
  by (simp add: code_at_append code_at_word)

lemma step_nop: "code_at (memx s) (RIP s) [0x90] \<Longrightarrow> x64_step s = Some (goto (RIP s + 1) s)"
  by (simp add: code_at_Cons x64_step_def x64_op_def)

lemma step_call_rel32:
  "code_at (memx s) (RIP s) (0xE8 # le_bytes 4 w) \<Longrightarrow>
   x64_step s = Some (goto (RIP s + 5 + sext32 w) (push_val (RIP s + 5) s))"
  using code_at_word [of "memx s" "RIP s + 1" w] by (simp add: code_at_Cons x64_step_def x64_op_def Let_def)

lemma step_jmp_rel32:
  "code_at (memx s) (RIP s) (0xE9 # le_bytes 4 w) \<Longrightarrow> x64_step s = Some (goto (RIP s + 5 + sext32 w) s)"
  using code_at_word [of "memx s" "RIP s + 1" w] by (simp add: code_at_Cons x64_step_def x64_op_def Let_def)

lemma step_jmp_rip:
  "code_at (memx s) (RIP s) (0xFF # 0x25 # le_bytes 4 w) \<Longrightarrow>
   x64_step s = Some (goto (ld64 (memx s) (RIP s + 6 + sext32 w)) s)"
  using code_at_word [of "memx s" "RIP s + 2" w]
  by (simp add: code_at_Cons x64_step_def x64_op_def Let_def modrm_operand_def x_mod_def x_reg_def x_rm_def read_loc_def add.assoc)

lemma step_push_rip:
  "code_at (memx s) (RIP s) (0xFF # 0x35 # le_bytes 4 w) \<Longrightarrow>
   x64_step s = Some (goto (RIP s + 6) (push_val (ld64 (memx s) (RIP s + 6 + sext32 w)) s))"
  using code_at_word [of "memx s" "RIP s + 2" w]
  by (simp add: code_at_Cons x64_step_def x64_op_def Let_def modrm_operand_def x_mod_def x_reg_def x_rm_def read_loc_def add.assoc)

end
