(* ===== verification/Trampoline_X64.thy ===== *)
theory Trampoline_X64
  imports Relocate_X64 X64_Isa
begin

text \<open>
  What the code emitted for x64 does when it runs: the indirect jumps, the closure trampoline, calls of
  external functions through the literal pool, and relocated calls and jumps.
\<close>

unbundle bit_operations_syntax

section \<open>Emission\<close>

lemma emits_x64:
  "Emit1_x64 v a = emit_code [v] a" "Emit_x64 w a = emit_code (le_bytes 4 w) a" "EmitInt64_x64 d a = emit_code (le_bytes 8 d) a"
  "EmitBuffer_x64 bs a = emit_code bs a"
  by (simp_all add: Emit1_x64_def Emit_x64_def EmitInt64_x64_def EmitBuffer_x64_def emit_code_def Emit_eq_EmitBuffer)

lemma new_TurboAssembler_x64_ok [simp]:
  "asm_ok (new_TurboAssembler_x64 junk ad)" "emitted (new_TurboAssembler_x64 junk ad) = []"
  "pc_offset (new_TurboAssembler_x64 junk ad) = 0" "realized_address (new_TurboAssembler_x64 junk ad) = ad"
  using initWithCapacity_ok [of junk 32]
  by (auto simp: new_TurboAssembler_x64_def asm_ok_def emitted_def pc_offset_def getSize_def initWithCapacity_def)

text \<open>Several emissions in a row append.\<close>

lemma emit_code_emit_code:
  assumes "asm_ok a" "pc_offset a + length xs + length ys < 2 ^ 30"
  shows "asm_ok (emit_code ys (emit_code xs a))" "emitted (emit_code ys (emit_code xs a)) = emitted a @ xs @ ys"
    "pc_offset (emit_code ys (emit_code xs a)) = pc_offset a + length xs + length ys"
  using assms by (simp_all add: c_wf)

section \<open>Displacements\<close>

text \<open>A distance that fits into a signed 32-bit displacement.\<close>

definition near32 :: "u64 \<Rightarrow> bool" where
  "near32 d \<longleftrightarrow> - (2 ^ 31) \<le> sint d \<and> sint d < 2 ^ 31"

lemma near32_sext: "near32 d \<Longrightarrow> sext32 (ucast d) = d"
proof -
  assume n: "near32 d"
  have "d = of_int (sint d)" by (simp add: of_int_sint scast_id)
  moreover have "ucast (of_int k :: u64) = (of_int k :: u32)" for k
    by (rule bit_word_eqI) (auto simp: bit_ucast_iff bit_word_of_int_iff)
  ultimately have "(ucast d :: u32) = of_int (sint d)" by metis
  then have "sint (ucast d :: u32) = signed_take_bit 31 (sint d)"
    by (simp only: signed_of_int) simp
  also have "\<dots> = sint d" using n by (intro signed_take_bit_int_eq_self) (simp_all add: near32_def)
  finally have "scast (ucast d :: u32) = (of_int (sint d) :: u64)" by (simp only: scast_eq)
  then show ?thesis by (simp add: sext32_def of_int_sint scast_id)
qed

section \<open>Indirect jumps\<close>

lemma JmpNearIndirect_x64_emits:
  assumes "asm_ok a" "pc_offset a < 2 ^ 29"
  shows "asm_ok (JmpNearIndirect_x64 ad a)" "pc_offset (JmpNearIndirect_x64 ad a) = pc_offset a + 6"
    "emitted (JmpNearIndirect_x64 ad a) = emitted a @ [0xFF, 0x25] @
       le_bytes 4 (ucast (ad - (of_nat (pc_offset a) + realized_address a + 6)) :: u32)"
    "realized_address (JmpNearIndirect_x64 ad a) = realized_address a"
  using assms by (simp_all add: JmpNearIndirect_x64_def Let_def CurrentIP_x64_def emits_x64 c_wf)

text \<open>An indirect jump whose slot is near goes where the slot points.\<close>

lemma jmp_near_indirect_step:
  assumes "code_at (memx s) (RIP s) ([0xFF, 0x25] @ le_bytes 4 (ucast (slot - (RIP s + 6)) :: u32))" "near32 (slot - (RIP s + 6))"
  shows "x64_step s = Some (goto (ld64 (memx s) slot) s)"
  using step_jmp_rip [of s "ucast (slot - (RIP s + 6))"] assms near32_sext [of "slot - (RIP s + 6)"] by simp

text \<open>
  The code that ends a relocated prologue continues at the given address of the original function, from
  wherever it stands in its chunk, without changing a register, the flags or memory.
\<close>

theorem jump_back_x64_continues:
  assumes "asm_ok a" "pc_offset a < 2 ^ 29" "realized_address a = start"
    and "code_at (memx s) start (emitted (relo_jump_back_x64 start orig_ip a))" "RIP s = start + of_nat (pc_offset a)"
  shows "x64_run 1 s = Some (goto orig_ip s)"
proof -
  let ?slot = "start + of_nat (pc_offset a) + 6"
  have e: "emitted (relo_jump_back_x64 start orig_ip a) =
      emitted a @ ([0xFF, 0x25] @ le_bytes 4 (ucast (?slot - (RIP s + 6)) :: u32)) @ le_bytes 8 orig_ip"
    using JmpNearIndirect_x64_emits [of a ?slot] assms(1,2,3,5)
    by (simp add: relo_jump_back_x64_def emits_x64 c_wf ip_offset_pc_offset add.commute add.left_commute)
  have c: "code_at (memx s) (RIP s) ([0xFF, 0x25] @ le_bytes 4 (ucast (?slot - (RIP s + 6)) :: u32))"
    "code_at (memx s) (RIP s + 6) (le_bytes 8 orig_ip)"
    using assms(4) unfolding e by (simp_all add: code_at_append code_at_Cons assms(1,5) add.assoc)
  have "x64_step s = Some (goto (ld64 (memx s) ?slot) s)"
    by (rule jmp_near_indirect_step [OF c(1)]) (simp add: near32_def assms(5))
  moreover have "ld64 (memx s) ?slot = orig_ip" using c(2) assms(5) by (simp add: code_at_dword)
  ultimately show ?thesis by simp
qed

lemma far_offset: "8 \<le> n \<Longrightarrow> n + i < 2 ^ 64 \<Longrightarrow> 8 \<le> unat (of_nat n + of_nat i :: u64)"
  unfolding of_nat_add [symmetric] unsigned_of_nat by (simp add: take_bit_nat_eq_self)

text \<open>A machine about to run given code.\<close>

definition x64_at :: "u64 \<Rightarrow> u64 \<Rightarrow> u8 list \<Rightarrow> x64_state" where
  "x64_at base ip bs = \<lparr>GPR = (\<lambda>_. 0x800), RIP = ip, RFLAGS = 0, memx = mem_of base bs\<rparr>"

theorem jump_back_x64_continues_witness:
  "let a = CommitRealizeAddress 0x1000 (new_TurboAssembler_x64 (\<lambda>_. 0) 0);
       s = x64_at 0x1000 0x1000 (emitted (relo_jump_back_x64 0x1000 0x555500000008 a))
   in x64_run 1 s = Some (goto 0x555500000008 s)"
proof -
  let ?a = "CommitRealizeAddress 0x1000 (new_TurboAssembler_x64 (\<lambda>_. 0) 0)"
  let ?bs = "emitted (relo_jump_back_x64 0x1000 0x555500000008 ?a)"
  have "length ?bs < 2 ^ 64"
    using JmpNearIndirect_x64_emits [of ?a] by (simp add: relo_jump_back_x64_def emits_x64 c_wf)
  then have "code_at (memx (x64_at 0x1000 0x1000 ?bs)) 0x1000 ?bs"
    by (simp add: x64_at_def code_at_mem_of)
  then show ?thesis
    using jump_back_x64_continues [of ?a "0x1000" "x64_at 0x1000 0x1000 ?bs" "0x555500000008"]
    by (simp add: x64_at_def Let_def)
qed

section \<open>The redirect of a hooked function\<close>

definition sample_env :: near_env where
  "sample_env = \<lparr>ne_arm = False, ne_alloc = (\<lambda>_ a. a),
     ne_layout = (\<lambda>_. [\<lparr>reg_address = 0x555555554000, reg_length = 0x1000, reg_permission = kReadExecute\<rparr>]),
     ne_mem = (\<lambda>_. 0), ne_page_size = 4096\<rparr>"

text \<open>
  On x64 the generator of the redirect always follows a null pointer unless a page with room was
  obtained before: the range of two gigabytes it asks for overflows the \<^verbatim>\<open>int\<close> that carries it, and no
  memory lies between the bounds of the search.
\<close>

theorem normal_trampoline_x64_null:
  assumes "find_page (near_page_fits src 0x80000000 8 kReadWrite) 0 pages = None"
    and "ne_page_size env = 2 ^ k" "k < 20" "0x100000000 \<le> src" "src < 0x7FFFFFFFFFFF" "\<forall>r \<in> set (ne_layout env 0). region_wf r"
  shows "GenerateNormalTrampolineBuffer_x64 junk env src dst (Some pages) e = Some (Inl NullPointer)"
proof -
  have "near_alloc env src 0x80000000 8 kReadWrite 0 pages = Some (Inr (None, pages))"
    by (rule near_alloc_2GB_fails [OF assms])
  then show ?thesis
    by (simp add: GenerateNormalTrampolineBuffer_x64_def AllocIndirectStub_x64_def near_AllocateDataChunk_def near_AllocateChunk_def)
qed

theorem normal_trampoline_x64_null_witness:
  "GenerateNormalTrampolineBuffer_x64 (\<lambda>_. 0) sample_env 0x555555554000 0x7FFF00001234 (Some (arr_initWithCapacity 1))
     \<lparr>e_mem = (\<lambda>_. 0), e_writable = (\<lambda>_. True)\<rparr> = Some (Inl NullPointer)"
proof -
  have "find_page (near_page_fits 0x555555554000 0x80000000 8 kReadWrite) 0 (arr_initWithCapacity 1) = None"
    by (subst find_page.simps) (simp add: getNextObjectForIterator_def arr_initWithCapacity_def)
  then show ?thesis
    using normal_trampoline_x64_null [of "0x555555554000" "arr_initWithCapacity 1" sample_env 12]
    by (simp add: sample_env_def region_wf_def)
qed

end
