(* ===== verification/Call_X64.thy ===== *)
theory Call_X64
  imports Trampoline_X64
begin

text \<open>
  Further x64 code at run time: the closure trampoline, the call of an external function through the
  literal pool, and relocated calls, jumps and conditional jumps.
\<close>

unbundle bit_operations_syntax

section \<open>The closure trampoline\<close>

lemma closure_trampoline_x64_bytes:
  "emitted (closure_trampoline_code_x64 junk closure bridge) =
     ([0xFF, 0x35] @ le_bytes 4 (6 :: u32)) @ ([0xFF, 0x25] @ le_bytes 4 (8 :: u32)) @ le_bytes 8 closure @ le_bytes 8 bridge"
proof -
  have "le_bytes 4 (6 :: u32) = [6, 0, 0, 0]" "le_bytes 4 (8 :: u32) = [8, 0, 0, 0]" by code_simp+
  then show ?thesis by (simp add: closure_trampoline_code_x64_def emits_x64 c_wf)
qed

text \<open>
  (C34) Execution that enters a closure trampoline arrives at the bridge with the entry of the closure on
  top of the stack; no other register and no other memory changes.
\<close>

theorem closure_trampoline_x64_enters:
  assumes "code_at (memx s) (RIP s) (emitted (closure_trampoline_code_x64 junk closure bridge))"
    and "\<forall>i < 28. 8 \<le> unat (RIP s + of_nat i - (GPR s 4 - 8))"
  shows "x64_run 2 s = Some (goto bridge (push_val closure s)) \<and> top_of_stack (push_val closure s) = closure"
proof -
  have c: "code_at (memx s) (RIP s) ([0xFF, 0x35] @ le_bytes 4 (6 :: u32))"
      "code_at (memx s) (RIP s + 6) ([0xFF, 0x25] @ le_bytes 4 (8 :: u32) @ le_bytes 8 closure @ le_bytes 8 bridge)"
      "code_at (memx s) (RIP s + 12) (le_bytes 8 closure)" "code_at (memx s) (RIP s + 20) (le_bytes 8 bridge)"
    using assms(1) unfolding closure_trampoline_x64_bytes
    by (simp_all add: code_at_append code_at_Cons add.assoc)
  have six: "sext32 6 = 6" "sext32 8 = 8" by (simp_all add: sext32_def)
  let ?s1 = "goto (RIP s + 6) (push_val closure s)"
  have 1: "x64_step s = Some ?s1"
    using step_push_rip [of s 6] c(1,3) by (simp add: six code_at_dword add.assoc)
  have "code_at (memx ?s1) (RIP s + 6) ([0xFF, 0x25] @ le_bytes 4 (8 :: u32) @ le_bytes 8 closure @ le_bytes 8 bridge)"
  proof -
    have "8 \<le> unat (RIP s + 6 + of_nat i - (GPR s 4 - 8))" if "i < 22" for i
      using assms(2) [rule_format, of "i + 6"] that by (simp add: add_ac)
    then show ?thesis using code_at_st64 [OF c(2), of "GPR s 4 - 8" closure] by simp
  qed
  then have c': "code_at (memx ?s1) (RIP ?s1) (0xFF # 0x25 # le_bytes 4 (8 :: u32))" "code_at (memx ?s1) (RIP s + 20) (le_bytes 8 bridge)"
    by (simp_all add: code_at_append code_at_Cons add.assoc)
  have "x64_step ?s1 = Some (goto bridge ?s1)"
    using step_jmp_rip [OF c'(1)] code_at_dword [OF c'(2)] by (simp add: six add.assoc)
  with 1 show ?thesis by (simp add: numeral_2_eq_2 goto_def push_val_def top_of_stack_def)
qed

theorem closure_trampoline_x64_enters_witness:
  "let s = x64_at 0x1000 0x1000 (emitted (closure_trampoline_code_x64 (\<lambda>_. 0) 0x5678 0x9ABC))
   in x64_run 2 s = Some (goto 0x9ABC (push_val 0x5678 s)) \<and> top_of_stack (push_val 0x5678 s) = 0x5678"
proof -
  let ?bs = "emitted (closure_trampoline_code_x64 (\<lambda>_. 0) 0x5678 0x9ABC)"
  let ?s = "x64_at 0x1000 0x1000 ?bs"
  have "length ?bs < 2 ^ 64" by (simp add: closure_trampoline_x64_bytes)
  then have c: "code_at (memx ?s) (RIP ?s) ?bs" by (simp add: x64_at_def code_at_mem_of)
  have far: "8 \<le> unat (RIP ?s + of_nat i - (GPR ?s 4 - 8))" if "i < 28" for i
    using far_offset [of "0x808" i] that by (simp add: x64_at_def)
  show ?thesis unfolding Let_def by (rule closure_trampoline_x64_enters [OF c]) (use far in blast)
qed

section \<open>Relocated calls and jumps\<close>

text \<open>The bytes emitted for an instruction, in front of what comes later.\<close>

lemma relo_rel32_bytes:
  assumes "asm_ok a" "pc_offset a < 2 ^ 29"
  shows "emitted (relo_rel32_x64 i orig_ip relo_ip a) =
    emitted a @ (opcode1 (instr i) # le_bytes 4 (ucast (orig_ip + scast (le_word (Immediate (instr i)) :: u32) - relo_ip) :: u32))"
  using assms by (simp add: relo_rel32_x64_def Let_def emits_x64 c_wf)

text \<open>
  (C33) A \<^verbatim>\<open>call\<close> or \<^verbatim>\<open>jmp\<close> with a 32-bit displacement reaches the same target from its relocated place as from its own, with the return address
  behind it, when the distance from that place to the target fits 32 bits (signed).  The buffer of the assembler holds less than \<^verbatim>\<open>2^29\<close> bytes.
\<close>

theorem relocated_rel32_reaches:
  assumes "opcode1 (instr i) \<in> {0xE8, 0xE9}" "Immediate (instr i) = le_bytes 4 w"
    and "near32 (RIP s + sext32 w - relo_ip)" "asm_ok a" "pc_offset a < 2 ^ 29"
    and "code_at (memx s) (RIP s) (opcode1 (instr i) # le_bytes 4 w)"
    and "code_at (memx s') relo_ip (drop (length (emitted a)) (emitted (relo_rel32_x64 i (RIP s) relo_ip a)))" "RIP s' = relo_ip"
  shows "\<exists>t t'. x64_step s = Some t \<and> x64_step s' = Some t' \<and> RIP t' = RIP t
    \<and> (opcode1 (instr i) = 0xE8 \<longrightarrow> top_of_stack t = RIP s + 5 \<and> top_of_stack t' = relo_ip + 5)"
proof -
  let ?d = "RIP s + sext32 w - relo_ip"
  have "le_word (le_bytes 4 w) = w" by simp
  then have c: "code_at (memx s') (RIP s') (opcode1 (instr i) # le_bytes 4 (ucast ?d :: u32))"
    using assms(7,8) by (simp add: relo_rel32_bytes [OF assms(4,5)] assms(2) sext32_def)
  have d: "sext32 (ucast ?d) = ?d" by (rule near32_sext [OF assms(3)])
  from assms(1) show ?thesis
  proof
    assume o: "opcode1 (instr i) = 0xE8"
    show ?thesis using step_call_rel32 [of s w] step_call_rel32 [of s' "ucast ?d"] assms(6,8) c o by (simp add: d goto_def top_of_stack_def)
  next
    assume "opcode1 (instr i) \<in> {0xE9}"
    then have o: "opcode1 (instr i) = 0xE9" by simp
    show ?thesis using step_jmp_rel32 [of s w] step_jmp_rel32 [of s' "ucast ?d"] assms(6,8) c o by (simp add: d)
  qed
qed

theorem relocated_rel32_reaches_witness:
  "let a = new_TurboAssembler_x64 (\<lambda>_. 0) 0;
       i = zero_instr\<lparr>instr := (instr zero_instr)\<lparr>opcode1 := 0xE8, Immediate := le_bytes 4 (0x100 :: u32)\<rparr>\<rparr>;
       s = x64_at 0x1000 0x1000 (0xE8 # le_bytes 4 (0x100 :: u32));
       s' = x64_at 0x40000 0x40000 (emitted (relo_rel32_x64 i 0x1000 0x40000 a))
   in \<exists>t t'. x64_step s = Some t \<and> x64_step s' = Some t' \<and> RIP t' = RIP t"
proof -
  let ?a = "new_TurboAssembler_x64 (\<lambda>_. 0) 0"
  let ?i = "zero_instr\<lparr>instr := (instr zero_instr)\<lparr>opcode1 := 0xE8, Immediate := le_bytes 4 (0x100 :: u32)\<rparr>\<rparr>"
  let ?s = "x64_at 0x1000 0x1000 (0xE8 # le_bytes 4 (0x100 :: u32))"
  let ?bs = "emitted (relo_rel32_x64 ?i 0x1000 0x40000 ?a)"
  let ?s' = "x64_at 0x40000 0x40000 ?bs"
  have "length ?bs < 2 ^ 64" by (simp add: relo_rel32_bytes)
  then have c': "code_at (memx ?s') 0x40000 ?bs" by (simp add: x64_at_def code_at_mem_of)
  have c: "code_at (memx ?s) (RIP ?s) (0xE8 # le_bytes 4 (0x100 :: u32))"
    using code_at_mem_of [of "0xE8 # le_bytes 4 (0x100 :: u32)" "0x1000"] by (simp add: x64_at_def)
  have n: "near32 (RIP ?s + sext32 0x100 - 0x40000)"
    by (simp add: near32_def x64_at_def sext32_def signed_take_bit_int_eq_self)
  have r: "RIP ?s = 0x1000" "RIP ?s' = 0x40000" by (simp_all add: x64_at_def)
  show ?thesis
    using relocated_rel32_reaches [of ?i "0x100" ?s "0x40000" ?a ?s'] n c c' r by (simp add: Let_def) blast
qed

text \<open>
  A conditional jump with an 8-bit displacement is not relocated to a conditional jump: the opcode of
  the short form is put behind the escape byte, and \<^verbatim>\<open>0F 70\<close> to \<^verbatim>\<open>0F 7F\<close> are no jumps; the long forms are
  \<^verbatim>\<open>0F 80\<close> to \<^verbatim>\<open>0F 8F\<close>.
\<close>

theorem relocated_jcc_is_no_jump:
  assumes "0x70 \<le> opc" "opc \<le> 0x7F" "opcode1 (instr i) = opc" "mem p = opc" "asm_ok a" "pc_offset a < 2 ^ 29"
  shows "\<exists>a' w. relo_one_x64 mem p i orig_ip relo_ip a = Inr a' \<and> emitted a' = emitted a @ [0x0F, opc] @ le_bytes 4 (w :: u32)
    \<and> (\<forall>s. code_at (memx s) (RIP s) ([0x0F, opc] @ le_bytes 4 w) \<longrightarrow> x64_step s = None)"
proof -
  let ?a' = "relo_jcc_x64 opc i orig_ip relo_ip a"
  let ?w = "ucast (orig_ip + ucast (Immediate (instr i) ! 0) - relo_ip) :: u32"
  have "emitted ?a' = emitted a @ [0x0F, opc] @ le_bytes 4 ?w"
    using assms(5,6) by (simp add: relo_jcc_x64_def Let_def emits_x64 c_wf)
  moreover have "relo_one_x64 mem p i orig_ip relo_ip a = Inr ?a'"
    using assms(1-4) by (simp add: relo_one_x64_def)
  moreover have "unat opc < 0x80" using assms(2) by (simp add: word_le_nat_alt)
  then have "x64_step s = None" if "code_at (memx s) (RIP s) ([0x0F, opc] @ le_bytes 4 ?w)" for s
    using that by (simp add: code_at_Cons x64_step_def x64_op_def Let_def)
  ultimately show ?thesis by blast
qed

theorem relocated_jcc_is_no_jump_witness:
  "\<exists>a' w. relo_one_x64 (\<lambda>_. 0x74) 0 (zero_instr\<lparr>instr := (instr zero_instr)\<lparr>opcode1 := 0x74\<rparr>\<rparr>) 0x1000 0x2000
       (new_TurboAssembler_x64 (\<lambda>_. 0) 0) = Inr a' \<and> emitted a' = [0x0F, 0x74] @ le_bytes 4 (w :: u32)"
  using relocated_jcc_is_no_jump [of "0x74" "zero_instr\<lparr>instr := (instr zero_instr)\<lparr>opcode1 := 0x74\<rparr>\<rparr>" "\<lambda>_. 0x74" 0
      "new_TurboAssembler_x64 (\<lambda>_. 0) 0" "0x1000" "0x2000"] by auto

section \<open>Calls of external functions\<close>

lemma low_bits_r11 [simp]: "low_bits_x64 r11 = 3" "code_x64 r11 = 11" "size_x64 r11 = 64"
  by (simp_all add: low_bits_x64_def r11_def Create_x64_def)

lemma address_r11:
  "Address_x64 r11 0x7FFFFFFF = \<lparr>length_x64 = 5, rex_x64 = 1, encoding_x64 = [0x83, 0xFF, 0xFF, 0xFF, 0x7F, 0]\<rparr>"
  by code_simp

lemma call_r11_emits:
  "emit_code [0xFF, 0xFF, 0xFF, 0x7F] (emit_code [0x93] (emit_code [0xFF] (emit_code [0x41] a))) = call_mem_x64 (Address_x64 r11 0x7FFFFFFF) a"
proof -
  have "asm_ModRM_Mod 0x83 = 2" "asm_ModRM_RM 0x83 = 3" "(push_bit 6 2 OR push_bit 3 2 OR 3 :: u8) = 0x93" by code_simp+
  then show ?thesis
    by (simp add: call_mem_x64_def address_r11 EmitREX_Operand_def Emit_OpEn_Operand_x64_def EmitOpcode_x64_def tail_x64_def
        EmitModRM_Update_ExtraOpcode_x64_def modrm_x64_def encoding_at_x64_def EmitModRM_x64_def emits_x64)
qed

lemma pop_r11_emits: "pop_x64 r11 a = emit_code [0x5B] (emit_code [0x4D] a)"
proof -
  have "(0x58 OR 3 :: u8) = 0x5B" "EmitOptionalRex False True True False True = 0x4D" by code_simp+
  then show ?thesis
    by (simp add: pop_x64_def EmitREX_ExtraRegister_def EmitOpcode_Register_x64_def EmitOpcode_x64_def emits_x64)
qed

definition call_code :: "u32 \<Rightarrow> u8 list" where
  "call_code disp = [0x90, 0xE8, 0, 0, 0, 0, 0x4D, 0x5B, 0x41, 0xFF, 0x93] @ le_bytes 4 disp @ [0x90]"

lemma length_call_code [simp]: "length (call_code d) = 16"
  by (simp add: call_code_def)

lemma labels_emit_code [simp]:
  "data_labels_x64 (emit_code bs a) = data_labels_x64 a" "emit_code bs (a\<lparr>data_labels_x64 := l\<rparr>) = (emit_code bs a)\<lparr>data_labels_x64 := l\<rparr>"
  "asm_ok (a\<lparr>data_labels_x64 := l\<rparr>) = asm_ok a" "emitted (a\<lparr>data_labels_x64 := l\<rparr>) = emitted a"
  "pc_offset (a\<lparr>data_labels_x64 := l\<rparr>) = pc_offset a"
  by (simp_all add: emit_code_def asm_ok_def emitted_def pc_offset_def)

text \<open>The label entries an assembler has, none at first.\<close>

definition label_entries :: "TurboAssembler_x64 \<Rightarrow> RelocLabelEntry_x64 LiteMutableArray" where
  "label_entries a = (case data_labels_x64 a of None \<Rightarrow> arr_initWithCapacity 8 | Some labels \<Rightarrow> labels)"

lemma CallFunction_x64_appends:
  assumes "asm_ok a" "pc_offset a < 2 ^ 29" "arr_ok (label_entries a)" "getCount (label_entries a) < 2 ^ 29"
  shows "\<exists>a' labels. CallFunction_x64 f a = Inr a' \<and> asm_ok a' \<and> emitted a' = emitted a @ call_code 0x7FFFFFFF
    \<and> pc_offset a' = pc_offset a + 16 \<and> data_labels_x64 a' = Some labels \<and> arr_ok labels
    \<and> objects labels = objects (label_entries a) @ [pl_link_to_x64 (pc_offset a + 15) kDisp32_off_9 (new_RelocLabelEntry_x64 f)]"
proof -
  let ?l = "pl_link_to_x64 (pc_offset a + 15) kDisp32_off_9 (new_RelocLabelEntry_x64 f)"
  obtain labels where l: "pushObject ?l (label_entries a) = (True, labels)" "arr_ok labels" "objects labels = objects (label_entries a) @ [?l]"
    using pushObject_props [OF assms(3,4), of ?l] by auto
  have z: "le_bytes 4 (0 :: u32) = [0, 0, 0, 0]" "le_bytes 4 (0x7FFFFFFF :: u32) = [0xFF, 0xFF, 0xFF, 0x7F]" by code_simp+
  define a1 where "a1 = emit_code [0x5B] (emit_code [0x4D] (emit_code (le_bytes 4 (0 :: u32)) (emit_code [0xE8] (emit_code [0x90] a))))"
  define a2 where "a2 = call_mem_x64 (Address_x64 r11 0x7FFFFFFF) a1"
  have 1: "asm_ok a1" "pc_offset a1 = pc_offset a + 8" "emitted a1 = emitted a @ [0x90, 0xE8, 0, 0, 0, 0, 0x4D, 0x5B]"
      "data_labels_x64 a1 = data_labels_x64 a"
    using assms(1,2) by (simp_all add: a1_def c_wf z)
  have 2: "asm_ok a2" "pc_offset a2 = pc_offset a + 15" "emitted a2 = emitted a1 @ [0x41, 0xFF, 0x93, 0xFF, 0xFF, 0xFF, 0x7F]"
      "data_labels_x64 a2 = data_labels_x64 a"
    unfolding a2_def call_r11_emits [symmetric] using 1 assms(2) by (simp_all add: c_wf)
  have "CallFunction_x64 f a = Inr ((emit_code [0x90] a2)\<lparr>data_labels_x64 := Some labels\<rparr>)"
    using l(1) 2(2,4) a2_def
    by (simp add: CallFunction_x64_def VOLATILE_REGISTER_x64_def MovRipToRegister_x64_def call_imm_x64_def EmitImmediate_x64_def
        Immediate_sized_x64_def pop_r11_emits nop_x64_def EmitOpcode_x64_def emits_x64 a1_def [symmetric] Let_def ip_offset_pc_offset
        AppendRelocLabelEntry_x64_def label_entries_def)
  moreover have "asm_ok (emit_code [0x90] a2)" "pc_offset (emit_code [0x90] a2) = pc_offset a + 16"
      "emitted (emit_code [0x90] a2) = emitted a @ call_code 0x7FFFFFFF"
    using 2 1(3) assms(2) by (simp_all add: c_wf call_code_def z)
  ultimately show ?thesis using l(2,3) by (auto simp del: emit_code_more)
qed

lemma CallFunction_x64_emits:
  assumes "asm_ok a" "pc_offset a < 2 ^ 29" "data_labels_x64 a = None"
  shows "\<exists>a' labels. CallFunction_x64 f a = Inr a' \<and> asm_ok a' \<and> emitted a' = emitted a @ call_code 0x7FFFFFFF
    \<and> pc_offset a' = pc_offset a + 16 \<and> data_labels_x64 a' = Some labels \<and> arr_ok labels
    \<and> objects labels = [pl_link_to_x64 (pc_offset a + 15) kDisp32_off_9 (new_RelocLabelEntry_x64 f)]"
  using CallFunction_x64_appends [OF assms(1,2), of f] by (simp add: label_entries_def assms(3))

lemma link_one_x64:
  assumes "asm_ok a" "4 \<le> n" "n \<le> pc_offset a"
  shows "\<exists>label a'. PseudoBind_x64 (pl_link_to_x64 n kDisp32_off_9 (new_RelocLabelEntry_x64 f)) a = Inr (label, a')
    \<and> reloc_data_x64 label = f \<and> asm_ok a' \<and> emitted a' = poke (n - 4) (le_bytes 4 (of_nat (pc_offset a - n + 9) :: u32)) (emitted a)"
proof -
  let ?ins = "\<lparr>position_x64 = n, pl_type_x64 = kDisp32_off_9\<rparr>"
  obtain ar where ar: "pushObject ?ins (arr_initWithCapacity 8) = (True, ar)" "arr_ok ar" "objects ar = [?ins]"
    using pushObject_props [of "arr_initWithCapacity 8" ?ins] by auto
  have cnt: "getCount ar = 1" using length_objects [OF ar(2)] ar(3) by simp
  have get: "getObject 0 ar = Inr ?ins" using getObject_inside [OF ar(2), of 0] ar(3) cnt by simp
  have v: "of_int (int (pc_offset a) - int n + 9) = (of_nat (pc_offset a - n + 9) :: u32)"
    using assms(3) by (simp add: of_nat_diff)
  obtain b where b: "FixBindLabel (n - 4) (of_nat (pc_offset a - n + 9)) (code_buffer a) = Inr b" "buf_ok b"
      "contents b = poke (n - 4) (le_bytes 4 (of_nat (pc_offset a - n + 9) :: u32)) (emitted a)"
    using FixBindLabel_inside [of "code_buffer a" "n - 4"] assms by (auto simp: asm_ok_def pc_offset_def emitted_def)
  define L where "L = bind_to (int (getSize (code_buffer a))) (pl_link_to_x64 n kDisp32_off_9 (new_RelocLabelEntry_x64 f))"
  have i: "instructions_x64 L = ar" "reloc_data_x64 L = f" "pos L = int (pc_offset a)"
    by (simp_all add: L_def pc_offset_def) (simp_all add: bind_to_def pl_link_to_x64_def new_RelocLabelEntry_x64_def ar(1))
  have "link_confused_instructions_x64 L (code_buffer a) = Inr b"
    using assms(2) b(1) get v by (simp add: link_confused_instructions_x64_def i cnt Let_def)
  then have "PseudoBind_x64 (pl_link_to_x64 n kDisp32_off_9 (new_RelocLabelEntry_x64 f)) a = Inr (L, a\<lparr>code_buffer := b\<rparr>)"
    by (simp add: PseudoBind_x64_def L_def [symmetric] has_confused_instructions_x64_def i(1) cnt)
  with b i(2) show ?thesis by (auto simp: asm_ok_def emitted_def)
qed

text \<open>After the literal pool is laid out, the call of the only external function finds its literal.\<close>

lemma CallFunction_x64_resolved:
  assumes "asm_ok a" "pc_offset a < 2 ^ 29" "data_labels_x64 a = None"
  shows "\<exists>a1 a2. CallFunction_x64 f a = Inr a1 \<and> RelocBind_x64 a1 = Inr a2 \<and> emitted a2 = emitted a @ call_code 10 @ le_bytes 8 f"
proof -
  let ?l = "pl_link_to_x64 (pc_offset a + 15) kDisp32_off_9 (new_RelocLabelEntry_x64 f)"
  obtain a1 labels where a1: "CallFunction_x64 f a = Inr a1" "asm_ok a1" "emitted a1 = emitted a @ call_code 0x7FFFFFFF"
      "pc_offset a1 = pc_offset a + 16" "data_labels_x64 a1 = Some labels" "arr_ok labels" "objects labels = [?l]"
    using CallFunction_x64_emits [OF assms] by blast
  have cnt: "getCount labels = 1" using length_objects [OF a1(6)] a1(7) by simp
  have get: "getObject 0 labels = Inr ?l" using getObject_inside [OF a1(6), of 0] a1(7) cnt by simp
  obtain label a2 where b: "PseudoBind_x64 ?l a1 = Inr (label, a2)" "reloc_data_x64 label = f" "asm_ok a2"
      "emitted a2 = poke (11 + pc_offset a) (le_bytes 4 (10 :: u32)) (emitted a1)"
    using link_one_x64 [OF a1(2), of "pc_offset a + 15" f] a1(4) by auto
  have p2: "pc_offset a2 = pc_offset a + 16"
    using length_emitted [OF b(3)] b(4) a1(3) assms(1) by (simp add: call_code_def)
  have "emitted a2 = emitted a @ call_code 10"
    unfolding b(4) a1(3) using assms(1) by (simp add: poke_def call_code_def)
  then have "emitted (emit_code (le_bytes 8 f) a2) = emitted a @ call_code 10 @ le_bytes 8 f"
    using b(3) p2 assms(2) by (simp add: c_wf)
  moreover have "RelocBind_x64 a1 = Inr ((emit_code (le_bytes 8 f) a2)\<lparr>data_labels_x64 := Some (labels\<lparr>array := (array labels)[0 := Some label]\<rparr>)\<rparr>)"
    using a1(5) cnt get b(1,2) by (simp add: RelocBind_x64_def emits_x64)
  ultimately show ?thesis using a1(1) by auto
qed

lemma step_pop_r11:
  assumes "code_at (memx s) (RIP s) [0x4D, 0x5B]"
  shows "x64_step s = Some (goto (RIP s + 2) (write_loc (Reg 11) (top_of_stack s) (drop_top s)))"
proof -
  have "rexb 0x4D = 8" by code_simp
  then show ?thesis using assms by (simp add: code_at_Cons x64_step_def x64_op_def Let_def add.assoc)
qed

lemma step_call_r11:
  assumes "code_at (memx s) (RIP s) ([0x41, 0xFF, 0x93] @ le_bytes 4 w)"
  shows "x64_step s = Some (goto (ld64 (memx s) (GPR s 11 + sext32 w)) (push_val (RIP s + 7) s))"
proof -
  have "rexb 0x41 = 8" "x_mod 0x93 = 2" "x_rm 0x93 = 3" "x_reg 0x93 = 2" by code_simp+
  moreover have "ld32 (memx s) (RIP s + 3) = w" using assms by (simp add: code_at_Cons code_at_word add.assoc)
  ultimately show ?thesis
    using assms by (simp add: code_at_Cons x64_step_def x64_op_def Let_def modrm_operand_def read_loc_def add.assoc)
qed

text \<open>
  The code of a call: it learns its own address by a call to the next instruction, and reads the function
  at a displacement from there.
\<close>

lemma call_code_calls:
  assumes "code_at (memx s) (RIP s) (call_code d)" "code_at (st64 (GPR s 4 - 8) (RIP s + 6) (memx s)) (RIP s) (call_code d)"
    and "ld64 (st64 (GPR s 4 - 8) (RIP s + 6) (memx s)) (RIP s + 6 + sext32 d) = f"
  shows "x64_run 4 s = Some (goto f (push_val (RIP s + 15)
    (s\<lparr>GPR := (GPR s)(11 := RIP s + 6), memx := st64 (GPR s 4 - 8) (RIP s + 6) (memx s)\<rparr>)))"
proof -
  let ?q = "RIP s" and ?m = "st64 (GPR s 4 - 8) (RIP s + 6) (memx s)"
  have c': "code_at ?m (?q + 6) [0x4D, 0x5B]" "code_at ?m (?q + 8) ([0x41, 0xFF, 0x93] @ le_bytes 4 d)"
    using assms(2) by (simp_all add: call_code_def code_at_append code_at_Cons add.assoc)
  have z: "le_bytes 4 (0 :: u32) = [0, 0, 0, 0]" by code_simp
  have c0: "code_at (memx s) ?q [0x90]" "code_at (memx s) (?q + 1) (0xE8 # le_bytes 4 (0 :: u32))"
    using assms(1) by (simp_all add: call_code_def code_at_append code_at_Cons add.assoc z)
  have t: "sext32 0 = 0" by (simp add: sext32_def)
  let ?s1 = "goto (?q + 1) s" and ?s2 = "goto (?q + 6) (push_val (?q + 6) s)"
  let ?s3 = "goto (?q + 8) (s\<lparr>GPR := (GPR s)(11 := ?q + 6), memx := ?m\<rparr>)"
  have 1: "x64_step s = Some ?s1" by (rule step_nop [OF c0(1)])
  have 2: "x64_step ?s1 = Some ?s2"
    using step_call_rel32 [of ?s1 0] c0(2) by (simp add: t add.assoc goto_def push_val_def)
  have 3: "x64_step ?s2 = Some ?s3"
    using step_pop_r11 [of ?s2] c'(1)
    by (simp add: add.assoc goto_def push_val_def write_loc_def drop_top_def top_of_stack_def fun_upd_twist fun_upd_idem)
  have 4: "x64_step ?s3 = Some (goto f (push_val (?q + 15) ?s3))"
    using step_call_r11 [of ?s3 d] c'(2) assms(3) by (simp add: add.assoc)
  have "x64_run 4 s = Some (goto f (push_val (?q + 15) ?s3))" using 1 2 3 4 by (simp add: eval_nat_numeral)
  then show ?thesis by (simp add: goto_def push_val_def)
qed

text \<open>
  A call of an external function, once its literal pool is laid out, calls the function: the code
  learns its own address by a call to the next instruction, and the displacement patched into the
  indirect call leads from there to the literal.
\<close>

theorem call_function_x64_calls:
  assumes "asm_ok a" "pc_offset a < 2 ^ 29" "data_labels_x64 a = None"
    and "CallFunction_x64 f a = Inr a1" "RelocBind_x64 a1 = Inr a2"
    and "code_at (memx s) (RIP s) (drop (pc_offset a) (emitted a2))" "\<forall>i < 24. 8 \<le> unat (RIP s + of_nat i - (GPR s 4 - 8))"
  shows "\<exists>s'. x64_run 4 s = Some s' \<and> RIP s' = f \<and> top_of_stack s' = RIP s + 15 \<and> GPR s' 4 = GPR s 4 - 8
    \<and> (\<forall>r. r \<noteq> 4 \<longrightarrow> r \<noteq> 11 \<longrightarrow> GPR s' r = GPR s r)"
proof -
  let ?q = "RIP s" and ?m = "st64 (GPR s 4 - 8) (RIP s + 6) (memx s)"
  have e: "drop (pc_offset a) (emitted a2) = call_code 10 @ le_bytes 8 f"
    using CallFunction_x64_resolved [OF assms(1-3), of f] assms(1,4,5) by auto
  have c: "code_at (memx s) ?q (call_code 10 @ le_bytes 8 f)" using assms(6) unfolding e .
  have "code_at ?m ?q (call_code 10 @ le_bytes 8 f)"
    by (rule code_at_st64 [OF c]) (use assms(7) in \<open>simp add: call_code_def\<close>)
  then have c': "code_at ?m ?q (call_code 10)" "code_at ?m (?q + 16) (le_bytes 8 f)" by (simp_all add: code_at_append)
  have "sext32 10 = 10" by (simp add: sext32_def)
  then have "x64_run 4 s = Some (goto f (push_val (?q + 15) (s\<lparr>GPR := (GPR s)(11 := ?q + 6), memx := ?m\<rparr>)))"
    using call_code_calls [of s 10 f] c c' by (simp add: code_at_append code_at_dword add.assoc del: x64_run.simps)
  then show ?thesis by (auto simp: top_of_stack_def push_val_def goto_def simp del: x64_run.simps)
qed

theorem call_function_x64_calls_witness:
  "\<exists>a1 a2 s s'. CallFunction_x64 0x7777 (new_TurboAssembler_x64 (\<lambda>_. 0) 0) = Inr a1 \<and> RelocBind_x64 a1 = Inr a2
     \<and> RIP s = 0x1000 \<and> code_at (memx s) 0x1000 (emitted a2) \<and> x64_run 4 s = Some s' \<and> RIP s' = 0x7777 \<and> top_of_stack s' = 0x100F"
proof -
  let ?a = "new_TurboAssembler_x64 (\<lambda>_. 0) 0"
  have d: "data_labels_x64 ?a = None" by (simp add: new_TurboAssembler_x64_def)
  have "\<exists>a1 a2. CallFunction_x64 0x7777 ?a = Inr a1 \<and> RelocBind_x64 a1 = Inr a2 \<and> emitted a2 = emitted ?a @ call_code 10 @ le_bytes 8 (0x7777 :: u64)"
    by (rule CallFunction_x64_resolved [OF _ _ d]) simp_all
  then obtain a1 a2 where a: "CallFunction_x64 0x7777 ?a = Inr a1" "RelocBind_x64 a1 = Inr a2"
      "emitted a2 = call_code 10 @ le_bytes 8 (0x7777 :: u64)"
    unfolding new_TurboAssembler_x64_ok append_Nil by blast
  let ?s = "x64_at 0x1000 0x1000 (emitted a2)"
  have c: "code_at (memx ?s) 0x1000 (emitted a2)" using a(3) by (simp add: x64_at_def code_at_mem_of call_code_def)
  have "\<forall>i < 24. 8 \<le> unat (RIP ?s + of_nat i - (GPR ?s 4 - 8))"
    using far_offset [of "0x808"] by (simp add: x64_at_def)
  from call_function_x64_calls [OF _ _ d a(1,2), of ?s] this c
  obtain s' where "x64_run 4 ?s = Some s'" "RIP s' = 0x7777" "top_of_stack s' = 0x100F"
    by (auto simp: x64_at_def simp del: x64_run.simps)
  with a c show ?thesis
    by (intro exI [of _ a1] exI [of _ a2] exI [of _ ?s] exI [of _ s']) (simp add: x64_at_def del: x64_run.simps)
qed

end
