(* ===== verification/Bridge_X64.thy ===== *)
theory Bridge_X64
  imports Closure_Bridge Call_X64
begin

text \<open>
  The closure bridge of x64 at run time: the bytes the assembler emits for it, the frame it builds on the
  stack, the call of the common handler, and the way back with the registers of the frame.
\<close>

unbundle bit_operations_syntax

section \<open>The bytes of the bridge\<close>

text \<open>\<open>appends f bs\<close>: the call \<open>f\<close> of the assembler emits \<open>bs\<close> and keeps the label entries.\<close>

definition appends :: "(TurboAssembler_x64 \<Rightarrow> TurboAssembler_x64 res) \<Rightarrow> u8 list \<Rightarrow> bool" where
  "appends f bs \<longleftrightarrow> (\<forall>a. asm_ok a \<and> pc_offset a + length bs < 2 ^ 30 \<longrightarrow>
     (\<exists>a'. f a = Inr a' \<and> asm_ok a' \<and> emitted a' = emitted a @ bs \<and> data_labels_x64 a' = data_labels_x64 a))"

lemma appendsI:
  assumes "\<And>a. f a = Inr (emit_code bs a)"
  shows "appends f bs"
  using assms by (auto simp: appends_def c_wf)

lemma appends_seq: "list_all2 appends fs bss \<Longrightarrow> appends (emit_seq fs) (concat bss)"
proof (induction rule: list_all2_induct)
  case Nil
  then show ?case by (simp add: appends_def)
next
  case (Cons f fs bs bss)
  show ?case unfolding appends_def
  proof (intro allI impI)
    fix a :: TurboAssembler_x64
    assume a: "asm_ok a \<and> pc_offset a + length (concat (bs # bss)) < 2 ^ 30"
    then obtain a1 where 1: "f a = Inr a1" "asm_ok a1" "emitted a1 = emitted a @ bs" "data_labels_x64 a1 = data_labels_x64 a"
      using Cons.hyps(1) by (auto simp: appends_def)
    have "pc_offset a1 = pc_offset a + length bs"
      using arg_cong [OF 1(3), of length] 1(2) a by simp
    then obtain a2 where "emit_seq fs a1 = Inr a2" "asm_ok a2" "emitted a2 = emitted a1 @ concat bss" "data_labels_x64 a2 = data_labels_x64 a1"
      using Cons.IH 1(2) a by (auto simp: appends_def)
    then show "\<exists>a'. emit_seq (f # fs) a = Inr a' \<and> asm_ok a' \<and> emitted a' = emitted a @ concat (bs # bss) \<and> data_labels_x64 a' = data_labels_x64 a"
      using 1 by simp
  qed
qed

text \<open>A chain of emissions appends the bytes in their order.\<close>

lemma appends_emits:
  assumes "\<And>a. f a = Inr (fold emit_code bss a)"
  shows "appends f (concat bss)"
  unfolding appends_def
proof (intro allI impI)
  fix a :: TurboAssembler_x64
  assume a: "asm_ok a \<and> pc_offset a + length (concat bss) < 2 ^ 30"
  then have "asm_ok (fold emit_code bss a)" "emitted (fold emit_code bss a) = emitted a @ concat bss"
    using asm.put_all [of a bss] by simp_all
  moreover have "data_labels_x64 (fold emit_code bss a) = data_labels_x64 a"
    by (induction bss arbitrary: a) simp_all
  ultimately show "\<exists>a'. f a = Inr a' \<and> asm_ok a' \<and> emitted a' = emitted a @ concat bss \<and> data_labels_x64 a' = data_labels_x64 a"
    using assms [of a] by auto
qed

definition arith_bytes :: "u8 \<Rightarrow> CPURegister_x64 \<Rightarrow> u64 \<Rightarrow> u8 list" where
  "arith_bytes ext r v = [EmitOptionalRex False True (7 < code_x64 r) False False, 0x81,
     push_bit 6 3 OR push_bit 3 ext OR of_nat (code_x64 r)] @ le_bytes 4 (ucast v :: u32)"

definition store_bytes_x64 :: "Operand_x64 \<Rightarrow> CPURegister_x64 \<Rightarrow> u8 list" where
  "store_bytes_x64 d r = [rex_x64 d OR EmitOptionalRex True True (7 < code_x64 r) False False, 0x89,
     push_bit 6 (asm_ModRM_Mod (modrm_x64 d)) OR push_bit 3 (low_bits_x64 r) OR asm_ModRM_RM (modrm_x64 d)] @ tail_x64 d"

lemma EmitOptionalRex_64: "EmitOptionalRex force True r x b \<noteq> 0" "v OR EmitOptionalRex force True r x b \<noteq> 0"
proof -
  have "bit (EmitOptionalRex force True r x b) 3"
    by (cases force; cases r; cases x; cases b) (simp_all add: EmitOptionalRex_def)
  then have "bit (EmitOptionalRex force True r x b) 3" "bit (v OR EmitOptionalRex force True r x b) 3" by (simp_all add: bit_or_iff)
  then show "EmitOptionalRex force True r x b \<noteq> 0" "v OR EmitOptionalRex force True r x b \<noteq> 0" by auto
qed

lemma appends_sub: "size_x64 r = 64 \<Longrightarrow> appends (sub_x64 r (Immediate_sized_x64 v 32)) (arith_bytes 5 r v)"
  using appends_emits [of "sub_x64 r (Immediate_sized_x64 v 32)"
      "[[EmitOptionalRex False True (7 < code_x64 r) False False], [0x81], [push_bit 6 3 OR push_bit 3 5 OR of_nat (code_x64 r)],
        le_bytes 4 (ucast v :: u32)]"]
  by (simp add: sub_x64_def arith_bytes_def EmitREX_Register_def EmitOptionalRex_64 Let_def Emit_OpEn_RegisterOperand_Immediate_x64_def
      EmitImmediate_x64_def Immediate_sized_x64_def EmitModRM_ExtraOpcode_Register_x64_def EmitModRM_x64_def EmitOpcode_x64_def emits_x64)

lemma appends_add: "size_x64 r = 64 \<Longrightarrow> appends (add_x64 r (Immediate_sized_x64 v 32)) (arith_bytes 0 r v)"
  using appends_emits [of "add_x64 r (Immediate_sized_x64 v 32)"
      "[[EmitOptionalRex False True (7 < code_x64 r) False False], [0x81], [push_bit 6 3 OR push_bit 3 0 OR of_nat (code_x64 r)],
        le_bytes 4 (ucast v :: u32)]"]
  by (simp add: add_x64_def arith_bytes_def EmitREX_Register_def EmitOptionalRex_64 Let_def Emit_OpEn_RegisterOperand_Immediate_x64_def
      EmitImmediate_x64_def Immediate_sized_x64_def EmitModRM_ExtraOpcode_Register_x64_def EmitModRM_x64_def EmitOpcode_x64_def emits_x64)

lemma appends_store: "size_x64 r = 64 \<Longrightarrow> appends (mov_store_x64 d r) (store_bytes_x64 d r)"
  using appends_emits [of "mov_store_x64 d r"
      "[[rex_x64 d OR EmitOptionalRex True True (7 < code_x64 r) False False], [0x89],
        [push_bit 6 (asm_ModRM_Mod (modrm_x64 d)) OR push_bit 3 (low_bits_x64 r) OR asm_ModRM_RM (modrm_x64 d)], tail_x64 d]"]
  by (simp add: mov_store_x64_def store_bytes_x64_def EmitREX_Register_Operand_def EmitOptionalRex_64 Let_def
      Emit_OpEn_Register_Operand_x64_def EmitModRM_Update_Register_x64_def EmitModRM_x64_def EmitOpcode_x64_def emits_x64)

lemma appends_load: "size_x64 r = 64 \<Longrightarrow> appends (emits (mov_load_x64 r d))
    ([EmitOptionalRex False True (7 < code_x64 r) False False, 0x8B,
      push_bit 6 (asm_ModRM_Mod (modrm_x64 d)) OR push_bit 3 (low_bits_x64 r) OR asm_ModRM_RM (modrm_x64 d)] @ tail_x64 d)"
  using appends_emits [of "emits (mov_load_x64 r d)"
      "[[EmitOptionalRex False True (7 < code_x64 r) False False], [0x8B],
        [push_bit 6 (asm_ModRM_Mod (modrm_x64 d)) OR push_bit 3 (low_bits_x64 r) OR asm_ModRM_RM (modrm_x64 d)], tail_x64 d]"]
  by (simp add: emits_def mov_load_x64_def EmitREX_Register_def EmitOptionalRex_64 Let_def
      Emit_OpEn_Register_Operand_x64_def EmitModRM_Update_Register_x64_def EmitModRM_x64_def EmitOpcode_x64_def emits_x64)

lemma appends_mov: "size_x64 r = 64 \<Longrightarrow> appends (emits (mov_reg_x64 r q))
    [EmitOptionalRex False True (7 < code_x64 r) False False, 0x8B, push_bit 6 3 OR push_bit 3 (of_nat (code_x64 r)) OR of_nat (code_x64 q)]"
  using appends_emits [of "emits (mov_reg_x64 r q)"
      "[[EmitOptionalRex False True (7 < code_x64 r) False False], [0x8B], [push_bit 6 3 OR push_bit 3 (of_nat (code_x64 r)) OR of_nat (code_x64 q)]]"]
  by (simp add: emits_def mov_reg_x64_def EmitREX_Register_def EmitOptionalRex_64 Let_def
      Emit_OpEn_Register_RegisterOperand_x64_def EmitModRM_Register_Register_x64_def EmitModRM_x64_def EmitOpcode_x64_def emits_x64)

lemma appends_pop: "size_x64 r = 64 \<Longrightarrow> appends (emits (pop_x64 r))
    [EmitOptionalRex False True (7 < code_x64 r) False (7 < code_x64 r), 0x58 OR low_bits_x64 r]"
  using appends_emits [of "emits (pop_x64 r)"
      "[[EmitOptionalRex False True (7 < code_x64 r) False (7 < code_x64 r)], [0x58 OR low_bits_x64 r]]"]
  by (simp add: emits_def pop_x64_def EmitREX_ExtraRegister_def EmitOptionalRex_64 Let_def EmitOpcode_Register_x64_def EmitOpcode_x64_def emits_x64)

lemma appends_buffer: "appends (emits (EmitBuffer_x64 bs)) bs" "appends (emits ret_x64) [0xC3]"
  by (auto intro!: appendsI simp: emits_def emits_x64 ret_x64_def EmitOpcode_x64_def)

text \<open>The instructions of the bridge, as lists of bytes.\<close>

lemma context_registers_64: "r \<in> set context_registers_x64 \<Longrightarrow> size_x64 r = 64"
  by (auto simp: context_registers_x64_def rax_def rcx_def rdx_def rbx_def rsp_def rbp_def rsi_def rdi_def r8_def r9_def r10_def
      r11_def r12_def r13_def r14_def r15_def Create_x64_def)

lemma context_register_64 [simp]: "k < 16 \<Longrightarrow> size_x64 (context_registers_x64 ! k) = 64"
  by (intro context_registers_64 nth_mem) (simp add: context_registers_x64_def)

lemma size_64 [simp]: "size_x64 rax = 64" "size_x64 rsp = 64" "size_x64 rdi = 64" "size_x64 rsi = 64"
  by (auto intro!: context_registers_64 simp: context_registers_x64_def)

definition frame_store :: "nat \<Rightarrow> u8 list" where
  "frame_store k = store_bytes_x64 (Address_x64 rsp (8 * of_nat k)) (context_registers_x64 ! k)"

definition frame_pop :: "nat \<Rightarrow> u8 list" where
  "frame_pop k = (let r = context_registers_x64 ! k
     in [EmitOptionalRex False True (7 < code_x64 r) False (7 < code_x64 r), 0x58 OR low_bits_x64 r])"

definition save_code :: "u8 list list" where
  "save_code = [[0x9C], arith_bytes 5 rsp 8, arith_bytes 5 rsp 128] @ map frame_store [0..<16]"

definition args_code :: "u8 list list" where
  "args_code = [[0x48, 0x8B, 0xC4], arith_bytes 0 rax 152, arith_bytes 5 rsp 16, [0x48, 0x89, 0x44, 0x24, 0x08],
     [0x48, 0x8B, 0xFC], [0x48, 0x8B, 0xB4, 0x24, 0xA0, 0, 0, 0]]"

definition test_code :: "u8 list" where
  "test_code = [0x48, 0x89, 0xE0, 0x48, 0x83, 0xE0, 0x0F, 0x48, 0x83, 0xF8, 0, 0x75, 0x15]"

definition restore_code :: "u8 list list" where
  "restore_code = [arith_bytes 0 rsp 16] @ map frame_pop [0..<5] @ [arith_bytes 0 rsp 8] @ map frame_pop [6..<16]
     @ [arith_bytes 0 rsp 8, [0x9D], [0xC3]]"

lemma appends_save: "appends (emit_seq bridge_save_x64) (concat save_code)"
proof -
  have "list_all2 appends (map (\<lambda>k. mov_store_x64 (Address_x64 rsp (8 * of_nat k)) (context_registers_x64 ! k)) [0..<16]) (map frame_store [0..<16])"
    by (auto simp: list_all2_conv_all_nth frame_store_def appends_store)
  then show ?thesis unfolding bridge_save_x64_def save_code_def
    by (intro appends_seq list_all2_appendI) (simp_all add: appends_sub appends_buffer)
qed

lemma appends_args: "appends (emit_seq bridge_args_x64) (concat args_code)"
proof -
  have 1: "appends (emits (mov_reg_x64 rax rsp)) [0x48, 0x8B, 0xC4]" "appends (emits (mov_reg_x64 rdi rsp)) [0x48, 0x8B, 0xFC]"
    "appends (emits (mov_load_x64 rsi (Address_x64 rsp 160))) [0x48, 0x8B, 0xB4, 0x24, 0xA0, 0, 0, 0]"
    "appends (mov_store_x64 (Address_x64 rsp 8) rax) [0x48, 0x89, 0x44, 0x24, 0x08]"
    subgoal by (rule back_subst [of "appends _", OF appends_mov]) (simp, code_simp)
    subgoal by (rule back_subst [of "appends _", OF appends_mov]) (simp, code_simp)
    subgoal by (rule back_subst [of "appends _", OF appends_load]) (simp, code_simp)
    subgoal by (rule back_subst [of "appends _", OF appends_store]) (simp, code_simp)
    done
  then show ?thesis unfolding bridge_args_x64_def args_code_def
    by (intro appends_seq) (simp add: appends_sub appends_add)
qed

lemma appends_restore: "appends (emit_seq bridge_restore_x64) (concat restore_code)"
proof -
  have pops: "list_all2 appends (map (\<lambda>r. emits (pop_x64 r)) (map (nth context_registers_x64) ks)) (map frame_pop ks)" if "set ks \<subseteq> {..<16}" for ks
    using that by (auto simp: list_all2_conv_all_nth frame_pop_def Let_def subset_iff intro!: appends_pop context_register_64)
  have r: "[rax, rbx, rcx, rdx, rbp] = map (nth context_registers_x64) [0..<5]"
    "[rdi, rsi, r8, r9, r10, r11, r12, r13, r14, r15] = map (nth context_registers_x64) [6..<16]"
    by (simp_all add: context_registers_x64_def upt_rec)
  show ?thesis unfolding bridge_restore_x64_def restore_code_def r
    by (intro appends_seq list_all2_appendI pops) (auto simp: appends_add appends_buffer)
qed

definition pre_code :: "u8 list" where
  "pre_code = concat save_code @ concat args_code @ test_code"

definition bridge_bytes :: "u64 \<Rightarrow> u8 list" where
  "bridge_bytes h = pre_code @ call_code 86 @ [0xE9, 0x12, 0, 0, 0] @ [0x50] @ call_code 72 @ [0x58]
     @ concat restore_code @ le_bytes 8 h @ le_bytes 8 h"

lemma length_blocks [simp]: "length pre_code = 140" "length (concat restore_code) = 53"
  by code_simp+

lemma appends_test: "appends (emit_seq (take 4 (bridge_call_x64 h))) test_code"
proof -
  have "appends (emit_seq (take 4 (bridge_call_x64 h)))
      (concat [[0x48, 0x89, 0xE0], [0x48, 0x83, 0xE0, 0x0F], [0x48, 0x83, 0xF8, 0], [0x75, 0x15]])"
    by (rule appends_seq) (simp add: bridge_call_x64_def appends_buffer)
  then show ?thesis by (simp add: test_code_def)
qed

lemma appendsD:
  assumes "appends f bs" "asm_ok a" "pc_offset a + length bs < 2 ^ 30"
  shows "\<exists>a'. f a = Inr a' \<and> asm_ok a' \<and> emitted a' = emitted a @ bs \<and> data_labels_x64 a' = data_labels_x64 a
    \<and> pc_offset a' = pc_offset a + length bs"
proof -
  obtain a' where a': "f a = Inr a'" "asm_ok a'" "emitted a' = emitted a @ bs" "data_labels_x64 a' = data_labels_x64 a"
    using assms by (auto simp: appends_def)
  moreover have "pc_offset a' = pc_offset a + length bs" using arg_cong [OF a'(3), of length] a'(2) assms(2) by simp
  ultimately show ?thesis by blast
qed

lemma poke_call: "poke (length xs + 11) (le_bytes 4 d) (xs @ call_code c @ ys) = xs @ call_code d @ ys"
  by (simp add: poke_def call_code_def)

lemma bridge_before_binding:
  "\<exists>a labels. emit_seq (bridge_save_x64 @ bridge_args_x64 @ bridge_call_x64 h @ bridge_restore_x64) (new_TurboAssembler_x64 junk 0) = Inr a
    \<and> asm_ok a \<and> pc_offset a = 232 \<and> data_labels_x64 a = Some labels \<and> arr_ok labels
    \<and> objects labels = [pl_link_to_x64 155 kDisp32_off_9 (new_RelocLabelEntry_x64 h), pl_link_to_x64 177 kDisp32_off_9 (new_RelocLabelEntry_x64 h)]
    \<and> emitted a = pre_code @ call_code 0x7FFFFFFF @ [0xE9, 0x12, 0, 0, 0] @ [0x50] @ call_code 0x7FFFFFFF @ [0x58] @ concat restore_code"
proof -
  let ?a0 = "new_TurboAssembler_x64 junk 0"
  have l0: "data_labels_x64 ?a0 = None" by (simp add: new_TurboAssembler_x64_def)
  have len: "length (concat save_code) = 94" "length (concat args_code) = 33" "length test_code = 13" by code_simp+
  obtain a1 where 1: "emit_seq bridge_save_x64 ?a0 = Inr a1" "asm_ok a1" "emitted a1 = concat save_code" "data_labels_x64 a1 = None" "pc_offset a1 = 94"
    using appendsD [OF appends_save, of ?a0] l0 len by auto
  obtain a2 where 2: "emit_seq bridge_args_x64 a1 = Inr a2" "asm_ok a2" "emitted a2 = emitted a1 @ concat args_code" "data_labels_x64 a2 = None" "pc_offset a2 = 127"
    using appendsD [OF appends_args, of a1] 1 len by auto
  obtain a3 where 3: "emit_seq (take 4 (bridge_call_x64 h)) a2 = Inr a3" "asm_ok a3" "emitted a3 = pre_code" "data_labels_x64 a3 = None" "pc_offset a3 = 140"
    using appendsD [OF appends_test, of a2 h] 1 2 len by (auto simp: pre_code_def)
  obtain a4 ls where 4: "CallFunction_x64 h a3 = Inr a4" "asm_ok a4" "emitted a4 = emitted a3 @ call_code 0x7FFFFFFF" "pc_offset a4 = 156"
      "data_labels_x64 a4 = Some ls" "arr_ok ls" "objects ls = [pl_link_to_x64 155 kDisp32_off_9 (new_RelocLabelEntry_x64 h)]"
    using CallFunction_x64_emits [of a3 h] 3 by auto
  let ?a5 = "emit_code [0x50] (emit_code [0xE9, 0x12, 0, 0, 0] a4)"
  have 5: "asm_ok ?a5" "pc_offset ?a5 = 162" "emitted ?a5 = emitted a4 @ [0xE9, 0x12, 0, 0, 0] @ [0x50]" "label_entries ?a5 = ls"
    using 4 by (simp_all add: c_wf label_entries_def)
  have "getCount ls = 1" using length_objects [OF 4(6)] 4(7) by simp
  then obtain a6 labels where 6: "CallFunction_x64 h ?a5 = Inr a6" "asm_ok a6" "emitted a6 = emitted ?a5 @ call_code 0x7FFFFFFF" "pc_offset a6 = 178"
      "data_labels_x64 a6 = Some labels" "arr_ok labels" "objects labels = objects ls @ [pl_link_to_x64 177 kDisp32_off_9 (new_RelocLabelEntry_x64 h)]"
    using CallFunction_x64_appends [of ?a5 h] 5 4(6) by auto
  let ?a7 = "emit_code [0x58] a6"
  have 7: "asm_ok ?a7" "pc_offset ?a7 = 179" "emitted ?a7 = emitted a6 @ [0x58]" "data_labels_x64 ?a7 = Some labels" using 6 by (simp_all add: c_wf)
  obtain a8 where 8: "emit_seq bridge_restore_x64 ?a7 = Inr a8" "asm_ok a8" "emitted a8 = emitted ?a7 @ concat restore_code"
      "data_labels_x64 a8 = Some labels" "pc_offset a8 = 232"
    using appendsD [OF appends_restore, of ?a7] 7 by auto
  have c: "bridge_call_x64 h = take 4 (bridge_call_x64 h) @ [CallFunction_x64 h, emits (EmitBuffer_x64 [0xE9, 0x12, 0, 0, 0]),
      emits (EmitBuffer_x64 [0x50]), CallFunction_x64 h, emits (EmitBuffer_x64 [0x58])]"
    by (simp add: bridge_call_x64_def)
  have "emit_seq (bridge_save_x64 @ bridge_args_x64 @ bridge_call_x64 h @ bridge_restore_x64) ?a0 = Inr a8"
    by (subst c) (simp add: emit_seq_append 1(1) 2(1) 3(1) 4(1) 6(1) 8(1) emits_def emits_x64)
  moreover have "emitted a8 = pre_code @ call_code 0x7FFFFFFF @ [0xE9, 0x12, 0, 0, 0] @ [0x50] @ call_code 0x7FFFFFFF @ [0x58] @ concat restore_code"
    using 8(3) 7(3) 6(3) 5(3) 4(3) 3(3) by simp
  ultimately show ?thesis using 8 6(6,7) 4(7) by auto
qed

lemma getObject_array_update:
  assumes "arr_ok ls" "j < getCount ls" "i \<noteq> j"
  shows "getObject j (ls\<lparr>array := (array ls)[i := x]\<rparr>) = Inr (objects ls ! j)"
  using getObject_inside [OF assms(1,2)] assms(3) by (auto simp: getObject_def split: if_splits)

lemma closure_bridge_x64_emits:
  "\<exists>a. closure_bridge_code_x64 junk h = Inr a \<and> asm_ok a \<and> emitted a = bridge_bytes h"
proof -
  let ?l = "\<lambda>n. pl_link_to_x64 n kDisp32_off_9 (new_RelocLabelEntry_x64 h)"
  let ?tail = "[0xE9, 0x12, 0, 0, 0] @ [0x50] @ call_code 0x7FFFFFFF @ [0x58] @ concat restore_code"
  obtain a labels where a: "emit_seq (bridge_save_x64 @ bridge_args_x64 @ bridge_call_x64 h @ bridge_restore_x64) (new_TurboAssembler_x64 junk 0) = Inr a"
      "asm_ok a" "pc_offset a = 232" "data_labels_x64 a = Some labels" "arr_ok labels" "objects labels = [?l 155, ?l 177]"
      "emitted a = pre_code @ call_code 0x7FFFFFFF @ ?tail"
    using bridge_before_binding by blast
  have cnt: "getCount labels = 2" using length_objects [OF a(5)] a(6) by simp
  obtain l1 a1 where 1: "PseudoBind_x64 (?l 155) a = Inr (l1, a1)" "reloc_data_x64 l1 = h" "asm_ok a1"
      "emitted a1 = poke 151 (le_bytes 4 (86 :: u32)) (emitted a)"
    using link_one_x64 [OF a(2), of 155 h] a(3) by auto
  have e1: "emitted a1 = (pre_code @ call_code 86 @ [0xE9, 0x12, 0, 0, 0] @ [0x50]) @ call_code 0x7FFFFFFF @ ([0x58] @ concat restore_code)"
    using poke_call [of pre_code 86 "0x7FFFFFFF" ?tail] 1(4) a(7) by simp
  let ?a2 = "emit_code (le_bytes 8 h) a1"
  have "length (emitted a1) = 232" using e1 by simp
  then have 2: "asm_ok ?a2" "pc_offset ?a2 = 240" "emitted ?a2 = emitted a1 @ le_bytes 8 h" using 1(3) by (simp_all add: c_wf)
  obtain l3 a3 where 3: "PseudoBind_x64 (?l 177) ?a2 = Inr (l3, a3)" "reloc_data_x64 l3 = h" "asm_ok a3"
      "emitted a3 = poke 173 (le_bytes 4 (72 :: u32)) (emitted ?a2)"
    using link_one_x64 [OF 2(1), of 177 h] 2(2) by auto
  have e3: "emitted a3 = (pre_code @ call_code 86 @ [0xE9, 0x12, 0, 0, 0] @ [0x50]) @ call_code 72 @ ([0x58] @ concat restore_code @ le_bytes 8 h)"
    using poke_call [of "pre_code @ call_code 86 @ [0xE9, 0x12, 0, 0, 0] @ [0x50]" 72 "0x7FFFFFFF" "[0x58] @ concat restore_code @ le_bytes 8 h"] 3(4) 2(3) e1
    by simp
  have "length (emitted a3) = 240" using e3 by simp
  then have "pc_offset a3 = 240" using 3(3) by simp
  then have 4: "asm_ok (emit_code (le_bytes 8 h) a3)" "emitted (emit_code (le_bytes 8 h) a3) = bridge_bytes h"
    using 3(3) e3 by (simp_all add: c_wf bridge_bytes_def)
  have g: "getObject 0 labels = Inr (?l 155)" "getObject 1 (labels\<lparr>array := (array labels)[0 := Some l1]\<rparr>) = Inr (?l 177)"
    using getObject_inside [OF a(5), of 0] getObject_array_update [OF a(5), of 1 0] cnt a(6) by simp_all
  have "\<exists>ls'. RelocBind_x64 a = Inr ((emit_code (le_bytes 8 h) a3)\<lparr>data_labels_x64 := Some ls'\<rparr>)"
    using g 1(1,2) 3(1,2) by (simp add: RelocBind_x64_def a(4) cnt upt_rec numeral_2_eq_2 emits_x64) blast
  then obtain ls' where "RelocBind_x64 a = Inr ((emit_code (le_bytes 8 h) a3)\<lparr>data_labels_x64 := Some ls'\<rparr>)" ..
  then have "closure_bridge_code_x64 junk h = Inr ((emit_code (le_bytes 8 h) a3)\<lparr>data_labels_x64 := Some ls'\<rparr>)"
    using emit_seq_append [of "bridge_save_x64 @ bridge_args_x64 @ bridge_call_x64 h @ bridge_restore_x64" "[RelocBind_x64]"] a(1)
    by (simp add: closure_bridge_code_x64_def)
  then show ?thesis using 4 by simp
qed

end
