(* ===== verification/Bridge_X64_Exec.thy ===== *)
theory Bridge_X64_Exec
  imports Bridge_X64
begin

text \<open>Execution of the closure bridge of x64 on the abstract machine of \<open>X64_Isa\<close>.\<close>

unbundle bit_operations_syntax

section \<open>Runs of straight-line code\<close>

definition runs :: "x64_state \<Rightarrow> x64_state \<Rightarrow> bool" where
  "runs s t \<longleftrightarrow> (\<exists>n. x64_run n s = Some t)"

lemma runs_refl [simp]: "runs s s"
  unfolding runs_def by (rule exI [of _ 0]) simp

lemma runs_step: "x64_step s = Some t \<Longrightarrow> runs t u \<Longrightarrow> runs s u"
  unfolding runs_def using x64_run.simps(2) [of _ s] by (metis option.simps(5))

lemma x64_run_add: "x64_run m s = Some t \<Longrightarrow> x64_run (m + n) s = x64_run n t"
  by (induction m arbitrary: s) (auto split: option.splits)

lemma runs_trans: "runs s t \<Longrightarrow> runs t u \<Longrightarrow> runs s u"
  unfolding runs_def by (metis x64_run_add)

text \<open>
  \<open>does bs e\<close>: the instruction with the bytes \<open>bs\<close> has the effect \<open>e\<close> and goes on behind itself.  An effect leaves
  the instruction pointer alone.
\<close>

definition does :: "u8 list \<Rightarrow> (x64_state \<Rightarrow> x64_state) \<Rightarrow> bool" where
  "does bs e \<longleftrightarrow> (\<forall>s. code_at (memx s) (RIP s) bs \<longrightarrow> x64_step s = Some (goto (RIP s + of_nat (length bs)) (e s)))
     \<and> (\<forall>s a. e (goto a s) = goto a (e s))"

lemma doesI:
  assumes "\<And>s. code_at (memx s) (RIP s) bs \<Longrightarrow> x64_step s = Some (goto (RIP s + of_nat (length bs)) (e s))"
    and "\<And>s a. e (goto a s) = goto a (e s)"
  shows "does bs e"
  using assms by (simp add: does_def)

text \<open>The memory satisfies \<open>P\<close> before every effect of a list and after the last.\<close>

primrec throughout :: "((u64 \<Rightarrow> u8) \<Rightarrow> bool) \<Rightarrow> (x64_state \<Rightarrow> x64_state) list \<Rightarrow> x64_state \<Rightarrow> bool" where
  "throughout P [] s \<longleftrightarrow> P (memx s)"
| "throughout P (e # es) s \<longleftrightarrow> P (memx s) \<and> throughout P es (e s)"

lemma throughout_mono: "throughout P es s \<Longrightarrow> (\<And>m. P m \<Longrightarrow> Q m) \<Longrightarrow> throughout Q es s"
  by (induction es arbitrary: s) auto

lemma goto_goto [simp]: "goto a (goto b s) = goto a s"
  by (simp add: goto_def)

lemma goto_RIP [simp]: "goto (RIP s) s = s"
  by (simp add: goto_def)

lemma block_runs:
  assumes "list_all2 does bss es" "throughout (\<lambda>m. code_at m B (xs @ concat bss @ ys)) es s"
  shows "runs (goto (B + of_nat (length xs)) s) (goto (B + of_nat (length xs + length (concat bss))) (fold id es s))"
  using assms
proof (induction bss es arbitrary: s xs rule: list_all2_induct)
  case Nil
  then show ?case by simp
next
  case (Cons bs bss e es)
  let ?s = "goto (B + of_nat (length xs)) s"
  have "code_at (memx s) B (xs @ bs @ concat bss @ ys)" using Cons.prems by simp
  then have c: "code_at (memx ?s) (RIP ?s) bs" by (simp add: code_at_append)
  have t: "throughout (\<lambda>m. code_at m B ((xs @ bs) @ concat bss @ ys)) es (e s)" using Cons.prems by simp
  have "x64_step ?s = Some (goto (B + of_nat (length (xs @ bs))) (e s))"
    using Cons.hyps(1) c by (simp add: does_def add.assoc)
  from runs_step [OF this Cons.IH [OF t]] show ?case by (simp add: add.assoc)
qed

section \<open>The effects of the bridge\<close>

definition sub_eff :: "nat \<Rightarrow> u64 \<Rightarrow> x64_state \<Rightarrow> x64_state" where
  "sub_eff r v s = s\<lparr>GPR := (GPR s)(r := GPR s r - v), RFLAGS := arith_flags (GPR s r - v) (GPR s r < v) (RFLAGS s)\<rparr>"

definition add_eff :: "nat \<Rightarrow> u64 \<Rightarrow> x64_state \<Rightarrow> x64_state" where
  "add_eff r v s = s\<lparr>GPR := (GPR s)(r := GPR s r + v), RFLAGS := arith_flags (GPR s r + v) (GPR s r + v < GPR s r) (RFLAGS s)\<rparr>"

definition store_eff :: "u64 \<Rightarrow> nat \<Rightarrow> x64_state \<Rightarrow> x64_state" where
  "store_eff d r s = s\<lparr>memx := st64 (GPR s 4 + d) (GPR s r) (memx s)\<rparr>"

definition move_eff :: "nat \<Rightarrow> nat \<Rightarrow> x64_state \<Rightarrow> x64_state" where
  "move_eff r q s = s\<lparr>GPR := (GPR s)(r := GPR s q)\<rparr>"

definition load_eff :: "nat \<Rightarrow> u64 \<Rightarrow> x64_state \<Rightarrow> x64_state" where
  "load_eff r d s = s\<lparr>GPR := (GPR s)(r := ld64 (memx s) (GPR s 4 + d))\<rparr>"

definition pop_eff :: "nat \<Rightarrow> x64_state \<Rightarrow> x64_state" where
  "pop_eff r s = s\<lparr>GPR := (GPR s)(4 := GPR s 4 + 8, r := ld64 (memx s) (GPR s 4))\<rparr>"

definition popf_eff :: "x64_state \<Rightarrow> x64_state" where
  "popf_eff s = s\<lparr>GPR := (GPR s)(4 := GPR s 4 + 8), RFLAGS := ld64 (memx s) (GPR s 4)\<rparr>"

lemmas eff_defs = sub_eff_def add_eff_def store_eff_def move_eff_def load_eff_def pop_eff_def popf_eff_def goto_def push_val_def

lemma does_pushf: "does [0x9C] (\<lambda>s. push_val (RFLAGS s) s)"
  by (simp add: does_def code_at_Cons x64_step_def x64_op_def Let_def eff_defs)

lemma does_popf: "does [0x9D] popf_eff"
  by (simp add: does_def code_at_Cons x64_step_def x64_op_def Let_def eff_defs drop_top_def top_of_stack_def)

lemma does_arith:
  assumes "x_mod m = 3" "unat (x_rm m) = r"
  shows "x_reg m = 5 \<Longrightarrow> does ([0x48, 0x81, m] @ le_bytes 4 w) (sub_eff r (sext32 w))"
    and "x_reg m = 0 \<Longrightarrow> does ([0x48, 0x81, m] @ le_bytes 4 w) (add_eff r (sext32 w))"
proof -
  have "rexb 0x48 = 0" "bit (0x48 :: u8) 3" by code_simp+
  then show "x_reg m = 5 \<Longrightarrow> does ([0x48, 0x81, m] @ le_bytes 4 w) (sub_eff r (sext32 w))"
    and "x_reg m = 0 \<Longrightarrow> does ([0x48, 0x81, m] @ le_bytes 4 w) (add_eff r (sext32 w))"
    using assms
    by (auto simp: does_def code_at_Cons x64_step_def x64_op_def Let_def modrm_operand_def read_loc_def write_loc_def eff_defs
        add.assoc dest: code_at_word)
qed

lemma does_sub_rsp: "does (arith_bytes 5 rsp 8) (sub_eff 4 8)" "does (arith_bytes 5 rsp 128) (sub_eff 4 128)"
    "does (arith_bytes 5 rsp 16) (sub_eff 4 16)"
  and does_add_rsp: "does (arith_bytes 0 rsp 8) (add_eff 4 8)" "does (arith_bytes 0 rsp 16) (add_eff 4 16)"
  and does_add_rax: "does (arith_bytes 0 rax 152) (add_eff 0 152)"
proof -
  have b: "arith_bytes 5 rsp 8 = [0x48, 0x81, 0xEC] @ le_bytes 4 (8 :: u32)" "arith_bytes 5 rsp 128 = [0x48, 0x81, 0xEC] @ le_bytes 4 (128 :: u32)"
    "arith_bytes 5 rsp 16 = [0x48, 0x81, 0xEC] @ le_bytes 4 (16 :: u32)"
    "arith_bytes 0 rsp 8 = [0x48, 0x81, 0xC4] @ le_bytes 4 (8 :: u32)" "arith_bytes 0 rsp 16 = [0x48, 0x81, 0xC4] @ le_bytes 4 (16 :: u32)"
    "arith_bytes 0 rax 152 = [0x48, 0x81, 0xC0] @ le_bytes 4 (152 :: u32)"
    by code_simp+
  have m: "x_mod 0xEC = 3" "x_mod 0xC4 = 3" "x_mod 0xC0 = 3" "unat (x_rm 0xEC) = 4" "unat (x_rm 0xC4) = 4" "unat (x_rm 0xC0) = 0"
    "x_reg 0xEC = 5" "x_reg 0xC4 = 0" "x_reg 0xC0 = 0" by code_simp+
  have x: "sext32 8 = 8" "sext32 16 = 16" "sext32 128 = 128" "sext32 152 = 152" by (simp_all add: sext32_def)
  note sub = does_arith(1) [OF m(1,4,7)] and add = does_arith(2) [OF m(2,5,8)] does_arith(2) [OF m(3,6,9)]
  show "does (arith_bytes 5 rsp 8) (sub_eff 4 8)" "does (arith_bytes 5 rsp 128) (sub_eff 4 128)" "does (arith_bytes 5 rsp 16) (sub_eff 4 16)"
    "does (arith_bytes 0 rsp 8) (add_eff 4 8)" "does (arith_bytes 0 rsp 16) (add_eff 4 16)" "does (arith_bytes 0 rax 152) (add_eff 0 152)"
    unfolding b using sub [of 8] sub [of 128] sub [of 16] add(1) [of 8] add(1) [of 16] add(2) [of 152] by (simp_all only: x)
qed

text \<open>Moves to and from the stack frame: a SIB byte \<^verbatim>\<open>24\<close> and an 8-bit, 32-bit or no displacement.\<close>

lemma x64_step_rex:
  "memx s (RIP s) = rex \<Longrightarrow> 0x40 \<le> unat rex \<Longrightarrow> unat rex < 0x50 \<Longrightarrow> x64_step s = x64_op rex (RIP s + 1) s"
  by (simp add: x64_step_def)

lemma rex_bits: "rexr 0x48 = 0" "rexr 0x4C = 8" "rexb 0x48 = 0" "rexb 0x4C = 0" "rexb 0x4D = 8" "rexx 0x48 = 0" "rexx 0x4C = 0"
    "bit (0x48 :: u8) 3" "bit (0x4C :: u8) 3" "x_rm 0x24 = 4" "x_reg 0x24 = 4" "x_mod 0x24 = 0"
  by code_simp+

lemma does_store:
  assumes "x_rm m = 4" "rex = 0x48 \<or> rex = 0x4C" "rexr rex + unat (x_reg m) = r"
  shows "x_mod m = 0 \<Longrightarrow> does [rex, 0x89, m, 0x24] (store_eff 0 r)"
    and "x_mod m = 1 \<Longrightarrow> does [rex, 0x89, m, 0x24, d] (store_eff (sext8 d) r)"
proof -
  have x: "rexb rex = 0" "rexx rex = 0" "bit rex 3" "0x40 \<le> unat rex" "unat rex < 0x50" using assms(2) by (auto simp: rex_bits)
  show "does [rex, 0x89, m, 0x24] (store_eff 0 r)" if "x_mod m = 0"
  proof (rule doesI)
    fix s :: x64_state assume "code_at (memx s) (RIP s) [rex, 0x89, m, 0x24]"
    then show "x64_step s = Some (goto (RIP s + of_nat (length [rex, 0x89, m, 0x24])) (store_eff 0 r s))"
      using that assms(1,3) x
      by (simp add: code_at_Cons x64_step_rex x64_op_def Let_def modrm_operand_def sib_address_def rex_bits write_loc_def eff_defs add.assoc)
  qed (simp add: eff_defs)
  show "does [rex, 0x89, m, 0x24, d] (store_eff (sext8 d) r)" if "x_mod m = 1"
  proof (rule doesI)
    fix s :: x64_state assume "code_at (memx s) (RIP s) [rex, 0x89, m, 0x24, d]"
    then show "x64_step s = Some (goto (RIP s + of_nat (length [rex, 0x89, m, 0x24, d])) (store_eff (sext8 d) r s))"
      using that assms(1,3) x
      by (simp add: code_at_Cons x64_step_rex x64_op_def Let_def modrm_operand_def sib_address_def rex_bits write_loc_def eff_defs add.assoc)
  qed (simp add: eff_defs)
qed

lemma does_pop:
  assumes "rex = 0x48 \<or> rex = 0x4D" "0x58 \<le> unat b" "unat b < 0x60" "rexb rex + (unat b - 0x58) = r"
  shows "does [rex, b] (pop_eff r)"
proof (rule doesI)
  have x: "0x40 \<le> unat rex" "unat rex < 0x50" "b \<noteq> 0x90" "rexb rex + unat b - 0x58 = r" using assms by auto
  fix s :: x64_state assume "code_at (memx s) (RIP s) [rex, b]"
  then show "x64_step s = Some (goto (RIP s + of_nat (length [rex, b])) (pop_eff r s))"
    using assms(2,3) x
    by (simp add: code_at_Cons x64_step_rex x64_op_def Let_def write_loc_def eff_defs drop_top_def top_of_stack_def add.assoc)
qed (simp add: eff_defs)

text \<open>The number of the register that slot \<open>k\<close> of the context holds.\<close>

definition ctx_reg :: "nat \<Rightarrow> nat" where
  "ctx_reg k = code_x64 (context_registers_x64 ! k)"

definition store_matches :: "nat \<Rightarrow> bool" where
  "store_matches k \<longleftrightarrow> (let bs = frame_store k; rex = bs ! 0; m = bs ! 2
     in (rex = 0x48 \<or> rex = 0x4C) \<and> x_rm m = 4 \<and> rexr rex + unat (x_reg m) = ctx_reg k
       \<and> (if k = 0 then x_mod m = 0 \<and> bs = [rex, 0x89, m, 0x24]
          else x_mod m = 1 \<and> bs = [rex, 0x89, m, 0x24, bs ! 4] \<and> sext8 (bs ! 4) = 8 * of_nat k))"

definition pop_matches :: "nat \<Rightarrow> bool" where
  "pop_matches k \<longleftrightarrow> (let bs = frame_pop k; rex = bs ! 0; b = bs ! 1
     in (rex = 0x48 \<or> rex = 0x4D) \<and> 0x58 \<le> unat b \<and> unat b < 0x60 \<and> rexb rex + (unat b - 0x58) = ctx_reg k \<and> bs = [rex, b])"

lemma all_match: "list_all store_matches [0..<16]" "list_all pop_matches [0..<16]"
  by code_simp+

lemma does_frame_store:
  assumes "k < 16"
  shows "does (frame_store k) (store_eff (8 * of_nat k) (ctx_reg k))"
proof -
  have m: "store_matches k" using all_match(1) assms by (auto simp: list_all_iff)
  show ?thesis
  proof (cases "k = 0")
    case True
    then show ?thesis using m does_store(1) [of "frame_store k ! 2" "frame_store k ! 0" "ctx_reg k"]
      by (simp add: store_matches_def Let_def)
  next
    case False
    then show ?thesis using m does_store(2) [of "frame_store k ! 2" "frame_store k ! 0" "ctx_reg k" "frame_store k ! 4"]
      by (simp add: store_matches_def Let_def)
  qed
qed

lemma does_frame_pop: "k < 16 \<Longrightarrow> does (frame_pop k) (pop_eff (ctx_reg k))"
proof -
  assume "k < 16"
  then have "pop_matches k" using all_match(2) by (auto simp: list_all_iff)
  then have m: "frame_pop k ! 0 = 0x48 \<or> frame_pop k ! 0 = 0x4D" "0x58 \<le> unat (frame_pop k ! 1)" "unat (frame_pop k ! 1) < 0x60"
    "rexb (frame_pop k ! 0) + (unat (frame_pop k ! 1) - 0x58) = ctx_reg k" "frame_pop k = [frame_pop k ! 0, frame_pop k ! 1]"
    unfolding pop_matches_def Let_def by blast+
  show ?thesis by (subst m(5)) (rule does_pop [OF m(1-4)])
qed

lemma does_args:
  "does [0x48, 0x8B, 0xC4] (move_eff 0 4)" "does [0x48, 0x8B, 0xFC] (move_eff 7 4)" "does [0x48, 0x89, 0xE0] (move_eff 0 4)"
  "does [0x48, 0x89, 0x44, 0x24, 0x08] (store_eff 8 0)" "does [0x48, 0x8B, 0xB4, 0x24, 0xA0, 0, 0, 0] (load_eff 6 160)"
proof -
  have m: "x_mod 0xC4 = 3" "x_rm 0xC4 = 4" "x_reg 0xC4 = 0" "x_mod 0xFC = 3" "x_rm 0xFC = 4" "x_reg 0xFC = 7"
    "x_mod 0xE0 = 3" "x_rm 0xE0 = 0" "x_reg 0xE0 = 4" "x_mod 0x44 = 1" "x_rm 0x44 = 4" "x_reg 0x44 = 0" "x_mod 0xB4 = 2" "x_rm 0xB4 = 4" "x_reg 0xB4 = 6"
    "sext8 8 = 8" "sext32 0xA0 = 160" by code_simp+
  have d: "[0xA0, 0, 0, 0] = le_bytes 4 (0xA0 :: u32)" by code_simp
  have ld: "ld32 (memx s) (RIP s + 4) = 0xA0" if "code_at (memx s) (RIP s) [0x48, 0x8B, 0xB4, 0x24, 0xA0, 0, 0, 0]" for s
    using that code_at_word [of "memx s" "RIP s + 4" "0xA0"] by (simp add: code_at_Cons d [symmetric] add.assoc)
  show "does [0x48, 0x8B, 0xC4] (move_eff 0 4)" "does [0x48, 0x8B, 0xFC] (move_eff 7 4)" "does [0x48, 0x89, 0xE0] (move_eff 0 4)"
    by (auto simp: does_def code_at_Cons x64_step_def x64_op_def Let_def modrm_operand_def rex_bits m read_loc_def write_loc_def eff_defs add.assoc)
  show "does [0x48, 0x89, 0x44, 0x24, 0x08] (store_eff 8 0)"
    using does_store(2) [of "0x44" "0x48" 0 8] by (simp add: m rex_bits)
  show "does [0x48, 0x8B, 0xB4, 0x24, 0xA0, 0, 0, 0] (load_eff 6 160)"
  proof (rule doesI)
    fix s :: x64_state assume c: "code_at (memx s) (RIP s) [0x48, 0x8B, 0xB4, 0x24, 0xA0, 0, 0, 0]"
    then show "x64_step s = Some (goto (RIP s + of_nat (length [0x48 :: u8, 0x8B, 0xB4, 0x24, 0xA0, 0, 0, 0])) (load_eff 6 160 s))"
      using ld [OF c]
      by (simp add: code_at_Cons x64_step_def x64_op_def Let_def modrm_operand_def sib_address_def rex_bits m read_loc_def
          write_loc_def eff_defs add.assoc)
  qed (simp add: eff_defs)
qed

section \<open>The stack frame\<close>

text \<open>
  The frame of the bridge, in slots of eight bytes from \<open>G\<close> on: four slots below the context for the calls, the
  context (slot 5 holds the stack pointer of the function, slots 6 to 21 the registers), an empty slot, the
  flags (slot 23) and the word the closure trampoline pushed (slot 24).
\<close>

definition slot :: "u64 \<Rightarrow> nat \<Rightarrow> u64" where
  "slot G j = G + 8 * of_nat j"

lemma unat_small_diff:
  assumes "j < i" "i < 1000"
  shows "unat (of_nat i - of_nat j :: u64) = i - j" "unat (of_nat j - of_nat i :: u64) = 2 ^ 64 - (i - j)"
proof -
  have d: "of_nat i - of_nat j = (of_nat (i - j) :: u64)" using assms by (simp add: of_nat_diff)
  show e: "unat (of_nat i - of_nat j :: u64) = i - j" unfolding d by (rule unat_of_nat_small) (use assms in simp)
  have d': "of_nat j - of_nat i = (of_nat (2 ^ 64 - (i - j)) :: u64)" using assms by (simp add: of_nat_diff)
  show "unat (of_nat j - of_nat i :: u64) = 2 ^ 64 - (i - j)" unfolding d' by (rule unat_of_nat_small) (use assms in simp)
qed

lemma ld64_st64_other:
  assumes "8 \<le> unat (a - b)" "unat (a - b) \<le> 2 ^ 64 - 8"
  shows "ld64 (st64 b v m) a = ld64 m a"
proof -
  have "8 \<le> unat (a + of_nat i - b)" if "i < 8" for i
  proof -
    have e: "a + of_nat i - b = (a - b) + of_nat i" by simp
    have "unat (a - b) + i < 2 ^ 64" using assms(2) that by simp
    then show ?thesis unfolding e using unat_add_small [of "a - b" i] assms(1) by linarith
  qed
  then have "ld_bytes 8 (st64 b v m) a = ld_bytes 8 m a" by (simp add: ld_bytes_def st64_def leD)
  then show ?thesis by (simp add: ld64_def)
qed

lemma ld64_slot:
  assumes "i < 100" "j < 100"
  shows "ld64 (st64 (slot G i) v m) (slot G j) = (if i = j then v else ld64 m (slot G j))"
proof (cases "i = j")
  case False
  have d: "slot G j - slot G i = of_nat (8 * j) - of_nat (8 * i)" by (simp add: slot_def)
  have "8 \<le> unat (slot G j - slot G i) \<and> unat (slot G j - slot G i) \<le> 2 ^ 64 - 8"
  proof (cases "i < j")
    case True
    then have "unat (of_nat (8 * j) - of_nat (8 * i) :: u64) = 8 * j - 8 * i" using assms by (intro unat_small_diff) simp_all
    then show ?thesis unfolding d using True assms by (simp only:) auto
  next
    case False
    then have "unat (of_nat (8 * j) - of_nat (8 * i) :: u64) = 2 ^ 64 - (8 * i - 8 * j)"
      using assms \<open>i \<noteq> j\<close> by (intro unat_small_diff) simp_all
    then show ?thesis unfolding d using False \<open>i \<noteq> j\<close> assms by (simp only:) auto
  qed
  then show ?thesis using False ld64_st64_other by simp
qed simp

text \<open>The code of the bridge lies outside the frame.\<close>

definition clear :: "u64 \<Rightarrow> nat \<Rightarrow> u64 \<Rightarrow> bool" where
  "clear B n G \<longleftrightarrow> (\<forall>i < n. 200 \<le> unat (B + of_nat i - G))"

lemma clear_store:
  assumes "clear B (length bs) G" "code_at m B bs" "j < 25"
  shows "code_at (st64 (slot G j) v m) B bs"
proof (rule code_at_st64 [OF assms(2)], intro allI impI)
  fix i assume "i < length bs"
  then have c: "200 \<le> unat (B + of_nat i - G)" using assms(1) by (simp add: clear_def)
  have "unat (of_nat (8 * j) :: u64) = 8 * j" using assms(3) by (intro unat_of_nat_small) simp
  then have "of_nat (8 * j) \<le> B + of_nat i - G" using c assms(3) by (simp add: word_le_nat_alt)
  then have "unat (B + of_nat i - G - of_nat (8 * j)) = unat (B + of_nat i - G) - 8 * j"
    using \<open>unat (of_nat (8 * j) :: u64) = 8 * j\<close> by (simp add: unat_sub)
  moreover have e: "B + of_nat i - slot G j = B + of_nat i - G - of_nat (8 * j)" by (simp add: slot_def)
  ultimately show "8 \<le> unat (B + of_nat i - slot G j)" unfolding e using c assms(3) by linarith
qed

section \<open>Saving the registers\<close>

abbreviation stores :: "nat list \<Rightarrow> (x64_state \<Rightarrow> x64_state) list" where
  "stores \<equiv> map (\<lambda>k. store_eff (8 * of_nat k) (ctx_reg k))"

definition stored :: "u64 \<Rightarrow> (nat \<Rightarrow> u64) \<Rightarrow> nat list \<Rightarrow> (u64 \<Rightarrow> u8) \<Rightarrow> u64 \<Rightarrow> u8" where
  "stored G f = fold (\<lambda>k. st64 (slot G (6 + k)) (f k))"

lemma slot_add: "slot G i + 8 * of_nat k = slot G (i + k)" "slot G i - 8 = slot (G - 8) i"
  by (simp_all add: slot_def algebra_simps)

lemma fold_stores:
  "GPR s 4 = slot G 6 \<Longrightarrow> fold id (stores ks) s = s\<lparr>memx := stored G (\<lambda>k. GPR s (ctx_reg k)) ks (memx s)\<rparr>"
  by (induction ks arbitrary: s) (simp_all add: stored_def store_eff_def slot_add)

lemma throughout_stores:
  assumes "\<And>m v j. P m \<Longrightarrow> j < 25 \<Longrightarrow> P (st64 (slot G j) v m)"
  shows "GPR s 4 = slot G 6 \<Longrightarrow> set ks \<subseteq> {..<16} \<Longrightarrow> P (memx s) \<Longrightarrow> throughout P (stores ks) s"
  by (induction ks arbitrary: s) (simp_all add: store_eff_def slot_add assms)

lemma ld64_stored:
  "set ks \<subseteq> {..<16} \<Longrightarrow> j < 50 \<Longrightarrow>
   ld64 (stored G f ks m) (slot G j) = (if 6 \<le> j \<and> j - 6 \<in> set ks then f (j - 6) else ld64 m (slot G j))"
  by (induction ks arbitrary: m) (auto simp: stored_def ld64_slot)

lemma throughout_append:
  "throughout P (es @ fs) s \<longleftrightarrow> throughout P es s \<and> throughout P fs (fold id es s)"
  by (induction es arbitrary: s) (auto, (cases fs; simp)+)

lemma slot_down: "slot G (Suc j) - 8 = slot G j" "slot G 24 - 8 = slot G 23"
  by (simp_all add: slot_def algebra_simps)

text \<open>What the frame holds: \<open>w\<close> is the word on top of the stack at the start.\<close>

definition frame_holds :: "u64 \<Rightarrow> x64_state \<Rightarrow> u64 \<Rightarrow> (u64 \<Rightarrow> u8) \<Rightarrow> bool" where
  "frame_holds G s w m \<longleftrightarrow> ld64 m (slot G 5) = slot G 25 \<and> (\<forall>k < 16. k \<noteq> 5 \<longrightarrow> ld64 m (slot G (6 + k)) = GPR s (ctx_reg k))
     \<and> ld64 m (slot G 23) = RFLAGS s \<and> ld64 m (slot G 24) = w"

lemma frame_holds_below: "frame_holds G s w m \<Longrightarrow> j < 5 \<Longrightarrow> frame_holds G s w (st64 (slot G j) v m)"
  by (simp add: frame_holds_def ld64_slot)

definition enter_effs :: "(x64_state \<Rightarrow> x64_state) list" where
  "enter_effs = [\<lambda>s. push_val (RFLAGS s) s, sub_eff 4 8, sub_eff 4 128] @ stores [0..<16]
     @ [move_eff 0 4, add_eff 0 152, sub_eff 4 16, store_eff 8 0, move_eff 7 4, load_eff 6 160]"

lemma enter_does: "list_all2 does (save_code @ args_code) enter_effs"
proof -
  have "list_all2 does (map frame_store [0..<16]) (stores [0..<16])"
    by (auto simp: list_all2_conv_all_nth does_frame_store)
  then show ?thesis unfolding save_code_def args_code_def enter_effs_def append_assoc
    by (intro list_all2_appendI) (simp_all add: does_pushf does_sub_rsp does_args does_add_rax)
qed

lemma ctx_reg_4: "ctx_reg k = 4 \<longleftrightarrow> k = 5" if "k < 16"
proof -
  have "list_all (\<lambda>k. ctx_reg k = 4 \<longleftrightarrow> k = 5) [0..<16]" by code_simp
  then show ?thesis using that by (auto simp: list_all_iff)
qed

lemma enter_frame:
  assumes "GPR s 4 = slot G 24" "P (memx s)" "\<And>m v j. P m \<Longrightarrow> j < 25 \<Longrightarrow> P (st64 (slot G j) v m)"
  shows "throughout P enter_effs s"
    and "GPR (fold id enter_effs s) 4 = slot G 4" "GPR (fold id enter_effs s) 7 = slot G 4"
    and "GPR (fold id enter_effs s) 6 = ld64 (memx s) (slot G 24)"
    and "frame_holds G s (ld64 (memx s) (slot G 24)) (memx (fold id enter_effs s))" "P (memx (fold id enter_effs s))"
proof -
  let ?head = "[\<lambda>s. push_val (RFLAGS s) s, sub_eff 4 8, sub_eff 4 128]"
  let ?s1 = "fold id ?head s"
  let ?f = "\<lambda>k. GPR ?s1 (ctx_reg k)"
  let ?m1 = "st64 (slot G 23) (RFLAGS s) (memx s)"
  let ?m2 = "stored G ?f [0..<16] ?m1"
  let ?s2 = "?s1\<lparr>memx := ?m2\<rparr>"
  have a: "slot G 24 - 8 = slot G 23" "slot G 23 - 8 = slot G 22" "slot G 22 - 128 = slot G 6" "slot G 6 - 16 = slot G 4"
    "slot G 4 + 8 = slot G 5" "slot G 4 + 160 = slot G 24" "slot G 6 + 152 = slot G 25" by (simp_all add: slot_def)
  have 1: "GPR ?s1 4 = slot G 6" "memx ?s1 = ?m1" "\<And>r. r \<noteq> 4 \<Longrightarrow> GPR ?s1 r = GPR s r"
    by (simp_all add: assms(1) sub_eff_def push_val_def a)
  have 2: "fold id (stores [0..<16]) ?s1 = ?s2" using fold_stores [OF 1(1)] 1(2) by simp
  let ?es = "[move_eff 0 4, add_eff 0 152, sub_eff 4 16, store_eff 8 0, move_eff 7 4, load_eff 6 160]"
  have e: "fold id enter_effs s = fold id ?es ?s2" by (simp only: enter_effs_def fold_append comp_apply 2)
  let ?m3 = "st64 (slot G 5) (slot G 25) ?m2"
  have 3: "GPR ?s2 4 = slot G 6" "memx ?s2 = ?m2" using 1 by simp_all
  have f: "GPR (fold id ?es ?s2) 4 = slot G 4" "GPR (fold id ?es ?s2) 7 = slot G 4" "GPR (fold id ?es ?s2) 6 = ld64 ?m3 (slot G 24)"
    "memx (fold id ?es ?s2) = ?m3"
    using 3 by (simp_all add: move_eff_def add_eff_def sub_eff_def store_eff_def load_eff_def a)
  have q: "set [0..<16] \<subseteq> {..<16 :: nat}" by auto
  have l: "ld64 ?m3 (slot G j) = (if j = 5 then slot G 25 else if 6 \<le> j \<and> j < 22 then ?f (j - 6)
      else if j = 23 then RFLAGS s else ld64 (memx s) (slot G j))" if "j < 50" for j
    using that by (auto simp: ld64_slot ld64_stored [OF q])
  show "GPR (fold id enter_effs s) 4 = slot G 4" "GPR (fold id enter_effs s) 7 = slot G 4" "GPR (fold id enter_effs s) 6 = ld64 (memx s) (slot G 24)"
    unfolding e using f l [of 24] by simp_all
  show "frame_holds G s (ld64 (memx s) (slot G 24)) (memx (fold id enter_effs s))"
    unfolding e f(4) frame_holds_def using l 1(3) ctx_reg_4 by simp
  have P1: "P ?m1" using assms(2,3) by simp
  have t1: "throughout P ?head s" using assms(1-3) P1 by (simp add: sub_eff_def push_val_def a)
  have t2: "throughout P (stores [0..<16]) ?s1" using throughout_stores [of P G ?s1 "[0..<16]", OF assms(3) 1(1)] q P1 1(2) by simp
  have P2: "P ?m2" using t2 throughout_append [of P "stores [0..<16]" "[]" ?s1] 2 by simp
  have t: "throughout P ?es x" if "GPR x 4 = slot G 6" "P (memx x)" for x
    using assms(3) that by (simp add: move_eff_def add_eff_def sub_eff_def store_eff_def load_eff_def a)
  have "P (memx ?s2)" unfolding 3(2) by (rule P2)
  from t [OF 3(1) this] have t3: "throughout P ?es ?s2" .
  show t: "throughout P enter_effs s" unfolding enter_effs_def throughout_append 2 using t1 t2 t3 by simp
  show "P (memx (fold id enter_effs s))" using t throughout_append [of P enter_effs "[]" s] by simp
qed

section \<open>The call of the handler\<close>

lemma unat_take_bit_zero: "take_bit n (x :: u64) = 0 \<longleftrightarrow> unat x mod 2 ^ n = 0"
proof -
  have "take_bit n x = 0 \<longleftrightarrow> unat (take_bit n x) = 0" by (simp add: unat_eq_zero)
  also have "unat (take_bit n x) = unat x mod 2 ^ n" unfolding unsigned_take_bit_eq by (rule take_bit_eq_mod)
  finally show ?thesis .
qed

definition and_eff :: "u64 \<Rightarrow> x64_state \<Rightarrow> x64_state" where
  "and_eff v s = s\<lparr>GPR := (GPR s)(0 := GPR s 0 AND v), RFLAGS := arith_flags (GPR s 0 AND v) False (RFLAGS s)\<rparr>"

definition cmp_eff :: "x64_state \<Rightarrow> x64_state" where
  "cmp_eff s = s\<lparr>RFLAGS := arith_flags (GPR s 0) False (RFLAGS s)\<rparr>"

lemma does_test: "does [0x48, 0x83, 0xE0, 0x0F] (and_eff 15)" "does [0x48, 0x83, 0xF8, 0] cmp_eff"
proof -
  have m: "x_mod 0xE0 = 3" "x_rm 0xE0 = 0" "x_reg 0xE0 = 4" "x_mod 0xF8 = 3" "x_rm 0xF8 = 0" "x_reg 0xF8 = 7" "sext8 15 = 15" "sext8 0 = 0"
    by code_simp+
  show "does [0x48, 0x83, 0xE0, 0x0F] (and_eff 15)" "does [0x48, 0x83, 0xF8, 0] cmp_eff"
    by (auto simp: does_def code_at_Cons x64_step_def x64_op_def Let_def modrm_operand_def rex_bits m read_loc_def write_loc_def
        and_eff_def cmp_eff_def eff_defs add.assoc)
qed

lemma arith_flags_zero: "bit (arith_flags v c f) 6 \<longleftrightarrow> v = 0"
proof -
  have "bit (0xC5 :: u64) 6" "bit (0x40 :: u64) 6" "\<not> bit (0x80 :: u64) 6" "\<not> bit (4 :: u64) 6" "\<not> bit (1 :: u64) 6" by simp_all
  then show ?thesis by (simp add: arith_flags_def bit_or_iff bit_and_iff bit_not_iff)
qed

lemma step_jnz:
  assumes "code_at (memx s) (RIP s) [0x75, 0x15]"
  shows "x64_step s = Some (goto (if bit (RFLAGS s) 6 then RIP s + 2 else RIP s + 23) s)"
proof -
  have "sext8 0x15 = 21" by code_simp
  then show ?thesis using assms by (simp add: code_at_Cons x64_step_def x64_op_def Let_def x64_cond_def add.assoc)
qed

lemma bridge_code_at:
  assumes "code_at m B (bridge_bytes h)"
  shows "code_at m (B + 138) [0x75, 0x15]" "code_at m (B + 140) (call_code 86)" "code_at m (B + 156) (0xE9 # le_bytes 4 (18 :: u32))"
    "code_at m (B + 161) [0x50]" "code_at m (B + 162) (call_code 72)" "code_at m (B + 178) [0x58]" "code_at m (B + 179) (concat restore_code)"
    "ld64 m (B + 232) = h" "ld64 m (B + 240) = h" "code_at m (B + 155) [0x90]" "code_at m (B + 177) [0x90]"
proof -
  have z: "le_bytes 4 (18 :: u32) = [0x12, 0, 0, 0]" by code_simp
  have t: "pre_code = (concat save_code @ concat args_code @ take 11 test_code) @ [0x75, 0x15]"
    "length (concat save_code @ concat args_code @ take 11 test_code) = 138"
    by (simp add: pre_code_def test_code_def, code_simp)
  have c: "code_at m B pre_code" "code_at m (B + 140) (call_code 86)" "code_at m (B + 156) (0xE9 # le_bytes 4 (18 :: u32))"
    "code_at m (B + 161) [0x50]" "code_at m (B + 162) (call_code 72)" "code_at m (B + 178) [0x58]" "code_at m (B + 179) (concat restore_code)"
    "code_at m (B + 232) (le_bytes 8 h)" "code_at m (B + 240) (le_bytes 8 h)"
    using assms unfolding bridge_bytes_def by (simp_all add: code_at_append code_at_Cons z add.assoc)
  then show "code_at m (B + 140) (call_code 86)" "code_at m (B + 156) (0xE9 # le_bytes 4 (18 :: u32))"
    "code_at m (B + 161) [0x50]" "code_at m (B + 162) (call_code 72)" "code_at m (B + 178) [0x58]" "code_at m (B + 179) (concat restore_code)"
    "ld64 m (B + 232) = h" "ld64 m (B + 240) = h"
    by (simp_all add: code_at_dword)
  show "code_at m (B + 138) [0x75, 0x15]" using c(1) unfolding t(1) code_at_append t(2) by simp
  show "code_at m (B + 155) [0x90]" "code_at m (B + 177) [0x90]"
    using c(2,5) by (simp_all add: call_code_def code_at_append code_at_Cons add.assoc)
qed

text \<open>One of the two calls of the handler, from a state with the code in memory.\<close>

lemma call_runs:
  assumes "code_at (memx s) B (bridge_bytes h)" "clear B (length (bridge_bytes h)) G" "GPR s 4 = slot G (Suc j)" "j < 24"
    and "RIP s = B + 140 \<or> RIP s = B + 162"
  shows "\<exists>t. runs s t \<and> RIP t = h \<and> GPR t 4 = slot G j \<and> top_of_stack t = RIP s + 15 \<and> (\<forall>r. r \<noteq> 4 \<longrightarrow> r \<noteq> 11 \<longrightarrow> GPR t r = GPR s r)
    \<and> (\<exists>v v'. memx t = st64 (slot G j) v (st64 (slot G j) v' (memx s)))"
proof -
  let ?m = "st64 (slot G j) (RIP s + 6) (memx s)"
  have sp: "GPR s 4 - 8 = slot G j" by (simp add: assms(3) slot_down)
  have m: "code_at ?m B (bridge_bytes h)" using clear_store [OF assms(2,1)] assms(4) by simp
  have d: "sext32 86 = 86" "sext32 72 = 72" by (simp_all add: sext32_def)
  note c = bridge_code_at [OF assms(1)] and c' = bridge_code_at [OF m]
  let ?t = "goto h (push_val (RIP s + 15) (s\<lparr>GPR := (GPR s)(11 := RIP s + 6), memx := ?m\<rparr>))"
  have "x64_run 4 s = Some ?t"
    using assms(5)
  proof
    assume r: "RIP s = B + 140"
    show ?thesis using call_code_calls [of s 86 h] c(2) c'(2,8) r sp by (simp add: d add.assoc del: x64_run.simps)
  next
    assume r: "RIP s = B + 162"
    show ?thesis using call_code_calls [of s 72 h] c(5) c'(5,9) r sp by (simp add: d add.assoc del: x64_run.simps)
  qed
  then have "runs s ?t" unfolding runs_def by blast
  moreover have "top_of_stack ?t = RIP s + 15" by (simp add: top_of_stack_def push_val_def)
  moreover have "\<exists>v v'. memx ?t = st64 (slot G j) v (st64 (slot G j) v' (memx s))" using sp by (simp add: push_val_def) blast
  ultimately show ?thesis using sp by (intro exI [of _ ?t]) (simp add: push_val_def)
qed

text \<open>An address that is a multiple of 8 is a multiple of 16 or is 8 behind one.\<close>

lemma align16:
  fixes x :: u64
  assumes "x AND 7 = 0" "x AND 15 \<noteq> 0"
  shows "(x - 8) AND 15 = 0"
proof -
  have m: "x AND 7 = take_bit 3 x" "x AND 15 = take_bit 4 x" "(x - 8) AND 15 = take_bit 4 (x - 8)"
    by (simp_all add: take_bit_eq_mask mask_eq_exp_minus_1)
  have a: "unat x mod 8 = 0" "unat x mod 16 \<noteq> 0"
    using assms unfolding m by (simp_all add: unat_take_bit_zero)
  then have b: "8 \<le> unat x" "(unat x - 8) mod 16 = 0" by presburger+
  have "unat (x - 8) = unat x - 8" by (rule unat_sub [THEN trans]) (use b(1) in \<open>simp_all add: word_le_nat_alt\<close>)
  then show ?thesis unfolding m using b(2) by (simp add: unat_take_bit_zero)
qed

lemma bridge_enters:
  assumes "code_at (memx s) B (bridge_bytes h)" "clear B (length (bridge_bytes h)) G" "RIP s = B" "GPR s 4 = slot G 24"
  shows "\<exists>t. runs s t \<and> RIP t = h \<and> GPR t 7 = slot G 4 \<and> GPR t 6 = ld64 (memx s) (slot G 24)
    \<and> frame_holds G s (ld64 (memx s) (slot G 24)) (memx t)
    \<and> (top_of_stack t = B + 155 \<and> GPR t 4 = slot G 3 \<or> top_of_stack t = B + 177 \<and> GPR t 4 = slot G 2)
    \<and> (slot G 4 AND 7 = 0 \<longrightarrow> (GPR t 4 + 8) AND 15 = 0)"
proof -
  let ?P = "\<lambda>m. code_at m B (bridge_bytes h)" and ?w = "ld64 (memx s) (slot G 24)"
  have P: "\<And>m v j. ?P m \<Longrightarrow> j < 25 \<Longrightarrow> ?P (st64 (slot G j) v m)" using clear_store [OF assms(2)] by simp
  note f = enter_frame [of s G ?P, OF assms(4,1) P]
  let ?tests = "[move_eff 0 4, and_eff 15, cmp_eff]"
  let ?s1 = "fold id enter_effs s"
  let ?s2 = "fold id ?tests ?s1"
  let ?code = "save_code @ args_code @ [[0x48, 0x89, 0xE0], [0x48, 0x83, 0xE0, 0x0F], [0x48, 0x83, 0xF8, 0]]"
  have d: "list_all2 does ?code (enter_effs @ ?tests)"
    unfolding append_assoc [symmetric] by (intro list_all2_appendI enter_does) (simp add: does_test does_args)
  have "throughout ?P (enter_effs @ ?tests) s" unfolding throughout_append using f(1,6) by (simp add: move_eff_def and_eff_def cmp_eff_def)
  moreover have "pre_code = concat ?code @ [0x75, 0x15]" by (simp add: pre_code_def test_code_def)
  then have "bridge_bytes h = [] @ concat ?code @ [0x75, 0x15] @ drop 140 (bridge_bytes h)"
    using length_blocks(1) by (simp add: bridge_bytes_def)
  moreover have e: "length (concat ?code) = 138" by code_simp
  ultimately have "runs (goto B s) (goto (B + 138) ?s2)"
    using block_runs [OF d, of B "[]" "[0x75, 0x15] @ drop 140 (bridge_bytes h)" s] assms(3) by (simp only: fold_append comp_apply) (simp add: e)
  moreover have "goto B s = s" using goto_RIP [of s] assms(3) by simp
  ultimately have r1: "runs s (goto (B + 138) ?s2)" by (simp only:)
  have 2: "memx ?s2 = memx ?s1" "GPR ?s2 4 = slot G 4" "GPR ?s2 7 = slot G 4" "GPR ?s2 6 = ?w"
    using f by (simp_all add: move_eff_def and_eff_def cmp_eff_def)
  have c2: "?P (memx ?s2)" using 2(1) f(6) by simp
  have z: "bit (RFLAGS ?s2) 6 \<longleftrightarrow> slot G 4 AND 15 = 0"
    using f(2) by (simp add: move_eff_def and_eff_def cmp_eff_def arith_flags_zero)
  have up: "slot G 3 + 8 = slot G 4" "slot G 2 + 8 = slot G 4 - 8" by (simp_all add: slot_def)
  let ?q = "if bit (RFLAGS ?s2) 6 then B + 140 else B + 161"
  have r2: "runs (goto (B + 138) ?s2) (goto ?q ?s2)"
    by (rule runs_step [OF step_jnz]) (use bridge_code_at(1) [OF c2] in \<open>simp_all add: add.assoc\<close>)
  have h2: "frame_holds G s ?w (memx ?s2)" using f(5) 2(1) by simp
  have fin: "frame_holds G s ?w (st64 (slot G j) v (st64 (slot G j) v' m))" if "frame_holds G s ?w m" "j < 5" for j v v' m
    using that by (intro frame_holds_below)
  show ?thesis
  proof (cases "bit (RFLAGS ?s2) 6")
    case True
    obtain t where t: "runs (goto (B + 140) ?s2) t" "RIP t = h" "GPR t 4 = slot G 3" "top_of_stack t = B + 140 + 15"
        "\<forall>r. r \<noteq> 4 \<longrightarrow> r \<noteq> 11 \<longrightarrow> GPR t r = GPR ?s2 r" "\<exists>v v'. memx t = st64 (slot G 3) v (st64 (slot G 3) v' (memx ?s2))"
      using call_runs [of "goto (B + 140) ?s2" B h G 3] c2 assms(2) 2(2) by auto
    have "runs s t" using runs_trans [OF r1 runs_trans [OF r2]] t(1) True by simp
    moreover have "frame_holds G s ?w (memx t)" using t(6) fin [OF h2] by auto
    ultimately show ?thesis using t 2 True z up by (intro exI [of _ t]) (simp add: add.assoc)
  next
    case False
    let ?s3 = "push_val (GPR ?s2 0) (goto (B + 162) ?s2)"
    have 3: "GPR ?s3 4 = slot G 3" "memx ?s3 = st64 (slot G 3) (GPR ?s2 0) (memx ?s2)"
      using 2(2) slot_down(1) [of G 3] by (simp_all add: push_val_def)
    have "x64_step (goto (B + 161) ?s2) = Some ?s3"
      using bridge_code_at(4) [OF c2] by (simp add: code_at_Cons x64_step_def x64_op_def Let_def rexb_def push_val_def goto_def add.assoc)
    then have r3: "runs (goto (B + 161) ?s2) ?s3" by (rule runs_step) simp
    have c3: "?P (memx ?s3)" unfolding 3(2) using P [OF c2] by simp
    obtain t where t: "runs ?s3 t" "RIP t = h" "GPR t 4 = slot G 2" "top_of_stack t = B + 162 + 15"
        "\<forall>r. r \<noteq> 4 \<longrightarrow> r \<noteq> 11 \<longrightarrow> GPR t r = GPR ?s3 r" "\<exists>v v'. memx t = st64 (slot G 2) v (st64 (slot G 2) v' (memx ?s3))"
      using call_runs [of ?s3 B h G 2] c3 assms(2) 3(1) by auto
    have "runs s t" using runs_trans [OF r1 runs_trans [OF r2]] runs_trans [OF r3 t(1)] False by simp
    moreover have "frame_holds G s ?w (memx ?s3)" unfolding 3(2) using h2 by (intro frame_holds_below) simp_all
    then have "frame_holds G s ?w (memx t)" using t(6) fin by auto
    moreover have "slot G 4 AND 7 = 0 \<longrightarrow> (slot G 2 + 8) AND 15 = 0" unfolding up(2) using align16 False z by blast
    ultimately show ?thesis using t 2 by (intro exI [of _ t]) (simp add: add.assoc)
  qed
qed

section \<open>Restoring the registers\<close>

lemma ctx_reg_inj: "j < 16 \<Longrightarrow> k < 16 \<Longrightarrow> ctx_reg j = ctx_reg k \<longleftrightarrow> j = k"
proof -
  have "distinct (map ctx_reg [0..<16])" by code_simp
  then show "j < 16 \<Longrightarrow> k < 16 \<Longrightarrow> ctx_reg j = ctx_reg k \<longleftrightarrow> j = k"
    by (auto simp: distinct_map inj_on_def)
qed

abbreviation pops :: "nat list \<Rightarrow> (x64_state \<Rightarrow> x64_state) list" where
  "pops \<equiv> map (\<lambda>k. pop_eff (ctx_reg k))"

lemma fold_pops:
  assumes "n \<le> 16" "5 < i \<or> n \<le> 5" "GPR s 4 = slot G (6 + i)" "i \<le> n"
  shows "GPR (fold id (pops [i..<n]) s) 4 = slot G (6 + n) \<and> memx (fold id (pops [i..<n]) s) = memx s
    \<and> (\<forall>k. i \<le> k \<and> k < n \<longrightarrow> GPR (fold id (pops [i..<n]) s) (ctx_reg k) = ld64 (memx s) (slot G (6 + k)))
    \<and> (\<forall>j < 16. j \<noteq> 5 \<longrightarrow> j < i \<or> n \<le> j \<longrightarrow> GPR (fold id (pops [i..<n]) s) (ctx_reg j) = GPR s (ctx_reg j))"
  using assms
proof (induction n)
  case 0
  then show ?case by simp
next
  case (Suc n)
  show ?case
  proof (cases "i = Suc n")
    case True
    then show ?thesis using Suc.prems by auto
  next
    case False
    then have i: "i \<le> n" "n < 16" "n \<noteq> 5" using Suc.prems by auto
    let ?u = "fold id (pops [i..<n]) s"
    have "n \<le> 16" "5 < i \<or> n \<le> 5" using Suc.prems(1,2) by auto
    note ih = Suc.IH [OF this Suc.prems(3) i(1)]
    have IH: "GPR ?u 4 = slot G (6 + n)" "memx ?u = memx s" "\<forall>k. i \<le> k \<and> k < n \<longrightarrow> GPR ?u (ctx_reg k) = ld64 (memx s) (slot G (6 + k))"
      "\<forall>j < 16. j \<noteq> 5 \<longrightarrow> j < i \<or> n \<le> j \<longrightarrow> GPR ?u (ctx_reg j) = GPR s (ctx_reg j)"
      using ih by blast+
    have r: "ctx_reg n \<noteq> 4" using ctx_reg_4 [OF i(2)] i(3) by simp
    have n4: "ctx_reg k \<noteq> 4" "ctx_reg k \<noteq> ctx_reg n" if "k < 16" "k \<noteq> 5" "k \<noteq> n" for k
      using ctx_reg_4 [OF that(1)] ctx_reg_inj [OF that(1) i(2)] that by simp_all
    have s: "slot G (6 + n) + 8 = slot G (6 + Suc n)" by (simp add: slot_def algebra_simps)
    have e: "fold id (pops [i..<Suc n]) s = pop_eff (ctx_reg n) ?u" using i(1) by simp
    show ?thesis unfolding e using IH r n4 s i Suc.prems(2) by (auto simp: pop_eff_def less_Suc_eq simp del: id_apply)
  qed
qed

definition leave_effs :: "(x64_state \<Rightarrow> x64_state) list" where
  "leave_effs = [add_eff 4 16] @ pops [0..<5] @ [add_eff 4 8] @ pops [6..<16] @ [add_eff 4 8, popf_eff]"

lemma leave_does: "list_all2 does (butlast restore_code) leave_effs"
proof -
  have "list_all2 does (map frame_pop [i..<n]) (pops [i..<n])" if "n \<le> 16" for i n
    using that by (auto simp: list_all2_conv_all_nth does_frame_pop)
  moreover have "butlast restore_code = [arith_bytes 0 rsp 16] @ map frame_pop [0..<5] @ [arith_bytes 0 rsp 8] @ map frame_pop [6..<16]
      @ [arith_bytes 0 rsp 8, [0x9D]]" by (simp add: restore_code_def butlast_append)
  ultimately show ?thesis unfolding leave_effs_def
    by (simp only:) (intro list_all2_appendI list_all2_Cons [THEN iffD2] conjI does_add_rsp does_popf list.rel_intros, simp_all add: does_frame_pop)
qed

lemma leave_frame:
  assumes "GPR s 4 = slot G 4"
  shows "GPR (fold id leave_effs s) 4 = slot G 24" "memx (fold id leave_effs s) = memx s" "RFLAGS (fold id leave_effs s) = ld64 (memx s) (slot G 23)"
    "k < 16 \<Longrightarrow> k \<noteq> 5 \<Longrightarrow> GPR (fold id leave_effs s) (ctx_reg k) = ld64 (memx s) (slot G (6 + k))"
proof -
  have a: "slot G 4 + 16 = slot G 6" "slot G 11 + 8 = slot G 12" "slot G 22 + 8 = slot G 23" "slot G 23 + 8 = slot G 24"
    by (simp_all add: slot_def)
  let ?s1 = "add_eff 4 16 s"
  let ?s2 = "fold id (pops [0..<5]) ?s1"
  let ?s3 = "add_eff 4 8 ?s2"
  let ?s4 = "fold id (pops [6..<16]) ?s3"
  have 1: "GPR ?s1 4 = slot G (6 + 0)" "memx ?s1 = memx s" using assms by (simp_all add: add_eff_def a)
  have 2: "GPR ?s2 4 = slot G (6 + 5) \<and> memx ?s2 = memx ?s1 \<and> (\<forall>k. 0 \<le> k \<and> k < 5 \<longrightarrow> GPR ?s2 (ctx_reg k) = ld64 (memx ?s1) (slot G (6 + k)))
      \<and> (\<forall>j < 16. j \<noteq> 5 \<longrightarrow> j < 0 \<or> 5 \<le> j \<longrightarrow> GPR ?s2 (ctx_reg j) = GPR ?s1 (ctx_reg j))"
    by (rule fold_pops [OF _ _ 1(1)]) simp_all
  have 3: "GPR ?s3 4 = slot G (6 + 6)" "memx ?s3 = memx s" using 1(2) 2 by (simp_all add: add_eff_def a)
  have 4: "GPR ?s4 4 = slot G (6 + 16) \<and> memx ?s4 = memx ?s3 \<and> (\<forall>k. 6 \<le> k \<and> k < 16 \<longrightarrow> GPR ?s4 (ctx_reg k) = ld64 (memx ?s3) (slot G (6 + k)))
      \<and> (\<forall>j < 16. j \<noteq> 5 \<longrightarrow> j < 6 \<or> 16 \<le> j \<longrightarrow> GPR ?s4 (ctx_reg j) = GPR ?s3 (ctx_reg j))"
    by (rule fold_pops [OF _ _ 3(1)]) simp_all
  have e: "fold id leave_effs s = popf_eff (add_eff 4 8 ?s4)" by (simp only: leave_effs_def fold_append comp_apply fold.simps id_apply)
  show "GPR (fold id leave_effs s) 4 = slot G 24" "memx (fold id leave_effs s) = memx s" "RFLAGS (fold id leave_effs s) = ld64 (memx s) (slot G 23)"
    unfolding e using 3(2) 4 by (simp_all add: add_eff_def popf_eff_def a)
  show "GPR (fold id leave_effs s) (ctx_reg k) = ld64 (memx s) (slot G (6 + k))" if k: "k < 16" "k \<noteq> 5"
  proof -
    have n: "ctx_reg k \<noteq> 4" using ctx_reg_4 k by simp
    have 5: "GPR (fold id leave_effs s) (ctx_reg k) = GPR ?s4 (ctx_reg k)" unfolding e using n by (simp add: add_eff_def popf_eff_def)
    show ?thesis
    proof (cases "k < 6")
      case True
      then have "GPR ?s4 (ctx_reg k) = GPR ?s3 (ctx_reg k)" using 4 k by blast
      also have "\<dots> = GPR ?s2 (ctx_reg k)" using n by (simp add: add_eff_def)
      also have "\<dots> = ld64 (memx s) (slot G (6 + k))" using 2 True k 1(2) by simp
      finally show ?thesis using 5 by simp
    next
      case False
      then show ?thesis using 5 4 3(2) k by simp
    qed
  qed
qed

lemma bridge_leaves:
  assumes c: "code_at (memx t) B (bridge_bytes h)" and "RIP t = B + 155 \<and> GPR t 4 = slot G 4 \<or> RIP t = B + 177 \<and> GPR t 4 = slot G 3"
  shows "\<exists>u. runs t u \<and> RIP u = ld64 (memx t) (slot G 24) \<and> GPR u 4 = slot G 25 \<and> RFLAGS u = ld64 (memx t) (slot G 23)
    \<and> (\<forall>k < 16. k \<noteq> 5 \<longrightarrow> GPR u (ctx_reg k) = ld64 (memx t) (slot G (6 + k))) \<and> memx u = memx t"
proof -
  note b = bridge_code_at [OF c]
  have "\<exists>s. runs t (goto (B + 179) s) \<and> GPR s 4 = slot G 4 \<and> memx s = memx t"
    using assms(2)
  proof
    assume r: "RIP t = B + 155 \<and> GPR t 4 = slot G 4"
    have "x64_step t = Some (goto (B + 156) t)" using step_nop [of t] b(10) r by (simp add: add.assoc)
    moreover have "sext32 18 = 18" by (simp add: sext32_def)
    then have "x64_step (goto (B + 156) t) = Some (goto (B + 179) t)"
      using step_jmp_rel32 [of "goto (B + 156) t" 18] b(3) by (simp add: add.assoc)
    ultimately have "runs t (goto (B + 179) t)" using runs_step runs_refl by metis
    then show ?thesis using r by blast
  next
    assume r: "RIP t = B + 177 \<and> GPR t 4 = slot G 3"
    have a: "slot G 3 + 8 = slot G 4" by (simp add: slot_def)
    have "x64_step t = Some (goto (B + 178) t)" using step_nop [of t] b(11) r by (simp add: add.assoc)
    moreover have "x64_step (goto (B + 178) t) = Some (goto (B + 179) (pop_eff 0 t))"
      using b(6) by (simp add: code_at_Cons x64_step_def x64_op_def Let_def rexb_def write_loc_def eff_defs drop_top_def top_of_stack_def add.assoc)
    ultimately have "runs t (goto (B + 179) (pop_eff 0 t))" using runs_step runs_refl by metis
    moreover have "GPR (pop_eff 0 t) 4 = slot G 4" "memx (pop_eff 0 t) = memx t" using r a by (simp_all add: pop_eff_def)
    ultimately show ?thesis by blast
  qed
  then obtain s where s: "runs t (goto (B + 179) s)" "GPR s 4 = slot G 4" "memx s = memx t" by blast
  note f = leave_frame [OF s(2)]
  let ?u = "fold id leave_effs s"
  have rc: "concat restore_code = concat (butlast restore_code) @ [0xC3]" by (simp add: restore_code_def butlast_append)
  have len: "length (concat (butlast restore_code)) = 52" by code_simp
  have const: "throughout (\<lambda>m. m = memx s) es x" if "memx x = memx s" "\<forall>e \<in> set es. \<forall>y. memx (e y) = memx y" for es x
    using that by (induction es arbitrary: x) auto
  have "throughout (\<lambda>m. m = memx s) leave_effs s"
    by (rule const) (auto simp: leave_effs_def add_eff_def pop_eff_def popf_eff_def)
  then have "throughout (\<lambda>m. code_at m (B + 179) ([] @ concat (butlast restore_code) @ [0xC3])) leave_effs s"
    by (rule throughout_mono) (use b(7) s(3) rc in simp)
  from block_runs [OF leave_does this]
  have r1: "runs (goto (B + 179) s) (goto (B + 231) ?u)" by (simp add: len add.assoc)
  have "code_at (memx ?u) (B + 231) [0xC3]" using b(7) f(2) s(3) unfolding rc by (simp add: code_at_append len add.assoc)
  then have "x64_step (goto (B + 231) ?u) = Some (goto (top_of_stack ?u) (drop_top ?u))"
    by (simp add: code_at_Cons x64_step_def x64_op_def Let_def goto_def drop_top_def top_of_stack_def)
  then have "runs (goto (B + 231) ?u) (goto (top_of_stack ?u) (drop_top ?u))" by (rule runs_step) simp
  with s(1) r1 have "runs t (goto (top_of_stack ?u) (drop_top ?u))" by (meson runs_trans)
  moreover have "top_of_stack ?u = ld64 (memx t) (slot G 24)" using f(1,2) s(3) by (simp add: top_of_stack_def)
  moreover have "slot G 24 + 8 = slot G 25" by (simp add: slot_def)
  ultimately show ?thesis using f s(3) ctx_reg_4 by (intro exI [of _ "goto (top_of_stack ?u) (drop_top ?u)"]) simp
qed

section \<open>The bridge is transparent\<close>

text \<open>
  (C13) The closure bridge of x64, entered with the word of a closure trampoline on the stack, calls the handler with
  the register context as its first and that word as its second argument, on a stack aligned to 16 bytes, with
  every register and the flags saved in the context.  Once the handler returns, whatever it wrote into the
  context, the bridge continues at the address the handler left in the place of that word, with the stack as it
  was before the trampoline pushed, the flags and every general register (the stack pointer apart) loaded from
  the context, and the memory as the handler left it.
\<close>

theorem closure_bridge_x64_transparent:
  assumes "closure_bridge_code_x64 junk h = Inr a" "code_at (memx s) B (emitted a)" "clear B (length (emitted a)) G"
    and "RIP s = B" "GPR s 4 = slot G 24" "slot G 4 AND 7 = 0"
  shows "\<exists>t. runs s t \<and> RIP t = h \<and> GPR t 7 = slot G 4 \<and> GPR t 6 = ld64 (memx s) (slot G 24) \<and> (GPR t 4 + 8) AND 15 = 0
    \<and> frame_holds G s (ld64 (memx s) (slot G 24)) (memx t)
    \<and> (\<forall>t'. RIP t' = top_of_stack t \<and> GPR t' 4 = GPR t 4 + 8 \<and> code_at (memx t') B (emitted a) \<longrightarrow>
         (\<exists>u. runs t' u \<and> RIP u = ld64 (memx t') (slot G 24) \<and> GPR u 4 = slot G 25 \<and> RFLAGS u = ld64 (memx t') (slot G 23)
            \<and> (\<forall>k < 16. k \<noteq> 5 \<longrightarrow> GPR u (ctx_reg k) = ld64 (memx t') (slot G (6 + k))) \<and> memx u = memx t'))"
proof -
  have e: "emitted a = bridge_bytes h" using closure_bridge_x64_emits [of junk h] assms(1) by auto
  have up: "slot G 3 + 8 = slot G 4" "slot G 2 + 8 = slot G 3" by (simp_all add: slot_def)
  from bridge_enters [OF assms(2,3) [unfolded e] assms(4,5)] assms(6)
  obtain t where t: "runs s t" "RIP t = h" "GPR t 7 = slot G 4" "GPR t 6 = ld64 (memx s) (slot G 24)" "(GPR t 4 + 8) AND 15 = 0"
      "frame_holds G s (ld64 (memx s) (slot G 24)) (memx t)"
      "top_of_stack t = B + 155 \<and> GPR t 4 = slot G 3 \<or> top_of_stack t = B + 177 \<and> GPR t 4 = slot G 2" by blast
  have "RIP t' = B + 155 \<and> GPR t' 4 = slot G 4 \<or> RIP t' = B + 177 \<and> GPR t' 4 = slot G 3"
    if "RIP t' = top_of_stack t" "GPR t' 4 = GPR t 4 + 8" for t' :: x64_state
    using t(7) that up by auto
  then show ?thesis using t bridge_leaves unfolding e by (intro exI [of _ t]) blast
qed

theorem closure_bridge_x64_transparent_witness:
  "\<exists>a t. closure_bridge_code_x64 (\<lambda>_. 0) 0x7777 = Inr a \<and> runs (x64_at 0x1000 0x1000 (emitted a)) t \<and> RIP t = 0x7777 \<and> GPR t 7 = 0x760
     \<and> (GPR t 4 + 8) AND 15 = 0 \<and> frame_holds 0x740 (x64_at 0x1000 0x1000 (emitted a)) (ld64 (memx (x64_at 0x1000 0x1000 (emitted a))) 0x800) (memx t)"
proof -
  obtain a where a: "closure_bridge_code_x64 (\<lambda>_. 0) 0x7777 = Inr a" "emitted a = bridge_bytes 0x7777"
    using closure_bridge_x64_emits by blast
  let ?s = "x64_at 0x1000 0x1000 (emitted a)"
  have l: "length (emitted a) = 248" unfolding a(2) by code_simp
  have c: "code_at (memx ?s) 0x1000 (emitted a)" using l by (simp add: x64_at_def code_at_mem_of)
  have k: "clear 0x1000 (length (emitted a)) 0x740"
    unfolding clear_def
  proof (intro allI impI)
    fix i assume "i < length (emitted a)"
    then have "unat (0x8C0 + of_nat i :: u64) = 0x8C0 + i" unfolding l using unat_add_small [of "0x8C0" i] by simp
    then show "200 \<le> unat (0x1000 + of_nat i - 0x740 :: u64)" by (simp add: algebra_simps)
  qed
  have n: "slot 0x740 24 = 0x800" "slot 0x740 4 = 0x760" "(0x760 :: u64) AND 7 = 0" by (simp_all add: slot_def)
  have g: "RIP ?s = 0x1000" "GPR ?s 4 = slot 0x740 24" using n by (simp_all add: x64_at_def)
  have "slot 0x740 4 AND 7 = 0" using n by simp
  from closure_bridge_x64_transparent [OF a(1) c k g this] show ?thesis
    unfolding n(1,2) using a(1) by blast
qed

end
