(* ===== verification/X86_Length.thy ===== *)
theory X86_Length
  imports X86_Decode Mem64
begin

text \<open>
  The lengths the decoder of \<open>X86_Decode\<close> computes, against a reference for 64-bit mode: which rows of the
  table give the length of the architecture, and what happens on the others.
\<close>

unbundle bit_operations_syntax
section \<open>The instruction lengths of the architecture\<close>

text \<open>
  A reference for the lengths of the instructions of the one-byte opcode map in 64-bit mode, after the
  opcode map of the architecture manual: which opcodes have a ModRM byte, what follows a ModRM byte, and
  the size of the immediate operand (1, 2, or 6 for the size the operand-size prefix selects; 3 for ENTER).
\<close>

definition intel_modrm :: "u8 \<Rightarrow> bool" where
  "intel_modrm b \<longleftrightarrow>
     (let n = unat b
      in n < 0x40 \<and> n mod 8 < 4 \<or> n \<in> {0x63, 0x69, 0x6B} \<or> 0x80 \<le> n \<and> n \<le> 0x8F
       \<or> n \<in> {0xC0, 0xC1, 0xC6, 0xC7} \<or> 0xD0 \<le> n \<and> n \<le> 0xD3 \<or> 0xD8 \<le> n \<and> n \<le> 0xDF \<or> n \<in> {0xF6, 0xF7, 0xFE, 0xFF})"

definition intel_imm :: "u8 \<Rightarrow> nat" where
  "intel_imm b =
     (let n = unat b
      in if n < 0x40 \<and> n mod 8 = 4 \<or> n \<in> {0x6A, 0x6B, 0x80, 0x83, 0xA8, 0xC0, 0xC1, 0xC6, 0xCD, 0xEB, 0xF6}
            \<or> 0x70 \<le> n \<and> n \<le> 0x7F \<or> 0xB0 \<le> n \<and> n \<le> 0xB7 \<or> 0xE0 \<le> n \<and> n \<le> 0xE7 then 1
         else if n \<in> {0xC2, 0xCA} then 2
         else if n = 0xC8 then 3
         else if n < 0x40 \<and> n mod 8 = 5 \<or> n \<in> {0x68, 0x69, 0x81, 0xA9, 0xC7, 0xE8, 0xE9, 0xF7} \<or> 0xB8 \<le> n \<and> n \<le> 0xBF
           then 6
         else 0)"

text \<open>The bytes after a ModRM byte: a SIB byte, and a displacement the SIB base may require.\<close>

definition intel_tail :: "u8 \<Rightarrow> u8 \<Rightarrow> nat" where
  "intel_tail modrm sib =
     (let Mod = drop_bit 6 modrm; RM = modrm AND 7
      in if Mod = 3 then 0
         else (if RM = 4 then 1 else 0)
            + (if Mod = 1 then 1 else if Mod = 2 then 4
               else if RM = 5 \<or> RM = 4 \<and> sib AND 7 = 5 then 4 else 0))"

definition intel_imm_len :: "bool \<Rightarrow> bool \<Rightarrow> u8 \<Rightarrow> u8 \<Rightarrow> nat" where
  "intel_imm_len op16 rexw b modrm =
     (if intel_imm b = 6 then
        (if b = 0xF7 \<and> 1 < drop_bit 3 modrm AND 7 then 0
         else if 0xB8 \<le> b \<and> b \<le> 0xBF \<and> rexw then 8
         else if op16 \<and> \<not> rexw \<and> b \<notin> {0xE8, 0xE9} then 2 else 4)
      else if b = 0xF6 \<and> 1 < drop_bit 3 modrm AND 7 then 0
      else intel_imm b)"

definition intel_len :: "bool \<Rightarrow> bool \<Rightarrow> u8 \<Rightarrow> u8 \<Rightarrow> u8 \<Rightarrow> nat" where
  "intel_len op16 rexw b modrm sib =
     1 + (if intel_modrm b then 1 + intel_tail modrm sib else 0) + intel_imm_len op16 rexw b modrm"

section \<open>The decoder against the reference\<close>

definition is_prefix_row :: "DecodeHandler_t \<Rightarrow> bool" where
  "is_prefix_row h \<longleftrightarrow> h \<in> {h_DecodeREXPrefix, h_DecodeLegacyPrefix, h_DecodePrefix_66}"

definition no_decoder :: "DecodeHandler_t \<Rightarrow> bool" where
  "no_decoder h \<longleftrightarrow> h = h_UnknownOpHanlder \<or> h = h_InValidOpHanlder"

text \<open>
  The opcodes whose row gives the length of the architecture: the row is no prefix, has a decoder, and is
  not the row of \<^verbatim>\<open>C1\<close>, whose immediate is given the operand size.
\<close>

definition good_row :: "OpcodeDecodeItem \<Rightarrow> bool" where
  "good_row it \<longleftrightarrow> \<not> is_prefix_row (DecodeHandler it) \<and> \<not> no_decoder (DecodeHandler it)
     \<and> opcode it \<notin> {0xC1, 0xF2, 0xF3}"

definition row_matches :: "OpcodeDecodeItem \<Rightarrow> bool" where
  "row_matches it \<longleftrightarrow>
     (let b = opcode it; h = DecodeHandler it
      in good_row it \<longrightarrow>
         (if h \<in> {h_DecodeOpEn_ZO, h_DecodeOpEn_O} then \<not> intel_modrm b \<and> intel_imm b = 0
          else if h \<in> {h_DecodeOpEn_M, h_DecodeOpEn_RM, h_DecodeOpEn_MR, h_DecodeOpEn_M1, h_DecodeOpEn_MC}
            then intel_modrm b \<and> intel_imm b = 0
          else if h \<in> {h_DecodeOpEn_I, h_DecodeOpEn_D, h_DecodeOpEn_OI}
            then \<not> intel_modrm b \<and> item_ImmediteSz it = intel_imm b \<and> intel_imm b \<in> {1, 2, 6}
          else if h \<in> {h_DecodeOpEn_RMI, h_DecodeOpEn_MI}
            then intel_modrm b \<and> item_ImmediteSz it = intel_imm b \<and> intel_imm b \<in> {1, 6}
          else b = 0xC8))"

lemmas row_defs = entry_def row_unknown_def row_invalid_def row_prefix_def row_66_def row_REX_def row_ZO_def row_O_def row_C8_def
lemmas row_match_defs = row_matches_def good_row_def is_prefix_row_def no_decoder_def intel_modrm_def intel_imm_def size_codes
  Let_def

lemma rows_match_00: "list_all row_matches (OpcodeDecodeTable_00 True)"
  unfolding OpcodeDecodeTable_00_def list.pred_inject if_True row_defs
  by (intro conjI; simp add: row_match_defs)

lemma rows_match_40: "list_all row_matches (OpcodeDecodeTable_40 True)"
  unfolding OpcodeDecodeTable_40_def list.pred_inject if_True row_defs
  by (intro conjI; simp add: row_match_defs)

lemma rows_match_80: "list_all row_matches (OpcodeDecodeTable_80 True)"
  unfolding OpcodeDecodeTable_80_def list.pred_inject if_True row_defs
  by (intro conjI; simp add: row_match_defs)

lemma rows_match_C0: "list_all row_matches (OpcodeDecodeTable_C0 True)"
  unfolding OpcodeDecodeTable_C0_def list.pred_inject if_True row_defs
  by (intro conjI; simp add: row_match_defs)

lemma opcodes_00: "map opcode (OpcodeDecodeTable_00 True) = map of_nat [0..<64]"
  by (simp add: OpcodeDecodeTable_00_def row_defs upt_rec)

lemma opcodes_40: "map opcode (OpcodeDecodeTable_40 True) = map of_nat [64..<128]"
  by (simp add: OpcodeDecodeTable_40_def row_defs upt_rec)

lemma opcodes_80: "map opcode (OpcodeDecodeTable_80 True) = map of_nat [128..<192]"
  by (simp add: OpcodeDecodeTable_80_def row_defs upt_rec)

lemma opcodes_C0: "map opcode (OpcodeDecodeTable_C0 True) = map of_nat [192..<256]"
  by (simp add: OpcodeDecodeTable_C0_def row_defs upt_rec)

lemma opcodes: "map opcode (OpcodeDecodeTable True) = map of_nat [0..<256]"
  using upt_add_eq_append [of 0 64 64] upt_add_eq_append [of 0 128 64] upt_add_eq_append [of 0 192 64]
  by (simp add: OpcodeDecodeTable_def opcodes_00 opcodes_40 opcodes_80 opcodes_C0)

lemma row_of_byte: "opcode (decode_item True b) = b" "row_matches (decode_item True b)"
proof -
  have n: "unat b < 256" using unsigned_less [of b] by simp
  have l: "length (OpcodeDecodeTable True) = 256" using arg_cong [OF opcodes, of length] by simp
  have "map opcode (OpcodeDecodeTable True) ! unat b = b" unfolding opcodes using n by simp
  with n l show "opcode (decode_item True b) = b" by (simp add: decode_item_def)
  have "list_all row_matches (OpcodeDecodeTable True)"
    by (simp only: OpcodeDecodeTable_def list_all_append rows_match_00 rows_match_40 rows_match_80 rows_match_C0)
  with n l show "row_matches (decode_item True b)" by (simp add: decode_item_def list_all_length)
qed

lemma dispatch_row:
  "\<not> is_prefix_row (DecodeHandler (decode_item x64 (mem p))) \<Longrightarrow>
   ContinueDispatch x64 mem i p = Some (call_handler (DecodeHandler (decode_item x64 (mem p))) x64 mem i p)"
  by (subst ContinueDispatch.simps) (simp add: is_prefix_row_def call_prefix_def Let_def)

lemma dispatch_prefix:
  "call_prefix (DecodeHandler (decode_item x64 (mem p))) mem i p = Some i' \<Longrightarrow>
   ContinueDispatch x64 mem i p = ContinueDispatch x64 mem i' (p + 1)"
  by (subst ContinueDispatch.simps) (simp add: Let_def)

lemma ModRM_Mod_drop: "ModRM_Mod b = drop_bit 6 b"
proof -
  have "bit (drop_bit 6 (b AND 0xC0)) n = bit (drop_bit 6 b) n" for n
  proof (cases "n < 2")
    case True
    then have "n = 0 \<or> n = 1" by auto
    then show ?thesis by (auto simp: bit_simps)
  next
    case False
    then show ?thesis using bit_imp_le_length [of b "6 + n"] by (auto simp: bit_simps)
  qed
  then show ?thesis unfolding ModRM_Mod_def by (intro bit_word_eqI) simp
qed

lemma two_bits:
  fixes b :: u8
  obtains "drop_bit 6 b = 0" | "drop_bit 6 b = 1" | "drop_bit 6 b = 2" | "drop_bit 6 b = 3"
proof -
  have b: "unat b < 256" using unsigned_less [of b] by simp
  have u: "unat (drop_bit 6 b) = unat b div 64"
    unfolding unsigned_drop_bit_eq using b by (simp add: drop_bit_eq_div take_bit_nat_eq_self)
  have "unat (drop_bit 6 b) < 4" unfolding u using b by linarith
  moreover have "drop_bit 6 b = of_nat (unat (drop_bit 6 b))" by simp
  ultimately obtain n where n: "n < 4" "drop_bit 6 b = of_nat n" by blast
  then have "n = 0 \<or> n = 1 \<or> n = 2 \<or> n = 3" by auto
  with n(2) have "drop_bit 6 b \<in> {0, 1, 2, 3}" by auto
  with that show thesis by auto
qed

lemma len_DecodeModRM:
  assumes "\<not> (drop_bit 6 (mem p) = 0 \<and> mem p AND 7 = 4 \<and> mem (p + 1) AND 7 = 5)"
  shows "len (DecodeModRM True mem i p) = len i + 1 + intel_tail (mem p) (mem (p + 1))"
    "ImmediteSz (DecodeModRM True mem i p) = ImmediteSz i"
    "opcode1 (instr (DecodeModRM True mem i p)) = opcode1 (instr i)"
    "prefix (instr (DecodeModRM True mem i p)) = prefix (instr i)"
  using assms two_bits [of "mem p"]
  by (auto simp: DecodeModRM_def Let_def intel_tail_def ModRM_Mod_drop ModRM_RM_def DecodeDisplacement32_def
      DecodeDisplacement8_def DecodeSIB_def)


lemma len_DecodeImmedite:
  "len (DecodeImmedite x64 mem i p 0) =
    len i + (let sz = item_ImmediteSz (decode_item x64 (opcode1 (instr i)))
             in if sz = 6 then if prefix (instr i) = 0x66 then 2 else 4
                else if sz = 1 then 1 else if sz = 2 then 2 else if sz = 4 then 4 else 0)"
proof -
  have "(2 :: nat) OR 4 = 6" by code_simp
  then show ?thesis by (simp add: DecodeImmedite_def Let_def size_codes)
qed

lemma opcode1_DecodeImmedite [simp]: "opcode1 (instr (DecodeImmedite x64 mem i p sz)) = opcode1 (instr i)"
  by (simp add: DecodeImmedite_def Let_def)

lemma len_DecodeOp [simp]:
  "len (DecodeOp mem i p) = len i + 1" "ImmediteSz (DecodeOp mem i p) = ImmediteSz i"
  "opcode1 (instr (DecodeOp mem i p)) = mem p" "prefix (instr (DecodeOp mem i p)) = prefix (instr i)"
  by (simp_all add: DecodeOp_def)

lemmas handler_defs = DecodeOpEn_ZO_def DecodeOpEn_O_def DecodeOpEn_M_def DecodeOpEn_I_def DecodeOpEn_OI_def
  DecodeOpEn_RMI_def DecodeOpEn_MI_def DecodeOpC8_def DecodeOpWithReg_def DecodeOpExtraOp_def

text \<open>The conditions under which a row gives the length: see the theorems on what happens otherwise.\<close>

definition plain_form :: "bool \<Rightarrow> bool \<Rightarrow> u8 \<Rightarrow> u8 \<Rightarrow> u8 \<Rightarrow> bool" where
  "plain_form op16 rexw b modrm sib \<longleftrightarrow>
     good_row (decode_item True b)
     \<and> (intel_modrm b \<longrightarrow> \<not> (drop_bit 6 modrm = 0 \<and> modrm AND 7 = 4 \<and> sib AND 7 = 5))
     \<and> (b \<in> {0xF6, 0xF7} \<longrightarrow> drop_bit 3 modrm AND 7 \<le> 1)
     \<and> (rexw \<longrightarrow> \<not> (0xB8 \<le> b \<and> b \<le> 0xBF) \<and> \<not> op16)
     \<and> (op16 \<longrightarrow> b \<notin> {0xE8, 0xE9})"

lemma good_row_len:
  assumes b: "mem p = b" and ok: "plain_form (prefix (instr i) = 0x66) rexw b (mem (p + 1)) (mem (p + 2))"
    and z: "ImmediteSz i = 0"
  shows "\<exists>i'. ContinueDispatch True mem i p = Some i'
    \<and> len i' = len i + intel_len (prefix (instr i) = 0x66) rexw b (mem (p + 1)) (mem (p + 2))
    \<and> opcode1 (instr i') = b"
proof -
  let ?h = "DecodeHandler (decode_item True b)"
  let ?i' = "call_handler ?h True mem i p"
  have g: "good_row (decode_item True b)" using ok by (simp add: plain_form_def)
  then have "\<not> is_prefix_row ?h" by (simp add: good_row_def)
  then have d: "ContinueDispatch True mem i p = Some ?i'" using dispatch_row [of True mem p i] b by simp
  note row = row_of_byte [of b]
  have m: "intel_modrm b \<Longrightarrow> len (DecodeModRM True mem (DecodeOp mem i p) (p + 1)) =
      len i + 2 + intel_tail (mem (p + 1)) (mem (p + 2))"
    and m': "intel_modrm b \<Longrightarrow> ImmediteSz (DecodeModRM True mem (DecodeOp mem i p) (p + 1)) = 0"
      "intel_modrm b \<Longrightarrow> opcode1 (instr (DecodeModRM True mem (DecodeOp mem i p) (p + 1))) = b"
      "intel_modrm b \<Longrightarrow> prefix (instr (DecodeModRM True mem (DecodeOp mem i p) (p + 1))) = prefix (instr i)"
    using len_DecodeModRM [of mem "p + 1" "DecodeOp mem i p"] ok b z
    by (auto simp: plain_form_def add.assoc)
  have imm: "intel_imm_len (prefix (instr i) = 0x66) rexw b (mem (p + 1)) =
      (if intel_imm b = 6 then if prefix (instr i) = 0x66 then 2 else 4 else intel_imm b)"
    using ok by (auto simp: plain_form_def intel_imm_len_def not_less)
  note lens = m m' imm len_DecodeImmedite handler_defs intel_len_def Let_def
  consider "?h \<in> {h_DecodeOpEn_ZO, h_DecodeOpEn_O}"
    | "?h \<in> {h_DecodeOpEn_M, h_DecodeOpEn_RM, h_DecodeOpEn_MR, h_DecodeOpEn_M1, h_DecodeOpEn_MC}"
    | "?h \<in> {h_DecodeOpEn_I, h_DecodeOpEn_D, h_DecodeOpEn_OI}"
    | "?h \<in> {h_DecodeOpEn_RMI, h_DecodeOpEn_MI}" | "?h = h_DecodeOpC8"
    using g by (cases ?h) (auto simp: good_row_def is_prefix_row_def no_decoder_def)
  then have "len ?i' = len i + intel_len (prefix (instr i) = 0x66) rexw b (mem (p + 1)) (mem (p + 2))
    \<and> opcode1 (instr ?i') = b"
  proof cases
    case 1
    then show ?thesis using row g b by (auto simp: row_matches_def lens)
  next
    case 2
    then show ?thesis using row g b by (auto simp: row_matches_def lens)
  next
    case 3
    then show ?thesis using row g b z by (auto simp: row_matches_def lens)
  next
    case 4
    then show ?thesis using row g b z by (auto simp: row_matches_def lens)
  next
    case 5
    then show ?thesis using row g b by (auto simp: row_matches_def lens intel_modrm_def intel_imm_def intel_imm_len_def)
  qed
  with d show ?thesis by blast
qed


definition legacy_prefixes :: "u8 list" where
  "legacy_prefixes = [0x26, 0x2E, 0x36, 0x3E, 0x64, 0x65, 0x66, 0x67, 0xF0]"

lemma legacy_rows:
  "list_all (\<lambda>b. let h = DecodeHandler (decode_item True b) in h = (if b = 0x66 then h_DecodePrefix_66 else h_DecodeLegacyPrefix))
     legacy_prefixes"
  by code_simp

lemma rex_rows: "list_all (\<lambda>n. DecodeHandler (OpcodeDecodeTable True ! n) = h_DecodeREXPrefix) [64..<80]"
  by code_simp

lemma dispatch_legacy:
  assumes "mem p \<in> set legacy_prefixes"
  shows "\<exists>i'. ContinueDispatch True mem i p = ContinueDispatch True mem i' (p + 1) \<and> len i' = len i + 1
    \<and> prefix (instr i') = mem p \<and> ImmediteSz i' = ImmediteSz i"
proof -
  have "DecodeHandler (decode_item True (mem p)) = (if mem p = 0x66 then h_DecodePrefix_66 else h_DecodeLegacyPrefix)"
    using legacy_rows assms by (simp add: list_all_iff Let_def)
  then obtain i' where "call_prefix (DecodeHandler (decode_item True (mem p))) mem i p = Some i'"
    "len i' = len i + 1" "prefix (instr i') = mem p" "ImmediteSz i' = ImmediteSz i"
    by (simp add: call_prefix_def DecodePrefix_66_def DecodeLegacyPrefix_def split: if_splits)
  then show ?thesis using dispatch_prefix [of True mem p i i'] by blast
qed

lemma dispatch_REX:
  assumes "0x40 \<le> mem p" "mem p \<le> 0x4F"
  shows "\<exists>i'. ContinueDispatch True mem i p = ContinueDispatch True mem i' (p + 1) \<and> len i' = len i + 1
    \<and> prefix (instr i') = prefix (instr i) \<and> ImmediteSz i' = ImmediteSz i"
proof -
  have "64 \<le> unat (mem p)" "unat (mem p) < 80" using assms by (simp_all add: word_le_nat_alt)
  then have "DecodeHandler (decode_item True (mem p)) = h_DecodeREXPrefix"
    using rex_rows by (simp only: list_all_iff decode_item_def set_upt) auto
  then show ?thesis
    using dispatch_prefix [of True mem p i "DecodeREXPrefix mem i p"] by (auto simp: call_prefix_def DecodeREXPrefix_def)
qed

text \<open>
  (C35) For an instruction of the one-byte opcode map in 64-bit mode, with at most one legacy prefix before at most one REX prefix, the decoder ends
  and computes the length the architecture gives the instruction, provided it is in a plain form (\<^verbatim>\<open>plain_form\<close>): the row of the
  opcode has a decoder, the opcode is not \<^verbatim>\<open>C1\<close>, \<^verbatim>\<open>F2\<close> or \<^verbatim>\<open>F3\<close>, there is no SIB byte with base 101 and mod 00, \<^verbatim>\<open>F6\<close> and \<^verbatim>\<open>F7\<close> are the TEST
  instruction, and neither a 64-bit immediate (\<^verbatim>\<open>B8\<close> to \<^verbatim>\<open>BF\<close> with \<^verbatim>\<open>REX.W\<close>), nor an operand-size prefix with \<^verbatim>\<open>REX.W\<close> or on
  \<^verbatim>\<open>E8\<close> or \<^verbatim>\<open>E9\<close> occurs.
\<close>

theorem decode_length_correct:
  assumes "legacy = [] \<or> legacy = [l] \<and> l \<in> set legacy_prefixes" "rex = [] \<or> rex = [r] \<and> 0x40 \<le> r \<and> r \<le> 0x4F"
    and "code_at mem p (legacy @ rex @ [b, modrm, sib])"
    and "plain_form (legacy = [0x66]) (rex \<noteq> [] \<and> bit (hd rex) 3) b modrm sib"
  shows "\<exists>i'. ContinueDispatch True mem zero_instr p = Some i'
    \<and> len i' = length legacy + length rex + intel_len (legacy = [0x66]) (rex \<noteq> [] \<and> bit (hd rex) 3) b modrm sib
    \<and> opcode1 (instr i') = b"
proof -
  define q where "q = p + of_nat (length legacy)"
  have i1: "\<exists>i. ContinueDispatch True mem zero_instr p = ContinueDispatch True mem i q \<and> len i = length legacy
      \<and> (prefix (instr i) = 0x66 \<longleftrightarrow> legacy = [0x66]) \<and> ImmediteSz i = 0"
  proof (cases "legacy = []")
    case True
    then show ?thesis by (auto simp: q_def zero_instr_def)
  next
    case False
    then have l: "legacy = [l]" "mem p = l" "l \<in> set legacy_prefixes" using assms(1,3) by (auto simp: code_at_Cons)
    then show ?thesis using dispatch_legacy [of mem p zero_instr] by (auto simp: q_def zero_instr_def)
  qed
  then obtain i where i: "ContinueDispatch True mem zero_instr p = ContinueDispatch True mem i q" "len i = length legacy"
    "prefix (instr i) = 0x66 \<longleftrightarrow> legacy = [0x66]" "ImmediteSz i = 0" by blast
  have bs: "code_at mem q (rex @ [b, modrm, sib])" using assms(1,3) by (auto simp: q_def code_at_Cons)
  have "\<exists>j. ContinueDispatch True mem i q = ContinueDispatch True mem j (q + of_nat (length rex)) \<and> len j = len i + length rex
      \<and> (prefix (instr j) = prefix (instr i)) \<and> ImmediteSz j = 0"
  proof (cases "rex = []")
    case True
    then show ?thesis using i by auto
  next
    case False
    then have "rex = [r]" "mem q = r" "0x40 \<le> r" "r \<le> 0x4F" using assms(2) bs by (auto simp: code_at_Cons)
    then show ?thesis using dispatch_REX [of mem q i] i by auto
  qed
  then obtain j where j: "ContinueDispatch True mem i q = ContinueDispatch True mem j (q + of_nat (length rex))"
    "len j = len i + length rex" "prefix (instr j) = prefix (instr i)" "ImmediteSz j = 0" by blast
  have "code_at mem (q + of_nat (length rex)) [b, modrm, sib]" using assms(2) bs by (auto simp: code_at_Cons)
  then have "mem (q + of_nat (length rex)) = b" "mem (q + of_nat (length rex) + 1) = modrm" "mem (q + of_nat (length rex) + 2) = sib"
    by (simp_all add: code_at_Cons add.assoc)
  then show ?thesis
    using good_row_len [of mem "q + of_nat (length rex)" b j "rex \<noteq> [] \<and> bit (hd rex) 3"] assms(4) i j by (auto simp: add.assoc)
qed

text \<open>\<^verbatim>\<open>48 8B 44 24 08\<close>, that is \<^verbatim>\<open>mov rax, [rsp+8]\<close>.\<close>

theorem decode_length_correct_witness:
  "\<exists>i'. ContinueDispatch True (mem_of 0 [0x48, 0x8B, 0x44, 0x24, 0x08]) zero_instr 0 = Some i' \<and> len i' = 5 \<and> opcode1 (instr i') = 0x8B"
proof -
  have "plain_form False True 0x8B 0x44 0x24" by code_simp
  moreover have "intel_len False True 0x8B 0x44 0x24 = 4" by code_simp
  moreover have "code_at (mem_of 0 [0x48, 0x8B, 0x44, 0x24, 0x08]) 0 ([] @ [0x48] @ [0x8B, 0x44, 0x24])" by code_simp
  moreover have "bit (0x48 :: u8) 3" by code_simp
  ultimately show ?thesis
    using decode_length_correct [of "[]" 0 "[0x48]" "0x48" "mem_of 0 [0x48, 0x8B, 0x44, 0x24, 0x08]" 0 "0x8B" "0x44" "0x24"]
    by simp
qed

text \<open>
  The decoder ends exactly when some byte from the start on is no prefix: a run of prefix bytes makes
  the handlers call each other, one call per byte, without bound.
\<close>

theorem decode_ends_iff:
  "(\<exists>i'. ContinueDispatch x64 mem i p = Some i') \<longleftrightarrow>
   (\<exists>n. \<not> is_prefix_row (DecodeHandler (decode_item x64 (mem (p + of_nat n)))))"
proof
  assume "\<exists>i'. ContinueDispatch x64 mem i p = Some i'"
  then obtain i' where e: "ContinueDispatch x64 mem i p = Some i'" by blast
  show "\<exists>n. \<not> is_prefix_row (DecodeHandler (decode_item x64 (mem (p + of_nat n))))"
  proof (rule ContinueDispatch.raw_induct [OF _ e])
    fix dispatch x64 mem i p i'
    assume IH: "\<And>x64 mem i p i'. dispatch x64 mem i p = Some i' \<Longrightarrow>
        \<exists>n. \<not> is_prefix_row (DecodeHandler (decode_item x64 (mem (p + of_nat n))))"
      and step: "(let h = DecodeHandler (decode_item x64 (mem p))
        in case call_prefix h mem i p of None \<Rightarrow> Some (call_handler h x64 mem i p) | Some i' \<Rightarrow> dispatch x64 mem i' (p + 1)) = Some i'"
    let ?h = "DecodeHandler (decode_item x64 (mem p))"
    show "\<exists>n. \<not> is_prefix_row (DecodeHandler (decode_item x64 (mem (p + of_nat n))))"
    proof (cases "is_prefix_row ?h")
      case False
      then show ?thesis by (intro exI [of _ 0]) simp
    next
      case True
      then obtain j where "call_prefix ?h mem i p = Some j" by (auto simp: is_prefix_row_def call_prefix_def)
      then have "dispatch x64 mem j (p + 1) = Some i'" using step by (simp add: Let_def)
      from IH [OF this] obtain n where "\<not> is_prefix_row (DecodeHandler (decode_item x64 (mem (p + 1 + of_nat n))))" by blast
      then show ?thesis by (intro exI [of _ "Suc n"]) (simp add: add.assoc)
    qed
  qed
next
  assume "\<exists>n. \<not> is_prefix_row (DecodeHandler (decode_item x64 (mem (p + of_nat n))))"
  then obtain n where "\<not> is_prefix_row (DecodeHandler (decode_item x64 (mem (p + of_nat n))))" by blast
  then show "\<exists>i'. ContinueDispatch x64 mem i p = Some i'"
  proof (induction n arbitrary: i p)
    case 0
    then show ?case using dispatch_row [of x64 mem p i] by simp
  next
    case (Suc n)
    show ?case
    proof (cases "is_prefix_row (DecodeHandler (decode_item x64 (mem p)))")
      case False
      then show ?thesis using dispatch_row [of x64 mem p i] by simp
    next
      case True
      then obtain j where "call_prefix (DecodeHandler (decode_item x64 (mem p))) mem i p = Some j"
        by (auto simp: is_prefix_row_def call_prefix_def)
      from dispatch_prefix [OF this] Suc.IH [of "p + 1" j] Suc.prems show ?thesis by (simp add: add.assoc)
    qed
  qed
qed

end
