(* ===== verification/Relocate_X64_Loop.thy ===== *)
theory Relocate_X64_Loop
  imports Call_X64 X86_Length
begin

text \<open>
  The relocation loop of x64 as a whole: which prologues it copies, that it then ends with the copy and
  the jump back in place, that it does not end on an instruction without a decoder, and what becomes of
  a prologue that does not fit the chunk.
\<close>

unbundle bit_operations_syntax

section \<open>Instructions without a decoder\<close>

lemma no_decoder_dispatch:
  assumes "no_decoder (DecodeHandler (decode_item x64 (mem p)))"
  shows "ContinueDispatch x64 mem i p = Some i"
  using dispatch_row [of x64 mem p i] assms by (auto simp: no_decoder_def is_prefix_row_def)

lemma relo_loop_hangs:
  assumes "p < stop" "no_decoder (DecodeHandler (decode_item True (mem p)))"
  shows "relo_loop_x64 mem stop relo_start p orig_ip a = None"
proof (rule ccontr)
  assume "relo_loop_x64 mem stop relo_start p orig_ip a \<noteq> None"
  then obtain y where e: "relo_loop_x64 mem stop relo_start p orig_ip a = Some y" by blast
  have "\<not> (p < stop \<and> no_decoder (DecodeHandler (decode_item True (mem p))))"
  proof (rule relo_loop_x64.raw_induct [OF _ e])
    fix loop mem stop relo_start p orig_ip a y
    assume IH: "\<And>mem stop relo_start p orig_ip a y. loop mem stop relo_start p orig_ip a = Some y \<Longrightarrow>
        \<not> (p < stop \<and> no_decoder (DecodeHandler (decode_item True (mem p))))"
      and step: "(if p < stop then
        (case ContinueDispatch True mem zero_instr p of None \<Rightarrow> None
         | Some i \<Rightarrow> (case relo_one_x64 mem p i orig_ip (relo_start + of_nat (ip_offset a)) a of
             Inl er \<Rightarrow> Some (Inl er)
           | Inr a' \<Rightarrow> loop mem stop relo_start (p + of_nat (len i)) (orig_ip + of_nat (len i)) a'))
        else Some (Inr (orig_ip, a))) = Some y"
    show "\<not> (p < stop \<and> no_decoder (DecodeHandler (decode_item True (mem p))))"
    proof
      assume p: "p < stop \<and> no_decoder (DecodeHandler (decode_item True (mem p)))"
      then have "\<exists>a'. loop mem stop relo_start p orig_ip a' = Some y"
        using step no_decoder_dispatch [of True mem p zero_instr]
        by (auto simp: relo_one_x64_def zero_instr_def kIPRelativeAddress_def)
      then show False using IH p by blast
    qed
  qed
  with assms show False by blast
qed

text \<open>
  (C40) The relocation of a prologue that starts with an instruction without a decoder never returns: the
  decoded length is 0 and the loop stays where it is.
\<close>

theorem relocation_x64_hangs:
  assumes "buf < buf + mr_length origin" "no_decoder (DecodeHandler (decode_item True (mem buf)))"
  shows "GenRelocateCodeFixed_x64 junk pageSize mem buf origin relocated arena e = None"
  by (simp add: GenRelocateCodeFixed_x64_def relo_loop_hangs [where p = buf] assms)

text \<open>\<^verbatim>\<open>C6 07 00\<close>, that is \<^verbatim>\<open>mov byte [rdi], 0\<close>.\<close>

theorem relocation_x64_hangs_witness:
  "GenRelocateCodeFixed_x64 (\<lambda>_. 0) 4096 (mem_of 0 [0xC6, 0x07, 0x00]) 0 \<lparr>mr_address = 0x1000, mr_length = 6\<rparr>
     \<lparr>mr_address = 0x2000, mr_length = 32\<rparr> None \<lparr>e_mem = (\<lambda>_. 0), e_writable = (\<lambda>_. True)\<rparr> = None"
proof (rule relocation_x64_hangs)
  show "no_decoder (DecodeHandler (decode_item True (mem_of 0 [0xC6, 0x07, 0x00] 0)))" by code_simp
qed simp

section \<open>Prologues that are copied\<close>

text \<open>An instruction the loop copies: no branch, and no operand relative to the instruction pointer.\<close>

definition copied :: "InstrMnemonic \<Rightarrow> bool" where
  "copied i \<longleftrightarrow> (let n = unat (opcode1 (instr i)) in \<not> (0x70 \<le> n \<and> n \<le> 0x7F) \<and> n \<notin> {0xE0, 0xE1, 0xE2, 0xE3, 0xEB, 0xE8, 0xE9})
     \<and> flag i AND kIPRelativeAddress = 0"

text \<open>
  \<open>copied_run mem p rem n\<close>: from \<open>p\<close> on stand instructions the loop copies, of \<open>n\<close> bytes together, the first ones
  to cover \<open>rem\<close> bytes.
\<close>

inductive copied_run :: "(u64 \<Rightarrow> u8) \<Rightarrow> u64 \<Rightarrow> nat \<Rightarrow> nat \<Rightarrow> bool" for mem where
  covered: "copied_run mem p 0 0"
| instruction: "0 < rem \<Longrightarrow> ContinueDispatch True mem zero_instr p = Some i \<Longrightarrow> 0 < len i \<Longrightarrow> copied i \<Longrightarrow>
    copied_run mem (p + of_nat (len i)) (rem - len i) n \<Longrightarrow> copied_run mem p rem (len i + n)"

lemma copied_run_covers: "copied_run mem p rem n \<Longrightarrow> rem \<le> n"
  by (induction rule: copied_run.induct) auto

lemma relo_one_copied:
  assumes "copied i"
  shows "relo_one_x64 mem p i orig_ip relo_ip a = Inr (emit_code (fetch mem p (len i)) a)"
proof -
  let ?o = "opcode1 (instr i)"
  have n: "\<not> (0x70 \<le> unat ?o \<and> unat ?o \<le> 0x7F)" "unat ?o \<notin> {0xE0, 0xE1, 0xE2, 0xE3, 0xEB, 0xE8, 0xE9}"
    using assms by (simp_all add: copied_def Let_def)
  then have "\<not> (0x70 \<le> ?o \<and> ?o \<le> 0x7F)" "\<not> (0xE0 \<le> ?o \<and> ?o \<le> 0xE2)" "?o \<noteq> 0xE3" "?o \<noteq> 0xEB" "?o \<noteq> 0xE8" "?o \<noteq> 0xE9"
    by (auto simp: word_le_nat_alt)
  then show ?thesis using assms by (auto simp: relo_one_x64_def copied_def Let_def emits_x64)
qed

lemma length_fetch [simp]: "length (fetch mem p n) = n"
  by (simp add: fetch_def)

lemma fetch_add: "fetch mem p (j + k) = fetch mem p j @ fetch mem (p + of_nat j) k"
  by (rule nth_equalityI) (auto simp: fetch_def nth_append add.assoc of_nat_diff)

lemma relo_loop_copies:
  assumes "copied_run mem p rem n" "unat p + n < 2 ^ 64" "asm_ok a" "pc_offset a + n < 2 ^ 29"
  shows "\<exists>a'. relo_loop_x64 mem (p + of_nat rem) start p orig_ip a = Some (Inr (orig_ip + of_nat n, a'))
    \<and> asm_ok a' \<and> pc_offset a' = pc_offset a + n \<and> emitted a' = emitted a @ fetch mem p n \<and> realized_address a' = realized_address a"
  using assms
proof (induction arbitrary: a orig_ip rule: copied_run.induct)
  case (covered p)
  then show ?case by (subst relo_loop_x64.simps) (simp add: fetch_def)
next
  case (instruction rem p i n)
  let ?p' = "p + of_nat (len i)" and ?a' = "emit_code (fetch mem p (len i)) a" and ?o' = "orig_ip + of_nat (len i)"
  have "rem \<le> len i + n" using copied_run_covers [OF instruction.hyps(5)] by simp
  then have "unat p + rem < 2 ^ 64" using instruction.prems(1) by simp
  from unat_add_small [OF this] have stop: "unat (p + of_nat rem) = unat p + rem" .
  have p': "unat ?p' = unat p + len i" using instruction.prems(1) by (intro unat_add_small) simp
  have a': "asm_ok ?a'" "pc_offset ?a' = pc_offset a + len i" "emitted ?a' = emitted a @ fetch mem p (len i)"
    using instruction.prems by (simp_all add: c_wf)
  have here: "relo_loop_x64 mem (p + of_nat rem) start p orig_ip a = relo_loop_x64 mem (p + of_nat rem) start ?p' ?o' ?a'"
    using instruction.hyps(1,2) stop
    by (subst relo_loop_x64.simps) (simp add: relo_one_copied [OF instruction.hyps(4)] word_less_nat_alt)
  have "\<exists>a'. relo_loop_x64 mem (p + of_nat rem) start ?p' ?o' ?a' = Some (Inr (?o' + of_nat n, a')) \<and> asm_ok a'
      \<and> pc_offset a' = pc_offset ?a' + n \<and> emitted a' = emitted ?a' @ fetch mem ?p' n \<and> realized_address a' = realized_address ?a'"
  proof (cases "len i \<le> rem")
    case True
    then have r: "p + of_nat rem = ?p' + of_nat (rem - len i)" by (simp add: of_nat_diff)
    show ?thesis unfolding r using instruction.IH [of ?a' ?o'] instruction.prems a' p' by simp
  next
    case False
    then have "copied_run mem ?p' 0 n" using instruction.hyps(5) by simp
    then have n: "n = 0" by (cases rule: copied_run.cases) simp_all
    have "\<not> ?p' < p + of_nat rem" using False by (simp add: word_less_nat_alt p' stop)
    then show ?thesis using a'(1) n by (subst relo_loop_x64.simps) (simp add: fetch_def)
  qed
  then show ?case unfolding here using a' by (auto simp: fetch_add add.assoc)
qed

lemma relo_jump_back_x64_bytes:
  assumes "asm_ok a" "realized_address a = start" "pc_offset a < 2 ^ 29"
  shows "asm_ok (relo_jump_back_x64 start ip a)" "pc_offset (relo_jump_back_x64 start ip a) = pc_offset a + 14"
    "emitted (relo_jump_back_x64 start ip a) = emitted a @ [0xFF, 0x25, 0, 0, 0, 0] @ le_bytes 8 ip"
    "realized_address (relo_jump_back_x64 start ip a) = start"
proof -
  have z: "le_bytes 4 (0 :: u32) = [0, 0, 0, 0]" by code_simp
  note j = JmpNearIndirect_x64_emits [OF assms(1,3), of "start + of_nat (pc_offset a) + 6"]
  show "asm_ok (relo_jump_back_x64 start ip a)" "pc_offset (relo_jump_back_x64 start ip a) = pc_offset a + 14"
    "emitted (relo_jump_back_x64 start ip a) = emitted a @ [0xFF, 0x25, 0, 0, 0, 0] @ le_bytes 8 ip"
    "realized_address (relo_jump_back_x64 start ip a) = start"
    using j assms by (simp_all add: relo_jump_back_x64_def emits_x64 c_wf ip_offset_pc_offset z add.commute)
qed

text \<open>
  (C32) A prologue of \<^verbatim>\<open>n\<close> bytes made of instructions that the relocation copies, in a chunk that holds \<^verbatim>\<open>n + 14\<close> bytes within one page, is
  relocated to its own bytes followed by a jump to the instruction after them, and the relocation ends and reports success.
\<close>

theorem relocation_x64_copies:
  assumes "copied_run mem buf (unat (mr_length origin)) n" "unat buf + n < 2 ^ 64"
    and "mr_address relocated \<noteq> 0" "n + 14 \<le> unat (mr_length relocated)" "n < 2 ^ 28"
    and "unat (mr_address relocated - ALIGN_FLOOR (mr_address relocated) (2 ^ k)) + n + 14 \<le> 2 ^ k" "k < 63"
  shows "\<exists>e'. GenRelocateCodeFixed_x64 junk (2 ^ k) mem buf origin relocated arena e = Some (Inr (Some (arena, e')))
    \<and> code_at (e_mem e') (mr_address relocated)
        (fetch mem buf n @ [0xFF, 0x25, 0, 0, 0, 0] @ le_bytes 8 (mr_address origin + of_nat n))"
proof -
  let ?a0 = "CommitRealizeAddress (mr_address relocated) (new_TurboAssembler_x64 junk 0)" and ?ip = "mr_address origin + of_nat n"
  have stop: "buf + mr_length origin = buf + of_nat (unat (mr_length origin))" by simp
  obtain a' where l: "relo_loop_x64 mem (buf + mr_length origin) (mr_address relocated) buf (mr_address origin) ?a0 = Some (Inr (?ip, a'))"
      "asm_ok a'" "pc_offset a' = n" "emitted a' = fetch mem buf n" "realized_address a' = mr_address relocated"
    using relo_loop_copies [OF assms(1,2), of ?a0 "mr_address relocated" "mr_address origin"] assms(5) unfolding stop by auto
  note j = relo_jump_back_x64_bytes [OF l(2,5), of ?ip]
  let ?b = "relo_jump_back_x64 (mr_address relocated) ?ip a'" and ?bs = "fetch mem buf n @ [0xFF, 0x25, 0, 0, 0, 0] @ le_bytes 8 ?ip"
  have b: "asm_ok ?b" "pc_offset ?b = n + 14" "emitted ?b = ?bs" "realized_address ?b = mr_address relocated"
    using j l(3-5) assms(5) by simp_all
  obtain e' where e': "CodePatch (2 ^ k) (mr_address relocated) ?bs e = Inr e'"
      "e_mem e' = (\<lambda>a. if unat (a - mr_address relocated) < length ?bs then ?bs ! unat (a - mr_address relocated) else e_mem e a)"
    using CodePatch_in_page [of "mr_address relocated" k ?bs e] assms(6,7) by auto
  have "GenRelocateCodeFixed_x64 junk (2 ^ k) mem buf origin relocated arena e = Some (Inr (Some (arena, e')))"
    using b assms(3,4) e'(1)
    by (simp add: GenRelocateCodeFixed_x64_def l(1) FinalizeFromTurboAssember_def Let_def pc_offset_def emitted_def)
  moreover have "code_at (e_mem e') (mr_address relocated) ?bs"
    using code_at_patched [OF e'(2)] assms(5) by simp
  ultimately show ?thesis by blast
qed

text \<open>\<^verbatim>\<open>push rbp; mov rbp, rsp; sub rsp, 16\<close>: eight bytes cover the six the hook needs.\<close>

definition sample_prologue :: "u8 list" where
  "sample_prologue = [0x55, 0x48, 0x89, 0xE5, 0x48, 0x83, 0xEC, 0x10]"

lemma copied_run_step:
  assumes "map_option (\<lambda>i. (len i, copied i)) (ContinueDispatch True mem zero_instr p) = Some (l, True)"
    and "0 < rem" "0 < l" "copied_run mem (p + of_nat l) (rem - l) n"
  shows "copied_run mem p rem (l + n)"
  using assms copied_run.instruction [of rem mem p] by auto

lemma sample_prologue_run: "copied_run (mem_of 0 sample_prologue) 0 6 8"
proof -
  let ?m = "mem_of 0 sample_prologue"
  have d: "map_option (\<lambda>i. (len i, copied i)) (ContinueDispatch True ?m zero_instr 0) = Some (1, True)"
    "map_option (\<lambda>i. (len i, copied i)) (ContinueDispatch True ?m zero_instr 1) = Some (3, True)"
    "map_option (\<lambda>i. (len i, copied i)) (ContinueDispatch True ?m zero_instr 4) = Some (4, True)"
    by code_simp+
  have "copied_run ?m 4 2 (4 + 0)" using copied_run_step [OF d(3), of 2 0] copied_run.covered by simp
  then have "copied_run ?m 1 5 (3 + 4)" using copied_run_step [OF d(2), of 5 4] by simp
  then show ?thesis using copied_run_step [OF d(1), of 6 7] by simp
qed

theorem relocation_x64_copies_witness:
  "\<exists>e'. GenRelocateCodeFixed_x64 (\<lambda>_. 0) (2 ^ 12) (mem_of 0 sample_prologue) 0 \<lparr>mr_address = 0x1000, mr_length = 6\<rparr>
       \<lparr>mr_address = 0x2000, mr_length = 32\<rparr> None \<lparr>e_mem = (\<lambda>_. 0), e_writable = (\<lambda>_. True)\<rparr> = Some (Inr (Some (None, e')))
     \<and> code_at (e_mem e') 0x2000
        (fetch (mem_of 0 sample_prologue) 0 8 @ [0xFF, 0x25, 0, 0, 0, 0] @ le_bytes 8 (0x1000 + of_nat 8 :: u64))"
  using relocation_x64_copies [of "mem_of 0 sample_prologue" 0 "\<lparr>mr_address = 0x1000, mr_length = 6\<rparr>" 8
      "\<lparr>mr_address = 0x2000, mr_length = 32\<rparr>" 12 "\<lambda>_. 0" None "\<lparr>e_mem = (\<lambda>_. 0), e_writable = (\<lambda>_. True)\<rparr>"] sample_prologue_run
  by (simp add: ALIGN_FLOOR_def)

section \<open>Prologues that do not fit\<close>

lemma relocation_x64_too_small:
  assumes "copied_run mem buf (unat (mr_length origin)) n" "unat buf + n < 2 ^ 64"
    and "unat (mr_length relocated) < n + 14" "n < 2 ^ 28"
  shows "GenRelocateCodeFixed_x64 junk pageSize mem buf origin relocated arena e = Some (Inr None)"
proof -
  let ?a0 = "CommitRealizeAddress (mr_address relocated) (new_TurboAssembler_x64 junk 0)" and ?ip = "mr_address origin + of_nat n"
  have stop: "buf + mr_length origin = buf + of_nat (unat (mr_length origin))" by simp
  obtain a' where l: "relo_loop_x64 mem (buf + mr_length origin) (mr_address relocated) buf (mr_address origin) ?a0 = Some (Inr (?ip, a'))"
      "asm_ok a'" "pc_offset a' = n" "realized_address a' = mr_address relocated"
    using relo_loop_copies [OF assms(1,2), of ?a0 "mr_address relocated" "mr_address origin"] assms(4) unfolding stop by auto
  have "pc_offset (relo_jump_back_x64 (mr_address relocated) ?ip a') = n + 14"
    using relo_jump_back_x64_bytes [OF l(2,4), of ?ip] l(3) assms(4) by simp
  then show ?thesis using assms(3) by (simp add: GenRelocateCodeFixed_x64_def l(1) Let_def pc_offset_def)
qed

text \<open>
  When the copied instructions and the jump back need more than the 32 bytes first allocated, the
  caller gets a second, larger chunk in which nothing was ever written.
\<close>

theorem relocation_x64_retry_is_empty:
  assumes "copied_run mem buf (unat (mr_length origin)) n" "unat buf + n < 2 ^ 64" "18 < n" "n < 2 ^ 28"
    and "AllocateCodeChunk (os_alloc 0) pageSize 32 arena = (Some first, arena1)" "mr_length first = 32"
    and "AllocateCodeChunk (os_alloc 1) pageSize 48 arena1 = (Some second, arena2)" "mr_address relocated = 0"
  shows "GenRelocateCode_x64 junk os_alloc pageSize mem buf origin relocated arena e = Some (Inr (second, arena2, e))"
proof -
  have "unat (mr_length first) < n + 14" using assms(3,6) by simp
  then show ?thesis using relocation_x64_too_small [OF assms(1,2) _ assms(4)] assms(5,7,8)
    by (simp add: GenRelocateCode_x64_def)
qed

text \<open>Twenty \<^verbatim>\<open>nop\<close> instructions and an arena that starts empty.\<close>

lemma nops_run: "copied_run (\<lambda>_. 0x90) p rem rem"
proof (induction rem arbitrary: p)
  case (Suc r)
  have "map_option (\<lambda>i. (len i, copied i)) (ContinueDispatch True (\<lambda>_. 0x90) zero_instr p) = Some (1, True)"
    by (subst ContinueDispatch.simps) code_simp
  from copied_run_step [OF this, of "Suc r" r] Suc show ?case by simp
qed (rule copied_run.covered)

lemma two_chunks:
  obtains arena1 arena2 where
    "AllocateCodeChunk (Some 0x10000) 4096 32 None = (Some \<lparr>mr_address = 0x10000, mr_length = 32\<rparr>, arena1)"
    "AllocateCodeChunk None 4096 48 arena1 = (Some \<lparr>mr_address = 0x10020, mr_length = 48\<rparr>, arena2)"
proof (rule that)
  let ?r = "AllocateCodeChunk (Some 0x10000) 4096 32 None"
  have "fst ?r = Some \<lparr>mr_address = 0x10000, mr_length = 32\<rparr>" by code_simp
  then show "?r = (Some \<lparr>mr_address = 0x10000, mr_length = 32\<rparr>, snd ?r)" by (simp add: prod_eq_iff)
  have "fst (AllocateCodeChunk None 4096 48 (snd ?r)) = Some \<lparr>mr_address = 0x10020, mr_length = 48\<rparr>" by code_simp
  then show "AllocateCodeChunk None 4096 48 (snd ?r) =
      (Some \<lparr>mr_address = 0x10020, mr_length = 48\<rparr>, snd (AllocateCodeChunk None 4096 48 (snd ?r)))" by (simp add: prod_eq_iff)
qed

theorem relocation_x64_retry_is_empty_witness:
  "\<exists>arena2. GenRelocateCode_x64 (\<lambda>_. 0) (\<lambda>k. if k = 0 then Some 0x10000 else None) 4096 (\<lambda>_. 0x90) 0x1000
     \<lparr>mr_address = 0x1000, mr_length = 20\<rparr> \<lparr>mr_address = 0, mr_length = 0\<rparr> None
     \<lparr>e_mem = (\<lambda>_. 0), e_writable = (\<lambda>_. True)\<rparr> =
       Some (Inr (\<lparr>mr_address = 0x10020, mr_length = 48\<rparr>, arena2, \<lparr>e_mem = (\<lambda>_. 0), e_writable = (\<lambda>_. True)\<rparr>))"
proof -
  obtain arena1 arena2 where
    "AllocateCodeChunk (Some 0x10000) 4096 32 None = (Some \<lparr>mr_address = 0x10000, mr_length = 32\<rparr>, arena1)"
    "AllocateCodeChunk None 4096 48 arena1 = (Some \<lparr>mr_address = 0x10020, mr_length = 48\<rparr>, arena2)"
    by (rule two_chunks)
  then show ?thesis
    using relocation_x64_retry_is_empty [of "\<lambda>_. 0x90" "0x1000" "\<lparr>mr_address = 0x1000, mr_length = 20\<rparr>" 20
        "\<lambda>k. if k = 0 then Some 0x10000 else None" 4096 None _ arena1 _ arena2] nops_run [of "0x1000" 20]
    by auto
qed

end
