(* ===== verification/Text_Tools.thy ===== *)
theory Text_Tools
  imports C_Prelude
begin

text \<open>
  The text functions of \<^verbatim>\<open>Tools/tools.cpp\<close>: the conversion of UTF-8 to the two-byte characters of the game's strings,
  lower-casing of such a string in place, and the search for a byte pattern; and the functions of the C
  library that the injected code parses its dictionary with.  A buffer is the list of its bytes, and an access
  outside it ends the run with \<open>OutOfBounds\<close>, so that the theorems on these functions say how large a buffer has
  to be.  The target is 32-bit ARM, where \<^verbatim>\<open>char\<close> is unsigned.
\<close>

section \<open>Buffers\<close>

definition rd :: "u8 list \<Rightarrow> nat \<Rightarrow> u8 res" where
  "rd p i = (if i < length p then Inr (p ! i) else Inl OutOfBounds)"

definition wr :: "u8 list \<Rightarrow> nat \<Rightarrow> u8 \<Rightarrow> u8 list res" where
  "wr p i b = (if i < length p then Inr (p[i := b]) else Inl OutOfBounds)"

lemma rd_simps [simp]: "rd (b # p) 0 = Inr b" "rd (b # p) (Suc i) = rd p i" "rd [] i = Inl OutOfBounds"
  by (simp_all add: rd_def)

lemma rd_numeral [simp]: "rd (b # p) (numeral k) = rd p (pred_numeral k)" "rd (b # p) 1 = rd p 0"
  by (simp_all add: numeral_eq_Suc rd_def)

lemma res_bind_cong [fundef_cong]: "r = r' \<Longrightarrow> (\<And>x. r' = Inr x \<Longrightarrow> f x = f' x) \<Longrightarrow> res_bind r f = res_bind r' f'"
  by (cases r') simp_all

text \<open>The operands of \<^verbatim>\<open>&&\<close>: the second is evaluated only when the first holds.\<close>

definition res_and :: "bool res \<Rightarrow> bool res \<Rightarrow> bool res" where
  "res_and p q = res_bind p (\<lambda>b. if b then q else Inr False)"

lemma res_and_simps [simp]: "res_and (Inr True) q = q" "res_and (Inr False) q = Inr False"
  by (simp_all add: res_and_def)

section \<open>UTF8_to_Unicode\<close>

definition is_continuation :: "u8 list \<Rightarrow> nat \<Rightarrow> bool res" where
  "is_continuation src k = res_bind (rd src k) (\<lambda>b. Inr (b AND 0xC0 = 0x80))"

text \<open>The length and the value of the sequence at \<open>src\<close>, or \<open>None\<close> for the \<^verbatim>\<open>break\<close>.\<close>

definition utf8_char :: "u8 list \<Rightarrow> (nat \<times> u32) option res" where
  "utf8_char src =
     res_bind (rd src 0) (\<lambda>s0.
     if s0 AND 0x80 = 0 then Inr (Some (1, ucast s0))
     else res_bind (res_and (Inr (s0 AND 0xE0 = 0xC0)) (is_continuation src 1)) (\<lambda>two.
     if two then
       res_bind (rd src 1) (\<lambda>s1. Inr (Some (2, push_bit 6 (ucast s0 AND 0x1F) OR (ucast s1 AND 0x3F))))
     else res_bind (res_and (Inr (s0 AND 0xF0 = 0xE0)) (res_and (is_continuation src 1) (is_continuation src 2))) (\<lambda>three.
     if three then
       res_bind (rd src 1) (\<lambda>s1. res_bind (rd src 2) (\<lambda>s2.
         Inr (Some (3, push_bit 12 (ucast s0 AND 0x0F) OR push_bit 6 (ucast s1 AND 0x3F) OR (ucast s2 AND 0x3F)))))
     else res_bind (res_and (Inr (s0 AND 0xF0 = 0xF0))
         (res_and (is_continuation src 1) (res_and (is_continuation src 2) (is_continuation src 3)))) (\<lambda>four.
     if four then
       res_bind (rd src 1) (\<lambda>s1. res_bind (rd src 2) (\<lambda>s2. res_bind (rd src 3) (\<lambda>s3.
         Inr (Some (4, push_bit 18 (ucast s0 AND 0x07) OR push_bit 12 (ucast s1 AND 0x3F) OR push_bit 6 (ucast s2 AND 0x3F)
           OR (ucast s3 AND 0x3F))))))
     else Inr None))))"

lemma utf8_char_length: "utf8_char src = Inr (Some (n, u)) \<Longrightarrow> 0 < n \<and> 0 < length src"
  by (auto simp: utf8_char_def res_bind_Inr_iff rd_def split: if_splits)

text \<open>\<open>j\<close> is the number of bytes of \<open>dst\<close> written, \<open>i\<close> the counter that is returned.\<close>

function utf8_loop :: "u8 list \<Rightarrow> nat \<Rightarrow> u8 list \<Rightarrow> u32 \<Rightarrow> (u8 list \<times> u32) res" where
  "utf8_loop dst j src i =
     res_bind (rd src 0) (\<lambda>b.
       if b = 0 then res_bind (wr dst j 0) (\<lambda>dst'. Inr (dst', i))
       else res_bind (utf8_char src) (\<lambda>c.
         case c of
           None \<Rightarrow> res_bind (wr dst j 0) (\<lambda>dst'. Inr (dst', i))
         | Some (codeLen, unicode) \<Rightarrow>
             res_bind (wr dst j (ucast (unicode AND 0xFF))) (\<lambda>dst1.
             res_bind (wr dst1 (j + 1) (ucast (drop_bit 8 unicode AND 0xFF))) (\<lambda>dst2.
             utf8_loop dst2 (j + 2) (drop codeLen src) (i + 2)))))"
  by pat_completeness auto

termination
  by (relation "measure (\<lambda>(_, _, src, _). length src)") (auto dest: utf8_char_length)

declare utf8_loop.simps [simp del]

definition UTF8_to_Unicode :: "u8 list \<Rightarrow> u8 list \<Rightarrow> (u8 list \<times> u32) res" where
  "UTF8_to_Unicode dst src = utf8_loop dst 0 src 0"

section \<open>tolower_unicode\<close>

function tolower_loop :: "u8 list \<Rightarrow> nat \<Rightarrow> int \<Rightarrow> u8 list res" where
  "tolower_loop c current_pos len =
     (if int current_pos \<le> len then
        res_bind (rd c (current_pos + 1)) (\<lambda>hi.
        res_bind (if hi = 0 then
             res_bind (rd c current_pos) (\<lambda>lo.
               if lo \<noteq> 0 \<and> 0x41 \<le> lo \<and> lo \<le> 0x5A then wr c current_pos (lo + (0x61 - 0x41)) else Inr c)
           else Inr c) (\<lambda>c'.
        tolower_loop c' (current_pos + 2) len))
      else Inr c)"
  by pat_completeness auto

termination
  by (relation "measure (\<lambda>(_, p, len). nat (len + 1 - int p))") auto

declare tolower_loop.simps [simp del]

definition tolower_unicode :: "u8 list \<Rightarrow> int \<Rightarrow> u8 list res" where
  "tolower_unicode c len = tolower_loop c 0 len"

section \<open>memcmp_plus\<close>

text \<open>\<open>memcmp\<close> of \<open>n\<close> bytes, which have to be there on both sides; the result is the offset in \<open>p0\<close>.\<close>

definition c_memcmp :: "u8 list \<Rightarrow> u8 list \<Rightarrow> int \<Rightarrow> bool res" where
  "c_memcmp p q n = (if 0 \<le> n \<and> nat n \<le> length p \<and> nat n \<le> length q then Inr (take (nat n) p = take (nat n) q) else Inl OutOfBounds)"

function memcmp_loop :: "u8 list \<Rightarrow> nat \<Rightarrow> u8 list \<Rightarrow> int \<Rightarrow> int \<Rightarrow> nat option res" where
  "memcmp_loop p0 k p1 lt1 lt2 =
     (if lt2 \<noteq> 0 \<and> lt2 \<le> lt1 then
        res_bind (c_memcmp (drop k p0) p1 lt2) (\<lambda>eq.
          if eq then Inr (Some k) else memcmp_loop p0 (k + 1) p1 (lt1 - 1) lt2)
      else Inr None)"
  by pat_completeness auto

termination
  by (relation "measure (\<lambda>(_, _, _, lt1, lt2). nat (lt1 + 1 - lt2))") auto

declare memcmp_loop.simps [simp del]

definition memcmp_plus :: "u8 list \<Rightarrow> u8 list \<Rightarrow> int \<Rightarrow> int \<Rightarrow> nat option res" where
  "memcmp_plus p0 p1 lt1 lt2 = memcmp_loop p0 0 p1 lt1 lt2"

section \<open>The conversion is that of UTF-8 to UTF-16\<close>

text \<open>The encoding of a code point by the bit patterns of the standard, and the low sixteen bits in little-endian order.\<close>

definition utf8_enc :: "u32 \<Rightarrow> u8 list" where
  "utf8_enc c =
     (if c < 0x80 then [ucast c]
      else if c < 0x800 then [0xC0 OR (ucast (drop_bit 6 c) AND mask 5), 0x80 OR (ucast c AND mask 6)]
      else if c < 0x10000 then
        [0xE0 OR (ucast (drop_bit 12 c) AND mask 4), 0x80 OR (ucast (drop_bit 6 c) AND mask 6), 0x80 OR (ucast c AND mask 6)]
      else [0xF0 OR (ucast (drop_bit 18 c) AND mask 3), 0x80 OR (ucast (drop_bit 12 c) AND mask 6), 0x80 OR (ucast (drop_bit 6 c) AND mask 6),
        0x80 OR (ucast c AND mask 6)])"

text \<open>The low sixteen bits of every code point, which is what the code writes, and UTF-16, with a pair of surrogates above \<open>0xFFFF\<close>.\<close>

definition low_half_bytes :: "u32 \<Rightarrow> u8 list" where
  "low_half_bytes c = le_bytes 2 c"

definition low_halves :: "u32 list \<Rightarrow> u8 list" where
  "low_halves cs = concat (map low_half_bytes cs)"

definition utf16_char :: "u32 \<Rightarrow> u8 list" where
  "utf16_char c =
     (if c < 0x10000 then le_bytes 2 c
      else le_bytes 2 (0xD800 + drop_bit 10 (c - 0x10000)) @ le_bytes 2 (0xDC00 + ((c - 0x10000) AND 0x3FF)))"

definition utf16 :: "u32 list \<Rightarrow> u8 list" where
  "utf16 cs = concat (map utf16_char cs)"

lemma utf16_length: "length (utf16 cs) = 2 * length cs + 2 * length (filter (\<lambda>c. \<not> c < 0x10000) cs)"
  by (induction cs) (auto simp: utf16_def utf16_char_def)

lemma utf16_low: "\<forall>c \<in> set cs. c < 0x10000 \<Longrightarrow> utf16 cs = low_halves cs"
  by (induction cs) (auto simp: utf16_def utf16_char_def low_halves_def low_half_bytes_def)

lemma length_low_halves [simp]: "length (low_halves cs) = 2 * length cs"
  by (induction cs) (simp_all add: low_halves_def low_half_bytes_def)

lemma low_halves_utf16: "low_halves cs = utf16 cs \<longleftrightarrow> (\<forall>c \<in> set cs. c < 0x10000)"
proof
  assume "low_halves cs = utf16 cs"
  then have "length (utf16 cs) = 2 * length cs" by (metis length_low_halves)
  then show "\<forall>c \<in> set cs. c < 0x10000" by (simp add: utf16_length filter_empty_conv)
qed (use utf16_low in simp)

lemma low_halves_Cons: "low_halves (c # cs) = low_half_bytes c @ low_halves cs"
  by (simp add: low_halves_def)

text \<open>A field below a marker is read back, and the marker alone decides the tests on the byte.\<close>

lemma byte_field:
  assumes "h AND mask k = 0" "k \<le> 8"
  shows "(ucast (h OR (ucast y AND mask k) :: u8) :: u32) AND mask k = y AND mask k"
proof (rule bit_word_eqI)
  fix n assume "n < LENGTH(32)"
  have "bit (h AND mask k) n \<longleftrightarrow> False" using assms(1) by simp
  then show "bit (ucast (h OR (ucast y AND mask k) :: u8) AND mask k :: u32) n = bit (y AND mask k) n"
    using assms(2) by (auto simp: bit_simps)
qed

lemma byte_test: "m AND mask k = 0 \<Longrightarrow> (h OR (y AND mask k)) AND m = h AND m" for y :: u8
  by (simp add: bit.conj_disj_distrib2 and.assoc and.commute [of "mask k"])

lemma small_bits: "c < 2 ^ k \<Longrightarrow> bit c n \<Longrightarrow> n < k" for c :: u32
proof -
  assume "c < 2 ^ k" "bit c n"
  then have "bit (c AND mask k) n" by (simp add: less_mask_eq)
  then show ?thesis by (simp add: bit_simps)
qed

lemma small_word_eqI:
  fixes c :: u32
  assumes "c < 2 ^ k" "\<And>n. n < k \<Longrightarrow> n < 32 \<Longrightarrow> bit d n = bit c n" "\<And>n. k \<le> n \<Longrightarrow> \<not> bit d n"
  shows "d = c"
proof (rule bit_word_eqI)
  fix n assume "n < LENGTH(32)"
  then show "bit d n = bit c n" using assms(2,3) [of n] small_bits [OF assms(1), of n] by (cases "n < k") auto
qed

lemma and_single_bit: "\<not> bit x k \<Longrightarrow> x AND push_bit k 1 = 0" for x :: "'a::len word"
  by (intro bit_word_eqI) (auto simp: bit_simps bit_1_iff)

lemma field_join: "push_bit k (drop_bit k c AND mask m) OR (c AND mask k) = c AND mask (k + m)" for c :: u32
  by (rule bit_word_eqI) (auto simp: bit_simps)

lemma fields_join:
  fixes c :: u32
  shows "c < 2 ^ 11 \<Longrightarrow> push_bit 6 (drop_bit 6 c AND mask 5) OR (c AND mask 6) = c"
    "c < 2 ^ 16 \<Longrightarrow> push_bit 12 (drop_bit 12 c AND mask 4) OR push_bit 6 (drop_bit 6 c AND mask 6) OR (c AND mask 6) = c"
    "c < 2 ^ 21 \<Longrightarrow> push_bit 18 (drop_bit 18 c AND mask 3) OR push_bit 12 (drop_bit 12 c AND mask 6) OR push_bit 6 (drop_bit 6 c AND mask 6) OR (c AND mask 6) = c"
  using field_join [of 6 c 5] field_join [of 6 c 6] field_join [of 12 c 4] field_join [of 12 c 6] field_join [of 18 c 3]
    less_mask_eq [of c 11] less_mask_eq [of c 16] less_mask_eq [of c 21] by simp_all

lemma mask_num:
  "(0x1F :: u32) = mask 5" "(0x3F :: u32) = mask 6" "(0x0F :: u32) = mask 4" "(0x07 :: u32) = mask 3"
  by (simp_all add: mask_eq_exp_minus_1)

lemma continuation_byte: "(0x80 OR (y AND mask 6)) AND 0xC0 = (0x80 :: u8)"
  by (subst byte_test) (simp_all add: mask_eq_exp_minus_1)

lemma lead_bytes:
  fixes y :: u8
  shows "(0xC0 OR (y AND mask 5)) AND 0x80 \<noteq> 0" "(0xC0 OR (y AND mask 5)) AND 0xE0 = 0xC0"
    "(0xE0 OR (y AND mask 4)) AND 0x80 \<noteq> 0" "(0xE0 OR (y AND mask 4)) AND 0xE0 \<noteq> 0xC0" "(0xE0 OR (y AND mask 4)) AND 0xF0 = 0xE0"
    "(0xF0 OR (y AND mask 3)) AND 0x80 \<noteq> 0" "(0xF0 OR (y AND mask 3)) AND 0xE0 \<noteq> 0xC0" "(0xF0 OR (y AND mask 3)) AND 0xF0 = 0xF0"
  by (subst byte_test; simp add: mask_eq_exp_minus_1)+

lemma byte_fields:
  "(ucast (0xC0 OR (ucast y AND mask 5) :: u8) :: u32) AND mask 5 = y AND mask 5"
  "(ucast (0xE0 OR (ucast y AND mask 4) :: u8) :: u32) AND mask 4 = y AND mask 4"
  "(ucast (0xF0 OR (ucast y AND mask 3) :: u8) :: u32) AND mask 3 = y AND mask 3"
  "(ucast (0x80 OR (ucast y AND mask 6) :: u8) :: u32) AND mask 6 = y AND mask 6"
  by (rule byte_field; simp add: mask_eq_exp_minus_1)+

lemma ascii_ucast: "c < 0x80 \<Longrightarrow> (ucast (ucast c :: u8) :: u32) = c"
  by (rule small_word_eqI [of _ 7]) (auto simp: bit_simps dest!: small_bits [of c 7, simplified])

lemma utf8_char_enc:
  assumes "c < 0x200000"
  shows "utf8_char (utf8_enc c @ rest) = Inr (Some (length (utf8_enc c), c))"
proof -
  consider "c < 0x80" | "\<not> c < 0x80" "c < 0x800" | "\<not> c < 0x80" "\<not> c < 0x800" "c < 0x10000" | "\<not> c < 0x80" "\<not> c < 0x800" "\<not> c < 0x10000"
    by blast
  then show ?thesis
  proof cases
    case 1
    then have c: "c < 2 ^ 7" by simp
    have "ucast c AND (0x80 :: u8) = 0" using and_single_bit [of "ucast c :: u8" 7] small_bits [OF c, of 7] by (auto simp: bit_simps)
    then show ?thesis using 1 ascii_ucast [OF 1] by (simp add: utf8_char_def utf8_enc_def)
  next
    case 2
    then show ?thesis using fields_join(1) [of c]
      by (simp add: utf8_char_def utf8_enc_def is_continuation_def lead_bytes continuation_byte mask_num byte_fields del: push_bit_and)
  next
    case 3
    then show ?thesis using fields_join(2) [of c]
      by (simp add: utf8_char_def utf8_enc_def is_continuation_def lead_bytes continuation_byte mask_num byte_fields del: push_bit_and)
  next
    case 4
    then show ?thesis using fields_join(3) [of c] assms
      by (simp add: utf8_char_def utf8_enc_def is_continuation_def lead_bytes continuation_byte mask_num byte_fields del: push_bit_and)
  qed
qed

lemma poke_poke_next:
  "j + length xs + length ys \<le> length d \<Longrightarrow> poke (j + length xs) ys (poke j xs d) = poke j (xs @ ys) d"
  by (simp add: poke_def ac_simps)

lemma wr_one: "j < length d \<Longrightarrow> wr d j a = Inr (poke j [a] d)"
  by (simp add: wr_def poke_def upd_conv_take_nth_drop)

lemma wr_pair:
  "j + 1 < length d \<Longrightarrow> res_bind (wr d j a) (\<lambda>d1. res_bind (wr d1 (j + 1) b) f) = f (poke j [a, b] d)"
  using poke_poke_next [of j "[a]" "[b]" d] by (simp add: wr_one)

lemma low_half_bytes_AND: "low_half_bytes c = [ucast (c AND 0xFF), ucast (drop_bit 8 c AND 0xFF)]"
proof -
  have m: "(0xFF :: u32) = mask 8" by (simp add: mask_eq_exp_minus_1)
  have "(ucast (x AND mask 8) :: u8) = ucast x" for x :: u32 by (rule bit_word_eqI) (auto simp: bit_simps)
  then show ?thesis unfolding m by (simp add: low_half_bytes_def le_bytes_def numeral_2_eq_2)
qed

text \<open>One round of the loop for a sequence that \<open>utf8_char\<close> accepts.\<close>

lemma utf8_loop_char:
  assumes "src \<noteq> []" "src ! 0 \<noteq> 0" "utf8_char src = Inr (Some (n, c))" "j + 1 < length dst"
  shows "utf8_loop dst j src i = utf8_loop (poke j (low_half_bytes c) dst) (j + 2) (drop n src) (i + 2)"
proof -
  have "rd src 0 = Inr (src ! 0)" using assms(1) by (simp add: rd_def)
  then show ?thesis using assms(2,3) wr_pair [OF assms(4)] by (subst utf8_loop.simps) (simp add: low_half_bytes_AND)
qed

lemma utf8_enc_first:
  assumes "0 < c"
  shows "utf8_enc c \<noteq> []" "utf8_enc c ! 0 \<noteq> 0"
proof -
  have "ucast c \<noteq> (0 :: u8)" if "c < 0x80"
    using ascii_ucast [OF that] assms by auto
  then show "utf8_enc c \<noteq> []" "utf8_enc c ! 0 \<noteq> 0"
    using lead_bytes(1) [of "ucast (drop_bit 6 c)"] lead_bytes(3) [of "ucast (drop_bit 12 c)"] lead_bytes(6) [of "ucast (drop_bit 18 c)"]
    by (auto simp: utf8_enc_def)
qed

lemma utf8_loop_enc:
  assumes "\<forall>c \<in> set cs. 0 < c \<and> c < 0x200000" "j + 2 * length cs < length dst"
  shows "utf8_loop dst j (concat (map utf8_enc cs) @ 0 # rest) i = Inr (poke j (low_halves cs @ [0]) dst, i + of_nat (2 * length cs))"
  using assms
proof (induction cs arbitrary: dst j i)
  case Nil
  then show ?case by (subst utf8_loop.simps) (simp add: wr_one low_halves_def)
next
  case (Cons c cs)
  let ?rest = "concat (map utf8_enc cs) @ 0 # rest"
  have c: "0 < c" "c < 0x200000" using Cons.prems(1) by simp_all
  let ?d = "poke j (low_half_bytes c) dst"
  have len: "length (low_half_bytes c) = 2" by (simp add: low_half_bytes_def)
  have "utf8_loop dst j (utf8_enc c @ ?rest) i = utf8_loop ?d (j + 2) ?rest (i + 2)"
    using utf8_loop_char [of "utf8_enc c @ ?rest" "length (utf8_enc c)" c j dst i] utf8_char_enc [OF c(2)] utf8_enc_first [OF c(1)] Cons.prems(2)
    by (simp add: nth_append)
  also have "\<dots> = Inr (poke (j + 2) (low_halves cs @ [0]) ?d, i + 2 + of_nat (2 * length cs))"
    using Cons.prems len by (intro Cons.IH) simp_all
  also have "poke (j + 2) (low_halves cs @ [0]) ?d = poke j (low_halves (c # cs) @ [0]) dst"
    using poke_poke_next [of j "low_half_bytes c" "low_halves cs @ [0]" dst] Cons.prems(2) len by (simp add: low_halves_Cons)
  finally show ?case by (simp add: algebra_simps)
qed

text \<open>
  (C38) For the UTF-8 encoding of any list of code points, none of them zero, in a buffer with room, \<^verbatim>\<open>UTF8_to_Unicode\<close> writes the low
  sixteen bits of every code point in little-endian order with one zero byte after them, writes nothing else, and returns twice the number
  of code points.  What it writes is the UTF-16 encoding exactly when all code points are below \<open>0x10000\<close>: it makes no
  pairs of surrogates.
\<close>

theorem utf8_to_unicode_correct:
  assumes "\<forall>c \<in> set cs. 0 < c \<and> c < 0x110000" "2 * length cs < length dst"
  shows "UTF8_to_Unicode dst (concat (map utf8_enc cs) @ 0 # rest) = Inr (poke 0 (low_halves cs @ [0]) dst, of_nat (2 * length cs))
    \<and> (low_halves cs = utf16 cs \<longleftrightarrow> (\<forall>c \<in> set cs. c < 0x10000))"
proof -
  have "(0x110000 :: u32) < 0x200000" by simp
  then have "\<forall>c \<in> set cs. 0 < c \<and> c < 0x200000" using assms(1) less_trans by blast
  from utf8_loop_enc [OF this, of 0 dst rest 0] assms(2) show ?thesis by (simp add: UTF8_to_Unicode_def low_halves_utf16)
qed

theorem utf8_to_unicode_correct_witness:
  "UTF8_to_Unicode [9, 9, 9, 9, 9, 9] [0x41, 0xE4, 0xB8, 0xAD, 0] = Inr ([0x41, 0, 0x2D, 0x4E, 0, 9], 4)"
proof -
  have e: "concat (map utf8_enc [0x41, 0x4E2D]) @ 0 # [] = [0x41, 0xE4, 0xB8, 0xAD, 0]"
    "poke 0 (low_halves [0x41, 0x4E2D] @ [0]) [9, 9, 9, 9, 9, 9] = [0x41, 0, 0x2D, 0x4E, 0, 9]"
    "of_nat (2 * length [0x41, 0x4E2D :: u32]) = (4 :: u32)" by code_simp+
  show ?thesis by (rule utf8_to_unicode_correct [of "[0x41, 0x4E2D]" "[9, 9, 9, 9, 9, 9]" "[]", unfolded e, THEN conjunct1]) simp_all
qed

text \<open>
  On any string that ends, well-formed or not, the conversion reads no byte behind the end, and a buffer with two bytes for
  each byte of the string and one more is large enough.
\<close>

lemma utf8_char_total:
  assumes "0 \<notin> set bs" "bs \<noteq> []"
  obtains "utf8_char (bs @ 0 # rest) = Inr None"
  | n c where "utf8_char (bs @ 0 # rest) = Inr (Some (n, c))" "0 < n" "n \<le> length bs"
proof -
  obtain b0 bs0 where b0: "bs = b0 # bs0" using assms(2) by (cases bs) auto
  consider "bs0 = []" | b1 where "bs0 = [b1]" | b1 b2 where "bs0 = [b1, b2]" | b1 b2 b3 bs3 where "bs0 = b1 # b2 # b3 # bs3"
    by (metis list.exhaust)
  then have "\<exists>r. utf8_char (bs @ 0 # rest) = Inr r \<and> (\<forall>n c. r = Some (n, c) \<longrightarrow> 0 < n \<and> n \<le> length bs)"
    by cases (auto simp: b0 utf8_char_def is_continuation_def res_and_def)
  then show ?thesis using that by (metis option.exhaust surj_pair)
qed

text \<open>The characters that the conversion finds in a string.\<close>

function utf8_units :: "u8 list \<Rightarrow> u32 list" where
  "utf8_units bs =
     (if bs = [] then []
      else case utf8_char (bs @ [0]) of Inr (Some (n, c)) \<Rightarrow> c # utf8_units (drop n bs) | _ \<Rightarrow> [])"
  by pat_completeness auto

termination
  by (relation "measure length") (auto dest: utf8_char_length)

declare utf8_units.simps [simp del]

lemma utf8_char_end:
  assumes "0 \<notin> set bs" "bs \<noteq> []"
  shows "utf8_char (bs @ 0 # rest) = utf8_char (bs @ [0])"
proof -
  obtain b0 bs0 where b0: "bs = b0 # bs0" using assms(2) by (cases bs) auto
  consider "bs0 = []" | b1 where "bs0 = [b1]" | b1 b2 where "bs0 = [b1, b2]" | b1 b2 b3 bs3 where "bs0 = b1 # b2 # b3 # bs3"
    by (metis list.exhaust)
  then show ?thesis by cases (simp_all add: b0 utf8_char_def is_continuation_def res_and_def)
qed

lemma utf8_loop_units:
  assumes "0 \<notin> set bs" "j + 2 * length bs < length dst"
  shows "utf8_loop dst j (bs @ 0 # rest) i = Inr (poke j (low_halves (utf8_units bs) @ [0]) dst, i + of_nat (2 * length (utf8_units bs)))
    \<and> length (utf8_units bs) \<le> length bs"
  using assms
proof (induction bs arbitrary: dst j i rule: utf8_units.induct)
  case (1 bs)
  show ?case
  proof (cases "bs = []")
    case True
    then show ?thesis using 1(3) by (subst utf8_loop.simps) (simp add: wr_one utf8_units.simps low_halves_def)
  next
    case False
    then have b: "(bs @ 0 # rest) \<noteq> []" "(bs @ 0 # rest) ! 0 \<noteq> 0" using 1(2) by (cases bs; auto)+
    note e = utf8_char_end [OF 1(2) False, of rest, symmetric]
    from 1(2) False show ?thesis
    proof (cases rule: utf8_char_total [where rest = rest])
      case n: 1
      then have "utf8_units bs = []" using False e by (simp add: utf8_units.simps [of bs])
      then show ?thesis using n b 1(3) by (subst utf8_loop.simps) (simp add: wr_one rd_def low_halves_def)
    next
      case (2 n c)
      let ?d = "poke j (low_half_bytes c) dst" and ?us = "utf8_units (drop n bs)"
      have u: "utf8_units bs = c # ?us" using False 2(1) e by (simp add: utf8_units.simps [of bs])
      have len: "length (low_half_bytes c) = 2" by (simp add: low_half_bytes_def)
      have pos: "0 < length bs" using False by simp
      have d: "length ?d = length dst" using 1(3) pos len by (intro length_poke) linarith
      have "0 \<notin> set (drop n bs)" using 1(2) by (meson in_set_dropD)
      moreover have "j + 2 + 2 * length (drop n bs) < length ?d" using 1(3) 2(2,3) d by simp
      moreover have "utf8_char (bs @ [0]) = Inr (Some (n, c))" using 2(1) e by simp
      ultimately have ih: "utf8_loop ?d (j + 2) (drop n bs @ 0 # rest) (i + 2) = Inr (poke (j + 2) (low_halves ?us @ [0]) ?d, i + 2 + of_nat (2 * length ?us))"
          "length ?us \<le> length (drop n bs)"
        using 1(1) [OF False _ refl refl] by blast+
      have "j + 1 < length dst" using 1(3) pos by linarith
      from utf8_loop_char [OF b 2(1) this, of i]
      have "utf8_loop dst j (bs @ 0 # rest) i = utf8_loop ?d (j + 2) (drop n bs @ 0 # rest) (i + 2)"
        using 2(3) by simp
      moreover have "poke (j + 2) (low_halves ?us @ [0]) ?d = poke j (low_halves (c # ?us) @ [0]) dst"
        using poke_poke_next [of j "low_half_bytes c" "low_halves ?us @ [0]" dst] 1(3) len ih(2) 2(2,3) by (simp add: low_halves_Cons)
      ultimately show ?thesis using ih 2(2,3) unfolding u by (auto simp: algebra_simps)
    qed
  qed
qed

definition wide_text :: "u8 list \<Rightarrow> u8 list" where
  "wide_text bs = low_halves (utf8_units bs)"

lemma UTF8_to_Unicode_wide:
  assumes "0 \<notin> set bs" "2 * length bs < length dst"
  shows "UTF8_to_Unicode dst (bs @ 0 # rest) = Inr (poke 0 (wide_text bs @ [0]) dst, of_nat (length (wide_text bs)))"
    "length (wide_text bs) \<le> 2 * length bs" "even (length (wide_text bs))"
  using utf8_loop_units [of bs 0 dst rest 0] assms by (simp_all add: UTF8_to_Unicode_def wide_text_def)

section \<open>Lower-casing\<close>

text \<open>
  The reference: the bytes at the even positions from \<open>p\<close> to \<open>n\<close> that are an upper-case ASCII letter with a zero byte
  behind them become lower-case letters.
\<close>

definition upper_at :: "u8 list \<Rightarrow> nat \<Rightarrow> bool" where
  "upper_at c i \<longleftrightarrow> c ! (i + 1) = 0 \<and> 0x41 \<le> c ! i \<and> c ! i \<le> 0x5A"

definition lower_between :: "nat \<Rightarrow> nat \<Rightarrow> u8 list \<Rightarrow> u8 list" where
  "lower_between p n c = map (\<lambda>i. if p \<le> i \<and> i \<le> n \<and> even i \<and> upper_at c i then c ! i + 0x20 else c ! i) [0..<length c]"

abbreviation lower_to :: "nat \<Rightarrow> u8 list \<Rightarrow> u8 list" where
  "lower_to \<equiv> lower_between 0"

lemma length_lower_between [simp]: "length (lower_between p n c) = length c"
  by (simp add: lower_between_def)

lemma nth_lower_between:
  "i < length c \<Longrightarrow> lower_between p n c ! i = (if p \<le> i \<and> i \<le> n \<and> even i \<and> upper_at c i then c ! i + 0x20 else c ! i)"
  by (simp add: lower_between_def)

lemma lower_between_step:
  assumes "even p" "p \<le> n" "p + 1 < length c"
  shows "lower_between (p + 2) n (if upper_at c p then c[p := c ! p + 0x20] else c) = lower_between p n c"
proof (rule nth_equalityI)
  fix i assume "i < length (lower_between (p + 2) n (if upper_at c p then c[p := c ! p + 0x20] else c))"
  then have i: "i < length c" by (simp split: if_splits)
  consider "i = p" | "i = p + 1" | "i < p" | "p + 2 \<le> i" by linarith
  then show "lower_between (p + 2) n (if upper_at c p then c[p := c ! p + 0x20] else c) ! i = lower_between p n c ! i"
    by cases (use i assms in \<open>auto simp: nth_lower_between upper_at_def nth_list_update\<close>)
qed simp

lemma tolower_loop_spec:
  assumes "even p" "p \<le> n + 2" "even n" "n + 2 \<le> length c"
  shows "tolower_loop c p (int n) = Inr (lower_between p n c)"
  using assms
proof (induction "n + 2 - p" arbitrary: p c rule: less_induct)
  case less
  show ?case
  proof (cases "p \<le> n")
    case False
    then have "lower_between p n c = c" by (intro nth_equalityI) (auto simp: nth_lower_between)
    then show ?thesis using False by (subst tolower_loop.simps) simp
  next
    case True
    let ?c = "if upper_at c p then c[p := c ! p + 0x20] else c"
    have p: "p + 1 < length c" using True less.prems by linarith
    have "tolower_loop c p (int n) = tolower_loop ?c (p + 2) (int n)"
      using True p by (subst tolower_loop.simps) (auto simp: rd_def wr_def upper_at_def)
    also have "\<dots> = Inr (lower_between (p + 2) n ?c)" using less.prems True by (intro less.hyps) auto
    also have "\<dots> = Inr (lower_between p n c)" using lower_between_step [of p n c] less.prems True p by simp
    finally show ?thesis .
  qed
qed

lemma tolower_unicode_spec: "even n \<Longrightarrow> n + 2 \<le> length c \<Longrightarrow> tolower_unicode c (int n) = Inr (lower_to n c)"
  by (simp add: tolower_unicode_def tolower_loop_spec)

section \<open>The search\<close>

lemma memcmp_loop_spec:
  assumes "0 < m" "m \<le> length q" "k + n \<le> length p"
  shows "memcmp_loop p k q (int n) (int m) = Inr (find (\<lambda>i. take m (drop i p) = take m q) [k..<k + n + 1 - m])"
  using assms
proof (induction n arbitrary: k)
  case 0
  then show ?case by (subst memcmp_loop.simps) simp
next
  case (Suc n)
  show ?case
  proof (cases "m \<le> Suc n")
    case False
    then show ?thesis by (subst memcmp_loop.simps) simp
  next
    case True
    then have "k < Suc k + n + 1 - m" by linarith
    then have "[k..<Suc k + n + 1 - m] = k # [Suc k..<Suc k + n + 1 - m]" by (rule upt_conv_Cons)
    then have u: "[k..<k + Suc n + 1 - m] = k # [Suc k..<Suc k + n + 1 - m]" by simp
    have "c_memcmp (drop k p) q (int m) = Inr (take m (drop k p) = take m q)" using True Suc.prems by (simp add: c_memcmp_def)
    then show ?thesis unfolding u using Suc.IH [of "Suc k"] Suc.prems True by (subst memcmp_loop.simps) simp
  qed
qed

text \<open>
  \<^verbatim>\<open>memcmp_plus\<close> returns the first position at which the pattern occurs among the first \<open>n\<close> bytes, and a null pointer
  when the pattern is empty or does not occur; it stays within the two buffers.
\<close>

theorem memcmp_plus_finds_first:
  assumes "m \<le> length q" "n \<le> length p"
  shows "memcmp_plus p q (int n) (int m) = Inr (if m = 0 then None else find (\<lambda>k. take m (drop k p) = take m q) [0..<n + 1 - m])"
proof (cases "m = 0")
  case True
  then show ?thesis by (simp add: memcmp_plus_def memcmp_loop.simps)
next
  case False
  then show ?thesis using memcmp_loop_spec [of m q 0 n p] assms by (simp add: memcmp_plus_def)
qed

theorem memcmp_plus_finds_first_witness: "memcmp_plus [1, 2, 3, 2, 3] [2, 3, 9] 5 2 = Inr (Some 1)"
  using memcmp_plus_finds_first [of 2 "[2, 3, 9]" 5 "[1, 2, 3, 2, 3]"] by (simp add: upt_rec numeral_2_eq_2 numeral_3_eq_3)

end
