(* ===== verification/Dictionary.thy ===== *)
theory Dictionary
  imports Text_Tools
begin

text \<open>
  How the injected code reads its two inputs: the dictionary file (\<^verbatim>\<open>readFile\<close> and the \<^verbatim>\<open>strtok\<close> loops of
  \<^verbatim>\<open>inject_dobby.cpp\<close>), whose first line holds two addresses and whose other lines hold a text and its translation, and
  \<^verbatim>\<open>/proc/<pid>/maps\<close> (\<^verbatim>\<open>find_module_by_name\<close> of \<^verbatim>\<open>Tools/tools.cpp\<close>).  The functions of the C library are modelled on
  lists of bytes; a string that does not end within its buffer is an access outside it.
\<close>

section \<open>strtok\<close>

definition is_delim :: "u8 \<Rightarrow> bool" where
  "is_delim b \<longleftrightarrow> b = 13 \<or> b = 10"

fun skip_delims :: "u8 list \<Rightarrow> u8 list res" where
  "skip_delims [] = Inl OutOfBounds"
| "skip_delims (b # p) = (if is_delim b then skip_delims p else Inr (b # p))"

text \<open>The token, and where the next call goes on: behind the delimiter, or at the end of the string.\<close>

fun take_token :: "u8 list \<Rightarrow> (u8 list \<times> u8 list) res" where
  "take_token [] = Inl OutOfBounds"
| "take_token (b # p) =
     (if b = 0 then Inr ([], b # p) else if is_delim b then Inr ([], p)
      else res_bind (take_token p) (\<lambda>(t, rest). Inr (b # t, rest)))"

definition strtok :: "u8 list \<Rightarrow> (u8 list \<times> u8 list) option res" where
  "strtok p = res_bind (skip_delims p) (\<lambda>p'. if hd p' = 0 then Inr None else res_bind (take_token p') (\<lambda>r. Inr (Some r)))"

lemma skip_delims_length: "skip_delims p = Inr p' \<Longrightarrow> length p' \<le> length p \<and> p' \<noteq> [] \<and> \<not> is_delim (hd p')"
  by (induction p) (auto split: if_splits)

lemma take_token_length: "take_token p = Inr (t, rest) \<Longrightarrow> length rest \<le> length p \<and> (hd p \<noteq> 0 \<longrightarrow> length rest < length p)"
  by (induction p arbitrary: t rest) (auto simp: res_bind_Inr_iff split: if_splits)

lemma strtok_length: "strtok p = Inr (Some (t, rest)) \<Longrightarrow> length rest < length p"
  by (auto simp: strtok_def res_bind_Inr_iff split: if_splits dest!: skip_delims_length take_token_length)

section \<open>The two sides of a line\<close>

text \<open>
  \<^verbatim>\<open>strstr(p, "|")\<close>, and the copies of what is before and behind the bar to two cleared buffers of \<open>cap\<close> bytes.  Without
  a bar the pointer is null, and \<^verbatim>\<open>strlen\<close> follows it.
\<close>

definition bar_position :: "u8 list \<Rightarrow> nat option" where
  "bar_position p = find (\<lambda>i. p ! i = 0x7C) [0..<length p]"

definition split_line :: "nat \<Rightarrow> u8 list \<Rightarrow> (u8 list \<times> u8 list) res" where
  "split_line cap p =
     (case bar_position p of
        None \<Rightarrow> Inl NullPointer
      | Some k \<Rightarrow>
          if cap < k then Inl OutOfBounds
          else if cap < length p - k then Inl OutOfBounds
          else Inr (take k p @ replicate (cap - k) 0, drop (k + 1) p @ replicate (cap - (length p - k - 1)) 0))"

section \<open>Numbers\<close>

definition hex_val :: "u8 \<Rightarrow> nat option" where
  "hex_val b =
     (if 0x30 \<le> b \<and> b \<le> 0x39 then Some (unat b - 0x30)
      else if 0x61 \<le> b \<and> b \<le> 0x66 then Some (unat b - 0x57)
      else if 0x41 \<le> b \<and> b \<le> 0x46 then Some (unat b - 0x37)
      else None)"

fun hex_digits :: "nat \<Rightarrow> u8 list \<Rightarrow> nat res" where
  "hex_digits acc [] = Inl OutOfBounds"
| "hex_digits acc (b # p) = (case hex_val b of None \<Rightarrow> Inr acc | Some d \<Rightarrow> hex_digits (acc * 16 + d) p)"

definition is_space :: "u8 \<Rightarrow> bool" where
  "is_space b \<longleftrightarrow> b = 32 \<or> 9 \<le> b \<and> b \<le> 13"

text \<open>\<^verbatim>\<open>strtol(p, NULL, 16)\<close> with the 32-bit \<^verbatim>\<open>long\<close> of the target: the value is clipped.\<close>

definition hex_prefix :: "u8 list \<Rightarrow> u8 list" where
  "hex_prefix p = (case p of b # x # q \<Rightarrow> if b = 0x30 \<and> (x = 0x78 \<or> x = 0x58) then q else p | _ \<Rightarrow> p)"

definition strtol16 :: "u8 list \<Rightarrow> int res" where
  "strtol16 p =
     (let q = dropWhile is_space p;
          neg = (q \<noteq> [] \<and> hd q = 0x2D);
          q' = (if q \<noteq> [] \<and> (hd q = 0x2D \<or> hd q = 0x2B) then tl q else q)
      in res_bind (hex_digits 0 (hex_prefix q')) (\<lambda>v.
           Inr (if neg then max (- (2 ^ 31)) (- int v) else min (2 ^ 31 - 1) (int v))))"

text \<open>
  \<^verbatim>\<open>init_address_from_file\<close>: the two numbers of the first line, in buffers of fifty bytes; the two global variables
  keep their values when the file has no line.
\<close>

definition init_address_from_file :: "u8 list \<Rightarrow> int \<times> int \<Rightarrow> (int \<times> int) res" where
  "init_address_from_file buf addresses =
     res_bind (strtok buf) (\<lambda>t.
       case t of
         None \<Rightarrow> Inr addresses
       | Some (p, rest) \<Rightarrow>
           res_bind (split_line 50 p) (\<lambda>(left, right).
           res_bind (strtol16 left) (\<lambda>address_get.
           res_bind (strtol16 right) (\<lambda>address_set.
           res_bind (strtok rest) (\<lambda>_. Inr (address_get, address_set))))))"

text \<open>
  \<^verbatim>\<open>readFile\<close> for the bytes of the file: the buffer is four zero bytes longer.  \<open>got\<close> is the number of bytes that
  \<^verbatim>\<open>fread\<close> reports.
\<close>

definition readFile :: "u8 list option \<Rightarrow> nat \<Rightarrow> u8 list option" where
  "readFile f got =
     (case f of
        None \<Rightarrow> None
      | Some bs \<Rightarrow> if got \<noteq> length bs then None else Some (bs @ replicate 4 0))"

section \<open>find_module_by_name\<close>

text \<open>\<^verbatim>\<open>fgets\<close> with room for \<open>n\<close> bytes of a line.\<close>

fun fgets :: "nat \<Rightarrow> u8 list \<Rightarrow> u8 list \<times> u8 list" where
  "fgets n [] = ([], [])"
| "fgets n (b # f) =
     (if n = 0 then ([], b # f) else if b = 10 then ([b], f) else (case fgets (n - 1) f of (l, r) \<Rightarrow> (b # l, r)))"

text \<open>\<^verbatim>\<open>strstr(l, w) != NULL\<close>.\<close>

fun contains :: "u8 list \<Rightarrow> u8 list \<Rightarrow> bool" where
  "contains [] w = (w = [])"
| "contains (b # l) w = (take (length w) (b # l) = w \<or> contains l w)"

lemma fgets_length: "length (snd (fgets n f)) \<le> length f \<and> (0 < n \<longrightarrow> f \<noteq> [] \<longrightarrow> length (snd (fgets n f)) < length f)"
proof (induction n f rule: fgets.induct)
  case (2 n b f)
  then show ?case by (cases "fgets (n - 1) f") auto
qed simp

lemma fgets_shorter: "(l, r) = fgets 255 f \<Longrightarrow> f \<noteq> [] \<Longrightarrow> length r < length f"
  using fgets_length [of 255 f] by (cases "fgets 255 f") auto

text \<open>The text before the first dash is put behind \<^verbatim>\<open>0x\<close> in a buffer of 32 bytes and read as a number.\<close>

definition module_base :: "u8 list \<Rightarrow> u32 option res" where
  "module_base l =
     (if 0x2D \<in> set l
      then let pre = takeWhile (\<lambda>b. b \<noteq> 0x2D) l
           in if 32 < length pre + 3 then Inl OutOfBounds
              else res_bind (hex_digits 0 (pre @ [0])) (\<lambda>v. Inr (Some (of_nat (min v (2 ^ 32 - 1)))))
      else Inr None)"

function find_module_by_name :: "u8 list \<Rightarrow> u8 list \<Rightarrow> u32 res" where
  "find_module_by_name soName maps =
     (if maps = [] then Inr 0
      else let (cmdline, rest) = fgets 255 maps
           in if contains cmdline soName \<and> contains cmdline [0x72, 0x2D, 0x78, 0x70]
              then res_bind (module_base cmdline) (\<lambda>r.
                     case r of Some v \<Rightarrow> Inr v | None \<Rightarrow> find_module_by_name soName rest)
              else find_module_by_name soName rest)"
  by pat_completeness auto

termination
  by (relation "measure (\<lambda>(_, maps). length maps)") (auto dest: fgets_shorter)

declare find_module_by_name.simps [simp del]

section \<open>The lines of a buffer\<close>

text \<open>The tokens that the calls of \<^verbatim>\<open>strtok\<close> return one after the other.\<close>

function tokens :: "u8 list \<Rightarrow> u8 list list" where
  "tokens [] = []"
| "tokens (b # bs) =
     (if is_delim b then tokens bs
      else (b # takeWhile (\<lambda>b. \<not> is_delim b) bs) # tokens (dropWhile (\<lambda>b. \<not> is_delim b) bs))"
  by pat_completeness auto

termination
  by (relation "measure length") (auto simp: length_dropWhile_le le_imp_less_Suc)

lemma skip_delims_tokens:
  "0 \<notin> set bs \<Longrightarrow> \<exists>bs'. skip_delims (bs @ 0 # rest) = Inr (bs' @ 0 # rest) \<and> tokens bs' = tokens bs \<and> 0 \<notin> set bs' \<and> (bs' \<noteq> [] \<longrightarrow> \<not> is_delim (hd bs'))"
proof (induction bs)
  case Nil
  then show ?case by (intro exI [of _ "[]"]) (simp add: is_delim_def)
next
  case (Cons b bs)
  show ?case
  proof (cases "is_delim b")
    case True
    then show ?thesis using Cons by auto
  next
    case False
    then show ?thesis using Cons.prems by (intro exI [of _ "b # bs"]) simp
  qed
qed

lemma take_token_tokens:
  "0 \<notin> set bs \<Longrightarrow> \<exists>bs'. take_token (bs @ 0 # rest) = Inr (takeWhile (\<lambda>b. \<not> is_delim b) bs, bs' @ 0 # rest)
     \<and> tokens bs' = tokens (dropWhile (\<lambda>b. \<not> is_delim b) bs) \<and> 0 \<notin> set bs'"
proof (induction bs)
  case Nil
  then show ?case by (intro exI [of _ "[]"]) simp
next
  case (Cons b bs)
  show ?case
  proof (cases "is_delim b")
    case True
    then show ?thesis using Cons.prems by (intro exI [of _ bs]) simp
  next
    case False
    then show ?thesis using Cons by auto
  qed
qed

lemma strtok_tokens:
  assumes "0 \<notin> set bs"
  obtains "tokens bs = []" "strtok (bs @ 0 # rest) = Inr None"
  | t bs' where "tokens bs = t # tokens bs'" "strtok (bs @ 0 # rest) = Inr (Some (t, bs' @ 0 # rest))" "0 \<notin> set bs'"
proof -
  obtain b1 where b1: "skip_delims (bs @ 0 # rest) = Inr (b1 @ 0 # rest)" "tokens b1 = tokens bs" "0 \<notin> set b1" "b1 \<noteq> [] \<longrightarrow> \<not> is_delim (hd b1)"
    using skip_delims_tokens [OF assms] by blast
  show ?thesis
  proof (cases b1)
    case Nil
    then show ?thesis using that(1) b1(1,2) by (simp add: strtok_def)
  next
    case (Cons b b2)
    then have b: "b \<noteq> 0" "\<not> is_delim b" using b1(3,4) by auto
    obtain bs' where t: "take_token (b1 @ 0 # rest) = Inr (takeWhile (\<lambda>b. \<not> is_delim b) b1, bs' @ 0 # rest)"
      "tokens bs' = tokens (dropWhile (\<lambda>b. \<not> is_delim b) b1)" "0 \<notin> set bs'" using take_token_tokens [OF b1(3)] by blast
    show ?thesis
    proof (rule that(2))
      show "tokens bs = (b # takeWhile (\<lambda>b. \<not> is_delim b) b2) # tokens bs'" using b t(2) b1(2) Cons by simp
      show "strtok (bs @ 0 # rest) = Inr (Some (b # takeWhile (\<lambda>b. \<not> is_delim b) b2, bs' @ 0 # rest))"
        using b1(1) t(1) b Cons by (simp add: strtok_def)
    qed (rule t(3))
  qed
qed

text \<open>A line whose sides fit the buffers.\<close>

definition line_of :: "u8 list \<times> u8 list \<Rightarrow> u8 list" where
  "line_of d = fst d @ 0x7C # snd d"

definition sides_ok :: "nat \<Rightarrow> u8 list \<times> u8 list \<Rightarrow> bool" where
  "sides_ok cap d \<longleftrightarrow> 0x7C \<notin> set (fst d) \<and> 0 \<notin> set (fst d) \<and> 0 \<notin> set (snd d) \<and> length (fst d) < cap \<and> length (snd d) < cap"

lemma bar_position_line: "0x7C \<notin> set l \<Longrightarrow> bar_position (l @ 0x7C # r) = Some (length l)"
  unfolding bar_position_def find_Some_iff by (intro exI [of _ "length l"]) (auto simp: nth_append dest: nth_mem)

lemma split_line_of:
  assumes "sides_ok cap d"
  shows "split_line cap (line_of d) =
    Inr (fst d @ 0 # replicate (cap - length (fst d) - 1) 0, snd d @ 0 # replicate (cap - length (snd d) - 1) 0)"
proof -
  have "replicate (cap - n) (0 :: u8) = 0 # replicate (cap - n - 1) 0" if "n < cap" for n
    using that by (simp add: Suc_diff_Suc flip: replicate_Suc)
  then show ?thesis using assms by (auto simp: split_line_def line_of_def sides_ok_def bar_position_line)
qed

section \<open>The base of a module\<close>

text \<open>The eight hexadecimal digits that a line of the map begins with.\<close>

definition hex_char :: "nat \<Rightarrow> u8" where
  "hex_char d = (if d < 10 then 0x30 + of_nat d else 0x57 + of_nat d)"

definition hex_field :: "nat \<Rightarrow> nat \<Rightarrow> u8 list" where
  "hex_field k n = map (\<lambda>i. hex_char (n div 16 ^ i mod 16)) (rev [0..<k])"

lemma hex_chars: "list_all (\<lambda>d. hex_val (hex_char d) = Some d \<and> hex_char d \<noteq> 0x2D) [0..<16]"
  by code_simp

lemma hex_val_char: "d < 16 \<Longrightarrow> hex_val (hex_char d) = Some d" "d < 16 \<Longrightarrow> hex_char d \<noteq> 0x2D"
  using hex_chars by (simp_all only: list_all_iff set_upt atLeastLessThan_iff) auto

lemma hex_digits_field: "hex_digits acc (hex_field k n @ 0 # p) = Inr (acc * 16 ^ k + n mod 16 ^ k)"
proof (induction k arbitrary: acc)
  case 0
  then show ?case by (simp add: hex_field_def hex_val_def)
next
  case (Suc k)
  have "hex_digits acc (hex_field (Suc k) n @ 0 # p) = hex_digits (acc * 16 + n div 16 ^ k mod 16) (hex_field k n @ 0 # p)"
    by (simp add: hex_field_def hex_val_char)
  also have "\<dots> = Inr ((acc * 16 + n div 16 ^ k mod 16) * 16 ^ k + n mod 16 ^ k)" by (rule Suc.IH)
  also have "(acc * 16 + n div 16 ^ k mod 16) * 16 ^ k + n mod 16 ^ k = acc * 16 ^ Suc k + n mod 16 ^ Suc k"
    using mod_mult2_eq [of n "16 ^ k" 16] by (simp add: algebra_simps)
  finally show ?case .
qed

lemma no_dash_hex_field: "0x2D \<notin> set (hex_field k n)"
  by (auto simp: hex_field_def hex_val_char dest: sym)

lemma module_base_field:
  fixes base :: u32
  shows "module_base (hex_field 8 (unat base) @ 0x2D # more) = Inr (Some base)"
proof -
  let ?h = "hex_field 8 (unat base)"
  have t: "takeWhile (\<lambda>b. b \<noteq> 0x2D) (?h @ 0x2D # more) = ?h" using no_dash_hex_field [of 8 "unat base"] by (subst takeWhile_append2) auto
  have l: "length ?h = 8" by (simp add: hex_field_def)
  have "unat base < 2 ^ LENGTH(32)" by (rule unsigned_less)
  then have u: "unat base mod 16 ^ 8 = unat base" "min (unat base) 4294967295 = unat base" by simp_all
  have "hex_digits 0 (?h @ [0]) = Inr (unat base)" using hex_digits_field [of 0 8 "unat base" "[]"] unfolding u by simp
  then show ?thesis unfolding module_base_def t Let_def by (simp add: l u(2))
qed

text \<open>A line ends with its newline and fits the buffer of 256 bytes.\<close>

definition maps_line :: "u8 list \<Rightarrow> bool" where
  "maps_line l \<longleftrightarrow> l \<noteq> [] \<and> 10 \<notin> set (butlast l) \<and> last l = 10 \<and> length l \<le> 255"

lemma fgets_line: "10 \<notin> set c \<Longrightarrow> length c < n \<Longrightarrow> fgets n (c @ 10 # rest) = (c @ [10], rest)"
proof (induction c arbitrary: n)
  case (Cons b c)
  then obtain m where "n = Suc m" by (cases n) auto
  then show ?case using Cons by auto
qed auto

lemma find_module_lines:
  "\<forall>l \<in> set ls. maps_line l \<Longrightarrow> find_module_by_name so (concat ls) =
     (case find (\<lambda>l. contains l so \<and> contains l [0x72, 0x2D, 0x78, 0x70] \<and> module_base l \<noteq> Inr None) ls of
        None \<Rightarrow> Inr 0
      | Some l \<Rightarrow> res_bind (module_base l) (\<lambda>r. Inr (the r)))"
proof (induction ls)
  case Nil
  then show ?case by (simp add: find_module_by_name.simps)
next
  case (Cons l ls)
  obtain c where c: "l = c @ [10]" "10 \<notin> set c" "length c < 255"
    using Cons.prems by (auto simp: maps_line_def) (metis append_butlast_last_id length_append_singleton less_eq_Suc_le)
  have "fgets 255 (concat (l # ls)) = (l, concat ls)" using fgets_line [OF c(2,3), of "concat ls"] c(1) by simp
  moreover have "concat (l # ls) \<noteq> []" using c(1) by simp
  ultimately show ?case using Cons by (subst find_module_by_name.simps) (auto simp: res_bind_def split: sum.splits option.splits)
qed

lemma find_module_at:
  fixes base :: u32
  assumes "\<forall>l \<in> set ls. maps_line l" "find (\<lambda>l. contains l so \<and> contains l [0x72, 0x2D, 0x78, 0x70]) ls = Some (hex_field 8 (unat base) @ 0x2D # more)"
  shows "find_module_by_name so (concat ls) = Inr base"
proof -
  let ?l = "hex_field 8 (unat base) @ 0x2D # more"
  have "find (\<lambda>l. contains l so \<and> contains l [0x72, 0x2D, 0x78, 0x70] \<and> module_base l \<noteq> Inr None) ls = Some ?l"
    using assms(2) module_base_field [of base more] by (auto simp: find_Some_iff)
  then show ?thesis using find_module_lines [OF assms(1), of so] module_base_field [of base more] by simp
qed

text \<open>
  (C37) When the first line of the map that names the module and is executable begins with the address, written with
  eight hexadecimal digits, \<^verbatim>\<open>find_module_by_name\<close> returns that address.
\<close>

theorem find_module_base:
  fixes base :: u32
  assumes "\<forall>l \<in> set ls. maps_line l" "find (\<lambda>l. contains l so \<and> contains l [0x72, 0x2D, 0x78, 0x70]) ls = Some (hex_field 8 (unat base) @ 0x2D # more)"
  shows "find_module_by_name so (concat ls) = Inr base"
  by (rule find_module_at [OF assms])

definition two_maps :: "u8 list list" where
  "two_maps = map (map of_char) [''12c00000-12d00000 rw-p'' @ [CHR 0x0A],
     ''b6a51000-b8d3a000 r-xp libil2cpp.so'' @ [CHR 0x0A]]"

theorem find_module_base_witness:
  "find_module_by_name (map of_char ''libil2cpp.so'') (concat two_maps) = Inr (0xB6A51000 :: u32)"
proof -
  have "\<forall>l \<in> set two_maps. maps_line l" by code_simp
  moreover have "find (\<lambda>l. contains l (map of_char ''libil2cpp.so'') \<and> contains l [0x72, 0x2D, 0x78, 0x70]) two_maps =
      Some (map of_char (''b6a51000-b8d3a000 r-xp libil2cpp.so'' @ [CHR 0x0A]))" by code_simp
  moreover have "map of_char (''b6a51000-b8d3a000 r-xp libil2cpp.so'' @ [CHR 0x0A]) =
      hex_field 8 3064270848 @ 0x2D # map of_char (''b8d3a000 r-xp libil2cpp.so'' @ [CHR 0x0A])"
    by (simp add: hex_field_def hex_char_def upt_rec)
  ultimately show ?thesis
    using find_module_base [of two_maps "map of_char ''libil2cpp.so''" "0xB6A51000 :: u32" "map of_char (''b8d3a000 r-xp libil2cpp.so'' @ [CHR 0x0A])"]
    by simp
qed

end
