(* ===== verification/Localize.thy ===== *)
theory Localize
  imports Dictionary
begin

text \<open>
  The injected library (\<^verbatim>\<open>inject_dobby.cpp\<close>): the handlers that take the place of \<^verbatim>\<open>get_text\<close> and \<^verbatim>\<open>set_text\<close> and replace a
  text by its translation, and the operations that find and hook these functions.  The memory of the game is a
  function from addresses to bytes; a string object there is twelve bytes, of which the last four are the number of
  characters, and the characters.  Functions of the game, the loader and the hook engine are arguments (\<open>inject_env\<close>).
\<close>

section \<open>State\<close>

text \<open>
  \<open>ie_call f args\<close> calls the function at \<open>f\<close> on the memory; \<open>ie_end\<close> is the address of the block \<^verbatim>\<open>end\<close>; \<open>ie_calloc\<close> is the
  address of the \<open>n\<close>-th string that is made; \<open>ie_hook\<close> is what \<^verbatim>\<open>DobbyHook\<close> stores in \<^verbatim>\<open>*origin_call\<close>; the rest
  are the addresses of functions.
\<close>

record inject_env =
  ie_call :: "u32 \<Rightarrow> u32 list \<Rightarrow> (u32 \<Rightarrow> u8) \<Rightarrow> u32 \<times> (u32 \<Rightarrow> u8)"
  ie_end :: u32
  ie_calloc :: "nat \<Rightarrow> u32"
  ie_hook :: "u32 \<Rightarrow> u32 \<Rightarrow> u32"
  ie_dlsym :: "u32 \<Rightarrow> u32"
  ie_dlopen :: u32
  ie_new_dlopen :: u32
  ie_new_get :: u32
  ie_new_set :: u32
  ie_new_methods :: u32

record inject =
  game_mem :: "u32 \<Rightarrow> u8"
  file_buffer :: "u8 list"
  address_get :: u32
  address_set :: u32
  func_dlopen :: u32
  func_get :: u32
  func_set :: u32
  old_func_dlopen :: u32
  old_func_get :: u32
  old_func_set :: u32
  old_func_get_methods :: u32
  libil2cpp_base :: u32
  libil2cpp_handle :: u32
  is_got_get_and_set :: bool
  current_set_index :: u32
  current_get_index :: u32
  header_get :: "u8 list"
  middle_get :: "u8 list"
  header_set :: "u8 list"
  middle_set :: "u8 list"
  hooks :: "(u32 \<times> u32) list"
  strings_made :: nat
  leaked :: nat

definition SplitSize :: nat where "SplitSize = 100"
definition HeaderSize :: nat where "HeaderSize = 12"
definition MiddleSize :: nat where "MiddleSize = 200"
definition EndSize :: nat where "EndSize = 4"

lemmas sizes = SplitSize_def HeaderSize_def MiddleSize_def EndSize_def

definition mem_bytes :: "(u32 \<Rightarrow> u8) \<Rightarrow> u32 \<Rightarrow> nat \<Rightarrow> u8 list" where
  "mem_bytes m p n = map (\<lambda>i. m (p + of_nat i)) [0..<n]"

definition mem_word :: "(u32 \<Rightarrow> u8) \<Rightarrow> u32 \<Rightarrow> u32" where
  "mem_word m p = le_word (mem_bytes m p 4)"

definition mem_put :: "u32 \<Rightarrow> u8 list \<Rightarrow> (u32 \<Rightarrow> u8) \<Rightarrow> u32 \<Rightarrow> u8" where
  "mem_put p bs m = (\<lambda>a. if unat (a - p) < length bs then bs ! unat (a - p) else m a)"

text \<open>\<^verbatim>\<open>*((int *) str + 2) * 2\<close>, the size of the characters of a string object; a null pointer is followed.\<close>

definition string_size :: "(u32 \<Rightarrow> u8) \<Rightarrow> u32 \<Rightarrow> int res" where
  "string_size m str = (if str = 0 then Inl NullPointer else Inr (sint (mem_word m (str + 8) * 2)))"

section \<open>Replacing the text\<close>

text \<open>\<^verbatim>\<open>memccpy\<close>: up to \<open>n\<close> bytes, ending with the first byte \<open>stop\<close>.\<close>

definition memccpy_bytes :: "u8 \<Rightarrow> nat \<Rightarrow> u8 list \<Rightarrow> u8 list" where
  "memccpy_bytes stop n bs = take (length (takeWhile (\<lambda>b. b \<noteq> stop) (take n bs)) + 1) (take n bs)"

text \<open>The static buffers of a handler after the copies from the string object.\<close>

definition load_header :: "(u32 \<Rightarrow> u8) \<Rightarrow> u32 \<Rightarrow> u8 list" where
  "load_header m str = mem_bytes m str HeaderSize"

definition load_middle :: "u32 \<Rightarrow> (u32 \<Rightarrow> u8) \<Rightarrow> u32 \<Rightarrow> u8 list \<Rightarrow> u8 list" where
  "load_middle end_ptr m str middle =
     poke 0 (memccpy_bytes (ucast end_ptr) SplitSize (mem_bytes m (str + of_nat HeaderSize) SplitSize))
       (poke 0 (replicate SplitSize 0) middle)"

text \<open>The new string object: the header with the new length, and the text around and in place of the match.\<close>

definition make_string :: "u8 list \<Rightarrow> u8 list \<Rightarrow> u8 list \<Rightarrow> int \<Rightarrow> int \<Rightarrow> int \<Rightarrow> (u8 list \<times> u8 list) res" where
  "make_string header middle right src_length length_start length_left =
     res_bind (UTF8_to_Unicode (replicate (MiddleSize * 2) 0) right) (\<lambda>(p_new_u_str, n).
       let length_right = sint n;
           length_end = src_length - length_start - length_left;
           length_middle = length_start + length_right + length_end;
           header' = poke 8 (le_bytes 4 (of_int (length_middle div 2) :: u32)) header
       in Inr (header' @ take (nat length_start) middle @ take (nat length_right) p_new_u_str
                @ take (nat length_end) (drop (nat (length_start + length_left)) middle) @ replicate EndSize 0,
               header'))"

text \<open>
  The loop over the lines of the dictionary.  \<open>cap\<close> is the size of \<^verbatim>\<open>convert_str\<close>, \<open>first\<close> says that the line is the first one,
  \<open>lost\<close> counts the blocks \<^verbatim>\<open>convert_str\<close> that are not freed.  The result is the new string, the two static buffers and the
  count.
\<close>

function scan_lines ::
    "nat \<Rightarrow> int \<Rightarrow> bool \<Rightarrow> u8 list \<Rightarrow> u8 list \<Rightarrow> nat \<Rightarrow> u8 list \<Rightarrow> (u8 list option \<times> u8 list \<times> u8 list \<times> nat) res" where
  "scan_lines cap src_length first header middle lost p =
     res_bind (strtok p) (\<lambda>t.
       case t of
         None \<Rightarrow> Inr (None, header, middle, lost)
       | Some (line, rest) \<Rightarrow>
           res_bind (split_line SplitSize line) (\<lambda>(left, right).
             if first then scan_lines cap src_length False header middle lost rest
             else
               res_bind (UTF8_to_Unicode (replicate cap 0) left) (\<lambda>(convert_str, n).
               let length_left = sint n in
               res_bind (tolower_unicode convert_str length_left) (\<lambda>convert_str.
               res_bind (tolower_unicode middle length_left) (\<lambda>middle.
               res_bind (if src_length < 100 \<and> length_left < 100
                         then memcmp_plus middle convert_str src_length length_left else Inr None) (\<lambda>cp_bit.
                 case cp_bit of
                   Some length_start \<Rightarrow>
                     res_bind (make_string header middle right src_length (int length_start) length_left) (\<lambda>(str, header').
                       Inr (Some str, header', middle, lost))
                 | None \<Rightarrow> scan_lines cap src_length False header middle (lost + 1) rest))))))"
  by pat_completeness auto

termination
  by (relation "measure (\<lambda>(_, _, _, _, _, _, p). length p)") (auto dest: strtok_length)

declare scan_lines.simps [simp del]

section \<open>The handlers\<close>

definition new_func_set :: "inject_env \<Rightarrow> u32 \<Rightarrow> u32 \<Rightarrow> u32 \<Rightarrow> u32 \<Rightarrow> inject \<Rightarrow> (u32 \<times> inject) res" where
  "new_func_set env arg arg1 arg2 arg3 s0 =
     (let s = s0\<lparr>current_set_index := current_set_index s0 + 1\<rparr>;
          call_old = (\<lambda>str s. let (r, m) = ie_call env (old_func_set s) [arg, str, arg2, arg3] (game_mem s) in Inr (r, s\<lparr>game_mem := m\<rparr>))
      in res_bind (string_size (game_mem s) arg1) (\<lambda>src_length.
         if src_length = 0 then call_old arg1 s
         else
           res_bind (scan_lines (SplitSize * 2) src_length True (load_header (game_mem s) arg1)
               (load_middle (ie_end env) (game_mem s) arg1 (middle_set s)) (leaked s) (file_buffer s))
             (\<lambda>(str, header, middle, lost).
               let s1 = s\<lparr>header_set := header, middle_set := middle, leaked := lost\<rparr>
               in case str of
                    None \<Rightarrow> call_old arg1 s1
                  | Some bs \<Rightarrow>
                      (let p_return = ie_calloc env (strings_made s)
                       in call_old p_return
                            (s1\<lparr>game_mem := mem_put p_return bs (game_mem s1), strings_made := strings_made s + 1\<rparr>)))))"

definition new_func_get :: "inject_env \<Rightarrow> u32 \<Rightarrow> u32 \<Rightarrow> u32 \<Rightarrow> u32 \<Rightarrow> inject \<Rightarrow> (u32 \<times> inject) res" where
  "new_func_get env arg arg1 arg2 arg3 s0 =
     (let call_old = (\<lambda>s. let (r, m) = ie_call env (old_func_get s) [arg, arg1, arg2, arg3] (game_mem s) in (r, s\<lparr>game_mem := m\<rparr>));
          (ret, s) = call_old (s0\<lparr>current_get_index := current_get_index s0 + 1\<rparr>)
      in res_bind (string_size (game_mem s) ret) (\<lambda>src_length.
         if src_length = 0 \<or> arg = 0 \<or> game_mem s (ret + of_nat HeaderSize) = 0 then Inr (call_old s)
         else
           res_bind (scan_lines (MiddleSize * 2) src_length True (load_header (game_mem s) ret)
               (load_middle (ie_end env) (game_mem s) ret (middle_get s)) (leaked s) (file_buffer s))
             (\<lambda>(str, header, middle, lost).
               let s1 = s\<lparr>header_get := header, middle_get := middle, leaked := lost\<rparr>
               in case str of
                    None \<Rightarrow> Inr (call_old s1)
                  | Some bs \<Rightarrow>
                      (let p_return = ie_calloc env (strings_made s)
                       in Inr (p_return, s1\<lparr>game_mem := mem_put p_return bs (game_mem s1), strings_made := strings_made s + 1\<rparr>)))))"

end
