(* ===== verification/Localize_Correct.thy ===== *)
theory Localize_Correct
  imports Localize
begin

text \<open>
  What the handlers do to a text: \<open>translate\<close> is the replacement as a function of the text and the dictionary, and the
  handlers hand the translated string to the game in an object of the same form.
\<close>

section \<open>The replacement\<close>

text \<open>
  An entry applies at the first position where its left side, in lower case, occurs in the text, of which the first
  characters (as many as the left side has, and one more) have been put in lower case.
\<close>

definition match_at :: "u8 list \<Rightarrow> u8 list \<Rightarrow> nat option" where
  "match_at t l =
     (if wide_text l \<noteq> [] \<and> length (wide_text l) < 100
      then find (\<lambda>k. take (length (wide_text l)) (drop k t) = lower_to (length (wide_text l)) (wide_text l)) [0..<length t + 1 - length (wide_text l)]
      else None)"

fun translate :: "u8 list \<Rightarrow> (u8 list \<times> u8 list) list \<Rightarrow> u8 list option" where
  "translate t [] = None"
| "translate t ((l, r) # ds) =
     (let t' = lower_to (length (wide_text l)) t
      in case match_at t' l of
           Some k \<Rightarrow> Some (take k t' @ wide_text r @ drop (k + length (wide_text l)) t')
         | None \<Rightarrow> translate t' ds)"

text \<open>A string object: the number of characters, the characters, and four zero bytes.\<close>

definition string_object :: "u8 list \<Rightarrow> u8 list \<Rightarrow> u8 list" where
  "string_object header t = poke 8 (le_bytes 4 (of_nat (length t div 2) :: u32)) header @ t @ replicate 4 0"

lemma take_lower_between:
  assumes "even m" "m \<le> length c"
  shows "take m (lower_between p n c) = lower_between p n (take m c)"
proof (rule nth_equalityI)
  fix i assume "i < length (take m (lower_between p n c))"
  then have i: "i < m" "i < length c" using assms(2) by simp_all
  have "even i \<Longrightarrow> i + 1 < m" using i(1) assms(1) by presburger
  then show "take m (lower_between p n c) ! i = lower_between p n (take m c) ! i"
    using i assms(2) by (auto simp: nth_lower_between upper_at_def)
qed simp

lemma sint_small: "n < 2 ^ 31 \<Longrightarrow> sint (of_nat n :: u32) = int n"
  by (simp add: signed_of_nat signed_take_bit_int_eq_self)

text \<open>One entry of the dictionary, after its line was split.\<close>

lemma convert_left:
  assumes "sides_ok SplitSize (l, r)" "200 \<le> cap"
  defines "L \<equiv> wide_text l"
  obtains c where "UTF8_to_Unicode (replicate cap 0) (l @ 0 # rest) = Inr (c, of_nat (length L))" "sint (of_nat (length L) :: u32) = int (length L)"
    "tolower_unicode c (int (length L)) = Inr (lower_to (length L) c)" "take (length L) (lower_to (length L) c) = lower_to (length L) L"
    "length L < 200" "even (length L)" "length c = cap"
proof -
  have l: "0 \<notin> set l" "length l < 100" using assms(1) by (simp_all add: sides_ok_def sizes)
  then have room: "2 * length l < length (replicate cap (0 :: u8))" using assms(2) by simp
  note w = UTF8_to_Unicode_wide [OF l(1) room, folded L_def]
  let ?c = "poke 0 (L @ [0]) (replicate cap 0)"
  have len: "length L < 199" "length L + 2 \<le> cap" using w(2,3) l(2) assms(2) by presburger+
  have c: "length ?c = cap" "take (length L) ?c = L" using len by (simp_all add: poke_def)
  have lo: "tolower_unicode ?c (int (length L)) = Inr (lower_to (length L) ?c)" by (rule tolower_unicode_spec) (use w(3) len c in simp_all)
  have t: "take (length L) (lower_to (length L) ?c) = lower_to (length L) L" using take_lower_between [OF w(3), of ?c] len c by simp
  show ?thesis by (rule that [OF w(1) _ lo t]) (use len c w(3) in \<open>simp_all add: sint_small\<close>)
qed

lemma memcmp_plus_match:
  assumes "n \<le> length p" "length L \<le> length q" "take (length L) q = lower_to (length L) L" "even n" "n < 100" "L = wide_text l"
  shows "(if int n < 100 \<and> int (length L) < 100 then memcmp_plus p q (int n) (int (length L)) else Inr None) = Inr (match_at (take n p) l)"
proof (cases "length L < 100 \<and> L \<noteq> []")
  case True
  have m: "memcmp_plus p q (int n) (int (length L)) = Inr (find (\<lambda>k. take (length L) (drop k p) = take (length L) q) [0..<n + 1 - length L])"
    using memcmp_loop_spec [of "length L" q 0 n p] True assms(1,2) by (simp add: memcmp_plus_def)
  have "take (length L) (drop k p) = take (length L) (drop k (take n p))" if "k \<in> set [0..<n + 1 - length L]" for k
    using that by (simp add: drop_take min_def)
  then have "find (\<lambda>k. take (length L) (drop k p) = take (length L) q) [0..<n + 1 - length L] = match_at (take n p) l"
    using True assms by (auto simp: match_at_def intro: find_cong)
  then show ?thesis using True m assms(5) by simp
next
  case False
  then show ?thesis using assms(6) by (auto simp: match_at_def memcmp_plus_def memcmp_loop.simps)
qed

lemma match_at_bound: "match_at t l = Some k \<Longrightarrow> k + length (wide_text l) \<le> length t \<and> wide_text l \<noteq> []"
  by (auto simp: match_at_def find_Some_iff split: if_splits)

lemma make_string_spec:
  assumes "sides_ok SplitSize (l, r)" "length header = HeaderSize" "k + m \<le> n" "n \<le> length middle" "n < 100"
  defines "t \<equiv> take k middle @ wide_text r @ drop (k + m) (take n middle)"
  shows "make_string header middle (r @ 0 # rest) (int n) (int k) (int m) =
    Inr (string_object header t, poke 8 (le_bytes 4 (of_nat (length t div 2) :: u32)) header)"
proof -
  have r: "0 \<notin> set r" "length r < 100" using assms(1) by (simp_all add: sides_ok_def sizes)
  then have room: "2 * length r < length (replicate (MiddleSize * 2) (0 :: u8))" by (simp add: sizes)
  note w = UTF8_to_Unicode_wide [OF r(1) room]
  have lw: "length (wide_text r) < 200" using w(2) r(2) by linarith
  then have sr: "sint (of_nat (length (wide_text r)) :: u32) = int (length (wide_text r))" by (simp add: sint_small)
  have tk: "take (length (wide_text r)) (poke 0 (wide_text r @ [0]) (replicate (MiddleSize * 2) 0)) = wide_text r" by (simp add: poke_def)
  have len: "int k + int (length (wide_text r)) + (int n - int k - int m) = int (length t)" using assms(3-5) by (simp add: t_def)
  have half: "(of_int (int (length t) div 2) :: u32) = of_nat (length t div 2)" by (metis of_int_of_nat_eq of_nat_numeral zdiv_int)
  have rest: "take (nat (int n - int k - int m)) (drop (nat (int k + int m)) middle) = drop (k + m) (take n middle)"
    using assms(3) by (simp add: drop_take nat_diff_distrib nat_add_distrib)
  show ?thesis
    unfolding make_string_def w(1) res_bind_simps prod.case Let_def sr len half nat_int tk rest string_object_def EndSize_def
    by (simp add: t_def)
qed

text \<open>The scan of the lines behind the first one.\<close>

lemma scan_lines_spec:
  assumes "0 \<notin> set bs" "tokens bs = map line_of ds" "\<forall>d \<in> set ds. sides_ok SplitSize d"
    and "length middle = MiddleSize" "length header = HeaderSize" "even n" "n < 100" "200 \<le> cap"
  shows "\<exists>header' middle' lost'. scan_lines cap (int n) False header middle lost (bs @ 0 # rest) =
      Inr (map_option (string_object header) (translate (take n middle) ds), header', middle', lost')
    \<and> length middle' = MiddleSize \<and> length header' = HeaderSize \<and> (translate (take n middle) ds = None \<longrightarrow> lost' = lost + length ds)"
  using assms
proof (induction ds arbitrary: bs middle lost)
  case Nil
  from Nil.prems(1) have "strtok (bs @ 0 # rest) = Inr None" using Nil.prems(2) by (cases rule: strtok_tokens [where rest = rest]) auto
  then show ?case using Nil.prems by (subst scan_lines.simps) simp
next
  case (Cons d ds)
  obtain l r where d: "d = (l, r)" by (cases d)
  let ?L = "wide_text l" and ?n = "of_nat (length (wide_text l)) :: u32"
  have ok: "sides_ok SplitSize (l, r)" using Cons.prems(3) d by simp
  from Cons.prems(1) obtain bs' where t: "strtok (bs @ 0 # rest) = Inr (Some (line_of d, bs' @ 0 # rest))" "tokens bs' = map line_of ds" "0 \<notin> set bs'"
    using Cons.prems(2) by (cases rule: strtok_tokens [where rest = rest]) auto
  note sp = split_line_of [OF ok, unfolded fst_conv snd_conv]
  let ?zl = "replicate (SplitSize - length l - 1) 0" and ?zr = "replicate (SplitSize - length r - 1) 0"
  obtain c where c: "UTF8_to_Unicode (replicate cap 0) (l @ 0 # ?zl) = Inr (c, ?n)" "sint ?n = int (length ?L)"
      "tolower_unicode c (int (length ?L)) = Inr (lower_to (length ?L) c)" "take (length ?L) (lower_to (length ?L) c) = lower_to (length ?L) ?L"
      "length ?L < 200" "even (length ?L)" "length c = cap"
    using convert_left [OF ok Cons.prems(8), of ?zl] by blast
  let ?m = "lower_to (length ?L) middle"
  have m: "tolower_unicode middle (int (length ?L)) = Inr ?m"
    by (rule tolower_unicode_spec) (use c(5,6) Cons.prems(4) in \<open>auto simp: sizes elim!: evenE\<close>)
  have tm: "take n ?m = lower_to (length ?L) (take n middle)" using take_lower_between [of n middle] Cons.prems(4,6,7) by (simp add: sizes)
  have cmp: "(if int n < 100 \<and> int (length ?L) < 100 then memcmp_plus ?m (lower_to (length ?L) c) (int n) (int (length ?L)) else Inr None) = Inr (match_at (take n ?m) l)"
    by (rule memcmp_plus_match) (use c Cons.prems in \<open>simp_all add: sizes\<close>)
  have scan: "scan_lines cap (int n) False header middle lost (bs @ 0 # rest) =
      (case match_at (take n ?m) l of
         Some k \<Rightarrow> res_bind (make_string header ?m (r @ 0 # ?zr) (int n) (int k) (int (length ?L))) (\<lambda>(str, header'). Inr (Some str, header', ?m, lost))
       | None \<Rightarrow> scan_lines cap (int n) False header ?m (lost + 1) (bs' @ 0 # rest))"
    unfolding scan_lines.simps [of cap "int n" False header middle lost "bs @ 0 # rest"]
    by (simp only: t(1) res_bind_simps option.case prod.case d sp c(1) Let_def c(2) c(3) m cmp if_False)
  show ?case
  proof (cases "match_at (take n ?m) l")
    case None
    have "\<exists>header' middle' lost'. scan_lines cap (int n) False header ?m (lost + 1) (bs' @ 0 # rest) =
        Inr (map_option (string_object header) (translate (take n ?m) ds), header', middle', lost')
      \<and> length middle' = MiddleSize \<and> length header' = HeaderSize \<and> (translate (take n ?m) ds = None \<longrightarrow> lost' = lost + 1 + length ds)"
      by (rule Cons.IH) (use t Cons.prems in simp_all)
    then show ?thesis unfolding scan using None d tm by simp
  next
    case (Some k)
    have k: "k + length ?L \<le> n" using match_at_bound [OF Some] Cons.prems(4,7) by (simp add: sizes)
    have tr: "translate (take n middle) (d # ds) = Some (take k ?m @ wide_text r @ drop (k + length ?L) (take n ?m))"
      using Some d k unfolding tm [symmetric] by (simp add: Let_def tm [symmetric] min_def)
    show ?thesis
      unfolding scan tr using Some make_string_spec [OF ok Cons.prems(5) k, of ?m ?zr] Cons.prems(4,5,7) by (simp add: sizes)
  qed
qed

section \<open>String objects in memory\<close>

definition string_at :: "(u32 \<Rightarrow> u8) \<Rightarrow> u32 \<Rightarrow> u8 list \<Rightarrow> bool" where
  "string_at m p t \<longleftrightarrow> even (length t) \<and> mem_word m (p + 8) = of_nat (length t div 2) \<and> mem_bytes m (p + 12) (length t) = t"

lemma length_mem_bytes [simp]: "length (mem_bytes m p n) = n"
  by (simp add: mem_bytes_def)

lemma mem_bytes_take: "k \<le> n \<Longrightarrow> take k (mem_bytes m p n) = mem_bytes m p k"
  by (simp add: mem_bytes_def take_map)

lemma unat32_small: "n < 2 ^ 32 \<Longrightarrow> unat (of_nat n :: u32) = n"
  by (simp add: unsigned_of_nat take_bit_nat_eq_self)

lemma mem_bytes_put:
  assumes "i + n \<le> length bs" "length bs < 2 ^ 32"
  shows "mem_bytes (mem_put p bs m) (p + of_nat i) n = take n (drop i bs)"
proof (rule nth_equalityI)
  fix j assume "j < length (mem_bytes (mem_put p bs m) (p + of_nat i) n)"
  then have j: "j < n" by simp
  have "p + of_nat i + of_nat j - p = (of_nat (i + j) :: u32)" by simp
  moreover have "unat (of_nat (i + j) :: u32) = i + j" by (rule unat32_small) (use assms j in linarith)
  ultimately show "mem_bytes (mem_put p bs m) (p + of_nat i) n ! j = take n (drop i bs) ! j"
    using j assms by (simp add: mem_bytes_def mem_put_def)
qed (use assms in simp)

lemma string_at_put:
  assumes "length header = HeaderSize" "even (length t)" "length t < 1000"
  shows "string_at (mem_put p (string_object header t) m) p t"
proof -
  let ?w = "of_nat (length t div 2) :: u32" and ?b = "string_object header t"
  have h: "length (poke 8 (le_bytes 4 ?w) header) = 12" using assms(1) by (simp add: sizes)
  then have len: "length ?b = length t + 16" by (simp add: string_object_def)
  have "take 4 (drop 8 ?b) = le_bytes 4 ?w"
    using peek_poke_same [of 8 "le_bytes 4 ?w" header] assms(1) h by (simp add: string_object_def peek_def sizes)
  then have "mem_word (mem_put p ?b m) (p + 8) = ?w"
    using mem_bytes_put [of 8 4 ?b p m] len assms(3) by (simp add: mem_word_def)
  moreover have "mem_bytes (mem_put p ?b m) (p + 12) (length t) = t"
    using mem_bytes_put [of 12 "length t" ?b p m] len assms(3) h by (simp add: string_object_def)
  ultimately show ?thesis using assms(2) by (simp add: string_at_def)
qed

lemma translate_size:
  "translate t ds = Some t' \<Longrightarrow> \<forall>d \<in> set ds. sides_ok SplitSize d \<Longrightarrow> even (length t) \<Longrightarrow> even (length t') \<and> length t' < length t + 200"
proof (induction t ds rule: translate.induct)
  case (2 t l r ds)
  have ok: "sides_ok SplitSize (l, r)" using 2(3) by simp
  have w: "even (length (wide_text l))" "even (length (wide_text r))" "length (wide_text r) < 200"
    using UTF8_to_Unicode_wide(2) [of r "replicate 400 0"] ok by (auto simp: wide_text_def sides_ok_def sizes)
  show ?case
  proof (cases "match_at (lower_to (length (wide_text l)) t) l")
    case None
    then show ?thesis using 2(1) [OF refl None] 2(2-4) by (simp add: Let_def)
  next
    case (Some k)
    have k: "k + length (wide_text l) \<le> length t" using match_at_bound [OF Some] by simp
    have "t' = take k (lower_to (length (wide_text l)) t) @ wide_text r @ drop (k + length (wide_text l)) (lower_to (length (wide_text l)) t)"
      using 2(2) Some by (simp add: Let_def)
    then have "length t' = length t - length (wide_text l) + length (wide_text r)" using k by simp
    then show ?thesis using k w 2(4) by simp
  qed
qed simp

text \<open>What a handler sees of a text: nothing behind the first byte \<open>stop\<close>.\<close>

primrec seen :: "u8 \<Rightarrow> u8 list \<Rightarrow> u8 list" where
  "seen stop [] = []"
| "seen stop (b # t) = b # (if b = stop then replicate (length t) 0 else seen stop t)"

lemma seen_all: "stop \<notin> set t \<Longrightarrow> seen stop t = t"
  by (induction t) auto

lemma seen_cut: "stop \<notin> set pre \<Longrightarrow> seen stop (pre @ stop # post) = pre @ stop # replicate (length post) 0"
  by (induction pre) auto

lemma length_seen [simp]: "length (seen stop t) = length t"
  by (induction t) auto

lemma memccpy_Cons:
  "memccpy_bytes stop (Suc n) (b # bs) = b # (if b = stop then [] else memccpy_bytes stop n bs)"
  by (simp add: memccpy_bytes_def)

lemma memccpy_seen:
  "length t \<le> n \<Longrightarrow> take (length t) (memccpy_bytes stop n (t @ bs) @ replicate (n - length (memccpy_bytes stop n (t @ bs))) 0) = seen stop t"
proof (induction t arbitrary: n)
  case (Cons b t)
  then obtain n' where n: "n = Suc n'" "length t \<le> n'" by (cases n) auto
  show ?case
  proof (cases "b = stop")
    case True
    then show ?thesis using n by (simp add: memccpy_Cons min_absorb1)
  next
    case False
    then show ?thesis using Cons.IH [OF n(2)] n(1) by (simp add: memccpy_Cons)
  qed
qed simp

lemma load_middle_seen:
  assumes "string_at m p t" "length t < 100" "length middle = MiddleSize"
  shows "take (length t) (load_middle end_ptr m p middle) = seen (ucast end_ptr) t" "length (load_middle end_ptr m p middle) = MiddleSize"
proof -
  let ?bs = "mem_bytes m (p + 12) 100" and ?stop = "ucast end_ptr"
  have t: "take (length t) ?bs = t" using assms(1,2) by (simp add: mem_bytes_take string_at_def)
  then obtain bs where bs: "?bs = t @ bs" by (metis append_take_drop_id)
  let ?c = "memccpy_bytes ?stop 100 ?bs"
  have c: "length ?c \<le> 100" by (simp add: memccpy_bytes_def)
  then show "length (load_middle end_ptr m p middle) = MiddleSize" using assms(3) by (simp add: load_middle_def poke_def sizes)
  have "take (length t) (?c @ replicate (100 - length ?c) 0) = seen ?stop t"
    unfolding bs by (rule memccpy_seen) (use assms(2) in simp)
  moreover have "take (length t) (load_middle end_ptr m p middle) = take (length t) (?c @ replicate (100 - length ?c) 0)"
    using c assms(2,3) by (simp add: load_middle_def poke_def sizes)
  ultimately show "take (length t) (load_middle end_ptr m p middle) = seen ?stop t" by simp
qed

lemma string_size_at:
  assumes "p \<noteq> 0" "string_at m p t" "length t < 100"
  shows "string_size m p = Inr (int (length t))"
proof -
  have "mem_word m (p + 8) * 2 = of_nat (length t)" using assms(2) by (auto simp: string_at_def elim!: evenE)
  then show ?thesis using assms(1,3) sint_small [of "length t"] by (simp add: string_size_def)
qed

section \<open>What a translation is\<close>

text \<open>
  The text is cut at an occurrence of the left side of an entry, up to the case of ASCII letters, and the right side takes the
  place of it.  What is left of the text may have been put in lower case.
\<close>

definition fold_case :: "u8 list \<Rightarrow> u8 list" where
  "fold_case t = lower_to (length t) t"

definition translated :: "(u8 list \<times> u8 list) list \<Rightarrow> u8 list \<Rightarrow> u8 list \<Rightarrow> bool" where
  "translated ds t t' \<longleftrightarrow> (\<exists>l r u pre post. (l, r) \<in> set ds \<and> wide_text l \<noteq> [] \<and> fold_case u = fold_case t
     \<and> u = pre @ fold_case (wide_text l) @ post \<and> t' = pre @ wide_text r @ post)"

text \<open>An entry whose left side, in lower case, stands in the text at the beginning of a character.\<close>

definition occurs :: "(u8 list \<times> u8 list) list \<Rightarrow> u8 list \<Rightarrow> bool" where
  "occurs ds t \<longleftrightarrow> (\<exists>(l, r) \<in> set ds. wide_text l \<noteq> [] \<and> length (wide_text l) < 100
     \<and> (\<exists>k \<le> length t. even k \<and> take (length (wide_text l)) (drop k t) = fold_case (wide_text l)))"

lemma lowered_not_upper: "0x41 \<le> b \<Longrightarrow> b \<le> 0x5A \<Longrightarrow> \<not> b + 0x20 \<le> 0x5A" for b :: u8
  by (simp add: word_le_nat_alt unat_word_ariths)

lemma fold_case_lower:
  assumes "even (length t)"
  shows "fold_case (lower_to n t) = fold_case t"
proof (rule nth_equalityI)
  fix i assume "i < length (fold_case (lower_to n t))"
  then have i: "i < length t" by (simp add: fold_case_def)
  show "fold_case (lower_to n t) ! i = fold_case t ! i"
  proof (cases "even i")
    case True
    then have "i + 1 < length t" using i assms by presburger
    then show ?thesis using i True lowered_not_upper [of "t ! i"] by (auto simp: fold_case_def nth_lower_between upper_at_def)
  next
    case False
    then show ?thesis using i by (simp add: fold_case_def nth_lower_between)
  qed
qed (simp add: fold_case_def)

lemma translate_translated:
  "translate t ds = Some t' \<Longrightarrow> even (length t) \<Longrightarrow> translated ds t t'"
proof (induction t ds rule: translate.induct)
  case (2 t l r ds)
  let ?u = "lower_to (length (wide_text l)) t"
  show ?case
  proof (cases "match_at ?u l")
    case None
    then have "translated ds ?u t'" using 2(1) [OF refl None] 2(2,3) by (simp add: Let_def)
    then obtain l' r' u pre post where "(l', r') \<in> set ds" "wide_text l' \<noteq> []" "fold_case u = fold_case ?u" "u = pre @ fold_case (wide_text l') @ post"
        "t' = pre @ wide_text r' @ post" unfolding translated_def by blast
    then show ?thesis unfolding translated_def fold_case_lower [OF 2(3)] by (intro exI [of _ l'] exI [of _ r'] exI [of _ u] exI [of _ pre] exI [of _ post]) simp
  next
    case (Some k)
    have "take (length (wide_text l)) (drop k ?u) = fold_case (wide_text l)" using Some by (auto simp: match_at_def find_Some_iff fold_case_def split: if_splits)
    then have u: "?u = take k ?u @ fold_case (wide_text l) @ drop (k + length (wide_text l)) ?u" by (metis append_take_drop_id drop_drop add.commute)
    have "t' = take k ?u @ wide_text r @ drop (k + length (wide_text l)) ?u" using 2(2) Some by (simp add: Let_def)
    then show ?thesis unfolding translated_def using u fold_case_lower [OF 2(3), of "length (wide_text l)"] match_at_bound [OF Some]
      by (intro exI [of _ l] exI [of _ r] exI [of _ ?u] exI [of _ "take k ?u"] exI [of _ "drop (k + length (wide_text l)) ?u"]) simp
  qed
qed simp

lemma length_fold_case [simp]: "length (fold_case t) = length t"
  by (simp add: fold_case_def)

lemma fold_case_Nil [simp]: "fold_case t = [] \<longleftrightarrow> t = []"
  by (simp add: fold_case_def lower_between_def)

lemma fold_case_no_upper:
  assumes "even (length L)" "i < length L" "even i"
  shows "\<not> upper_at (fold_case L) i"
proof -
  have "i + 1 < length L" using assms by presburger
  then show ?thesis using assms lowered_not_upper [of "L ! i"] by (auto simp: upper_at_def fold_case_def nth_lower_between)
qed

lemma slice_room: "take n (drop k t) = w \<Longrightarrow> n = length w \<Longrightarrow> w \<noteq> [] \<Longrightarrow> k + n \<le> length t"
  by (cases "k + n \<le> length t") (auto dest!: arg_cong [of _ _ length])

lemma lower_keeps_match:
  assumes "even k" "even (length L)" "take (length L) (drop k t) = fold_case L"
  shows "take (length L) (drop k (lower_to n t)) = fold_case L"
proof (rule nth_equalityI)
  have len: "k + length L \<le> length t \<or> L = []" using slice_room [OF assms(3)] by auto
  then show "length (take (length L) (drop k (lower_to n t))) = length (fold_case L)" by auto
  fix i assume "i < length (take (length L) (drop k (lower_to n t)))"
  then have i: "i < length L" "k + i < length t" "k + length L \<le> length t" using len by auto
  have f: "fold_case L ! j = t ! (k + j)" if "j < length L" for j using that i(3) unfolding assms(3) [symmetric] by simp
  have "\<not> upper_at t (k + i)" if "even i"
  proof -
    have "i + 1 < length L" using that i(1) assms(2) by presburger
    then show ?thesis using fold_case_no_upper [OF assms(2) i(1) that] f [of i] f [of "i + 1"] by (simp add: upper_at_def)
  qed
  then have "lower_to n t ! (k + i) = t ! (k + i)" using i(2) assms(1) by (auto simp: nth_lower_between)
  then show "take (length L) (drop k (lower_to n t)) ! i = fold_case L ! i" using i f [OF i(1)] by simp
qed

lemma occurs_translate: "occurs ds t \<Longrightarrow> even (length t) \<Longrightarrow> translate t ds \<noteq> None"
proof (induction t ds rule: translate.induct)
  case (1 t)
  then show ?case by (simp add: occurs_def)
next
  case (2 t l r ds)
  let ?u = "lower_to (length (wide_text l)) t"
  show ?case
  proof (cases "match_at ?u l")
    case None
    obtain l' r' k where o: "(l', r') \<in> set ((l, r) # ds)" "wide_text l' \<noteq> []" "length (wide_text l') < 100" "k \<le> length t" "even k"
        "take (length (wide_text l')) (drop k t) = fold_case (wide_text l')" using 2(2) by (auto simp: occurs_def)
    have m: "take (length (wide_text l')) (drop k ?u) = fold_case (wide_text l')" by (rule lower_keeps_match [OF o(5) _ o(6)]) (simp add: wide_text_def)
    have k: "k + length (wide_text l') \<le> length t" by (rule slice_room [OF o(6)]) (use o(2) in simp_all)
    have "(l', r') \<noteq> (l, r)"
    proof
      assume "(l', r') = (l, r)"
      then have "k \<in> set [0..<length ?u + 1 - length (wide_text l)]" "take (length (wide_text l)) (drop k ?u) = lower_to (length (wide_text l)) (wide_text l)"
        using k m by (auto simp: fold_case_def)
      then show False using None o(2,3) \<open>(l', r') = (l, r)\<close> by (auto simp: match_at_def find_None_iff)
    qed
    then have "occurs ds ?u" using o m by (auto simp: occurs_def intro!: bexI [of _ "(l', r')"] exI [of _ k])
    then show ?thesis using 2(1) [OF refl None] 2(3) None by (simp add: Let_def)
  qed (simp add: Let_def)
qed

section \<open>The handlers\<close>

text \<open>The buffer of a dictionary file: a first line of two addresses, and a line for each entry.\<close>

definition dictionary_ok :: "u8 list \<Rightarrow> (u8 list \<times> u8 list) list \<Rightarrow> bool" where
  "dictionary_ok buf ds \<longleftrightarrow> 0 \<in> set buf \<and> (\<forall>d \<in> set ds. sides_ok SplitSize d)
     \<and> (\<exists>f. sides_ok SplitSize f \<and> tokens (takeWhile (\<lambda>b. b \<noteq> 0) buf) = line_of f # map line_of ds)"

lemma dictionary_line:
  assumes "dictionary_ok buf ds"
  obtains f bs rest where "sides_ok SplitSize f" "strtok buf = Inr (Some (line_of f, bs @ 0 # rest))" "tokens bs = map line_of ds" "0 \<notin> set bs"
    "\<forall>d \<in> set ds. sides_ok SplitSize d"
proof -
  let ?bs = "takeWhile (\<lambda>b. b \<noteq> 0) buf"
  obtain f where f: "sides_ok SplitSize f" "tokens ?bs = line_of f # map line_of ds" and ds: "\<forall>d \<in> set ds. sides_ok SplitSize d" "0 \<in> set buf"
    using assms by (auto simp: dictionary_ok_def)
  have z: "0 \<notin> set ?bs" by (auto dest: set_takeWhileD)
  obtain rest where buf: "buf = ?bs @ 0 # rest"
    using ds(2) by (metis (mono_tags, lifting) dropWhile_eq_Nil_conv hd_dropWhile list.collapse takeWhile_dropWhile_id)
  from z show ?thesis
    unfolding buf [symmetric] using f ds buf that by (cases rule: strtok_tokens [where rest = rest]) auto
qed

lemma scan_dictionary:
  assumes "dictionary_ok buf ds" "length middle = MiddleSize" "length header = HeaderSize" "even n" "n < 100" "200 \<le> cap"
  shows "\<exists>header' middle' lost'. scan_lines cap (int n) True header middle lost buf =
      Inr (map_option (string_object header) (translate (take n middle) ds), header', middle', lost')
    \<and> length middle' = MiddleSize \<and> length header' = HeaderSize \<and> (translate (take n middle) ds = None \<longrightarrow> lost' = lost + length ds)"
proof -
  obtain f bs rest where f: "sides_ok SplitSize f" "strtok buf = Inr (Some (line_of f, bs @ 0 # rest))" "tokens bs = map line_of ds" "0 \<notin> set bs"
    "\<forall>d \<in> set ds. sides_ok SplitSize d" by (rule dictionary_line [OF assms(1)])
  have "scan_lines cap (int n) True header middle lost buf = scan_lines cap (int n) False header middle lost (bs @ 0 # rest)"
    unfolding scan_lines.simps [of cap "int n" True header middle lost buf] by (simp add: f(2) split_line_of [OF f(1)])
  then show ?thesis using scan_lines_spec [OF f(4,3,5) assms(2-6)] by simp
qed

text \<open>What the scan makes of a string object, for either handler.\<close>

lemma scan_string:
  assumes "dictionary_ok buf ds" "length middle = MiddleSize" "string_at m p t" "length t < 100" "200 \<le> cap"
  obtains header' middle' lost' where
    "scan_lines cap (int (length t)) True (load_header m p) (load_middle end_ptr m p middle) lost buf =
      Inr (map_option (string_object (load_header m p)) (translate (seen (ucast end_ptr) t) ds), header', middle', lost')"
    "length middle' = MiddleSize" "translate (seen (ucast end_ptr) t) ds = None \<Longrightarrow> lost' = lost + length ds"
proof -
  note mid = load_middle_seen [OF assms(3,4,2), of end_ptr]
  have "length (load_header m p) = HeaderSize" "even (length t)" using assms(3) by (simp_all add: load_header_def string_at_def)
  from scan_dictionary [OF assms(1) mid(2) this assms(4,5), of lost] obtain header' middle' lost' where
    "scan_lines cap (int (length t)) True (load_header m p) (load_middle end_ptr m p middle) lost buf =
      Inr (map_option (string_object (load_header m p)) (translate (seen (ucast end_ptr) t) ds), header', middle', lost')"
    "length middle' = MiddleSize" "translate (seen (ucast end_ptr) t) ds = None \<longrightarrow> lost' = lost + length ds" unfolding mid(1) by (elim exE conjE)
  then show ?thesis by (intro that [of header' middle' lost']) simp_all
qed

lemma translated_object:
  fixes m :: "u32 \<Rightarrow> u8" and p q a :: u32
  assumes "translate (seen stop t) ds = Some t'" "dictionary_ok buf ds" "even (length t)" "length t < 100"
  defines "bs \<equiv> string_object (load_header m p) t'"
  shows "string_at (mem_put q bs m) q t'" "length t' + 16 \<le> unat (a - q) \<Longrightarrow> mem_put q bs m a = m a" "translated ds (seen stop t) t'"
proof -
  have h: "length (load_header m p) = HeaderSize" by (simp add: load_header_def)
  have t': "even (length t')" "length t' < 1000"
    using translate_size [OF assms(1)] assms(2-4) by (auto simp: dictionary_ok_def)
  show "string_at (mem_put q bs m) q t'" unfolding bs_def by (rule string_at_put [OF h t'])
  have "length bs = length t' + 16" using h by (simp add: bs_def string_object_def sizes)
  then show "length t' + 16 \<le> unat (a - q) \<Longrightarrow> mem_put q bs m a = m a" by (simp add: mem_put_def)
  show "translated ds (seen stop t) t'" by (rule translate_translated [OF assms(1)]) (use assms(3) in simp)
qed

text \<open>
  The outcome of a handler: the string it was given when no entry applies (and then no entry stands in it in lower case),
  otherwise a new object with a translation, and nothing else in memory has changed.
\<close>

definition outcome :: "inject_env \<Rightarrow> inject \<Rightarrow> (u8 list \<times> u8 list) list \<Rightarrow> u8 list \<Rightarrow> (u32 \<Rightarrow> u8) \<Rightarrow> u32 \<Rightarrow> (u32 \<Rightarrow> u8) \<Rightarrow> inject \<Rightarrow> bool" where
  "outcome env s ds t m0 str m s1 \<longleftrightarrow>
     str = ie_calloc env (strings_made s) \<and> strings_made s1 = strings_made s + 1
       \<and> (\<exists>t'. translated ds t t' \<and> string_at m str t' \<and> (\<forall>a. length t' + 16 \<le> unat (a - str) \<longrightarrow> m a = m0 a))"

lemma new_func_set_spec:
  assumes "dictionary_ok (file_buffer s) ds" "length (middle_set s) = MiddleSize" "arg1 \<noteq> 0" "string_at (game_mem s) arg1 t"
    and "t \<noteq> []" "length t < 100"
  shows "\<exists>str m s1. new_func_set env arg arg1 arg2 arg3 s =
      Inr (let (r, m') = ie_call env (old_func_set s) [arg, str, arg2, arg3] m in (r, s1\<lparr>game_mem := m'\<rparr>))
    \<and> file_buffer s1 = file_buffer s \<and> length (middle_set s1) = MiddleSize
    \<and> (str = arg1 \<and> m = game_mem s \<and> \<not> occurs ds (seen (ucast (ie_end env)) t) \<and> leaked s1 = leaked s + length ds
       \<or> outcome env s ds (seen (ucast (ie_end env)) t) (game_mem s) str m s1)"
proof -
  let ?t = "seen (ucast (ie_end env)) t"
  have t: "even (length t)" using assms(4) by (simp add: string_at_def)
  obtain header' middle' lost' where sc: "scan_lines (SplitSize * 2) (int (length t)) True (load_header (game_mem s) arg1)
        (load_middle (ie_end env) (game_mem s) arg1 (middle_set s)) (leaked s) (file_buffer s) =
      Inr (map_option (string_object (load_header (game_mem s) arg1)) (translate ?t ds), header', middle', lost')" "length middle' = MiddleSize"
      "translate ?t ds = None \<Longrightarrow> lost' = leaked s + length ds"
    using scan_string [OF assms(1,2,4,6), of "SplitSize * 2" "ie_end env" "leaked s"] by (auto simp: sizes)
  note sz = string_size_at [OF assms(3,4,6)]
  let ?s1 = "s\<lparr>current_set_index := current_set_index s + 1, header_set := header', middle_set := middle', leaked := lost'\<rparr>"
  show ?thesis
  proof (cases "translate ?t ds")
    case None
    then have "\<not> occurs ds ?t" using occurs_translate [of ds ?t] t by auto
    then show ?thesis using None sc assms(5) sz
      by (intro exI [of _ arg1] exI [of _ "game_mem s"] exI [of _ ?s1]) (simp add: new_func_set_def Let_def split: prod.splits)
  next
    case (Some t')
    let ?p = "ie_calloc env (strings_made s)"
    let ?m' = "mem_put ?p (string_object (load_header (game_mem s) arg1) t') (game_mem s)"
    note ob = translated_object(1,2) [OF Some assms(1) t assms(6), where m = "game_mem s" and p = arg1 and q = ?p]
      translated_object(3) [OF Some assms(1) t assms(6)]
    have "outcome env s ds ?t (game_mem s) ?p ?m' (?s1\<lparr>game_mem := ?m', strings_made := strings_made s + 1\<rparr>)"
      using ob by (auto simp: outcome_def)
    then show ?thesis using Some sc assms(5) sz
      by (intro exI [of _ ?p] exI [of _ ?m'] exI [of _ "?s1\<lparr>game_mem := ?m', strings_made := strings_made s + 1\<rparr>"])
        (simp add: new_func_set_def Let_def split: prod.splits)
  qed
qed

text \<open>
  (C4) \<^verbatim>\<open>set_text\<close> with a string of one to forty-nine characters at an address that is not null, and a dictionary that is well formed: the handler calls
  the original function once.  It works on the text that \<^verbatim>\<open>memccpy\<close> copies, in which every byte behind the
  first one equal to the low byte of the address of \<^verbatim>\<open>end\<close> is zero (\<^verbatim>\<open>seen\<close>).  Either it passes the string it was
  given in unchanged memory, and then no entry of the dictionary stands in the seen text in lower case; or it passes
  a new string object whose text is the seen one with the left side of an entry, up to case, replaced by the
  right side, and no other memory has changed.  The letters of the text around the replaced part may come out
  in lower case, because the comparison lowers the copy in place.
\<close>

theorem set_text_translates:
  assumes "dictionary_ok (file_buffer s) ds" "length (middle_set s) = MiddleSize" "arg1 \<noteq> 0" "string_at (game_mem s) arg1 t"
    and "t \<noteq> []" "length t < 100"
  shows "\<exists>str m s1. new_func_set env arg arg1 arg2 arg3 s =
      Inr (let (r, m') = ie_call env (old_func_set s) [arg, str, arg2, arg3] m in (r, s1\<lparr>game_mem := m'\<rparr>))
    \<and> file_buffer s1 = file_buffer s \<and> length (middle_set s1) = MiddleSize
    \<and> (str = arg1 \<and> m = game_mem s \<and> \<not> occurs ds (seen (ucast (ie_end env)) t) \<and> leaked s1 = leaked s + length ds
       \<or> outcome env s ds (seen (ucast (ie_end env)) t) (game_mem s) str m s1)"
  by (rule new_func_set_spec [OF assms])

text \<open>
  The copy of the text ends at the first byte equal to the low byte of the address of the block \<^verbatim>\<open>end\<close>, because
  \<^verbatim>\<open>memccpy\<close> is given the address in place of the byte: a translated text has zero bytes in place of everything
  behind such a byte.
\<close>

theorem set_text_loses_tail:
  assumes "dictionary_ok (file_buffer s) ds" "length (middle_set s) = MiddleSize" "arg1 \<noteq> 0"
    and "string_at (game_mem s) arg1 (pre @ stop # post)" "length pre + length post + 1 < 100" "stop = ucast (ie_end env)" "stop \<notin> set pre"
  shows "\<exists>str m s1. new_func_set env arg arg1 arg2 arg3 s =
      Inr (let (r, m') = ie_call env (old_func_set s) [arg, str, arg2, arg3] m in (r, s1\<lparr>game_mem := m'\<rparr>))
    \<and> (str = arg1 \<and> m = game_mem s \<and> \<not> occurs ds (pre @ stop # replicate (length post) 0)
       \<or> outcome env s ds (pre @ stop # replicate (length post) 0) (game_mem s) str m s1)"
proof -
  have "pre @ stop # post \<noteq> []" "length (pre @ stop # post) < 100" using assms(5) by simp_all
  from new_func_set_spec [OF assms(1-4) this, of env arg arg2 arg3] seen_cut [OF assms(7), of post] assms(6)
  show ?thesis by metis
qed

text \<open>
  (C5) \<^verbatim>\<open>get_text\<close> for a first argument that is not null, when the original function answers with a string of one to forty-nine characters, the first byte
  of which is not zero, and the dictionary is well formed: the handler returns a new object with the seen text
  (every byte behind the first one equal to the low byte of the address of \<^verbatim>\<open>end\<close> is zero) in which the left
  side of an entry, up to case, is replaced by the right side, and the letters around it may come out in lower case;
  or, when no entry stands in the seen text in lower case, it calls the original function a second time and
  returns the answer of that call.
\<close>

theorem get_text_translates:
  assumes "dictionary_ok (file_buffer s) ds" "length (middle_get s) = MiddleSize" "arg \<noteq> 0"
    and "ie_call env (old_func_get s) [arg, arg1, arg2, arg3] (game_mem s) = (ret, m0)"
    and "ret \<noteq> 0" "string_at m0 ret t" "length t < 100" "t \<noteq> []" "hd t \<noteq> 0"
  shows "\<exists>r s1. new_func_get env arg arg1 arg2 arg3 s = Inr (r, s1) \<and> file_buffer s1 = file_buffer s \<and> length (middle_get s1) = MiddleSize
    \<and> (\<not> occurs ds (seen (ucast (ie_end env)) t) \<and> (r, game_mem s1) = ie_call env (old_func_get s) [arg, arg1, arg2, arg3] m0
       \<or> outcome env s ds (seen (ucast (ie_end env)) t) m0 r (game_mem s1) s1)"
proof -
  let ?t = "seen (ucast (ie_end env)) t"
  have "hd (mem_bytes m0 (ret + 12) (length t)) = m0 (ret + 12)" using assms(8) by (simp add: mem_bytes_def hd_map)
  then have t: "even (length t)" "m0 (ret + 12) = hd t" using assms(6) by (simp_all add: string_at_def)
  obtain header' middle' lost' where sc: "scan_lines (MiddleSize * 2) (int (length t)) True (load_header m0 ret)
        (load_middle (ie_end env) m0 ret (middle_get s)) (leaked s) (file_buffer s) =
      Inr (map_option (string_object (load_header m0 ret)) (translate ?t ds), header', middle', lost')" "length middle' = MiddleSize"
      "translate ?t ds = None \<Longrightarrow> lost' = leaked s + length ds"
    using scan_string [OF assms(1,2,6,7), of "MiddleSize * 2" "ie_end env" "leaked s"] by (auto simp: sizes)
  note sz = string_size_at [OF assms(5,6,7)]
  let ?s1 = "s\<lparr>game_mem := m0, current_get_index := current_get_index s + 1, header_get := header', middle_get := middle', leaked := lost'\<rparr>"
  show ?thesis
  proof (cases "translate ?t ds")
    case None
    then have "\<not> occurs ds ?t" using occurs_translate [of ds ?t] t by auto
    then show ?thesis using None sc sz assms(3,4,8,9) t(2) by (simp add: new_func_get_def Let_def sizes split: prod.splits)
  next
    case (Some t')
    let ?p = "ie_calloc env (strings_made s)"
    let ?m' = "mem_put ?p (string_object (load_header m0 ret) t') m0"
    note ob = translated_object(1,2) [OF Some assms(1) t(1) assms(7), where m = m0 and p = ret and q = ?p]
      translated_object(3) [OF Some assms(1) t(1) assms(7)]
    have "outcome env s ds ?t m0 ?p ?m' (?s1\<lparr>game_mem := ?m', strings_made := strings_made s + 1\<rparr>)"
      using ob by (auto simp: outcome_def)
    then show ?thesis using Some sc assms(3,4,8,9) sz t(2)
      by (intro exI [of _ ?p] exI [of _ "?s1\<lparr>game_mem := ?m', strings_made := strings_made s + 1\<rparr>"])
        (simp add: new_func_get_def Let_def sizes)
  qed
qed

section \<open>A game with one string\<close>

text \<open>
  The string \<^verbatim>\<open>hi\<close> at \<open>0x1000\<close>, a dictionary that translates it to \<^verbatim>\<open>ok\<close>, and functions of the game that return their second
  argument: the string a handler passes on is the value that comes back.
\<close>

definition hi_text :: "u8 list" where "hi_text = [0x68, 0, 0x69, 0]"

definition hi_dictionary :: "u8 list" where
  "hi_dictionary = [0x30, 0x7C, 0x30, 10, 0x68, 0x69, 0x7C, 0x6F, 0x6B, 10, 0, 0, 0, 0]"

definition hi_env :: inject_env where
  "hi_env = \<lparr>ie_call = (\<lambda>f args m. (args ! 1, m)), ie_end = 0x7F40, ie_calloc = (\<lambda>n. 0x9000 + of_nat n * 0x200), ie_hook = (\<lambda>f r. 0),
     ie_dlsym = (\<lambda>h. 0), ie_dlopen = 0, ie_new_dlopen = 0, ie_new_get = 0, ie_new_set = 0, ie_new_methods = 0\<rparr>"

definition game_with :: "u8 list \<Rightarrow> inject" where
  "game_with t = \<lparr>game_mem = mem_put 0x1000 (string_object (replicate HeaderSize 0) t) (\<lambda>_. 0), file_buffer = hi_dictionary,
     address_get = 0, address_set = 0, func_dlopen = 0, func_get = 0, func_set = 0, old_func_dlopen = 0, old_func_get = 0, old_func_set = 0,
     old_func_get_methods = 0, libil2cpp_base = 0, libil2cpp_handle = 0, is_got_get_and_set = False, current_set_index = 0,
     current_get_index = 0, header_get = replicate HeaderSize 0, middle_get = replicate MiddleSize 0, header_set = replicate HeaderSize 0,
     middle_set = replicate MiddleSize 0, hooks = [], strings_made = 0, leaked = 0\<rparr>"

abbreviation hi_entries :: "(u8 list \<times> u8 list) list" where
  "hi_entries \<equiv> [([0x68, 0x69], [0x6F, 0x6B])]"

lemma hi_wide: "wide_text [0x68, 0x69] = hi_text" "wide_text [0x6F, 0x6B] = [0x6F, 0, 0x6B, 0]" "fold_case hi_text = hi_text"
  by code_simp+

lemma hi_dictionary_ok: "dictionary_ok hi_dictionary hi_entries"
proof -
  have "tokens (takeWhile (\<lambda>b. b \<noteq> 0) hi_dictionary) = line_of ([0x30], [0x30]) # map line_of hi_entries" by code_simp
  moreover have "sides_ok SplitSize ([0x30], [0x30])" "\<forall>d \<in> set hi_entries. sides_ok SplitSize d" "0 \<in> set hi_dictionary" by code_simp+
  ultimately show ?thesis unfolding dictionary_ok_def by blast
qed

lemma string_game_with: "even (length t) \<Longrightarrow> length t < 100 \<Longrightarrow> string_at (game_mem (game_with t)) 0x1000 t"
  unfolding game_with_def inject.select_convs by (rule string_at_put) simp_all

lemma game_with_simps:
  "file_buffer (game_with t) = hi_dictionary" "length (middle_set (game_with t)) = MiddleSize" "length (middle_get (game_with t)) = MiddleSize"
  "strings_made (game_with t) = 0" "ie_calloc hi_env 0 = 0x9000"
  by (simp_all add: game_with_def hi_env_def)

lemma hi_occurs: "occurs hi_entries hi_text"
proof -
  have "length hi_text < 100" "hi_text \<noteq> []" by (simp_all add: hi_text_def)
  then show ?thesis by (auto simp: occurs_def hi_wide intro!: exI [of _ 0])
qed

lemma hi_translated: "translated hi_entries hi_text t' \<Longrightarrow> t' = [0x6F, 0, 0x6B, 0]"
proof -
  assume "translated hi_entries hi_text t'"
  then obtain u pre post where u: "fold_case u = hi_text" "u = pre @ hi_text @ post" "t' = pre @ [0x6F, 0, 0x6B, 0] @ post"
    by (auto simp: translated_def hi_wide)
  have "length u = length hi_text" using arg_cong [OF u(1), of length] by simp
  then have "pre = []" "post = []" using u(2) by simp_all
  then show ?thesis using u(3) by simp
qed

theorem set_text_translates_witness:
  "\<exists>s1. new_func_set hi_env 1 0x1000 0 0 (game_with hi_text) = Inr (0x9000, s1) \<and> string_at (game_mem s1) 0x9000 [0x6F, 0, 0x6B, 0]"
proof -
  have t: "even (length hi_text)" "hi_text \<noteq> []" "length hi_text < 100" "seen (ucast (ie_end hi_env)) hi_text = hi_text"
    by (simp_all add: hi_text_def hi_env_def)
  show ?thesis
    using set_text_translates [of "game_with hi_text" hi_entries "0x1000" hi_text hi_env 1 0 0] t hi_dictionary_ok string_game_with hi_occurs
    by (auto simp: outcome_def hi_env_def game_with_simps dest: hi_translated)
qed

text \<open>The block \<^verbatim>\<open>end\<close> is at \<open>0x7F40\<close>, so that the copy ends at \<^verbatim>\<open>@\<close>: of \<^verbatim>\<open>hi@x\<close> the last character is lost.\<close>

theorem set_text_loses_tail_witness:
  "\<exists>s1 t'. new_func_set hi_env 1 0x1000 0 0 (game_with [0x68, 0, 0x69, 0, 0x40, 0, 0x78, 0]) = Inr (0x9000, s1)
     \<and> string_at (game_mem s1) 0x9000 t' \<and> translated hi_entries [0x68, 0, 0x69, 0, 0x40, 0, 0, 0] t'"
proof -
  let ?t = "[0x68, 0, 0x69, 0] @ 0x40 # [0, 0x78, 0]"
  have o: "occurs hi_entries [0x68, 0, 0x69, 0, 0x40, 0, 0, 0]"
    using hi_wide by (auto simp: occurs_def hi_text_def intro!: exI [of _ 0])
  have t: "string_at (game_mem (game_with ?t)) 0x1000 ?t" "(0x40 :: u8) = ucast (ie_end hi_env)" "(0x40 :: u8) \<notin> set [0x68, 0, 0x69, 0]"
    using string_game_with [of ?t] by (simp_all add: hi_env_def)
  have e: "replicate (length [0, 0x78, 0 :: u8]) (0 :: u8) = [0, 0, 0]" by simp
  show ?thesis
    using set_text_loses_tail [OF _ _ _ t(1) _ t(2,3), of hi_entries 1 0 0, unfolded e] hi_dictionary_ok o
    by (auto simp: outcome_def game_with_simps) (auto simp: hi_env_def)
qed

theorem get_text_translates_witness:
  "\<exists>s1. new_func_get hi_env 1 0x1000 0 0 (game_with hi_text) = Inr (0x9000, s1) \<and> string_at (game_mem s1) 0x9000 [0x6F, 0, 0x6B, 0]"
proof -
  have t: "even (length hi_text)" "hi_text \<noteq> []" "hd hi_text \<noteq> 0" "length hi_text < 100" "seen (ucast (ie_end hi_env)) hi_text = hi_text"
    by (simp_all add: hi_text_def hi_env_def)
  have c: "ie_call hi_env (old_func_get (game_with hi_text)) [1, 0x1000, 0, 0] (game_mem (game_with hi_text)) = (0x1000, game_mem (game_with hi_text))"
    by (simp add: hi_env_def)
  show ?thesis
    using get_text_translates [OF _ _ _ c, of hi_entries hi_text] t hi_dictionary_ok string_game_with hi_occurs
    by (auto simp: outcome_def game_with_simps dest: hi_translated)
qed

end
