(* ===== verification/Inject.thy ===== *)
theory Inject
  imports Localize_Correct Arm_Isa
begin

text \<open>
  How \<^verbatim>\<open>inject_dobby.cpp\<close> gets its handlers in place.  \<^verbatim>\<open>JNI_OnLoad\<close> reads the dictionary and hooks the loader, or the text
  functions when \<^verbatim>\<open>libil2cpp.so\<close> is loaded already; the handler of the loader waits for that library; and when the file names
  no addresses, the handler of \<^verbatim>\<open>il2cpp_class_get_methods\<close> waits for the two methods to be listed.  The calls of
  \<^verbatim>\<open>DobbyHook\<close> are kept in the order they are made.
\<close>

section \<open>Operations\<close>

definition dobby_hook :: "inject_env \<Rightarrow> u32 \<Rightarrow> u32 \<Rightarrow> inject \<Rightarrow> u32 \<times> inject" where
  "dobby_hook env target replacement s = (ie_hook env target replacement, s\<lparr>hooks := hooks s @ [(target, replacement)]\<rparr>)"

definition hook_dlopen :: "inject_env \<Rightarrow> inject \<Rightarrow> inject" where
  "hook_dlopen env s =
     (let (old, s') = dobby_hook env (ie_dlopen env) (ie_new_dlopen env) (s\<lparr>func_dlopen := ie_dlopen env\<rparr>)
      in s'\<lparr>old_func_dlopen := old\<rparr>)"

definition hook_get_set :: "inject_env \<Rightarrow> inject \<Rightarrow> inject" where
  "hook_get_set env s =
     (if libil2cpp_base s = 0 then s
      else
        let s1 = (if address_get s \<noteq> 0
                  then let f = libil2cpp_base s + address_get s;
                           (old, s') = dobby_hook env f (ie_new_get env) (s\<lparr>func_get := f\<rparr>)
                       in s'\<lparr>old_func_get := old\<rparr>
                  else s)
        in if address_set s1 \<noteq> 0
           then let f = libil2cpp_base s1 + address_set s1;
                    (old, s') = dobby_hook env f (ie_new_set env) (s1\<lparr>func_set := f\<rparr>)
                in s'\<lparr>old_func_set := old\<rparr>
           else s1)"

text \<open>The first instruction of the exported function is a branch: the function behind it is hooked.\<close>

definition hook_get_methods :: "inject_env \<Rightarrow> inject \<Rightarrow> inject res" where
  "hook_get_methods env s =
     (let func_get_methods = ie_dlsym env (libil2cpp_handle s)
      in if func_get_methods = 0 then Inl NullPointer
         else
           let w = mem_word (game_mem s) func_get_methods;
               new_p = (signed_drop_bit 8 (push_bit 8 w) * 4 + 8) + func_get_methods;
               (old, s') = dobby_hook env new_p (ie_new_methods env) s
           in Inr (s'\<lparr>old_func_get_methods := old\<rparr>))"

definition lib_name :: "u8 list" where
  "lib_name = map of_char ''libil2cpp.so''"

text \<open>What is done once the library is found at \<open>base\<close>.\<close>

definition hook_library :: "inject_env \<Rightarrow> inject \<Rightarrow> inject res" where
  "hook_library env s = (if address_get s = 0 \<and> address_set s = 0 then hook_get_methods env s else Inr (hook_get_set env s))"

text \<open>\<open>f\<close> and \<open>got\<close> are the dictionary file and what \<^verbatim>\<open>fread\<close> reports, \<open>maps\<close> the map of the process.\<close>

definition JNI_OnLoad :: "inject_env \<Rightarrow> u8 list option \<Rightarrow> nat \<Rightarrow> u8 list \<Rightarrow> inject \<Rightarrow> inject res" where
  "JNI_OnLoad env f got maps s =
     (case readFile f got of
        None \<Rightarrow> Inr s
      | Some buf \<Rightarrow>
          res_bind (init_address_from_file buf (sint (address_get s), sint (address_set s))) (\<lambda>(g, t).
          res_bind (find_module_by_name lib_name maps) (\<lambda>base.
          let s1 = s\<lparr>file_buffer := buf, address_get := of_int g, address_set := of_int t, libil2cpp_base := base\<rparr>
          in if base = 0 then Inr (hook_dlopen env s1) else hook_library env s1)))"

text \<open>\<open>filename\<close> is the pointer that is passed with the string it points to.\<close>

definition new_func_dlopen ::
    "inject_env \<Rightarrow> u8 list \<Rightarrow> (u32 \<times> u8 list) option \<Rightarrow> u32 \<Rightarrow> u32 \<Rightarrow> inject \<Rightarrow> (u32 \<times> inject) res" where
  "new_func_dlopen env maps filename flags caller_addr s =
     (let p = (case filename of None \<Rightarrow> 0 | Some (p, _) \<Rightarrow> p);
          call_old = (\<lambda>s. let (r, m) = ie_call env (old_func_dlopen s) [p, flags, caller_addr] (game_mem s) in (r, s\<lparr>game_mem := m\<rparr>));
          (ret, s1) = call_old s
      in case filename of
           None \<Rightarrow> Inl NullPointer
         | Some (_, name) \<Rightarrow>
             if contains name (map of_char ''libil2cpp'') \<and> caller_addr \<noteq> 0
             then res_bind (find_module_by_name lib_name maps) (\<lambda>base.
                    res_bind (hook_library env (s1\<lparr>libil2cpp_handle := ret, libil2cpp_base := base\<rparr>)) (\<lambda>s2. Inr (call_old s2)))
             else Inr (call_old s1))"

text \<open>A handler that nothing installs; the original pointer is null then.\<close>

definition new_func_dlsym :: "inject_env \<Rightarrow> u32 \<Rightarrow> u32 \<Rightarrow> u32 \<Rightarrow> inject \<Rightarrow> (u32 \<times> inject) res" where
  "new_func_dlsym env old_fun_dlsym handle symbol s =
     (if old_fun_dlsym = 0 then Inl NullPointer
      else
        let (_, m1) = ie_call env old_fun_dlsym [handle, symbol] (game_mem s);
            (ret, m2) = ie_call env old_fun_dlsym [handle, symbol] m1
        in Inr (ret, s\<lparr>game_mem := m2\<rparr>))"

text \<open>\<^verbatim>\<open>strcmp(p, w) == 0\<close> for a string in memory.\<close>

definition mem_streq :: "(u32 \<Rightarrow> u8) \<Rightarrow> u32 \<Rightarrow> string \<Rightarrow> bool res" where
  "mem_streq m p w = (if p = 0 then Inl NullPointer else Inr (mem_bytes m p (length w + 1) = map of_char w @ [0]))"

definition new_func_get_methods :: "inject_env \<Rightarrow> u32 \<Rightarrow> u32 \<Rightarrow> inject \<Rightarrow> (u32 \<times> inject) res" where
  "new_func_get_methods env arg arg1 s =
     (let (ret, m) = ie_call env (old_func_get_methods s) [arg, arg1] (game_mem s);
          s = s\<lparr>game_mem := m\<rparr>
      in if ret = 0 then Inr (ret, s)
         else
           let p_Kclass = mem_word m (ret + 12); p_MethodName = mem_word m (ret + 8)
           in if p_Kclass = 0 then Inl NullPointer
              else
                res_bind (mem_streq m (mem_word m (p_Kclass + 12)) ''UnityEngine.UI'') (\<lambda>ui.
                if \<not> ui then Inr (ret, s)
                else
                  res_bind (mem_streq m p_MethodName ''get_text'') (\<lambda>is_get.
                  res_bind (mem_streq m p_MethodName ''set_text'') (\<lambda>is_set.
                  let s1 = (if is_get then s\<lparr>address_get := mem_word m ret\<rparr> else s);
                      s2 = (if is_set then s1\<lparr>address_set := mem_word m ret\<rparr> else s1)
                  in if address_get s2 \<noteq> 0 \<and> address_set s2 \<noteq> 0 \<and> \<not> is_got_get_and_set s2
                     then let s3 = hook_get_set env (s2\<lparr>address_get := address_get s2 - libil2cpp_base s2,
                                     address_set := address_set s2 - libil2cpp_base s2\<rparr>)
                          in Inr (ret, s3\<lparr>is_got_get_and_set := True\<rparr>)
                     else Inr (ret, s2)))))"

section \<open>The function behind the branch\<close>

lemma branch_displacement:
  fixes w :: u32
  shows "signed_drop_bit 8 (push_bit 8 w) * 4 = push_bit 2 (scast (ucast w :: 24 word))"
proof -
  have "signed_drop_bit 8 (push_bit 8 w) = (scast (ucast w :: 24 word) :: u32)"
  proof (rule bit_word_eqI)
    fix n
    assume "n < LENGTH(32)"
    then show "bit (signed_drop_bit 8 (push_bit 8 w)) n = bit (scast (ucast w :: 24 word) :: u32) n"
      by (cases "n = 23") (auto simp: bit_simps bit_signed_drop_bit_iff min_def split: if_splits)
  qed
  then show ?thesis by (simp add: push_bit_eq_mult)
qed

lemma mem_word_load32: "mem_word m p = load32 m p"
  by (simp add: mem_word_def mem_bytes_def load32_bytes upt_rec)

text \<open>
  (C36) \<^verbatim>\<open>hook_get_methods\<close> hooks the function that the exported one branches to: when the instruction there is a branch
  that is always taken, a processor that stands at the exported function goes to the hooked address in one step.
\<close>

theorem hook_get_methods_target:
  assumes "\<not> Thumb c" "mem c = game_mem s" "PC c = ie_dlsym env (libil2cpp_handle s)" "PC c \<noteq> 0"
    and "load32 (mem c) (PC c) AND 0xFF000000 = 0xEA000000"
  shows "\<exists>s' c'. hook_get_methods env s = Inr s' \<and> cpu_step c = Some c'
    \<and> hooks s' = hooks s @ [(PC c', ie_new_methods env)] \<and> old_func_get_methods s' = ie_hook env (PC c') (ie_new_methods env)"
proof -
  let ?w = "load32 (mem c) (PC c)"
  have d: "drop_bit 28 ?w = 0xE" "?w AND 0xF000000 = 0xA000000"
  proof -
    have "drop_bit 28 ?w = drop_bit 28 (?w AND 0xFF000000)"
    proof (rule bit_word_eqI)
      fix n
      have "bit (0xFF000000 :: u32) (28 + n) \<longleftrightarrow> n < 4"
        by (cases "n < 4") (auto simp: less_Suc_eq numeral_eq_Suc dest: bit_imp_le_length)
      then show "bit (drop_bit 28 ?w) n = bit (drop_bit 28 (?w AND 0xFF000000)) n"
        by (auto simp only: bit_drop_bit_eq o_def bit_and_iff dest: bit_imp_le_length) (drule bit_imp_le_length, simp)
    qed
    then show "drop_bit 28 ?w = 0xE" using assms(5) by simp
    have "?w AND 0xF000000 = (?w AND 0xFF000000) AND 0xF000000" by (simp add: and.assoc)
    then show "?w AND 0xF000000 = 0xA000000" using assms(5) by simp
  qed
  have "cpu_step c = Some (c\<lparr>PC := PC c + 8 + push_bit 2 (scast (ucast ?w :: 24 word))\<rparr>)"
    using assms(1) d by (simp add: cpu_step_def arm_exec_def cond_passed_def)
  moreover have "hook_get_methods env s = Inr (s\<lparr>hooks := hooks s @ [(PC c + 8 + push_bit 2 (scast (ucast ?w :: 24 word)), ie_new_methods env)],
      old_func_get_methods := ie_hook env (PC c + 8 + push_bit 2 (scast (ucast ?w :: 24 word))) (ie_new_methods env)\<rparr>)"
    using assms(2-4) by (simp add: hook_get_methods_def dobby_hook_def mem_word_load32 branch_displacement Let_def add_ac)
  ultimately show ?thesis by simp
qed

section \<open>Finding the two methods\<close>

text \<open>The handler for a list of calls, with the answers and the memory after each of them.\<close>

fun list_methods :: "inject_env \<Rightarrow> (u32 \<times> u32) list \<Rightarrow> inject \<Rightarrow> ((u32 \<times> (u32 \<Rightarrow> u8)) list \<times> inject) res" where
  "list_methods env [] s = Inr ([], s)"
| "list_methods env ((arg, arg1) # calls) s =
     res_bind (new_func_get_methods env arg arg1 s) (\<lambda>(ret, s').
     res_bind (list_methods env calls s') (\<lambda>(rs, s''). Inr ((ret, game_mem s') # rs, s'')))"

text \<open>The answer is a method of this name in the name space of the user interface; it is listed with its code.\<close>

definition named :: "(u32 \<Rightarrow> u8) \<Rightarrow> u32 \<Rightarrow> string \<Rightarrow> bool" where
  "named m ret name \<longleftrightarrow> ret \<noteq> 0 \<and> mem_streq m (mem_word m (mem_word m (ret + 12) + 12)) ''UnityEngine.UI'' = Inr True
     \<and> mem_streq m (mem_word m (ret + 8)) name = Inr True"

definition listed :: "(u32 \<times> (u32 \<Rightarrow> u8)) list \<Rightarrow> string \<Rightarrow> u32 \<Rightarrow> bool" where
  "listed rs name code \<longleftrightarrow> (\<exists>(ret, m) \<in> set rs. named m ret name \<and> mem_word m ret = code)"

lemma listed_append [simp]: "listed (rs @ rs') name code \<longleftrightarrow> listed rs name code \<or> listed rs' name code"
  by (auto simp: listed_def)

definition method_hooks :: "inject_env \<Rightarrow> u32 \<Rightarrow> u32 \<Rightarrow> u32 \<Rightarrow> (u32 \<times> u32) list" where
  "method_hooks env base g t =
     (if base = 0 then [] else (if g = base then [] else [(g, ie_new_get env)]) @ (if t = base then [] else [(t, ie_new_set env)]))"

lemma hook_get_set_hooks:
  assumes "address_get s = g - libil2cpp_base s" "address_set s = t - libil2cpp_base s"
  shows "hooks (hook_get_set env s) = hooks s @ method_hooks env (libil2cpp_base s) g t"
    and "libil2cpp_base (hook_get_set env s) = libil2cpp_base s" "game_mem (hook_get_set env s) = game_mem s"
    and "file_buffer (hook_get_set env s) = file_buffer s"
  using assms by (auto simp: hook_get_set_def method_hooks_def dobby_hook_def Let_def)

text \<open>One call: the two addresses that are known after it, and the hooks when both are known for the first time.\<close>

lemma new_func_get_methods_result:
  assumes "new_func_get_methods env arg arg1 s = Inr (ret, s')" "is_got_get_and_set s \<or> address_get s = 0 \<or> address_set s = 0"
  defines "g \<equiv> if named (game_mem s') ret ''get_text'' then mem_word (game_mem s') ret else address_get s"
    and "t \<equiv> if named (game_mem s') ret ''set_text'' then mem_word (game_mem s') ret else address_set s"
  shows "libil2cpp_base s' = libil2cpp_base s
    \<and> (if g \<noteq> 0 \<and> t \<noteq> 0 \<and> \<not> is_got_get_and_set s
       then is_got_get_and_set s' \<and> hooks s' = hooks s @ method_hooks env (libil2cpp_base s) g t
       else is_got_get_and_set s' = is_got_get_and_set s \<and> hooks s' = hooks s \<and> address_get s' = g \<and> address_set s' = t)"
proof -
  obtain r m where c: "ie_call env (old_func_get_methods s) [arg, arg1] (game_mem s) = (r, m)" by fastforce
  let ?ns = "mem_streq m (mem_word m (mem_word m (r + 12) + 12)) ''UnityEngine.UI''"
  let ?name = "\<lambda>n. mem_streq m (mem_word m (r + 8)) n"
  consider "r = 0" "ret = r" "s' = s\<lparr>game_mem := m\<rparr>" | "r \<noteq> 0" "?ns = Inr False" "ret = r" "s' = s\<lparr>game_mem := m\<rparr>"
    | is_get is_set where "r \<noteq> 0" "?ns = Inr True" "?name ''get_text'' = Inr is_get" "?name ''set_text'' = Inr is_set" "ret = r"
      "let s1 = s\<lparr>game_mem := m, address_get := if is_get then mem_word m r else address_get s, address_set := if is_set then mem_word m r else address_set s\<rparr>
       in if address_get s1 \<noteq> 0 \<and> address_set s1 \<noteq> 0 \<and> \<not> is_got_get_and_set s
          then s' = (hook_get_set env (s1\<lparr>address_get := address_get s1 - libil2cpp_base s, address_set := address_set s1 - libil2cpp_base s\<rparr>))
            \<lparr>is_got_get_and_set := True\<rparr>
          else s' = s1"
  proof (cases "r = 0")
    case True
    then show thesis using that(1) assms(1) c by (simp add: new_func_get_methods_def)
  next
    case False
    note e = assms(1) [unfolded new_func_get_methods_def c Let_def prod.case if_not_P [OF False]]
    from e have k: "mem_word m (r + 12) \<noteq> 0" by auto
    from e [unfolded if_not_P [OF k]] obtain ui where ui: "?ns = Inr ui" by (auto simp: res_bind_Inr_iff)
    show thesis
    proof (cases ui)
      case False
      then show thesis using that(2) e k ui \<open>r \<noteq> 0\<close> by simp
    next
      case True
      note e = e [unfolded if_not_P [OF k] ui res_bind_simps]
      from e True obtain ig where g: "?name ''get_text'' = Inr ig" by (cases "?name ''get_text''") simp_all
      from e True obtain it where t: "?name ''set_text'' = Inr it" by (cases "?name ''set_text''") (simp_all add: g)
      note e = e [unfolded g t res_bind_simps]
      show thesis
      proof (rule that(3) [OF False _ g t])
        show "?ns = Inr True" using ui True by simp
        show "ret = r" using e True by (simp split: if_splits)
        show "let s1 = s\<lparr>game_mem := m, address_get := if ig then mem_word m r else address_get s, address_set := if it then mem_word m r else address_set s\<rparr>
          in if address_get s1 \<noteq> 0 \<and> address_set s1 \<noteq> 0 \<and> \<not> is_got_get_and_set s
             then s' = (hook_get_set env (s1\<lparr>address_get := address_get s1 - libil2cpp_base s, address_set := address_set s1 - libil2cpp_base s\<rparr>))
               \<lparr>is_got_get_and_set := True\<rparr>
             else s' = s1"
          using e True by (cases ig; cases it) (auto simp: Let_def split: if_splits)
      qed
    qed
  qed
  then show ?thesis
  proof cases
    case 3
    then have n: "named m r ''get_text'' = is_get" "named m r ''set_text'' = is_set" by (simp_all add: named_def)
    show ?thesis using 3(6) unfolding g_def t_def 3(5) Let_def
      by (cases is_get; cases is_set) (auto simp: n hook_get_set_hooks split: if_splits)
  qed (use assms(2) in \<open>auto simp: g_def t_def named_def\<close>)
qed

text \<open>While the search goes on nothing is hooked; afterwards the two methods are, once.\<close>

definition search_inv :: "inject_env \<Rightarrow> u32 \<Rightarrow> (u32 \<times> u32) list \<Rightarrow> (u32 \<times> (u32 \<Rightarrow> u8)) list \<Rightarrow> inject \<Rightarrow> bool" where
  "search_inv env base h rs s \<longleftrightarrow> libil2cpp_base s = base
     \<and> (if is_got_get_and_set s
        then (\<exists>g t. listed rs ''get_text'' g \<and> listed rs ''set_text'' t \<and> hooks s = h @ method_hooks env base g t)
        else hooks s = h \<and> (address_get s = 0 \<or> address_set s = 0)
          \<and> (if address_get s = 0 then \<forall>g. \<not> listed rs ''get_text'' g else listed rs ''get_text'' (address_get s))
          \<and> (if address_set s = 0 then \<forall>t. \<not> listed rs ''set_text'' t else listed rs ''set_text'' (address_set s)))"

lemma search_inv_step:
  assumes "search_inv env base h rs s" "new_func_get_methods env arg arg1 s = Inr (ret, s')"
    and "\<not> listed [(ret, game_mem s')] ''get_text'' 0" "\<not> listed [(ret, game_mem s')] ''set_text'' 0"
  shows "search_inv env base h (rs @ [(ret, game_mem s')]) s'"
proof -
  have "is_got_get_and_set s \<or> address_get s = 0 \<or> address_set s = 0" using assms(1) by (auto simp: search_inv_def split: if_splits)
  note r = new_func_get_methods_result [OF assms(2) this]
  have l: "listed [(ret, game_mem s')] n c \<longleftrightarrow> named (game_mem s') ret n \<and> mem_word (game_mem s') ret = c" for n c
    by (simp add: listed_def)
  show ?thesis using assms(1,3,4) r unfolding search_inv_def listed_append l by (auto split: if_splits)
qed

lemma search_inv_run:
  assumes "list_methods env calls s = Inr (rs', s')" "search_inv env base h rs s" "\<not> listed rs' ''get_text'' 0" "\<not> listed rs' ''set_text'' 0"
  shows "search_inv env base h (rs @ rs') s'"
  using assms
proof (induction calls arbitrary: s rs rs')
  case (Cons c calls)
  obtain ret s1 rs1 where r: "new_func_get_methods env (fst c) (snd c) s = Inr (ret, s1)" "list_methods env calls s1 = Inr (rs1, s')"
    "rs' = (ret, game_mem s1) # rs1"
    using Cons.prems(1) by (cases c) (auto simp: res_bind_Inr_iff)
  have z: "\<not> listed [(ret, game_mem s1)] n 0 \<and> \<not> listed rs1 n 0" if "\<not> listed rs' n 0" for n using that r(3) by (auto simp: listed_def)
  show ?case
    using Cons.IH [OF r(2) search_inv_step [OF Cons.prems(2) r(1)]] z [OF Cons.prems(3)] z [OF Cons.prems(4)] r(3) by simp
qed simp

text \<open>
  (C7) The search for the two methods, from a state without addresses, over any number of calls in which every
  method that is listed has code: \<^verbatim>\<open>get_text\<close> and \<^verbatim>\<open>set_text\<close> are hooked, once, when both of them have been listed, and nothing
  is hooked before; the hooked addresses are the code of methods with these names, where a method at the base address
  itself is left out and nothing is hooked when the base is unknown.
\<close>

theorem methods_hooked_once:
  assumes "list_methods env calls s = Inr (rs, s')" "\<not> is_got_get_and_set s" "address_get s = 0" "address_set s = 0"
    and "\<not> listed rs ''get_text'' 0" "\<not> listed rs ''set_text'' 0"
  shows "if (\<exists>g. listed rs ''get_text'' g) \<and> (\<exists>t. listed rs ''set_text'' t)
    then is_got_get_and_set s' \<and> (\<exists>g t. listed rs ''get_text'' g \<and> listed rs ''set_text'' t \<and> hooks s' = hooks s @ method_hooks env (libil2cpp_base s) g t)
    else \<not> is_got_get_and_set s' \<and> hooks s' = hooks s"
proof -
  have "search_inv env (libil2cpp_base s) (hooks s) [] s" using assms(2-4) by (simp add: search_inv_def listed_def)
  from search_inv_run [OF assms(1) this assms(5,6)] show ?thesis by (auto simp: search_inv_def split: if_splits)
qed

end
