(* ===== verification/Inject_Correct.thy ===== *)
theory Inject_Correct
  imports Inject
begin

text \<open>
  The injection from the file to the hooks: the addresses of the first line are read back as they were written, the
  handlers are hooked at the base of the library plus these addresses, and the rest of the file is a dictionary as the
  handlers need it.  Then the faults: a first line without a bar, an exported function that is not found, a null string.
\<close>

section \<open>Reading a file that was written line by line\<close>

lemma hex_char_plain: "list_all (\<lambda>d. \<not> is_space (hex_char d) \<and> \<not> is_delim (hex_char d)
    \<and> hex_char d \<notin> {0, 0x2B, 0x2D, 0x58, 0x78, 0x7C}) [0..<16]"
  by code_simp

lemma hex_char_no: "d < 16 \<Longrightarrow> \<not> is_space (hex_char d)" "d < 16 \<Longrightarrow> \<not> is_delim (hex_char d)"
  "d < 16 \<Longrightarrow> hex_char d \<notin> {0, 0x2B, 0x2D, 0x58, 0x78, 0x7C}"
  using hex_char_plain by (simp_all only: list_all_iff set_upt atLeastLessThan_iff) auto

lemma set_hex_field: "b \<in> set (hex_field k n) \<Longrightarrow> \<not> is_delim b \<and> b \<noteq> 0 \<and> b \<noteq> 0x7C"
  using hex_char_no by (auto simp: hex_field_def)

lemma notin_hex_field: "is_delim b \<or> b = 0 \<or> b = 0x7C \<Longrightarrow> b \<notin> set (hex_field k n)"
  using set_hex_field by blast

lemma hex_field_Suc: "hex_field (Suc k) n = hex_char (n div 16 ^ k mod 16) # hex_field k n"
  by (simp add: hex_field_def)

lemma length_hex_field [simp]: "length (hex_field k n) = k"
  by (simp add: hex_field_def)

lemma strtol16_field:
  assumes "n < 2 ^ 31"
  shows "strtol16 (hex_field 8 n @ 0 # p) = Inr (int n)"
proof -
  have "hex_field (Suc (Suc 6)) n = hex_char (n div 16 ^ Suc 6 mod 16) # hex_char (n div 16 ^ 6 mod 16) # hex_field 6 n"
    by (simp only: hex_field_Suc)
  moreover have "Suc (Suc 6) = 8" by simp
  moreover have "n div 16 ^ Suc 6 mod 16 < 16" "n div 16 ^ 6 mod 16 < 16" by (rule mod_less_divisor, simp)+
  ultimately obtain c d where cd: "hex_field 8 n = hex_char c # hex_char d # hex_field 6 n" "c < 16" "d < 16" by metis
  have "hex_prefix (hex_field 8 n @ 0 # p) = hex_field 8 n @ 0 # p"
    using hex_char_no(3) [OF cd(3)] unfolding cd(1) by (simp add: hex_prefix_def)
  moreover have "dropWhile is_space (hex_field 8 n @ 0 # p) = hex_field 8 n @ 0 # p"
    using hex_char_no(1) [OF cd(2)] unfolding cd(1) by simp
  moreover have "hd (hex_field 8 n @ 0 # p) \<noteq> 0x2D" "hd (hex_field 8 n @ 0 # p) \<noteq> 0x2B" "hex_field 8 n @ 0 # p \<noteq> []"
    using hex_char_no(3) [OF cd(2)] unfolding cd(1) by simp_all
  moreover have "hex_digits 0 (hex_field 8 n @ 0 # p) = Inr n" using hex_digits_field [of 0 8 n p] assms by simp
  ultimately show ?thesis using assms by (simp add: strtol16_def)
qed

definition file_of :: "u8 list list \<Rightarrow> u8 list" where
  "file_of ls = concat (map (\<lambda>l. l @ [10]) ls)"

lemma tokens_line:
  assumes "l \<noteq> []" "\<forall>b \<in> set l. \<not> is_delim b"
  shows "tokens (l @ 10 # bs) = l # tokens bs"
proof -
  have "takeWhile (\<lambda>b. \<not> is_delim b) (l @ 10 # bs) = l" "dropWhile (\<lambda>b. \<not> is_delim b) (l @ 10 # bs) = 10 # bs"
    using assms(2) by (simp_all add: takeWhile_append2 dropWhile_append2 is_delim_def)
  then show ?thesis using assms by (cases l) (auto simp: is_delim_def)
qed

lemma tokens_file_of: "\<forall>l \<in> set ls. l \<noteq> [] \<and> (\<forall>b \<in> set l. \<not> is_delim b) \<Longrightarrow> tokens (file_of ls) = ls"
  by (induction ls) (simp_all add: file_of_def tokens_line)

lemma set_file_of: "b \<in> set (file_of ls) \<Longrightarrow> b = 10 \<or> (\<exists>l \<in> set ls. b \<in> set l)"
  by (auto simp: file_of_def split: if_splits)

lemma strtok_zero:
  assumes "0 \<notin> set bs"
  shows "\<exists>r. strtok (bs @ 0 # rest) = Inr r"
  using assms by (cases rule: strtok_tokens [where rest = rest]) auto

lemma first_line:
  assumes "tokens bs = l # ls" "0 \<notin> set bs"
  obtains bs' where "strtok (bs @ replicate 4 0) = Inr (Some (l, bs' @ replicate 4 0))" "0 \<notin> set bs'" "tokens bs' = ls"
proof -
  have z: "replicate 4 (0 :: u8) = 0 # replicate 3 0" by (simp add: numeral_eq_Suc)
  show thesis using assms(2)
    by (cases rule: strtok_tokens [where rest = "replicate 3 0"]) (use assms(1) that in \<open>auto simp: z\<close>)
qed

text \<open>The first line that names the two addresses.\<close>

definition address_line :: "nat \<Rightarrow> nat \<Rightarrow> u8 list \<times> u8 list" where
  "address_line g t = (hex_field 8 g, hex_field 8 t)"

lemma address_line_ok: "8 < cap \<Longrightarrow> sides_ok cap (address_line g t)"
  by (simp add: sides_ok_def address_line_def notin_hex_field)

lemma init_address_from_file_line:
  assumes "tokens bs = line_of (address_line g t) # ls" "0 \<notin> set bs" "g < 2 ^ 31" "t < 2 ^ 31"
  shows "init_address_from_file (bs @ replicate 4 0) a = Inr (int g, int t)"
proof -
  obtain bs' where b: "strtok (bs @ replicate 4 0) = Inr (Some (line_of (address_line g t), bs' @ replicate 4 0))" "0 \<notin> set bs'"
    by (rule first_line [OF assms(1,2)])
  obtain r where "strtok (bs' @ replicate 4 0) = Inr r" using strtok_zero [OF b(2), of "replicate 3 0"] by (auto simp: numeral_eq_Suc)
  then show ?thesis
    using b(1) split_line_of [OF address_line_ok [of 50 g t]] strtol16_field assms(3,4)
    by (simp add: init_address_from_file_def address_line_def)
qed

section \<open>Loading the library\<close>

definition sides_plain :: "u8 list \<times> u8 list \<Rightarrow> bool" where
  "sides_plain d \<longleftrightarrow> (\<forall>b \<in> set (fst d) \<union> set (snd d). \<not> is_delim b)"

lemma plain_line:
  assumes "sides_ok cap d" "sides_plain d"
  shows "line_of d \<noteq> [] \<and> (\<forall>b \<in> set (line_of d). \<not> is_delim b \<and> b \<noteq> 0)"
proof -
  have "\<not> is_delim 0x7C" by (simp add: is_delim_def)
  then show ?thesis using assms by (auto simp: line_of_def sides_ok_def sides_plain_def)
qed

lemma address_line_plain: "sides_plain (address_line g t)"
  using set_hex_field by (auto simp: sides_plain_def address_line_def)

lemma hook_get_set_result:
  assumes "libil2cpp_base s \<noteq> 0"
  shows "hooks (hook_get_set env s) = hooks s @ (if address_get s = 0 then [] else [(libil2cpp_base s + address_get s, ie_new_get env)])
      @ (if address_set s = 0 then [] else [(libil2cpp_base s + address_set s, ie_new_set env)])"
    and "address_get s \<noteq> 0 \<Longrightarrow> old_func_get (hook_get_set env s) = ie_hook env (libil2cpp_base s + address_get s) (ie_new_get env)"
    and "address_set s \<noteq> 0 \<Longrightarrow> old_func_set (hook_get_set env s) = ie_hook env (libil2cpp_base s + address_set s) (ie_new_set env)"
    and "file_buffer (hook_get_set env s) = file_buffer s" "middle_get (hook_get_set env s) = middle_get s"
    and "middle_set (hook_get_set env s) = middle_set s"
  using assms by (simp_all add: hook_get_set_def dobby_hook_def Let_def)

text \<open>What \<^verbatim>\<open>JNI_OnLoad\<close> comes to when the file is well formed.\<close>

lemma JNI_OnLoad_library:
  fixes base :: u32
  assumes "bs = file_of (map line_of (address_line g t # ds))" "\<forall>d \<in> set ds. sides_ok SplitSize d \<and> sides_plain d"
    and "\<forall>l \<in> set ls. maps_line l" "find (\<lambda>l. contains l lib_name \<and> contains l [0x72, 0x2D, 0x78, 0x70]) ls = Some (hex_field 8 (unat base) @ 0x2D # lib_end)"
    and "g < 2 ^ 31" "t < 2 ^ 31"
  shows "dictionary_ok (bs @ replicate 4 0) ds"
    and "base \<noteq> 0 \<Longrightarrow> JNI_OnLoad env (Some bs) (length bs) (concat ls) s =
      hook_library env (s\<lparr>file_buffer := bs @ replicate 4 0, address_get := of_nat g, address_set := of_nat t, libil2cpp_base := base\<rparr>)"
proof -
  let ?buf = "bs @ replicate 4 0"
  have all: "l \<noteq> [] \<and> (\<forall>b \<in> set l. \<not> is_delim b \<and> b \<noteq> 0)" if "l \<in> set (map line_of (address_line g t # ds))" for l
  proof -
    from that consider "l = line_of (address_line g t)" | d where "d \<in> set ds" "l = line_of d" by auto
    then show ?thesis
      by cases (use plain_line [OF address_line_ok [of 9 g t] address_line_plain] plain_line assms(2) in \<open>simp_all\<close>, blast)
  qed
  then have tok: "tokens bs = line_of (address_line g t) # map line_of ds"
    unfolding assms(1) by (subst tokens_file_of) auto
  have z: "0 \<notin> set bs"
  proof
    assume "0 \<in> set bs"
    from set_file_of [OF this [unfolded assms(1)]] all show False by (elim disjE bexE) (simp, blast)
  qed
  then have tw: "takeWhile (\<lambda>b. b \<noteq> 0) ?buf = bs" by (subst takeWhile_append2) (auto simp: numeral_eq_Suc)
  show "dictionary_ok ?buf ds"
    unfolding dictionary_ok_def tw using tok assms(2) address_line_ok [of SplitSize g t]
    by (intro conjI exI [of _ "address_line g t"]) (simp_all add: sizes)
  note base = find_module_at [OF assms(3,4)]
  show "JNI_OnLoad env (Some bs) (length bs) (concat ls) s =
      hook_library env (s\<lparr>file_buffer := ?buf, address_get := of_nat g, address_set := of_nat t, libil2cpp_base := base\<rparr>)" if "base \<noteq> 0"
    using that by (simp add: JNI_OnLoad_def readFile_def init_address_from_file_line [OF tok z assms(5,6)] base)
qed

text \<open>
  (C6) A file whose first line holds the two addresses, each below \<open>2 ^ 31\<close> and not both zero, and whose other lines
  hold the entries of a dictionary, when \<^verbatim>\<open>libil2cpp.so\<close> is mapped: \<^verbatim>\<open>JNI_OnLoad\<close> hooks the functions at the base of the library plus
  the addresses, in this order and leaving out an address that is zero, stores what the hook engine gives back as the
  original functions, and leaves a buffer that holds the dictionary.
\<close>

theorem JNI_OnLoad_hooks:
  fixes base :: u32
  assumes "bs = file_of (map line_of (address_line g t # ds))" "\<forall>d \<in> set ds. sides_ok SplitSize d \<and> sides_plain d"
    and "g < 2 ^ 31" "t < 2 ^ 31" "g \<noteq> 0 \<or> t \<noteq> 0"
    and "\<forall>l \<in> set ls. maps_line l" "find (\<lambda>l. contains l lib_name \<and> contains l [0x72, 0x2D, 0x78, 0x70]) ls = Some (hex_field 8 (unat base) @ 0x2D # lib_end)"
    and "base \<noteq> 0"
  shows "\<exists>s'. JNI_OnLoad env (Some bs) (length bs) (concat ls) s = Inr s' \<and> dictionary_ok (file_buffer s') ds
    \<and> hooks s' = hooks s @ (if g = 0 then [] else [(base + of_nat g, ie_new_get env)]) @ (if t = 0 then [] else [(base + of_nat t, ie_new_set env)])
    \<and> (g \<noteq> 0 \<longrightarrow> old_func_get s' = ie_hook env (base + of_nat g) (ie_new_get env))
    \<and> (t \<noteq> 0 \<longrightarrow> old_func_set s' = ie_hook env (base + of_nat t) (ie_new_set env))
    \<and> middle_get s' = middle_get s \<and> middle_set s' = middle_set s"
proof -
  let ?s = "s\<lparr>file_buffer := bs @ replicate 4 0, address_get := of_nat g, address_set := of_nat t, libil2cpp_base := base\<rparr>"
  have nz: "(of_nat n :: u32) = 0 \<longleftrightarrow> n = 0" if "n < 2 ^ 31" for n
    using unat32_small [of n] that by (auto simp flip: unat_eq_0)
  note l = JNI_OnLoad_library [OF assms(1,2,6,7,3,4)]
  have "hook_library env ?s = Inr (hook_get_set env ?s)"
    using nz [OF assms(3)] nz [OF assms(4)] assms(5) by (auto simp: hook_library_def)
  then show ?thesis
    using l(1) l(2) [OF assms(8), of env s] hook_get_set_result [of ?s env] assms(8) nz [OF assms(3)] nz [OF assms(4)] by simp
qed

text \<open>A file that names two addresses and translates \<^verbatim>\<open>hi\<close>, and the map of a process with the library at \<open>0xB6A51000\<close>.\<close>

definition hi_file :: "u8 list" where
  "hi_file = file_of (map line_of (address_line 0x1234 0x5678 # hi_entries))"

lemma two_maps_lib: "\<forall>l \<in> set two_maps. maps_line l"
  "find (\<lambda>l. contains l lib_name \<and> contains l [0x72, 0x2D, 0x78, 0x70]) two_maps =
     Some (hex_field 8 (unat (0xB6A51000 :: u32)) @ 0x2D # map of_char (''b8d3a000 r-xp libil2cpp.so'' @ [CHR 0x0A]))"
proof -
  have "hex_field 8 (unat (0xB6A51000 :: u32)) = map of_char ''b6a51000''" by (simp add: hex_field_def hex_char_def upt_rec)
  moreover have "find (\<lambda>l. contains l lib_name \<and> contains l [0x72, 0x2D, 0x78, 0x70]) two_maps =
     Some (map of_char (''b6a51000-b8d3a000 r-xp libil2cpp.so'' @ [CHR 0x0A]))" by code_simp
  ultimately show "find (\<lambda>l. contains l lib_name \<and> contains l [0x72, 0x2D, 0x78, 0x70]) two_maps =
     Some (hex_field 8 (unat (0xB6A51000 :: u32)) @ 0x2D # map of_char (''b8d3a000 r-xp libil2cpp.so'' @ [CHR 0x0A]))" by simp
  show "\<forall>l \<in> set two_maps. maps_line l" by code_simp
qed

theorem JNI_OnLoad_hooks_witness:
  "\<exists>s'. JNI_OnLoad hi_env (Some hi_file) (length hi_file) (concat two_maps) (game_with hi_text) = Inr s'
     \<and> hooks s' = [(0xB6A52234, 0), (0xB6A56678, 0)] \<and> dictionary_ok (file_buffer s') hi_entries"
proof -
  have "\<forall>d \<in> set hi_entries. sides_ok SplitSize d \<and> sides_plain d" by code_simp
  note h = JNI_OnLoad_hooks [OF hi_file_def this _ _ _ two_maps_lib, where env = hi_env and s = "game_with hi_text"]
  have "hooks (game_with hi_text) = []" by (simp add: game_with_def)
  moreover have "ie_new_get hi_env = 0" "ie_new_set hi_env = 0" by (simp_all add: hi_env_def)
  ultimately show ?thesis using h by auto
qed

section \<open>Faults\<close>

text \<open>
  When the first line of the file has no bar, loading the library follows the null pointer that \<^verbatim>\<open>strstr\<close> returns.
\<close>

theorem first_line_without_bar:
  assumes "tokens bs = l # ls" "0x7C \<notin> set l" "0 \<notin> set bs"
  shows "JNI_OnLoad env (Some bs) (length bs) maps s = Inl NullPointer"
proof -
  obtain bs' where b: "strtok (bs @ replicate 4 0) = Inr (Some (l, bs' @ replicate 4 0))" by (rule first_line [OF assms(1,3)])
  have "bar_position l = None" using assms(2) by (auto simp: bar_position_def find_None_iff in_set_conv_nth)
  then show ?thesis by (simp add: JNI_OnLoad_def readFile_def init_address_from_file_def b split_line_def)
qed

theorem first_line_without_bar_witness:
  "JNI_OnLoad hi_env (Some [0x68, 0x69, 10]) (length [0x68, 0x69, 10 :: u8]) [] (game_with hi_text) = Inl NullPointer"
  using first_line_without_bar [of "[0x68, 0x69, 10]" "[0x68, 0x69]" "[]" hi_env "[]" "game_with hi_text"] by (auto simp: is_delim_def)

text \<open>
  A string argument that is null, which the handler means to pass on, is followed for its length first: the handler
  of \<^verbatim>\<open>set_text\<close> never returns from such a call, nor does the handler of \<^verbatim>\<open>get_text\<close> when the original function answers null.
\<close>

theorem null_string_faults:
  "new_func_set env arg 0 arg2 arg3 s = Inl NullPointer
    \<and> (fst (ie_call env (old_func_get s) [arg, arg1, arg2, arg3] (game_mem s)) = 0 \<longrightarrow> new_func_get env arg arg1 arg2 arg3 s = Inl NullPointer)"
  by (auto simp: new_func_set_def new_func_get_def string_size_def Let_def split: prod.splits)

theorem null_string_faults_witness:
  "new_func_get hi_env 1 0 0 0 (game_with hi_text) = Inl NullPointer"
  using null_string_faults [of hi_env 1 0 0 "game_with hi_text" 0] by (simp add: hi_env_def)

text \<open>
  When the library is loaded already and the file names no addresses, the handle of the library is still null, for which
  \<^verbatim>\<open>dlsym\<close> finds nothing: the first instruction of a null function is read.
\<close>

theorem late_load_faults:
  fixes base :: u32
  assumes "bs = file_of (map line_of (address_line 0 0 # ds))" "\<forall>d \<in> set ds. sides_ok SplitSize d \<and> sides_plain d"
    and "\<forall>l \<in> set ls. maps_line l" "find (\<lambda>l. contains l lib_name \<and> contains l [0x72, 0x2D, 0x78, 0x70]) ls = Some (hex_field 8 (unat base) @ 0x2D # lib_end)"
    and "base \<noteq> 0" "libil2cpp_handle s = 0" "ie_dlsym env 0 = 0"
  shows "JNI_OnLoad env (Some bs) (length bs) (concat ls) s = Inl NullPointer"
  using JNI_OnLoad_library(2) [OF assms(1-4), of env s] assms(5-7) by (simp add: hook_library_def hook_get_methods_def)

theorem late_load_faults_witness:
  "JNI_OnLoad hi_env (Some (file_of (map line_of (address_line 0 0 # hi_entries)))) (length (file_of (map line_of (address_line 0 0 # hi_entries))))
     (concat two_maps) (game_with hi_text) = Inl NullPointer"
proof -
  have "\<forall>d \<in> set hi_entries. sides_ok SplitSize d \<and> sides_plain d" by code_simp
  note h = late_load_faults [OF refl this two_maps_lib, where env = hi_env and s = "game_with hi_text"]
  have "libil2cpp_handle (game_with hi_text) = 0" "ie_dlsym hi_env 0 = 0" by (simp_all add: game_with_def hi_env_def)
  then show ?thesis using h by simp
qed

section \<open>A library with two methods\<close>

text \<open>
  A function \<^verbatim>\<open>b #64\<close> at \<open>0x4000\<close>; and two methods at \<open>0x2000\<close> and \<open>0x2010\<close>, of a class at \<open>0x2020\<close> in the name space \<^verbatim>\<open>UnityEngine.UI\<close>.
\<close>

definition branch_game :: inject where
  "branch_game = (game_with hi_text)\<lparr>game_mem := store32 0x4000 0xEA000010 (\<lambda>_. 0)\<rparr>"

theorem hook_get_methods_target_witness:
  "\<exists>s'. hook_get_methods (hi_env\<lparr>ie_dlsym := \<lambda>_. 0x4000\<rparr>) branch_game = Inr s' \<and> hooks s' = [(0x4048, 0)]"
proof -
  let ?c = "\<lparr>R = \<lambda>_. 0, PC = 0x4000, Thumb = False, N = False, Z = False, Cf = False, V = False, mem = game_mem branch_game\<rparr>"
  have l: "load32 (mem ?c) 0x4000 = 0xEA000010" by (simp add: branch_game_def load32_store32_same)
  have "cpu_step ?c = Some (?c\<lparr>PC := 0x4048\<rparr>)" using l by (simp add: cpu_step_def arm_exec_def cond_passed_def)
  moreover have "hooks branch_game = []" by (simp add: branch_game_def game_with_def)
  ultimately show ?thesis
    using hook_get_methods_target [of ?c branch_game "hi_env\<lparr>ie_dlsym := \<lambda>_. 0x4000\<rparr>"] l by (auto simp: hi_env_def)
qed

definition methods_image :: "u8 list" where
  "methods_image = concat (map (le_bytes 4 :: u32 \<Rightarrow> u8 list) [0x5000, 0, 0x203F, 0x2020, 0x6000, 0, 0x2048, 0x2020, 0, 0, 0, 0x2030])
     @ map of_char ''UnityEngine.UI'' @ 0 # map of_char ''get_text'' @ 0 # map of_char ''set_text'' @ [0]"

definition methods_mem :: "u32 \<Rightarrow> u8" where
  "methods_mem = mem_put 0x2000 methods_image (\<lambda>_. 0)"

lemma methods_read:
  assumes "i + n \<le> 81"
  shows "mem_bytes methods_mem (0x2000 + of_nat i) n = take n (drop i methods_image)"
  unfolding methods_mem_def by (rule mem_bytes_put) (use assms in \<open>simp_all add: methods_image_def\<close>)

lemma methods_words:
  "mem_word methods_mem 0x2000 = 0x5000" "mem_word methods_mem 0x2008 = 0x203F" "mem_word methods_mem 0x200C = 0x2020"
  "mem_word methods_mem 0x2010 = 0x6000" "mem_word methods_mem 0x2018 = 0x2048" "mem_word methods_mem 0x201C = 0x2020"
  "mem_word methods_mem 0x202C = 0x2030"
  using methods_read [of 0 4] methods_read [of 8 4] methods_read [of 12 4] methods_read [of 16 4] methods_read [of 24 4]
    methods_read [of 28 4] methods_read [of 44 4]
  by (simp_all add: mem_word_def methods_image_def le_bytes_4 le_word_le_bytes)

lemma methods_strings:
  "mem_streq methods_mem 0x2030 ''UnityEngine.UI'' = Inr True"
  "mem_streq methods_mem 0x203F ''get_text'' = Inr True" "mem_streq methods_mem 0x203F ''set_text'' = Inr False"
  "mem_streq methods_mem 0x2048 ''get_text'' = Inr False" "mem_streq methods_mem 0x2048 ''set_text'' = Inr True"
  using methods_read [of 48 "Suc (length ''UnityEngine.UI'')"] methods_read [of 63 "Suc (length ''get_text'')"]
    methods_read [of 72 "Suc (length ''set_text'')"]
  by (simp_all add: mem_streq_def methods_image_def le_bytes_4)

definition methods_game :: inject where
  "methods_game = (game_with hi_text)\<lparr>game_mem := methods_mem, libil2cpp_base := 0x1000\<rparr>"

lemma methods_listed:
  "\<exists>s. list_methods hi_env [(0, 0x2000), (0, 0x2010)] methods_game = Inr ([(0x2000, methods_mem), (0x2010, methods_mem)], s)"
  by (simp add: new_func_get_methods_def methods_game_def game_with_def hi_env_def methods_words methods_strings hook_get_set_hooks
      hook_get_set_def dobby_hook_def method_hooks_def Let_def)

lemma methods_named:
  "named methods_mem 0x2000 ''get_text''" "\<not> named methods_mem 0x2000 ''set_text''" "named methods_mem 0x2010 ''set_text''"
  "\<not> named methods_mem 0x2010 ''get_text''"
  by (simp_all add: named_def methods_words methods_strings)

theorem methods_hooked_once_witness:
  "\<exists>rs s'. list_methods hi_env [(0, 0x2000), (0, 0x2010)] methods_game = Inr (rs, s') \<and> is_got_get_and_set s'"
proof -
  obtain s' where r: "list_methods hi_env [(0, 0x2000), (0, 0x2010)] methods_game = Inr ([(0x2000, methods_mem), (0x2010, methods_mem)], s')"
    using methods_listed by blast
  have g: "\<not> is_got_get_and_set methods_game" "address_get methods_game = 0" "address_set methods_game = 0"
    by (simp_all add: methods_game_def game_with_def)
  have "is_got_get_and_set s'"
    using methods_hooked_once [OF r g] by (simp add: listed_def methods_named methods_words split: if_splits)
  then show ?thesis using r by blast
qed

end
