(* ===== verification/Inject_Inline.thy ===== *)
theory Inject_Inline
  imports Inject_Correct InlineHook_Exec
begin

text \<open>
  The variant of the injected library that hooks with inlineHook (\<^verbatim>\<open>inject_inlinehook.cpp\<close>).  Its handlers replace a text by
  the right side of the first dictionary entry whose left side begins it.  The process is the \<open>world\<close> of theory
  \<open>InlineHook\<close>, and the hooks are made by the operations of that theory: \<^verbatim>\<open>old_func_get\<close> and the other pointers to the original
  functions are cells of the memory of the process, which \<^verbatim>\<open>inlineHook\<close> writes to.
\<close>

section \<open>State\<close>

text \<open>
  \<open>i_call f args\<close> calls the function at \<open>f\<close> on the memory; \<open>i_end\<close> is the address of the block \<^verbatim>\<open>end\<close>; \<open>i_calloc\<close> is the
  address of the \<open>n\<close>-th string that is made and \<open>i_free\<close> what \<^verbatim>\<open>free\<close> does to a block of a given size; \<open>i_os\<close> is what the operating
  system answers to the \<open>n\<close>-th operation of the hook engine; \<open>i_old_dlopen\<close> and its companions are the addresses of the
  variables that hold the original functions; the rest are the addresses of functions.
\<close>

record inline_env =
  i_call :: "u32 \<Rightarrow> u32 list \<Rightarrow> (u32 \<Rightarrow> u8) \<Rightarrow> u32 \<times> (u32 \<Rightarrow> u8)"
  i_end :: u32
  i_calloc :: "nat \<Rightarrow> u32"
  i_free :: "u32 \<Rightarrow> nat \<Rightarrow> (u32 \<Rightarrow> u8) \<Rightarrow> (u32 \<Rightarrow> u8)"
  i_os :: "nat \<Rightarrow> os"
  i_dlsym :: "u32 \<Rightarrow> u32"
  i_dlopen :: u32
  i_new_dlopen :: u32
  i_new_get :: u32
  i_new_set :: u32
  i_new_methods :: u32
  i_old_dlopen :: u32
  i_old_get :: u32
  i_old_set :: u32
  i_old_methods :: u32

record inline_inject =
  process :: world
  buffer :: "u8 list"
  address_get :: u32
  address_set :: u32
  func_dlopen :: u32
  func_get :: u32
  func_set :: u32
  libil2cpp_base :: u32
  libil2cpp_handle :: u32
  is_got_get_and_set :: bool
  current_set_index :: u32
  current_get_index :: u32
  header_get :: "u8 list"
  middle_get :: "u8 list"
  header_set :: "u8 list"
  middle_set :: "u8 list"
  strings_made :: nat
  leaked :: nat
  engine_calls :: nat

abbreviation memory :: "inline_inject \<Rightarrow> u32 \<Rightarrow> u8" where
  "memory s \<equiv> w_mem (process s)"

definition set_memory :: "(u32 \<Rightarrow> u8) \<Rightarrow> inline_inject \<Rightarrow> inline_inject" where
  "set_memory m s = s\<lparr>process := (process s)\<lparr>w_mem := m\<rparr>\<rparr>"

text \<open>A call through the variable at \<open>cell\<close>, which is null until the hook is made.\<close>

definition call_old :: "inline_env \<Rightarrow> u32 \<Rightarrow> u32 list \<Rightarrow> inline_inject \<Rightarrow> (u32 \<times> inline_inject) res" where
  "call_old env cell args s =
     (let f = mem_word (memory s) cell
      in if f = 0 then Inl NullPointer
         else let (r, m) = i_call env f args (memory s) in Inr (r, set_memory m s))"

section \<open>Hooking\<close>

text \<open>An operation of the hook engine; its status is only logged.\<close>

definition engine ::
    "(os \<Rightarrow> world \<Rightarrow> (ele7en_status \<times> world) res) \<Rightarrow> inline_env \<Rightarrow> inline_inject \<Rightarrow> inline_inject res" where
  "engine f env s =
     res_bind (f (i_os env (engine_calls s)) (process s)) (\<lambda>(_, w). Inr (s\<lparr>process := w, engine_calls := engine_calls s + 1\<rparr>))"

definition hook_function :: "inline_env \<Rightarrow> u32 \<Rightarrow> u32 \<Rightarrow> u32 \<Rightarrow> inline_inject \<Rightarrow> inline_inject res" where
  "hook_function env target new cell s =
     res_bind (engine (\<lambda>os. registerInlineHook os target new cell) env s) (engine (\<lambda>os. inlineHook os target) env)"

definition hook_dlopen :: "inline_env \<Rightarrow> inline_inject \<Rightarrow> inline_inject res" where
  "hook_dlopen env s = hook_function env (i_dlopen env) (i_new_dlopen env) (i_old_dlopen env) (s\<lparr>func_dlopen := i_dlopen env\<rparr>)"

definition hook_get_set :: "inline_env \<Rightarrow> inline_inject \<Rightarrow> inline_inject res" where
  "hook_get_set env s =
     (if libil2cpp_base s = 0 then Inr s
      else
        res_bind (if address_get s \<noteq> 0
                  then let f = libil2cpp_base s + address_get s
                       in hook_function env f (i_new_get env) (i_old_get env) (s\<lparr>func_get := f\<rparr>)
                  else Inr s) (\<lambda>s1.
        if address_set s1 \<noteq> 0
        then let f = libil2cpp_base s1 + address_set s1
             in hook_function env f (i_new_set env) (i_old_set env) (s1\<lparr>func_set := f\<rparr>)
        else Inr s1))"

definition hook_get_methods :: "inline_env \<Rightarrow> inline_inject \<Rightarrow> inline_inject res" where
  "hook_get_methods env s =
     (let func_get_methods = i_dlsym env (libil2cpp_handle s)
      in if func_get_methods = 0 then Inl NullPointer
         else let new_p = (signed_drop_bit 8 (push_bit 8 (mem_word (memory s) func_get_methods)) * 4 + 8) + func_get_methods
              in hook_function env new_p (i_new_methods env) (i_old_methods env) s)"

text \<open>\<open>f\<close> and \<open>got\<close> are the dictionary file and what \<^verbatim>\<open>fread\<close> reports.\<close>

definition JNI_OnLoad :: "inline_env \<Rightarrow> u8 list option \<Rightarrow> nat \<Rightarrow> inline_inject \<Rightarrow> inline_inject res" where
  "JNI_OnLoad env f got s =
     (case readFile f got of
        None \<Rightarrow> Inr s
      | Some buf \<Rightarrow>
          res_bind (init_address_from_file buf (sint (address_get s), sint (address_set s))) (\<lambda>(g, t).
            hook_dlopen env (s\<lparr>buffer := buf, address_get := of_int g, address_set := of_int t\<rparr>)))"

text \<open>\<open>filename\<close> is the pointer that is passed with the string it points to, \<open>maps\<close> the map of the process.\<close>

definition new_func_dlopen ::
    "inline_env \<Rightarrow> u8 list \<Rightarrow> (u32 \<times> u8 list) option \<Rightarrow> u32 \<Rightarrow> u32 \<Rightarrow> inline_inject \<Rightarrow> (u32 \<times> inline_inject) res" where
  "new_func_dlopen env maps filename flags caller_addr s =
     (let p = (case filename of None \<Rightarrow> 0 | Some (p, _) \<Rightarrow> p);
          old = call_old env (i_old_dlopen env) [p, flags, caller_addr]
      in res_bind (old s) (\<lambda>(ret, s1).
         case filename of
           None \<Rightarrow> Inl NullPointer
         | Some (_, name) \<Rightarrow>
             if contains name (map of_char ''libil2cpp'') \<and> caller_addr \<noteq> 0
             then res_bind (find_module_by_name lib_name maps) (\<lambda>base.
                    let s2 = s1\<lparr>libil2cpp_handle := ret, libil2cpp_base := base\<rparr>
                    in res_bind (if address_get s2 = 0 \<and> address_set s2 = 0 then hook_get_methods env s2 else hook_get_set env s2) old)
             else old s1))"

text \<open>A handler that nothing installs; \<open>cell\<close> is the variable \<^verbatim>\<open>old_fun_dlsym\<close>.\<close>

definition new_func_dlsym :: "inline_env \<Rightarrow> u32 \<Rightarrow> u32 \<Rightarrow> u32 \<Rightarrow> inline_inject \<Rightarrow> (u32 \<times> inline_inject) res" where
  "new_func_dlsym env cell handle symbol s =
     res_bind (call_old env cell [handle, symbol] s) (\<lambda>(_, s1). call_old env cell [handle, symbol] s1)"

definition new_func_get_methods :: "inline_env \<Rightarrow> u32 \<Rightarrow> u32 \<Rightarrow> inline_inject \<Rightarrow> (u32 \<times> inline_inject) res" where
  "new_func_get_methods env arg arg1 s =
     res_bind (call_old env (i_old_methods env) [arg, arg1] s) (\<lambda>(ret, s).
       let m = memory s
       in if ret = 0 then Inr (ret, s)
          else
            let p_Kclass = mem_word m (ret + 12); p_MethodName = mem_word m (ret + 8)
            in if p_Kclass = 0 then Inl NullPointer
               else
                 res_bind (mem_streq m (mem_word m (p_Kclass + 12)) ''UnityEngine.UI'') (\<lambda>ui.
                 if \<not> ui then Inr (ret, s)
                 else
                   res_bind (mem_streq m p_MethodName ''get_text'') (\<lambda>is_get.
                   res_bind (mem_streq m p_MethodName ''set_text'') (\<lambda>is_set.
                   let s1 = (if is_get then s\<lparr>address_get := mem_word m ret\<rparr> else s);
                       s2 = (if is_set then s1\<lparr>address_set := mem_word m ret\<rparr> else s1)
                   in if address_get s2 \<noteq> 0 \<and> address_set s2 \<noteq> 0 \<and> \<not> is_got_get_and_set s2
                      then res_bind (hook_get_set env (s2\<lparr>address_get := address_get s2 - libil2cpp_base s2,
                                      address_set := address_set s2 - libil2cpp_base s2\<rparr>)) (\<lambda>s3.
                             Inr (ret, s3\<lparr>is_got_get_and_set := True\<rparr>))
                      else Inr (ret, s2)))))"

section \<open>Replacing the text\<close>

text \<open>\<^verbatim>\<open>hexDump\<close> reads the bytes it would print.\<close>

definition hexDump :: "u8 list \<Rightarrow> int \<Rightarrow> unit res" where
  "hexDump buf n = (if n < 1 \<or> nat n \<le> length buf then Inr () else Inl OutOfBounds)"

text \<open>
  The loop over the lines.  \<open>cap\<close> is the size of \<^verbatim>\<open>convert_str\<close> and of \<^verbatim>\<open>p1\<close>, \<open>dump\<close> times the length of the left side is what is
  passed to \<^verbatim>\<open>hexDump\<close>, \<open>lost\<close> counts the blocks that are not freed.  The result is the new text and the static buffer.
\<close>

function scan_prefix ::
    "nat \<Rightarrow> int \<Rightarrow> bool \<Rightarrow> u8 list \<Rightarrow> nat \<Rightarrow> u8 list \<Rightarrow> (u8 list option \<times> u8 list \<times> nat) res" where
  "scan_prefix cap dump first middle lost p =
     res_bind (Dictionary.strtok p) (\<lambda>t.
       case t of
         None \<Rightarrow> Inr (None, middle, lost)
       | Some (line, rest) \<Rightarrow>
           res_bind (split_line SplitSize line) (\<lambda>(left, right).
             if first then scan_prefix cap dump False middle lost rest
             else
               res_bind (UTF8_to_Unicode (replicate cap 0) left) (\<lambda>(convert_str, n).
               let length_left = sint n in
               res_bind (tolower_unicode convert_str length_left) (\<lambda>convert_str.
               res_bind (tolower_unicode middle length_left) (\<lambda>middle.
               res_bind (c_memcmp middle convert_str length_left) (\<lambda>eq.
                 if eq then
                   res_bind (hexDump middle (length_left * dump)) (\<lambda>_.
                   res_bind (UTF8_to_Unicode (replicate cap 0) right) (\<lambda>(p1, le).
                     Inr (Some (take (nat (sint le)) p1), middle, lost)))
                 else scan_prefix cap dump False middle (lost + 1) rest))))))"
  by pat_completeness auto

termination
  by (relation "measure (\<lambda>(_, _, _, _, _, p). length p)") (auto dest: strtok_length)

declare scan_prefix.simps [simp del]

text \<open>The header is copied as it is, with the old number of characters.\<close>

definition new_string :: "u8 list \<Rightarrow> u8 list \<Rightarrow> u8 list" where
  "new_string header txt = header @ txt @ replicate EndSize 0"

section \<open>The handlers\<close>

definition new_func_set :: "inline_env \<Rightarrow> u32 \<Rightarrow> u32 \<Rightarrow> u32 \<Rightarrow> u32 \<Rightarrow> inline_inject \<Rightarrow> (u32 \<times> inline_inject) res" where
  "new_func_set env arg arg1 arg2 arg3 s0 =
     (let s1 = s0\<lparr>current_set_index := current_set_index s0 + 1\<rparr>;
          old = (\<lambda>str. call_old env (i_old_set env) [arg, str, arg2, arg3])
      in res_bind (if current_set_index s1 = 500 then engine (\<lambda>os. inlineUnHook os (func_dlopen s1)) env s1 else Inr s1) (\<lambda>s.
         if arg1 = 0 then Inl NullPointer
         else if memory s (arg1 + 12) = 0 \<and> memory s (arg1 + 14) = 0 then old arg1 s
         else
           res_bind (scan_prefix (SplitSize * 2) 2 True (load_middle (i_end env) (memory s) arg1 (middle_set s)) (leaked s) (buffer s))
             (\<lambda>(txt, middle, lost).
               let header = load_header (memory s) arg1; s2 = s\<lparr>header_set := header, middle_set := middle, leaked := lost\<rparr>
               in case txt of
                    None \<Rightarrow> old arg1 s2
                  | Some t \<Rightarrow>
                      (let temp = i_calloc env (strings_made s)
                       in old temp (set_memory (mem_put temp (new_string header t) (memory s)) (s2\<lparr>strings_made := strings_made s + 1\<rparr>))))))"

definition new_func_get :: "inline_env \<Rightarrow> u32 \<Rightarrow> u32 \<Rightarrow> u32 \<Rightarrow> u32 \<Rightarrow> inline_inject \<Rightarrow> (u32 \<times> inline_inject) res" where
  "new_func_get env arg arg1 arg2 arg3 s0 =
     (let old = (\<lambda>a3. call_old env (i_old_get env) [arg, arg1, arg2, a3])
      in res_bind (old arg3 (s0\<lparr>current_get_index := current_get_index s0 + 1\<rparr>)) (\<lambda>(ret, s).
         if ret = 0 \<or> arg1 = 0 then Inr (ret, s)
         else if memory s (ret + of_nat HeaderSize) = 0 then Inr (ret, s)
         else
           res_bind (scan_prefix (MiddleSize * 2) 1 True (load_middle (i_end env) (memory s) ret (middle_get s)) (leaked s) (buffer s))
             (\<lambda>(txt, middle, lost).
               let header = load_header (memory s) ret; s2 = s\<lparr>header_get := header, middle_get := middle, leaked := lost\<rparr>
               in case txt of
                    None \<Rightarrow> old arg3 s2
                  | Some t \<Rightarrow>
                      (let temp = i_calloc env (strings_made s); bs = new_string header t
                       in old temp (set_memory (i_free env temp (length bs) (mem_put temp bs (memory s)))
                            (s2\<lparr>strings_made := strings_made s + 1\<rparr>))))))"

end
