(* ===== verification/Inject_Inline_Correct.thy ===== *)
theory Inject_Inline_Correct
  imports Inject_Inline
begin

text \<open>
  What the handlers of \<^verbatim>\<open>inject_inlinehook.cpp\<close> do to a text, and that the functions they take the place of lead to them.
\<close>

section \<open>The entry that applies\<close>


lemma even_wide [simp]: "even (length (wide_text l))"
  by (simp add: wide_text_def)





section \<open>The loop over the lines\<close>






section \<open>The new string object\<close>




section \<open>set_text and get_text\<close>



section \<open>Hooking one function\<close>

text \<open>Stretches of memory that do not overlap.\<close>

definition apart :: "u32 \<Rightarrow> nat \<Rightarrow> u32 \<Rightarrow> nat \<Rightarrow> bool" where
  "apart a n b m \<longleftrightarrow> (\<forall>j < n. \<forall>k < m. a + of_nat j \<noteq> b + of_nat k)"

lemma not_in_page:
  assumes "\<forall>k < 0x1000. a \<noteq> page + of_nat k"
  shows "PAGE_START a \<noteq> page"
proof
  assume "PAGE_START a = page"
  then have "a = page + of_nat (unat (a AND 0xFFF))" using page_split(1) [of a] by simp
  moreover have "unat (a AND 0xFFF) < 0x1000" using page_split(3) [of a] by (simp add: word_less_nat_alt)
  ultimately show False using assms by blast
qed

lemma write_bytes_frame:
  assumes "w_mem w' = write_bytes a bs (w_mem w)" "length bs \<le> n" "\<forall>k < n. x \<noteq> a + of_nat k"
  shows "w_mem w' x = w_mem w x"
  unfolding assms(1) by (rule write_bytes_other) (use assms(2,3) in simp)

lemma inlineHook_status:
  assumes "inlineHook os t w = Inr (st, w')" "findInlineHookItem t (w_info w) = Some i" "status (item (w_info w) i) = REGISTERED"
  shows "st = ELE7EN_OK"
  using assms by (auto simp: inlineHook_def Let_def split: sum.splits prod.splits)

lemma registerInlineHook_status:
  assumes "registerInlineHook os t new proto w = Inr (st, w')" "isExecutableAddr os t" "isExecutableAddr os new" "findInlineHookItem t (w_info w) = None"
  shows "st = ELE7EN_OK"
  using assms by (auto simp: registerInlineHook_def Let_def split: if_splits sum.splits option.splits prod.splits)

lemma hook_function_arm:
  fixes s :: inline_inject and env :: inline_env
  defines "w \<equiv> process s" and "os \<equiv> i_os env (engine_calls s)"
  assumes "hook_function env t new cell s = Inr s'" "t AND 3 = 0" "fresh_slot w"
    and "isExecutableAddr os t" "isExecutableAddr os new" "findInlineHookItem t (w_info w) = None"
  shows "code32_at (memory s') t [0xe51ff004, new]"
    "\<And>x. \<forall>k < 0x1000. x \<noteq> os_mmap os + of_nat k \<Longrightarrow> \<forall>k < 4. x \<noteq> cell + of_nat k \<Longrightarrow> \<forall>k < 8. x \<noteq> t + of_nat k \<Longrightarrow> memory s' x = memory s x"
    "cell \<noteq> 0 \<Longrightarrow> apart cell 4 t 8 \<Longrightarrow> mem_word (memory s') cell = os_mmap os"
    "\<exists>it. target_addr it = t \<and> w_info (process s') = put_item (size_info (w_info w)) it ((w_info w)\<lparr>size_info := Suc (size_info (w_info w))\<rparr>)"
    "s' = s\<lparr>process := process s', engine_calls := engine_calls s + 2\<rparr>"
proof -
  let ?n = "size_info (w_info w)" and ?page = "os_mmap os"
  obtain st w1 st' w2 where r: "registerInlineHook os t new cell w = Inr (st, w1)" and h: "inlineHook (i_os env (engine_calls s + 1)) t w1 = Inr (st', w2)"
    and s': "s' = s\<lparr>process := w2, engine_calls := engine_calls s + 2\<rparr>"
    using assms(3) by (auto simp: hook_function_def engine_def res_bind_Inr_iff w_def os_def)
  have st: "st = ELE7EN_OK" by (rule registerInlineHook_status [OF r assms(6-8)])
  note reg = register_arm_effect [OF r [unfolded st] assms(4,5)]
  obtain i info' it where it: "addInlineHookItem (w_info w) = Some (i, info')" "w_info w1 = put_item i it info'" "target_addr it = t" "new_addr it = new" "status it = REGISTERED"
    using register_info [OF r] st by auto
  have i: "i = ?n" "info' = (w_info w)\<lparr>size_info := Suc ?n\<rparr>" using it(1) by (auto simp: addInlineHookItem_def split: if_splits)
  have item: "item (w_info w1) ?n = it" using it(2) i by (simp add: put_item_def)
  have find: "findInlineHookItem t (w_info w1) = Some ?n" using reg by blast
  have p: "proto_addr it = cell" "trampoline_instructions it = ?page" using reg item by blast+
  have st': "st' = ELE7EN_OK" by (rule inlineHook_status [OF h find]) (simp add: item it(5))
  have arm: "\<not> TEST_BIT0 t" "CLEAR_BIT0 t = t" using aligned_bits(1) [OF assms(4)] CLEAR_BIT0_arm [OF assms(4)] by (simp_all add: TEST_BIT0_def)
  have patch: "hook_patch it = concat (map (le_bytes 4) [0xe51ff004, new])" using it(3,4) arm(1) by (simp add: hook_patch_def)
  obtain M where M: "w_mem w2 = write_bytes t (hook_patch it) M"
      "M = w_mem w1 \<and> cell = 0 \<or> M = write_bytes cell (le_bytes 4 ?page) (w_mem w1)"
      "w_info w2 = put_item ?n (it\<lparr>status := HOOKED\<rparr>) (w_info w1)"
    using inlineHook_effect [OF h [unfolded st'] find] item arm p by auto
  show "code32_at (memory s') t [0xe51ff004, new]" using code32_written [of "[0xe51ff004, new]" t M] M(1) patch s' by simp
  let ?ws = "words (read_bytes (w_mem w) t 8)"
  let ?code = "arm_code (load32 (w_mem (mmap_page ?page w))) (t + 8) ?ws @ [0xe51ff004, t + 8]"
  have m1: "w_mem w1 = write_bytes ?page (concat (map (le_bytes 4) ?code)) (w_mem (mmap_page ?page w))" "length ?ws = 2" using reg by blast+
  obtain a b where ab: "?ws = [a, b]" using length_2 [OF m1(2)] by blast
  have len: "length (concat (map (le_bytes 4) ?code)) \<le> 0x1000"
    using length_arm [of "load32 (w_mem (mmap_page ?page w))" "t + 8" a] length_arm [of "load32 (w_mem (mmap_page ?page w))" "t + 8 + 4" b] unfolding ab by auto
  have l: "length (hook_patch it) = 8" "length (le_bytes 4 v) = 4" for v :: u32 using patch by simp_all
  show "memory s' x = memory s x" if "\<forall>k < 0x1000. x \<noteq> ?page + of_nat k" "\<forall>k < 4. x \<noteq> cell + of_nat k" "\<forall>k < 8. x \<noteq> t + of_nat k" for x
  proof -
    have "w_mem w2 x = M x" unfolding M(1) by (rule write_bytes_other) (use that(3) l in simp)
    also have "\<dots> = w_mem w1 x" using M(2) write_bytes_other [of "le_bytes 4 ?page" x cell "w_mem w1"] that(2) by auto
    also have "\<dots> = w_mem (mmap_page ?page w) x" by (rule write_bytes_frame [OF m1(1) len that(1)])
    also have "\<dots> = w_mem w x" using not_in_page [OF that(1)] by (simp add: mmap_page_def)
    finally show ?thesis by (simp add: s' w_def)
  qed
  show "mem_word (memory s') cell = ?page" if "cell \<noteq> 0" "apart cell 4 t 8"
  proof -
    have c: "M = write_bytes cell (le_bytes 4 ?page) (w_mem w1)" using M(2) that(1) by blast
    have "memory s' (cell + of_nat i) = le_bytes 4 ?page ! i" if i: "i < 4" for i
    proof -
      have "\<forall>k < 8. cell + of_nat i \<noteq> t + of_nat k" using \<open>apart cell 4 t 8\<close> i by (simp add: apart_def)
      then have "memory s' (cell + of_nat i) = M (cell + of_nat i)" using l by (simp add: s' M(1) write_bytes_other)
      then show ?thesis using i write_bytes_nth [of "le_bytes 4 ?page" i cell "w_mem w1"] by (simp add: c)
    qed
    then show ?thesis unfolding mem_word_load32 by (rule load32_le_bytes)
  qed
  show "\<exists>it. target_addr it = t \<and> w_info (process s') = put_item ?n it ((w_info w)\<lparr>size_info := Suc ?n\<rparr>)"
    using it i M(3) by (intro exI [of _ "it\<lparr>status := HOOKED\<rparr>"]) (simp add: s' put_item_def)
  show "s' = s\<lparr>process := process s', engine_calls := engine_calls s + 2\<rparr>" by (simp add: s')
qed

section \<open>The handlers are in place\<close>

text \<open>Slots of the table that were never used, from a number on.\<close>

definition fresh_from :: "nat \<Rightarrow> inlineHookInfo \<Rightarrow> bool" where
  "fresh_from n info \<longleftrightarrow> (\<forall>i \<ge> n. let bd = bounds (item info i)
     in boundaries.count bd = 0 \<and> length (orig_boundaries bd) = 4 \<and> length (trampoline_boundaries bd) = 20)"

lemma jump_taken:
  assumes "code32_at (mem c) (PC c) [0xe51ff004, new]" "\<not> Thumb c" "PC c AND 3 = 0"
  shows "cpu_step c = bx_write_pc new c"
  using step_ldr_pc [of c] assms by simp

lemma find_other:
  assumes "findInlineHookItem t info = None" "target_addr it \<noteq> t" "n = size_info info"
  shows "findInlineHookItem t (put_item n it (info\<lparr>size_info := Suc n\<rparr>)) = None"
proof -
  have "\<forall>i < Suc n. target_addr (if i = n then it else item info i) \<noteq> t"
    using assms by (auto simp: findInlineHookItem_def find_upt_None less_Suc_eq)
  then show ?thesis unfolding findInlineHookItem_def find_upt_None by (simp add: put_item_def)
qed

lemma code32_kept:
  assumes "code32_at m t ws" "\<forall>j < 4 * length ws. m' (t + of_nat j) = m (t + of_nat j)"
  shows "code32_at m' t ws"
  using assms(1) code32_at_cong [of ws m' t m] assms(2) by simp

lemma mem_word_kept: "\<forall>j < 4. m' (a + of_nat j) = m (a + of_nat j) \<Longrightarrow> mem_word m' a = mem_word m a"
  unfolding mem_word_def mem_bytes_def by (intro arg_cong [of _ _ le_word] map_cong) auto

text \<open>
  (C8) \<^verbatim>\<open>hook_get_set\<close> for two ARM functions (both at word-aligned addresses, not Thumb) in a library at a base that is not zero, neither of
  them registered before, and table slots that no removed item has used: when it returns, and the functions and handlers are executable, a processor in ARM state that
  enters either function goes to its handler in one step with registers and memory unchanged, and the variable that the
  handler calls the original function through holds the address of the trampoline.  The pages that the engine is
  given, the code that is overwritten and the two variables must not overlap.
\<close>

theorem inline_handlers_in_place:
  fixes s s' :: inline_inject and env :: inline_env and c :: arm_state
  defines "g \<equiv> libil2cpp_base s + address_get s" and "t \<equiv> libil2cpp_base s + address_set s"
    and "w \<equiv> process s" and "os1 \<equiv> i_os env (engine_calls s)" and "os2 \<equiv> i_os env (engine_calls s + 2)"
    and "vg \<equiv> i_old_get env" and "vt \<equiv> i_old_set env"
  assumes "hook_get_set env s = Inr s'" "libil2cpp_base s \<noteq> 0" "address_get s \<noteq> 0" "address_set s \<noteq> 0"
    and "g AND 3 = 0" "t AND 3 = 0" "fresh_from (size_info (w_info w)) (w_info w)"
    and "findInlineHookItem g (w_info w) = None" "findInlineHookItem t (w_info w) = None"
    and "isExecutableAddr os1 g" "isExecutableAddr os1 (i_new_get env)" "isExecutableAddr os2 t" "isExecutableAddr os2 (i_new_set env)"
    and "apart g 8 t 8" "apart g 8 (os_mmap os2) 0x1000" "apart g 8 vt 4" "vg \<noteq> 0" "vt \<noteq> 0"
    and "apart vg 4 g 8" "apart vg 4 t 8" "apart vg 4 (os_mmap os2) 0x1000" "apart vg 4 vt 4" "apart vt 4 t 8"
    and "mem c = memory s'" "\<not> Thumb c"
  shows "(PC c = g \<longrightarrow> cpu_step c = bx_write_pc (i_new_get env) c) \<and> (PC c = t \<longrightarrow> cpu_step c = bx_write_pc (i_new_set env) c)
    \<and> mem_word (mem c) vg = os_mmap os1 \<and> mem_word (mem c) vt = os_mmap os2"
proof -
  let ?s = "s\<lparr>func_get := g\<rparr>"
  obtain s1 where h1: "hook_function env g (i_new_get env) vg ?s = Inr s1"
      and h2: "hook_function env (libil2cpp_base s1 + address_set s1) (i_new_set env) vt
        (s1\<lparr>func_set := libil2cpp_base s1 + address_set s1\<rparr>) = Inr s' \<or> address_set s1 = 0"
    using assms(8-10) by (auto simp: hook_get_set_def res_bind_Inr_iff Let_def g_def vg_def vt_def split: if_splits)
  have f1: "fresh_slot (process ?s)" using assms(14) by (simp add: fresh_slot_def fresh_from_def w_def)
  have "isExecutableAddr (i_os env (engine_calls ?s)) g" "isExecutableAddr (i_os env (engine_calls ?s)) (i_new_get env)"
      "findInlineHookItem g (w_info (process ?s)) = None" using assms(15,17,18) by (simp_all add: w_def os1_def)
  note e1 = hook_function_arm [OF h1 assms(12) f1 this]
  obtain it where it: "target_addr it = g" "w_info (process s1) = put_item (size_info (w_info w)) it ((w_info w)\<lparr>size_info := Suc (size_info (w_info w))\<rparr>)"
    using e1(4) by (auto simp: w_def)
  have same: "libil2cpp_base s1 = libil2cpp_base s" "address_set s1 = address_set s" "engine_calls s1 = engine_calls s + 2"
    by (subst e1(5); simp)+
  let ?s1 = "s1\<lparr>func_set := t\<rparr>"
  have h2: "hook_function env t (i_new_set env) vt ?s1 = Inr s'" using h2 assms(11) by (simp add: same t_def)
  have f2: "fresh_slot (process ?s1)" using assms(14) by (simp add: it(2) fresh_slot_def fresh_from_def put_item_def)
  have "g \<noteq> t" using assms(21) by (auto simp: apart_def dest!: spec [of _ 0])
  then have "findInlineHookItem t (w_info (process ?s1)) = None"
    using find_other [OF assms(16), of it "size_info (w_info w)"] it by simp
  moreover have "isExecutableAddr (i_os env (engine_calls ?s1)) t" "isExecutableAddr (i_os env (engine_calls ?s1)) (i_new_set env)"
    using assms(19,20) by (simp_all add: same(3) os2_def)
  ultimately have e2: "code32_at (memory s') t [0xe51ff004, i_new_set env]"
    "\<And>x. \<forall>k < 0x1000. x \<noteq> os_mmap os2 + of_nat k \<Longrightarrow> \<forall>k < 4. x \<noteq> vt + of_nat k \<Longrightarrow> \<forall>k < 8. x \<noteq> t + of_nat k \<Longrightarrow> memory s' x = memory s1 x"
    "mem_word (memory s') vt = os_mmap os2"
    using hook_function_arm [OF h2 assms(13) f2] assms(25,30) by (simp_all add: same(3) os2_def)
  have "code32_at (memory s') g [0xe51ff004, i_new_get env]"
    by (rule code32_kept [OF e1(1)]) (use assms(21-23) in \<open>auto simp: apart_def intro!: e2(2)\<close>)
  moreover have "mem_word (memory s') vg = mem_word (memory s1) vg"
    by (rule mem_word_kept) (use assms(27-29) in \<open>auto simp: apart_def intro!: e2(2)\<close>)
  moreover have "mem_word (memory s1) vg = os_mmap os1" using e1(3) [OF assms(24,26)] by (simp add: os1_def)
  ultimately show ?thesis using e2 assms(12,13,31,32) by (auto intro: jump_taken)
qed

section \<open>A process with two functions and one string\<close>

lemma apart_of_nat:
  assumes "a + n \<le> b \<or> b + m \<le> a" "a + n \<le> 2 ^ 32" "b + m \<le> 2 ^ 32"
  shows "apart (of_nat a) n (of_nat b) m"
  unfolding apart_def
proof (intro allI impI)
  fix j k assume jk: "j < n" "k < m"
  then have "unat (of_nat (a + j) :: u32) = a + j" "unat (of_nat (b + k) :: u32) = b + k" 
    using assms by (intro unat32_small; linarith)+
  then have "(of_nat (a + j) :: u32) \<noteq> of_nat (b + k)" using assms(1) jk by (metis add_less_cancel_left leD le_less_trans less_le_trans not_le trans_le_add1)
  then show "(of_nat a + of_nat j :: u32) \<noteq> of_nat b + of_nat k" by simp
qed

text \<open>
  Two functions at \<open>0x8100\<close> and \<open>0x8200\<close> of a library at \<open>0x8000\<close>, handlers at \<open>0x8300\<close> and \<open>0x8400\<close>, the variables for the original
  functions at \<open>0x30000\<close> and \<open>0x30004\<close>.
\<close>

definition pair_env :: inline_env where
  "pair_env = \<lparr>i_call = (\<lambda>f args m. (args ! 1, m)), i_end = 0x7F40, i_calloc = (\<lambda>n. 0x9000 + of_nat n * 0x200), i_free = (\<lambda>p n m. m),
     i_os = (\<lambda>n. demo_os\<lparr>os_mmap := 0x20000000 + of_nat n * 0x1000\<rparr>), i_dlsym = (\<lambda>h. 0), i_dlopen = 0, i_new_dlopen = 0, i_new_get = 0x8300, i_new_set = 0x8400,
     i_new_methods = 0, i_old_dlopen = 0, i_old_get = 0x30000, i_old_set = 0x30004, i_old_methods = 0\<rparr>"

definition pair_world :: world where
  "pair_world = demo_world\<lparr>w_mem := \<lambda>_. 0, w_prot := (w_prot demo_world)(0x30000 := PROT_RWX)\<rparr>"

definition pair_game :: inline_inject where
  "pair_game = \<lparr>process = pair_world, buffer = hi_dictionary, address_get = 0x100, address_set = 0x200, func_dlopen = 0, func_get = 0, func_set = 0,
     libil2cpp_base = 0x8000, libil2cpp_handle = 0, is_got_get_and_set = False, current_set_index = 0, current_get_index = 0,
     header_get = replicate HeaderSize 0, middle_get = replicate MiddleSize 0, header_set = replicate HeaderSize 0, middle_set = replicate MiddleSize 0,
     strings_made = 0, leaked = 0, engine_calls = 0\<rparr>"

definition pair_hooked :: inline_inject where
  "pair_hooked = (case hook_get_set pair_env pair_game of Inr s \<Rightarrow> s | Inl _ \<Rightarrow> pair_game)"

lemma pair_hooks: "hook_get_set pair_env pair_game = Inr pair_hooked"
proof -
  have "(case hook_get_set pair_env pair_game of Inr s \<Rightarrow> True | _ \<Rightarrow> False)" by code_simp
  then show ?thesis by (auto simp: pair_hooked_def split: sum.splits)
qed

theorem inline_handlers_in_place_witness:
  "cpu_step ((demo_state (memory pair_hooked) False)\<lparr>PC := 0x8100\<rparr>) = Some ((demo_state (memory pair_hooked) False)\<lparr>PC := 0x8300\<rparr>)
     \<and> mem_word (memory pair_hooked) 0x30004 = 0x20002000"
proof -
  have f: "libil2cpp_base pair_game = 0x8000" "address_get pair_game = 0x100" "address_set pair_game = 0x200" "engine_calls pair_game = 0"
      "i_old_get pair_env = 0x30000" "i_old_set pair_env = 0x30004" "i_new_get pair_env = 0x8300" "i_new_set pair_env = 0x8400"
      "i_os pair_env = (\<lambda>n. demo_os\<lparr>os_mmap := 0x20000000 + of_nat n * 0x1000\<rparr>)" "w_info (process pair_game) = info0"
    by (simp_all add: pair_game_def pair_env_def pair_world_def demo_world_def)
  have x: "isExecutableAddr (demo_os\<lparr>os_mmap := p\<rparr>) a = isExecutableAddr demo_os a" for p a by (simp add: isExecutableAddr_def)
  have e: "isExecutableAddr demo_os 0x8100" "isExecutableAddr demo_os 0x8200" "isExecutableAddr demo_os 0x8300" "isExecutableAddr demo_os 0x8400" by code_simp+
  have fr: "fresh_from 0 info0" "findInlineHookItem a info0 = None" "size_info info0 = 0" for a
    by (simp_all add: fresh_from_def info0_def zero_item_def findInlineHookItem_def)
  have ap: "apart 0x8100 8 0x8200 8" "apart 0x8100 8 0x20002000 0x1000" "apart 0x8100 8 0x30004 4" "apart 0x30000 4 0x8100 8" "apart 0x30000 4 0x8200 8"
      "apart 0x30000 4 0x20002000 0x1000" "apart 0x30000 4 0x30004 4" "apart 0x30004 4 0x8200 8"
    using apart_of_nat [of "0x8100" 8 "0x8200" 8] apart_of_nat [of "0x8100" 8 "0x20002000" "0x1000"] apart_of_nat [of "0x8100" 8 "0x30004" 4]
      apart_of_nat [of "0x30000" 4 "0x8100" 8] apart_of_nat [of "0x30000" 4 "0x8200" 8] apart_of_nat [of "0x30000" 4 "0x20002000" "0x1000"]
      apart_of_nat [of "0x30000" 4 "0x30004" 4] apart_of_nat [of "0x30004" 4 "0x8200" 8] by simp_all
  show ?thesis
    using inline_handlers_in_place [OF pair_hooks, of "(demo_state (memory pair_hooked) False)\<lparr>PC := 0x8100\<rparr>"]
    by (simp add: f x e fr ap demo_state_def bx_write_pc_def)
qed










end
