(* ===== verification/Asm_Arm32.thy ===== *)
theory Asm_Arm32
  imports Assembler_Base
begin

text \<open>
  Dobby's ARM assembler: \<^verbatim>\<open>core/arch/arm/registers-arm.h\<close> and \<^verbatim>\<open>constants-arm.h\<close>, \<^verbatim>\<open>CodeBufferKit/code-buffer-arm.cc\<close>,
  \<^verbatim>\<open>core/modules/assembler/assembler-arm.h\<close> and \<^verbatim>\<open>.cc\<close>, \<^verbatim>\<open>core/modules/codegen/codegen-arm.cc\<close>.  A register is its code.
  A field that a constructor leaves uninitialised is \<open>None\<close>.  Addresses are 32 bits wide; the address of an
  assembler is kept in the 64 bits of \<open>AssemblerBase\<close>.  \<^verbatim>\<open>ASSERT\<close> is empty, \<^verbatim>\<open>CHECK\<close> is not.  Names end in \<open>_a32\<close>.
\<close>

unbundle bit_operations_syntax

section \<open>Constants\<close>

datatype AddrMode_a32 = Offset_a32 | PreIndex_a32 | PostIndex_a32 | NegOffset_a32 | NegPreIndex_a32 | NegPostIndex_a32

primrec AddrMode_a32_code :: "AddrMode_a32 \<Rightarrow> u32" where
  "AddrMode_a32_code Offset_a32 = push_bit 21 (8 OR 4 OR 0)"
| "AddrMode_a32_code PreIndex_a32 = push_bit 21 (8 OR 4 OR 1)"
| "AddrMode_a32_code PostIndex_a32 = push_bit 21 (0 OR 4 OR 0)"
| "AddrMode_a32_code NegOffset_a32 = push_bit 21 (8 OR 0 OR 0)"
| "AddrMode_a32_code NegPreIndex_a32 = push_bit 21 (8 OR 0 OR 1)"
| "AddrMode_a32_code NegPostIndex_a32 = push_bit 21 (0 OR 0 OR 0)"

datatype Condition_a32 = EQ | NE | CS | CC | MI | PL | VS | VC | HI | LS | GE | LT | GT | LE | AL

primrec Condition_a32_code :: "Condition_a32 \<Rightarrow> u32" where
  "Condition_a32_code EQ = 0"
| "Condition_a32_code NE = 1"
| "Condition_a32_code CS = 2"
| "Condition_a32_code CC = 3"
| "Condition_a32_code MI = 4"
| "Condition_a32_code PL = 5"
| "Condition_a32_code VS = 6"
| "Condition_a32_code VC = 7"
| "Condition_a32_code HI = 8"
| "Condition_a32_code LS = 9"
| "Condition_a32_code GE = 10"
| "Condition_a32_code LT = 11"
| "Condition_a32_code GT = 12"
| "Condition_a32_code LE = 13"
| "Condition_a32_code AL = 14"

datatype Shift_a32 = LSL_a32 | LSR_a32 | ASR_a32 | ROR_a32

primrec Shift_a32_code :: "Shift_a32 \<Rightarrow> u32" where
  "Shift_a32_code LSL_a32 = 0"
| "Shift_a32_code LSR_a32 = 1"
| "Shift_a32_code ASR_a32 = 2"
| "Shift_a32_code ROR_a32 = 3"

definition kConditionShift :: nat where "kConditionShift = 28"

section \<open>Registers and operands\<close>

type_synonym Register_a32 = nat

definition r12_a32 :: Register_a32 where "r12_a32 = 12"
definition sp_a32 :: Register_a32 where "sp_a32 = 13"
definition lr_a32 :: Register_a32 where "lr_a32 = 14"
definition pc_a32 :: Register_a32 where "pc_a32 = 15"
definition no_reg :: Register_a32 where "no_reg = 0"
definition VOLATILE_REGISTER :: Register_a32 where "VOLATILE_REGISTER = r12_a32"

definition IsValid_a32 :: "Register_a32 \<Rightarrow> bool" where
  "IsValid_a32 r \<longleftrightarrow> r \<noteq> 0"

record Operand_a32 =
  op_rm :: Register_a32
  op_rs :: Register_a32
  op_shift :: "Shift_a32 option"
  op_shift_imm :: "u32 option"
  op_imm :: u32

definition Operand_imm_a32 :: "u32 \<Rightarrow> Operand_a32" where
  "Operand_imm_a32 immediate = \<lparr>op_rm = no_reg, op_rs = no_reg, op_shift = None, op_shift_imm = None, op_imm = immediate\<rparr>"

definition Operand_reg_a32 :: "Register_a32 \<Rightarrow> Operand_a32" where
  "Operand_reg_a32 rm = \<lparr>op_rm = rm, op_rs = no_reg, op_shift = None, op_shift_imm = None, op_imm = -1\<rparr>"

text \<open>The initialiser of \<^verbatim>\<open>shift_imm_\<close> is \<^verbatim>\<open>shift & 31\<close>, the code of the shift and not its amount.\<close>

definition Operand_shift_a32 :: "Register_a32 \<Rightarrow> Shift_a32 \<Rightarrow> u32 \<Rightarrow> Operand_a32" where
  "Operand_shift_a32 rm shift shift_imm =
     \<lparr>op_rm = rm, op_rs = no_reg, op_shift = Some shift, op_shift_imm = Some (Shift_a32_code shift AND 31), op_imm = -1\<rparr>"

definition Operand_shift_reg_a32 :: "Register_a32 \<Rightarrow> Shift_a32 \<Rightarrow> Register_a32 \<Rightarrow> Operand_a32" where
  "Operand_shift_reg_a32 rm shift rs = \<lparr>op_rm = rm, op_rs = rs, op_shift = Some shift, op_shift_imm = None, op_imm = -1\<rparr>"

definition GetImmediate_a32 :: "Operand_a32 \<Rightarrow> u32" where
  "GetImmediate_a32 operand = op_imm operand"

record MemOperand_a32 =
  mo_rn :: Register_a32
  mo_rm :: Register_a32
  mo_offset :: u32
  mo_shift :: "Shift_a32 option"
  mo_shift_imm :: "u32 option"
  mo_am :: AddrMode_a32

definition MemOperand_imm_a32 :: "Register_a32 \<Rightarrow> u32 \<Rightarrow> AddrMode_a32 \<Rightarrow> MemOperand_a32" where
  "MemOperand_imm_a32 rn offset am =
     \<lparr>mo_rn = rn, mo_rm = no_reg, mo_offset = offset, mo_shift = None, mo_shift_imm = None, mo_am = am\<rparr>"

text \<open>The two other constructors stop.\<close>

definition MemOperand_reg_a32 :: "Register_a32 \<Rightarrow> Register_a32 \<Rightarrow> AddrMode_a32 \<Rightarrow> MemOperand_a32 res" where
  "MemOperand_reg_a32 rn rm am = Inl Unreachable"

definition MemOperand_shift_a32 :: "Register_a32 \<Rightarrow> Register_a32 \<Rightarrow> Shift_a32 \<Rightarrow> u32 \<Rightarrow> AddrMode_a32 \<Rightarrow> MemOperand_a32 res" where
  "MemOperand_shift_a32 rn rm shift shift_imm am = Inl Unreachable"

definition IsImmediateOffset_a32 :: "MemOperand_a32 \<Rightarrow> bool" where
  "IsImmediateOffset_a32 x \<longleftrightarrow> mo_am x = Offset_a32"

definition IsRegisterOffset_a32 :: "MemOperand_a32 \<Rightarrow> bool" where
  "IsRegisterOffset_a32 x \<longleftrightarrow> mo_am x = Offset_a32"

definition IsPreIndex_a32 :: "MemOperand_a32 \<Rightarrow> bool" where
  "IsPreIndex_a32 x \<longleftrightarrow> mo_am x = PreIndex_a32"

definition IsPostIndex_a32 :: "MemOperand_a32 \<Rightarrow> bool" where
  "IsPostIndex_a32 x \<longleftrightarrow> mo_am x = PostIndex_a32"

section \<open>EncodeUtility\<close>

definition Rd_a32 :: "Register_a32 \<Rightarrow> u32" where
  "Rd_a32 rd = push_bit 12 (of_nat rd)"

definition Rt_a32 :: "Register_a32 \<Rightarrow> u32" where
  "Rt_a32 rt = push_bit 12 (of_nat rt)"

definition Rm_a32 :: "Register_a32 \<Rightarrow> u32" where
  "Rm_a32 rm = push_bit 0 (of_nat rm)"

definition Rn_a32 :: "Register_a32 \<Rightarrow> u32" where
  "Rn_a32 rn = push_bit 16 (of_nat rn)"

definition EncodeMemOperand :: "MemOperand_a32 \<Rightarrow> u32 res" where
  "EncodeMemOperand operand =
     (if \<not> IsValid_a32 (mo_rm operand) then
        Inr ((if sint (mo_offset operand) < 0
              then (AddrMode_a32_code (mo_am operand) XOR push_bit 23 1) OR (- mo_offset operand)
              else AddrMode_a32_code (mo_am operand) OR mo_offset operand) OR Rn_a32 (mo_rn operand))
      else Inl Unreachable)"

definition EncodeOperand :: "Operand_a32 \<Rightarrow> u32" where
  "EncodeOperand operand = (if IsValid_a32 (op_rm operand) then GetImmediate_a32 operand else of_nat (op_rm operand))"

section \<open>Assembler\<close>

text \<open>\<^verbatim>\<open>CodeBuffer::EmitARMInst\<close>, \<^verbatim>\<open>LoadARMInst\<close>, \<^verbatim>\<open>RewriteARMInst\<close> and \<^verbatim>\<open>RewriteAddr\<close>.\<close>

definition LoadARMInst :: "nat \<Rightarrow> LiteMutableBuffer \<Rightarrow> u32 res" where
  "LoadARMInst offset b = map_sum id le_word (load_bytes 4 offset b)"

definition RewriteARMInst :: "nat \<Rightarrow> u32 \<Rightarrow> LiteMutableBuffer \<Rightarrow> LiteMutableBuffer res" where
  "RewriteARMInst offset instr b = patch_bytes offset (le_bytes 4 instr) b"

definition RewriteAddr :: "nat \<Rightarrow> u32 \<Rightarrow> LiteMutableBuffer \<Rightarrow> LiteMutableBuffer res" where
  "RewriteAddr offset addr b = patch_bytes offset (le_bytes 4 addr) b"

definition EmitARMInst :: "u32 \<Rightarrow> 'a AssemblerBase_scheme \<Rightarrow> 'a AssemblerBase_scheme" where
  "EmitARMInst instr a = a\<lparr>code_buffer := Emit32 instr (code_buffer a)\<rparr>"

definition EmitAddress :: "u32 \<Rightarrow> 'a AssemblerBase_scheme \<Rightarrow> 'a AssemblerBase_scheme" where
  "EmitAddress v a = a\<lparr>code_buffer := Emit32 v (code_buffer a)\<rparr>"

definition CommitRealizeAddress_a32 :: "u32 \<Rightarrow> 'a AssemblerBase_scheme \<Rightarrow> 'a AssemblerBase_scheme res" where
  "CommitRealizeAddress_a32 address a =
     (if address mod 4 = 0 then Inr (CommitRealizeAddress (ucast address) a) else Inl CheckFailed)"

definition cond_field :: "Condition_a32 \<Rightarrow> u32" where
  "cond_field cond = push_bit kConditionShift (Condition_a32_code cond)"

definition sub_cond_a32 :: "Condition_a32 \<Rightarrow> Register_a32 \<Rightarrow> Register_a32 \<Rightarrow> Operand_a32
    \<Rightarrow> 'a AssemblerBase_scheme \<Rightarrow> 'a AssemblerBase_scheme res" where
  "sub_cond_a32 cond rd rn operand a =
     (if rn = pc_a32 then Inl Unimplemented
      else Inr (EmitARMInst (0x024d0000 OR cond_field cond OR push_bit 12 (of_nat rd) OR push_bit 16 (of_nat rn)
        OR GetImmediate_a32 operand) a))"

definition sub_a32 :: "Register_a32 \<Rightarrow> Register_a32 \<Rightarrow> Operand_a32 \<Rightarrow> 'a AssemblerBase_scheme \<Rightarrow> 'a AssemblerBase_scheme res" where
  "sub_a32 = sub_cond_a32 AL"

definition add_a32 :: "Register_a32 \<Rightarrow> Register_a32 \<Rightarrow> Operand_a32 \<Rightarrow> 'a AssemblerBase_scheme \<Rightarrow> 'a AssemblerBase_scheme res" where
  "add_a32 = sub_cond_a32 AL"

definition add_cond_a32 :: "Condition_a32 \<Rightarrow> Register_a32 \<Rightarrow> Register_a32 \<Rightarrow> Operand_a32
    \<Rightarrow> 'a AssemblerBase_scheme \<Rightarrow> 'a AssemblerBase_scheme res" where
  "add_cond_a32 cond rd rn operand a =
     (if rn = pc_a32 then Inl Unimplemented
      else Inr (EmitARMInst (0x02900000 OR cond_field cond OR push_bit 12 (of_nat rd) OR push_bit 16 (of_nat rn)
        OR GetImmediate_a32 operand) a))"

definition ldr_cond_a32 :: "Condition_a32 \<Rightarrow> Register_a32 \<Rightarrow> MemOperand_a32 \<Rightarrow> 'a AssemblerBase_scheme \<Rightarrow> 'a AssemblerBase_scheme res" where
  "ldr_cond_a32 cond rt operand a =
     res_bind (EncodeMemOperand operand) (\<lambda>e. Inr (EmitARMInst (0x05100000 OR cond_field cond OR (Rt_a32 rt OR e)) a))"

definition ldr_a32 :: "Register_a32 \<Rightarrow> MemOperand_a32 \<Rightarrow> 'a AssemblerBase_scheme \<Rightarrow> 'a AssemblerBase_scheme res" where
  "ldr_a32 = ldr_cond_a32 AL"

definition str_a32 :: "Register_a32 \<Rightarrow> MemOperand_a32 \<Rightarrow> 'a AssemblerBase_scheme \<Rightarrow> 'a AssemblerBase_scheme res" where
  "str_a32 = ldr_cond_a32 AL"

definition str_cond_a32 :: "Condition_a32 \<Rightarrow> Register_a32 \<Rightarrow> MemOperand_a32 \<Rightarrow> 'a AssemblerBase_scheme \<Rightarrow> 'a AssemblerBase_scheme res" where
  "str_cond_a32 cond rt operand a =
     res_bind (EncodeMemOperand operand) (\<lambda>e. Inr (EmitARMInst (0x05000000 OR cond_field cond OR (Rt_a32 rt OR e)) a))"

definition mov_cond_a32 :: "Condition_a32 \<Rightarrow> Register_a32 \<Rightarrow> Operand_a32 \<Rightarrow> 'a AssemblerBase_scheme \<Rightarrow> 'a AssemblerBase_scheme" where
  "mov_cond_a32 cond rd operand = EmitARMInst (0x01a00000 OR cond_field cond OR (Rd_a32 rd OR EncodeOperand operand))"

definition mov_a32 :: "Register_a32 \<Rightarrow> Operand_a32 \<Rightarrow> 'a AssemblerBase_scheme \<Rightarrow> 'a AssemblerBase_scheme" where
  "mov_a32 = mov_cond_a32 AL"

definition b_cond_a32 :: "Condition_a32 \<Rightarrow> u32 \<Rightarrow> 'a AssemblerBase_scheme \<Rightarrow> 'a AssemblerBase_scheme" where
  "b_cond_a32 cond branch_offset = EmitARMInst (0xb000000 OR cond_field cond OR bits (signed_drop_bit 2 branch_offset) 0 23)"

definition b_a32 :: "u32 \<Rightarrow> 'a AssemblerBase_scheme \<Rightarrow> 'a AssemblerBase_scheme" where
  "b_a32 = b_cond_a32 AL"

definition bl_cond_a32 :: "Condition_a32 \<Rightarrow> u32 \<Rightarrow> 'a AssemblerBase_scheme \<Rightarrow> 'a AssemblerBase_scheme" where
  "bl_cond_a32 cond branch_offset = EmitARMInst (0xa000000 OR cond_field cond OR bits (signed_drop_bit 2 branch_offset) 0 23)"

definition bl_a32 :: "u32 \<Rightarrow> 'a AssemblerBase_scheme \<Rightarrow> 'a AssemblerBase_scheme" where
  "bl_a32 = bl_cond_a32 AL"

definition blx_imm_a32 :: "u32 \<Rightarrow> 'a AssemblerBase_scheme \<Rightarrow> 'a AssemblerBase_scheme res" where
  "blx_imm_a32 branch_offset a = Inl Unimplemented"

definition blx_a32 :: "Register_a32 \<Rightarrow> Condition_a32 \<Rightarrow> 'a AssemblerBase_scheme \<Rightarrow> 'a AssemblerBase_scheme res" where
  "blx_a32 target cond a = Inl Unimplemented"

definition bx_a32 :: "Register_a32 \<Rightarrow> Condition_a32 \<Rightarrow> 'a AssemblerBase_scheme \<Rightarrow> 'a AssemblerBase_scheme res" where
  "bx_a32 target cond a = Inl Unimplemented"

section \<open>PseudoLabel\<close>

text \<open>\<open>pli_type\<close> is 0 for \<^verbatim>\<open>PseudoLabel::kLdrLiteral\<close> and for \<^verbatim>\<open>kThumb1Ldr\<close>, 1 for \<^verbatim>\<open>kThumb2LiteralLdr\<close>.\<close>

definition kLdrLiteral_a32 :: nat where "kLdrLiteral_a32 = 0"

record PseudoLabelInstruction_a32 =
  pli_position :: nat
  pli_type :: nat

record PseudoLabel_a32 = Label +
  pl_instructions :: "PseudoLabelInstruction_a32 LiteMutableArray"

record RelocLabelEntry_a32 = PseudoLabel_a32 +
  rle_data :: u32
  rle_data_size :: int

definition new_PseudoLabel_a32 :: PseudoLabel_a32 where
  "new_PseudoLabel_a32 = \<lparr>label_pos = 0, near_link_pos = 0, pl_instructions = arr_initWithCapacity 8\<rparr>"

definition new_RelocLabelEntry_a32 :: "u32 \<Rightarrow> RelocLabelEntry_a32" where
  "new_RelocLabelEntry_a32 d =
     \<lparr>label_pos = 0, near_link_pos = 0, pl_instructions = arr_initWithCapacity 8, rle_data = d, rle_data_size = 0\<rparr>"

definition fixup_data_a32 :: "u32 \<Rightarrow> RelocLabelEntry_a32 \<Rightarrow> RelocLabelEntry_a32" where
  "fixup_data_a32 d l = l\<lparr>rle_data := d\<rparr>"

definition has_confused_instructions_a32 :: "'b PseudoLabel_a32_scheme \<Rightarrow> bool" where
  "has_confused_instructions_a32 l \<longleftrightarrow> 0 < getCount (pl_instructions l)"

definition fix_ldr_a32 :: "u32 \<Rightarrow> int \<Rightarrow> u32" where
  "fix_ldr_a32 inst32 offset = (inst32 AND 0xfffff000) OR (of_int offset - 8)"

fun link_loop_a32 :: "nat list \<Rightarrow> 'b PseudoLabel_a32_scheme \<Rightarrow> LiteMutableBuffer \<Rightarrow> LiteMutableBuffer res" where
  "link_loop_a32 [] l b = Inr b"
| "link_loop_a32 (i # is) l b =
     res_bind (getObject i (pl_instructions l)) (\<lambda>ins.
     res_bind (LoadARMInst (pli_position ins) b) (\<lambda>inst32.
     res_bind (if pli_type ins = kLdrLiteral_a32
               then RewriteARMInst (pli_position ins) (fix_ldr_a32 inst32 (pos l - int (pli_position ins))) b
               else Inl Unreachable)
       (link_loop_a32 is l)))"

definition link_confused_instructions_a32 :: "'b PseudoLabel_a32_scheme \<Rightarrow> LiteMutableBuffer \<Rightarrow> LiteMutableBuffer res" where
  "link_confused_instructions_a32 l b = link_loop_a32 [0..<getCount (pl_instructions l)] l b"

definition pl_link_to_a32 :: "nat \<Rightarrow> nat \<Rightarrow> 'b PseudoLabel_a32_scheme \<Rightarrow> 'b PseudoLabel_a32_scheme" where
  "pl_link_to_a32 p t l = l\<lparr>pl_instructions := snd (pushObject \<lparr>pli_position = p, pli_type = t\<rparr> (pl_instructions l))\<rparr>"

section \<open>TurboAssembler\<close>

datatype ExecuteState = ARMExecuteState | ThumbExecuteState

text \<open>The entries of \<^verbatim>\<open>data_labels_\<close> live in \<open>labels_heap\<close>; the class of the Thumb assembler has the same fields.\<close>

record TurboAssembler_a32 = AssemblerBase +
  execute_state :: ExecuteState
  label_list :: "nat LiteMutableArray option"
  labels_heap :: "nat \<Rightarrow> RelocLabelEntry_a32"

definition new_TurboAssembler_a32 :: "LiteMutableBuffer \<Rightarrow> u32 \<Rightarrow> TurboAssembler_a32" where
  "new_TurboAssembler_a32 b address =
     \<lparr>code_buffer = b, realized_address = ucast address, execute_state = ARMExecuteState, label_list = None,
      labels_heap = (\<lambda>_. new_RelocLabelEntry_a32 0)\<rparr>"

definition new_CodeBuffer_a32 :: "(nat \<Rightarrow> u8) \<Rightarrow> LiteMutableBuffer" where
  "new_CodeBuffer_a32 junk = the (initWithCapacity junk 64)"

definition Ldr_a32 :: "Register_a32 \<Rightarrow> 'b PseudoLabel_a32_scheme \<Rightarrow> 'a AssemblerBase_scheme
    \<Rightarrow> ('b PseudoLabel_a32_scheme \<times> 'a AssemblerBase_scheme) res" where
  "Ldr_a32 rt label a =
     (if is_bound label then
        res_bind (ldr_a32 rt (MemOperand_imm_a32 pc_a32 (of_int (pos label - int (getSize (code_buffer a)))) Offset_a32) a)
          (\<lambda>a'. Inr (label, a'))
      else
        res_bind (ldr_a32 rt (MemOperand_imm_a32 pc_a32 0 Offset_a32) a)
          (\<lambda>a'. Inr (pl_link_to_a32 (getSize (code_buffer a)) kLdrLiteral_a32 label, a')))"

definition CallFunction_a32 :: "u32 \<Rightarrow> 'a AssemblerBase_scheme \<Rightarrow> 'a AssemblerBase_scheme res" where
  "CallFunction_a32 function_address a =
     res_bind (ldr_a32 pc_a32 (MemOperand_imm_a32 pc_a32 (-4) Offset_a32) (b_a32 4 (bl_a32 0 a)))
       (\<lambda>a'. Inr (EmitAddress function_address a'))"

definition Move32Immeidate :: "Register_a32 \<Rightarrow> Operand_a32 \<Rightarrow> Condition_a32 \<Rightarrow> 'a AssemblerBase_scheme \<Rightarrow> 'a AssemblerBase_scheme" where
  "Move32Immeidate rd x cond a = a"

definition PseudoBind_a32 :: "'b PseudoLabel_a32_scheme \<Rightarrow> 'a AssemblerBase_scheme
    \<Rightarrow> ('b PseudoLabel_a32_scheme \<times> 'a AssemblerBase_scheme) res" where
  "PseudoBind_a32 label a =
     (let label' = (if is_unused label then bind_to (int (getSize (code_buffer a))) label else label)
      in if has_confused_instructions_a32 label' then
           res_bind (link_confused_instructions_a32 label' (code_buffer a)) (\<lambda>b. Inr (label', a\<lparr>code_buffer := b\<rparr>))
         else Inr (label', a))"

definition RelocBindFixup_a32 :: "RelocLabelEntry_a32 \<Rightarrow> 'a AssemblerBase_scheme \<Rightarrow> 'a AssemblerBase_scheme res" where
  "RelocBindFixup_a32 label a =
     res_bind (RewriteAddr (nat (pos label)) (rle_data label) (code_buffer a)) (\<lambda>b. Inr (a\<lparr>code_buffer := b\<rparr>))"

fun RelocBind_loop_a32 :: "nat list \<Rightarrow> nat LiteMutableArray \<Rightarrow> TurboAssembler_a32 \<Rightarrow> TurboAssembler_a32 res" where
  "RelocBind_loop_a32 [] labels a = Inr a"
| "RelocBind_loop_a32 (i # is) labels a =
     res_bind (getObject i labels) (\<lambda>l.
     res_bind (PseudoBind_a32 (labels_heap a l) a) (\<lambda>(label, a').
       RelocBind_loop_a32 is labels
         (EmitAddress (rle_data label) (a'\<lparr>labels_heap := (labels_heap a')(l := label)\<rparr>))))"

definition RelocBind_a32 :: "TurboAssembler_a32 \<Rightarrow> TurboAssembler_a32 res" where
  "RelocBind_a32 a =
     (case label_list a of None \<Rightarrow> Inr a | Some labels \<Rightarrow> RelocBind_loop_a32 [0..<getCount labels] labels a)"

definition AppendRelocLabelEntry_a32 :: "nat \<Rightarrow> TurboAssembler_a32 \<Rightarrow> TurboAssembler_a32" where
  "AppendRelocLabelEntry_a32 label a =
     (let labels = (case label_list a of None \<Rightarrow> arr_initWithCapacity 8 | Some labels \<Rightarrow> labels)
      in a\<lparr>label_list := Some (snd (pushObject label labels))\<rparr>)"

section \<open>CodeGen\<close>

definition LiteralLdrBranch_a32 :: "u32 \<Rightarrow> 'a AssemblerBase_scheme \<Rightarrow> 'a AssemblerBase_scheme res" where
  "LiteralLdrBranch_a32 address a =
     res_bind (ldr_a32 pc_a32 (MemOperand_imm_a32 pc_a32 (-4) Offset_a32) a) (\<lambda>a'. Inr (EmitAddress address a'))"

end
