(* ===== verification/Asm_Thumb.thy ===== *)
theory Asm_Thumb
  imports Asm_Arm32
begin

text \<open>
  Dobby's Thumb assembler (\<^verbatim>\<open>InstructionRelocation/arm/ARMInstructionRelocation.h\<close>), on the state of the ARM assembler.
\<close>

unbundle bit_operations_syntax

section \<open>ThumbPseudoLabel\<close>

definition kThumb1Ldr :: nat where "kThumb1Ldr = 0"
definition kThumb2LiteralLdr :: nat where "kThumb2LiteralLdr = 1"

definition LoadThumb2Inst :: "nat \<Rightarrow> LiteMutableBuffer \<Rightarrow> u32 res" where
  "LoadThumb2Inst offset b = map_sum id le_word (load_bytes 4 offset b)"

definition thumb_literal_offset :: "int \<Rightarrow> nat \<Rightarrow> u32" where
  "thumb_literal_offset label_position position = of_int (label_position - int (position - position mod 4) - 4)"

fun thumb_link_loop :: "nat list \<Rightarrow> 'b PseudoLabel_a32_scheme \<Rightarrow> LiteMutableBuffer \<Rightarrow> LiteMutableBuffer res" where
  "thumb_link_loop [] l b = Inr b"
| "thumb_link_loop (i # is) l b =
     res_bind (getObject i (pl_instructions l)) (\<lambda>ins.
     res_bind (LoadThumb2Inst (pli_position ins) b) (\<lambda>_.
     res_bind (LoadThumb1Inst (pli_position ins) b) (\<lambda>inst1.
     res_bind (LoadThumb1Inst (pli_position ins + 2) b) (\<lambda>inst2.
     res_bind (if pli_type ins = kThumb2LiteralLdr then
           let imm12 = thumb_literal_offset (pos l) (pli_position ins)
           in if imm12 < push_bit 12 1 then
                res_bind (RewriteThumb1Inst (pli_position ins) (inst1 OR 0x80) b)
                  (RewriteThumb1Inst (pli_position ins + 2) ((inst2 AND 0xf000) OR ucast imm12))
              else Inl CheckFailed
         else Inl Unreachable)
       (thumb_link_loop is l)))))"

definition thumb_link_confused_instructions :: "'b PseudoLabel_a32_scheme \<Rightarrow> LiteMutableBuffer \<Rightarrow> LiteMutableBuffer res" where
  "thumb_link_confused_instructions l b = thumb_link_loop [0..<getCount (pl_instructions l)] l b"

section \<open>ThumbAssembler\<close>

definition EmitInt16 :: "u16 \<Rightarrow> 'a AssemblerBase_scheme \<Rightarrow> 'a AssemblerBase_scheme" where
  "EmitInt16 val a = a\<lparr>code_buffer := Emit16 val (code_buffer a)\<rparr>"

definition Emit2Int16 :: "u16 \<Rightarrow> u16 \<Rightarrow> 'a AssemblerBase_scheme \<Rightarrow> 'a AssemblerBase_scheme" where
  "Emit2Int16 val1 val2 a = EmitInt16 val2 (EmitInt16 val1 a)"

definition t1_nop :: "'a AssemblerBase_scheme \<Rightarrow> 'a AssemblerBase_scheme" where
  "t1_nop = EmitInt16 0xbf00"

definition t1_b :: "u32 \<Rightarrow> 'a AssemblerBase_scheme \<Rightarrow> 'a AssemblerBase_scheme" where
  "t1_b imm = EmitInt16 (ucast (0xe000 OR bits (signed_drop_bit 1 imm) 0 10))"

definition EmitThumb2Branch :: "Condition_a32 \<Rightarrow> u32 \<Rightarrow> bool \<Rightarrow> 'a AssemblerBase_scheme \<Rightarrow> 'a AssemblerBase_scheme res" where
  "EmitThumb2Branch cond imm link a =
     (let operand = signed_drop_bit 1 imm;
          signbit = signed_drop_bit 31 imm AND 1;
          i1 = drop_bit 22 operand AND 1;
          i2 = drop_bit 21 operand AND 1;
          imm10 = drop_bit 11 operand AND 0x03ff;
          imm11 = operand AND 0x07ff;
          j1 = (if i1 XOR signbit = 0 then 1 else 0);
          j2 = (if i2 XOR signbit = 0 then 1 else 0)
      in if cond \<noteq> AL then Inl Unimplemented
         else Inr (EmitInt16 (ucast (if link then 0x9000 OR LFT j1 1 13 OR LFT j2 1 11 OR LFT imm11 11 0 OR push_bit 14 1
                                     else 0x9000 OR LFT j1 1 13 OR LFT j2 1 11 OR LFT imm11 11 0))
                (EmitInt16 (ucast (0xf000 OR LFT signbit 1 10 OR LFT imm10 10 0)) a)))"

definition t2_b :: "u32 \<Rightarrow> 'a AssemblerBase_scheme \<Rightarrow> 'a AssemblerBase_scheme res" where
  "t2_b imm = EmitThumb2Branch AL imm False"

definition t2_bl :: "u32 \<Rightarrow> 'a AssemblerBase_scheme \<Rightarrow> 'a AssemblerBase_scheme res" where
  "t2_bl imm = EmitThumb2Branch AL imm True"

definition t2_blx :: "u32 \<Rightarrow> 'a AssemblerBase_scheme \<Rightarrow> 'a AssemblerBase_scheme res" where
  "t2_blx imm a = Inl Unimplemented"

definition EmitThumb2LoadLiteral :: "Register_a32 \<Rightarrow> MemOperand_a32 \<Rightarrow> 'a AssemblerBase_scheme \<Rightarrow> 'a AssemblerBase_scheme" where
  "EmitThumb2LoadLiteral rt x a =
     (let offset = mo_offset x;
          (U, imm12) = (if 0 < sint offset then (0x80, offset) else (0, - offset))
      in EmitInt16 (ucast (0 OR push_bit 12 (of_nat rt) OR imm12 :: u32)) (EmitInt16 (0xf85f OR U) a))"

definition EmitThumb2LoadStore :: "bool \<Rightarrow> Register_a32 \<Rightarrow> MemOperand_a32 \<Rightarrow> 'a AssemblerBase_scheme \<Rightarrow> 'a AssemblerBase_scheme" where
  "EmitThumb2LoadStore load rt x a =
     (if mo_rn x = pc_a32 then EmitThumb2LoadLiteral rt x a
      else if IsRegisterOffset_a32 x \<and> 0 \<le> sint (mo_offset x) then
        EmitInt16 (ucast (0 OR push_bit 12 (of_nat rt) OR mo_offset x :: u32)) (EmitInt16 (0xf8d0 OR of_nat (mo_rn x)) a)
      else
        let offset = mo_offset x;
            imm8 = (if 0 < sint offset then offset else - offset);
            U = (if 0 < sint offset then 0 else push_bit 9 1);
            (P, W) = (if IsPostIndex_a32 x then (0, push_bit 8 1)
                      else if IsPreIndex_a32 x then (push_bit 10 1, push_bit 8 1) else (0, 0))
        in EmitInt16 (ucast (0x0800 OR push_bit 12 (of_nat rt) OR P OR U OR W OR imm8 :: u32)) (EmitInt16 (0xf850 OR of_nat (mo_rn x)) a))"

definition t2_ldr :: "Register_a32 \<Rightarrow> MemOperand_a32 \<Rightarrow> 'a AssemblerBase_scheme \<Rightarrow> 'a AssemblerBase_scheme" where
  "t2_ldr = EmitThumb2LoadStore True"

section \<open>ThumbTurboAssembler\<close>

definition new_ThumbTurboAssembler :: "LiteMutableBuffer \<Rightarrow> u32 \<Rightarrow> TurboAssembler_a32" where
  "new_ThumbTurboAssembler b address = (new_TurboAssembler_a32 b address)\<lparr>execute_state := ThumbExecuteState\<rparr>"

definition T1_Ldr :: "Register_a32 \<Rightarrow> 'b PseudoLabel_a32_scheme \<Rightarrow> 'a AssemblerBase_scheme \<Rightarrow> ('b PseudoLabel_a32_scheme \<times> 'a AssemblerBase_scheme) res" where
  "T1_Ldr rt label a = Inl Unreachable"

definition T2_Ldr :: "Register_a32 \<Rightarrow> 'b PseudoLabel_a32_scheme \<Rightarrow> 'a AssemblerBase_scheme
    \<Rightarrow> 'b PseudoLabel_a32_scheme \<times> 'a AssemblerBase_scheme" where
  "T2_Ldr rt label a =
     (if is_bound label then
        (label, t2_ldr rt (MemOperand_imm_a32 pc_a32 (of_int (pos label - int (getSize (code_buffer a)))) Offset_a32) a)
      else (pl_link_to_a32 (getSize (code_buffer a)) kThumb2LiteralLdr label, t2_ldr rt (MemOperand_imm_a32 pc_a32 0 Offset_a32) a))"

definition AlignThumbNop :: "'a AssemblerBase_scheme \<Rightarrow> 'a AssemblerBase_scheme" where
  "AlignThumbNop a =
     (let pc = of_nat (getSize (code_buffer a)) + ucast (realized_address a) :: u32
      in if pc mod 4 \<noteq> 0 then t1_nop a else a)"

definition ThumbPseudoBind :: "'b PseudoLabel_a32_scheme \<Rightarrow> 'a AssemblerBase_scheme
    \<Rightarrow> ('b PseudoLabel_a32_scheme \<times> 'a AssemblerBase_scheme) res" where
  "ThumbPseudoBind label a =
     (let label' = (if is_unused label then bind_to (int (getSize (code_buffer a))) label else label)
      in if has_confused_instructions_a32 label' then
           res_bind (thumb_link_confused_instructions label' (code_buffer a)) (\<lambda>b. Inr (label', a\<lparr>code_buffer := b\<rparr>))
         else Inr (label', a))"

definition RelocBindFixup_thumb :: "RelocLabelEntry_a32 \<Rightarrow> 'a AssemblerBase_scheme \<Rightarrow> 'a AssemblerBase_scheme res" where
  "RelocBindFixup_thumb label a =
     res_bind (RewriteAddr (nat (pos label)) (rle_data label) (code_buffer a)) (\<lambda>b. Inr (a\<lparr>code_buffer := b\<rparr>))"

fun RelocBind_loop_thumb :: "nat list \<Rightarrow> nat LiteMutableArray \<Rightarrow> TurboAssembler_a32 \<Rightarrow> TurboAssembler_a32 res" where
  "RelocBind_loop_thumb [] labels a = Inr a"
| "RelocBind_loop_thumb (i # is) labels a =
     res_bind (getObject i labels) (\<lambda>l.
     res_bind (ThumbPseudoBind (labels_heap a l) a) (\<lambda>(label, a').
       RelocBind_loop_thumb is labels
         (EmitAddress (rle_data label) (a'\<lparr>labels_heap := (labels_heap a')(l := label)\<rparr>))))"

definition RelocBind_thumb :: "TurboAssembler_a32 \<Rightarrow> TurboAssembler_a32 res" where
  "RelocBind_thumb a =
     (case label_list a of None \<Rightarrow> Inr a | Some labels \<Rightarrow> RelocBind_loop_thumb [0..<getCount labels] labels a)"

definition AppendRelocLabelEntry_thumb :: "nat \<Rightarrow> TurboAssembler_a32 \<Rightarrow> TurboAssembler_a32" where
  "AppendRelocLabelEntry_thumb label a =
     (let labels = (case label_list a of None \<Rightarrow> arr_initWithCapacity 8 | Some labels \<Rightarrow> labels)
      in a\<lparr>label_list := Some (snd (pushObject label labels))\<rparr>)"

end
