(* ===== verification/Relocate_Arm32.thy ===== *)
theory Relocate_Arm32
  imports Asm_Thumb Memory_Arena
begin

text \<open>
  Dobby's ARM back end: the relocation of a prologue (\<^verbatim>\<open>InstructionRelocation/arm/ARMInstructionRelocation.cc\<close>), the
  trampolines (\<^verbatim>\<open>InterceptRouting/InterceptRoutingTrampoline/arm/trampoline-arm.cc\<close>), the closure trampoline
  (\<^verbatim>\<open>ClosureTrampolineBridge/arm/ARMAssemblyClosureTrampoline.cc\<close>) and the closure bridge (\<^verbatim>\<open>closure-bridge-arm.cc\<close>).
  The original code is read through \<open>ld\<close>, a 32-bit read of the buffer it was copied to; a position in the buffer is an
  offset.  A new label is stored at the address in the heap that its place in \<^verbatim>\<open>data_labels_\<close> gives.
\<close>

unbundle bit_operations_syntax

section \<open>ARM instructions\<close>

record ReloMapEntry =
  orig_instr :: u32
  relocated_instr :: u32
  relocated_code_len :: nat

definition is_thumb2 :: "u32 \<Rightarrow> bool" where
  "is_thumb2 instr =
     (let inst1 = instr AND 0x0000ffff;
          op0 = bits inst1 13 15;
          op1 = bits inst1 11 12
      in op0 = 7 \<and> op1 \<noteq> 0)"

text \<open>\<^verbatim>\<open>new RelocLabelEntry(d)\<close> and its entry in \<^verbatim>\<open>data_labels_\<close>.\<close>

definition new_label_a32 :: "u32 \<Rightarrow> TurboAssembler_a32 \<Rightarrow> nat \<times> TurboAssembler_a32" where
  "new_label_a32 d a =
     (let l = (case label_list a of None \<Rightarrow> 0 | Some labels \<Rightarrow> getCount labels)
      in (l, AppendRelocLabelEntry_a32 l (a\<lparr>labels_heap := (labels_heap a)(l := new_RelocLabelEntry_a32 d)\<rparr>)))"

definition Ldr_label :: "Register_a32 \<Rightarrow> nat \<Rightarrow> TurboAssembler_a32 \<Rightarrow> TurboAssembler_a32 res" where
  "Ldr_label rt l a =
     res_bind (Ldr_a32 rt (labels_heap a l) a) (\<lambda>(label, a'). Inr (a'\<lparr>labels_heap := (labels_heap a')(l := label)\<rparr>))"

definition arm_load_literal :: "u32 \<Rightarrow> u32 \<Rightarrow> TurboAssembler_a32 \<Rightarrow> TurboAssembler_a32 res" where
  "arm_load_literal instr from_pc a =
     (let U = bit_of instr 23;
          imm12 = bits instr 0 11;
          regRt = unat (bits instr 12 15);
          target_address = (if U = 1 then from_pc + imm12 else from_pc - imm12);
          (l, a1) = new_label_a32 target_address a
      in if regRt = pc_a32 then
           res_bind (Ldr_label VOLATILE_REGISTER l a1) (ldr_a32 regRt (MemOperand_imm_a32 VOLATILE_REGISTER 0 Offset_a32))
         else res_bind (Ldr_label regRt l a1) (ldr_a32 regRt (MemOperand_imm_a32 regRt 0 Offset_a32)))"

definition arm_adr :: "u32 \<Rightarrow> u32 \<Rightarrow> TurboAssembler_a32 \<Rightarrow> TurboAssembler_a32 res" where
  "arm_adr instr target_address a =
     (let regRd = unat (bits instr 12 15);
          (l, a1) = new_label_a32 target_address a
      in Ldr_label regRd l a1)"

text \<open>The declarations of \<^verbatim>\<open>cond\<close> and \<^verbatim>\<open>H\<close> in the block hide the fields of the instruction: both are 0.\<close>

definition arm_branch :: "u32 \<Rightarrow> u32 \<Rightarrow> TurboAssembler_a32 \<Rightarrow> TurboAssembler_a32 res" where
  "arm_branch instr from_pc a =
     (let cond = (0 :: u32); H = (0 :: u32);
          imm24 = bits instr 0 23;
          label = push_bit 2 imm24;
          target_address = from_pc + label;
          flag_link = \<not> (cond \<noteq> 15 \<and> H = 0);
          label = (4 :: u32);
          imm24 = signed_drop_bit 2 label;
          a1 = EmitARMInst ((instr AND 0xff000000) OR imm24) a;
          a2 = (if flag_link then b_a32 4 (bl_a32 0 a1) else b_a32 4 a1)
      in res_bind (ldr_a32 pc_a32 (MemOperand_imm_a32 pc_a32 (-4) Offset_a32) a2) (\<lambda>a3. Inr (EmitAddress target_address a3)))"

definition ARMRelocateSingleInstr :: "u32 \<Rightarrow> u32 \<Rightarrow> TurboAssembler_a32 \<Rightarrow> TurboAssembler_a32 res" where
  "ARMRelocateSingleInstr instr from_pc a =
     (let cond = bits instr 28 31;
          op0 = bits instr 25 27;
          P_W = push_bit 1 (bit_of instr 24) OR bit_of instr 21;
          o1 = bit_of instr 20;
          o2 = bit_of instr 22;
          Rn = bits instr 16 19;
          opc = bits instr 21 23;
          S = bit_of instr 20;
          imm12 = bits instr 0 11
      in if cond \<noteq> 15 \<and> op0 = 2 \<and> (o1 = 1 \<and> o2 = 0 \<and> P_W \<noteq> 1 \<and> Rn = 15 \<or> o1 = 1 \<and> o2 = 1 \<and> P_W \<noteq> 1 \<and> Rn = 15)
         then arm_load_literal instr from_pc a
         else if cond \<noteq> 15 \<and> op0 AND 6 = 0 \<and> bit_of instr 25 = 1 \<and> bits instr 23 24 AND 2 = 0 \<and> opc = 2 \<and> S = 0 \<and> Rn = 15
         then arm_adr instr (from_pc - imm12) a
         else if cond \<noteq> 15 \<and> op0 AND 6 = 0 \<and> bit_of instr 25 = 1 \<and> bits instr 23 24 AND 2 = 0 \<and> opc = 4 \<and> S = 0 \<and> Rn = 15
         then arm_adr instr (from_pc + imm12) a
         else if op0 AND 6 = 4 \<and> bit_of instr 25 = 1
         then arm_branch instr from_pc a
         else Inr (EmitARMInst instr a))"

section \<open>16-bit Thumb instructions\<close>

definition new_label_thumb :: "u32 \<Rightarrow> TurboAssembler_a32 \<Rightarrow> nat \<times> TurboAssembler_a32" where
  "new_label_thumb d a =
     (let l = (case label_list a of None \<Rightarrow> 0 | Some labels \<Rightarrow> getCount labels)
      in (l, AppendRelocLabelEntry_thumb l (a\<lparr>labels_heap := (labels_heap a)(l := new_RelocLabelEntry_a32 d)\<rparr>)))"

definition T2_Ldr_label :: "Register_a32 \<Rightarrow> nat \<Rightarrow> TurboAssembler_a32 \<Rightarrow> TurboAssembler_a32" where
  "T2_Ldr_label rt l a = (let (label, a') = T2_Ldr rt (labels_heap a l) a in a'\<lparr>labels_heap := (labels_heap a')(l := label)\<rparr>)"

text \<open>
  The tests are made one after the other in the code and exclude each other.  \<open>rm\<close> is still 0 where \<^verbatim>\<open>BLX\<close> is tested.
  The result has the address at which the execution state changes, when the instruction sets it.
\<close>

definition Thumb1RelocateSingleInstr :: "u32 \<Rightarrow> u32 \<Rightarrow> TurboAssembler_a32 \<Rightarrow> (u32 option \<times> TurboAssembler_a32) res" where
  "Thumb1RelocateSingleInstr instr from_pc a =
     (if bits instr 10 15 = 0x11 \<and> bits instr 8 9 \<noteq> 3 \<and> bits instr 3 6 = 15 then
        let rewrite_inst = (instr AND 0xff87) OR LFT (of_nat VOLATILE_REGISTER) 4 3;
            (l, a1) = new_label_thumb from_pc a
        in Inr (None, EmitInt16 (ucast rewrite_inst) (T2_Ldr_label VOLATILE_REGISTER l a1))
      else if bits instr 10 15 = 0x11 \<and> bits instr 8 9 = 3 \<and> bit_of instr 7 = 0 \<and> bits instr 3 6 = of_nat pc_a32 then
        let (l, a1) = new_label_thumb from_pc a
        in Inr (Some from_pc, T2_Ldr_label pc_a32 l (AlignThumbNop a1))
      else if bits instr 10 15 = 0x11 \<and> bits instr 8 9 = 3 \<and> bit_of instr 7 = 1 \<and> (0 :: u32) = of_nat pc_a32 then
        let (l, a1) = new_label_thumb from_pc a
        in res_bind (t2_bl 4 (AlignThumbNop a1)) (\<lambda>a2.
           res_bind (t2_b 4 a2) (\<lambda>a3. Inr (Some from_pc, T2_Ldr_label pc_a32 l a3)))
      else if instr AND 0xf800 = 0x4800 then
        let offset = push_bit 2 (bits instr 0 7);
            val = ALIGN_FLOOR (from_pc + offset) 4;
            rt = unat (bits instr 8 10);
            (l, a1) = new_label_thumb val a
        in Inr (None, t2_ldr rt (MemOperand_imm_a32 rt 0 Offset_a32) (T2_Ldr_label rt l a1))
      else if instr AND 0xf800 = 0xa000 then
        let rd = unat (bits instr 8 10);
            (l, a1) = new_label_thumb (from_pc + bits instr 0 7) a
        in Inr (None, T2_Ldr_label rd l a1)
      else if instr AND 0xf000 = 0xd000 then
        if 0xE \<le> bits instr 8 11 then Inl Unreachable
        else
          let val = from_pc + push_bit 1 (bits instr 0 7);
              (l, a1) = new_label_thumb (val + 1) a;
              a2 = AlignThumbNop (EmitInt16 (ucast ((instr AND 0xfff0) OR drop_bit 1 4)) a1)
          in res_bind (t2_b 4 a2) (\<lambda>a3. Inr (None, T2_Ldr_label pc_a32 l a3))
      else if instr AND 0xf500 = 0xb100 then
        let val = from_pc + (push_bit 6 (bit_of instr 9) OR push_bit 1 (bits instr 3 7));
            (l, a1) = new_label_thumb (val + 1) a;
            imm5 = bits (drop_bit 1 4) 1 5;
            i = bit_of (drop_bit 1 4) 6;
            a2 = AlignThumbNop (EmitInt16 (ucast ((instr AND 0xfd07) OR push_bit 3 imm5 OR push_bit 9 i)) a1)
        in res_bind (t2_b 0 a2) (\<lambda>a3. Inr (None, T2_Ldr_label pc_a32 l a3))
      else if instr AND 0xf800 = 0xe000 then
        let val = from_pc + push_bit 1 (bits instr 0 10);
            (l, a1) = new_label_thumb (val + 1) a
        in Inr (None, T2_Ldr_label pc_a32 l (AlignThumbNop a1))
      else Inr (None, EmitInt16 (ucast instr) a))"

section \<open>32-bit Thumb instructions\<close>

definition THUMB_ADDRESS_FLAG :: u32 where "THUMB_ADDRESS_FLAG = 1"

text \<open>\<^verbatim>\<open>t2_ldr(pc, MemOperand(pc, 0))\<close> and the address it loads.\<close>

definition t2_jump :: "u32 \<Rightarrow> 'a AssemblerBase_scheme \<Rightarrow> 'a AssemblerBase_scheme" where
  "t2_jump address a = EmitAddress address (t2_ldr pc_a32 (MemOperand_imm_a32 pc_a32 0 Offset_a32) a)"

definition thumb2_b_cond :: "u32 \<Rightarrow> u32 \<Rightarrow> u32 \<Rightarrow> TurboAssembler_a32 \<Rightarrow> TurboAssembler_a32 res" where
  "thumb2_b_cond inst1 inst2 from_pc a =
     (let S = sbits inst1 10 10;
          J1 = bit_of inst2 13;
          J2 = bit_of inst2 11;
          imm6 = bits inst1 0 5;
          imm11 = bits inst2 0 10;
          label = push_bit 20 S OR push_bit 19 J2 OR push_bit 18 J1 OR push_bit 12 imm6 OR push_bit 1 imm11;
          val = from_pc + label;
          a1 = EmitInt16 (ucast (inst1 AND 0xffc0)) a;
          a2 = EmitInt16 (ucast ((inst2 AND 0xd000) OR drop_bit 1 4)) a1
      in res_bind (t2_b 4 (AlignThumbNop a2)) (\<lambda>a3. Inr (t2_jump (val + THUMB_ADDRESS_FLAG) a3)))"

definition wide_label :: "u32 \<Rightarrow> u32 \<Rightarrow> u32 \<Rightarrow> u32" where
  "wide_label inst1 inst2 low =
     (let S = bit_of inst1 10;
          i1 = (if bit_of inst2 13 XOR S = 0 then 1 else 0);
          i2 = (if bit_of inst2 11 XOR S = 0 then 1 else 0);
          imm10 = bits inst1 0 9
      in push_bit 24 (- S) OR push_bit 23 i1 OR push_bit 22 i2 OR push_bit 12 imm10 OR low)"

definition thumb2_b_wide :: "u32 \<Rightarrow> u32 \<Rightarrow> u32 \<Rightarrow> TurboAssembler_a32 \<Rightarrow> TurboAssembler_a32 res" where
  "thumb2_b_wide inst1 inst2 from_pc a =
     (let val = from_pc + wide_label inst1 inst2 (push_bit 1 (bits inst2 0 10))
      in Inr (t2_jump (val + THUMB_ADDRESS_FLAG) (AlignThumbNop a)))"

definition thumb2_bl :: "u32 \<Rightarrow> u32 \<Rightarrow> u32 \<Rightarrow> TurboAssembler_a32 \<Rightarrow> TurboAssembler_a32 res" where
  "thumb2_bl inst1 inst2 from_pc a =
     (let val = from_pc + wide_label inst1 inst2 (push_bit 1 (bits inst2 0 10))
      in res_bind (t2_bl 4 (AlignThumbNop a)) (\<lambda>a1.
         res_bind (t2_b 8 a1) (\<lambda>a2. Inr (t2_jump (val + THUMB_ADDRESS_FLAG) a2))))"

definition thumb2_blx :: "u32 \<Rightarrow> u32 \<Rightarrow> u32 \<Rightarrow> TurboAssembler_a32 \<Rightarrow> TurboAssembler_a32 res" where
  "thumb2_blx inst1 inst2 from_pc a =
     (let val = ALIGN_FLOOR from_pc 4 + wide_label inst1 inst2 (push_bit 2 (bits inst2 1 10))
      in res_bind (t2_bl 4 (AlignThumbNop a)) (\<lambda>a1.
         res_bind (t2_b 8 a1) (\<lambda>a2. Inr (t2_jump val a2))))"

definition thumb2_adr :: "u32 \<Rightarrow> u32 \<Rightarrow> u32 \<Rightarrow> TurboAssembler_a32 \<Rightarrow> TurboAssembler_a32 res" where
  "thumb2_adr inst1 inst2 from_pc a =
     (let o1 = bit_of inst1 7;
          o2 = bit_of inst1 5;
          rn = bits inst1 0 3;
          rd = unat (bits inst2 8 11);
          label = bits inst2 0 7 OR push_bit 8 (bits inst2 12 14) OR push_bit 11 (bit_of inst1 10);
          val = (if rn = 15 \<and> o1 = 0 \<and> o2 = 0 then from_pc + label
                 else if rn = 15 \<and> o1 = 1 \<and> o2 = 1 then from_pc - label else 0)
      in res_bind (t2_b 0 (t2_ldr rd (MemOperand_imm_a32 pc_a32 4 Offset_a32) a)) (\<lambda>a1. Inr (EmitAddress val a1)))"

definition thumb2_ldr_literal :: "u32 \<Rightarrow> u32 \<Rightarrow> u32 \<Rightarrow> TurboAssembler_a32 \<Rightarrow> TurboAssembler_a32 res" where
  "thumb2_ldr_literal inst1 inst2 from_pc a =
     (let U = bit_of inst1 7;
          label = bits inst2 0 11;
          rt = unat (bits inst2 12 15);
          val = ALIGN_FLOOR (if U = 1 then from_pc + label else from_pc - label) 4
      in res_bind (t2_b 4 (t2_ldr rt (MemOperand_imm_a32 pc_a32 4 Offset_a32) a)) (\<lambda>a1.
           Inr (t2_ldr rt (MemOperand_imm_a32 rt 0 Offset_a32) (EmitAddress val a1))))"

definition Thumb2RelocateSingleInstr :: "u32 \<Rightarrow> u32 \<Rightarrow> u32 \<Rightarrow> TurboAssembler_a32 \<Rightarrow> TurboAssembler_a32 res" where
  "Thumb2RelocateSingleInstr inst1 inst2 from_pc a0 =
     (let a = (if pc_offset a0 mod 4 \<noteq> 0 then t1_nop a0 else a0);
          control = (inst1 AND 0xf800 = 0xf000 \<and> inst2 AND 0x8000 = 0x8000);
          op1 = bits inst1 6 9;
          op3 = bits inst2 12 14
      in if control \<and> op1 AND 0xE \<noteq> 0xE \<and> op3 AND 5 = 0 then thumb2_b_cond inst1 inst2 from_pc a
         else if control \<and> op3 AND 5 = 1 then thumb2_b_wide inst1 inst2 from_pc a
         else if control \<and> op3 AND 5 = 5 then thumb2_bl inst1 inst2 from_pc a
         else if control \<and> op3 AND 5 = 4 then thumb2_blx inst1 inst2 from_pc a
         else if inst1 AND 0xfb50 = 0xf200 \<and> inst2 AND 0x8000 = 0 then thumb2_adr inst1 inst2 from_pc a
         else if inst1 AND 0xff7f = 0xf85f then thumb2_ldr_literal inst1 inst2 from_pc a
         else Inr (EmitInt16 (ucast inst2) (EmitInt16 (ucast inst1) a)))"

section \<open>The loops\<close>

text \<open>
  \<open>ld\<close> reads the buffer at \<open>buf_cursor\<close>; \<open>relo_start\<close> is the start of the relocated code as the caller passes it.  The loop over
  ARM instructions never ends early: its own \<^verbatim>\<open>execute_state_changed_pc\<close> stays 0.
\<close>

function gen_arm_relocate_code ::
    "(nat \<Rightarrow> u32) \<Rightarrow> nat \<Rightarrow> u32 \<Rightarrow> nat \<Rightarrow> u32 \<Rightarrow> u32 \<Rightarrow> ReloMapEntry list \<Rightarrow> TurboAssembler_a32
      \<Rightarrow> (ReloMapEntry list \<times> TurboAssembler_a32) res" where
  "gen_arm_relocate_code ld predefined_relocate_size relo_start buf_cursor curr_orig_pc curr_relo_pc relo_map a =
     (if buf_cursor < predefined_relocate_size then
        res_bind (ARMRelocateSingleInstr (ld buf_cursor) curr_orig_pc a) (\<lambda>a'.
          let entry = \<lparr>orig_instr = curr_orig_pc - 8, relocated_instr = curr_relo_pc - 8,
                 relocated_code_len = pc_offset a' - pc_offset a\<rparr>
          in gen_arm_relocate_code ld predefined_relocate_size relo_start (buf_cursor + 4) (curr_orig_pc + 4)
               (relo_start + 8 + of_nat (pc_offset a')) (relo_map @ [entry]) a')
      else Inr (relo_map, a))"
  by pat_completeness auto

termination
  by (relation "measure (\<lambda>(_, n, _, c, _). n - c)") auto

declare gen_arm_relocate_code.simps [simp del]

text \<open>The result of the Thumb loop has the address at which it was left, or 0.\<close>

function gen_thumb_relocate_code ::
    "(nat \<Rightarrow> u32) \<Rightarrow> nat \<Rightarrow> u32 \<Rightarrow> nat \<Rightarrow> u32 \<Rightarrow> u32 \<Rightarrow> u32 \<Rightarrow> ReloMapEntry list \<Rightarrow> TurboAssembler_a32
      \<Rightarrow> (u32 \<times> ReloMapEntry list \<times> TurboAssembler_a32) res" where
  "gen_thumb_relocate_code ld predefined_relocate_size relo_start buf_cursor curr_orig_pc curr_relo_pc changed relo_map a =
     (if buf_cursor < predefined_relocate_size then
        let instr = ld buf_cursor;
            a0 = t1_nop a
        in res_bind (if is_thumb2 instr
               then res_bind (Thumb2RelocateSingleInstr (instr AND 0xffff) (drop_bit 16 instr) curr_orig_pc a0) (\<lambda>a'. Inr (None, a'))
               else Thumb1RelocateSingleInstr (instr AND 0xffff) curr_orig_pc a0) (\<lambda>(ch, a').
          let changed' = (case ch of None \<Rightarrow> changed | Some val \<Rightarrow> val);
              entry = \<lparr>orig_instr = curr_orig_pc - 4, relocated_instr = curr_relo_pc - 4,
                 relocated_code_len = pc_offset a' - pc_offset a0\<rparr>;
              step = (if is_thumb2 instr then 4 else 2);
              cursor' = buf_cursor + step;
              curr_orig_pc' = curr_orig_pc + of_nat step;
              relo_map' = relo_map @ [entry]
          in if changed' \<noteq> 0 \<and> curr_orig_pc' - 4 = changed' then
               Inr (if cursor' < predefined_relocate_size
                    then (changed', relo_map', a'\<lparr>execute_state := ARMExecuteState\<rparr>) else (0, relo_map', a'))
             else gen_thumb_relocate_code ld predefined_relocate_size relo_start cursor' curr_orig_pc'
                    (relo_start + 4 + of_nat (pc_offset a')) changed' relo_map' a')
      else Inr (0, relo_map, a))"
  by pat_completeness auto

termination
  by (relation "measure (\<lambda>(_, n, _, c, _). n - c)") (auto split: if_splits)

declare gen_thumb_relocate_code.simps [simp del]

section \<open>Fixing up the labels\<close>

fun get_orig_instr_relocated_addr :: "ReloMapEntry list \<Rightarrow> u32 \<Rightarrow> u32" where
  "get_orig_instr_relocated_addr [] orig_pc = 0"
| "get_orig_instr_relocated_addr (e # es) orig_pc =
     (if orig_instr e = orig_pc then relocated_instr e else get_orig_instr_relocated_addr es orig_pc)"

fun fixup_loop :: "u32 \<Rightarrow> u32 \<Rightarrow> ReloMapEntry list \<Rightarrow> nat list \<Rightarrow> nat LiteMutableArray \<Rightarrow> TurboAssembler_a32 \<Rightarrow> TurboAssembler_a32 res" where
  "fixup_loop start end_addr relo_map [] labels a = Inr a"
| "fixup_loop start end_addr relo_map (i # is) labels a =
     res_bind (getObject i labels) (\<lambda>l.
       let val = rle_data (labels_heap a l)
       in if start \<le> val \<and> val < end_addr then
            let fixup_val = get_orig_instr_relocated_addr relo_map val + ucast (realized_address a);
                label = fixup_data_a32 fixup_val (labels_heap a l)
            in res_bind (RelocBindFixup_a32 label (a\<lparr>labels_heap := (labels_heap a)(l := label)\<rparr>))
                 (fixup_loop start end_addr relo_map is labels)
          else fixup_loop start end_addr relo_map is labels a)"

definition fixup_labels :: "u32 \<Rightarrow> u32 \<Rightarrow> ReloMapEntry list \<Rightarrow> TurboAssembler_a32 \<Rightarrow> TurboAssembler_a32 res" where
  "fixup_labels start end_addr relo_map a =
     (case label_list a of None \<Rightarrow> Inr a
      | Some labels \<Rightarrow> fixup_loop start end_addr relo_map [0..<getCount labels] labels a)"

text \<open>The two assemblers write to one buffer.\<close>

definition same_buffer :: "TurboAssembler_a32 \<Rightarrow> TurboAssembler_a32 \<Rightarrow> TurboAssembler_a32" where
  "same_buffer a b = b\<lparr>code_buffer := code_buffer a\<rparr>"

definition reloc_label_fixup ::
    "u32 \<Rightarrow> u32 \<Rightarrow> ReloMapEntry list \<Rightarrow> TurboAssembler_a32 \<Rightarrow> TurboAssembler_a32 \<Rightarrow> (TurboAssembler_a32 \<times> TurboAssembler_a32) res" where
  "reloc_label_fixup origin_start origin_size relo_map thumb arm =
     res_bind (fixup_labels origin_start (origin_start + origin_size) relo_map thumb) (\<lambda>thumb1.
     res_bind (fixup_labels origin_start (origin_start + origin_size) relo_map (same_buffer thumb1 arm)) (\<lambda>arm1.
       Inr (same_buffer arm1 thumb1, arm1)))"

section \<open>GenRelocateCode\<close>

text \<open>
  The part from the label \<^verbatim>\<open>relocate_remain\<close> on, for a chunk of ARM code: \<open>off\<close> is where the chunk begins in the buffer.
\<close>

definition relocate_arm_chunk ::
    "(nat \<Rightarrow> u32) \<Rightarrow> nat \<Rightarrow> u32 \<Rightarrow> nat \<Rightarrow> u32 \<Rightarrow> ReloMapEntry list \<Rightarrow> TurboAssembler_a32 \<Rightarrow> (ReloMapEntry list \<times> TurboAssembler_a32) res" where
  "relocate_arm_chunk ld off chunk_start chunk_size relo_start relo_map arm =
     gen_arm_relocate_code (\<lambda>i. ld (off + i)) chunk_size relo_start 0 (chunk_start + 8)
       (relo_start + 8 + of_nat (pc_offset arm)) relo_map arm"

text \<open>
  The relocated instructions and the jump to the rest, before the labels are bound.  The result has the map, the two assemblers, and
  whether the last part is Thumb code.
\<close>

definition relocate_code ::
    "(nat \<Rightarrow> u8) \<Rightarrow> (nat \<Rightarrow> u32) \<Rightarrow> u32 \<Rightarrow> nat \<Rightarrow> u32
      \<Rightarrow> (ReloMapEntry list \<times> TurboAssembler_a32 \<times> TurboAssembler_a32 \<times> bool) res" where
  "relocate_code junk ld origin_start origin_size relo_start =
     (let code_buffer = new_CodeBuffer_a32 junk;
          thumb = new_ThumbTurboAssembler code_buffer 0;
          arm = new_TurboAssembler_a32 code_buffer 0
      in if origin_start mod 2 = 1 then
           let start = origin_start - THUMB_ADDRESS_FLAG
           in res_bind (gen_thumb_relocate_code ld origin_size relo_start 0 (start + 4) (relo_start + 4) 0 [] thumb)
                (\<lambda>(changed, relo_map, thumb1).
                if execute_state thumb1 = ARMExecuteState \<and> changed < start + of_nat origin_size then
                  let remain = unat (start + of_nat origin_size - changed);
                      thumb2 = (if pc_offset thumb1 mod 4 \<noteq> 0 then t1_nop thumb1 else thumb1)
                  in res_bind (relocate_arm_chunk ld (unat (changed - start)) changed remain relo_start relo_map (same_buffer thumb2 arm))
                       (\<lambda>(relo_map', arm1). Inr (relo_map', same_buffer arm1 thumb2, arm1, False))
                else Inr (relo_map, thumb1, same_buffer thumb1 arm, True))
         else
           res_bind (relocate_arm_chunk ld 0 origin_start origin_size relo_start [] arm) (\<lambda>(relo_map, arm1).
             Inr (relo_map, same_buffer arm1 thumb, arm1, False)))"

definition emit_rest :: "u32 \<Rightarrow> TurboAssembler_a32 \<Rightarrow> TurboAssembler_a32 \<Rightarrow> bool \<Rightarrow> (TurboAssembler_a32 \<times> TurboAssembler_a32) res" where
  "emit_rest rest_instr_addr thumb arm in_thumb =
     (if in_thumb then
        let thumb1 = t2_jump (rest_instr_addr + THUMB_ADDRESS_FLAG) (AlignThumbNop thumb)
        in Inr (thumb1, same_buffer thumb1 arm)
      else res_bind (LiteralLdrBranch_a32 rest_instr_addr arm) (\<lambda>arm1. Inr (same_buffer arm1 thumb, arm1)))"

definition bind_labels :: "TurboAssembler_a32 \<Rightarrow> TurboAssembler_a32 \<Rightarrow> (TurboAssembler_a32 \<times> TurboAssembler_a32) res" where
  "bind_labels thumb arm =
     res_bind (RelocBind_thumb thumb) (\<lambda>thumb1.
     res_bind (RelocBind_a32 (same_buffer thumb1 arm)) (\<lambda>arm1. Inr (same_buffer arm1 thumb1, arm1)))"

definition GenRelocateCode_a32 ::
    "(nat \<Rightarrow> u8) \<Rightarrow> u64 option \<Rightarrow> nat \<Rightarrow> (nat \<Rightarrow> u32) \<Rightarrow> u32 \<Rightarrow> nat \<Rightarrow> u32 \<Rightarrow> arena \<Rightarrow> env64 \<Rightarrow> (MemoryRange \<times> arena \<times> env64) res" where
  "GenRelocateCode_a32 junk os_alloc pageSize ld origin_start origin_size relo_start arena e =
     (let entry_is_thumb = (origin_start mod 2 = 1);
          start = (if entry_is_thumb then origin_start - THUMB_ADDRESS_FLAG else origin_start)
      in res_bind (relocate_code junk ld origin_start origin_size relo_start) (\<lambda>(relo_map, thumb, arm, in_thumb).
         res_bind (emit_rest (start + of_nat origin_size) thumb arm in_thumb) (\<lambda>(thumb, arm).
         res_bind (bind_labels thumb arm) (\<lambda>(thumb, arm).
         case AllocateCodeChunk os_alloc pageSize (pc_offset arm) arena of
           (None, arena') \<Rightarrow> Inl NullPointer
         | (Some codeChunk, arena') \<Rightarrow>
             res_bind (CommitRealizeAddress_a32 (ucast (mr_address codeChunk)) thumb) (\<lambda>thumb.
             res_bind (CommitRealizeAddress_a32 (ucast (mr_address codeChunk)) arm) (\<lambda>arm.
             res_bind (reloc_label_fixup start (of_nat origin_size) relo_map thumb arm) (\<lambda>(thumb, arm).
             res_bind (FinalizeFromTurboAssember 4 os_alloc pageSize (if in_thumb then thumb else arm) arena' e) (\<lambda>(code, _, arena'', e').
               Inr (if entry_is_thumb then code\<lparr>mr_address := mr_address code + ucast THUMB_ADDRESS_FLAG\<rparr> else code,
                    arena'', e')))))))))"

section \<open>Trampolines\<close>

definition generate_arm_trampoline :: "(nat \<Rightarrow> u8) \<Rightarrow> u32 \<Rightarrow> u32 \<Rightarrow> LiteMutableBuffer option res" where
  "generate_arm_trampoline junk from to =
     res_bind (LiteralLdrBranch_a32 to (new_TurboAssembler_a32 (new_CodeBuffer_a32 junk) from)) (\<lambda>a. Inr (copy junk (code_buffer a)))"

definition generate_thumb_trampoline :: "(nat \<Rightarrow> u8) \<Rightarrow> u32 \<Rightarrow> u32 \<Rightarrow> LiteMutableBuffer option" where
  "generate_thumb_trampoline junk from to =
     copy junk (code_buffer (t2_jump to (AlignThumbNop (new_ThumbTurboAssembler (new_CodeBuffer_a32 junk) from))))"

definition GenerateNormalTrampolineBuffer_a32 :: "(nat \<Rightarrow> u8) \<Rightarrow> u32 \<Rightarrow> u32 \<Rightarrow> LiteMutableBuffer option res" where
  "GenerateNormalTrampolineBuffer_a32 junk from to =
     (if from mod 2 = 0 then generate_arm_trampoline junk from to
      else Inr (generate_thumb_trampoline junk (ALIGN_FLOOR from 2) to))"

definition GenerateNearTrampolineBuffer_a32 :: "u32 \<Rightarrow> u32 \<Rightarrow> LiteMutableBuffer option" where
  "GenerateNearTrampolineBuffer_a32 src dst = None"

section \<open>The closure trampoline and the closure bridge\<close>

definition closure_trampoline_code_a32 :: "(nat \<Rightarrow> u8) \<Rightarrow> u32 \<Rightarrow> u32 \<Rightarrow> TurboAssembler_a32 res" where
  "closure_trampoline_code_a32 junk entry bridge =
     res_bind (Ldr_a32 r12_a32 new_PseudoLabel_a32 (new_TurboAssembler_a32 (new_CodeBuffer_a32 junk) 0)) (\<lambda>(entry_label, a1).
     res_bind (Ldr_a32 pc_a32 new_PseudoLabel_a32 a1) (\<lambda>(forward_bridge_label, a2).
     res_bind (PseudoBind_a32 entry_label a2) (\<lambda>(_, a3).
     res_bind (PseudoBind_a32 forward_bridge_label (EmitAddress entry a3)) (\<lambda>(_, a4).
       Inr (EmitAddress bridge a4)))))"

definition CreateClosureTrampoline_a32 ::
    "(nat \<Rightarrow> u8) \<Rightarrow> u64 option \<Rightarrow> nat \<Rightarrow> u32 \<Rightarrow> u32 \<Rightarrow> u64 \<Rightarrow> u64 \<Rightarrow> arena \<Rightarrow> env64
      \<Rightarrow> (ClosureTrampolineEntry \<times> arena \<times> env64) res" where
  "CreateClosureTrampoline_a32 junk os_alloc pageSize entry bridge data handler arena e =
     res_bind (closure_trampoline_code_a32 junk entry bridge) (\<lambda>a.
     res_bind (FinalizeFromTurboAssember 4 os_alloc pageSize a arena e) (\<lambda>(code, _, arena', e').
       Inr (\<lparr>cte_address = mr_address code, cte_size = mr_length code, carry_handler = handler, carry_data = data\<rparr>,
            arena', e')))"

fun run_emits :: "(TurboAssembler_a32 \<Rightarrow> TurboAssembler_a32 res) list \<Rightarrow> TurboAssembler_a32 \<Rightarrow> TurboAssembler_a32 res" where
  "run_emits [] a = Inr a"
| "run_emits (f # fs) a = res_bind (f a) (run_emits fs)"

definition bridge_save_a32 :: "(TurboAssembler_a32 \<Rightarrow> TurboAssembler_a32 res) list" where
  "bridge_save_a32 =
     [sub_a32 sp_a32 sp_a32 (Operand_imm_a32 (14 * 4))]
     @ map (\<lambda>i. str_a32 (if i = 13 then lr_a32 else i) (MemOperand_imm_a32 sp_a32 (of_nat i * 4) Offset_a32)) (rev [0..<14])
     @ [add_a32 0 sp_a32 (Operand_imm_a32 (14 * 4)), sub_a32 sp_a32 sp_a32 (Operand_imm_a32 8),
        str_a32 0 (MemOperand_imm_a32 sp_a32 4 Offset_a32), sub_a32 sp_a32 sp_a32 (Operand_imm_a32 8)]"

definition bridge_call_a32 :: "u32 \<Rightarrow> (TurboAssembler_a32 \<Rightarrow> TurboAssembler_a32 res) list" where
  "bridge_call_a32 handler =
     [\<lambda>a. Inr (mov_a32 0 (Operand_reg_a32 sp_a32) a), \<lambda>a. Inr (mov_a32 1 (Operand_reg_a32 r12_a32) a), CallFunction_a32 handler]"

definition bridge_restore_a32 :: "(TurboAssembler_a32 \<Rightarrow> TurboAssembler_a32 res) list" where
  "bridge_restore_a32 =
     [add_a32 sp_a32 sp_a32 (Operand_imm_a32 8), add_a32 sp_a32 sp_a32 (Operand_imm_a32 8)]
     @ map (\<lambda>i. ldr_a32 (if i = 13 then lr_a32 else i) (MemOperand_imm_a32 sp_a32 4 PostIndex_a32)) [0..<14]
     @ [\<lambda>a. Inr (mov_a32 pc_a32 (Operand_reg_a32 r12_a32) a)]"

definition closure_bridge_code_a32 :: "(nat \<Rightarrow> u8) \<Rightarrow> u32 \<Rightarrow> TurboAssembler_a32 res" where
  "closure_bridge_code_a32 junk handler =
     run_emits (bridge_save_a32 @ bridge_call_a32 handler @ bridge_restore_a32) (new_TurboAssembler_a32 (new_CodeBuffer_a32 junk) 0)"

text \<open>\<^verbatim>\<open>get_closure_bridge\<close>: the bridge is built once and kept.\<close>

definition get_closure_bridge_a32 ::
    "(nat \<Rightarrow> u8) \<Rightarrow> u64 option \<Rightarrow> nat \<Rightarrow> u32 \<Rightarrow> u64 option \<Rightarrow> arena \<Rightarrow> env64 \<Rightarrow> (u64 \<times> arena \<times> env64) res" where
  "get_closure_bridge_a32 junk os_alloc pageSize handler closure_bridge arena e =
     (case closure_bridge of
        Some b \<Rightarrow> Inr (b, arena, e)
      | None \<Rightarrow>
          res_bind (closure_bridge_code_a32 junk handler) (\<lambda>a.
          res_bind (FinalizeFromTurboAssember 4 os_alloc pageSize a arena e) (\<lambda>(code, _, arena', e').
            Inr (mr_address code, arena', e'))))"

end
