(* ===== verification/Relocate_Arm32_Layout.thy ===== *)
theory Relocate_Arm32_Layout
  imports Relocate_Arm32 Relocate_Arm
begin

text \<open>
  The code that Dobby's relocation emits for a prologue of ARM instructions: a block for each instruction, the jump to the rest
  of the function, and the addresses that the literal loads of the blocks refer to once their labels are bound.
\<close>

unbundle bit_operations_syntax

section \<open>Emitting words\<close>

definition words_a32 :: "u32 list \<Rightarrow> u8 list" where
  "words_a32 ws = concat (map (le_bytes 4) ws)"

lemma words_a32_simps [simp]:
  "words_a32 [] = []" "words_a32 (w # ws) = le_bytes 4 w @ words_a32 ws" "words_a32 (us @ vs) = words_a32 us @ words_a32 vs"
  "length (words_a32 ws) = 4 * length ws"
  by (simp_all add: words_a32_def length_concat comp_def sum_list_triv)

lemma Emit_a32_emit_code: "EmitARMInst w a = emit_code (le_bytes 4 w) a" "EmitAddress w a = emit_code (le_bytes 4 w) a"
  by (simp_all add: EmitARMInst_def EmitAddress_def emit_code_def EmitBuffer_def Emit32_def)

lemma EmitAddress_EmitARMInst: "EmitAddress = EmitARMInst"
  by (intro ext) (simp add: Emit_a32_emit_code)

lemma emit_word_a32:
  assumes "asm_ok a" "pc_offset a + 4 < 2 ^ 30"
  shows "asm_ok (EmitARMInst w a)" "pc_offset (EmitARMInst w a) = pc_offset a + 4" "emitted (EmitARMInst w a) = emitted a @ le_bytes 4 w"
    "realized_address (EmitARMInst w a) = realized_address a"
  using assms emit_code_ok [of a "le_bytes 4 w"] emit_code_emitted [of a "le_bytes 4 w"] pc_offset_emit_code [of a "le_bytes 4 w"]
  by (simp_all add: Emit_a32_emit_code)

lemma emit_words_a32:
  "asm_ok a \<Longrightarrow> pc_offset a + 4 * length ws < 2 ^ 30 \<Longrightarrow>
   asm_ok (fold EmitARMInst ws a) \<and> emitted (fold EmitARMInst ws a) = emitted a @ words_a32 ws
     \<and> pc_offset (fold EmitARMInst ws a) = pc_offset a + 4 * length ws \<and> realized_address (fold EmitARMInst ws a) = realized_address a"
proof (induction ws arbitrary: a)
  case (Cons w ws)
  then have "pc_offset a + 4 < 2 ^ 30" by simp
  note e = emit_word_a32 [OF Cons.prems(1) this, of w]
  show ?case using Cons.IH [of "EmitARMInst w a"] Cons.prems e by simp
qed simp

lemma EmitARMInst_heap [simp]:
  "labels_heap (EmitARMInst w a) = labels_heap a" "label_list (EmitARMInst w a) = label_list a" "execute_state (EmitARMInst w a) = execute_state a"
  by (simp_all add: EmitARMInst_def)

lemma fold_EmitARMInst_heap [simp]:
  "labels_heap (fold EmitARMInst ws a) = labels_heap a" "label_list (fold EmitARMInst ws a) = label_list a"
  "execute_state (fold EmitARMInst ws a) = execute_state a"
  by (induction ws arbitrary: a) simp_all

section \<open>One block for an instruction\<close>

text \<open>The fields of a word that agrees with a constant on a mask.\<close>

lemma field_known:
  fixes w v K M :: u32
  assumes "w AND K = v" "push_bit lo M AND K = push_bit lo M"
  shows "drop_bit lo w AND M = drop_bit lo v AND M"
proof (rule bit_word_eqI)
  fix n assume "n < LENGTH(32)"
  have w: "bit v i \<longleftrightarrow> bit w i \<and> bit K i" for i using assms(1) by (auto simp: bit_and_iff)
  have "bit K (lo + n)" if "bit M n" "lo + n < 32"
  proof -
    have "bit (push_bit lo M) (lo + n)" using that by (simp add: bit_push_bit_iff)
    then show ?thesis using assms(2) by (metis bit_and_iff)
  qed
  then show "bit (drop_bit lo w AND M) n = bit (drop_bit lo v AND M) n"
    by (auto simp: bit_simps w dest: bit_imp_le_length)
qed

definition lit_word :: "nat \<Rightarrow> u32 \<Rightarrow> u32" where
  "lit_word rt off = 0xE59F0000 OR push_bit 12 (of_nat rt) OR off"

definition ldr_self_word :: "nat \<Rightarrow> u32" where
  "ldr_self_word rt = 0xE5900000 OR push_bit 16 (of_nat rt) OR push_bit 12 (of_nat rt)"

datatype block_a32 = Copied u32 | Loaded nat u32 "u32 list"

text \<open>
  Words that do not name the PC, and whose effect does not depend on it: not a branch, and neither operand register is 15.
\<close>

definition copied_a32 :: "u32 \<Rightarrow> bool" where
  "copied_a32 w \<longleftrightarrow> drop_bit 28 w \<noteq> 0xF \<and> fld 16 w \<noteq> 15 \<and> fld 0 w \<noteq> 15 \<and> w AND 0xE000000 \<noteq> 0xA000000 \<and> w AND 0xFFF0FFF \<noteq> 0x52D0004"

definition block_a32 :: "u32 \<Rightarrow> u32 \<Rightarrow> block_a32 option" where
  "block_a32 pc w =
     (if w AND 0xFF7F0000 = 0xE51F0000 then
        if fld 12 w \<noteq> 15 then Some (Loaded (fld 12 w) (if bit w 23 then pc + (w AND 0xFFF) else pc - (w AND 0xFFF)) [ldr_self_word (fld 12 w)])
        else None
      else if w AND 0xFFFF0F00 = 0xE28F0000 then Some (Loaded (fld 12 w) (pc + (w AND 0xFF)) [])
      else if w AND 0xFFFF0F00 = 0xE24F0000 then Some (Loaded (fld 12 w) (pc - (w AND 0xFF)) [])
      else if copied_a32 w then Some (Copied w) else None)"

fun blocks_a32 :: "u32 \<Rightarrow> u32 list \<Rightarrow> block_a32 list option" where
  "blocks_a32 pc [] = Some []"
| "blocks_a32 pc (w # ws) =
     (case block_a32 pc w of None \<Rightarrow> None | Some b \<Rightarrow> map_option ((#) b) (blocks_a32 (pc + 4) ws))"

primrec raw_a32 :: "block_a32 \<Rightarrow> u32 list" where
  "raw_a32 (Copied w) = [w]"
| "raw_a32 (Loaded rt d vs) = lit_word rt 0 # vs"

definition link_label :: "nat \<Rightarrow> nat \<Rightarrow> TurboAssembler_a32 \<Rightarrow> TurboAssembler_a32" where
  "link_label rt l a = (EmitARMInst (lit_word rt 0) a)\<lparr>labels_heap := (labels_heap a)(l := pl_link_to_a32 (pc_offset a) 0 (labels_heap a l))\<rparr>"

lemma ldr_a32_words:
  "ldr_a32 rt (MemOperand_imm_a32 pc_a32 0 Offset_a32) a = Inr (EmitARMInst (lit_word rt 0) a)"
  "ldr_a32 rt (MemOperand_imm_a32 rt 0 Offset_a32) a = Inr (EmitARMInst (ldr_self_word rt) a)"
  "ldr_a32 pc_a32 (MemOperand_imm_a32 pc_a32 (-4) Offset_a32) a = Inr (EmitARMInst 0xE51FF004 a)"
proof -
  have o: "x OR (y OR (z :: u32)) = y OR (x OR z)" for x y z by (simp only: or.left_commute)
  show "ldr_a32 rt (MemOperand_imm_a32 pc_a32 0 Offset_a32) a = Inr (EmitARMInst (lit_word rt 0) a)"
    by (simp add: ldr_a32_def ldr_cond_a32_def EncodeMemOperand_def MemOperand_imm_a32_def IsValid_a32_def no_reg_def pc_a32_def Rn_a32_def
        Rt_a32_def cond_field_def kConditionShift_def lit_word_def or.assoc or.left_commute or.commute)
  show "ldr_a32 rt (MemOperand_imm_a32 rt 0 Offset_a32) a = Inr (EmitARMInst (ldr_self_word rt) a)"
    by (simp add: ldr_a32_def ldr_cond_a32_def EncodeMemOperand_def MemOperand_imm_a32_def IsValid_a32_def no_reg_def Rn_a32_def
        Rt_a32_def cond_field_def kConditionShift_def ldr_self_word_def or.assoc or.left_commute or.commute)
  show "ldr_a32 pc_a32 (MemOperand_imm_a32 pc_a32 (-4) Offset_a32) a = Inr (EmitARMInst 0xE51FF004 a)"
    by (simp add: ldr_a32_def ldr_cond_a32_def EncodeMemOperand_def MemOperand_imm_a32_def IsValid_a32_def no_reg_def pc_a32_def Rn_a32_def
        Rt_a32_def cond_field_def kConditionShift_def)
qed

lemma Ldr_label_links: "\<not> is_bound (labels_heap a l) \<Longrightarrow> Ldr_label rt l a = Inr (link_label rt l a)"
  by (simp add: Ldr_label_def Ldr_a32_def ldr_a32_words link_label_def pc_offset_def kLdrLiteral_a32_def EmitARMInst_def)

lemma new_label_unbound: "new_label_a32 d a = (l, a1) \<Longrightarrow> \<not> is_bound (labels_heap a1 l)"
  by (auto simp: new_label_a32_def AppendRelocLabelEntry_a32_def Let_def is_bound_def new_RelocLabelEntry_a32_def)

text \<open>The effect of a block on the assembler.\<close>

primrec emit_block_a32 :: "block_a32 \<Rightarrow> TurboAssembler_a32 \<Rightarrow> TurboAssembler_a32" where
  "emit_block_a32 (Copied w) a = EmitARMInst w a"
| "emit_block_a32 (Loaded rt d vs) a = (let (l, a1) = new_label_a32 d a in fold EmitARMInst vs (link_label rt l a1))"

lemma fields_a32:
  "bits (w :: u32) 28 31 = drop_bit 28 w AND 0xF" "bits w 25 27 = drop_bit 25 w AND 7" "bits w 16 19 = drop_bit 16 w AND 0xF"
  "bits w 12 15 = drop_bit 12 w AND 0xF" "bits w 21 23 = drop_bit 21 w AND 7" "bits w 23 24 = drop_bit 23 w AND 3"
  "bits w 0 11 = w AND 0xFFF"
  by (simp_all add: bits_def submask_def mask_eq_exp_minus_1)

lemma bit_of_a32: "bit_of (w :: u32) n = drop_bit n w AND 1"
  by (simp add: bit_of_def)

lemma bit_of_a32_iff: "drop_bit n w AND 1 = (1 :: u32) \<longleftrightarrow> bit w n"
  by (simp add: bit_iff_odd_drop_bit odd_iff_mod_2_eq_one and_one_eq)

lemma loaded_fields:
  fixes w :: u32
  assumes "w AND 0xFF7F0000 = 0xE51F0000"
  shows "drop_bit 28 w AND 0xF = 14" "drop_bit 25 w AND 7 = 2" "drop_bit 24 w AND 1 = 1" "drop_bit 21 w AND 1 = 0"
    "drop_bit 20 w AND 1 = 1" "drop_bit 22 w AND 1 = 0" "drop_bit 16 w AND 0xF = 15"
  using field_known [OF assms, of 28 15] field_known [OF assms, of 25 7] field_known [OF assms, of 24 1] field_known [OF assms, of 21 1]
    field_known [OF assms, of 20 1] field_known [OF assms, of 22 1] field_known [OF assms, of 16 15] by simp_all

lemma adr_fields:
  fixes w :: u32
  shows "w AND 0xFFFF0F00 = 0xE28F0000 \<Longrightarrow> drop_bit 28 w AND 0xF = 14 \<and> drop_bit 25 w AND 7 = 1 \<and> drop_bit 25 w AND 1 = 1
      \<and> drop_bit 23 w AND 3 = 1 \<and> drop_bit 21 w AND 7 = 4 \<and> drop_bit 20 w AND 1 = 0 \<and> drop_bit 16 w AND 0xF = 15 \<and> w AND 0xFFF = w AND 0xFF"
    "w AND 0xFFFF0F00 = 0xE24F0000 \<Longrightarrow> drop_bit 28 w AND 0xF = 14 \<and> drop_bit 25 w AND 7 = 1 \<and> drop_bit 25 w AND 1 = 1
      \<and> drop_bit 23 w AND 3 = 0 \<and> drop_bit 21 w AND 7 = 2 \<and> drop_bit 20 w AND 1 = 0 \<and> drop_bit 16 w AND 0xF = 15 \<and> w AND 0xFFF = w AND 0xFF"
proof -
  have i: "w AND 0xFFF = w AND 0xFF" if "w AND 0xF00 = 0"
  proof -
    have "w AND 0xFFF = (w AND 0xF00) OR (w AND 0xFF)" by (simp add: bit.conj_disj_distrib [symmetric])
    then show ?thesis using that by simp
  qed
  {
    assume m: "w AND 0xFFFF0F00 = 0xE28F0000"
    show "drop_bit 28 w AND 0xF = 14 \<and> drop_bit 25 w AND 7 = 1 \<and> drop_bit 25 w AND 1 = 1
      \<and> drop_bit 23 w AND 3 = 1 \<and> drop_bit 21 w AND 7 = 4 \<and> drop_bit 20 w AND 1 = 0 \<and> drop_bit 16 w AND 0xF = 15 \<and> w AND 0xFFF = w AND 0xFF"
      using field_known [OF m, of 28 15] field_known [OF m, of 25 7] field_known [OF m, of 25 1] field_known [OF m, of 23 3]
        field_known [OF m, of 21 7] field_known [OF m, of 20 1] field_known [OF m, of 16 15] i mask_sub [OF m, of "0xF00"] by simp
  next
    assume m: "w AND 0xFFFF0F00 = 0xE24F0000"
    show "drop_bit 28 w AND 0xF = 14 \<and> drop_bit 25 w AND 7 = 1 \<and> drop_bit 25 w AND 1 = 1
      \<and> drop_bit 23 w AND 3 = 0 \<and> drop_bit 21 w AND 7 = 2 \<and> drop_bit 20 w AND 1 = 0 \<and> drop_bit 16 w AND 0xF = 15 \<and> w AND 0xFFF = w AND 0xFF"
      using field_known [OF m, of 28 15] field_known [OF m, of 25 7] field_known [OF m, of 25 1] field_known [OF m, of 23 3]
        field_known [OF m, of 21 7] field_known [OF m, of 20 1] field_known [OF m, of 16 15] i mask_sub [OF m, of "0xF00"] by simp
  }
qed

lemma copied_fields:
  assumes "copied_a32 w"
  shows "drop_bit 16 w AND 0xF \<noteq> 15" "\<not> (drop_bit 25 w AND 7 AND 6 = 4 \<and> drop_bit 25 w AND 1 = 1)"
proof -
  show "drop_bit 16 w AND 0xF \<noteq> 15" using assms by (auto simp: copied_a32_def fld_def)
  show "\<not> (drop_bit 25 w AND 7 AND 6 = 4 \<and> drop_bit 25 w AND 1 = 1)"
  proof
    assume a: "drop_bit 25 w AND 7 AND 6 = 4 \<and> drop_bit 25 w AND 1 = 1"
    have "drop_bit 25 w AND 7 = (drop_bit 25 w AND 6) OR (drop_bit 25 w AND 1)" by (simp add: bit.conj_disj_distrib [symmetric])
    then have 5: "drop_bit 25 w AND 7 = 5" using a by (simp add: and.assoc)
    have "w AND 0xE000000 = push_bit 25 (drop_bit 25 w AND 7)"
      using push_drop_field [of 25 w 7] by (simp add: drop_bit_and)
    then show False using assms by (simp add: 5 copied_a32_def)
  qed
qed

lemma one_block_a32:
  assumes "block_a32 pc w = Some b"
  shows "ARMRelocateSingleInstr w pc a = Inr (emit_block_a32 b a)"
proof -
  let ?K = "w AND 0xFF7F0000 = 0xE51F0000" and ?P = "w AND 0xFFFF0F00 = 0xE28F0000" and ?M = "w AND 0xFFFF0F00 = 0xE24F0000"
  consider (load) ?K "b = Loaded (fld 12 w) (if bit w 23 then pc + (w AND 0xFFF) else pc - (w AND 0xFFF)) [ldr_self_word (fld 12 w)]" "fld 12 w \<noteq> 15"
    | (plus) ?P "b = Loaded (fld 12 w) (pc + (w AND 0xFF)) []" | (minus) ?M "b = Loaded (fld 12 w) (pc - (w AND 0xFF)) []"
    | (copied) "copied_a32 w" "b = Copied w"
    using assms by (auto simp: block_a32_def split: if_splits)
  then show ?thesis
  proof cases
    case load
    then show ?thesis
      by (simp add: ARMRelocateSingleInstr_def Let_def fields_a32 bit_of_a32 loaded_fields arm_load_literal_def bit_of_a32_iff
          Ldr_label_links new_label_unbound ldr_a32_words pc_a32_def flip: fld_def split: prod.split)
  next
    case plus
    then show ?thesis
      by (simp add: ARMRelocateSingleInstr_def Let_def fields_a32 bit_of_a32 adr_fields(1) arm_adr_def
          Ldr_label_links new_label_unbound flip: fld_def split: prod.split)
  next
    case minus
    then show ?thesis
      by (simp add: ARMRelocateSingleInstr_def Let_def fields_a32 bit_of_a32 adr_fields(2) arm_adr_def
          Ldr_label_links new_label_unbound flip: fld_def split: prod.split)
  next
    case copied
    then show ?thesis
      using copied_fields [OF copied(1)] by (auto simp add: ARMRelocateSingleInstr_def Let_def fields_a32 bit_of_a32 and.assoc)
  qed
qed

section \<open>The loop\<close>

text \<open>
  The label of the block with number \<open>i\<close> among the loads is stored at \<open>i\<close>; \<open>ls\<close> has the place of its load, in words, and its data.
\<close>

fun loads_a32 :: "nat \<Rightarrow> block_a32 list \<Rightarrow> (nat \<times> u32) list" where
  "loads_a32 q [] = []"
| "loads_a32 q (Copied w # bs) = loads_a32 (q + 1) bs"
| "loads_a32 q (Loaded rt d vs # bs) = (q, d) # loads_a32 (q + 1 + length vs) bs"

definition raws_a32 :: "block_a32 list \<Rightarrow> u32 list" where
  "raws_a32 bs = concat (map raw_a32 bs)"

lemma raws_a32_simps [simp]: "raws_a32 [] = []" "raws_a32 (b # bs) = raw_a32 b @ raws_a32 bs"
  by (simp_all add: raws_a32_def)

definition label_at_a32 :: "RelocLabelEntry_a32 \<Rightarrow> nat \<times> u32 \<Rightarrow> bool" where
  "label_at_a32 lab x \<longleftrightarrow> arr_ok (pl_instructions lab) \<and> objects (pl_instructions lab) = [\<lparr>pli_position = 4 * fst x, pli_type = 0\<rparr>]
     \<and> rle_data lab = snd x \<and> is_unused lab"

definition labels_ok_a32 :: "TurboAssembler_a32 \<Rightarrow> (nat \<times> u32) list \<Rightarrow> bool" where
  "labels_ok_a32 a ls \<longleftrightarrow> (case label_list a of None \<Rightarrow> ls = [] | Some ar \<Rightarrow> arr_ok ar \<and> objects ar = [0..<length ls])
     \<and> (\<forall>i < length ls. label_at_a32 (labels_heap a i) (ls ! i))"

lemma more_EmitARMInst [simp]:
  "label_list (EmitARMInst w a) = label_list a" "labels_heap (EmitARMInst w a) = labels_heap a" "execute_state (EmitARMInst w a) = execute_state a"
  by (simp_all add: EmitARMInst_def)

lemma more_fold_EmitARMInst [simp]:
  "label_list (fold EmitARMInst ws a) = label_list a" "labels_heap (fold EmitARMInst ws a) = labels_heap a"
  by (induction ws arbitrary: a) simp_all

lemma labels_ok_EmitARMInst [simp]: "labels_ok_a32 (fold EmitARMInst ws a) ls = labels_ok_a32 a ls" "labels_ok_a32 (EmitARMInst w a) ls = labels_ok_a32 a ls"
  by (simp_all add: labels_ok_a32_def)

lemma same_buffer_facts:
  assumes "code_buffer a = code_buffer b"
  shows "asm_ok a = asm_ok b" "pc_offset a = pc_offset b" "emitted a = emitted b"
  using assms by (simp_all add: asm_ok_def pc_offset_def emitted_def)

lemma labels_ok_count: "labels_ok_a32 a ls \<Longrightarrow> (case label_list a of None \<Rightarrow> 0 | Some labels \<Rightarrow> getCount labels) = length ls"
  using length_objects by (fastforce simp: labels_ok_a32_def split: option.splits)

lemma loaded_emits:
  fixes d :: u32 and rt :: nat
  assumes "asm_ok a" "pc_offset a = 4 * q" "labels_ok_a32 a ls" "length ls < 2 ^ 29" "4 * (q + 1 + length vs) < 2 ^ 30"
  defines "b \<equiv> emit_block_a32 (Loaded rt d vs) a"
  shows "asm_ok b" "emitted b = emitted a @ words_a32 (lit_word rt 0 # vs)" "pc_offset b = 4 * (q + 1 + length vs)"
    "realized_address b = realized_address a" "labels_ok_a32 b (ls @ [(q, d)])"
proof -
  obtain l a1 where n: "new_label_a32 d a = (l, a1)" by (metis surj_pair)
  let ?ar = "case label_list a of None \<Rightarrow> arr_initWithCapacity 8 | Some ar \<Rightarrow> ar"
  have l: "l = length ls" using n labels_ok_count [OF assms(3)] by (simp add: new_label_a32_def Let_def split: option.splits)
  have ar: "arr_ok ?ar" "objects ?ar = [0..<length ls]" using assms(3) by (auto simp: labels_ok_a32_def split: option.splits)
  then have "getCount ?ar < 2 ^ 29" using assms(4) length_objects [OF ar(1)] by simp
  then obtain ar' where ar': "pushObject l ?ar = (True, ar')" "arr_ok ar'" "objects ar' = [0..<length ls] @ [l]"
    using pushObject_props [OF ar(1), of l] ar(2) by auto
  have a1: "code_buffer a1 = code_buffer a" "realized_address a1 = realized_address a" "label_list a1 = Some ar'"
      "labels_heap a1 = (labels_heap a)(l := new_RelocLabelEntry_a32 d)"
    using n ar'(1) by (auto simp: new_label_a32_def AppendRelocLabelEntry_a32_def Let_def split: option.splits)
  note s1 = same_buffer_facts [OF a1(1)]
  have b: "b = fold EmitARMInst vs (link_label rt l a1)" by (simp add: b_def n)
  let ?E = "EmitARMInst (lit_word rt 0) a1"
  have "pc_offset a1 + 4 < 2 ^ 30" "asm_ok a1" using assms(1,2,5) s1 by simp_all
  note E = emit_word_a32 [OF this(2,1), of "lit_word rt 0"]
  have cb: "code_buffer (link_label rt l a1) = code_buffer ?E" "realized_address (link_label rt l a1) = realized_address ?E"
    by (simp_all add: link_label_def)
  note s2 = same_buffer_facts [OF cb(1)]
  have w: "asm_ok b \<and> emitted b = emitted (link_label rt l a1) @ words_a32 vs \<and> pc_offset b = pc_offset (link_label rt l a1) + 4 * length vs
      \<and> realized_address b = realized_address (link_label rt l a1)"
    unfolding b by (rule emit_words_a32) (use assms(2,5) E s1 s2 in simp_all)
  show "asm_ok b" "emitted b = emitted a @ words_a32 (lit_word rt 0 # vs)" "pc_offset b = 4 * (q + 1 + length vs)"
    "realized_address b = realized_address a"
    using w E s1 s2 cb(2) a1(2) assms(2) by simp_all
  have h: "labels_heap b = (labels_heap a)(l := pl_link_to_a32 (4 * q) 0 (new_RelocLabelEntry_a32 d))" "label_list b = Some ar'"
    using a1 s1(2) assms(2) by (simp_all add: b link_label_def)
  let ?init = "arr_initWithCapacity 8 :: PseudoLabelInstruction_a32 LiteMutableArray"
  obtain ir where "pushObject \<lparr>pli_position = 4 * q, pli_type = 0\<rparr> ?init = (True, ir)" "arr_ok ir"
      "objects ir = [\<lparr>pli_position = 4 * q, pli_type = 0\<rparr>]"
    using pushObject_props [of ?init "\<lparr>pli_position = 4 * q, pli_type = 0\<rparr>"]
      arr_init_ok [of 8, where 'a = PseudoLabelInstruction_a32] by (auto simp: arr_initWithCapacity_def getCount_def)
  then have new: "label_at_a32 (labels_heap b l) (q, d)"
    by (simp add: h label_at_a32_def pl_link_to_a32_def new_RelocLabelEntry_a32_def is_unused_def)
  show "labels_ok_a32 b (ls @ [(q, d)])"
    using assms(3) new ar' by (auto simp: labels_ok_a32_def h l nth_append less_Suc_eq)
qed

lemma block_emits_a32:
  assumes "asm_ok a" "pc_offset a = 4 * q" "labels_ok_a32 a ls" "length ls < 2 ^ 29" "4 * (q + length (raw_a32 b)) < 2 ^ 30"
  shows "asm_ok (emit_block_a32 b a)" "emitted (emit_block_a32 b a) = emitted a @ words_a32 (raw_a32 b)"
    "pc_offset (emit_block_a32 b a) = 4 * (q + length (raw_a32 b))" "realized_address (emit_block_a32 b a) = realized_address a"
    "labels_ok_a32 (emit_block_a32 b a) (ls @ loads_a32 q [b])"
proof -
  have "asm_ok (emit_block_a32 b a) \<and> emitted (emit_block_a32 b a) = emitted a @ words_a32 (raw_a32 b)
    \<and> pc_offset (emit_block_a32 b a) = 4 * (q + length (raw_a32 b)) \<and> realized_address (emit_block_a32 b a) = realized_address a
    \<and> labels_ok_a32 (emit_block_a32 b a) (ls @ loads_a32 q [b])"
  proof (cases b)
    case (Copied w)
    have "pc_offset a + 4 < 2 ^ 30" using assms(2,5) Copied by simp
    then show ?thesis using emit_word_a32 [OF assms(1), of w] assms(2,3) Copied by simp
  next
    case (Loaded rt d vs)
    have "4 * (q + 1 + length vs) < 2 ^ 30" using assms(5) Loaded by simp
    then show ?thesis using loaded_emits [OF assms(1-4), of vs rt d] Loaded by (simp add: algebra_simps del: emit_block_a32.simps)
  qed
  then show "asm_ok (emit_block_a32 b a)" "emitted (emit_block_a32 b a) = emitted a @ words_a32 (raw_a32 b)"
    "pc_offset (emit_block_a32 b a) = 4 * (q + length (raw_a32 b))" "realized_address (emit_block_a32 b a) = realized_address a"
    "labels_ok_a32 (emit_block_a32 b a) (ls @ loads_a32 q [b])" by simp_all
qed

lemma loads_a32_Cons: "loads_a32 q (b # bs) = loads_a32 q [b] @ loads_a32 (q + length (raw_a32 b)) bs"
  by (cases b) (simp_all add: algebra_simps)

lemma gen_arm_relocate_code_blocks:
  assumes "blocks_a32 pc (map (\<lambda>j. ld (4 * j)) [i..<n]) = Some bs" "asm_ok a" "pc_offset a = 4 * q" "labels_ok_a32 a ls"
    "4 * (q + length (raws_a32 bs)) < 2 ^ 30" "length ls + n - i < 2 ^ 29" "i \<le> n"
  shows "\<exists>m a'. gen_arm_relocate_code ld (4 * n) relo_start (4 * i) pc rpc relo_map a = Inr (m, a') \<and> asm_ok a'
    \<and> emitted a' = emitted a @ words_a32 (raws_a32 bs) \<and> pc_offset a' = 4 * (q + length (raws_a32 bs))
    \<and> realized_address a' = realized_address a \<and> labels_ok_a32 a' (ls @ loads_a32 q bs)"
  using assms
proof (induction "n - i" arbitrary: i pc rpc a q ls bs relo_map)
  case 0
  then show ?case by (simp add: gen_arm_relocate_code.simps)
next
  case (Suc k)
  then have i: "i < n" by simp
  have up: "[i..<n] = i # [Suc i..<n]" using i by (simp add: upt_rec)
  obtain b cs where b: "block_a32 pc (ld (4 * i)) = Some b" "blocks_a32 (pc + 4) (map (\<lambda>j. ld (4 * j)) [Suc i..<n]) = Some cs" "bs = b # cs"
    using Suc.prems(1) by (auto simp: up split: option.splits)
  have step: "4 * Suc i = 4 * i + 4" by simp
  have small: "4 * (q + length (raw_a32 b)) < 2 ^ 30" "length ls < 2 ^ 29" using Suc.prems(5,6) i by (simp_all add: b(3))
  note e = block_emits_a32 [OF Suc.prems(2-4) small(2,1)]
  let ?a = "emit_block_a32 b a" and ?q = "q + length (raw_a32 b)" and ?ls = "ls @ loads_a32 q [b]"
  have ll: "length (loads_a32 q [b]) \<le> 1" by (cases b) simp_all
  let ?entry = "\<lparr>orig_instr = pc - 8, relocated_instr = rpc - 8, relocated_code_len = pc_offset ?a - pc_offset a\<rparr>"
  have "\<exists>m a'. gen_arm_relocate_code ld (4 * n) relo_start (4 * Suc i) (pc + 4) (relo_start + 8 + of_nat (pc_offset ?a)) (relo_map @ [?entry]) ?a = Inr (m, a') \<and> asm_ok a'
    \<and> emitted a' = emitted ?a @ words_a32 (raws_a32 cs) \<and> pc_offset a' = 4 * (?q + length (raws_a32 cs))
    \<and> realized_address a' = realized_address ?a \<and> labels_ok_a32 a' (?ls @ loads_a32 ?q cs)"
    by (rule Suc.hyps(1)) (use Suc.hyps(2) Suc.prems(5,6) e b(2,3) i ll in auto)
  moreover have "gen_arm_relocate_code ld (4 * n) relo_start (4 * i) pc rpc relo_map a =
      gen_arm_relocate_code ld (4 * n) relo_start (4 * Suc i) (pc + 4) (relo_start + 8 + of_nat (pc_offset ?a)) (relo_map @ [?entry]) ?a"
    using i unfolding step by (simp add: gen_arm_relocate_code.simps [of _ _ _ "4 * i"] one_block_a32 [OF b(1)])
  ultimately show ?case
    using e(2,4) loads_a32_Cons [of q b cs] by (simp add: b(3) add.assoc)
qed

section \<open>Binding the labels\<close>

fun bind_words :: "(nat \<times> u32) list \<Rightarrow> u32 list \<Rightarrow> u32 list" where
  "bind_words [] W = W"
| "bind_words ((q, d) # js) W = bind_words js (W[q := fix_ldr_a32 (W ! q) (4 * int (length W) - 4 * int q)] @ [d])"

lemma peek_words: "q < length W \<Longrightarrow> peek (4 * q) 4 (words_a32 W) = le_bytes 4 (W ! q)"
proof (induction W arbitrary: q)
  case (Cons w W)
  show ?case
  proof (cases q)
    case (Suc k)
    then show ?thesis using Cons.IH [of k] Cons.prems by (simp add: peek_def)
  qed (simp add: peek_def)
qed simp

lemma poke_words: "q < length W \<Longrightarrow> poke (4 * q) (le_bytes 4 v) (words_a32 W) = words_a32 (W[q := v])"
proof (induction W arbitrary: q)
  case (Cons w W)
  show ?case
  proof (cases q)
    case (Suc k)
    then show ?thesis using Cons.IH [of k] Cons.prems by (simp add: poke_def add.commute)
  qed (simp add: poke_def)
qed simp

lemma PseudoBind_a32_word:
  assumes "asm_ok a" "emitted a = words_a32 W" "label_at_a32 lab (q, d)" "q < length W"
  shows "\<exists>a'. PseudoBind_a32 lab a = Inr (bind_to (4 * int (length W)) lab, a') \<and> asm_ok a' \<and> realized_address a' = realized_address a
    \<and> AssemblerBase.more a' = AssemblerBase.more a
    \<and> emitted a' = words_a32 (W[q := fix_ldr_a32 (W ! q) (4 * int (length W) - 4 * int q)])"
proof -
  let ?v = "fix_ldr_a32 (W ! q) (4 * int (length W) - 4 * int q)" and ?l = "bind_to (4 * int (length W)) lab"
  have sz: "getSize (code_buffer a) = 4 * length W" using length_emitted [OF assms(1)] assms(2) by (simp add: pc_offset_def)
  have l: "arr_ok (pl_instructions lab)" "objects (pl_instructions lab) = [\<lparr>pli_position = 4 * q, pli_type = 0\<rparr>]" "is_unused lab"
    using assms(3) by (simp_all add: label_at_a32_def)
  then have c: "getCount (pl_instructions lab) = 1" using length_objects [OF l(1)] by simp
  have o: "getObject 0 (pl_instructions lab) = Inr \<lparr>pli_position = 4 * q, pli_type = 0\<rparr>" using getObject_inside [OF l(1), of 0] l(2) c by simp
  have inside: "4 * q + 4 \<le> length (emitted a)" using assms(2,4) by simp
  have ld: "LoadARMInst (4 * q) (code_buffer a) = Inr (W ! q)"
    using asm.load_inside [OF assms(1) inside] peek_words [OF assms(4)] assms(2) by (simp add: LoadARMInst_def asm_load_def)
  obtain a' where a': "asm_patch (4 * q) (le_bytes 4 ?v) a = Inr a'" "asm_ok a'" "emitted a' = poke (4 * q) (le_bytes 4 ?v) (emitted a)"
    using asm.patch_inside [OF assms(1), of "4 * q" "le_bytes 4 ?v"] inside by auto
  then obtain b where b: "patch_bytes (4 * q) (le_bytes 4 ?v) (code_buffer a) = Inr b" "a' = a\<lparr>code_buffer := b\<rparr>"
    by (cases "patch_bytes (4 * q) (le_bytes 4 ?v) (code_buffer a)") (auto simp: asm_patch_def)
  have p: "pos ?l = 4 * int (length W)" by (simp add: pos_def bind_to_def)
  have "PseudoBind_a32 lab a = Inr (?l, a')"
    using l(3) c o ld b p
    by (simp add: PseudoBind_a32_def sz has_confused_instructions_a32_def link_confused_instructions_a32_def bind_to_def
        RewriteARMInst_def kLdrLiteral_a32_def pos_def)
  then show ?thesis using a' b(2) poke_words [OF assms(4)] assms(2) by simp
qed

text \<open>The labels of the list from number \<open>i\<close> on are bound; the words behind the code are their data.\<close>

lemma RelocBind_loop_a32_binds:
  assumes "arr_ok ar" "objects ar = [0..<length ls]" "i \<le> length ls"
    and "asm_ok a" "emitted a = words_a32 W" "\<forall>j. i \<le> j \<and> j < length ls \<longrightarrow> label_at_a32 (labels_heap a j) (ls ! j)"
    and "\<forall>x \<in> set ls. fst x < length W" "4 * (length W + length ls - i) < 2 ^ 30"
  shows "\<exists>a'. RelocBind_loop_a32 [i..<length ls] ar a = Inr a' \<and> asm_ok a' \<and> emitted a' = words_a32 (bind_words (drop i ls) W)
    \<and> realized_address a' = realized_address a \<and> label_list a' = label_list a
    \<and> (\<forall>j. rle_data (labels_heap a' j) = rle_data (labels_heap a j))"
  using assms(3-8)
proof (induction "length ls - i" arbitrary: i a W)
  case 0
  then show ?case by simp
next
  case (Suc n)
  then have i: "i < length ls" by simp
  obtain q d where x: "ls ! i = (q, d)" by (metis surj_pair)
  have dr: "drop i ls = (q, d) # drop (Suc i) ls" using i x by (metis Cons_nth_drop_Suc)
  have up: "[i..<length ls] = i # [Suc i..<length ls]" using i by (simp add: upt_rec)
  have ob: "getObject i ar = Inr i"
    using getObject_inside [OF assms(1), of i] assms(2) length_objects [OF assms(1)] i by simp
  have "ls ! i \<in> set ls" using i by simp
  then have la: "label_at_a32 (labels_heap a i) (q, d)" "q < length W" using Suc.prems(4,5) i x by force+
  let ?lab = "bind_to (4 * int (length W)) (labels_heap a i)"
    and ?W = "W[q := fix_ldr_a32 (W ! q) (4 * int (length W) - 4 * int q)]"
  obtain a1 where a1: "PseudoBind_a32 (labels_heap a i) a = Inr (?lab, a1)" "asm_ok a1" "realized_address a1 = realized_address a"
      "AssemblerBase.more a1 = AssemblerBase.more a" "emitted a1 = words_a32 ?W"
    using PseudoBind_a32_word [OF Suc.prems(2,3) la] by blast
  have m: "labels_heap a1 = labels_heap a" "label_list a1 = label_list a" using a1(4) by (cases a1; cases a; simp)+
  have rd: "rle_data ?lab = d" "rle_data (labels_heap a i) = d" using la(1) by (simp_all add: label_at_a32_def bind_to_def)
  let ?a2 = "a1\<lparr>labels_heap := (labels_heap a1)(i := ?lab)\<rparr>"
  let ?b = "EmitAddress d ?a2"
  note s2 = same_buffer_facts [of ?a2 a1, simplified]
  have pc: "pc_offset a1 = 4 * length W" using length_emitted [OF a1(2)] a1(5) by simp
  have small: "pc_offset ?a2 + 4 < 2 ^ 30" "asm_ok ?a2" using s2 pc a1(2) Suc.prems(6) i by simp_all
  have b: "asm_ok ?b" "emitted ?b = words_a32 (?W @ [d])" "realized_address ?b = realized_address a"
    using emit_word_a32 [OF small(2,1), of d] s2 a1(3,5) by (simp_all add: EmitAddress_EmitARMInst)
  have hb: "labels_heap ?b = (labels_heap a)(i := ?lab)" "label_list ?b = label_list a" using m by (simp_all add: EmitAddress_EmitARMInst)
  have "\<exists>a'. RelocBind_loop_a32 [Suc i..<length ls] ar ?b = Inr a' \<and> asm_ok a' \<and> emitted a' = words_a32 (bind_words (drop (Suc i) ls) (?W @ [d]))
    \<and> realized_address a' = realized_address ?b \<and> label_list a' = label_list ?b
    \<and> (\<forall>j. rle_data (labels_heap a' j) = rle_data (labels_heap ?b j))"
    by (rule Suc.hyps(1)) (use Suc.hyps(2) Suc.prems(4-6) i b hb in \<open>auto intro: less_SucI\<close>)
  moreover have "RelocBind_loop_a32 [i..<length ls] ar a = RelocBind_loop_a32 [Suc i..<length ls] ar ?b"
    unfolding up using ob a1(1) rd by simp
  ultimately show ?case using b(3) dr hb rd by auto
qed

text \<open>
  The words of the blocks once the labels are bound: \<open>S\<close> is the place of the slot of the next label and \<open>p\<close> that of the next block.
\<close>

fun bound_a32 :: "nat \<Rightarrow> nat \<Rightarrow> block_a32 list \<Rightarrow> u32 list" where
  "bound_a32 S p [] = []"
| "bound_a32 S p (Copied w # bs) = w # bound_a32 S (p + 1) bs"
| "bound_a32 S p (Loaded rt d vs # bs) = lit_word rt (of_nat (4 * (S - p) - 8)) # vs @ bound_a32 (S + 1) (p + 1 + length vs) bs"

primrec targets_a32 :: "block_a32 list \<Rightarrow> u32 list" where
  "targets_a32 [] = []"
| "targets_a32 (b # bs) = (case b of Copied _ \<Rightarrow> [] | Loaded _ d _ \<Rightarrow> [d]) @ targets_a32 bs"

lemma length_bound_a32 [simp]: "length (bound_a32 S p bs) = length (raws_a32 bs)"
  by (induction S p bs rule: bound_a32.induct) simp_all

lemma targets_loads: "map snd (loads_a32 q bs) = targets_a32 bs"
  by (induction q bs rule: loads_a32.induct) simp_all

lemma length_loads_a32: "length (loads_a32 q bs) = length (targets_a32 bs)"
  by (metis length_map targets_loads)

lemma length_targets_a32: "length (targets_a32 bs) \<le> length bs"
  by (induction bs) (auto split: block_a32.split)

lemma loads_inside: "x \<in> set (loads_a32 q bs) \<Longrightarrow> fst x < q + length (raws_a32 bs)"
  by (induction q bs rule: loads_a32.induct) force+

lemma fix_lit_word:
  assumes "p + 2 \<le> S"
  shows "fix_ldr_a32 (lit_word rt 0) (4 * int S - 4 * int p) = lit_word rt (of_nat (4 * (S - p) - 8))"
proof -
  have k: "4 * int S - 4 * int p = int (4 * (S - p) - 8) + 8" using assms by (simp add: of_nat_diff)
  have m: "0xfffff000 = (NOT (mask 12) :: u32)" by (simp add: mask_eq_exp_minus_1)
  have "push_bit 12 x AND 0xfffff000 = push_bit 12 x" for x :: u32
    unfolding m by (rule bit_word_eqI) (auto simp: bit_simps)
  then have "lit_word rt 0 AND 0xfffff000 = lit_word rt 0" by (simp add: lit_word_def bit.conj_disj_distrib2)
  moreover have "of_int (int (4 * (S - p) - 8) + 8) - 8 = (of_nat (4 * (S - p) - 8) :: u32)" by (simp only: of_int_add of_int_of_nat_eq of_int_numeral add_diff_cancel_right')
  ultimately show ?thesis unfolding fix_ldr_a32_def k by (simp only: lit_word_def or.right_neutral or.assoc)
qed

lemma bind_words_blocks:
  assumes "S = length (ps @ raws_a32 bs @ tail)" "2 \<le> length tail"
  shows "bind_words (loads_a32 (length ps) bs) (ps @ raws_a32 bs @ tail) = ps @ bound_a32 S (length ps) bs @ tail @ targets_a32 bs"
  using assms
proof (induction "length ps" bs arbitrary: ps tail S rule: loads_a32.induct)
  case 1
  then show ?case by simp
next
  case (2 w bs)
  show ?case using 2(1) [of "ps @ [w]" S tail] 2(2,3) by simp
next
  case (3 rt d vs bs)
  let ?w = "lit_word rt (of_nat (4 * (S - length ps) - 8))"
  have "length ps + 2 \<le> S" using 3(2,3) by simp
  note f = fix_lit_word [OF this, of rt]
  have u: "(ps @ raws_a32 (Loaded rt d vs # bs) @ tail)[length ps := ?w] = (ps @ ?w # vs) @ raws_a32 bs @ tail" by simp
  have "bind_words (loads_a32 (length (ps @ ?w # vs)) bs) ((ps @ ?w # vs) @ raws_a32 bs @ (tail @ [d])) =
      (ps @ ?w # vs) @ bound_a32 (S + 1) (length (ps @ ?w # vs)) bs @ (tail @ [d]) @ targets_a32 bs"
    by (rule 3(1)) (use 3(2,3) in auto)
  then show ?case using f u 3(2) by (simp add: algebra_simps)
qed

section \<open>The relocated code\<close>

definition code_a32 :: "u32 \<Rightarrow> nat \<Rightarrow> block_a32 list \<Rightarrow> u32 list" where
  "code_a32 A n bs = bound_a32 (length (raws_a32 bs) + 2) 0 bs @ [0xE51FF004, A + of_nat (4 * n)] @ targets_a32 bs"

lemma length_code_a32 [simp]: "length (code_a32 A n bs) = length (raws_a32 bs) + 2 + length (targets_a32 bs)"
  by (simp add: code_a32_def)

lemma new_assembler_a32:
  "asm_ok (new_TurboAssembler_a32 (new_CodeBuffer_a32 junk) x)" "emitted (new_TurboAssembler_a32 (new_CodeBuffer_a32 junk) x) = []"
  "pc_offset (new_TurboAssembler_a32 (new_CodeBuffer_a32 junk) x) = 0" "label_list (new_TurboAssembler_a32 b x) = None"
  "labels_ok_a32 (new_TurboAssembler_a32 b x) []" "realized_address (new_TurboAssembler_a32 b x) = ucast x"
  by (simp_all add: new_TurboAssembler_a32_def new_CodeBuffer_a32_def asm_ok_def emitted_def pc_offset_def initWithCapacity_def buf_ok_def
      contents_def getSize_def labels_ok_a32_def)

lemma relocation_a32_emits:
  assumes "blocks_a32 (A + 8) (map (\<lambda>j. ld (4 * j)) [0..<n]) = Some bs" "4 * (length (raws_a32 bs) + 2 + length bs) < 2 ^ 30" "n < 2 ^ 29"
  shows "\<exists>m a a1 a2. gen_arm_relocate_code ld (4 * n) relo_start 0 (A + 8) rpc [] (new_TurboAssembler_a32 (new_CodeBuffer_a32 junk) 0) = Inr (m, a)
    \<and> LiteralLdrBranch_a32 (A + of_nat (4 * n)) a = Inr a1 \<and> RelocBind_a32 a1 = Inr a2
    \<and> asm_ok a2 \<and> emitted a2 = words_a32 (code_a32 A n bs) \<and> labels_ok_a32 a (loads_a32 0 bs)
    \<and> label_list a2 = label_list a \<and> (\<forall>j. rle_data (labels_heap a2 j) = rle_data (labels_heap a j))"
proof -
  let ?a0 = "new_TurboAssembler_a32 (new_CodeBuffer_a32 junk) 0"
  obtain m a where a: "gen_arm_relocate_code ld (4 * n) relo_start (4 * 0) (A + 8) rpc [] ?a0 = Inr (m, a)" "asm_ok a"
      "emitted a = words_a32 (raws_a32 bs)" "pc_offset a = 4 * length (raws_a32 bs)" "labels_ok_a32 a (loads_a32 0 bs)"
    using gen_arm_relocate_code_blocks [OF assms(1), of ?a0 0 "[]" relo_start rpc "[]"] assms(2,3) by (auto simp: new_assembler_a32)
  let ?W = "raws_a32 bs @ [0xE51FF004, A + of_nat (4 * n)]"
  let ?a1 = "fold EmitARMInst [0xE51FF004, A + of_nat (4 * n)] a"
  have "LiteralLdrBranch_a32 (A + of_nat (4 * n)) a = Inr ?a1" by (simp add: LiteralLdrBranch_a32_def ldr_a32_words EmitAddress_EmitARMInst)
  moreover have a1: "asm_ok ?a1" "emitted ?a1 = words_a32 ?W"
    using emit_words_a32 [OF a(2), of "[0xE51FF004, A + of_nat (4 * n)]"] a(3,4) assms(2) by simp_all
  have m1: "labels_heap ?a1 = labels_heap a" "label_list ?a1 = label_list a" by (rule more_fold_EmitARMInst)+
  have binds: "bind_words (loads_a32 0 bs) ?W = code_a32 A n bs"
    using bind_words_blocks [of _ "[]" bs "[0xE51FF004, A + of_nat (4 * n)]"] by (simp add: code_a32_def)
  have "\<exists>a2. RelocBind_a32 ?a1 = Inr a2 \<and> asm_ok a2 \<and> emitted a2 = words_a32 (code_a32 A n bs)
    \<and> label_list a2 = label_list a \<and> (\<forall>j. rle_data (labels_heap a2 j) = rle_data (labels_heap a j))"
  proof (cases "label_list a")
    case None
    then have "loads_a32 0 bs = []" using a(5) by (simp add: labels_ok_a32_def)
    then have "?W = code_a32 A n bs" using binds by simp
    then show ?thesis using None a1 m1 by (simp add: RelocBind_a32_def del: fold.simps words_a32_simps)
  next
    case (Some ar)
    let ?ls = "loads_a32 0 bs"
    have ar: "arr_ok ar" "objects ar = [0..<length ?ls]" using a(5) Some by (simp_all add: labels_ok_a32_def)
    have at: "\<forall>j. 0 \<le> j \<and> j < length ?ls \<longrightarrow> label_at_a32 (labels_heap ?a1 j) (?ls ! j)" using a(5) m1 by (simp add: labels_ok_a32_def)
    have ins: "\<forall>x \<in> set ?ls. fst x < length ?W" using loads_inside [of _ 0 bs] by fastforce
    have "4 * (length ?W + length ?ls - 0) < 2 ^ 30" using assms(2) length_targets_a32 [of bs] by (simp add: length_loads_a32)
    then have "\<exists>a2. RelocBind_loop_a32 [0..<length ?ls] ar ?a1 = Inr a2 \<and> asm_ok a2 \<and> emitted a2 = words_a32 (bind_words (drop 0 ?ls) ?W)
      \<and> realized_address a2 = realized_address ?a1 \<and> label_list a2 = label_list ?a1
      \<and> (\<forall>j. rle_data (labels_heap a2 j) = rle_data (labels_heap ?a1 j))"
      by (intro RelocBind_loop_a32_binds [OF ar le0 a1 at ins])
    moreover have "getCount ar = length ?ls" using ar length_objects [OF ar(1)] by simp
    ultimately show ?thesis using Some m1 binds by (auto simp: RelocBind_a32_def simp del: fold.simps)
  qed
  ultimately show ?thesis using a(1,5) by auto
qed

text \<open>No label points into the prologue: the fix-up changes nothing.\<close>

lemma fixup_loop_outside:
  assumes "arr_ok labels" "\<forall>i \<in> set is. i < getCount labels \<and> \<not> (start \<le> rle_data (labels_heap a (objects labels ! i)) \<and> rle_data (labels_heap a (objects labels ! i)) < end_addr)"
  shows "fixup_loop start end_addr relo_map is labels a = Inr a"
  using assms(2)
proof (induction "is")
  case (Cons i "is")
  then show ?case using getObject_inside [OF assms(1), of i] by (auto simp: Let_def)
qed simp

lemma fixup_labels_outside:
  assumes "labels_ok_a32 a ls" "\<forall>x \<in> set ls. \<not> (start \<le> snd x \<and> snd x < end_addr)"
    "label_list b = label_list a" "\<forall>j. rle_data (labels_heap b j) = rle_data (labels_heap a j)"
  shows "fixup_labels start end_addr relo_map b = Inr b"
proof (cases "label_list a")
  case None
  then show ?thesis using assms(3) by (simp add: fixup_labels_def)
next
  case (Some ar)
  have ar: "arr_ok ar" "objects ar = [0..<length ls]" using assms(1) Some by (simp_all add: labels_ok_a32_def)
  then have c: "getCount ar = length ls" using length_objects [OF ar(1)] by simp
  have d: "rle_data (labels_heap b i) = snd (ls ! i)" if "i < length ls" for i
    using assms(1,4) that by (simp add: labels_ok_a32_def label_at_a32_def)
  have "fixup_loop start end_addr relo_map [0..<getCount ar] ar b = Inr b"
    by (rule fixup_loop_outside [OF ar(1)]) (use assms(2) c d ar(2) in auto)
  then show ?thesis using Some assms(3) by (simp add: fixup_labels_def)
qed

lemma fixup_labels_None: "label_list a = None \<Longrightarrow> fixup_labels start end_addr relo_map a = Inr a"
  by (simp add: fixup_labels_def)

lemma Commit_a32_more:
  "label_list (CommitRealizeAddress x a) = label_list a" "code_buffer (CommitRealizeAddress x a) = code_buffer a"
  "(CommitRealizeAddress x a)\<lparr>code_buffer := code_buffer a\<rparr> = CommitRealizeAddress x a"
  by (cases a; simp add: CommitRealizeAddress_def)+

lemma aligned_mod: "A AND 3 = 0 \<Longrightarrow> A mod 4 = 0 \<and> A mod 2 = 0" for A :: u32
  using aligned_bits(1) [of A] and_3 [of A] by (simp add: take_bit_eq_mod and_one_eq)

lemma GenRelocateCode_a32_installs:
  fixes T :: u32
  assumes "A AND 3 = 0" "blocks_a32 (A + 8) (map (\<lambda>j. ld (4 * j)) [0..<n]) = Some bs"
    "4 * (length (raws_a32 bs) + 2 + length bs) < 2 ^ 30" "n < 2 ^ 29"
    "\<forall>d \<in> set (targets_a32 bs). \<not> (A \<le> d \<and> d < A + of_nat (4 * n))"
  defines "code \<equiv> words_a32 (code_a32 A n bs)"
  assumes "AllocateCodeChunk os_alloc (2 ^ k) (length code) arena = (Some chunk, arena')" "mr_address chunk = ucast T" "T \<noteq> 0" "T AND 3 = 0"
    "k < 63" "unat (ucast T - ALIGN_FLOOR (ucast T) (2 ^ k) :: u64) + length code \<le> 2 ^ k"
  shows "\<exists>e'. GenRelocateCode_a32 junk os_alloc (2 ^ k) ld A (4 * n) relo_start arena e = Inr (FinalizeFromAddress (ucast T) (length code), arena', e')
    \<and> e_mem e' = (\<lambda>a. if unat (a - ucast T) < length code then code ! unat (a - ucast T) else e_mem e a)"
proof -
  obtain m a a1 a2 where g: "gen_arm_relocate_code ld (4 * n) relo_start 0 (A + 8) (relo_start + 8) [] (new_TurboAssembler_a32 (new_CodeBuffer_a32 junk) 0) = Inr (m, a)"
      "LiteralLdrBranch_a32 (A + of_nat (4 * n)) a = Inr a1" "RelocBind_a32 a1 = Inr a2" "asm_ok a2" "emitted a2 = code"
      "labels_ok_a32 a (loads_a32 0 bs)" "label_list a2 = label_list a" "\<forall>j. rle_data (labels_heap a2 j) = rle_data (labels_heap a j)"
    using relocation_a32_emits [OF assms(2-4), of relo_start "relo_start + 8" junk] unfolding code_def by blast
  have al: "A mod 2 = 0" "T mod 4 = 0" using aligned_mod [OF assms(1)] aligned_mod [OF assms(10)] by simp_all
  have c: "contents (code_buffer a2) = code" "getSize (code_buffer a2) = length code" "pc_offset a2 = length code"
    using g(4,5) length_contents [of "code_buffer a2"] by (simp_all add: emitted_def asm_ok_def pc_offset_def)
  obtain e' where e': "CodePatch (2 ^ k) (ucast T) code e = Inr e'"
      "e_mem e' = (\<lambda>a. if unat (a - ucast T) < length code then code ! unat (a - ucast T) else e_mem e a)"
    using CodePatch_in_page [OF assms(12,11), of e] by blast
  let ?a3 = "CommitRealizeAddress (ucast T) a2"
  have a3: "label_list ?a3 = label_list a" "\<forall>j. rle_data (labels_heap ?a3 j) = rle_data (labels_heap a j)" "code_buffer ?a3 = code_buffer a2"
    "realized_address ?a3 = ucast T"
    using g(7,8) by (simp_all add: CommitRealizeAddress_def)
  have out: "\<forall>x \<in> set (loads_a32 0 bs). \<not> (A \<le> snd x \<and> snd x < A + of_nat (4 * n))"
    using assms(5) by (metis targets_loads image_eqI set_map)
  have fix_up: "fixup_labels A (A + of_nat (4 * n)) m ?a3 = Inr ?a3" by (rule fixup_labels_outside [OF g(6) out a3(1,2)])
  have T: "ucast (ucast T :: u64) = T" by (rule bit_word_eqI) (auto simp: bit_simps)
  then have T0: "ucast T \<noteq> (0 :: u64)" using assms(9) by (metis unsigned_0)
  have fin: "FinalizeFromTurboAssember 4 os_alloc (2 ^ k) ?a3 arena' e = Inr (FinalizeFromAddress (ucast T) (length code), ?a3, arena', e')"
    using e'(1) c a3 T0 by (simp add: FinalizeFromTurboAssember_def)
  have same: "same_buffer (b\<lparr>code_buffer := x\<rparr>) b' = b'\<lparr>code_buffer := x\<rparr>" for b b' :: TurboAssembler_a32 and x by (simp add: same_buffer_def)
  show ?thesis
    using fin e'(2) g(1-3) al fix_up assms(7,8) c a3 T
    by (simp add: GenRelocateCode_a32_def relocate_code_def relocate_arm_chunk_def Let_def new_assembler_a32 emit_rest_def bind_labels_def
        RelocBind_thumb_def same_buffer_def new_ThumbTurboAssembler_def CommitRealizeAddress_a32_def reloc_label_fixup_def
        fixup_labels_None Commit_a32_more)
qed

end
