(* ===== verification/Relocate_Arm32_Exec.thy ===== *)
theory Relocate_Arm32_Exec
  imports Relocate_Arm32_Layout
begin

text \<open>
  What the code does that Dobby's ARM back end generates, against the instruction semantics of \<open>Arm_Isa\<close>: the relocated prologue, the
  trampolines in both states, a relocated branch, and the closure bridge.
\<close>

unbundle bit_operations_syntax

section \<open>Code in memory\<close>

lemma code32_at_bytes:
  assumes "\<forall>i < 4 * length ws. m (T + of_nat i) = words_a32 ws ! i"
  shows "code32_at m T ws"
  using assms
proof (induction ws arbitrary: T)
  case (Cons w ws)
  have b: "m (T + of_nat i) = le_bytes 4 w ! i" if "i < 4" for i
    using Cons.prems that by (force simp: nth_append)
  have "map (\<lambda>i. m (T + of_nat i)) [0..<4] = le_bytes 4 w"
    by (rule nth_equalityI) (use b in simp_all)
  then have "[m T, m (T + 1), m (T + 2), m (T + 3)] = le_bytes 4 w" by (simp add: upt_rec)
  then have "load32 m T = le_word (le_bytes 4 w)" by (simp only: load32_bytes)
  then have "load32 m T = w" by simp
  moreover have "code32_at m (T + 4) ws"
  proof (rule Cons.IH, intro allI impI)
    fix i assume "i < 4 * length ws"
    then show "m (T + 4 + of_nat i) = words_a32 ws ! i"
      using spec [OF Cons.prems, of "4 + i"] by (simp add: nth_append add.assoc)
  qed
  ultimately show ?case by simp
qed simp

section \<open>Steps of a block\<close>

lemma small_offset:
  fixes off :: u32
  assumes "off < 0x1000"
  shows "off AND 0xFFF = off"
proof -
  have "unat off < 2 ^ 12" using assms by (simp add: word_less_nat_alt)
  then have "off AND mask 12 = off" by (simp add: take_bit_eq_mask [symmetric] word_unat_eq_iff unsigned_take_bit_eq take_bit_nat_eq_self)
  then show ?thesis by (simp add: mask_eq_exp_minus_1)
qed

lemma lit_word_fields:
  assumes "rt < 16" "off < 0x1000"
  shows "fld 12 (lit_word rt off) = rt" "lit_word rt off AND 0xFFFF0000 = 0xE59F0000" "lit_word rt off AND 0xFFF = off"
proof -
  note o = small_offset [OF assms(2)]
  have z: "off AND k = off AND (0xFFF AND k)" for k using o by (metis and.assoc)
  have k: "(0xE59F0000 OR off) AND 0xFFFF0FFF = 0xE59F0000 OR off"
    using z [of "0xFFFF0FFF"] o by (simp add: bit.conj_disj_distrib2)
  have w: "lit_word rt off = (0xE59F0000 OR off) OR push_bit 12 (of_nat rt)" by (simp add: lit_word_def or.assoc or.commute or.left_commute)
  show "fld 12 (lit_word rt off) = rt" unfolding w by (rule reg_at_12 [OF k assms(1)])
  have m: "lit_word rt off AND 0xFFFF0FFF = 0xE59F0000 OR off" unfolding w by (rule reg_at_12 [OF k assms(1)])
  show "lit_word rt off AND 0xFFF = off" using mask_sub [OF m, of "0xFFF"] o by (simp add: bit.conj_disj_distrib2)
  show "lit_word rt off AND 0xFFFF0000 = 0xE59F0000" using mask_sub [OF m, of "0xFFFF0000"] z [of "0xFFFF0000"] by (simp add: bit.conj_disj_distrib2)
qed

lemma step_lit:
  assumes "\<not> Thumb s" "load32 (mem s) (PC s) = lit_word rt off" "rt < 16" "off < 0x1000"
  shows "cpu_step s = write_reg rt (load32 (mem s) (PC s + 8 + off)) (PC s + 4) s"
proof -
  note f = lit_word_fields [OF assms(3,4)]
  show ?thesis
    using assms(1,2) f(1,3)
    by (simp add: isa_simps cond_masked fld_masked [of 16] mask_sub [OF f(2)] mask_neq [OF f(2)])
qed

lemma self_masks:
  fixes w :: u32
  assumes "w < 16"
  shows "(0xE5900000 OR push_bit 16 w OR push_bit 12 w) AND 0xFFF00FFF = 0xE5900000"
    "(0xE5900000 OR push_bit 16 w OR push_bit 12 w) AND 0xF0000 = push_bit 16 w"
    "(0xE5900000 OR push_bit 16 w OR push_bit 12 w) AND 0xF000 = push_bit 12 w"
  using less16_cases [OF assms] by (elim insertE; simp)+

lemma step_self:
  assumes "\<not> Thumb s" "load32 (mem s) (PC s) = ldr_self_word rt" "rt < 15"
  shows "cpu_step s = Some (s\<lparr>R := (R s)(rt := load32 (mem s) (R s rt)), PC := PC s + 4\<rparr>)"
proof -
  have r: "rt < 16" using assms(3) by simp
  note n = nibble_masks(7,8) [OF nat_nibble(1) [OF r]] nat_nibble(2) [OF r]
  note m = self_masks [OF nat_nibble(1) [OF r]]
  have v: "ldr_self_word rt = 0xE5900000 OR push_bit 16 (of_nat rt) OR push_bit 12 (of_nat rt)"
    by (simp only: ldr_self_word_def or.assoc)
  have f: "ldr_self_word rt AND 0xFFF00FFF = 0xE5900000" "fld 16 (ldr_self_word rt) = rt" "fld 12 (ldr_self_word rt) = rt"
    using m n by (simp_all add: v fld_masked)
  show ?thesis using assms f(2,3) by (simp add: isa_simps cond_masked write_reg_def mask_sub [OF f(1)] mask_neq [OF f(1)])
qed

section \<open>The relocated prologue\<close>

text \<open>
  The specification: the instructions of the prologue executed one after the other at their own addresses.  Instructions that write
  the PC are left out.
\<close>

fun in_place :: "u32 \<Rightarrow> u32 list \<Rightarrow> arm_state \<Rightarrow> arm_state option" where
  "in_place A [] s = Some s"
| "in_place A (w # ws) s = (case arm_exec w (A + 4) s of None \<Rightarrow> None | Some t \<Rightarrow> in_place (A + 4) ws t)"

definition writes_pc :: "u32 \<Rightarrow> bool" where
  "writes_pc w \<longleftrightarrow> fld 12 w = 15 \<or> w AND 0xFFFFFF0 = 0x12FFF10"

lemma copied_a32_exec:
  assumes "copied_a32 w" "\<not> writes_pc w"
  shows "arm_exec w nxt (s\<lparr>PC := T\<rparr>) = map_option (\<lambda>t. t\<lparr>PC := nxt\<rparr>) (arm_exec w nxt' (s\<lparr>PC := A\<rparr>))"
    "arm_exec w nxt s = Some t \<Longrightarrow> PC t = nxt \<and> Thumb t = Thumb s \<and> mem t = mem s"
proof -
  have c: "drop_bit 28 w \<noteq> 0xF" "fld 16 w \<noteq> 15" "fld 0 w \<noteq> 15" "fld 12 w \<noteq> 15" "w AND 0xFFF0FFF \<noteq> 0x52D0004" "w AND 0xFFFFFF0 \<noteq> 0x12FFF10"
    using assms by (simp_all add: copied_a32_def writes_pc_def)
  have b: "w AND 0xF000000 \<noteq> 0xA000000" "w AND 0xF000000 \<noteq> 0xB000000"
    using assms(1) by (auto simp: copied_a32_def dest: mask_sub [where m' = "0xE000000"])
  show "arm_exec w nxt (s\<lparr>PC := T\<rparr>) = map_option (\<lambda>t. t\<lparr>PC := nxt\<rparr>) (arm_exec w nxt' (s\<lparr>PC := A\<rparr>))"
    using b c by (simp add: arm_exec_def Let_def write_reg_def read_arm_def)
  show "PC t = nxt \<and> Thumb t = Thumb s \<and> mem t = mem s" if "arm_exec w nxt s = Some t"
    using that b c by (auto simp: arm_exec_def Let_def write_reg_def split: if_splits)
qed

lemma bit_23: "w AND 0x800000 = 0 \<longleftrightarrow> \<not> bit w 23" for w :: u32
  using and_exp_eq_0_iff_not_bit [of w 23] by simp

lemma loaded_exec:
  assumes "block_a32 (A + 8) w = Some (Loaded rt d vs)" "\<not> writes_pc w"
  shows "rt = fld 12 w" "rt < 15" "vs = [] \<or> vs = [ldr_self_word rt]"
    "arm_exec w nxt (s\<lparr>PC := A\<rparr>) = Some (s\<lparr>R := (R s)(rt := if vs = [] then d else load32 (mem s) d), PC := nxt\<rparr>)"
proof -
  have "drop_bit 12 w AND 0xF = take_bit 4 (drop_bit 12 w)" by (simp add: take_bit_eq_mask mask_eq_exp_minus_1)
  then have "fld 12 w < 16" by (simp add: fld_def take_bit_eq_mod unat_mod)
  then have n: "fld 12 w \<noteq> 15" "fld 12 w < 15" using assms(2) by (simp_all add: writes_pc_def)
  let ?K = "w AND 0xFF7F0000 = 0xE51F0000" and ?P = "w AND 0xFFFF0F00 = 0xE28F0000" and ?M = "w AND 0xFFFF0F00 = 0xE24F0000"
  consider (load) ?K "rt = fld 12 w" "d = (if bit w 23 then A + 8 + (w AND 0xFFF) else A + 8 - (w AND 0xFFF))" "vs = [ldr_self_word (fld 12 w)]"
    | (plus) ?P "rt = fld 12 w" "d = A + 8 + (w AND 0xFF)" "vs = []" | (minus) ?M "rt = fld 12 w" "d = A + 8 - (w AND 0xFF)" "vs = []"
    using assms(1) by (auto simp: block_a32_def split: if_splits)
  then have "rt = fld 12 w \<and> rt < 15 \<and> (vs = [] \<or> vs = [ldr_self_word rt])
    \<and> arm_exec w nxt (s\<lparr>PC := A\<rparr>) = Some (s\<lparr>R := (R s)(rt := if vs = [] then d else load32 (mem s) d), PC := nxt\<rparr>)"
  proof cases
    case load
    note m = load(1)
    have "arm_exec w nxt (s\<lparr>PC := A\<rparr>) = Some (s\<lparr>R := (R s)(rt := load32 (mem s) d), PC := nxt\<rparr>)"
      using n by (simp add: load(2,3) arm_exec_def Let_def cond_masked cond_passed_def mask_sub [OF m] mask_neq [OF m] read_arm_def fld_masked [of 16]
          write_reg_def bit_23)
    then show ?thesis using load n by simp
  next
    case plus
    note m = plus(1)
    have "arm_exec w nxt (s\<lparr>PC := A\<rparr>) = Some (s\<lparr>R := (R s)(rt := d), PC := nxt\<rparr>)"
      using n small_imm [of w] adr_fields(1) [OF m]
      by (simp add: plus(2,3) arm_exec_def Let_def cond_masked cond_passed_def mask_sub [OF m] mask_neq [OF m] read_arm_def fld_masked [of 16] write_reg_def)
    then show ?thesis using plus n by simp
  next
    case minus
    note m = minus(1)
    have "arm_exec w nxt (s\<lparr>PC := A\<rparr>) = Some (s\<lparr>R := (R s)(rt := d), PC := nxt\<rparr>)"
      using n small_imm [of w] adr_fields(2) [OF m]
      by (simp add: minus(2,3) arm_exec_def Let_def cond_masked cond_passed_def mask_sub [OF m] mask_neq [OF m] read_arm_def fld_masked [of 16] write_reg_def)
    then show ?thesis using minus n by simp
  qed
  then show "rt = fld 12 w" "rt < 15" "vs = [] \<or> vs = [ldr_self_word rt]"
    "arm_exec w nxt (s\<lparr>PC := A\<rparr>) = Some (s\<lparr>R := (R s)(rt := if vs = [] then d else load32 (mem s) d), PC := nxt\<rparr>)" by blast+
qed

text \<open>A bound block does what the instruction does at its own address.\<close>

lemma copied_runs:
  assumes "copied_a32 w" "\<not> writes_pc w" "\<not> Thumb s" "load32 (mem s) T = w"
  shows "cpu_run 1 (s\<lparr>PC := T\<rparr>) = map_option (\<lambda>t. t\<lparr>PC := T + 4\<rparr>) (arm_exec w (A + 4) (s\<lparr>PC := A\<rparr>))"
proof -
  have "cpu_step (s\<lparr>PC := T\<rparr>) = arm_exec w (T + 4) (s\<lparr>PC := T\<rparr>)" using assms(3,4) by (simp add: cpu_step_def)
  then have "cpu_run 1 (s\<lparr>PC := T\<rparr>) = arm_exec w (T + 4) (s\<lparr>PC := T\<rparr>)" by (simp split: option.split)
  then show ?thesis by (simp only: copied_a32_exec(1) [OF assms(1,2), where nxt = "T + 4" and T = T and nxt' = "A + 4" and A = A])
qed

lemma loaded_runs:
  assumes "rt < 15" "vs = [] \<or> vs = [ldr_self_word rt]" "\<not> Thumb s" "load32 (mem s) T = lit_word rt off" "off < 0x1000"
    "load32 (mem s) (T + 8 + off) = d" "code32_at (mem s) (T + 4) vs"
  shows "\<exists>n. cpu_run n (s\<lparr>PC := T\<rparr>) =
    Some (s\<lparr>R := (R s)(rt := if vs = [] then d else load32 (mem s) d), PC := T + 4 + 4 * of_nat (length vs)\<rparr>)"
proof -
  let ?s1 = "s\<lparr>R := (R s)(rt := d), PC := T + 4\<rparr>"
  have 1: "cpu_step (s\<lparr>PC := T\<rparr>) = Some ?s1"
    using step_lit [of "s\<lparr>PC := T\<rparr>" rt off] assms by (simp add: write_reg_def)
  show ?thesis
  proof (cases "vs = []")
    case True
    then show ?thesis using 1 by (intro exI [of _ 1]) simp
  next
    case False
    then have v: "vs = [ldr_self_word rt]" using assms(2) by simp
    then have "cpu_step ?s1 = Some (?s1\<lparr>R := (R s)(rt := load32 (mem s) d), PC := T + 4 + 4\<rparr>)"
      using step_self [of ?s1 rt] assms(1,3,7) by simp
    then show ?thesis using 1 v by (intro exI [of _ 2]) (simp add: numeral_2_eq_2)
  qed
qed

text \<open>The blocks one after the other: \<open>B\<close> is the address of the code, \<open>p\<close> and \<open>S\<close> places in it.\<close>

lemma bound_blocks_run:
  assumes "blocks_a32 (A + 8) ws = Some bs" "\<forall>w \<in> set ws. \<not> writes_pc w" "\<not> Thumb s"
    "code32_at (mem s) (B + 4 * of_nat p) (bound_a32 S p bs)" "code32_at (mem s) (B + 4 * of_nat S) (targets_a32 bs)"
    "p + length (raws_a32 bs) + 2 \<le> S" "S + length bs < 1024"
  shows "\<exists>n. cpu_run n (s\<lparr>PC := B + 4 * of_nat p\<rparr>) =
    map_option (\<lambda>t. t\<lparr>PC := B + 4 * of_nat (p + length (raws_a32 bs))\<rparr>) (in_place A ws (s\<lparr>PC := A\<rparr>))"
  using assms
proof (induction ws arbitrary: A bs s p S)
  case Nil
  then show ?case by (intro exI [of _ 0]) simp
next
  case (Cons w ws)
  obtain b cs where b: "block_a32 (A + 8) w = Some b" "blocks_a32 (A + 4 + 8) ws = Some cs" "bs = b # cs"
    using Cons.prems(1) by (auto simp: add.commute add.left_commute split: option.splits)
  have w: "\<not> writes_pc w" "\<forall>w \<in> set ws. \<not> writes_pc w" using Cons.prems(2) by simp_all
  let ?T = "B + 4 * of_nat p" and ?q = "p + length (raw_a32 b)"
  show ?case
  proof (cases b)
    case (Copied v)
    then have v: "v = w" "copied_a32 w" using b(1) by (auto simp: block_a32_def split: if_splits)
    have code: "load32 (mem s) ?T = w" "code32_at (mem s) (B + 4 * of_nat ?q) (bound_a32 S ?q cs)" "code32_at (mem s) (B + 4 * of_nat S) (targets_a32 cs)"
      using Cons.prems(4,5) by (simp_all add: b(3) Copied v(1) algebra_simps)
    have T: "?T + 4 = B + 4 * of_nat ?q" by (simp add: Copied algebra_simps)
    have 1: "cpu_run 1 (s\<lparr>PC := ?T\<rparr>) = map_option (\<lambda>t. t\<lparr>PC := B + 4 * of_nat ?q\<rparr>) (arm_exec w (A + 4) (s\<lparr>PC := A\<rparr>))"
      using copied_runs [OF v(2) w(1) Cons.prems(3) code(1), of A] unfolding T .
    show ?thesis
    proof (cases "arm_exec w (A + 4) (s\<lparr>PC := A\<rparr>)")
      case None
      then show ?thesis using 1 by (intro exI [of _ 1]) (simp split: option.splits)
    next
      case (Some t)
      have t: "PC t = A + 4" "\<not> Thumb t" "mem t = mem s" using copied_a32_exec(2) [OF v(2) w(1) Some] Cons.prems(3) by simp_all
      have "\<exists>n. cpu_run n (t\<lparr>PC := B + 4 * of_nat ?q\<rparr>) =
        map_option (\<lambda>t. t\<lparr>PC := B + 4 * of_nat (?q + length (raws_a32 cs))\<rparr>) (in_place (A + 4) ws (t\<lparr>PC := A + 4\<rparr>))"
        by (rule Cons.IH [OF b(2) w(2) t(2)]) (use code t(3) Cons.prems(6,7) in \<open>auto simp: b(3) Copied\<close>)
      moreover have "t\<lparr>PC := A + 4\<rparr> = t" using t(1) by simp
      ultimately obtain n where n: "cpu_run n (t\<lparr>PC := B + 4 * of_nat ?q\<rparr>) =
        map_option (\<lambda>t. t\<lparr>PC := B + 4 * of_nat (?q + length (raws_a32 cs))\<rparr>) (in_place (A + 4) ws t)" by metis
      have "cpu_run (1 + n) (s\<lparr>PC := ?T\<rparr>) = cpu_run n (t\<lparr>PC := B + 4 * of_nat ?q\<rparr>)"
        using 1 Some by (simp only: cpu_run_add) simp
      then show ?thesis using n Some by (intro exI [of _ "1 + n"]) (simp add: b(3) add.assoc)
    qed
  next
    case (Loaded rt d vs)
    note l = loaded_exec [OF b(1) [unfolded Loaded] w(1)]
    let ?off = "of_nat (4 * (S - p) - 8) :: u32"
    have Sp: "p + 3 \<le> S" "4 * (S - p) - 8 < 4096" using Cons.prems(6,7) by (simp_all add: b(3) Loaded)
    have code: "load32 (mem s) ?T = lit_word rt ?off" "code32_at (mem s) (?T + 4) vs" "load32 (mem s) (B + 4 * of_nat S) = d"
      "code32_at (mem s) (B + 4 * of_nat ?q) (bound_a32 (S + 1) ?q cs)" "code32_at (mem s) (B + 4 * of_nat (S + 1)) (targets_a32 cs)"
      using Cons.prems(4,5) by (simp_all add: b(3) Loaded code32_at_append algebra_simps)
    have off: "?off < 0x1000" using Sp(2) by (simp add: word_less_nat_alt unat_of_nat)
    have k: "4 * S = 4 * p + 8 + (4 * (S - p) - 8)" using Sp(1) by simp
    have "(of_nat (4 * S) :: u32) = of_nat (4 * p) + of_nat 8 + ?off" by (subst k) (simp only: of_nat_add)
    then have slot: "?T + 8 + ?off = B + 4 * of_nat S" by (simp add: algebra_simps)
    have T: "?T + 4 + 4 * of_nat (length vs) = B + 4 * of_nat ?q" by (simp add: Loaded algebra_simps)
    let ?v = "if vs = [] then d else load32 (mem s) d"
    let ?t = "s\<lparr>R := (R s)(rt := ?v), PC := A + 4\<rparr>"
    obtain n1 where n1: "cpu_run n1 (s\<lparr>PC := ?T\<rparr>) = Some (?t\<lparr>PC := B + 4 * of_nat ?q\<rparr>)"
      using loaded_runs [OF l(2,3) Cons.prems(3) code(1) off _ code(2), of d] code(3) unfolding slot T by auto
    have "\<exists>n. cpu_run n (?t\<lparr>PC := B + 4 * of_nat ?q\<rparr>) =
        map_option (\<lambda>t. t\<lparr>PC := B + 4 * of_nat (?q + length (raws_a32 cs))\<rparr>) (in_place (A + 4) ws (?t\<lparr>PC := A + 4\<rparr>))"
      by (rule Cons.IH [OF b(2) w(2), where S = "S + 1"]) (use code(4,5) Cons.prems(3,6,7) in \<open>simp_all add: b(3) Loaded\<close>)
    then obtain n where n: "cpu_run n (?t\<lparr>PC := B + 4 * of_nat ?q\<rparr>) =
        map_option (\<lambda>t. t\<lparr>PC := B + 4 * of_nat (?q + length (raws_a32 cs))\<rparr>) (in_place (A + 4) ws ?t)" by auto
    have "cpu_run (n1 + n) (s\<lparr>PC := ?T\<rparr>) = cpu_run n (?t\<lparr>PC := B + 4 * of_nat ?q\<rparr>)"
      using n1 by (simp only: cpu_run_add) simp
    then show ?thesis using n l(4) [of "A + 4" s] by (intro exI [of _ "n1 + n"]) (simp add: b(3) add.assoc)
  qed
qed

lemma in_place_pc:
  assumes "in_place A ws s = Some t" "PC s = A" "blocks_a32 (A + 8) ws = Some bs" "\<forall>w \<in> set ws. \<not> writes_pc w" "\<not> Thumb s"
  shows "PC t = A + 4 * of_nat (length ws) \<and> \<not> Thumb t \<and> mem t = mem s"
  using assms
proof (induction ws arbitrary: A s bs)
  case (Cons w ws)
  obtain b cs where b: "block_a32 (A + 8) w = Some b" "blocks_a32 (A + 4 + 8) ws = Some cs"
    using Cons.prems(3) by (auto simp: add.commute add.left_commute split: option.splits)
  have w: "\<not> writes_pc w" "\<forall>w \<in> set ws. \<not> writes_pc w" using Cons.prems(4) by simp_all
  have s: "s\<lparr>PC := A\<rparr> = s" using Cons.prems(2) by simp
  obtain u where u: "arm_exec w (A + 4) s = Some u" "in_place (A + 4) ws u = Some t" using Cons.prems(1) by (auto split: option.splits)
  have "PC u = A + 4 \<and> \<not> Thumb u \<and> mem u = mem s"
  proof (cases b)
    case (Copied v)
    then have "copied_a32 w" using b(1) by (auto simp: block_a32_def split: if_splits)
    then show ?thesis using copied_a32_exec(2) [OF _ w(1) u(1)] Cons.prems(5) by simp
  next
    case (Loaded rt d vs)
    then show ?thesis using loaded_exec(4) [OF b(1) [unfolded Loaded] w(1), of "A + 4" s] u(1) Cons.prems(5) by (simp add: s)
  qed
  then show ?case using Cons.IH [OF u(2) _ b(2) w(2)] by (simp add: algebra_simps)
qed simp

lemma relocated_prologue_runs:
  assumes "A AND 3 = 0" "blocks_a32 (A + 8) ws = Some bs" "\<forall>w \<in> set ws. \<not> writes_pc w" "\<not> Thumb s" "PC s = T"
    "code32_at (mem s) T (code_a32 A (length ws) bs)" "length (raws_a32 bs) + 2 + length bs < 1024"
  shows "\<exists>n. cpu_run n s = in_place A ws (s\<lparr>PC := A\<rparr>)"
proof -
  let ?m = "length (raws_a32 bs)" and ?E = "A + of_nat (4 * length ws) :: u32"
  let ?J = "T + 4 * of_nat ?m" and ?r = "in_place A ws (s\<lparr>PC := A\<rparr>)"
  have code: "code32_at (mem s) T (bound_a32 (?m + 2) 0 bs)" "code32_at (mem s) ?J [0xE51FF004, ?E]"
    "code32_at (mem s) (T + 4 * of_nat (?m + 2)) (targets_a32 bs)"
    using assms(6) by (simp_all add: code_a32_def code32_at_append algebra_simps)
  have s: "s\<lparr>PC := T + 4 * of_nat 0\<rparr> = s" using assms(5) by simp
  obtain n where n: "cpu_run n s = map_option (\<lambda>t. t\<lparr>PC := T + 4 * of_nat (0 + ?m)\<rparr>) ?r"
    using bound_blocks_run [OF assms(2-4), of T 0 "?m + 2"] code(1,3) assms(7) s by auto
  show ?thesis
  proof (cases ?r)
    case None
    then show ?thesis using n by auto
  next
    case (Some t)
    have t: "PC t = ?E" "\<not> Thumb t" "mem t = mem s" using in_place_pc [OF Some _ assms(2,3)] assms(4) by simp_all
    have "?E AND 3 = 0" using add_aligned [OF assms(1) mul4_aligned, of "of_nat (length ws)"] by simp
    moreover have "t\<lparr>PC := ?E, Thumb := False\<rparr> = t" using t by simp
    ultimately have "cpu_run 1 (t\<lparr>PC := ?J\<rparr>) = Some t"
      using run_jump [of "t\<lparr>PC := ?J\<rparr>" ?J ?E] code(2) t(2,3) by (simp add: bx_write_pc_arm)
    then have "cpu_run (n + 1) s = Some t" using n Some by (simp only: cpu_run_add) simp
    then show ?thesis unfolding Some by (rule exI)
  qed
qed

text \<open>
  (C12) Dobby's relocation of ARM code, for a word-aligned prologue without branches: its words do not write the PC, and either do not read it
  or are an unconditional \<^verbatim>\<open>LDR\<close>, or \<^verbatim>\<open>ADR\<close> with an unrotated immediate, whose PC-relative operand lies outside the prologue.  Then, with a
  word-aligned chunk of the arena that holds the code, of less than 1024 words, within one page, \<^verbatim>\<open>GenRelocateCode\<close> succeeds, and a processor that enters the code
  reaches the state in which the original instructions, executed at their own addresses, leave the
  prologue: the same registers, flags and memory, and the PC behind the prologue.
\<close>

theorem dobby_arm_relocation_correct:
  fixes T :: u32
  assumes "A AND 3 = 0" "blocks_a32 (A + 8) ws = Some bs" "ws = map (\<lambda>j. ld (4 * j)) [0..<length ws]"
    "\<forall>d \<in> set (targets_a32 bs). \<not> (A \<le> d \<and> d < A + of_nat (4 * length ws))" "\<forall>w \<in> set ws. \<not> writes_pc w"
    "length (raws_a32 bs) + 2 + length bs < 1024"
  defines "len \<equiv> 4 * length (code_a32 A (length ws) bs)"
  assumes "AllocateCodeChunk os_alloc (2 ^ k) len arena = (Some chunk, arena')" "mr_address chunk = ucast T" "T \<noteq> 0" "T AND 3 = 0"
    "k < 63" "unat (ucast T - ALIGN_FLOOR (ucast T) (2 ^ k) :: u64) + len \<le> 2 ^ k" "unat T + len \<le> 2 ^ 32"
  shows "\<exists>e'. GenRelocateCode_a32 junk os_alloc (2 ^ k) ld A (4 * length ws) relo_start arena e
      = Inr (FinalizeFromAddress (ucast T) len, arena', e')
    \<and> (\<forall>s. \<not> Thumb s \<and> PC s = T \<and> mem s = (\<lambda>a. e_mem e' (ucast a)) \<longrightarrow> (\<exists>n. cpu_run n s = in_place A ws (s\<lparr>PC := A\<rparr>)))"
proof -
  let ?W = "code_a32 A (length ws) bs"
  have n: "length ws \<le> length bs" using assms(2) by (induction "A + 8" ws arbitrary: A bs rule: blocks_a32.induct) (auto split: option.splits)
  have len: "length (words_a32 ?W) = len" by (simp add: len_def)
  have bl: "blocks_a32 (A + 8) (map (\<lambda>j. ld (4 * j)) [0..<length ws]) = Some bs" using assms(2,3) by simp
  have small: "4 * (length (raws_a32 bs) + 2 + length bs) < 2 ^ 30" "length ws < 2 ^ 29" using assms(6) n by simp_all
  obtain e' where e': "GenRelocateCode_a32 junk os_alloc (2 ^ k) ld A (4 * length ws) relo_start arena e
      = Inr (FinalizeFromAddress (ucast T) len, arena', e')"
    "e_mem e' = (\<lambda>a. if unat (a - ucast T) < len then words_a32 ?W ! unat (a - ucast T) else e_mem e a)"
    using GenRelocateCode_a32_installs [OF assms(1) bl small assms(4), of os_alloc k arena chunk arena' T junk relo_start e]
      assms(8-13) unfolding len by blast
  have "\<exists>n. cpu_run n s = in_place A ws (s\<lparr>PC := A\<rparr>)" if s: "\<not> Thumb s" "PC s = T" "mem s = (\<lambda>a. e_mem e' (ucast a))" for s
  proof -
    have "mem s (T + of_nat i) = words_a32 ?W ! i" if i: "i < 4 * length ?W" for i
    proof -
      have l: "i < len" using i by (simp add: len_def)
      then have "ucast (T + of_nat i) = (ucast T + of_nat i :: u64)"
        using assms(14) by (simp add: word_unat_eq_iff unsigned_ucast_eq unat_word_ariths unat_of_nat take_bit_nat_eq_self)
      then have "ucast (T + of_nat i) - ucast T = (of_nat i :: u64)" by simp
      moreover have "unat (of_nat i :: u64) = i" using l assms(14) by (simp add: unat_of_nat)
      ultimately show ?thesis using l s(3) e'(2) by simp
    qed
    then have "code32_at (mem s) T ?W" by (intro code32_at_bytes) simp
    then show ?thesis by (intro relocated_prologue_runs [OF assms(1,2,5) s(1,2) _ assms(6)])
  qed
  then show ?thesis using e'(1) by blast
qed

theorem dobby_arm_relocation_correct_witness:
  "\<exists>arena' e' len n t. GenRelocateCode_a32 (\<lambda>_. 0) (Some 0x20000) (2 ^ 12) (\<lambda>i. if i = 0 then 0xE1A04000 else if i = 4 then 0xE59F3100 else 0xE28F2010)
       0x8000 12 0 None \<lparr>e_mem = (\<lambda>_. 0), e_writable = (\<lambda>_. False)\<rparr> = Inr (FinalizeFromAddress 0x20000 len, arena', e')
     \<and> cpu_run n \<lparr>R = (\<lambda>r. of_nat r), PC = 0x20000, Thumb = False, N = False, Z = False, Cf = False, V = False, mem = (\<lambda>a. e_mem e' (ucast a))\<rparr> = Some t
     \<and> PC t = 0x800C \<and> R t 4 = 0 \<and> R t 2 = 0x8020"
proof -
  let ?ld = "\<lambda>i. if i = 0 then 0xE1A04000 else if i = 4 then 0xE59F3100 else 0xE28F2010 :: u32"
  let ?ws = "[0xE1A04000, 0xE59F3100, 0xE28F2010] :: u32 list" and ?e = "\<lparr>e_mem = (\<lambda>_. 0), e_writable = (\<lambda>_. False)\<rparr>"
  let ?bs = "[Copied 0xE1A04000, Loaded 3 0x810C [ldr_self_word 3], Loaded 2 0x8020 []]"
  have b: "blocks_a32 (0x8000 + 8) ?ws = Some ?bs"
    by (simp add: block_a32_def copied_a32_def fld_def bit_iff_and_drop_bit_eq_1)
  have w: "?ws = map (\<lambda>j. ?ld (4 * j)) [0..<length ?ws]" by (simp add: upt_rec)
  have t: "\<forall>d \<in> set (targets_a32 ?bs). \<not> (0x8000 \<le> d \<and> d < 0x8000 + of_nat (4 * length ?ws))" by simp
  have p: "\<forall>w \<in> set ?ws. \<not> writes_pc w" by (simp add: writes_pc_def fld_def)
  have len: "4 * length (code_a32 0x8000 (length ?ws) ?bs) = 32" by simp
  obtain chunk arena' where al: "AllocateCodeChunk (Some 0x20000) (2 ^ 12) 32 None = (Some chunk, arena')" "mr_address chunk = ucast (0x20000 :: u32)"
    by (simp add: AllocateCodeChunk_def AllocateChunk_def Let_def find_page.simps getNextObjectForIterator_def arr_initWithCapacity_def
        pushObject_def getCount_def take_chunk_def new_page_def)
  have fit: "unat (ucast (0x20000 :: u32) - ALIGN_FLOOR (ucast (0x20000 :: u32)) (2 ^ 12) :: u64) + 32 \<le> 2 ^ 12" by (simp add: ALIGN_FLOOR_def)
  obtain e' where g: "GenRelocateCode_a32 (\<lambda>_. 0) (Some 0x20000) (2 ^ 12) ?ld 0x8000 (4 * length ?ws) 0 None ?e
      = Inr (FinalizeFromAddress (ucast (0x20000 :: u32)) 32, arena', e')"
    and run: "\<forall>s. \<not> Thumb s \<and> PC s = 0x20000 \<and> mem s = (\<lambda>a. e_mem e' (ucast a)) \<longrightarrow> (\<exists>n. cpu_run n s = in_place 0x8000 ?ws (s\<lparr>PC := 0x8000\<rparr>))"
    using dobby_arm_relocation_correct [OF _ b w t p, unfolded len, where os_alloc = "Some 0x20000" and k = 12 and arena = None and chunk = chunk
        and arena' = arena' and T = "0x20000" and junk = "\<lambda>_. 0" and relo_start = 0 and e = ?e] al fit
    by auto
  let ?s = "\<lparr>R = (\<lambda>r. of_nat r), PC = 0x20000, Thumb = False, N = False, Z = False, Cf = False, V = False, mem = (\<lambda>a. e_mem e' (ucast a))\<rparr>"
  obtain n where n: "cpu_run n ?s = in_place 0x8000 ?ws (?s\<lparr>PC := 0x8000\<rparr>)" using spec [OF run, of ?s] by auto
  have "\<exists>t. in_place 0x8000 ?ws (?s\<lparr>PC := 0x8000\<rparr>) = Some t \<and> PC t = 0x800C \<and> R t 4 = 0 \<and> R t 2 = 0x8020"
    by (simp add: arm_exec_def Let_def cond_passed_def write_reg_def read_arm_def fld_def arm_expand_imm_def)
  then show ?thesis using n g by (auto intro: exI [of _ n])
qed

end
