(* ===== verification/Trampoline_Arm32.thy ===== *)
theory Trampoline_Arm32
  imports Relocate_Arm32_Exec
begin

text \<open>
  Dobby's ARM trampolines reach their target in both execution states.  The branches that its relocation emits and the closure bridge
  do not do what they are meant to do: the theorems state what they do.
\<close>

unbundle bit_operations_syntax

section \<open>The trampolines\<close>

definition halves_a32 :: "u16 list \<Rightarrow> u8 list" where
  "halves_a32 hs = concat (map (le_bytes 2) hs)"

lemma halves_a32_simps [simp]:
  "halves_a32 [] = []" "halves_a32 (h # hs) = le_bytes 2 h @ halves_a32 hs" "halves_a32 (us @ vs) = halves_a32 us @ halves_a32 vs"
  "length (halves_a32 hs) = 2 * length hs"
  by (simp_all add: halves_a32_def length_concat comp_def sum_list_triv)

lemma word_halves: "le_bytes 4 (w :: u32) = le_bytes 2 (ucast w :: u16) @ le_bytes 2 (ucast (drop_bit 16 w) :: u16)"
  by (simp add: le_bytes_def upt_rec) (auto intro!: bit_word_eqI simp: bit_simps)

lemma EmitInt16_emit_code: "EmitInt16 v a = emit_code (le_bytes 2 v) a"
  by (simp add: EmitInt16_def emit_code_def EmitBuffer_def Emit16_def)

lemma emit_half:
  assumes "asm_ok a" "pc_offset a + 2 < 2 ^ 30"
  shows "asm_ok (EmitInt16 v a)" "pc_offset (EmitInt16 v a) = pc_offset a + 2" "emitted (EmitInt16 v a) = emitted a @ le_bytes 2 v"
  using assms emit_code_ok [of a "le_bytes 2 v"] emit_code_emitted [of a "le_bytes 2 v"] pc_offset_emit_code [of a "le_bytes 2 v"]
  by (simp_all add: EmitInt16_emit_code)

lemma t2_jump_emits:
  assumes "asm_ok a" "pc_offset a + 8 < 2 ^ 30"
  shows "asm_ok (t2_jump to a)" "emitted (t2_jump to a) = emitted a @ halves_a32 [0xF85F, 0xF000, ucast to, ucast (drop_bit 16 to)]"
    "pc_offset (t2_jump to a) = pc_offset a + 8"
proof -
  have j: "t2_jump to a = EmitAddress to (EmitInt16 0xF000 (EmitInt16 0xF85F a))"
    by (simp add: t2_jump_def t2_ldr_def EmitThumb2LoadStore_def MemOperand_imm_a32_def EmitThumb2LoadLiteral_def pc_a32_def)
  have 1: "pc_offset a + 2 < 2 ^ 30" using assms(2) by simp
  note e1 = emit_half [OF assms(1) 1, of "0xF85F"]
  have 2: "pc_offset (EmitInt16 0xF85F a) + 2 < 2 ^ 30" using assms(2) e1 by simp
  note e2 = emit_half [OF e1(1) 2, of "0xF000"]
  have 3: "pc_offset (EmitInt16 0xF000 (EmitInt16 0xF85F a)) + 4 < 2 ^ 30" using assms(2) e1 e2 by simp
  note e3 = emit_word_a32 [OF e2(1) 3, of to]
  show "asm_ok (t2_jump to a)" "emitted (t2_jump to a) = emitted a @ halves_a32 [0xF85F, 0xF000, ucast to, ucast (drop_bit 16 to)]"
    "pc_offset (t2_jump to a) = pc_offset a + 8"
    using e1 e2 e3 by (simp_all add: j EmitAddress_EmitARMInst word_halves)
qed

lemma arm_trampoline_bytes:
  "\<exists>b. generate_arm_trampoline junk from to = Inr (Some b) \<and> contents b = words_a32 [0xE51FF004, to]"
proof -
  let ?a = "new_TurboAssembler_a32 (new_CodeBuffer_a32 junk) from" and ?ws = "[0xE51FF004, to]"
  let ?b = "fold EmitARMInst ?ws ?a"
  have l: "LiteralLdrBranch_a32 to ?a = Inr ?b" by (simp add: LiteralLdrBranch_a32_def ldr_a32_words EmitAddress_EmitARMInst)
  have b: "asm_ok ?b" "emitted ?b = words_a32 ?ws" "pc_offset ?b = 8"
    using emit_words_a32 [OF new_assembler_a32(1), of junk "from" ?ws] by (simp_all add: new_assembler_a32)
  then show ?thesis using copy_emitted [of ?b junk] l by (auto simp: generate_arm_trampoline_def)
qed

lemma thumb_trampoline_bytes:
  "\<exists>b. generate_thumb_trampoline junk from to = Some b
    \<and> contents b = halves_a32 ((if from mod 4 = 0 then [] else [0xBF00]) @ [0xF85F, 0xF000, ucast to, ucast (drop_bit 16 to)])"
proof -
  let ?a = "new_ThumbTurboAssembler (new_CodeBuffer_a32 junk) from"
  have a: "asm_ok ?a" "emitted ?a = []" "pc_offset ?a = 0" "realized_address ?a = ucast from"
    using new_assembler_a32(1-3) [of junk "from"] new_assembler_a32(6) [of "new_CodeBuffer_a32 junk" "from"] by (simp_all add: new_ThumbTurboAssembler_def asm_ok_def emitted_def pc_offset_def)
  have T: "ucast (ucast from :: u64) = from" by (rule bit_word_eqI) (auto simp: bit_simps)
  let ?n = "AlignThumbNop ?a" and ?hs = "if from mod 4 = 0 then [] else [0xBF00] :: u16 list"
  have n: "asm_ok ?n" "emitted ?n = halves_a32 ?hs" "pc_offset ?n \<le> 2"
    using emit_half [OF a(1), of "0xBF00"] a T by (auto simp: AlignThumbNop_def Let_def t1_nop_def pc_offset_def)
  have "pc_offset ?n + 8 < 2 ^ 30" using n(3) by simp
  note j = t2_jump_emits [OF n(1) this, of to]
  have s: "0 < pc_offset (t2_jump to ?n)" "pc_offset (t2_jump to ?n) < 2 ^ 30" using j(3) n(3) by simp_all
  show ?thesis using copy_emitted [OF j(1) s, of junk] j(2) n(2) by (auto simp: generate_thumb_trampoline_def simp del: halves_a32_simps(2))
qed

lemma code16_at_bytes:
  assumes "\<forall>i < 2 * length hs. m (T + of_nat i) = halves_a32 hs ! i"
  shows "code16_at m T hs"
  using assms
proof (induction hs arbitrary: T)
  case (Cons h hs)
  have b: "m (T + of_nat i) = le_bytes 2 h ! i" if "i < 2" for i
    using Cons.prems that by (force simp: nth_append)
  have "map (\<lambda>i. m (T + of_nat i)) [0..<2] = le_bytes 2 h"
    by (rule nth_equalityI) (use b in simp_all)
  then have "[m T, m (T + 1)] = le_bytes 2 h" by (simp add: upt_rec)
  then have "load16 m T = le_word (le_bytes 2 h)" by (simp only: load16_def)
  then have "load16 m T = h" by simp
  moreover have "code16_at m (T + 2) hs"
  proof (rule Cons.IH, intro allI impI)
    fix i assume "i < 2 * length hs"
    then show "m (T + 2 + of_nat i) = halves_a32 hs ! i"
      using spec [OF Cons.prems, of "2 + i"] by (simp add: nth_append add.assoc)
  qed
  ultimately show ?case by simp
qed simp

lemma load32_two_halves: "load16 m a = ucast v \<Longrightarrow> load16 m (a + 2) = ucast (drop_bit 16 v) \<Longrightarrow> load32 m a = v" for v :: u32
  by (simp add: load32_def) (rule bit_word_eqI, auto simp: bit_simps)

lemma clear_bits: "x AND m = 0 \<Longrightarrow> x AND NOT m = x" for x :: "'a::len word"
proof -
  assume "x AND m = 0"
  moreover have "(x AND m) OR (x AND NOT m) = x" by (simp add: bit.conj_disj_distrib [symmetric])
  ultimately show ?thesis by simp
qed

lemma even_mod_4:
  fixes x :: u32
  assumes "x AND 1 = 0" "x mod 4 \<noteq> 0"
  shows "(x + 2) AND 3 = 0"
proof -
  have e: "even (unat x)" using assms(1) by (simp add: and_one_eq even_iff_mod_2_eq_zero flip: unat_eq_0) (simp add: unat_mod)
  have "unat x mod 4 \<noteq> 0" using assms(2) by (simp add: word_unat_eq_iff unat_mod)
  then have "(unat x + 2) mod 4 = 0" using e by presburger
  moreover have "unat (x + 2) mod 4 = (unat x + 2) mod 4" by (simp add: unat_word_ariths mod_mod_cancel)
  ultimately have "unat ((x + 2) AND 3) = 0" by (simp add: and_3 take_bit_eq_mod unat_mod)
  then show ?thesis by (simp only: unat_eq_0)
qed

lemma thumb_jump_step:
  assumes "Thumb s" "PC s AND 3 = 0" "code16_at (mem s) (PC s) [0xF85F, 0xF000, ucast to, ucast (drop_bit 16 to)]"
  shows "cpu_step s = bx_write_pc to s"
proof -
  have c: "load16 (mem s) (PC s) = 0xF85F" "load16 (mem s) (PC s + 2) = 0xF000" "load32 (mem s) (PC s + 4) = to"
    using assms(3) by (simp_all add: load32_two_halves add.assoc)
  have "(PC s + 4) AND 3 = 0" by (rule add_aligned [OF assms(2)]) simp
  then have "(PC s + 4) AND NOT 3 = PC s + 4"
    by (rule clear_bits)
  then have "align4 (PC s + 4) = PC s + 4" by (simp add: align4_def)
  then show ?thesis using assms(1) c by (simp add: cpu_step_def wide_def Let_def thumb32_exec_def write_reg_def)
qed

text \<open>
  (C26) Dobby's ARM trampoline.  For a function at an address with or without the Thumb bit the trampoline is generated; when it is
  stored where the function begins, a processor that calls the function there is at the target after at most two steps, in the state that
  the lowest bit of the target selects, with every register, flag and byte of memory as before.
\<close>

theorem dobby_arm_trampoline_reaches:
  fixes src dst :: u32
  assumes "src AND 3 \<noteq> 2"
  shows "\<exists>b. GenerateNormalTrampolineBuffer_a32 junk src dst = Inr (Some b)
    \<and> (\<forall>s. Thumb s = odd src \<and> PC s = src AND NOT 1 \<and> (\<forall>i < length (contents b). mem s (PC s + of_nat i) = contents b ! i)
         \<longrightarrow> (\<exists>n \<le> 2. cpu_run n s = bx_write_pc dst s))"
proof (cases "odd src")
  case False
  have al: "src AND NOT 1 = src" using False by (intro clear_bits) (simp add: and_one_eq even_iff_mod_2_eq_zero)
  obtain b where b: "generate_arm_trampoline junk src dst = Inr (Some b)" "contents b = words_a32 [0xE51FF004, dst]"
    using arm_trampoline_bytes by blast
  have "\<exists>n \<le> 2. cpu_run n s = bx_write_pc dst s"
    if s: "\<not> Thumb s" "\<forall>i < length (contents b). mem s (PC s + of_nat i) = contents b ! i" for s
  proof -
    have "code32_at (mem s) (PC s) [0xE51FF004, dst]" by (rule code32_at_bytes) (use s(2) b(2) in simp)
    then have "cpu_step s = bx_write_pc dst s" using step_ldr_pc [of s] s(1) by simp
    then show ?thesis by (intro exI [of _ 1]) (simp split: option.split)
  qed
  moreover have "src mod 2 = 0" using False by (simp add: even_iff_mod_2_eq_zero)
  ultimately show ?thesis using False b(1) by (auto simp: GenerateNormalTrampolineBuffer_a32_def al)
next
  case True
  let ?f = "ALIGN_FLOOR src 2" and ?hs = "[0xF85F, 0xF000, ucast dst, ucast (drop_bit 16 dst)] :: u16 list"
  have f: "?f = src AND NOT 1" by (simp add: ALIGN_FLOOR_def)
  obtain b where b: "generate_thumb_trampoline junk ?f dst = Some b"
      "contents b = halves_a32 ((if ?f mod 4 = 0 then [] else [0xBF00]) @ ?hs)"
    using thumb_trampoline_bytes by blast
  have al: "?f AND 1 = 0" unfolding f by (simp add: and.assoc)
  have m4: "?f mod 4 = ?f AND 3" by (simp add: and_3 take_bit_eq_mod)
  have "\<exists>n \<le> 2. cpu_run n s = bx_write_pc dst s"
    if s: "Thumb s" "PC s = ?f" "\<forall>i < length (contents b). mem s (PC s + of_nat i) = contents b ! i" for s
  proof (cases "?f mod 4 = 0")
    case True
    have "code16_at (mem s) (PC s) ?hs" by (rule code16_at_bytes) (use s(3) b(2) True in simp)
    then have "cpu_step s = bx_write_pc dst s" using thumb_jump_step [of s dst] s True m4 by simp
    then show ?thesis by (intro exI [of _ 1]) (simp split: option.split)
  next
    case False
    have c: "code16_at (mem s) (PC s) (0xBF00 # ?hs)" by (rule code16_at_bytes) (use s(3) b(2) False in simp)
    let ?t = "s\<lparr>PC := PC s + 2\<rparr>"
    have "load16 (mem s) (PC s) = 0xBF00" using c by simp
    then have 1: "cpu_step s = Some ?t"
      using s(1) by (simp add: cpu_step_def wide_def Let_def thumb16_exec_def)
    have "cpu_step ?t = bx_write_pc dst ?t" by (rule thumb_jump_step) (use s(1,2) c even_mod_4 [OF al False] in simp_all)
    moreover have "bx_write_pc dst ?t = bx_write_pc dst s" by (simp add: bx_write_pc_def)
    ultimately show ?thesis using 1 by (intro exI [of _ 2]) (simp add: numeral_2_eq_2 split: option.split)
  qed
  moreover have "src mod 2 \<noteq> 0" using True by (simp add: even_iff_mod_2_eq_zero)
  ultimately show ?thesis using True b(1) by (auto simp: GenerateNormalTrampolineBuffer_a32_def f)
qed

theorem dobby_arm_trampoline_reaches_witness:
  "\<exists>b n s. GenerateNormalTrampolineBuffer_a32 (\<lambda>_. 0) 0x1003 0x5001 = Inr (Some b) \<and> Thumb s \<and> PC s = 0x1002
     \<and> cpu_run n s = Some (s\<lparr>PC := 0x5000\<rparr>)"
proof -
  have a: "(0x1003 :: u32) AND 3 \<noteq> 2" by simp
  obtain b where b: "GenerateNormalTrampolineBuffer_a32 (\<lambda>_. 0) 0x1003 0x5001 = Inr (Some b)"
    and run: "\<forall>s. Thumb s = odd (0x1003 :: u32) \<and> PC s = 0x1003 AND NOT 1 \<and> (\<forall>i < length (contents b). mem s (PC s + of_nat i) = contents b ! i)
         \<longrightarrow> (\<exists>n \<le> 2. cpu_run n s = bx_write_pc 0x5001 s)"
    using dobby_arm_trampoline_reaches [OF a, of "\<lambda>_. 0" "0x5001"] by blast
  have "\<exists>c. generate_thumb_trampoline (\<lambda>_. 0) 0x1002 0x5001 = Some c \<and> length (contents c) \<le> 10"
    using thumb_trampoline_bytes [of "\<lambda>_. 0" "0x1002" "0x5001"] by (auto simp del: halves_a32_simps(2))
  then have l: "length (contents b) \<le> 10" using b by (auto simp: GenerateNormalTrampolineBuffer_a32_def ALIGN_FLOOR_def)
  let ?s = "\<lparr>R = (\<lambda>_. 0), PC = 0x1002, Thumb = True, N = False, Z = False, Cf = False, V = False, mem = (\<lambda>x. contents b ! unat (x - 0x1002))\<rparr>"
  have "mem ?s (PC ?s + of_nat i) = contents b ! i" if "i < length (contents b)" for i
    using that l by (simp add: unat_of_nat)
  moreover have "odd (0x1003 :: u32)" by simp
  ultimately obtain n where "cpu_run n ?s = bx_write_pc 0x5001 ?s" using spec [OF run, of ?s] by auto
  then have "cpu_run n ?s = Some (?s\<lparr>PC := 0x5000\<rparr>)" by (simp add: bx_write_pc_def)
  then show ?thesis using b by (intro exI [of _ b] exI [of _ n] exI [of _ ?s]) simp
qed

section \<open>Relocated branches\<close>

definition branch_words :: "u32 \<Rightarrow> u32 \<Rightarrow> u32 list" where
  "branch_words pc w = [(w AND 0xFF000000) OR 1, 0xEB000001, 0xE51FF004, pc + push_bit 2 (w AND 0xFFFFFF)]"

lemma branch_emits:
  assumes "w AND 0xE000000 = 0xA000000"
  shows "ARMRelocateSingleInstr w pc a = Inr (fold EmitARMInst (branch_words pc w) a)"
proof -
  have f: "drop_bit 25 w AND 7 = 5" "drop_bit 25 w AND 1 = 1"
    using field_known [OF assms, of 25 7] field_known [OF assms, of 25 1] by simp_all
  have i: "bits w 0 23 = w AND 0xFFFFFF" by (simp add: bits_def submask_def mask_eq_exp_minus_1)
  have b: "b_a32 4 a = EmitARMInst 0xEB000001 a" for a :: TurboAssembler_a32
    by (simp add: b_a32_def b_cond_a32_def cond_field_def kConditionShift_def bits_def submask_def mask_eq_exp_minus_1)
  show ?thesis
    by (simp add: ARMRelocateSingleInstr_def Let_def fields_a32 bit_of_a32 f arm_branch_def b i ldr_a32_words EmitAddress_EmitARMInst branch_words_def)
qed

lemma branch_one:
  assumes "w AND 0xF000000 = 0xA000000" "drop_bit 28 w \<noteq> 0xF"
  shows "arm_exec ((w AND 0xFF000000) OR 1) nxt s = Some (s\<lparr>PC := if cond_passed (drop_bit 28 w) s then PC s + 12 else nxt\<rparr>)"
proof -
  let ?b = "(w AND 0xFF000000) OR 1"
  have c: "drop_bit 28 ?b = drop_bit 28 w" by (subst (1 2) cond_masked) (simp add: bit.conj_disj_distrib2 and.assoc)
  have m: "?b AND 0xF000000 = 0xA000000" using assms(1) by (simp add: bit.conj_disj_distrib2 and.assoc)
  have K: "0xFF000000 = (NOT (mask 24) :: u32)" by (simp add: mask_eq_exp_minus_1)
  have o: "(ucast ?b :: 24 word) = 1"
    unfolding K by (rule bit_word_eqI) (auto simp: bit_simps bit_1_iff)
  show ?thesis using assms(2) c m o by (simp add: arm_exec_def Let_def add.assoc)
qed

text \<open>
  (C27) Dobby's relocation of an ARM branch.  The relocated branch does not do what the original does: when its condition holds, it
  jumps to the word behind the literal load, which holds the address of the target and not an instruction; when it does not hold,
  the jump over the load is a call and the link register is lost.
\<close>

theorem relocated_arm_branch_wrong:
  assumes "w AND 0xF000000 = 0xA000000" "drop_bit 28 w \<noteq> 0xF" "asm_ok a" "pc_offset a + 16 < 2 ^ 30"
  shows "\<exists>a'. ARMRelocateSingleInstr w pc a = Inr a' \<and> emitted a' = emitted a @ words_a32 (branch_words pc w)
    \<and> (\<forall>s. \<not> Thumb s \<and> code32_at (mem s) (PC s) (branch_words pc w) \<longrightarrow>
         (if cond_passed (drop_bit 28 w) s
          then cpu_run 1 s = Some (s\<lparr>PC := PC s + 12\<rparr>) \<and> load32 (mem s) (PC s + 12) = pc + push_bit 2 (w AND 0xFFFFFF)
          else cpu_run 2 s = Some (s\<lparr>R := (R s)(14 := PC s + 8), PC := PC s + 16\<rparr>)))"
proof -
  let ?ws = "branch_words pc w"
  have "w AND 0xE000000 = 0xA000000" using mask_sub [OF assms(1), of "0xE000000"] by simp
  then have r: "ARMRelocateSingleInstr w pc a = Inr (fold EmitARMInst ?ws a)" by (rule branch_emits)
  have "pc_offset a + 4 * length ?ws < 2 ^ 30" using assms(4) by (simp add: branch_words_def)
  then have e: "emitted (fold EmitARMInst ?ws a) = emitted a @ words_a32 ?ws" using emit_words_a32 [OF assms(3)] by blast
  have "if cond_passed (drop_bit 28 w) s
      then cpu_run 1 s = Some (s\<lparr>PC := PC s + 12\<rparr>) \<and> load32 (mem s) (PC s + 12) = pc + push_bit 2 (w AND 0xFFFFFF)
      else cpu_run 2 s = Some (s\<lparr>R := (R s)(14 := PC s + 8), PC := PC s + 16\<rparr>)"
    if s: "\<not> Thumb s" "code32_at (mem s) (PC s) ?ws" for s
  proof -
    have c: "load32 (mem s) (PC s) = (w AND 0xFF000000) OR 1" "load32 (mem s) (PC s + 4) = 0xEB000001"
      "load32 (mem s) (PC s + 12) = pc + push_bit 2 (w AND 0xFFFFFF)"
      using s(2) by (simp_all add: branch_words_def add.assoc)
    have 1: "cpu_step s = Some (s\<lparr>PC := if cond_passed (drop_bit 28 w) s then PC s + 12 else PC s + 4\<rparr>)"
      using s(1) c(1) by (simp add: cpu_step_def branch_one [OF assms(1,2)])
    show ?thesis
    proof (cases "cond_passed (drop_bit 28 w) s")
      case True
      then show ?thesis using 1 c(3) by simp
    next
      case False
      let ?t = "s\<lparr>PC := PC s + 4\<rparr>"
      have "cpu_step ?t = Some (s\<lparr>R := (R s)(14 := PC s + 8), PC := PC s + 16\<rparr>)"
        using s(1) c(2) by (simp add: cpu_step_def arm_exec_def Let_def cond_passed_def add.assoc)
      then show ?thesis using 1 False by (simp add: numeral_2_eq_2)
    qed
  qed
  then show ?thesis using r e by blast
qed

theorem relocated_arm_branch_wrong_witness:
  "\<exists>a'. ARMRelocateSingleInstr 0xEA000010 0x8008 (new_TurboAssembler_a32 (new_CodeBuffer_a32 (\<lambda>_. 0)) 0) = Inr a'
     \<and> emitted a' = words_a32 [0xEA000001, 0xEB000001, 0xE51FF004, 0x8048]"
proof -
  have b: "branch_words 0x8008 0xEA000010 = [0xEA000001, 0xEB000001, 0xE51FF004, 0x8048]" by (simp add: branch_words_def)
  show ?thesis
    using relocated_arm_branch_wrong [of "0xEA000010" "new_TurboAssembler_a32 (new_CodeBuffer_a32 (\<lambda>_. 0)) 0" "0x8008"]
      new_assembler_a32(1-3) [of "\<lambda>_. 0" 0] by (simp add: b del: words_a32_simps) blast
qed

section \<open>The closure bridge\<close>

definition bridge_words_a32 :: "u32 \<Rightarrow> u32 list" where
  "bridge_words_a32 handler =
     [0xE24DD038, 0xE59DE034, 0xE59DC030, 0xE59DB02C, 0xE59DA028, 0xE59D9024, 0xE59D8020, 0xE59D701C, 0xE59D6018, 0xE59D5014,
      0xE59D4010, 0xE59D300C, 0xE59D2008, 0xE59D1004, 0xE59D0000, 0xE24D0038, 0xE24DD008, 0xE59D0004, 0xE24DD008,
      0xFFFFFFFF, 0xFFFFFFFF, 0xEA000000, 0xEB000001, 0xE51FF004, handler,
      0xE24DD008, 0xE24DD008] @ map (\<lambda>i. 0xE59D0004 OR push_bit 12 (if i = 13 then 14 else of_nat i)) [0..<14] @ [0xFFFFFFFF]"

lemma run_emits_fold:
  "list_all2 (\<lambda>f w. \<forall>a. f a = Inr (EmitARMInst w a)) fs ws \<Longrightarrow> run_emits (fs @ gs) a = run_emits gs (fold EmitARMInst ws a)"
  by (induction arbitrary: a rule: list_all2_induct) simp_all

lemmas bridge_defs = sub_a32_def add_a32_def sub_cond_a32_def str_a32_def ldr_a32_def ldr_cond_a32_def mov_a32_def mov_cond_a32_def
  EncodeMemOperand_def EncodeOperand_def MemOperand_imm_a32_def Operand_imm_a32_def Operand_reg_a32_def GetImmediate_a32_def IsValid_a32_def
  no_reg_def Rn_a32_def Rt_a32_def Rd_a32_def cond_field_def kConditionShift_def sp_a32_def lr_a32_def pc_a32_def r12_a32_def

lemma bridge_code_words: "closure_bridge_code_a32 junk h = Inr (fold EmitARMInst (bridge_words_a32 h) (new_TurboAssembler_a32 (new_CodeBuffer_a32 junk) 0))"
proof -
  let ?a = "new_TurboAssembler_a32 (new_CodeBuffer_a32 junk) 0"
  have b: "b_a32 4 a = EmitARMInst 0xEB000001 a" "bl_a32 0 a = EmitARMInst 0xEA000000 a" for a :: TurboAssembler_a32
    by (simp_all add: b_a32_def b_cond_a32_def bl_a32_def bl_cond_a32_def cond_field_def kConditionShift_def bits_def submask_def mask_eq_exp_minus_1)
  have minus: "(- 1 :: u32) = 0xFFFFFFFF" by simp
  have save: "list_all2 (\<lambda>f w. \<forall>a. f a = Inr (EmitARMInst w a)) bridge_save_a32 (take 19 (bridge_words_a32 h))"
    by (simp add: bridge_save_a32_def bridge_words_a32_def upt_rec bridge_defs)
  have restore: "list_all2 (\<lambda>f w. \<forall>a. f a = Inr (EmitARMInst w a)) bridge_restore_a32 (drop 25 (bridge_words_a32 h))"
    by (simp add: bridge_restore_a32_def bridge_words_a32_def upt_rec bridge_defs minus)
  have call: "run_emits (bridge_call_a32 h @ gs) a = run_emits gs (fold EmitARMInst [0xFFFFFFFF, 0xFFFFFFFF, 0xEA000000, 0xEB000001, 0xE51FF004, h] a)" for gs a
    by (simp add: bridge_call_a32_def CallFunction_a32_def b ldr_a32_words EmitAddress_EmitARMInst mov_a32_def mov_cond_a32_def EncodeOperand_def
        Operand_reg_a32_def GetImmediate_a32_def IsValid_a32_def sp_a32_def r12_a32_def cond_field_def Rd_a32_def
        kConditionShift_def minus)
  have w: "bridge_words_a32 h = take 19 (bridge_words_a32 h) @ [0xFFFFFFFF, 0xFFFFFFFF, 0xEA000000, 0xEB000001, 0xE51FF004, h] @ drop 25 (bridge_words_a32 h)"
    by (simp add: bridge_words_a32_def)
  show ?thesis
    using run_emits_fold [OF restore, of "[]"]
    by (subst w) (simp only: closure_bridge_code_a32_def append_assoc run_emits_fold [OF save] call fold_append comp_apply append_Nil2 run_emits.simps)
qed

text \<open>Instructions that leave memory as it is and go on to the next one.\<close>

definition goes_on :: "u32 \<Rightarrow> bool" where
  "goes_on w \<longleftrightarrow> (\<forall>nxt s. \<exists>R'. arm_exec w nxt s = Some (s\<lparr>R := R', PC := nxt\<rparr>))"

lemma goes_on_run:
  assumes "list_all goes_on ws" "\<not> Thumb s" "code32_at (mem s) (PC s) ws"
  shows "\<exists>R'. cpu_run (length ws) s = Some (s\<lparr>R := R', PC := PC s + 4 * of_nat (length ws)\<rparr>)"
  using assms
proof (induction ws arbitrary: s)
  case Nil
  show ?case by (rule exI [of _ "R s"]) simp
next
  case (Cons w ws)
  then obtain R1 where 1: "cpu_step s = Some (s\<lparr>R := R1, PC := PC s + 4\<rparr>)" by (fastforce simp: cpu_step_def goes_on_def)
  let ?t = "s\<lparr>R := R1, PC := PC s + 4\<rparr>"
  obtain R' where "cpu_run (length ws) ?t = Some (?t\<lparr>R := R', PC := PC ?t + 4 * of_nat (length ws)\<rparr>)"
    using Cons.IH [of ?t] Cons.prems by auto
  then show ?case using 1 by (auto simp: algebra_simps intro!: exI [of _ R'])
qed

lemma bridge_goes_on: "list_all goes_on (take 19 (bridge_words_a32 h))"
  by (simp add: bridge_words_a32_def goes_on_def arm_exec_def Let_def cond_passed_def write_reg_def fld_def arm_expand_imm_def) blast?

text \<open>
  (C28) The closure bridge of the ARM back end.  It is generated, and its first nineteen instructions, which are meant to store the
  registers, load them instead: memory is as it was before, and the next word is not an instruction.
\<close>

theorem closure_bridge_a32_broken:
  "\<exists>a. closure_bridge_code_a32 junk h = Inr a \<and> emitted a = words_a32 (bridge_words_a32 h)
     \<and> (\<forall>s. \<not> Thumb s \<and> code32_at (mem s) (PC s) (bridge_words_a32 h) \<longrightarrow> (\<exists>t. cpu_run 19 s = Some t \<and> mem t = mem s \<and> cpu_step t = None))"
proof -
  let ?ws = "bridge_words_a32 h" and ?a = "new_TurboAssembler_a32 (new_CodeBuffer_a32 junk) 0"
  have len: "length (take 19 ?ws) = 19" "length ?ws = 42" by (simp_all add: bridge_words_a32_def)
  have "emitted (fold EmitARMInst ?ws ?a) = words_a32 ?ws"
    using emit_words_a32 [of ?a ?ws] len(2) by (simp add: new_assembler_a32)
  moreover have "\<exists>t. cpu_run 19 s = Some t \<and> mem t = mem s \<and> cpu_step t = None"
    if s: "\<not> Thumb s" "code32_at (mem s) (PC s) ?ws" for s
  proof -
    have "?ws = take 19 ?ws @ 0xFFFFFFFF # drop 20 ?ws" by (simp add: bridge_words_a32_def)
    then have "code32_at (mem s) (PC s) (take 19 ?ws @ 0xFFFFFFFF # drop 20 ?ws)" using s(2) by simp
    then have c: "code32_at (mem s) (PC s) (take 19 ?ws)" "load32 (mem s) (PC s + 4 * of_nat 19) = 0xFFFFFFFF"
      using len(1) by (simp_all add: code32_at_append)
    obtain R' where r: "cpu_run 19 s = Some (s\<lparr>R := R', PC := PC s + 4 * of_nat 19\<rparr>)"
      using goes_on_run [OF bridge_goes_on [of h] s(1) c(1)] len(1) by auto
    have "cpu_step (s\<lparr>R := R', PC := PC s + 4 * of_nat 19\<rparr>) = None"
      using s(1) c(2) by (simp add: cpu_step_def arm_exec_def Let_def)
    then show ?thesis using r by auto
  qed
  ultimately show ?thesis using bridge_code_words by blast
qed

theorem closure_bridge_a32_broken_witness:
  "\<exists>a s t. closure_bridge_code_a32 (\<lambda>_. 0) 0x4000 = Inr a \<and> PC s = 0x9000 \<and> R s 0 = 7 \<and> mem s = demo_code32 (bridge_words_a32 0x4000)
     \<and> cpu_run 19 s = Some t \<and> mem t = mem s \<and> cpu_step t = None"
proof -
  let ?ws = "bridge_words_a32 0x4000"
  let ?s = "\<lparr>R = (\<lambda>_. 7), PC = 0x9000, Thumb = False, N = False, Z = False, Cf = False, V = False, mem = demo_code32 ?ws\<rparr>"
  have l: "length ?ws = 42" by (simp add: bridge_words_a32_def)
  have "demo_code32 ?ws (0x9000 + of_nat i) = words_a32 ?ws ! i" if i: "i < 4 * length ?ws" for i
  proof -
    have "unat (of_nat i :: u32) = i" using i l by (simp add: unat_of_nat)
    moreover have "0x9000 \<le> 0x9000 + (of_nat i :: u32)" using i l by (simp add: word_le_nat_alt unat_word_ariths unat_of_nat)
    ultimately show ?thesis using i by (simp add: demo_code32_def words_a32_def)
  qed
  then have "code32_at (mem ?s) (PC ?s) ?ws" by (intro code32_at_bytes) simp
  then have at: "\<not> Thumb ?s \<and> code32_at (mem ?s) (PC ?s) ?ws" by simp
  obtain a where a: "closure_bridge_code_a32 (\<lambda>_. 0) 0x4000 = Inr a"
    and run: "\<forall>s. \<not> Thumb s \<and> code32_at (mem s) (PC s) ?ws \<longrightarrow> (\<exists>t. cpu_run 19 s = Some t \<and> mem t = mem s \<and> cpu_step t = None)"
    using closure_bridge_a32_broken [of "\<lambda>_. 0" "0x4000"] by blast
  obtain t where "cpu_run 19 ?s = Some t" "mem t = mem ?s" "cpu_step t = None" using mp [OF spec [OF run, of ?s] at] by blast
  then show ?thesis using a by (intro exI [of _ a] exI [of _ ?s] exI [of _ t]) simp
qed

end
