(* ===== verification/Asm_IA32.thy ===== *)
theory Asm_IA32
  imports Asm_X64
begin

text \<open>
  The IA-32 assembler: \<^verbatim>\<open>core/arch/x86/registers-x86.h\<close>, \<^verbatim>\<open>core/modules/assembler/assembler-ia32.h\<close> and \<^verbatim>\<open>.cc\<close>, and
  \<^verbatim>\<open>core/modules/codegen/codegen-ia32.cc\<close>.  The scale factors and the emission of bytes and words to the buffer are those of
  theory \<open>Asm_X64\<close>.  Addresses have 32 bits; the realized address of the base class is kept in 64 bits there.
\<close>

unbundle bit_operations_syntax

section \<open>Registers\<close>

datatype RegisterType_ia32 = kDefault_ia32 | kInvalid_ia32

record CPURegister_ia32 =
  code_ia32 :: nat
  size_ia32 :: nat
  type_ia32 :: RegisterType_ia32

definition Create_ia32 :: "nat \<Rightarrow> nat \<Rightarrow> RegisterType_ia32 \<Rightarrow> CPURegister_ia32" where
  "Create_ia32 c sz t = \<lparr>code_ia32 = c, size_ia32 = sz, type_ia32 = t\<rparr>"

definition from_code_ia32 :: "nat \<Rightarrow> CPURegister_ia32" where
  "from_code_ia32 c = Create_ia32 c 0 kDefault_ia32"

definition InvalidRegister_ia32 :: CPURegister_ia32 where
  "InvalidRegister_ia32 = Create_ia32 0 0 kInvalid_ia32"

definition is_byte_register_ia32 :: "CPURegister_ia32 \<Rightarrow> bool" where
  "is_byte_register_ia32 r \<longleftrightarrow> code_ia32 r \<le> 3"

definition eax :: CPURegister_ia32 where "eax = Create_ia32 0 32 kDefault_ia32"
definition ecx :: CPURegister_ia32 where "ecx = Create_ia32 1 32 kDefault_ia32"
definition edx :: CPURegister_ia32 where "edx = Create_ia32 2 32 kDefault_ia32"
definition ebx :: CPURegister_ia32 where "ebx = Create_ia32 3 32 kDefault_ia32"
definition esp :: CPURegister_ia32 where "esp = Create_ia32 4 32 kDefault_ia32"
definition ebp :: CPURegister_ia32 where "ebp = Create_ia32 5 32 kDefault_ia32"
definition esi :: CPURegister_ia32 where "esi = Create_ia32 6 32 kDefault_ia32"
definition edi :: CPURegister_ia32 where "edi = Create_ia32 7 32 kDefault_ia32"

lemmas ia32_regs = eax_def ecx_def edx_def ebx_def esp_def ebp_def esi_def edi_def

definition VOLATILE_REGISTER_ia32 :: CPURegister_ia32 where
  "VOLATILE_REGISTER_ia32 = eax"

section \<open>Labels\<close>

datatype PseudoLabelType_ia32 = kDisp32_off_9_ia32

record PseudoLabelInstruction_ia32 =
  position_ia32 :: nat
  pl_type_ia32 :: PseudoLabelType_ia32

record PseudoLabel_ia32 = Label +
  instructions_ia32 :: "PseudoLabelInstruction_ia32 LiteMutableArray"

record RelocLabelEntry_ia32 = PseudoLabel_ia32 +
  reloc_data_ia32 :: u32
  data_size_ia32 :: int

definition new_RelocLabelEntry_ia32 :: "u32 \<Rightarrow> RelocLabelEntry_ia32" where
  "new_RelocLabelEntry_ia32 d =
     \<lparr>label_pos = 0, near_link_pos = 0, instructions_ia32 = arr_initWithCapacity 8, reloc_data_ia32 = d, data_size_ia32 = 0\<rparr>"

definition has_confused_instructions_ia32 :: "'b PseudoLabel_ia32_scheme \<Rightarrow> bool" where
  "has_confused_instructions_ia32 l \<longleftrightarrow> 0 < getCount (instructions_ia32 l)"

fun link_loop_ia32 :: "nat list \<Rightarrow> 'b PseudoLabel_ia32_scheme \<Rightarrow> LiteMutableBuffer \<Rightarrow> LiteMutableBuffer res" where
  "link_loop_ia32 [] l b = Inr b"
| "link_loop_ia32 (i # is) l b =
     res_bind (getObject i (instructions_ia32 l)) (\<lambda>ins.
     let offset = pos l - int (position_ia32 ins)
     in case pl_type_ia32 ins of kDisp32_off_9_ia32 \<Rightarrow>
          if position_ia32 ins < 4 then Inl OutOfBounds
          else res_bind (FixBindLabel (position_ia32 ins - 4) (of_int (offset + 9)) b) (link_loop_ia32 is l))"

definition link_confused_instructions_ia32 :: "'b PseudoLabel_ia32_scheme \<Rightarrow> LiteMutableBuffer \<Rightarrow> LiteMutableBuffer res" where
  "link_confused_instructions_ia32 l b = link_loop_ia32 [0..<getCount (instructions_ia32 l)] l b"

definition pl_link_to_ia32 :: "nat \<Rightarrow> PseudoLabelType_ia32 \<Rightarrow> 'b PseudoLabel_ia32_scheme \<Rightarrow> 'b PseudoLabel_ia32_scheme" where
  "pl_link_to_ia32 p t l =
     l\<lparr>instructions_ia32 := snd (pushObject \<lparr>position_ia32 = p, pl_type_ia32 = t\<rparr> (instructions_ia32 l))\<rparr>"

section \<open>Immediates, operands and addresses\<close>

record Immediate_ia32 =
  imm_value_ia32 :: u32
  imm_size_ia32 :: nat

definition Immediate_auto_ia32 :: "u32 \<Rightarrow> Immediate_ia32" where
  "Immediate_auto_ia32 imm =
     \<lparr>imm_value_ia32 = imm,
      imm_size_ia32 = (if scast (ucast imm :: u8) = imm then 8 else if scast (ucast imm :: u16) = imm then 16 else 32)\<rparr>"

definition Immediate_sized_ia32 :: "u32 \<Rightarrow> nat \<Rightarrow> Immediate_ia32" where
  "Immediate_sized_ia32 imm sz = \<lparr>imm_value_ia32 = imm, imm_size_ia32 = sz\<rparr>"

record Operand_ia32 =
  length_ia32 :: nat
  encoding_ia32 :: "u8 list"

definition new_Operand_ia32 :: Operand_ia32 where
  "new_Operand_ia32 = \<lparr>length_ia32 = 0, encoding_ia32 = replicate 6 0\<rparr>"

definition encoding_at_ia32 :: "nat \<Rightarrow> Operand_ia32 \<Rightarrow> u8" where
  "encoding_at_ia32 index opd = encoding_ia32 opd ! index"

definition modrm_ia32 :: "Operand_ia32 \<Rightarrow> u8" where
  "modrm_ia32 opd = encoding_at_ia32 0 opd"

definition mod_ia32 :: "Operand_ia32 \<Rightarrow> u8" where
  "mod_ia32 opd = drop_bit 6 (encoding_at_ia32 0 opd) AND 3"

definition rm_ia32 :: "Operand_ia32 \<Rightarrow> CPURegister_ia32" where
  "rm_ia32 opd = from_code_ia32 (unat (encoding_at_ia32 0 opd AND 7))"

definition scale_ia32 :: "Operand_ia32 \<Rightarrow> u8" where
  "scale_ia32 opd = drop_bit 6 (encoding_at_ia32 1 opd) AND 3"

definition index_ia32 :: "Operand_ia32 \<Rightarrow> CPURegister_ia32" where
  "index_ia32 opd = from_code_ia32 (unat (drop_bit 3 (encoding_at_ia32 1 opd) AND 7))"

definition base_ia32 :: "Operand_ia32 \<Rightarrow> CPURegister_ia32" where
  "base_ia32 opd = from_code_ia32 (unat (encoding_at_ia32 1 opd AND 7))"

definition disp8_ia32 :: "Operand_ia32 \<Rightarrow> u8" where
  "disp8_ia32 opd = encoding_ia32 opd ! (length_ia32 opd - 1)"

definition disp32_ia32 :: "Operand_ia32 \<Rightarrow> u32" where
  "disp32_ia32 opd = ucast (encoding_ia32 opd ! (length_ia32 opd - 4))"

definition SetModRM_ia32 :: "u8 \<Rightarrow> CPURegister_ia32 \<Rightarrow> Operand_ia32 \<Rightarrow> Operand_ia32" where
  "SetModRM_ia32 md rm opd =
     opd\<lparr>encoding_ia32 := (encoding_ia32 opd)[0 := push_bit 6 md OR of_nat (code_ia32 rm)], length_ia32 := 1\<rparr>"

definition SetSIB_ia32 :: "ScaleFactor \<Rightarrow> CPURegister_ia32 \<Rightarrow> CPURegister_ia32 \<Rightarrow> Operand_ia32 \<Rightarrow> Operand_ia32" where
  "SetSIB_ia32 scale index base opd =
     opd\<lparr>encoding_ia32 := (encoding_ia32 opd)[1 := push_bit 6 (ScaleFactor_code scale)
           OR push_bit 3 (of_nat (code_ia32 index)) OR of_nat (code_ia32 base)], length_ia32 := 2\<rparr>"

definition SetDisp8_ia32 :: "u8 \<Rightarrow> Operand_ia32 \<Rightarrow> Operand_ia32" where
  "SetDisp8_ia32 disp opd =
     opd\<lparr>encoding_ia32 := (encoding_ia32 opd)[length_ia32 opd := disp], length_ia32 := length_ia32 opd + 1\<rparr>"

definition SetDisp32_ia32 :: "u32 \<Rightarrow> Operand_ia32 \<Rightarrow> Operand_ia32" where
  "SetDisp32_ia32 disp opd =
     opd\<lparr>encoding_ia32 := poke (length_ia32 opd) (le_bytes 4 disp) (encoding_ia32 opd), length_ia32 := length_ia32 opd + 4\<rparr>"

definition sib_for_esp :: "CPURegister_ia32 \<Rightarrow> Operand_ia32 \<Rightarrow> Operand_ia32" where
  "sib_for_esp base opd = (if code_ia32 base = code_ia32 esp then SetSIB_ia32 TIMES_1 esp base opd else opd)"

definition Address_ia32 :: "CPURegister_ia32 \<Rightarrow> u32 \<Rightarrow> Operand_ia32" where
  "Address_ia32 base disp =
     (if disp = 0 \<and> code_ia32 base \<noteq> code_ia32 ebp then sib_for_esp base (SetModRM_ia32 0 base new_Operand_ia32)
      else if IsInt8 disp then SetDisp8_ia32 (ucast disp) (sib_for_esp base (SetModRM_ia32 1 base new_Operand_ia32))
      else SetDisp32_ia32 disp (sib_for_esp base (SetModRM_ia32 2 base new_Operand_ia32)))"

definition Address_index_ia32 :: "CPURegister_ia32 \<Rightarrow> ScaleFactor \<Rightarrow> u32 \<Rightarrow> Operand_ia32" where
  "Address_index_ia32 index scale disp =
     SetDisp32_ia32 disp (SetSIB_ia32 scale index ebp (SetModRM_ia32 0 esp new_Operand_ia32))"

definition Address_base_index_ia32 :: "CPURegister_ia32 \<Rightarrow> CPURegister_ia32 \<Rightarrow> ScaleFactor \<Rightarrow> u32 \<Rightarrow> Operand_ia32" where
  "Address_base_index_ia32 base index scale disp =
     (if disp = 0 \<and> (of_nat (code_ia32 base) AND 7 :: u8) \<noteq> of_nat (code_ia32 ebp) then
        SetSIB_ia32 scale index base (SetModRM_ia32 0 esp new_Operand_ia32)
      else if IsInt8 disp then
        SetDisp8_ia32 (ucast disp) (SetSIB_ia32 scale index base (SetModRM_ia32 1 esp new_Operand_ia32))
      else
        SetDisp32_ia32 disp (SetSIB_ia32 scale index base (SetModRM_ia32 2 esp new_Operand_ia32)))"

section \<open>Assembler\<close>

definition EmitImmediate_ia32 :: "Immediate_ia32 \<Rightarrow> nat \<Rightarrow> 'a AssemblerBase_scheme \<Rightarrow> 'a AssemblerBase_scheme res" where
  "EmitImmediate_ia32 imm sz a =
     (if sz = 8 then Inr (Emit1_x64 (ucast (imm_value_ia32 imm)) a)
      else if sz = 32 then Inr (Emit_x64 (imm_value_ia32 imm) a)
      else Inl Unreachable)"

definition EmitModRM_ia32 :: "u8 \<Rightarrow> u8 \<Rightarrow> u8 \<Rightarrow> 'a AssemblerBase_scheme \<Rightarrow> 'a AssemblerBase_scheme" where
  "EmitModRM_ia32 Mod RegOpcode RM = Emit1_x64 (push_bit 6 Mod OR push_bit 3 RegOpcode OR RM)"

definition EmitModRM_ExtraOpcode_Register_ia32 :: "u8 \<Rightarrow> CPURegister_ia32 \<Rightarrow> 'a AssemblerBase_scheme \<Rightarrow> 'a AssemblerBase_scheme" where
  "EmitModRM_ExtraOpcode_Register_ia32 extra_opcode reg = EmitModRM_ia32 3 extra_opcode (of_nat (code_ia32 reg))"

definition EmitModRM_Register_Register_ia32 :: "CPURegister_ia32 \<Rightarrow> CPURegister_ia32 \<Rightarrow> 'a AssemblerBase_scheme \<Rightarrow> 'a AssemblerBase_scheme" where
  "EmitModRM_Register_Register_ia32 reg1 reg2 = EmitModRM_ia32 3 (of_nat (code_ia32 reg1)) (of_nat (code_ia32 reg2))"

definition EmitModRM_Update_Register_ia32 :: "u8 \<Rightarrow> CPURegister_ia32 \<Rightarrow> 'a AssemblerBase_scheme \<Rightarrow> 'a AssemblerBase_scheme" where
  "EmitModRM_Update_Register_ia32 modRM reg = EmitModRM_ia32 (asm_ModRM_Mod modRM) (of_nat (code_ia32 reg)) (asm_ModRM_RM modRM)"

definition EmitModRM_Update_ExtraOpcode_ia32 :: "u8 \<Rightarrow> u8 \<Rightarrow> 'a AssemblerBase_scheme \<Rightarrow> 'a AssemblerBase_scheme" where
  "EmitModRM_Update_ExtraOpcode_ia32 modRM extra_opcode = EmitModRM_ia32 (asm_ModRM_Mod modRM) extra_opcode (asm_ModRM_RM modRM)"

definition EmitOpcode_ia32 :: "u8 \<Rightarrow> 'a AssemblerBase_scheme \<Rightarrow> 'a AssemblerBase_scheme" where
  "EmitOpcode_ia32 opc = Emit1_x64 opc"

definition EmitOpcode_Register_ia32 :: "u8 \<Rightarrow> CPURegister_ia32 \<Rightarrow> 'a AssemblerBase_scheme \<Rightarrow> 'a AssemblerBase_scheme" where
  "EmitOpcode_Register_ia32 opc reg = EmitOpcode_ia32 (opc OR of_nat (code_ia32 reg))"

definition tail_ia32 :: "Operand_ia32 \<Rightarrow> u8 list" where
  "tail_ia32 operand = take (length_ia32 operand - 1) (drop 1 (encoding_ia32 operand))"

definition Emit_OpEn_Register_Operand_ia32 :: "CPURegister_ia32 \<Rightarrow> Operand_ia32 \<Rightarrow> 'a AssemblerBase_scheme \<Rightarrow> 'a AssemblerBase_scheme" where
  "Emit_OpEn_Register_Operand_ia32 dst operand a =
     EmitBuffer_x64 (tail_ia32 operand) (EmitModRM_Update_Register_ia32 (modrm_ia32 operand) dst a)"

definition Emit_OpEn_Register_RegisterOperand_ia32 :: "CPURegister_ia32 \<Rightarrow> CPURegister_ia32 \<Rightarrow> 'a AssemblerBase_scheme \<Rightarrow> 'a AssemblerBase_scheme" where
  "Emit_OpEn_Register_RegisterOperand_ia32 dst src = EmitModRM_Register_Register_ia32 dst src"

definition Emit_OpEn_RegisterOperand_Immediate_ia32 :: "u8 \<Rightarrow> CPURegister_ia32 \<Rightarrow> Immediate_ia32 \<Rightarrow> 'a AssemblerBase_scheme
    \<Rightarrow> 'a AssemblerBase_scheme res" where
  "Emit_OpEn_RegisterOperand_Immediate_ia32 extra_opcode reg imm a =
     EmitImmediate_ia32 imm (imm_size_ia32 imm) (EmitModRM_ExtraOpcode_Register_ia32 extra_opcode reg a)"

definition Emit_OpEn_Operand_ia32 :: "u8 \<Rightarrow> Operand_ia32 \<Rightarrow> 'a AssemblerBase_scheme \<Rightarrow> 'a AssemblerBase_scheme" where
  "Emit_OpEn_Operand_ia32 extra_opcode operand a =
     EmitBuffer_x64 (tail_ia32 operand) (EmitModRM_Update_ExtraOpcode_ia32 (modrm_ia32 operand) extra_opcode a)"

definition Emit_OpEn_RegisterOperand_ia32 :: "u8 \<Rightarrow> CPURegister_ia32 \<Rightarrow> 'a AssemblerBase_scheme \<Rightarrow> 'a AssemblerBase_scheme" where
  "Emit_OpEn_RegisterOperand_ia32 extra_opcode reg = EmitModRM_ExtraOpcode_Register_ia32 extra_opcode reg"

definition Emit_OpEn_OpcodeRegister_Immediate_ia32 :: "u8 \<Rightarrow> CPURegister_ia32 \<Rightarrow> Immediate_ia32 \<Rightarrow> 'a AssemblerBase_scheme
    \<Rightarrow> 'a AssemblerBase_scheme res" where
  "Emit_OpEn_OpcodeRegister_Immediate_ia32 opc dst imm a =
     EmitImmediate_ia32 imm (imm_size_ia32 imm) (EmitOpcode_Register_ia32 opc dst a)"

subsection \<open>Instructions\<close>

definition pushfq_ia32 :: "'a AssemblerBase_scheme \<Rightarrow> 'a AssemblerBase_scheme" where
  "pushfq_ia32 = Emit1_x64 0x9C"

definition jmp_ia32 :: "Immediate_ia32 \<Rightarrow> 'a AssemblerBase_scheme \<Rightarrow> 'a AssemblerBase_scheme" where
  "jmp_ia32 imm a = Emit_x64 (imm_value_ia32 imm) (Emit1_x64 0xE9 a)"

definition sub_ia32 :: "CPURegister_ia32 \<Rightarrow> Immediate_ia32 \<Rightarrow> 'a AssemblerBase_scheme \<Rightarrow> 'a AssemblerBase_scheme res" where
  "sub_ia32 dst imm a =
     (if size_ia32 dst \<noteq> 32 then Inl CheckFailed
      else Emit_OpEn_RegisterOperand_Immediate_ia32 5 dst imm (EmitOpcode_ia32 0x81 a))"

definition add_ia32 :: "CPURegister_ia32 \<Rightarrow> Immediate_ia32 \<Rightarrow> 'a AssemblerBase_scheme \<Rightarrow> 'a AssemblerBase_scheme res" where
  "add_ia32 dst imm a =
     (if size_ia32 dst \<noteq> 32 then Inl CheckFailed
      else Emit_OpEn_RegisterOperand_Immediate_ia32 0 dst imm (EmitOpcode_ia32 0x81 a))"

definition mov_imm_ia32 :: "CPURegister_ia32 \<Rightarrow> Immediate_ia32 \<Rightarrow> 'a AssemblerBase_scheme \<Rightarrow> 'a AssemblerBase_scheme res" where
  "mov_imm_ia32 dst imm = Emit_OpEn_OpcodeRegister_Immediate_ia32 0xb8 dst imm"

definition mov_load_ia32 :: "CPURegister_ia32 \<Rightarrow> Operand_ia32 \<Rightarrow> 'a AssemblerBase_scheme \<Rightarrow> 'a AssemblerBase_scheme" where
  "mov_load_ia32 dst src a = Emit_OpEn_Register_Operand_ia32 dst src (EmitOpcode_ia32 0x8B a)"

definition mov_store_ia32 :: "Operand_ia32 \<Rightarrow> CPURegister_ia32 \<Rightarrow> 'a AssemblerBase_scheme \<Rightarrow> 'a AssemblerBase_scheme" where
  "mov_store_ia32 dst src a = Emit_OpEn_Register_Operand_ia32 src dst (EmitOpcode_ia32 0x89 a)"

definition mov_reg_ia32 :: "CPURegister_ia32 \<Rightarrow> CPURegister_ia32 \<Rightarrow> 'a AssemblerBase_scheme \<Rightarrow> 'a AssemblerBase_scheme" where
  "mov_reg_ia32 dst src a = Emit_OpEn_Register_RegisterOperand_ia32 dst src (Emit1_x64 0x8B a)"

definition call_mem_ia32 :: "Operand_ia32 \<Rightarrow> 'a AssemblerBase_scheme \<Rightarrow> 'a AssemblerBase_scheme" where
  "call_mem_ia32 operand a = Emit_OpEn_Operand_ia32 2 operand (EmitOpcode_ia32 0xFF a)"

definition call_imm_ia32 :: "Immediate_ia32 \<Rightarrow> 'a AssemblerBase_scheme \<Rightarrow> 'a AssemblerBase_scheme res" where
  "call_imm_ia32 imm a = EmitImmediate_ia32 imm (imm_size_ia32 imm) (EmitOpcode_ia32 0xe8 a)"

definition call_reg_ia32 :: "CPURegister_ia32 \<Rightarrow> 'a AssemblerBase_scheme \<Rightarrow> 'a AssemblerBase_scheme" where
  "call_reg_ia32 reg a = Emit_OpEn_RegisterOperand_ia32 2 reg (EmitOpcode_ia32 0xFF a)"

definition pop_ia32 :: "CPURegister_ia32 \<Rightarrow> 'a AssemblerBase_scheme \<Rightarrow> 'a AssemblerBase_scheme" where
  "pop_ia32 reg = EmitOpcode_Register_ia32 0x58 reg"

definition push_ia32 :: "CPURegister_ia32 \<Rightarrow> 'a AssemblerBase_scheme \<Rightarrow> 'a AssemblerBase_scheme" where
  "push_ia32 reg = EmitOpcode_Register_ia32 0x50 reg"

definition ret_ia32 :: "'a AssemblerBase_scheme \<Rightarrow> 'a AssemblerBase_scheme" where
  "ret_ia32 = EmitOpcode_ia32 0xc3"

definition nop_ia32 :: "'a AssemblerBase_scheme \<Rightarrow> 'a AssemblerBase_scheme" where
  "nop_ia32 = EmitOpcode_ia32 0x90"

section \<open>TurboAssembler\<close>

record TurboAssembler_ia32 = AssemblerBase +
  data_labels_ia32 :: "RelocLabelEntry_ia32 LiteMutableArray option"

definition new_TurboAssembler_ia32 :: "(nat \<Rightarrow> u8) \<Rightarrow> u32 \<Rightarrow> TurboAssembler_ia32" where
  "new_TurboAssembler_ia32 junk address =
     \<lparr>code_buffer = the (initWithCapacity junk 32), realized_address = ucast address, data_labels_ia32 = None\<rparr>"

definition CurrentIP_ia32 :: "'a AssemblerBase_scheme \<Rightarrow> u32" where
  "CurrentIP_ia32 a = of_nat (pc_offset a) + ucast (realized_address a)"

definition MovRipToRegister_ia32 :: "CPURegister_ia32 \<Rightarrow> 'a AssemblerBase_scheme \<Rightarrow> 'a AssemblerBase_scheme res" where
  "MovRipToRegister_ia32 dst a = res_bind (call_imm_ia32 (Immediate_sized_ia32 0 32) a) (\<lambda>a. Inr (pop_ia32 dst a))"

definition AppendRelocLabelEntry_ia32 :: "RelocLabelEntry_ia32 \<Rightarrow> TurboAssembler_ia32 \<Rightarrow> TurboAssembler_ia32" where
  "AppendRelocLabelEntry_ia32 label a =
     (let labels = (case data_labels_ia32 a of None \<Rightarrow> arr_initWithCapacity 8 | Some labels \<Rightarrow> labels)
      in a\<lparr>data_labels_ia32 := Some (snd (pushObject label labels))\<rparr>)"

definition CallFunction_ia32 :: "u32 \<Rightarrow> TurboAssembler_ia32 \<Rightarrow> TurboAssembler_ia32 res" where
  "CallFunction_ia32 function_address a =
     res_bind (MovRipToRegister_ia32 VOLATILE_REGISTER_ia32 (nop_ia32 a)) (\<lambda>a.
     let a = call_mem_ia32 (Address_ia32 VOLATILE_REGISTER_ia32 0x7FFFFFFF) a;
         addrLabel = pl_link_to_ia32 (ip_offset a) kDisp32_off_9_ia32 (new_RelocLabelEntry_ia32 function_address)
     in Inr (nop_ia32 (AppendRelocLabelEntry_ia32 addrLabel a)))"

definition PseudoBind_ia32 :: "'b PseudoLabel_ia32_scheme \<Rightarrow> 'a AssemblerBase_scheme
    \<Rightarrow> ('b PseudoLabel_ia32_scheme \<times> 'a AssemblerBase_scheme) res" where
  "PseudoBind_ia32 label a =
     (let label = bind_to (int (getSize (code_buffer a))) label
      in if has_confused_instructions_ia32 label then
           res_bind (link_confused_instructions_ia32 label (code_buffer a)) (\<lambda>b. Inr (label, a\<lparr>code_buffer := b\<rparr>))
         else Inr (label, a))"

fun RelocBind_loop_ia32 :: "nat list \<Rightarrow> RelocLabelEntry_ia32 LiteMutableArray \<Rightarrow> 'a AssemblerBase_scheme
    \<Rightarrow> (RelocLabelEntry_ia32 LiteMutableArray \<times> 'a AssemblerBase_scheme) res" where
  "RelocBind_loop_ia32 [] labels a = Inr (labels, a)"
| "RelocBind_loop_ia32 (i # is) labels a =
     res_bind (getObject i labels) (\<lambda>label.
     res_bind (PseudoBind_ia32 label a) (\<lambda>(label, a).
       RelocBind_loop_ia32 is (labels\<lparr>array := (array labels)[i := Some label]\<rparr>) (Emit_x64 (reloc_data_ia32 label) a)))"

definition RelocBind_ia32 :: "TurboAssembler_ia32 \<Rightarrow> TurboAssembler_ia32 res" where
  "RelocBind_ia32 a =
     (case data_labels_ia32 a of None \<Rightarrow> Inr a
      | Some labels \<Rightarrow> res_bind (RelocBind_loop_ia32 [0..<getCount labels] labels a)
          (\<lambda>(labels, a). Inr (a\<lparr>data_labels_ia32 := Some labels\<rparr>)))"

section \<open>CodeGen\<close>

definition JmpNearIndirect_ia32 :: "u32 \<Rightarrow> 'a AssemblerBase_scheme \<Rightarrow> 'a AssemblerBase_scheme" where
  "JmpNearIndirect_ia32 address a =
     (let currIP = CurrentIP_ia32 a + 6;
          offset = address - currIP
      in Emit_x64 offset (Emit1_x64 0x25 (Emit1_x64 0xFF a)))"

end
