(* ===== verification/Relocate_IA32.thy ===== *)
theory Relocate_IA32
  imports Asm_IA32 Closure_Bridge
begin

text \<open>
  Relocation, trampolines and the closure bridge for IA-32: \<^verbatim>\<open>InstructionRelocation/x86/X86InstructionRelocation.cc\<close>,
  \<^verbatim>\<open>InterceptRoutingTrampoline/x86/trampoline-x86.cc\<close> and \<^verbatim>\<open>ClosureTrampolineBridge/x86/\<close>.  The decoder is that of theory
  \<open>X86_Decode\<close> with its flag for x64 off.  The buffer with the original code and the arena are addressed with 64 bits as in the
  theories they come from; the instruction pointers have 32.
\<close>

unbundle bit_operations_syntax

section \<open>One instruction\<close>

definition relo_jcc_ia32 :: "u8 \<Rightarrow> InstrMnemonic \<Rightarrow> u32 \<Rightarrow> u32 \<Rightarrow> 'a AssemblerBase_scheme \<Rightarrow> 'a AssemblerBase_scheme" where
  "relo_jcc_ia32 opc i orig_ip relo_ip a =
     (let orig_offset = ucast (Immediate (instr i) ! 0) :: u32
      in Emit_x64 (orig_ip + orig_offset - relo_ip) (Emit1_x64 opc (Emit1_x64 0x0F a)))"

definition relo_jmp8_ia32 :: "InstrMnemonic \<Rightarrow> u32 \<Rightarrow> u32 \<Rightarrow> 'a AssemblerBase_scheme \<Rightarrow> 'a AssemblerBase_scheme" where
  "relo_jmp8_ia32 i orig_ip relo_ip a =
     (let orig_offset = ucast (Immediate (instr i) ! 0) :: u32;
          offset = ucast (orig_ip + orig_offset - relo_ip) :: u8
      in Emit_x64 (ucast offset) (Emit1_x64 0xE9 a))"

definition relo_rel32_ia32 :: "InstrMnemonic \<Rightarrow> u32 \<Rightarrow> u32 \<Rightarrow> 'a AssemblerBase_scheme \<Rightarrow> 'a AssemblerBase_scheme" where
  "relo_rel32_ia32 i orig_ip relo_ip a =
     (let orig_offset = le_word (Immediate (instr i)) :: u32
      in Emit_x64 (orig_ip + orig_offset - relo_ip) (Emit1_x64 (opcode1 (instr i)) a))"

definition relo_one_ia32 :: "(u64 \<Rightarrow> u8) \<Rightarrow> u64 \<Rightarrow> InstrMnemonic \<Rightarrow> u32 \<Rightarrow> u32 \<Rightarrow> 'a AssemblerBase_scheme
    \<Rightarrow> 'a AssemblerBase_scheme res" where
  "relo_one_ia32 mem p i orig_ip relo_ip a =
     (let opc = opcode1 (instr i)
      in if 0x70 \<le> opc \<and> opc \<le> 0x7F then Inr (relo_jcc_ia32 (mem p) i orig_ip relo_ip a)
         else if 0xE0 \<le> opc \<and> opc \<le> 0xE2 then Inl Unimplemented
         else if opc = 0xE3 then Inl Unimplemented
         else if opc = 0xEB then Inr (relo_jmp8_ia32 i orig_ip relo_ip a)
         else if opc = 0xE8 \<or> opc = 0xE9 then Inr (relo_rel32_ia32 i orig_ip relo_ip a)
         else Inr (EmitBuffer_x64 (fetch mem p (len i)) a))"

section \<open>GenRelocateCode\<close>

partial_function (option) relo_loop_ia32 ::
    "(u64 \<Rightarrow> u8) \<Rightarrow> u64 \<Rightarrow> u32 \<Rightarrow> u64 \<Rightarrow> u32 \<Rightarrow> TurboAssembler_ia32 \<Rightarrow> (u32 \<times> TurboAssembler_ia32) res option" where
  [code]: "relo_loop_ia32 mem stop relo_start p orig_ip a =
     (if p < stop then
        (case ContinueDispatch False mem zero_instr p of
           None \<Rightarrow> None
         | Some i \<Rightarrow>
             (case relo_one_ia32 mem p i orig_ip (relo_start + of_nat (ip_offset a)) a of
                Inl er \<Rightarrow> Some (Inl er)
              | Inr a' \<Rightarrow> relo_loop_ia32 mem stop relo_start (p + of_nat (len i)) (orig_ip + of_nat (len i)) a'))
      else Some (Inr (orig_ip, a)))"

definition relo_jump_back_ia32 :: "u32 \<Rightarrow> u32 \<Rightarrow> 'a AssemblerBase_scheme \<Rightarrow> 'a AssemblerBase_scheme" where
  "relo_jump_back_ia32 relo_start orig_ip a =
     EmitInt64_x64 (ucast orig_ip) (JmpNearIndirect_ia32 (relo_start + of_nat (ip_offset a) + 6) a)"

text \<open>The answer \<open>None\<close> inside is \<^verbatim>\<open>RT_FAILED\<close>: the chunk is too small.\<close>

definition GenRelocateCodeFixed_ia32 ::
    "(nat \<Rightarrow> u8) \<Rightarrow> nat \<Rightarrow> (u64 \<Rightarrow> u8) \<Rightarrow> u64 \<Rightarrow> MemoryRange \<Rightarrow> MemoryRange \<Rightarrow> arena \<Rightarrow> env64
      \<Rightarrow> (arena \<times> env64) option res option" where
  "GenRelocateCodeFixed_ia32 junk pageSize mem buf origin relocated arena e =
     (let relo_start = ucast (mr_address relocated) :: u32
      in case relo_loop_ia32 mem (buf + mr_length origin) relo_start buf (ucast (mr_address origin))
             (CommitRealizeAddress (mr_address relocated) (new_TurboAssembler_ia32 junk 0)) of
        None \<Rightarrow> None
      | Some (Inl er) \<Rightarrow> Some (Inl er)
      | Some (Inr (orig_ip, a)) \<Rightarrow>
          (let a = relo_jump_back_ia32 relo_start orig_ip a
           in if unat (mr_length relocated) < getSize (code_buffer a) then Some (Inr None)
              else Some (res_bind (FinalizeFromTurboAssember 0 None pageSize a arena e)
                     (\<lambda>(code, _, arena', e'). Inr (Some (arena', e'))))))"

definition GenRelocateCode_ia32 ::
    "(nat \<Rightarrow> u8) \<Rightarrow> (nat \<Rightarrow> u64 option) \<Rightarrow> nat \<Rightarrow> (u64 \<Rightarrow> u8) \<Rightarrow> u64 \<Rightarrow> MemoryRange \<Rightarrow> MemoryRange \<Rightarrow> arena \<Rightarrow> env64
      \<Rightarrow> (MemoryRange \<times> arena \<times> env64) res option" where
  "GenRelocateCode_ia32 junk os_alloc pageSize mem buf origin relocated arena e =
     (let (r1, arena1) = (if mr_address relocated = 0 then AllocateCodeChunk (os_alloc 0) pageSize 32 arena else (Some relocated, arena))
      in case r1 of
           None \<Rightarrow> Some (Inl NullPointer)
         | Some relocated1 \<Rightarrow>
             (case GenRelocateCodeFixed_ia32 junk pageSize mem buf origin relocated1 arena1 e of
                None \<Rightarrow> None
              | Some (Inl er) \<Rightarrow> Some (Inl er)
              | Some (Inr (Some (arena2, e2))) \<Rightarrow> Some (Inr (relocated1, arena2, e2))
              | Some (Inr None) \<Rightarrow>
                  (case AllocateCodeChunk (os_alloc 1) pageSize (32 + 16) arena1 of
                     (None, _) \<Rightarrow> Some (Inl NullPointer)
                   | (Some relocated2, arena2) \<Rightarrow> Some (Inr (relocated2, arena2, e)))))"

section \<open>Trampolines\<close>

definition AllocIndirectStub_ia32 ::
    "near_env \<Rightarrow> u32 \<Rightarrow> arena \<Rightarrow> (u32 \<times> PageChunk LiteMutableArray) res option" where
  "AllocIndirectStub_ia32 env branch_address arena =
     map_option (map_sum id (\<lambda>(stub, pages). (case stub of None \<Rightarrow> 0 | Some chunk \<Rightarrow> ucast (mr_address chunk), pages)))
       (near_AllocateDataChunk env (ucast branch_address) (2 * 1024 * 1024 * 1024) 4 arena)"

definition GenerateNormalTrampolineBuffer_ia32 ::
    "(nat \<Rightarrow> u8) \<Rightarrow> near_env \<Rightarrow> u32 \<Rightarrow> u32 \<Rightarrow> arena \<Rightarrow> env64
      \<Rightarrow> (LiteMutableBuffer option \<times> PageChunk LiteMutableArray \<times> env64) res option" where
  "GenerateNormalTrampolineBuffer_ia32 junk env from to arena e =
     (case AllocIndirectStub_ia32 env from arena of
        None \<Rightarrow> None
      | Some (Inl er) \<Rightarrow> Some (Inl er)
      | Some (Inr (branch_stub, pages)) \<Rightarrow>
          if branch_stub = 0 then Some (Inl NullPointer)
          else Some (res_bind (memcpy64 (ucast branch_stub) (le_bytes 4 to) e) (\<lambda>e'.
                 Inr (copy junk (code_buffer (JmpNearIndirect_ia32 branch_stub (new_TurboAssembler_ia32 junk from))), pages, e'))))"

definition GenerateNearTrampolineBuffer_ia32 :: "u32 \<Rightarrow> u32 \<Rightarrow> LiteMutableBuffer option" where
  "GenerateNearTrampolineBuffer_ia32 src dst = None"

definition closure_trampoline_code_ia32 :: "(nat \<Rightarrow> u8) \<Rightarrow> u32 \<Rightarrow> u32 \<Rightarrow> TurboAssembler_ia32" where
  "closure_trampoline_code_ia32 junk closure bridge =
     EmitInt64_x64 (ucast bridge) (EmitInt64_x64 (ucast closure)
       (EmitBuffer_x64 [0xff, 0x25, 0x08, 0, 0, 0] (EmitBuffer_x64 [0xff, 0x35, 0x06, 0, 0, 0] (new_TurboAssembler_ia32 junk 0))))"

definition CreateClosureTrampoline_ia32 ::
    "(nat \<Rightarrow> u8) \<Rightarrow> u64 option \<Rightarrow> nat \<Rightarrow> u32 \<Rightarrow> u32 \<Rightarrow> u64 \<Rightarrow> u64 \<Rightarrow> arena \<Rightarrow> env64
      \<Rightarrow> (ClosureTrampolineEntry \<times> arena \<times> env64) res" where
  "CreateClosureTrampoline_ia32 junk os_alloc pageSize closure bridge data handler arena e =
     res_bind (FinalizeFromTurboAssember 0 os_alloc pageSize (closure_trampoline_code_ia32 junk closure bridge) arena e)
       (\<lambda>(code, _, arena', e').
         Inr (\<lparr>cte_address = mr_address code, cte_size = mr_length code, carry_handler = handler,
               carry_data = data\<rparr>, arena', e'))"

section \<open>The closure bridge\<close>

definition context_registers_ia32 :: "CPURegister_ia32 list" where
  "context_registers_ia32 = [eax, ebx, ecx, edx, ebp, esp, edi, esi]"

definition bridge_save_ia32 :: "(TurboAssembler_ia32 \<Rightarrow> TurboAssembler_ia32 res) list" where
  "bridge_save_ia32 =
     [emits (EmitBuffer_x64 [0x9c]), sub_ia32 esp (Immediate_sized_ia32 4 32), sub_ia32 esp (Immediate_sized_ia32 (8 * 4) 32)]
     @ map (\<lambda>k. emits (mov_store_ia32 (Address_ia32 esp (8 * of_nat k)) (context_registers_ia32 ! k))) [0..<8]"

definition bridge_args_ia32 :: "(TurboAssembler_ia32 \<Rightarrow> TurboAssembler_ia32 res) list" where
  "bridge_args_ia32 =
     [emits (mov_reg_ia32 eax esp), add_ia32 eax (Immediate_sized_ia32 (4 + 4 + 4 + 8 * 4) 32),
      sub_ia32 esp (Immediate_sized_ia32 (2 * 4) 32), emits (mov_store_ia32 (Address_ia32 esp 8) eax)]"

definition bridge_call_ia32 :: "u32 \<Rightarrow> (TurboAssembler_ia32 \<Rightarrow> TurboAssembler_ia32 res) list" where
  "bridge_call_ia32 bridge_handler =
     [emits (EmitBuffer_x64 [0x89, 0xE0]), emits (EmitBuffer_x64 [0x83, 0xE0, 0x07]),
      emits (EmitBuffer_x64 [0x83, 0xF8, 0x00]), emits (EmitBuffer_x64 [0x75, 0x15]),
      CallFunction_ia32 bridge_handler, emits (EmitBuffer_x64 [0xE9, 0x12, 0x00, 0x00, 0x00]),
      emits (EmitBuffer_x64 [0x50]), CallFunction_ia32 bridge_handler, emits (EmitBuffer_x64 [0x58])]"

definition bridge_restore_ia32 :: "(TurboAssembler_ia32 \<Rightarrow> TurboAssembler_ia32 res) list" where
  "bridge_restore_ia32 =
     [add_ia32 esp (Immediate_sized_ia32 (2 * 4) 32)]
     @ map (\<lambda>r. emits (pop_ia32 r)) [eax, ebx, ecx, edx, ebp]
     @ [add_ia32 esp (Immediate_sized_ia32 4 32)]
     @ map (\<lambda>r. emits (pop_ia32 r)) [edi, esi]
     @ [add_ia32 esp (Immediate_sized_ia32 4 32), emits (EmitBuffer_x64 [0x9d]), emits ret_ia32]"

definition closure_bridge_code_ia32 :: "(nat \<Rightarrow> u8) \<Rightarrow> u32 \<Rightarrow> TurboAssembler_ia32 res" where
  "closure_bridge_code_ia32 junk bridge_handler =
     emit_seq (bridge_save_ia32 @ bridge_args_ia32 @ bridge_call_ia32 bridge_handler @ bridge_restore_ia32 @ [RelocBind_ia32])
       (new_TurboAssembler_ia32 junk 0)"

definition get_closure_bridge_ia32 ::
    "(nat \<Rightarrow> u8) \<Rightarrow> u64 option \<Rightarrow> nat \<Rightarrow> u32 \<Rightarrow> u64 \<Rightarrow> arena \<Rightarrow> env64 \<Rightarrow> (u64 \<times> arena \<times> env64) res" where
  "get_closure_bridge_ia32 junk os_alloc pageSize bridge_handler closure_bridge arena e =
     (if closure_bridge \<noteq> 0 then Inr (closure_bridge, arena, e)
      else res_bind (closure_bridge_code_ia32 junk bridge_handler) (\<lambda>a.
           res_bind (FinalizeFromTurboAssember 0 os_alloc pageSize a arena e) (\<lambda>(code, _, arena', e').
             Inr (mr_address code, arena', e'))))"

text \<open>\<^verbatim>\<open>set_routing_bridge_next_hop\<close>: \<^verbatim>\<open>esp\<close> is the sixth register of the context (\<^verbatim>\<open>helper-x86.cc\<close>).\<close>

definition set_routing_bridge_next_hop_ia32 :: "u32 \<Rightarrow> u32 \<Rightarrow> (u32 \<Rightarrow> u8) \<Rightarrow> u32 \<Rightarrow> u8" where
  "set_routing_bridge_next_hop_ia32 ctx address m =
     (let esp_addr = le_word (map (\<lambda>i. m (ctx + 20 + of_nat i)) [0..<4]) - 8
      in (\<lambda>a. if unat (a - esp_addr) < 4 then le_bytes 4 address ! unat (a - esp_addr) else m a))"

end
