(* ===== verification/Trampoline_IA32.thy ===== *)
theory Trampoline_IA32
  imports Relocate_IA32 Trampoline_X64
begin

text \<open>
  What the code emitted for IA-32 does when it runs.  An indirect jump with a displacement and no base register is relative
  to the instruction pointer only on x64; here the displacement is an absolute address, which decides the behaviour of the trampolines.
\<close>

unbundle bit_operations_syntax

section \<open>Instructions\<close>

text \<open>The instructions that occur in the code below, as in the instruction set reference; registers by number, \<open>4\<close> is the stack pointer.\<close>

record ia32_state =
  G32 :: "nat \<Rightarrow> u32"
  EIP :: u32
  mem32 :: "u32 \<Rightarrow> u8"

definition bytes32 :: "(u32 \<Rightarrow> u8) \<Rightarrow> u32 \<Rightarrow> nat \<Rightarrow> u8 list" where
  "bytes32 m p n = map (\<lambda>i. m (p + of_nat i)) [0..<n]"

definition ld_ia32 :: "(u32 \<Rightarrow> u8) \<Rightarrow> u32 \<Rightarrow> u32" where
  "ld_ia32 m p = le_word (bytes32 m p 4)"

definition st_ia32 :: "u32 \<Rightarrow> u32 \<Rightarrow> (u32 \<Rightarrow> u8) \<Rightarrow> u32 \<Rightarrow> u8" where
  "st_ia32 p v m = (\<lambda>a. if unat (a - p) < 4 then le_bytes 4 v ! unat (a - p) else m a)"

definition push_ia32_val :: "u32 \<Rightarrow> ia32_state \<Rightarrow> ia32_state" where
  "push_ia32_val v s = (let sp = G32 s 4 - 4 in s\<lparr>G32 := (G32 s)(4 := sp), mem32 := st_ia32 sp v (mem32 s)\<rparr>)"

definition ia32_step :: "ia32_state \<Rightarrow> ia32_state option" where
  "ia32_step s =
     (let b = (\<lambda>k. mem32 s (EIP s + k)); d = (\<lambda>k. ld_ia32 (mem32 s) (EIP s + k))
      in if b 0 = 0x90 then Some (s\<lparr>EIP := EIP s + 1\<rparr>)
         else if b 0 AND 0xF8 = 0x58 then
           Some (s\<lparr>G32 := (G32 s)(4 := G32 s 4 + 4, unat (b 0 AND 7) := ld_ia32 (mem32 s) (G32 s 4)), EIP := EIP s + 1\<rparr>)
         else if b 0 = 0xE8 then Some ((push_ia32_val (EIP s + 5) s)\<lparr>EIP := EIP s + 5 + d 1\<rparr>)
         else if b 0 = 0xFF \<and> b 1 = 0x25 then Some (s\<lparr>EIP := ld_ia32 (mem32 s) (d 2)\<rparr>)
         else if b 0 = 0xFF \<and> b 1 = 0x35 then Some ((push_ia32_val (ld_ia32 (mem32 s) (d 2)) s)\<lparr>EIP := EIP s + 6\<rparr>)
         else if b 0 = 0xFF \<and> b 1 AND 0xF8 = 0x90 \<and> b 1 \<noteq> 0x94 then
           Some ((push_ia32_val (EIP s + 6) s)\<lparr>EIP := ld_ia32 (mem32 s) (G32 s (unat (b 1 AND 7)) + d 2)\<rparr>)
         else None)"

fun ia32_run :: "nat \<Rightarrow> ia32_state \<Rightarrow> ia32_state option" where
  "ia32_run 0 s = Some s"
| "ia32_run (Suc n) s = (case ia32_step s of None \<Rightarrow> None | Some t \<Rightarrow> ia32_run n t)"

lemma bytes32_Cons: "bytes32 m p (Suc n) = m p # bytes32 m (p + 1) n"
  unfolding bytes32_def upt_conv_Cons [OF zero_less_Suc] by (simp add: map_Suc_upt [symmetric] add.assoc del: upt_Suc)

lemma bytes32_append: "bytes32 m p (j + n) = bytes32 m p j @ bytes32 m (p + of_nat j) n"
  by (induction j arbitrary: p) (simp_all add: bytes32_Cons add.assoc, simp add: bytes32_def)

lemma length_bytes32 [simp]: "length (bytes32 m p n) = n"
  by (simp add: bytes32_def)

lemma bytes32_split:
  assumes "bytes32 m p (length xs + length ys) = xs @ ys"
  shows "bytes32 m p (length xs) = xs" "bytes32 m (p + of_nat (length xs)) (length ys) = ys"
  using assms unfolding bytes32_append by (subst (asm) append_eq_append_conv; simp)+

lemma two_then_four:
  assumes "bytes32 (mem32 s) (EIP s) 6 = [x, y] @ le_bytes 4 d"
  shows "mem32 s (EIP s) = x" "mem32 s (EIP s + 1) = y" "ld_ia32 (mem32 s) (EIP s + 2) = d"
proof -
  have "bytes32 (mem32 s) (EIP s) (length [x, y] + length (le_bytes 4 d)) = [x, y] @ le_bytes 4 d" using assms by simp
  note b = bytes32_split [OF this]
  show "mem32 s (EIP s) = x" "mem32 s (EIP s + 1) = y" using b(1) by (simp_all add: bytes32_def upt_rec)
  show "ld_ia32 (mem32 s) (EIP s + 2) = d" using b(2) by (simp add: ld_ia32_def)
qed

lemma step_jmp_abs:
  "bytes32 (mem32 s) (EIP s) 6 = [0xFF, 0x25] @ le_bytes 4 d \<Longrightarrow> ia32_step s = Some (s\<lparr>EIP := ld_ia32 (mem32 s) d\<rparr>)"
  by (frule two_then_four(1), frule two_then_four(2), drule two_then_four(3)) (simp add: ia32_step_def Let_def)

lemma step_push_abs:
  "bytes32 (mem32 s) (EIP s) 6 = [0xFF, 0x35] @ le_bytes 4 d
     \<Longrightarrow> ia32_step s = Some ((push_ia32_val (ld_ia32 (mem32 s) d) s)\<lparr>EIP := EIP s + 6\<rparr>)"
  by (frule two_then_four(1), frule two_then_four(2), drule two_then_four(3)) (simp add: ia32_step_def Let_def)

lemma step_call_eax:
  "bytes32 (mem32 s) (EIP s) 6 = [0xFF, 0x90] @ le_bytes 4 d
     \<Longrightarrow> ia32_step s = Some ((push_ia32_val (EIP s + 6) s)\<lparr>EIP := ld_ia32 (mem32 s) (G32 s 0 + d)\<rparr>)"
  by (frule two_then_four(1), frule two_then_four(2), drule two_then_four(3)) (simp add: ia32_step_def Let_def)

section \<open>The jumps\<close>

lemma new_TurboAssembler_ia32_ok [simp]:
  "asm_ok (new_TurboAssembler_ia32 junk ad)" "emitted (new_TurboAssembler_ia32 junk ad) = []"
  "pc_offset (new_TurboAssembler_ia32 junk ad) = 0" "realized_address (new_TurboAssembler_ia32 junk ad) = ucast ad"
  using initWithCapacity_ok [of junk 32]
  by (auto simp: new_TurboAssembler_ia32_def asm_ok_def emitted_def pc_offset_def getSize_def initWithCapacity_def)

lemma ucast_up_down32 [simp]: "ucast (ucast x :: u64) = x" for x :: u32
  by (rule bit_word_eqI) (simp add: bit_unsigned_iff)

lemma JmpNearIndirect_ia32_emits:
  assumes "asm_ok a" "pc_offset a < 2 ^ 29"
  shows "asm_ok (JmpNearIndirect_ia32 ad a)" "pc_offset (JmpNearIndirect_ia32 ad a) = pc_offset a + 6"
    "emitted (JmpNearIndirect_ia32 ad a) = emitted a @ [0xFF, 0x25] @ le_bytes 4 (ad - (of_nat (pc_offset a) + ucast (realized_address a) + 6))"
  using assms by (simp_all add: JmpNearIndirect_ia32_def Let_def CurrentIP_ia32_def emits_x64 c_wf)

text \<open>
  The six bytes that are written over a function do not jump through the slot at \<open>stub\<close> that holds the target, but through
  the address \<open>stub - (src + 6)\<close>, the distance from the jump to the slot.
\<close>

theorem normal_trampoline_ia32_misses:
  assumes stub: "AllocIndirectStub_ia32 env src arena = Some (Inr (stub, pages))" "stub \<noteq> 0"
    and "\<forall>i < 4. e_writable e (ucast stub + of_nat i)"
  shows "\<exists>b e'. GenerateNormalTrampolineBuffer_ia32 junk env src dst arena e = Some (Inr (Some b, pages, e'))
    \<and> (\<forall>s. EIP s = src \<longrightarrow> bytes32 (mem32 s) src (length (contents b)) = contents b
         \<longrightarrow> ia32_run 1 s = Some (s\<lparr>EIP := ld_ia32 (mem32 s) (stub - (src + 6))\<rparr>))
    \<and> (stub - (src + 6) = stub \<longrightarrow> src + 6 = 0)"
proof -
  let ?a = "JmpNearIndirect_ia32 stub (new_TurboAssembler_ia32 junk src)"
  have em: "asm_ok ?a" "pc_offset ?a = 6" "emitted ?a = [0xFF, 0x25] @ le_bytes 4 (stub - (src + 6))"
    using JmpNearIndirect_ia32_emits [of "new_TurboAssembler_ia32 junk src" stub] by simp_all
  obtain b where b: "copy junk (code_buffer ?a) = Some b" "contents b = emitted ?a" using copy_emitted [OF em(1)] em(2) by auto
  obtain e' where e': "memcpy64 (ucast stub) (le_bytes 4 dst) e = Inr e'" using assms(3) by (auto simp: memcpy64_def)
  have "GenerateNormalTrampolineBuffer_ia32 junk env src dst arena e = Some (Inr (Some b, pages, e'))"
    using stub e' b(1) by (simp add: GenerateNormalTrampolineBuffer_ia32_def)
  moreover have "ia32_run 1 s = Some (s\<lparr>EIP := ld_ia32 (mem32 s) (stub - (src + 6))\<rparr>)"
    if "EIP s = src" "bytes32 (mem32 s) src (length (contents b)) = contents b" for s
    using step_jmp_abs [of s "stub - (src + 6)"] that unfolding b(2) em(3) by simp
  ultimately show ?thesis by (auto simp: neg_eq_iff_add_eq_0)
qed

text \<open>The jump at the end of a relocated prologue goes through the word at address 0.\<close>

theorem jump_back_ia32_through_null:
  assumes "asm_ok a" "pc_offset a < 2 ^ 29" "realized_address a = ucast start"
  shows "emitted (relo_jump_back_ia32 start orig_ip a) = emitted a @ [0xFF, 0x25, 0, 0, 0, 0] @ le_bytes 8 (ucast orig_ip :: u64)"
    "bytes32 (mem32 s) (EIP s) 6 = [0xFF, 0x25, 0, 0, 0, 0] \<Longrightarrow> ia32_step s = Some (s\<lparr>EIP := ld_ia32 (mem32 s) 0\<rparr>)"
proof -
  have z: "le_bytes 4 (0 :: u32) = [0, 0, 0, 0]" by code_simp
  show "emitted (relo_jump_back_ia32 start orig_ip a) = emitted a @ [0xFF, 0x25, 0, 0, 0, 0] @ le_bytes 8 (ucast orig_ip :: u64)"
    using JmpNearIndirect_ia32_emits [OF assms(1,2)] assms
    by (simp add: relo_jump_back_ia32_def emits_x64 c_wf ip_offset_pc_offset z add.commute)
  show "ia32_step s = Some (s\<lparr>EIP := ld_ia32 (mem32 s) 0\<rparr>)" if "bytes32 (mem32 s) (EIP s) 6 = [0xFF, 0x25, 0, 0, 0, 0]"
    using step_jmp_abs [of s 0] that by (simp add: z)
qed

section \<open>The closure trampoline\<close>

text \<open>
  What the closure trampoline pushes is the word at address 6, and it continues at the address in the word at address 8; the
  entry and the address of the bridge follow the two instructions, but neither is read.
\<close>

theorem closure_trampoline_ia32_absolute:
  "emitted (closure_trampoline_code_ia32 junk closure bridge) =
     [0xff, 0x35, 6, 0, 0, 0] @ [0xff, 0x25, 8, 0, 0, 0] @ le_bytes 8 (ucast closure :: u64) @ le_bytes 8 (ucast bridge :: u64)"
  "bytes32 (mem32 s) (EIP s) 6 = [0xff, 0x35, 6, 0, 0, 0] \<Longrightarrow>
     ia32_step s = Some ((push_ia32_val (ld_ia32 (mem32 s) 6) s)\<lparr>EIP := EIP s + 6\<rparr>)"
  "bytes32 (mem32 t) (EIP t) 6 = [0xff, 0x25, 8, 0, 0, 0] \<Longrightarrow> ia32_step t = Some (t\<lparr>EIP := ld_ia32 (mem32 t) 8\<rparr>)"
proof -
  have z: "le_bytes 4 (6 :: u32) = [6, 0, 0, 0]" "le_bytes 4 (8 :: u32) = [8, 0, 0, 0]" by code_simp+
  show "emitted (closure_trampoline_code_ia32 junk closure bridge) =
     [0xff, 0x35, 6, 0, 0, 0] @ [0xff, 0x25, 8, 0, 0, 0] @ le_bytes 8 (ucast closure :: u64) @ le_bytes 8 (ucast bridge :: u64)"
    by (simp add: closure_trampoline_code_ia32_def emits_x64 c_wf)
  show "ia32_step s = Some ((push_ia32_val (ld_ia32 (mem32 s) 6) s)\<lparr>EIP := EIP s + 6\<rparr>)"
    if "bytes32 (mem32 s) (EIP s) 6 = [0xff, 0x35, 6, 0, 0, 0]"
    using step_push_abs [of s 6] that by (simp add: z)
  show "ia32_step t = Some (t\<lparr>EIP := ld_ia32 (mem32 t) 8\<rparr>)" if "bytes32 (mem32 t) (EIP t) 6 = [0xff, 0x25, 8, 0, 0, 0]"
    using step_jmp_abs [of t 8] that by (simp add: z)
qed

section \<open>Calls through the literal\<close>

text \<open>
  \<open>CallFunction\<close> takes the instruction pointer with a call of the next instruction and a \<open>pop\<close>, which leaves the address of the \<open>pop\<close>
  in the register, seven bytes before the end of the call through the literal.  The displacement that binding the label
  stores adds nine, so the call reads two bytes behind the literal.
\<close>

theorem call_ia32_reads_behind_literal:
  assumes "instructions_ia32 l = snd (pushObject \<lparr>position_ia32 = p, pl_type_ia32 = kDisp32_off_9_ia32\<rparr> (arr_initWithCapacity 8))"
    and "4 \<le> p" "pos l = int lit"
  shows "link_confused_instructions_ia32 l b = FixBindLabel (p - 4) (of_nat lit - of_nat p + 9) b"
    "\<lbrakk>bytes32 (mem32 s) (EIP s) 6 = [0xFF, 0x90] @ le_bytes 4 (of_nat lit - of_nat p + 9 :: u32);
      EIP s = base + of_nat p - 6; G32 s 0 = base + of_nat p - 7\<rbrakk> \<Longrightarrow>
     ia32_step s = Some ((push_ia32_val (EIP s + 6) s)\<lparr>EIP := ld_ia32 (mem32 s) (base + of_nat lit + 2)\<rparr>)"
proof -
  have one: "getCount (instructions_ia32 l) = 1"
    "getObject 0 (instructions_ia32 l) = Inr \<lparr>position_ia32 = p, pl_type_ia32 = kDisp32_off_9_ia32\<rparr>"
    unfolding assms(1) by (simp_all add: pushObject_def arr_initWithCapacity_def getCount_def getObject_def)
  show "link_confused_instructions_ia32 l b = FixBindLabel (p - 4) (of_nat lit - of_nat p + 9) b"
    using assms(2,3) by (cases "FixBindLabel (p - 4) (of_nat lit - of_nat p + 9) b")
      (simp_all add: link_confused_instructions_ia32_def one)
  show "ia32_step s = Some ((push_ia32_val (EIP s + 6) s)\<lparr>EIP := ld_ia32 (mem32 s) (base + of_nat lit + 2)\<rparr>)"
    if "bytes32 (mem32 s) (EIP s) 6 = [0xFF, 0x90] @ le_bytes 4 (of_nat lit - of_nat p + 9 :: u32)"
      "EIP s = base + of_nat p - 6" "G32 s 0 = base + of_nat p - 7"
  proof -
    have "ia32_step s = Some ((push_ia32_val (EIP s + 6) s)\<lparr>EIP := ld_ia32 (mem32 s) (G32 s 0 + (of_nat lit - of_nat p + 9))\<rparr>)"
      by (rule step_call_eax) (rule that(1))
    moreover have "G32 s 0 + (of_nat lit - of_nat p + 9) = base + of_nat lit + 2" using that(3) by (simp add: algebra_simps)
    ultimately show ?thesis by simp
  qed
qed

end
