(* ===== verification/Spec2Isabelle.thy ===== *)
theory Spec2Isabelle
  imports InlineHook_Exec Hook_Correct Bridge_X64_Exec Relocate_X64_Loop Inject_Correct Inject_Inline_Correct Trampoline_Arm32 Trampoline_IA32
begin

text \<open>
  A verification library of the native code under \<^verbatim>\<open>src/app/src/main/cpp\<close>: a library that is loaded into a Unity game, hooks the
  functions of the game that read and set text, and replaces the text from a dictionary.  All paths below are relative to that directory.

  \<^bold>\<open>The program.\<close>  \<^verbatim>\<open>inject_dobby.cpp\<close> (or \<^verbatim>\<open>inject_inlinehook.cpp\<close>) reads the dictionary, looks up the module of the game and sets hooks; its handlers translate
  strings with the tools of \<^verbatim>\<open>Tools/tools.cpp\<close>.  A hook is set by one of two engines.  \<^verbatim>\<open>inlineHook/\<close> patches 32-bit ARM
  and Thumb functions: it copies and relocates the first instructions, writes a jump over them, and moves threads that stand in them.
  \<^verbatim>\<open>Dobby/\<close> does the same on ARM64, ARM and x64: an interceptor keeps the hooks, a routing object builds the trampoline, the relocated
  prologue and, for instrumentation, a closure that saves the registers and calls a handler.  The assemblers write to a growing buffer whose
  bytes are put into executable memory from an arena.

  \<^bold>\<open>The prelude.\<close>  \<open>C_Prelude\<close> has the results of fallible code (\<open>'a res\<close>, an error or a value), bytes and words, the
  macros of \<^verbatim>\<open>utilities_macro.h\<close>, and the collections of rules that the components share.  \<open>Mem64\<close> is a byte memory with 64-bit addresses.

  \<^bold>\<open>The application.\<close>
  \<^item> \<open>Text_Tools\<close>: \<^verbatim>\<open>UTF8_to_Unicode\<close>, \<^verbatim>\<open>tolower_unicode\<close>, \<^verbatim>\<open>memcmp_plus\<close>, on lists of bytes with every access checked.  The
    conversion is equal to a reference encoder, the search finds the first occurrence.
  \<^item> \<open>Dictionary\<close>: \<^verbatim>\<open>strtok\<close>, \<^verbatim>\<open>strtol\<close> and \<^verbatim>\<open>fgets\<close> as the code uses them, \<^verbatim>\<open>readFile\<close>, \<^verbatim>\<open>init_address_from_file\<close>,
    \<^verbatim>\<open>find_module_by_name\<close>.
  \<^item> \<open>Localize\<close>, \<open>Localize_Correct\<close>: the handlers \<^verbatim>\<open>new_func_set\<close> and \<^verbatim>\<open>new_func_get\<close> on the memory of the game, and the
    translation they make of a string.  The functions of the game are a parameter that may change memory.
  \<^item> \<open>Inject\<close>, \<open>Inject_Correct\<close>: \<^verbatim>\<open>JNI_OnLoad\<close>, the handlers of the loader and of the listing of methods, as steps on the global
    variables and a list of the hooks that were set.
  \<^item> \<open>Inject_Inline\<close>, \<open>Inject_Inline_Correct\<close>: \<^verbatim>\<open>inject_inlinehook.cpp\<close>, the variant that replaces a whole text by its
    beginning and hooks with inlineHook.  Its state holds the process of theory \<open>InlineHook\<close>, whose operations set its hooks, so that what
    is proved is that a processor which enters a hooked function runs into the handler.

  \<^bold>\<open>inlineHook.\<close>
  \<^item> \<open>Relocate\<close> models \<^verbatim>\<open>relocate.c\<close>; \<open>Relocate_Layout\<close> gives the emitted code and boundary tables in closed form;
    \<open>Relocate_Bits\<close>, \<open>Relocate_Arm\<close>, \<open>Relocate_Thumb16\<close>, \<open>Relocate_Thumb32\<close> prove the code of each instruction class
    against \<open>Arm_Isa\<close>, the instruction semantics written from the architecture.
  \<^item> \<open>InlineHook\<close> models \<^verbatim>\<open>inlineHook.c\<close>: the table of items, the patching and the frozen threads; \<open>InlineHook_Table\<close> has the
    invariant of the table, \<open>InlineHook_Exec\<close> what a hooked function does when it runs and how it is restored.

  \<^bold>\<open>Dobby.\<close>
  \<^item> \<open>Lite_Buffer\<close> (\<^verbatim>\<open>external/stdcxx\<close>, \<^verbatim>\<open>CodeBufferKit\<close>) and \<open>Assembler_Base\<close>; the locales \<open>byte_sink\<close> and
    \<open>patchable_sink\<close> are the contract of a buffer that is appended to, patched and read, interpreted on both.
  \<^item> \<open>Memory_Arena\<close> (\<^verbatim>\<open>MemoryArena.cc\<close>, \<^verbatim>\<open>code-patch-tool-posix.cc\<close>, \<^verbatim>\<open>AssemblyCode.cc\<close>) and \<open>Near_Arena\<close>
    (\<^verbatim>\<open>NearMemoryArena.cc\<close>, \<^verbatim>\<open>ProcesssRuntimeUtility.cc\<close>).
  \<^item> ARM64: \<open>Arm64_Constants\<close>, \<open>Asm_Arm64\<close>, \<open>Relocate_Arm64\<close> are the code; \<open>Arm64_Isa\<close> the instruction semantics;
    \<open>Asm_Arm64_Correct\<close>, \<open>Trampoline_Arm64\<close>, \<open>Relocate_Arm64_Layout\<close>, \<open>Relocate_Arm64_Exec\<close> the proofs.
  \<^item> ARM: \<open>Asm_Arm32\<close>, \<open>Asm_Thumb\<close>, \<open>Relocate_Arm32\<close> are the code; \<open>Relocate_Arm32_Layout\<close> gives the emitted words,
    \<open>Relocate_Arm32_Exec\<close> runs the relocated prologue, \<open>Trampoline_Arm32\<close> the trampolines, the relocated branches and the bridge.
  \<^item> x64: \<open>X86_Decode\<close>, \<open>Asm_X64\<close>, \<open>Relocate_X64\<close> are the code; \<open>X64_Isa\<close> the semantics of the instructions that the
    assembler emits; \<open>X86_Length\<close>, \<open>Trampoline_X64\<close>, \<open>Call_X64\<close>, \<open>Relocate_X64_Loop\<close> the proofs.
  \<^item> IA-32: \<open>Asm_IA32\<close> and \<open>Relocate_IA32\<close> are the code, with the decoder of \<open>X86_Decode\<close>; \<open>Trampoline_IA32\<close> proves where the
    emitted jumps really lead: they are written as if relative to the instruction pointer, which the processor does not know.
  \<^item> \<open>Closure_Bridge\<close> (x64 and ARM64) with \<open>Bridge_X64\<close>, \<open>Bridge_X64_Exec\<close>: the bridge saves what the handler may change.
  \<^item> \<open>Dobby_Hook\<close> (\<^verbatim>\<open>Interceptor.cpp\<close>, \<^verbatim>\<open>InterceptRouting/\<close>): \<^verbatim>\<open>DobbyHook\<close>, \<^verbatim>\<open>DobbyInstrument\<close> and the plugin switches, over a
    record of the functions of the architecture; \<open>Hook_Registry\<close> the table they keep, with the locale of its invariant; \<open>Hook_Correct\<close>
    the hook end to end on ARM64, from the entry of the function to the replacement and from the returned address through the relocated
    instructions, whose blocks keep all registers but \<open>x17\<close> and return from calls to the next block; and, for x64, the proof that no
    sequence of calls hooks anything, because the search for a near slot never succeeds and its answer is not checked.

  \<^bold>\<open>How the code is modelled.\<close>  Integers have the width of the source.  A null pointer, an access out of bounds, an unreachable branch or a
  failed check is a value of \<open>'a res\<close>.  Memory of the process is a function from addresses to bytes with the set of writable pages; the bytes
  of a fresh block are a parameter (\<open>junk\<close>).  Objects that the code shares are kept in a heap indexed by numbers.  The answers of the
  system (\<^verbatim>\<open>mmap\<close>, the map of the process, the bytes of a file) are parameters.

  \<^bold>\<open>Bounds and fuel.\<close>  Buffers are proved correct below \<open>2 ^ 30\<close> bytes, where the \<^verbatim>\<open>int\<close> arithmetic of the code cannot wrap; a
  relocated prologue is far below.  Recursions follow the code that is left to relocate and terminate by a measure; the loops that can run
  forever return an option, and one of them, the relocation loop of x64, is proved to do so for some input.  The literals of a relocated ARM prologue must lie
  within 4096 bytes, the range of the load.

  \<^bold>\<open>What the properties assume.\<close>  The theorems on relocation name the instructions they cover by a predicate (\<open>arm_supported\<close>,
  \<open>arm_plain\<close>, \<open>thumb16_supported\<close>, \<open>thumb32_supported\<close>, \<open>relocatable\<close>, \<open>block_a32\<close>, \<open>copied\<close>, \<open>plain_form\<close>), and the text of each
  property says in words which they are.  Outside the predicate the instruction semantics has no meaning or the relocation is wrong,
  which the theorems on errors state: conditional ARM instructions lose their condition, relocated branches of the ARM back end go
  astray, a table slot or a Thumb prologue with too many rows overflows.  Allocation must succeed and the code fit in its page; a patch that
  crosses a page is proved to fault.  The theorems on \<^verbatim>\<open>inlineHook\<close> ask for a slot of the table that no removed item has used.
  The texts that the handlers translate are shorter than fifty characters (or cut at a hundred bytes in \<open>Inject_Inline\<close>) and are seen as
  \<^verbatim>\<open>memccpy\<close> copies them, up to the byte it is told to stop at.

  \<^bold>\<open>Not modelled.\<close>  The demonstration libraries; the plugins
  under \<^verbatim>\<open>builtin-plugin\<close>; the code for Darwin and Windows; the thin layer over POSIX calls; logging, tests, the Java activity, and
  tables of other projects that nothing includes.  Caches and the order in which other threads see a patch are outside the model.
\<close>

end
